(* ===== verification/Prelude.thy ===== *)
theory Prelude
  imports Main "HOL-Library.Word" "HOL-Library.Multiset"
begin

text \<open>
  Shared vocabulary of the development: how a C++ call can end (\<open>outcome\<close>), the error sum used by
  code that only throws \<open>std::exception\<close>s, the decimal formatting of integers, the text escaping
  that several files of the repository repeat, and the bounded append-only buffer that the trace
  buffer, the memory log sink and the event ring are built on, with its interface locale.

  Counters of type \<open>std::uint64_t\<close> and \<open>std::size_t\<close> that only count up from zero are \<open>nat\<close>;
  \<open>std::int64_t\<close> values are kept at 64 bits and read with \<open>sint\<close>.
\<close>

type_synonym i64 = "64 word"
type_synonym u64 = "64 word"
type_synonym u32 = "32 word"
type_synonym u8 = "8 word"
type_synonym node_id = nat

text \<open>
  \<open>Std_exception\<close> is anything derived from \<open>std::exception\<close>, with its \<open>what()\<close>;
  \<open>Other_exception\<close> is any other thrown value. An \<open>outcome\<close> separates a normal return, a thrown
  exception, undefined behaviour (a read outside a vector) and a computation that used up the
  bound on its number of steps.
\<close>

datatype exn = Std_exception string | Other_exception

datatype 'a outcome = Ret 'a | Throw exn | Undef | Diverge

named_theorems frame_simps \<open>fields an operation leaves alone\<close>

named_theorems obs_simps \<open>effects of the observability operations\<close>

subsection \<open>Errors as values\<close>

definition rbind :: "'e + 'a \<Rightarrow> ('a \<Rightarrow> 'e + 'b) \<Rightarrow> 'e + 'b" where
  "rbind r f = (case r of Inl e \<Rightarrow> Inl e | Inr x \<Rightarrow> f x)"

definition guard_err :: "bool \<Rightarrow> 'e \<Rightarrow> 'e + 'a \<Rightarrow> 'e + 'a" where
  "guard_err bad e r = (if bad then Inl e else r)"

text \<open>
  Code with early returns: a step either ends the function with its result (\<open>Inl\<close>) or goes on
  with a value (\<open>Inr\<close>), and threads a state.
\<close>

definition ebind :: "('r + 'a) \<times> 'c \<Rightarrow> ('a \<Rightarrow> 'c \<Rightarrow> ('r + 'b) \<times> 'c) \<Rightarrow> ('r + 'b) \<times> 'c" where
  "ebind m f = (case m of (Inl r, c) \<Rightarrow> (Inl r, c) | (Inr x, c) \<Rightarrow> f x c)"

definition ends_with :: "('r + 'r) \<times> 'c \<Rightarrow> 'r \<times> 'c" where
  "ends_with m = (case m of (Inl r, c) \<Rightarrow> (r, c) | (Inr r, c) \<Rightarrow> (r, c))"

subsection \<open>Decimal text\<close>

definition digit_char :: "nat \<Rightarrow> char" where
  "digit_char d = char_of (48 + d)"

fun nat_str :: "nat \<Rightarrow> string" where
  "nat_str n = (if n < 10 then [digit_char n] else nat_str (n div 10) @ [digit_char (n mod 10)])"

declare nat_str.simps [simp del]

function pos_str :: "int \<Rightarrow> string" where
  "pos_str i = (if i < 10 then [digit_char (nat i)] else pos_str (i div 10) @ [digit_char (nat (i mod 10))])"
  by auto
termination
  by (relation "measure nat") auto

declare pos_str.simps [simp del]

definition int_str :: "int \<Rightarrow> string" where
  "int_str i = (if i < 0 then CHR ''-'' # pos_str (- i) else pos_str i)"

definition i64_str :: "i64 \<Rightarrow> string" where
  "i64_str w = int_str (sint w)"

definition bool_json :: "bool \<Rightarrow> string" where
  "bool_json b = (if b then ''true'' else ''false'')"

subsection \<open>Escaped text\<close>

abbreviation dquote :: char where "dquote \<equiv> CHR 0x22"
abbreviation backslash :: char where "backslash \<equiv> CHR 0x5C"
abbreviation newline :: char where "newline \<equiv> CHR 0x0A"
abbreviation carriage :: char where "carriage \<equiv> CHR 0x0D"
abbreviation tabulator :: char where "tabulator \<equiv> CHR 0x09"

definition escape_char :: "char \<Rightarrow> string" where
  "escape_char c =
     (if c = backslash then [backslash, backslash]
      else if c = dquote then [backslash, dquote]
      else if c = newline then [backslash, CHR ''n'']
      else if c = carriage then [backslash, CHR ''r'']
      else if c = tabulator then [backslash, CHR ''t'']
      else [c])"

definition escape_text :: "string \<Rightarrow> string" where
  "escape_text s = concat (map escape_char s)"

fun unescape_text :: "string \<Rightarrow> string option" where
  "unescape_text [] = Some []"
| "unescape_text (c # s) =
     (if c = dquote \<or> c = newline \<or> c = carriage \<or> c = tabulator then None
      else if c = backslash then
        (case s of
           [] \<Rightarrow> None
         | d # s' \<Rightarrow>
             (if d = backslash then map_option (Cons backslash) (unescape_text s')
              else if d = dquote then map_option (Cons dquote) (unescape_text s')
              else if d = CHR ''n'' then map_option (Cons newline) (unescape_text s')
              else if d = CHR ''r'' then map_option (Cons carriage) (unescape_text s')
              else if d = CHR ''t'' then map_option (Cons tabulator) (unescape_text s')
              else None))
      else map_option (Cons c) (unescape_text s))"

text \<open>\<open>quoted s\<close> is \<open>s\<close> between double quotes; \<open>jkey k\<close> is a JSON member name with its colon.\<close>

definition quoted :: "string \<Rightarrow> string" where
  "quoted s = dquote # s @ [dquote]"

definition jkey :: "string \<Rightarrow> string" where
  "jkey k = quoted k @ '':''"

fun comma_join :: "string list \<Rightarrow> string" where
  "comma_join [] = []"
| "comma_join [x] = x"
| "comma_join (x # y # xs) = x @ '','' @ comma_join (y # xs)"

subsection \<open>The bounded buffer\<close>

text \<open>
  \<open>std::vector\<close> used as a bounded log: nothing is kept at capacity zero, the oldest entry is erased
  when the buffer is full, the new entry goes to the back.
\<close>

definition ring_push :: "nat \<Rightarrow> 'a \<Rightarrow> 'a list \<Rightarrow> 'a list" where
  "ring_push cap x xs =
     (if cap = 0 then xs else (if length xs = cap then tl xs else xs) @ [x])"

definition last_n :: "nat \<Rightarrow> 'a list \<Rightarrow> 'a list" where
  "last_n n xs = drop (length xs - n) xs"

subsection \<open>Lemmas\<close>

lemma rbind_simps [simp]:
  "rbind (Inl e) f = Inl e"
  "rbind (Inr x) f = f x"
  by (simp_all add: rbind_def)

lemma rbind_eq_Inr [simp]: "rbind r f = Inr y \<longleftrightarrow> (\<exists>x. r = Inr x \<and> f x = Inr y)"
  by (cases r) auto

lemma rbind_cong [fundef_cong]:
  "r = r' \<Longrightarrow> (\<And>x. r' = Inr x \<Longrightarrow> f x = g x) \<Longrightarrow> rbind r f = rbind r' g"
  by (cases r') auto

lemma guard_err_eq_Inr [simp]: "guard_err b e r = Inr y \<longleftrightarrow> \<not> b \<and> r = Inr y"
  by (simp add: guard_err_def)

lemma guard_err_cong [fundef_cong]:
  "b = b' \<Longrightarrow> e = e' \<Longrightarrow> (\<not> b' \<Longrightarrow> r = r') \<Longrightarrow> guard_err b e r = guard_err b' e' r'"
  by (simp add: guard_err_def)

lemma nat_str_not_Nil [simp]: "nat_str n \<noteq> []"
  by (subst nat_str.simps) simp

lemma last_n_length [simp]: "length (last_n n xs) = min n (length xs)"
  by (simp add: last_n_def)

lemma last_n_all: "length xs \<le> n \<Longrightarrow> last_n n xs = xs"
  by (simp add: last_n_def)

lemma ring_push_bounded: "length xs \<le> cap \<Longrightarrow> length (ring_push cap x xs) \<le> cap"
  by (auto simp: ring_push_def)

lemma ring_push_last_n:
  assumes "length xs \<le> cap"
  shows "ring_push cap x xs = last_n cap (xs @ [x])"
proof (cases "cap = 0 \<or> length xs < cap")
  case True
  with assms show ?thesis by (auto simp: ring_push_def last_n_def)
next
  case False
  with assms have "length xs = cap" "cap \<noteq> 0" by auto
  then show ?thesis by (auto simp: ring_push_def last_n_def drop_Suc)
qed

lemma last_n_append_last_n: "last_n n (last_n n xs @ ys) = last_n n (xs @ ys)"
proof (cases "length xs \<le> n")
  case True
  then show ?thesis by (simp add: last_n_all)
next
  case False
  then show ?thesis by (simp add: last_n_def add.commute)
qed

lemma escape_text_simps [simp]:
  "escape_text [] = []"
  "escape_text (c # s) = escape_char c @ escape_text s"
  by (simp_all add: escape_text_def)

text \<open>Escaping loses nothing, and its result holds no raw quote or line break.\<close>

lemma unescape_escape_char: "unescape_text (escape_char c @ s) = map_option (Cons c) (unescape_text s)"
  by (auto simp: escape_char_def)

lemma unescape_escape: "unescape_text (escape_text s) = Some s"
  by (induction s) (simp_all add: unescape_escape_char)

subsection \<open>The interface of a bounded log\<close>

text \<open>
  What a client of a bounded log relies on: pushing numbers the entry with the next sequence
  number, stores it by \<open>ring_push\<close> and never changes the capacity.
\<close>

locale bounded_log =
  fixes push :: "'e \<Rightarrow> 's \<Rightarrow> 's"
    and items :: "'s \<Rightarrow> 'e list"
    and cap :: "'s \<Rightarrow> nat"
    and count :: "'s \<Rightarrow> nat"
    and stamp :: "nat \<Rightarrow> 'e \<Rightarrow> 'e"
  assumes items_push: "items (push e s) = ring_push (cap s) (stamp (Suc (count s)) e) (items s)"
    and cap_push: "cap (push e s) = cap s"
    and count_push: "count (push e s) = Suc (count s)"
begin

definition stamped :: "nat \<Rightarrow> 'e list \<Rightarrow> 'e list" where
  "stamped n es = map (\<lambda>(i, e). stamp (Suc (n + i)) e) (enumerate 0 es)"

lemma stamped_Cons: "stamped n (e # es) = stamp (Suc n) e # stamped (Suc n) es"
  by (auto simp: stamped_def enumerate_eq_zip map_zip_map upt_conv_Cons
      simp del: upt_Suc intro!: nth_equalityI)

lemma cap_pushes: "cap (fold push es s) = cap s"
  by (induction es arbitrary: s) (simp_all add: cap_push)

lemma count_pushes: "count (fold push es s) = count s + length es"
  by (induction es arbitrary: s) (simp_all add: count_push)

lemma bounded_push: "length (items s) \<le> cap s \<Longrightarrow> length (items (push e s)) \<le> cap (push e s)"
  by (simp add: items_push cap_push ring_push_bounded)

lemma bounded_pushes:
  "length (items s) \<le> cap s \<Longrightarrow> length (items (fold push es s)) \<le> cap s"
  by (induction es arbitrary: s) (use bounded_push cap_push in fastforce)+

theorem items_pushes:
  "length (items s) \<le> cap s \<Longrightarrow>
     items (fold push es s) = last_n (cap s) (items s @ stamped (count s) es)"
proof (induction es arbitrary: s)
  case Nil
  then show ?case by (simp add: stamped_def last_n_all)
next
  case (Cons e es)
  have "items (fold push (e # es) s) =
      last_n (cap s) (items (push e s) @ stamped (Suc (count s)) es)"
    using Cons.IH [of "push e s"] bounded_push [OF Cons.prems, of e]
    by (simp add: cap_push count_push)
  also have "items (push e s) = last_n (cap s) (items s @ [stamp (Suc (count s)) e])"
    using Cons.prems by (simp add: items_push ring_push_last_n)
  finally show ?case
    by (simp add: last_n_append_last_n stamped_Cons)
qed

end

end
