(* ===== verification/Ast.thy ===== *)
theory Ast
  imports Prelude
begin

text \<open>
  The data shared by the behaviour-tree components: Lisp data as the reader builds it
  (\<open>include/muslisp/value.hpp\<close>, \<open>src/value.cpp\<close>), the compiled tree (\<open>include/bt/ast.hpp\<close>)
  and the node status (\<open>include/bt/status.hpp\<close>).

  A Lisp value is modelled by the tree it denotes. Objects with an identity of their own (procedures, vectors, maps,
  queues, generators, handles) are \<open>VOther\<close> of their type tag and a number, the address of a heap object or the handle.
  A \<open>double\<close> is its 64 IEEE bits.
\<close>

type_synonym double = "64 word"

subsection \<open>Lisp data\<close>

datatype value_type =
    T_nil | T_boolean | T_integer | T_floating | T_symbol | T_string | T_cons
  | T_primitive_fn | T_closure | T_vec | T_map | T_pq | T_rng | T_bt_def | T_bt_instance
  | T_image_handle | T_blob_handle

datatype lisp_value =
    VNil
  | VBool bool
  | VInt i64
  | VFloat double
  | VSym string
  | VStr string
  | VCons lisp_value lisp_value
  | VOther value_type nat

fun type_of :: "lisp_value \<Rightarrow> value_type" where
  "type_of VNil = T_nil"
| "type_of (VBool _) = T_boolean"
| "type_of (VInt _) = T_integer"
| "type_of (VFloat _) = T_floating"
| "type_of (VSym _) = T_symbol"
| "type_of (VStr _) = T_string"
| "type_of (VCons _ _) = T_cons"
| "type_of (VOther t _) = t"

fun type_name :: "value_type \<Rightarrow> string" where
  "type_name T_nil = ''nil''"
| "type_name T_boolean = ''boolean''"
| "type_name T_integer = ''integer''"
| "type_name T_floating = ''float''"
| "type_name T_symbol = ''symbol''"
| "type_name T_string = ''string''"
| "type_name T_cons = ''cons''"
| "type_name T_primitive_fn = ''primitive_fn''"
| "type_name T_closure = ''closure''"
| "type_name T_vec = ''vec''"
| "type_name T_map = ''map''"
| "type_name T_pq = ''pq''"
| "type_name T_rng = ''rng''"
| "type_name T_bt_def = ''bt_def''"
| "type_name T_bt_instance = ''bt_instance''"
| "type_name T_image_handle = ''image_handle''"
| "type_name T_blob_handle = ''blob_handle''"

definition list_from_vector :: "lisp_value list \<Rightarrow> lisp_value" where
  "list_from_vector items = foldr VCons items VNil"

fun vector_from_list :: "lisp_value \<Rightarrow> string + lisp_value list" where
  "vector_from_list VNil = Inr []"
| "vector_from_list (VCons a d) = rbind (vector_from_list d) (\<lambda>xs. Inr (a # xs))"
| "vector_from_list _ = Inl ''expected proper list''"

fun is_proper_list :: "lisp_value \<Rightarrow> bool" where
  "is_proper_list VNil = True"
| "is_proper_list (VCons _ d) = is_proper_list d"
| "is_proper_list _ = False"

definition is_truthy :: "lisp_value \<Rightarrow> bool" where
  "is_truthy v = (if v = VNil then False else if v = VBool False then False else True)"

subsection \<open>The compiled tree\<close>

datatype status = Success | Failure | Running

fun status_name :: "status \<Rightarrow> string" where
  "status_name Success = ''success''"
| "status_name Failure = ''failure''"
| "status_name Running = ''running''"

datatype node_kind =
    K_seq | K_sel | K_invert | K_repeat | K_retry | K_cond | K_act | K_succeed | K_fail | K_running
  | K_plan_action | K_vla_request | K_vla_wait | K_vla_cancel
  | K_mem_seq | K_mem_sel | K_async_seq | K_reactive_seq | K_reactive_sel

datatype arg_kind = A_nil | A_boolean | A_integer | A_floating | A_symbol | A_string

record arg_value =
  ar_kind :: arg_kind
  ar_bool :: bool
  ar_int :: i64
  ar_float :: double
  ar_text :: string

record node =
  nd_kind :: node_kind
  nd_id :: node_id
  nd_children :: "node_id list"
  nd_leaf_name :: string
  nd_args :: "arg_value list"
  nd_int_param :: i64

record bt_definition =
  df_nodes :: "node list"
  df_root :: node_id
  df_source_hash :: string
  df_canonical_dsl_hash :: string
  df_canonical_dsl :: string

text \<open>The default member initialisers of \<open>arg_value\<close>, \<open>node\<close> and \<open>definition\<close>.\<close>

definition arg_default :: arg_value where
  "arg_default = \<lparr>ar_kind = A_nil, ar_bool = False, ar_int = 0, ar_float = 0, ar_text = ''''\<rparr>"

definition node_default :: node where
  "node_default = \<lparr>nd_kind = K_seq, nd_id = 0, nd_children = [], nd_leaf_name = '''', nd_args = [],
     nd_int_param = 0\<rparr>"

definition definition_default :: bt_definition where
  "definition_default = \<lparr>df_nodes = [], df_root = 0, df_source_hash = '''',
     df_canonical_dsl_hash = '''', df_canonical_dsl = ''''\<rparr>"

definition materialize_arg :: "arg_value \<Rightarrow> lisp_value" where
  "materialize_arg a =
     (case ar_kind a of
        A_nil \<Rightarrow> VNil
      | A_boolean \<Rightarrow> VBool (ar_bool a)
      | A_integer \<Rightarrow> VInt (ar_int a)
      | A_floating \<Rightarrow> VFloat (ar_float a)
      | A_symbol \<Rightarrow> VSym (ar_text a)
      | A_string \<Rightarrow> VStr (ar_text a))"

subsection \<open>Well-formed definitions\<close>

text \<open>
  \<open>composite\<close>, \<open>decorator\<close>, \<open>named_leaf\<close> and \<open>childless\<close> are the groups of node kinds the sources
  distinguish. \<open>wf_node\<close> bounds the children of node \<open>i\<close> by \<open>i\<close> itself: the compiler emits children
  before their parent, and this order is what makes a tree walk end.
\<close>

definition composite :: "node_kind \<Rightarrow> bool" where
  "composite k = (k \<in> {K_seq, K_sel, K_mem_seq, K_mem_sel, K_async_seq, K_reactive_seq, K_reactive_sel})"

definition decorator :: "node_kind \<Rightarrow> bool" where
  "decorator k = (k \<in> {K_invert, K_repeat, K_retry})"

definition named_leaf :: "node_kind \<Rightarrow> bool" where
  "named_leaf k = (k \<in> {K_cond, K_act})"

definition wf_node :: "nat \<Rightarrow> node \<Rightarrow> bool" where
  "wf_node i n \<longleftrightarrow>
     nd_id n = i \<and> (\<forall>c \<in> set (nd_children n). c < i) \<and>
     (composite (nd_kind n) \<longrightarrow> nd_children n \<noteq> []) \<and>
     (decorator (nd_kind n) \<longrightarrow> length (nd_children n) = 1) \<and>
     (\<not> composite (nd_kind n) \<and> \<not> decorator (nd_kind n) \<longrightarrow> nd_children n = [])"

definition wf_definition :: "bt_definition \<Rightarrow> bool" where
  "wf_definition d \<longleftrightarrow>
     df_root d < length (df_nodes d) \<and>
     (\<forall>i < length (df_nodes d). wf_node i (df_nodes d ! i))"

subsection \<open>Lemmas\<close>

lemma vector_from_list_list_from_vector [simp]:
  "vector_from_list (list_from_vector xs) = Inr xs"
  by (induction xs) (simp_all add: list_from_vector_def)

lemma list_from_vector_vector_from_list:
  "vector_from_list v = Inr xs \<Longrightarrow> list_from_vector xs = v"
  by (induction v arbitrary: xs rule: vector_from_list.induct)
    (auto simp: list_from_vector_def)

lemma is_proper_list_iff: "is_proper_list v \<longleftrightarrow> (\<exists>xs. vector_from_list v = Inr xs)"
  by (induction v rule: vector_from_list.induct) auto

lemma vector_from_list_size: "vector_from_list v = Inr xs \<Longrightarrow> size_list size xs = size v"
  by (induction v arbitrary: xs rule: vector_from_list.induct) auto

lemma member_size_list: "x \<in> set xs \<Longrightarrow> size x < size_list size xs"
  by (induction xs) auto

lemma wf_definition_child:
  "wf_definition d \<Longrightarrow> i < length (df_nodes d) \<Longrightarrow> c \<in> set (nd_children (df_nodes d ! i)) \<Longrightarrow>
     c < i \<and> c < length (df_nodes d)"
  by (fastforce simp: wf_definition_def wf_node_def)

end
