(* ===== verification/Doubles.thy ===== *)
theory Doubles
  imports Ast
begin

text \<open>
  \<open>double\<close> as the 64 bits of an IEEE binary64 number: classification, order, correctly rounded
  arithmetic (round to nearest, ties to even) and the decimal text that \<open>operator<<\<close> (format
  \<open>%g\<close>, six significant digits) and \<open>std::to_string\<close> (format \<open>%f\<close>, six decimals) print. This is the part
  of the C++ arithmetic and library that the sources use on times, confidences and bounds. Every
  definition computes on integers, so a concrete value evaluates.
\<close>

unbundle bit_operations_syntax

subsection \<open>Classification and order\<close>

definition fp_bits :: "double \<Rightarrow> int" where
  "fp_bits w = uint w"

definition fp_neg :: "double \<Rightarrow> bool" where
  "fp_neg w \<longleftrightarrow> fp_bits w \<ge> 2 ^ 63"

definition fp_mag :: "double \<Rightarrow> int" where
  "fp_mag w = fp_bits w mod 2 ^ 63"

definition fp_inf_mag :: int where
  "fp_inf_mag = 2047 * 2 ^ 52"

definition fp_is_nan :: "double \<Rightarrow> bool" where
  "fp_is_nan w \<longleftrightarrow> fp_mag w > fp_inf_mag"

definition fp_is_inf :: "double \<Rightarrow> bool" where
  "fp_is_inf w \<longleftrightarrow> fp_mag w = fp_inf_mag"

definition fp_is_finite :: "double \<Rightarrow> bool" where
  "fp_is_finite w \<longleftrightarrow> fp_mag w < fp_inf_mag"

definition fp_make :: "bool \<Rightarrow> int \<Rightarrow> double" where
  "fp_make neg mag = word_of_int ((if neg then 2 ^ 63 else 0) + mag)"

definition fp_nan :: double where
  "fp_nan = fp_make False (fp_inf_mag + 2 ^ 51)"

definition fp_one :: double where
  "fp_one = 0x3FF0000000000000"

text \<open>The order of the finite and infinite numbers is the order of \<open>fp_key\<close>; both zeros have key 0.\<close>

definition fp_key :: "double \<Rightarrow> int" where
  "fp_key w = (if fp_neg w then - fp_mag w else fp_mag w)"

definition fp_less :: "double \<Rightarrow> double \<Rightarrow> bool" where
  "fp_less a b \<longleftrightarrow> \<not> fp_is_nan a \<and> \<not> fp_is_nan b \<and> fp_key a < fp_key b"

definition fp_le :: "double \<Rightarrow> double \<Rightarrow> bool" where
  "fp_le a b \<longleftrightarrow> \<not> fp_is_nan a \<and> \<not> fp_is_nan b \<and> fp_key a \<le> fp_key b"

definition fp_eq :: "double \<Rightarrow> double \<Rightarrow> bool" where
  "fp_eq a b \<longleftrightarrow> \<not> fp_is_nan a \<and> \<not> fp_is_nan b \<and> fp_key a = fp_key b"

text \<open>\<open>std::max(a, b)\<close> is \<open>a < b ? b : a\<close>, \<open>std::min(a, b)\<close> is \<open>b < a ? b : a\<close>.\<close>

definition fp_max :: "double \<Rightarrow> double \<Rightarrow> double" where
  "fp_max a b = (if fp_less a b then b else a)"

definition fp_min :: "double \<Rightarrow> double \<Rightarrow> double" where
  "fp_min a b = (if fp_less b a then b else a)"

definition fp_clamp :: "double \<Rightarrow> double \<Rightarrow> double \<Rightarrow> double" where
  "fp_clamp v lo hi = (if fp_less v lo then lo else if fp_less hi v then hi else v)"

definition fp_abs :: "double \<Rightarrow> double" where
  "fp_abs w = fp_make False (fp_mag w)"

definition fp_uminus :: "double \<Rightarrow> double" where
  "fp_uminus w = fp_make (\<not> fp_neg w) (fp_mag w)"

subsection \<open>Rounding\<close>

function bit_length :: "int \<Rightarrow> int" where
  "bit_length n = (if n \<le> 0 then 0 else 1 + bit_length (n div 2))"
  by auto
termination
  by (relation "measure nat") auto

declare bit_length.simps [simp del]

definition round_half_even :: "int \<Rightarrow> int \<Rightarrow> int" where
  "round_half_even n d =
     (let q = n div d; r = n mod d in
      if 2 * r < d then q else if 2 * r > d then q + 1 else q + q mod 2)"

definition scale2 :: "int \<Rightarrow> int \<Rightarrow> int" where
  "scale2 n k = (if k \<ge> 0 then n * 2 ^ nat k else n)"

text \<open>The magnitude nearest to \<open>n / d\<close>: \<open>m * 2 ^ q\<close> has the bits \<open>(q + 1074) * 2 ^ 52 + m\<close>.\<close>

definition floor_log2 :: "int \<Rightarrow> int \<Rightarrow> int" where
  "floor_log2 n d =
     (let e = bit_length n - bit_length d in
      if scale2 n (- e) \<ge> scale2 d e then e else e - 1)"

definition round_mag :: "int \<Rightarrow> int \<Rightarrow> int" where
  "round_mag n d =
     (if n = 0 then 0
      else let q = max (- 1074) (floor_log2 n d - 52);
               m = round_half_even (scale2 n (- q)) (scale2 d q)
           in min fp_inf_mag ((q + 1074) * 2 ^ 52 + m))"

definition fp_num :: "double \<Rightarrow> int" where
  "fp_num w =
     (let e = fp_mag w div 2 ^ 52; f = fp_mag w mod 2 ^ 52 in
      if e = 0 then f else (2 ^ 52 + f) * 2 ^ nat (e - 1075))"

definition fp_den :: "double \<Rightarrow> int" where
  "fp_den w = (let e = fp_mag w div 2 ^ 52 in if e = 0 then 2 ^ 1074 else 2 ^ nat (1075 - e))"

text \<open>A signed fraction \<open>(i, d)\<close>, rounded; a zero result takes the sign \<open>z\<close>.\<close>

definition fp_round :: "bool \<Rightarrow> int \<Rightarrow> int \<Rightarrow> double" where
  "fp_round z i d = (if i = 0 then fp_make z 0 else fp_make (i < 0) (round_mag \<bar>i\<bar> d))"

definition fp_int_num :: "double \<Rightarrow> int" where
  "fp_int_num w = (if fp_neg w then - fp_num w else fp_num w)"

definition fp_of_int :: "int \<Rightarrow> double" where
  "fp_of_int i = fp_round False i 1"

definition fp_add :: "double \<Rightarrow> double \<Rightarrow> double" where
  "fp_add a b =
     (if fp_is_nan a \<or> fp_is_nan b then fp_nan
      else if fp_is_inf a then (if fp_is_inf b \<and> fp_neg a \<noteq> fp_neg b then fp_nan else a)
      else if fp_is_inf b then b
      else fp_round (fp_neg a \<and> fp_neg b)
        (fp_int_num a * fp_den b + fp_int_num b * fp_den a) (fp_den a * fp_den b))"

definition fp_sub :: "double \<Rightarrow> double \<Rightarrow> double" where
  "fp_sub a b = fp_add a (fp_uminus b)"

definition fp_mul :: "double \<Rightarrow> double \<Rightarrow> double" where
  "fp_mul a b =
     (let s = (fp_neg a \<noteq> fp_neg b) in
      if fp_is_nan a \<or> fp_is_nan b then fp_nan
      else if fp_is_inf a \<or> fp_is_inf b then
        (if fp_mag a = 0 \<or> fp_mag b = 0 then fp_nan else fp_make s fp_inf_mag)
      else fp_round s (fp_int_num a * fp_int_num b) (fp_den a * fp_den b))"

definition fp_div :: "double \<Rightarrow> double \<Rightarrow> double" where
  "fp_div a b =
     (let s = (fp_neg a \<noteq> fp_neg b) in
      if fp_is_nan a \<or> fp_is_nan b then fp_nan
      else if fp_is_inf a then (if fp_is_inf b then fp_nan else fp_make s fp_inf_mag)
      else if fp_is_inf b then fp_make s 0
      else if fp_mag b = 0 then (if fp_mag a = 0 then fp_nan else fp_make s fp_inf_mag)
      else fp_make s (round_mag (fp_num a * fp_den b) (fp_num b * fp_den a)))"

text \<open>\<open>std::sqrt\<close>, correctly rounded: an integer root of more than 64 bits and a sticky bit.\<close>

fun isqrt_from :: "nat \<Rightarrow> int \<Rightarrow> int \<Rightarrow> int" where
  "isqrt_from 0 r n = r"
| "isqrt_from (Suc b) r n = (if (r + 2 ^ b) * (r + 2 ^ b) \<le> n then isqrt_from b (r + 2 ^ b) n else isqrt_from b r n)"

definition fp_sqrt :: "double \<Rightarrow> double" where
  "fp_sqrt a =
     (if fp_is_nan a then fp_nan
      else if fp_mag a = 0 then a
      else if fp_neg a then fp_nan
      else if fp_is_inf a then a
      else let n = fp_num a * fp_den a * 2 ^ 128; r = isqrt_from (nat (bit_length n)) 0 n
           in fp_make False (round_mag (2 * r + (if r * r = n then 0 else 1)) (fp_den a * 2 ^ 65)))"

subsection \<open>Decimal text\<close>

fun pad_left :: "nat \<Rightarrow> string \<Rightarrow> string" where
  "pad_left n s = (if length s < n then CHR ''0'' # pad_left (n - 1) s else s)"

declare pad_left.simps [simp del]

definition fixed_digits :: "nat \<Rightarrow> int \<Rightarrow> string" where
  "fixed_digits decimals v =
     (let s = pad_left (Suc decimals) (int_str v); k = length s - decimals in
      take k s @ (if decimals = 0 then [] else ''.'' @ drop k s))"

definition fp_special :: "double \<Rightarrow> string" where
  "fp_special w = (if fp_neg w then ''-'' else []) @ (if fp_is_nan w then ''nan'' else ''inf'')"

definition fp_sign_str :: "double \<Rightarrow> string" where
  "fp_sign_str w = (if fp_neg w then ''-'' else [])"

text \<open>\<open>std::to_string(double)\<close>.\<close>

definition fp_to_string :: "double \<Rightarrow> string" where
  "fp_to_string w =
     (if \<not> fp_is_finite w then fp_special w
      else fp_sign_str w @ fixed_digits 6 (round_half_even (fp_num w * 10 ^ 6) (fp_den w)))"

fun neg_exponent :: "nat \<Rightarrow> int \<Rightarrow> int \<Rightarrow> int \<Rightarrow> int" where
  "neg_exponent 0 k n d = k"
| "neg_exponent (Suc fuel) k n d = (if n * 10 \<ge> d then k + 1 else neg_exponent fuel (k + 1) (n * 10) d)"

text \<open>The decimal exponent of \<open>n / d\<close>; below one, at most 324 digits follow the point.\<close>

definition dec_exponent :: "int \<Rightarrow> int \<Rightarrow> int" where
  "dec_exponent n d =
     (if n \<ge> d then int (length (int_str (n div d))) - 1 else - (neg_exponent 324 0 n d))"

definition sig_digits :: "nat \<Rightarrow> int \<Rightarrow> int \<Rightarrow> int \<Rightarrow> int" where
  "sig_digits p n d x =
     (if x < int p then round_half_even (n * 10 ^ nat (int p - 1 - x)) d
      else round_half_even n (d * 10 ^ nat (x - (int p - 1))))"

definition strip_zeros :: "string \<Rightarrow> string" where
  "strip_zeros s = rev (dropWhile (\<lambda>c. c = CHR ''0'') (rev s))"

definition with_point :: "string \<Rightarrow> string \<Rightarrow> string" where
  "with_point whole frac = (let f = strip_zeros frac in whole @ (if f = [] then [] else ''.'' @ f))"

definition exponent_str :: "int \<Rightarrow> string" where
  "exponent_str x = (if x < 0 then ''e-'' else ''e+'') @ pad_left 2 (int_str \<bar>x\<bar>)"

text \<open>\<open>operator<<(ostream, double)\<close> with no float field and precision \<open>p\<close>; the default precision is 6.\<close>

definition fp_str_prec :: "nat \<Rightarrow> double \<Rightarrow> string" where
  "fp_str_prec p w =
     (if \<not> fp_is_finite w then fp_special w
      else if fp_mag w = 0 then fp_sign_str w @ ''0''
      else let n = fp_num w; d = fp_den w; x0 = dec_exponent n d; v0 = sig_digits p n d x0;
               x = (if v0 = 10 ^ p then x0 + 1 else x0); v = (if v0 = 10 ^ p then 10 ^ (p - 1) else v0);
               s = int_str v
           in fp_sign_str w @
              (if x < - 4 \<or> x \<ge> int p then with_point (take 1 s) (drop 1 s) @ exponent_str x
               else if x \<ge> 0 then with_point (take (nat x + 1) s) (drop (nat x + 1) s)
               else with_point ''0'' (replicate (nat (- x) - 1) (CHR ''0'') @ s)))"

definition fp_str :: "double \<Rightarrow> string" where
  "fp_str w = fp_str_prec 6 w"

subsection \<open>Durations in milliseconds\<close>

text \<open>
  \<open>duration_cast<duration<double, std::milli>>(ns).count()\<close>: the conversion multiplies by the period
  ratio \<open>1 / 1000000\<close>, that is it converts the count to \<open>double\<close> and divides by \<open>1e6\<close>.
\<close>

definition fp_million :: double where
  "fp_million = 0x412E848000000000"

definition ms_of_ns :: "int \<Rightarrow> double" where
  "ms_of_ns t = fp_div (fp_of_int t) fp_million"

text \<open>\<open>duration_cast<milliseconds>\<close> truncates towards zero.\<close>

definition ns_to_ms :: "int \<Rightarrow> int" where
  "ns_to_ms t = (if t \<ge> 0 then t div 1000000 else - ((- t) div 1000000))"

end
