(* ===== verification/Compiler.thy ===== *)
theory Compiler
  imports Ast
begin

text \<open>
  The tree compiler, \<open>src/bt/compiler.cpp\<close>: \<open>compiler_state::compile_node\<close> turns a Lisp form into
  nodes appended to \<open>nodes_\<close>, children first, and returns the id of the node it emitted. The state
  is the vector \<open>nodes_\<close>; \<open>bt_compile_error\<close> and the \<open>lisp_error\<close> of \<open>vector_from_list\<close> are \<open>Inl\<close>
  of their message.

  The lemmas show that a compiled definition is a tree laid out in post-order: ids are vector
  positions, children precede their parent, and every node but the root is the child of exactly
  one node.
\<close>

definition is_cons :: "lisp_value \<Rightarrow> bool" where
  "is_cons v = (type_of v = T_cons)"

definition composite_kind :: "string \<Rightarrow> node_kind option" where
  "composite_kind form_name =
     (if form_name = ''seq'' then Some K_seq
      else if form_name = ''sel'' then Some K_sel
      else if form_name = ''mem-seq'' then Some K_mem_seq
      else if form_name = ''mem-sel'' then Some K_mem_sel
      else if form_name = ''async-seq'' then Some K_async_seq
      else if form_name = ''reactive-seq'' then Some K_reactive_seq
      else if form_name = ''reactive-sel'' then Some K_reactive_sel
      else None)"

definition vla_kind :: "string \<Rightarrow> node_kind option" where
  "vla_kind form_name =
     (if form_name = ''vla-request'' then Some K_vla_request
      else if form_name = ''vla-wait'' then Some K_vla_wait
      else if form_name = ''vla-cancel'' then Some K_vla_cancel
      else None)"

definition arity_message :: "string \<Rightarrow> nat \<Rightarrow> nat \<Rightarrow> string" where
  "arity_message name expected got =
     name @ '': expected '' @ nat_str (expected - 1) @ '' arguments, got '' @ nat_str (got - 1)"

definition compile_arg :: "lisp_value \<Rightarrow> string + arg_value" where
  "compile_arg raw =
     (case raw of
        VNil \<Rightarrow> Inr (arg_default\<lparr>ar_kind := A_nil\<rparr>)
      | VBool b \<Rightarrow> Inr (arg_default\<lparr>ar_kind := A_boolean, ar_bool := b\<rparr>)
      | VInt i \<Rightarrow> Inr (arg_default\<lparr>ar_kind := A_integer, ar_int := i\<rparr>)
      | VFloat f \<Rightarrow> Inr (arg_default\<lparr>ar_kind := A_floating, ar_float := f\<rparr>)
      | VSym s \<Rightarrow> Inr (arg_default\<lparr>ar_kind := A_symbol, ar_text := s\<rparr>)
      | VStr s \<Rightarrow> Inr (arg_default\<lparr>ar_kind := A_string, ar_text := s\<rparr>)
      | _ \<Rightarrow> Inl ''leaf args must be literals or symbols'')"

fun compile_args :: "lisp_value list \<Rightarrow> string + arg_value list" where
  "compile_args [] = Inr []"
| "compile_args (x # xs) =
     rbind (compile_arg x) (\<lambda>a. rbind (compile_args xs) (\<lambda>as. Inr (a # as)))"

text \<open>\<open>static_cast<node_id>(nodes_.size())\<close> keeps 32 bits.\<close>

definition emit_node :: "node \<Rightarrow> node list \<Rightarrow> node_id \<times> node list" where
  "emit_node n nodes =
     (let i = length nodes mod 2 ^ 32 in (i, nodes @ [n\<lparr>nd_id := i\<rparr>]))"

definition leaf_name_of :: "lisp_value \<Rightarrow> string option" where
  "leaf_name_of v = (case v of VSym s \<Rightarrow> Some s | VStr s \<Rightarrow> Some s | _ \<Rightarrow> None)"

text \<open>The branches of \<open>compile_node\<close> that compile no child.\<close>

definition compile_leaf :: "string \<Rightarrow> lisp_value list \<Rightarrow> node list \<Rightarrow> string + node_id \<times> node list" where
  "compile_leaf form_name items nodes =
     (if form_name = ''cond'' \<or> form_name = ''act'' then
        (if length items < 2 then Inl (form_name @ '': expects at least a leaf name'')
         else (case leaf_name_of (items ! 1) of
            None \<Rightarrow> Inl (form_name @ '': leaf name must be symbol or string'')
          | Some name \<Rightarrow>
              rbind (compile_args (drop 2 items)) (\<lambda>as.
                Inr (emit_node (node_default\<lparr>nd_kind := (if form_name = ''cond'' then K_cond else K_act),
                  nd_leaf_name := name, nd_args := as\<rparr>) nodes))))
      else if form_name = ''succeed'' then
        guard_err (length items \<noteq> 1) (arity_message form_name 1 (length items))
          (Inr (emit_node (node_default\<lparr>nd_kind := K_succeed\<rparr>) nodes))
      else if form_name = ''fail'' then
        guard_err (length items \<noteq> 1) (arity_message form_name 1 (length items))
          (Inr (emit_node (node_default\<lparr>nd_kind := K_fail\<rparr>) nodes))
      else if form_name = ''running'' then
        guard_err (length items \<noteq> 1) (arity_message form_name 1 (length items))
          (Inr (emit_node (node_default\<lparr>nd_kind := K_running\<rparr>) nodes))
      else if form_name = ''plan-action'' then
        guard_err (length items mod 2 = 0) ''plan-action: expected key/value pairs''
          (rbind (compile_args (drop 1 items)) (\<lambda>as.
             Inr (emit_node (node_default\<lparr>nd_kind := K_plan_action, nd_args := as\<rparr>) nodes)))
      else (case vla_kind form_name of
          Some k \<Rightarrow>
            guard_err (length items mod 2 = 0) (form_name @ '': expected key/value pairs'')
              (rbind (compile_args (drop 1 items)) (\<lambda>as.
                 Inr (emit_node (node_default\<lparr>nd_kind := k, nd_args := as\<rparr>) nodes)))
        | None \<Rightarrow> Inl (''unknown BT form: '' @ form_name)))"

function compile_node :: "lisp_value \<Rightarrow> node list \<Rightarrow> string + node_id \<times> node list"
  and compile_items :: "lisp_value list \<Rightarrow> node list \<Rightarrow> string + node_id \<times> node list"
  and compile_children :: "lisp_value list \<Rightarrow> node list \<Rightarrow> string + node_id list \<times> node list"
where
  "compile_node expr nodes =
     (if \<not> is_cons expr then Inl ''BT form must be a list''
      else rbind (vector_from_list expr) (\<lambda>items. compile_items items nodes))"
| "compile_items items nodes =
     (case items of
        [] \<Rightarrow> Inl ''BT form list cannot be empty''
      | head # rest \<Rightarrow>
          (case head of
             VSym form_name \<Rightarrow>
               (case composite_kind form_name of
                  Some k \<Rightarrow>
                    guard_err (length items < 2) (form_name @ '': expects at least one child'')
                      (rbind (compile_children rest nodes) (\<lambda>(cs, nodes').
                         Inr (emit_node (node_default\<lparr>nd_kind := k, nd_children := cs\<rparr>) nodes')))
                | None \<Rightarrow>
                    (if form_name = ''invert'' then
                       (case rest of
                          [c] \<Rightarrow> rbind (compile_node c nodes) (\<lambda>(i, nodes').
                            Inr (emit_node (node_default\<lparr>nd_kind := K_invert, nd_children := [i]\<rparr>) nodes'))
                        | _ \<Rightarrow> Inl (arity_message form_name 2 (length items)))
                     else if form_name = ''repeat'' \<or> form_name = ''retry'' then
                       (case rest of
                          [cnt, c] \<Rightarrow>
                            (case cnt of
                               VInt i \<Rightarrow>
                                 guard_err (sint i < 0) (form_name @ '': count must be non-negative'')
                                   (rbind (compile_node c nodes) (\<lambda>(j, nodes').
                                      Inr (emit_node (node_default\<lparr>
                                        nd_kind := (if form_name = ''repeat'' then K_repeat else K_retry),
                                        nd_int_param := i, nd_children := [j]\<rparr>) nodes')))
                             | _ \<Rightarrow> Inl (form_name @ '': repeat/retry count must be integer''))
                        | _ \<Rightarrow> Inl (arity_message form_name 3 (length items)))
                     else compile_leaf form_name items nodes))
           | _ \<Rightarrow> Inl ''BT form head must be a symbol''))"
| "compile_children [] nodes = Inr ([], nodes)"
| "compile_children (x # xs) nodes =
     rbind (compile_node x nodes) (\<lambda>(i, nodes').
       rbind (compile_children xs nodes') (\<lambda>(is, nodes''). Inr (i # is, nodes'')))"
  by pat_completeness auto
termination
  by (relation "measure (case_sum (\<lambda>(e, _). 2 * size e + 1)
        (case_sum (\<lambda>(xs, _). 2 * size_list size xs) (\<lambda>(xs, _). 2 * size_list size xs + 1)))")
    (auto dest!: vector_from_list_size)

definition finish :: "node_id \<Rightarrow> node list \<Rightarrow> bt_definition" where
  "finish root nodes = definition_default\<lparr>df_nodes := nodes, df_root := root\<rparr>"

definition compile_definition :: "lisp_value \<Rightarrow> string + bt_definition" where
  "compile_definition form = rbind (compile_node form []) (\<lambda>(root, nodes). Inr (finish root nodes))"

subsection \<open>The layout of the emitted nodes\<close>

text \<open>
  \<open>forest b new rs\<close>: the nodes \<open>new\<close>, placed from position \<open>b\<close> on, are well formed, and each of
  their positions is the child of exactly one of them, except the roots \<open>rs\<close>.
\<close>

definition forest :: "nat \<Rightarrow> node list \<Rightarrow> node_id list \<Rightarrow> bool" where
  "forest b new rs \<longleftrightarrow>
     (\<forall>i < length new. wf_node (b + i) (new ! i)) \<and>
     mset (concat (map nd_children new)) + mset rs = mset [b ..< b + length new]"

definition fits :: "node_kind \<Rightarrow> node_id list \<Rightarrow> bool" where
  "fits k cs \<longleftrightarrow> (composite k \<longrightarrow> cs \<noteq> []) \<and> (decorator k \<longrightarrow> length cs = 1) \<and>
     (\<not> composite k \<and> \<not> decorator k \<longrightarrow> cs = [])"

lemma forest_Nil [simp]: "forest b [] []"
  by (simp add: forest_def)

lemma forest_append:
  assumes "forest b xs rs" "forest (b + length xs) ys qs"
  shows "forest b (xs @ ys) (rs @ qs)"
proof -
  have "wf_node (b + i) ((xs @ ys) ! i)" if "i < length (xs @ ys)" for i
  proof (cases "i < length xs")
    case True
    with assms(1) show ?thesis by (simp add: forest_def nth_append)
  next
    case False
    with that have "i - length xs < length ys" by simp
    with assms(2) have "wf_node (b + length xs + (i - length xs)) (ys ! (i - length xs))"
      by (simp add: forest_def)
    with False show ?thesis by (simp add: nth_append)
  qed
  moreover have "mset (concat (map nd_children (xs @ ys))) + mset (rs @ qs) = mset [b ..< b + length (xs @ ys)]"
  proof -
    have "mset (concat (map nd_children (xs @ ys))) + mset (rs @ qs) =
        (mset (concat (map nd_children xs)) + mset rs) + (mset (concat (map nd_children ys)) + mset qs)"
      by (simp del: mset_concat)
    also have "\<dots> = mset ([b ..< b + length xs] @ [b + length xs ..< b + length xs + length ys])"
      using assms by (simp only: forest_def mset_append)
    also have "[b ..< b + length xs] @ [b + length xs ..< b + length xs + length ys] = [b ..< b + length (xs @ ys)]"
      using upt_add_eq_append [of b "b + length xs" "length ys"] by (simp add: add.assoc)
    finally show ?thesis .
  qed
  ultimately show ?thesis unfolding forest_def by blast
qed

lemma forest_roots: "forest b new rs \<Longrightarrow> set rs \<subseteq> {b ..< b + length new}"
proof -
  assume "forest b new rs"
  then have "set_mset (mset rs) \<subseteq> set_mset (mset [b ..< b + length new])"
    unfolding forest_def by (metis mset_subset_eq_add_right set_mset_mono)
  then show ?thesis by auto
qed

lemma forest_emit:
  assumes "forest b new cs" "nd_children n = cs" "fits (nd_kind n) cs"
  shows "forest b (new @ [n\<lparr>nd_id := b + length new\<rparr>]) [b + length new]"
proof -
  have "wf_node (b + length new) (n\<lparr>nd_id := b + length new\<rparr>)"
    using forest_roots [OF assms(1)] assms(2,3) by (auto simp: wf_node_def fits_def)
  then show ?thesis
    using assms(1,2) by (auto simp: forest_def nth_append less_Suc_eq)
qed

text \<open>What one call of the compiler adds to \<open>nodes_\<close>.\<close>

definition emits :: "node list \<Rightarrow> node_id list \<Rightarrow> node list \<Rightarrow> bool" where
  "emits nodes rs nodes' \<longleftrightarrow>
     (\<exists>new. nodes' = nodes @ new \<and> (length nodes' \<le> 2 ^ 32 \<longrightarrow> forest (length nodes) new rs))"

lemma emits_Nil [simp]: "emits nodes [] nodes"
  by (simp add: emits_def)

lemma emits_trans:
  assumes "emits nodes [r] nodes'" "emits nodes' rs nodes''"
  shows "emits nodes (r # rs) nodes''"
proof -
  from assms obtain xs ys where xs: "nodes' = nodes @ xs" "length nodes' \<le> 2 ^ 32 \<longrightarrow> forest (length nodes) xs [r]"
    and ys: "nodes'' = nodes' @ ys" "length nodes'' \<le> 2 ^ 32 \<longrightarrow> forest (length nodes') ys rs"
    by (auto simp: emits_def)
  have "forest (length nodes) (xs @ ys) (r # rs)" if "length nodes'' \<le> 2 ^ 32"
    using forest_append [of "length nodes" xs "[r]" ys rs] xs ys that by simp
  with xs(1) ys(1) show ?thesis by (auto simp: emits_def)
qed

lemma emits_emit_node:
  assumes "emits nodes cs nodes'" "nd_children n = cs" "fits (nd_kind n) cs"
    and "emit_node n nodes' = (i, nodes'')"
  shows "emits nodes [i] nodes''"
proof -
  from assms(1) obtain new where new: "nodes' = nodes @ new"
      "length nodes' \<le> 2 ^ 32 \<longrightarrow> forest (length nodes) new cs"
    by (auto simp: emits_def)
  have "forest (length nodes) (new @ [n\<lparr>nd_id := i\<rparr>]) [i]" if "length nodes'' \<le> 2 ^ 32"
    using that assms(2-4) new forest_emit [of "length nodes" new cs n]
    by (auto simp: emit_node_def Let_def)
  with assms(4) new(1) show ?thesis by (auto simp: emits_def emit_node_def Let_def)
qed

lemma composite_kind_fits: "composite_kind f = Some k \<Longrightarrow> cs \<noteq> [] \<Longrightarrow> fits k cs"
  by (auto simp: composite_kind_def fits_def composite_def decorator_def split: if_splits)

lemma vla_kind_fits: "vla_kind f = Some k \<Longrightarrow> fits k []"
  by (auto simp: vla_kind_def fits_def composite_def decorator_def split: if_splits)

lemma leaf_fits [simp]:
  "fits K_cond []" "fits K_act []" "fits K_succeed []" "fits K_fail []" "fits K_running []"
  "fits K_plan_action []" "fits K_invert [c]" "fits K_repeat [c]" "fits K_retry [c]"
  by (simp_all add: fits_def composite_def decorator_def)

lemma node_default_sel [simp]:
  "nd_kind node_default = K_seq" "nd_children node_default = []"
  by (simp_all add: node_default_def)

lemma emits_leaf:
  "emit_node n nodes = (i, nodes') \<Longrightarrow> nd_children n = [] \<Longrightarrow> fits (nd_kind n) [] \<Longrightarrow> emits nodes [i] nodes'"
  by (rule emits_emit_node [OF emits_Nil])

lemma emits_parent:
  "emit_node n nodes' = (i, nodes'') \<Longrightarrow> emits nodes (nd_children n) nodes' \<Longrightarrow>
     fits (nd_kind n) (nd_children n) \<Longrightarrow> emits nodes [i] nodes''"
  by (rule emits_emit_node [OF _ refl])

lemma compile_leaf_emits:
  "compile_leaf f items nodes = Inr (i, nodes') \<Longrightarrow> emits nodes [i] nodes'"
  unfolding compile_leaf_def
  by (auto split: if_splits option.splits dest: vla_kind_fits elim!: emits_leaf)

lemma in_set_tlD: "x \<in> set (tl xs) \<Longrightarrow> x \<in> set xs"
  by (cases xs) auto

lemma compile_children_emits:
  assumes "\<And>x nodes i nodes'. x \<in> set xs \<Longrightarrow> compile_node x nodes = Inr (i, nodes') \<Longrightarrow> emits nodes [i] nodes'"
    and "compile_children xs nodes = Inr (is, nodes')"
  shows "emits nodes is nodes' \<and> length is = length xs"
  using assms
proof (induction xs arbitrary: nodes "is")
  case Nil
  then show ?case by simp
next
  case (Cons x xs)
  from Cons.prems(2) obtain i n1 js where
    "compile_node x nodes = Inr (i, n1)" "compile_children xs n1 = Inr (js, nodes')" "is = i # js"
    by (auto simp del: compile_node.simps)
  with Cons.IH [of n1 js] Cons.prems(1) show ?case
    by (fastforce intro: emits_trans simp del: compile_node.simps)
qed

lemma compile_items_emits:
  assumes sub: "\<And>x nodes i nodes'. x \<in> set (tl items) \<Longrightarrow> compile_node x nodes = Inr (i, nodes') \<Longrightarrow>
      emits nodes [i] nodes'"
    and "compile_items items nodes = Inr (i, nodes')"
  shows "emits nodes [i] nodes'"
proof -
  note [simp del] = compile_node.simps
  from assms(2) obtain f rest where items: "items = VSym f # rest"
    by (auto split: list.splits lisp_value.splits)
  have sub': "compile_node x nodes = Inr (i, nodes') \<Longrightarrow> x \<in> set rest \<Longrightarrow> emits nodes [i] nodes'"
    for x nodes i nodes'
    using sub items by simp
  show ?thesis
  proof (cases "composite_kind f")
    case (Some k)
    with assms(2) items obtain cs n1 where cs: "compile_children rest nodes = Inr (cs, n1)" "rest \<noteq> []"
        "emit_node (node_default\<lparr>nd_kind := k, nd_children := cs\<rparr>) n1 = (i, nodes')"
      by (auto split: list.splits)
    have "emits nodes cs n1 \<and> length cs = length rest"
      using compile_children_emits [OF _ cs(1)] sub items by auto
    with cs Some show ?thesis
      by (auto elim!: emits_parent intro: composite_kind_fits)
  next
    case None
    with assms(2) items show ?thesis
      by (auto split: list.splits lisp_value.splits if_splits elim!: emits_parent
          intro: compile_leaf_emits dest!: sub')
  qed
qed

lemma compile_node_emits:
  "compile_node e nodes = Inr (i, nodes') \<Longrightarrow> emits nodes [i] nodes'"
proof (induction e arbitrary: nodes i nodes' rule: measure_induct_rule [of size])
  case (less e)
  then obtain items where items: "vector_from_list e = Inr items" "compile_items items nodes = Inr (i, nodes')"
    by (auto split: if_splits simp del: compile_items.simps)
  have "size x < size e" if "x \<in> set (tl items)" for x
    using that vector_from_list_size [OF items(1)] member_size_list [of x items]
    by (auto dest: in_set_tlD)
  then show ?case
    using less.IH compile_items_emits items(2) by blast
qed

lemma compile_definition_emits:
  assumes "compile_definition form = Inr d" "length (df_nodes d) \<le> 2 ^ 32"
  shows "forest 0 (df_nodes d) [df_root d]"
  using assms compile_node_emits [of form "[]"]
  by (auto simp: compile_definition_def finish_def emits_def simp del: compile_node.simps)

lemma forest_single_root:
  assumes "forest 0 new [r]"
  shows "r = length new - 1 \<and> new \<noteq> [] \<and> mset (concat (map nd_children new)) = mset [0 ..< r]"
proof -
  let ?cs = "mset (concat (map nd_children new))"
  from assms have eq: "add_mset r ?cs = mset [0 ..< length new]" and wf: "\<forall>i < length new. wf_node i (new ! i)"
    by (simp_all add: forest_def)
  from forest_roots [OF assms] have r: "r < length new" by simp
  have below: "c < length new - 1" if "c \<in> set (concat (map nd_children new))" for c
  proof -
    from that obtain n where "n \<in> set new" "c \<in> set (nd_children n)" by auto
    then obtain i where "i < length new" "c \<in> set (nd_children (new ! i))"
      by (metis in_set_conv_nth)
    with wf have "c < i" by (auto simp: wf_node_def)
    with \<open>i < length new\<close> show ?thesis by simp
  qed
  have "length new - 1 \<in># mset [0 ..< length new]" using r by simp
  with eq have "length new - 1 \<in># add_mset r ?cs" by simp
  with below have "r = length new - 1" by auto
  moreover from r this have "[0 ..< length new] = [0 ..< r] @ [r]"
    by (metis One_nat_def Suc_pred add_0 le_add1 less_nat_zero_code neq0_conv upt_Suc)
  ultimately show ?thesis using eq r by auto
qed

lemma compile_definition_wf:
  assumes "compile_definition form = Inr d" "length (df_nodes d) \<le> 2 ^ 32"
  shows "wf_definition d"
  using compile_definition_emits [OF assms] forest_roots [OF compile_definition_emits [OF assms]]
  by (auto simp: wf_definition_def forest_def)

text \<open>
  C5. Whatever form the compiler accepts, the definition it returns is a tree in post-order (for
  definitions of at most \<open>2 ^ 32\<close> nodes, the range of \<open>node_id\<close>): every node sits at the position
  of its id, its children are earlier nodes, decorators have exactly one child and composites at
  least one, the root is the last node, and every other node is the child of exactly one node.
\<close>

theorem compile_definition_tree:
  assumes "compile_definition form = Inr d" "length (df_nodes d) \<le> 2 ^ 32"
  shows "wf_definition d \<and> df_root d = length (df_nodes d) - 1 \<and>
    mset (concat (map nd_children (df_nodes d))) = mset [0 ..< df_root d]"
proof -
  have "forest 0 (df_nodes d) [df_root d]" by (rule compile_definition_emits [OF assms])
  from forest_single_root [OF this] compile_definition_wf [OF assms] show ?thesis by simp
qed

text \<open>A form to evaluate the compiler on: \<open>(seq (act go 7) (retry 3 (fail)))\<close>.\<close>

definition sample_form :: lisp_value where
  "sample_form = list_from_vector [VSym ''seq'',
     list_from_vector [VSym ''act'', VSym ''go'', VInt 7],
     list_from_vector [VSym ''retry'', VInt 3, list_from_vector [VSym ''fail'']]]"

definition sample_compiled :: bt_definition where
  "sample_compiled = finish 3
     [node_default\<lparr>nd_kind := K_act, nd_id := 0, nd_leaf_name := ''go'',
        nd_args := [arg_default\<lparr>ar_kind := A_integer, ar_int := 7\<rparr>]\<rparr>,
      node_default\<lparr>nd_kind := K_fail, nd_id := 1\<rparr>,
      node_default\<lparr>nd_kind := K_retry, nd_id := 2, nd_children := [1], nd_int_param := 3\<rparr>,
      node_default\<lparr>nd_kind := K_seq, nd_id := 3, nd_children := [0, 2]\<rparr>]"

lemma sample_form_compiles: "compile_definition sample_form = Inr sample_compiled"
  by (simp add: sample_form_def sample_compiled_def compile_definition_def list_from_vector_def is_cons_def
      composite_kind_def compile_leaf_def leaf_name_of_def compile_arg_def emit_node_def guard_err_def
      node_default_def)
    (simp add: numeral_2_eq_2)

theorem compile_definition_tree_witness:
  "\<exists>d. compile_definition sample_form = Inr d \<and> wf_definition d \<and> df_root d = 3 \<and>
     mset (concat (map nd_children (df_nodes d))) = mset [0 ..< 3]"
  using compile_definition_tree [OF sample_form_compiles]
  by (auto simp: sample_form_compiles) (auto simp: sample_compiled_def finish_def)

end
