(* ===== verification/Serialisation.thy ===== *)
theory Serialisation
  imports Compiler
begin

text \<open>
  The binary format \<open>MBT1\<close>, \<open>src/bt/serialisation.cpp\<close>. A writer is a function to bytes, or to the
  message of the exception it throws; a reader consumes a prefix of the remaining bytes of the
  file. Whether the file opens is an argument; the failure of a single \<open>write\<close> after a successful
  open is not modelled.

  The interface \<open>codec\<close> states what a writer/reader pair promises; the counted loops of the format
  are proved against it once, and the pairs of the source are its interpretations.
\<close>

unbundle bit_operations_syntax

type_synonym bytes = "u8 list"
type_synonym 'a reader = "bytes \<Rightarrow> string + 'a \<times> bytes"

definition rret :: "'a \<Rightarrow> 'a reader" where
  "rret x bs = Inr (x, bs)"

definition rfail :: "string \<Rightarrow> 'a reader" where
  "rfail msg bs = Inl msg"

definition seq_read :: "'a reader \<Rightarrow> ('a \<Rightarrow> 'b reader) \<Rightarrow> 'b reader" where
  "seq_read d f bs = rbind (d bs) (\<lambda>(x, bs'). f x bs')"

fun read_n :: "nat \<Rightarrow> 'a reader \<Rightarrow> 'a list reader" where
  "read_n 0 d = rret []"
| "read_n (Suc n) d = seq_read d (\<lambda>x. seq_read (read_n n d) (\<lambda>xs. rret (x # xs)))"

fun write_all :: "('a \<Rightarrow> string + bytes) \<Rightarrow> 'a list \<Rightarrow> string + bytes" where
  "write_all f [] = Inr []"
| "write_all f (x # xs) = rbind (f x) (\<lambda>b. rbind (write_all f xs) (\<lambda>bs. Inr (b @ bs)))"

subsection \<open>Scalars\<close>

definition k_magic :: bytes where "k_magic = [0x4D, 0x42, 0x54, 0x31]"
definition k_format_version :: u32 where "k_format_version = 1"
definition k_endianness_little :: u8 where "k_endianness_little = 1"
definition k_max_serialised_items :: nat where "k_max_serialised_items = 1000000"

definition read_exact :: "nat \<Rightarrow> string \<Rightarrow> bytes reader" where
  "read_exact n loc bs =
     (if length bs < n then Inl (loc @ '': unexpected end of file'')
      else Inr (take n bs, drop n bs))"

definition write_u8 :: "u8 \<Rightarrow> bytes" where
  "write_u8 v = [v]"

definition write_u32 :: "u32 \<Rightarrow> bytes" where
  "write_u32 v = [ucast (v AND 0xFF), ucast (drop_bit 8 v AND 0xFF), ucast (drop_bit 16 v AND 0xFF),
     ucast (drop_bit 24 v AND 0xFF)]"

definition write_u64 :: "u64 \<Rightarrow> bytes" where
  "write_u64 v = [ucast (v AND 0xFF), ucast (drop_bit 8 v AND 0xFF), ucast (drop_bit 16 v AND 0xFF),
     ucast (drop_bit 24 v AND 0xFF), ucast (drop_bit 32 v AND 0xFF), ucast (drop_bit 40 v AND 0xFF),
     ucast (drop_bit 48 v AND 0xFF), ucast (drop_bit 56 v AND 0xFF)]"

definition write_i64 :: "i64 \<Rightarrow> bytes" where
  "write_i64 v = write_u64 v"

definition write_f64 :: "double \<Rightarrow> bytes" where
  "write_f64 v = write_u64 v"

definition read_u8 :: "string \<Rightarrow> u8 reader" where
  "read_u8 loc = seq_read (read_exact 1 loc) (\<lambda>b. rret (b ! 0))"

definition read_u32 :: "string \<Rightarrow> u32 reader" where
  "read_u32 loc = seq_read (read_exact 4 loc) (\<lambda>b. rret
     (ucast (b ! 0) OR push_bit 8 (ucast (b ! 1)) OR push_bit 16 (ucast (b ! 2)) OR push_bit 24 (ucast (b ! 3))))"

definition read_u64 :: "string \<Rightarrow> u64 reader" where
  "read_u64 loc = seq_read (read_exact 8 loc) (\<lambda>b. rret
     (ucast (b ! 0) OR push_bit 8 (ucast (b ! 1)) OR push_bit 16 (ucast (b ! 2)) OR push_bit 24 (ucast (b ! 3)) OR
      push_bit 32 (ucast (b ! 4)) OR push_bit 40 (ucast (b ! 5)) OR push_bit 48 (ucast (b ! 6)) OR
      push_bit 56 (ucast (b ! 7))))"

definition read_i64 :: "string \<Rightarrow> i64 reader" where
  "read_i64 loc = read_u64 loc"

definition read_f64 :: "string \<Rightarrow> double reader" where
  "read_f64 loc = read_u64 loc"

definition byte_of_char :: "char \<Rightarrow> u8" where
  "byte_of_char c = word_of_nat (of_char c)"

definition char_of_byte :: "u8 \<Rightarrow> char" where
  "char_of_byte b = char_of (unat b)"

definition write_string :: "string \<Rightarrow> string \<Rightarrow> string + bytes" where
  "write_string loc text =
     (if length text > 2 ^ 32 - 1 then Inl (loc @ '': string too long'')
      else Inr (write_u32 (word_of_nat (length text)) @ map byte_of_char text))"

definition read_string :: "string \<Rightarrow> string reader" where
  "read_string loc = seq_read (read_u32 loc) (\<lambda>len.
     if unat len > k_max_serialised_items * 16 then rfail (loc @ '': string length is too large'')
     else seq_read (read_exact (unat len) loc) (\<lambda>b. rret (map char_of_byte b)))"

subsection \<open>Enumerations\<close>

fun node_kind_code :: "node_kind \<Rightarrow> u8" where
  "node_kind_code K_seq = 0"
| "node_kind_code K_sel = 1"
| "node_kind_code K_invert = 2"
| "node_kind_code K_repeat = 3"
| "node_kind_code K_retry = 4"
| "node_kind_code K_cond = 5"
| "node_kind_code K_act = 6"
| "node_kind_code K_succeed = 7"
| "node_kind_code K_fail = 8"
| "node_kind_code K_running = 9"
| "node_kind_code K_plan_action = 10"
| "node_kind_code K_vla_request = 11"
| "node_kind_code K_vla_wait = 12"
| "node_kind_code K_vla_cancel = 13"
| "node_kind_code K_mem_seq = 14"
| "node_kind_code K_mem_sel = 15"
| "node_kind_code K_async_seq = 16"
| "node_kind_code K_reactive_seq = 17"
| "node_kind_code K_reactive_sel = 18"

definition all_node_kinds :: "node_kind list" where
  "all_node_kinds = [K_seq, K_sel, K_invert, K_repeat, K_retry, K_cond, K_act, K_succeed, K_fail,
     K_running, K_plan_action, K_vla_request, K_vla_wait, K_vla_cancel, K_mem_seq, K_mem_sel,
     K_async_seq, K_reactive_seq, K_reactive_sel]"

definition is_valid_node_kind :: "u8 \<Rightarrow> bool" where
  "is_valid_node_kind raw = (raw \<le> node_kind_code K_reactive_sel)"

fun arg_kind_code :: "arg_kind \<Rightarrow> u8" where
  "arg_kind_code A_nil = 0"
| "arg_kind_code A_boolean = 1"
| "arg_kind_code A_integer = 2"
| "arg_kind_code A_floating = 3"
| "arg_kind_code A_symbol = 4"
| "arg_kind_code A_string = 5"

definition all_arg_kinds :: "arg_kind list" where
  "all_arg_kinds = [A_nil, A_boolean, A_integer, A_floating, A_symbol, A_string]"

definition is_valid_arg_kind :: "u8 \<Rightarrow> bool" where
  "is_valid_arg_kind raw = (raw \<le> arg_kind_code A_string)"

subsection \<open>Saving\<close>

definition write_arg :: "arg_value \<Rightarrow> string + bytes" where
  "write_arg a =
     rbind (case ar_kind a of
         A_nil \<Rightarrow> Inr []
       | A_boolean \<Rightarrow> Inr (write_u8 (if ar_bool a then 1 else 0))
       | A_integer \<Rightarrow> Inr (write_i64 (ar_int a))
       | A_floating \<Rightarrow> Inr (write_f64 (ar_float a))
       | A_symbol \<Rightarrow> write_string ''bt.save'' (ar_text a)
       | A_string \<Rightarrow> write_string ''bt.save'' (ar_text a))
       (\<lambda>body. Inr (write_u8 (arg_kind_code (ar_kind a)) @ body))"

definition write_child :: "node_id \<Rightarrow> string + bytes" where
  "write_child c = Inr (write_u32 (word_of_nat c))"

definition write_node :: "node \<Rightarrow> string + bytes" where
  "write_node n =
     guard_err (length (nd_children n) > k_max_serialised_items) ''bt.save: node has too many children''
       (rbind (write_all write_child (nd_children n)) (\<lambda>cs.
        rbind (write_string ''bt.save'' (nd_leaf_name n)) (\<lambda>name.
          guard_err (length (nd_args n) > k_max_serialised_items) ''bt.save: node has too many args''
            (rbind (write_all write_arg (nd_args n)) (\<lambda>as.
               Inr (write_u8 (node_kind_code (nd_kind n)) @ write_u8 0 @ write_u8 0 @ write_u8 0 @
                 write_i64 (nd_int_param n) @
                 write_u32 (word_of_nat (length (nd_children n))) @
                 cs @ name @
                 write_u32 (word_of_nat (length (nd_args n))) @ as))))))"

definition save_definition_binary :: "bool \<Rightarrow> string \<Rightarrow> bt_definition \<Rightarrow> string + bytes" where
  "save_definition_binary opens path d =
     (if \<not> opens then Inl (''bt.save: failed to open file: '' @ path)
      else guard_err (length (df_nodes d) > k_max_serialised_items) ''bt.save: too many nodes to serialise''
        (rbind (write_all write_node (df_nodes d)) (\<lambda>body.
           Inr (k_magic @ write_u32 k_format_version @ write_u8 k_endianness_little @
             write_u8 0 @ write_u8 0 @ write_u8 0 @
             write_u32 (word_of_nat (length (df_nodes d))) @
             write_u32 (word_of_nat (df_root d)) @ body))))"

subsection \<open>Loading\<close>

definition read_arg :: "arg_value reader" where
  "read_arg = seq_read (read_u8 ''bt.load'') (\<lambda>raw.
     if \<not> is_valid_arg_kind raw then rfail ''bt.load: invalid arg kind''
     else (case all_arg_kinds ! unat raw of
         A_nil \<Rightarrow> rret (arg_default\<lparr>ar_kind := A_nil\<rparr>)
       | A_boolean \<Rightarrow> seq_read (read_u8 ''bt.load'') (\<lambda>b. rret (arg_default\<lparr>ar_kind := A_boolean, ar_bool := (b \<noteq> 0)\<rparr>))
       | A_integer \<Rightarrow> seq_read (read_i64 ''bt.load'') (\<lambda>i. rret (arg_default\<lparr>ar_kind := A_integer, ar_int := i\<rparr>))
       | A_floating \<Rightarrow> seq_read (read_f64 ''bt.load'') (\<lambda>f. rret (arg_default\<lparr>ar_kind := A_floating, ar_float := f\<rparr>))
       | A_symbol \<Rightarrow> seq_read (read_string ''bt.load'') (\<lambda>s. rret (arg_default\<lparr>ar_kind := A_symbol, ar_text := s\<rparr>))
       | A_string \<Rightarrow> seq_read (read_string ''bt.load'') (\<lambda>s. rret (arg_default\<lparr>ar_kind := A_string, ar_text := s\<rparr>))))"

definition read_child :: "node_id reader" where
  "read_child = seq_read (read_u32 ''bt.load'') (\<lambda>w. rret (unat w))"

definition read_node :: "nat \<Rightarrow> node reader" where
  "read_node i = seq_read (read_u8 ''bt.load'') (\<lambda>raw.
     if \<not> is_valid_node_kind raw then rfail ''bt.load: invalid node kind''
     else seq_read (read_u8 ''bt.load'') (\<lambda>_. seq_read (read_u8 ''bt.load'') (\<lambda>_. seq_read (read_u8 ''bt.load'') (\<lambda>_.
       seq_read (read_i64 ''bt.load'') (\<lambda>param.
       seq_read (read_u32 ''bt.load'') (\<lambda>child_count.
         if unat child_count > k_max_serialised_items then rfail ''bt.load: child count is too large''
         else seq_read (read_n (unat child_count) read_child) (\<lambda>cs.
           seq_read (read_string ''bt.load'') (\<lambda>name.
           seq_read (read_u32 ''bt.load'') (\<lambda>arg_count.
             if unat arg_count > k_max_serialised_items then rfail ''bt.load: arg count is too large''
             else seq_read (read_n (unat arg_count) read_arg) (\<lambda>as.
               rret \<lparr>nd_kind = all_node_kinds ! unat raw, nd_id = i, nd_children = cs,
                 nd_leaf_name = name, nd_args = as, nd_int_param = param\<rparr>))))))))))"

fun read_nodes :: "nat \<Rightarrow> nat \<Rightarrow> node list reader" where
  "read_nodes i 0 = rret []"
| "read_nodes i (Suc n) = seq_read (read_node i) (\<lambda>x. seq_read (read_nodes (Suc i) n) (\<lambda>xs. rret (x # xs)))"

definition validate_node :: "nat \<Rightarrow> nat \<Rightarrow> node \<Rightarrow> string option" where
  "validate_node count_nodes i n =
     (if nd_id n \<noteq> i then Some ''bt.load: node id mismatch''
      else if \<exists>c \<in> set (nd_children n). c \<ge> count_nodes then Some ''bt.load: child node id out of range''
      else if nd_kind n \<in> {K_seq, K_sel, K_mem_seq, K_mem_sel, K_async_seq, K_reactive_seq, K_reactive_sel} then
        (if nd_children n = [] then Some ''bt.load: composite nodes require at least one child'' else None)
      else if nd_kind n \<in> {K_invert, K_repeat, K_retry} then
        (if length (nd_children n) \<noteq> 1 then Some ''bt.load: decorator nodes require exactly one child'' else None)
      else if nd_kind n \<in> {K_cond, K_act} then
        (if nd_leaf_name n = '''' then Some ''bt.load: cond/act nodes require a leaf name'' else None)
      else if nd_kind n \<in> {K_succeed, K_fail, K_running} then
        (if nd_children n \<noteq> [] then Some ''bt.load: utility nodes cannot have children'' else None)
      else
        (if nd_children n \<noteq> [] then Some ''bt.load: planner/vla nodes cannot have children'' else None))"

fun validate_nodes :: "nat \<Rightarrow> nat \<Rightarrow> node list \<Rightarrow> string option" where
  "validate_nodes count_nodes i [] = None"
| "validate_nodes count_nodes i (n # ns) =
     (case validate_node count_nodes i n of
        Some msg \<Rightarrow> Some msg
      | None \<Rightarrow> validate_nodes count_nodes (Suc i) ns)"

definition validate_definition :: "bt_definition \<Rightarrow> string option" where
  "validate_definition d =
     (if df_nodes d = [] then Some ''bt.load: definition has no nodes''
      else if df_root d \<ge> length (df_nodes d) then Some ''bt.load: root node id out of range''
      else validate_nodes (length (df_nodes d)) 0 (df_nodes d))"

definition read_definition :: "bt_definition reader" where
  "read_definition = seq_read (read_exact 4 ''bt.load'') (\<lambda>magic.
     if magic \<noteq> k_magic then rfail ''bt.load: invalid header (expected MBT1)''
     else seq_read (read_u32 ''bt.load'') (\<lambda>version.
       if version \<noteq> k_format_version
       then rfail (''bt.load: unsupported format version '' @ nat_str (unat version))
       else seq_read (read_u8 ''bt.load'') (\<lambda>endianness.
         if endianness \<noteq> k_endianness_little then rfail ''bt.load: unsupported endianness marker''
         else seq_read (read_u8 ''bt.load'') (\<lambda>_. seq_read (read_u8 ''bt.load'') (\<lambda>_. seq_read (read_u8 ''bt.load'') (\<lambda>_.
           seq_read (read_u32 ''bt.load'') (\<lambda>node_count.
             if node_count = 0 then rfail ''bt.load: file has no nodes''
             else if unat node_count > k_max_serialised_items then rfail ''bt.load: node count is too large''
             else seq_read (read_u32 ''bt.load'') (\<lambda>root.
               seq_read (read_nodes 0 (unat node_count)) (\<lambda>ns.
                 rret (definition_default\<lparr>df_root := unat root, df_nodes := ns\<rparr>))))))))))"

definition load_definition_binary :: "bool \<Rightarrow> string \<Rightarrow> bytes \<Rightarrow> string + bt_definition" where
  "load_definition_binary opens path file =
     (if \<not> opens then Inl (''bt.load: failed to open file: '' @ path)
      else rbind (read_definition file)
        (\<lambda>(d, _). case validate_definition d of Some msg \<Rightarrow> Inl msg | None \<Rightarrow> Inr d))"

subsection \<open>Export to Graphviz\<close>

fun node_kind_name :: "node_kind \<Rightarrow> string" where
  "node_kind_name K_seq = ''seq''"
| "node_kind_name K_sel = ''sel''"
| "node_kind_name K_invert = ''invert''"
| "node_kind_name K_repeat = ''repeat''"
| "node_kind_name K_retry = ''retry''"
| "node_kind_name K_cond = ''cond''"
| "node_kind_name K_act = ''act''"
| "node_kind_name K_succeed = ''succeed''"
| "node_kind_name K_fail = ''fail''"
| "node_kind_name K_running = ''running''"
| "node_kind_name K_plan_action = ''plan-action''"
| "node_kind_name K_vla_request = ''vla-request''"
| "node_kind_name K_vla_wait = ''vla-wait''"
| "node_kind_name K_vla_cancel = ''vla-cancel''"
| "node_kind_name K_mem_seq = ''mem-seq''"
| "node_kind_name K_mem_sel = ''mem-sel''"
| "node_kind_name K_async_seq = ''async-seq''"
| "node_kind_name K_reactive_seq = ''reactive-seq''"
| "node_kind_name K_reactive_sel = ''reactive-sel''"

definition dot_escape :: "string \<Rightarrow> string" where
  "dot_escape text = escape_text text"

definition node_label :: "node \<Rightarrow> string" where
  "node_label n =
     ''id='' @ nat_str (nd_id n) @ [newline] @
     (if nd_leaf_name n \<noteq> '''' then nd_leaf_name n @ [newline] else '''') @
     ''['' @ node_kind_name (nd_kind n) @
     (if nd_kind n = K_repeat \<or> nd_kind n = K_retry then '' '' @ i64_str (nd_int_param n) else '''') @
     '']''"

definition dot_node_line :: "node_id \<Rightarrow> node \<Rightarrow> string" where
  "dot_node_line root n =
     ''  n'' @ nat_str (nd_id n) @ '' [label='' @ quoted (dot_escape (node_label n)) @
     (if nd_id n = root then '', style='' @ quoted ''bold'' else '''') @ ''];'' @ [newline]"

definition dot_edge_line :: "node_id \<Rightarrow> node_id \<Rightarrow> string" where
  "dot_edge_line p c = ''  n'' @ nat_str p @ '' -> n'' @ nat_str c @ '';'' @ [newline]"

definition export_definition_dot :: "bool \<Rightarrow> string \<Rightarrow> bt_definition \<Rightarrow> string + string" where
  "export_definition_dot opens path d =
     (case validate_definition d of
        Some msg \<Rightarrow> Inl msg
      | None \<Rightarrow>
          (if \<not> opens then Inl (''failed to open file: '' @ path)
           else Inr (''digraph bt {'' @ [newline] @ ''  rankdir=TB;'' @ [newline] @
             ''  node [shape=box, fontname='' @ quoted ''Helvetica'' @ ''];'' @ [newline] @
             ''  edge [fontname='' @ quoted ''Helvetica'' @ ''];'' @ [newline] @
             concat (map (dot_node_line (df_root d)) (df_nodes d)) @
             concat (map (\<lambda>n. concat (map (dot_edge_line (nd_id n)) (nd_children n))) (df_nodes d)) @
             ''}'' @ [newline])))"

text \<open>What the writers accept and the readers give back unchanged.\<close>

definition arg_normal :: "arg_value \<Rightarrow> bool" where
  "arg_normal a =
     (case ar_kind a of
        A_nil \<Rightarrow> a = arg_default
      | A_boolean \<Rightarrow> a = arg_default\<lparr>ar_kind := A_boolean, ar_bool := ar_bool a\<rparr>
      | A_integer \<Rightarrow> a = arg_default\<lparr>ar_kind := A_integer, ar_int := ar_int a\<rparr>
      | A_floating \<Rightarrow> a = arg_default\<lparr>ar_kind := A_floating, ar_float := ar_float a\<rparr>
      | A_symbol \<Rightarrow> a = arg_default\<lparr>ar_kind := A_symbol, ar_text := ar_text a\<rparr>
      | A_string \<Rightarrow> a = arg_default\<lparr>ar_kind := A_string, ar_text := ar_text a\<rparr>)"

definition text_fits :: "string \<Rightarrow> bool" where
  "text_fits s \<longleftrightarrow> length s \<le> k_max_serialised_items * 16"

definition arg_fits :: "arg_value \<Rightarrow> bool" where
  "arg_fits a \<longleftrightarrow> arg_normal a \<and> text_fits (ar_text a)"

definition node_fits :: "nat \<Rightarrow> node \<Rightarrow> bool" where
  "node_fits i n \<longleftrightarrow> nd_id n = i \<and> length (nd_children n) \<le> k_max_serialised_items \<and>
     list_all (\<lambda>c. c < 2 ^ 32) (nd_children n) \<and> text_fits (nd_leaf_name n) \<and>
     length (nd_args n) \<le> k_max_serialised_items \<and> list_all arg_fits (nd_args n)"

text \<open>
  A definition that \<open>bt.save\<close> and \<open>bt.load\<close> carry over: within the format's limits, without the
  hash and source texts (which the format drops), valid for the loader and with
  arguments as the compiler builds them.
\<close>

definition serialisable :: "bt_definition \<Rightarrow> bool" where
  "serialisable d \<longleftrightarrow>
     d = definition_default\<lparr>df_nodes := df_nodes d, df_root := df_root d\<rparr> \<and>
     length (df_nodes d) \<le> k_max_serialised_items \<and>
     list_all (\<lambda>(i, n). node_fits i n) (enumerate 0 (df_nodes d)) \<and>
     validate_definition d = None"

subsection \<open>The writer/reader interface\<close>

locale codec =
  fixes enc :: "'a \<Rightarrow> string + u8 list"
    and dec :: "'a reader"
    and ok :: "'a \<Rightarrow> bool"
  assumes enc_total: "ok x \<Longrightarrow> \<exists>bs. enc x = Inr bs"
    and dec_enc: "ok x \<Longrightarrow> enc x = Inr bs \<Longrightarrow> dec (bs @ rest) = Inr (x, rest)"
    and dec_more: "dec bs = Inr (x, rest) \<Longrightarrow> dec (bs @ ext) = Inr (x, rest @ ext)"
begin

lemma write_all_total: "list_all ok xs \<Longrightarrow> \<exists>bs. write_all enc xs = Inr bs"
  by (induction xs) (auto dest: enc_total)

lemma read_n_write_all:
  "list_all ok xs \<Longrightarrow> write_all enc xs = Inr bs \<Longrightarrow> read_n (length xs) dec (bs @ rest) = Inr (xs, rest)"
proof (induction xs arbitrary: bs)
  case Nil
  then show ?case by (simp add: rret_def)
next
  case (Cons x xs)
  then obtain b bs' where "enc x = Inr b" "write_all enc xs = Inr bs'" "bs = b @ bs'"
    by auto
  with Cons.IH [of bs'] Cons.prems dec_enc [of x b "bs' @ rest"] show ?case
    by (auto simp: seq_read_def rret_def)
qed

lemma read_n_more: "read_n n dec bs = Inr (xs, rest) \<Longrightarrow> read_n n dec (bs @ ext) = Inr (xs, rest @ ext)"
proof (induction n arbitrary: bs xs)
  case 0
  then show ?case by (simp add: rret_def)
next
  case (Suc n)
  then obtain x bs' ys where "dec bs = Inr (x, bs')" "read_n n dec bs' = Inr (ys, rest)" "xs = x # ys"
    by (auto simp: seq_read_def rret_def)
  with Suc.IH dec_more show ?case by (fastforce simp: seq_read_def rret_def)
qed

end

subsection \<open>Scalars round trip\<close>

text \<open>
  A reader is local when a successful read depends only on the bytes it consumed, and every
  shorter input is reported as a premature end of file.
\<close>

definition local_reader :: "'a reader \<Rightarrow> bool" where
  "local_reader d \<longleftrightarrow> (\<forall>bs x rest. d bs = Inr (x, rest) \<longrightarrow>
     (\<exists>used. bs = used @ rest \<and> (\<forall>ext. d (used @ ext) = Inr (x, ext)) \<and>
       (\<forall>k < length used. d (take k used) = Inl ''bt.load: unexpected end of file'')))"

named_theorems local_intros \<open>local readers\<close>

lemma local_readerE:
  assumes "local_reader d" "d bs = Inr (x, rest)"
  obtains used where "bs = used @ rest" "\<And>ext. d (used @ ext) = Inr (x, ext)"
    "\<And>k. k < length used \<Longrightarrow> d (take k used) = Inl ''bt.load: unexpected end of file''"
  using assms unfolding local_reader_def by blast

lemma local_more: "local_reader d \<Longrightarrow> d bs = Inr (x, rest) \<Longrightarrow> d (bs @ ext) = Inr (x, rest @ ext)"
  by (erule (1) local_readerE) simp

lemma local_rret [local_intros]: "local_reader (rret x)"
  by (simp add: local_reader_def rret_def)

lemma local_rfail [local_intros]: "local_reader (rfail m)"
  by (simp add: local_reader_def rfail_def)

lemma local_seq_read [local_intros]:
  assumes "local_reader d" "\<And>x. local_reader (f x)"
  shows "local_reader (seq_read d f)"
  unfolding local_reader_def
proof (intro allI impI)
  fix bs y rest assume "seq_read d f bs = Inr (y, rest)"
  then obtain x bs' where x: "d bs = Inr (x, bs')" "f x bs' = Inr (y, rest)"
    by (auto simp: seq_read_def)
  from assms(1) x(1) obtain u where u: "bs = u @ bs'" "\<And>ext. d (u @ ext) = Inr (x, ext)"
      "\<And>k. k < length u \<Longrightarrow> d (take k u) = Inl ''bt.load: unexpected end of file''"
    by (rule local_readerE) blast
  from assms(2) x(2) obtain v where v: "bs' = v @ rest" "\<And>ext. f x (v @ ext) = Inr (y, ext)"
      "\<And>k. k < length v \<Longrightarrow> f x (take k v) = Inl ''bt.load: unexpected end of file''"
    by (rule local_readerE) blast
  have "seq_read d f (take k (u @ v)) = Inl ''bt.load: unexpected end of file''" if "k < length (u @ v)" for k
    using that u v by (cases "k < length u") (simp_all add: seq_read_def)
  then show "\<exists>used. bs = used @ rest \<and> (\<forall>ext. seq_read d f (used @ ext) = Inr (y, ext)) \<and>
      (\<forall>k < length used. seq_read d f (take k used) = Inl ''bt.load: unexpected end of file'')"
    using u v by (intro exI [of _ "u @ v"]) (simp add: seq_read_def)
qed

lemma local_if [local_intros]:
  "(b \<Longrightarrow> local_reader d) \<Longrightarrow> (\<not> b \<Longrightarrow> local_reader e) \<Longrightarrow> local_reader (if b then d else e)"
  by simp

lemma local_read_exact [local_intros]: "local_reader (read_exact n ''bt.load'')"
  unfolding local_reader_def
proof (intro allI impI)
  fix bs x rest assume "read_exact n ''bt.load'' bs = Inr (x, rest)"
  then have "x = take n bs" "rest = drop n bs" "n \<le> length bs" by (auto simp: read_exact_def split: if_splits)
  then show "\<exists>used. bs = used @ rest \<and> (\<forall>ext. read_exact n ''bt.load'' (used @ ext) = Inr (x, ext)) \<and>
      (\<forall>k < length used. read_exact n ''bt.load'' (take k used) = Inl ''bt.load: unexpected end of file'')"
    by (intro exI [of _ "take n bs"]) (simp add: read_exact_def min_def)
qed

lemma local_scalars [local_intros]:
  "local_reader (read_u8 ''bt.load'')" "local_reader (read_u32 ''bt.load'')" "local_reader (read_u64 ''bt.load'')"
  "local_reader (read_i64 ''bt.load'')" "local_reader (read_f64 ''bt.load'')"
  unfolding read_u8_def read_u32_def read_u64_def read_i64_def read_f64_def
  by (intro local_intros)+

lemma local_read_string [local_intros]: "local_reader (read_string ''bt.load'')"
  unfolding read_string_def by (intro local_intros)

lemma byte_bit:
  "bit (ucast (ucast (drop_bit k v AND 0xFF) :: u8) :: 'a::len word) n \<longleftrightarrow>
     n < LENGTH('a) \<and> n < 8 \<and> bit (v :: 'a word) (k + n)"
proof -
  have ff: "(0xFF :: 'a word) = mask 8" by (simp add: mask_eq_exp_minus_1)
  show ?thesis unfolding ff by (auto simp: bit_simps dest: bit_imp_le_length)
qed

lemma low_byte_bit:
  "bit (ucast (ucast (v AND 0xFF) :: u8) :: 'a::len word) n \<longleftrightarrow> n < 8 \<and> bit (v :: 'a word) n"
  using byte_bit [of 0 v n] by (auto dest: bit_imp_le_length)

lemma shifted_byte_bit:
  "bit (push_bit k (ucast (ucast (drop_bit k v AND 0xFF) :: u8) :: 'a::len word)) n \<longleftrightarrow>
     k \<le> n \<and> n < k + 8 \<and> bit (v :: 'a word) n"
  by (auto simp: bit_push_bit_iff byte_bit dest: bit_imp_le_length)

lemma u32_split:
  "(ucast (ucast (v AND 0xFF) :: u8) OR push_bit 8 (ucast (ucast (drop_bit 8 v AND 0xFF) :: u8)) OR
    push_bit 16 (ucast (ucast (drop_bit 16 v AND 0xFF) :: u8)) OR
    push_bit 24 (ucast (ucast (drop_bit 24 v AND 0xFF) :: u8))) = (v :: u32)" (is "?w = v")
proof (rule bit_word_eqI)
  fix n assume "n < LENGTH(32)"
  then consider "n < 8" | "8 \<le> n" "n < 16" | "16 \<le> n" "n < 24" | "24 \<le> n" "n < 32" by fastforce
  then show "bit ?w n = bit v n"
    by cases (simp_all add: bit_or_iff shifted_byte_bit low_byte_bit [of v])
qed

lemma u64_split:
  "(ucast (ucast (v AND 0xFF) :: u8) OR push_bit 8 (ucast (ucast (drop_bit 8 v AND 0xFF) :: u8)) OR
    push_bit 16 (ucast (ucast (drop_bit 16 v AND 0xFF) :: u8)) OR
    push_bit 24 (ucast (ucast (drop_bit 24 v AND 0xFF) :: u8)) OR
    push_bit 32 (ucast (ucast (drop_bit 32 v AND 0xFF) :: u8)) OR
    push_bit 40 (ucast (ucast (drop_bit 40 v AND 0xFF) :: u8)) OR
    push_bit 48 (ucast (ucast (drop_bit 48 v AND 0xFF) :: u8)) OR
    push_bit 56 (ucast (ucast (drop_bit 56 v AND 0xFF) :: u8))) = (v :: u64)" (is "?w = v")
proof (rule bit_word_eqI)
  fix n assume "n < LENGTH(64)"
  then consider "n < 8" | "8 \<le> n" "n < 16" | "16 \<le> n" "n < 24" | "24 \<le> n" "n < 32"
    | "32 \<le> n" "n < 40" | "40 \<le> n" "n < 48" | "48 \<le> n" "n < 56" | "56 \<le> n" "n < 64" by fastforce
  then show "bit ?w n = bit v n"
    by cases (simp_all add: bit_or_iff shifted_byte_bit low_byte_bit [of v])
qed

lemma read_write_u8 [simp]: "read_u8 loc (write_u8 v @ rest) = Inr (v, rest)"
  by (simp add: read_u8_def write_u8_def seq_read_def read_exact_def rret_def)

lemma read_write_u32 [simp]: "read_u32 loc (write_u32 v @ rest) = Inr (v, rest)"
  using u32_split [of v] by (simp add: read_u32_def write_u32_def seq_read_def read_exact_def rret_def)

lemma read_write_u64: "read_u64 loc (write_u64 v @ rest) = Inr (v, rest)"
  using u64_split [of v] by (simp add: read_u64_def write_u64_def seq_read_def read_exact_def rret_def)

lemma read_write_i64 [simp]: "read_i64 loc (write_i64 v @ rest) = Inr (v, rest)"
  by (simp add: read_i64_def write_i64_def read_write_u64)

lemma read_write_f64 [simp]: "read_f64 loc (write_f64 v @ rest) = Inr (v, rest)"
  by (simp add: read_f64_def write_f64_def read_write_u64)

lemma char_of_byte_of_char [simp]: "char_of_byte (byte_of_char c) = c"
proof -
  show ?thesis by (simp add: char_of_byte_def byte_of_char_def unat_of_nat)
qed

lemma unat_length_u32: "n \<le> k_max_serialised_items * 16 \<Longrightarrow> unat (word_of_nat n :: u32) = n"
  by (simp add: k_max_serialised_items_def unat_of_nat)

lemma text_fits_u32: "text_fits s \<Longrightarrow> length s \<le> 2 ^ 32 - 1"
  by (simp add: text_fits_def k_max_serialised_items_def)

lemma write_string_total: "text_fits s \<Longrightarrow> \<exists>bs. write_string loc s = Inr bs"
  using text_fits_u32 [of s] by (simp add: write_string_def)

lemma seq_read_Inr: "d bs = Inr (x, rest) \<Longrightarrow> seq_read d f bs = f x rest"
  by (simp add: seq_read_def)

lemma seq_read_eq_Inr:
  "seq_read d f bs = Inr (y, rest) \<longleftrightarrow> (\<exists>x bs'. d bs = Inr (x, bs') \<and> f x bs' = Inr (y, rest))"
  by (auto simp: seq_read_def)

lemma seq_read_rret [simp]: "seq_read (rret x) f = f x"
  by (simp add: seq_read_def rret_def fun_eq_iff)

lemma seq_read_scalars [simp]:
  "seq_read (read_u8 loc) f (write_u8 a @ rest) = f a rest"
  "seq_read (read_u32 loc) g (write_u32 b @ rest) = g b rest"
  "seq_read (read_i64 loc) h (write_i64 c @ rest) = h c rest"
  "seq_read (read_f64 loc) h (write_f64 c @ rest) = h c rest"
  by (simp_all add: seq_read_def)

lemma read_exact_append: "n = length b \<Longrightarrow> read_exact n loc (b @ rest) = Inr (b, rest)"
  by (simp add: read_exact_def)

lemma read_write_string:
  assumes "text_fits s" "write_string loc s = Inr bs"
  shows "read_string loc' (bs @ rest) = Inr (s, rest)"
proof -
  have len: "unat (word_of_nat (length s) :: u32) = length s" "\<not> length s > k_max_serialised_items * 16"
    using assms(1) by (simp_all add: text_fits_def unat_length_u32)
  have bs: "bs = write_u32 (word_of_nat (length s)) @ map byte_of_char s"
    using assms(2) by (simp add: write_string_def split: if_splits)
  show ?thesis
    using read_exact_append [of "length s" "map byte_of_char s" loc' rest]
    by (simp add: bs read_string_def len seq_read_Inr [of "read_exact (length s) loc'"] rret_def comp_def)
qed

interpretation str: codec "write_string loc" "read_string ''bt.load''" text_fits for loc
  by unfold_locales (auto intro: write_string_total read_write_string local_more local_intros)

interpretation child: codec write_child read_child "\<lambda>c. c < 2 ^ 32"
proof unfold_locales
  show "\<exists>bs. write_child x = Inr bs" for x by (simp add: write_child_def)
  show "read_child (bs @ rest) = Inr (x, rest)" if "x < 2 ^ 32" "write_child x = Inr bs" for x bs rest
    using that by (auto simp: write_child_def read_child_def seq_read_def rret_def unat_of_nat)
  show "read_child (bs @ ext) = Inr (x, rest @ ext)" if "read_child bs = Inr (x, rest)" for bs x rest ext
    using that unfolding read_child_def by (rule local_more [rotated]) (intro local_intros)
qed

subsection \<open>Arguments and nodes round trip\<close>

lemma arg_kind_codes [simp]:
  "is_valid_arg_kind (arg_kind_code k)" "all_arg_kinds ! unat (arg_kind_code k) = k"
  by (cases k; simp add: is_valid_arg_kind_def all_arg_kinds_def)+

lemma node_kind_codes [simp]:
  "is_valid_node_kind (node_kind_code k)" "all_node_kinds ! unat (node_kind_code k) = k"
  by (cases k; simp add: is_valid_node_kind_def all_node_kinds_def)+

declare arg_kind_code.simps [simp del] node_kind_code.simps [simp del]

lemma local_read_arg [local_intros]: "local_reader read_arg"
  unfolding read_arg_def by (intro local_intros) (auto split: arg_kind.split intro!: local_intros)

lemma write_arg_total: "arg_fits a \<Longrightarrow> \<exists>bs. write_arg a = Inr bs"
  using write_string_total [of "ar_text a" "''bt.save''"]
  by (auto simp: write_arg_def arg_fits_def split: arg_kind.split)

lemma read_write_arg:
  assumes "arg_fits a" "write_arg a = Inr bs"
  shows "read_arg (bs @ rest) = Inr (a, rest)"
proof -
  have str: "read_string ''bt.load'' (b @ rest) = Inr (ar_text a, rest)"
    if "write_string ''bt.save'' (ar_text a) = Inr b" for b
    using read_write_string assms(1) that by (simp add: arg_fits_def)
  have nf: "arg_normal a" using assms(1) by (simp add: arg_fits_def)
  from assms(2) obtain body where body: "bs = write_u8 (arg_kind_code (ar_kind a)) @ body"
      "(case ar_kind a of
         A_nil \<Rightarrow> Inr []
       | A_boolean \<Rightarrow> Inr (write_u8 (if ar_bool a then 1 else 0))
       | A_integer \<Rightarrow> Inr (write_i64 (ar_int a))
       | A_floating \<Rightarrow> Inr (write_f64 (ar_float a))
       | A_symbol \<Rightarrow> write_string ''bt.save'' (ar_text a)
       | A_string \<Rightarrow> write_string ''bt.save'' (ar_text a)) = Inr body"
    by (auto simp: write_arg_def)
  have kinds: "read_arg (bs @ rest) = Inr (a, rest)" if "ar_kind a = k" for k
    using nf body that str [of body]
    by (cases k)
      (auto simp: read_arg_def arg_normal_def rret_def seq_read_Inr [of "read_string _"] simp del: if_split
        split: if_split_asm)
  then show ?thesis by simp
qed

interpretation arg: codec write_arg read_arg arg_fits
  by unfold_locales (auto intro: write_arg_total read_write_arg local_more local_intros)

lemma local_read_n [local_intros]: "local_reader d \<Longrightarrow> local_reader (read_n n d)"
  by (induction n) (auto intro!: local_intros)

lemma local_read_node [local_intros]: "local_reader (read_node i)"
  unfolding read_node_def read_child_def by (intro local_intros)

lemma local_read_nodes [local_intros]: "local_reader (read_nodes i n)"
  by (induction n arbitrary: i) (auto intro!: local_intros)

lemma count_u32: "n \<le> k_max_serialised_items \<Longrightarrow> unat (word_of_nat n :: u32) = n"
  by (rule unat_length_u32) simp

lemma write_node_total: "node_fits i n \<Longrightarrow> \<exists>bs. write_node n = Inr bs"
  using child.write_all_total [of "nd_children n"] arg.write_all_total [of "nd_args n"]
    write_string_total [of "nd_leaf_name n" "''bt.save''"]
  by (auto simp: write_node_def node_fits_def)

lemma read_write_node:
  assumes "node_fits i n" "write_node n = Inr bs"
  shows "read_node i (bs @ rest) = Inr (n, rest)"
proof -
  from assms(2) obtain cs name as where parts: "write_all write_child (nd_children n) = Inr cs"
      "write_string ''bt.save'' (nd_leaf_name n) = Inr name" "write_all write_arg (nd_args n) = Inr as"
    and bs: "bs = write_u8 (node_kind_code (nd_kind n)) @ write_u8 0 @ write_u8 0 @ write_u8 0 @
        write_i64 (nd_int_param n) @ write_u32 (word_of_nat (length (nd_children n))) @
        cs @ name @ write_u32 (word_of_nat (length (nd_args n))) @ as"
    by (auto simp: write_node_def)
  note fits = assms(1) [unfolded node_fits_def]
  let ?tail = "write_u32 (word_of_nat (length (nd_args n))) @ as @ rest"
  have "read_n (length (nd_children n)) read_child (cs @ name @ ?tail) = Inr (nd_children n, name @ ?tail)"
    using child.read_n_write_all [OF _ parts(1)] fits by simp
  moreover have "read_string ''bt.load'' (name @ ?tail) = Inr (nd_leaf_name n, ?tail)"
    using read_write_string [OF _ parts(2)] fits by simp
  moreover have "read_n (length (nd_args n)) read_arg (as @ rest) = Inr (nd_args n, rest)"
    using arg.read_n_write_all [OF _ parts(3)] fits by simp
  ultimately show ?thesis
    using fits
    by (simp add: bs read_node_def count_u32 not_less rret_def seq_read_Inr [of "read_n _ _"]
        seq_read_Inr [of "read_string _"])
qed

lemma write_nodes_total:
  "list_all (\<lambda>(i, n). node_fits i n) (enumerate b ns) \<Longrightarrow> \<exists>bs. write_all write_node ns = Inr bs"
proof (induction ns arbitrary: b)
  case (Cons n ns)
  then obtain bs where "write_all write_node ns = Inr bs" by auto
  moreover obtain b' where "write_node n = Inr b'"
    using Cons.prems write_node_total [of b n] by auto
  ultimately show ?case by simp
qed simp

lemma read_write_nodes:
  "list_all (\<lambda>(i, n). node_fits i n) (enumerate b ns) \<Longrightarrow> write_all write_node ns = Inr bs \<Longrightarrow>
     read_nodes b (length ns) (bs @ rest) = Inr (ns, rest)"
proof (induction ns arbitrary: b bs)
  case Nil
  then show ?case by (simp add: rret_def)
next
  case (Cons n ns)
  then obtain x y where xy: "write_node n = Inr x" "write_all write_node ns = Inr y" "bs = x @ y" by auto
  have "read_node b (x @ y @ rest) = Inr (n, y @ rest)"
    using Cons.prems xy by (intro read_write_node) auto
  moreover have "read_nodes (Suc b) (length ns) (y @ rest) = Inr (ns, rest)"
    using Cons.IH [of "Suc b" y] Cons.prems xy by simp
  ultimately show ?case by (simp add: xy seq_read_def rret_def)
qed

subsection \<open>Files\<close>

lemma local_read_definition [local_intros]: "local_reader read_definition"
  unfolding read_definition_def by (intro local_intros)

lemma serialisable_nonempty: "serialisable d \<Longrightarrow> df_nodes d \<noteq> [] \<and> df_root d < length (df_nodes d)"
  by (auto simp: serialisable_def validate_definition_def split: if_splits)

lemma save_total: "serialisable d \<Longrightarrow> \<exists>fbs. save_definition_binary True path d = Inr fbs"
  using write_nodes_total [of 0 "df_nodes d"]
  by (auto simp: save_definition_binary_def serialisable_def)

lemma count_u32_nonzero: "0 < n \<Longrightarrow> n \<le> k_max_serialised_items \<Longrightarrow> (word_of_nat n :: u32) \<noteq> 0"
  using count_u32 [of n] by (metis less_numeral_extra(3) unat_0)

lemma read_saved:
  assumes "serialisable d" "save_definition_binary True path d = Inr fbs"
  shows "read_definition (fbs @ rest) = Inr (d, rest)"
proof -
  from assms(1) have d: "d = definition_default\<lparr>df_nodes := df_nodes d, df_root := df_root d\<rparr>"
      "length (df_nodes d) \<le> k_max_serialised_items"
      "list_all (\<lambda>(i, n). node_fits i n) (enumerate 0 (df_nodes d))"
    unfolding serialisable_def by blast+
  from serialisable_nonempty [OF assms(1)] have root: "df_nodes d \<noteq> []" "df_root d < length (df_nodes d)" by auto
  from assms(2) obtain body where body: "write_all write_node (df_nodes d) = Inr body"
    and fbs: "fbs = k_magic @ write_u32 k_format_version @ write_u8 k_endianness_little @
        write_u8 0 @ write_u8 0 @ write_u8 0 @ write_u32 (word_of_nat (length (df_nodes d))) @
        write_u32 (word_of_nat (df_root d)) @ body"
    by (auto simp: save_definition_binary_def)
  have magic: "seq_read (read_exact 4 ''bt.load'') f (k_magic @ r) = f k_magic r"
    for f :: "bytes \<Rightarrow> bt_definition reader" and r
    by (rule seq_read_Inr, rule read_exact_append) (simp add: k_magic_def)
  have "read_nodes 0 (length (df_nodes d)) (body @ rest) = Inr (df_nodes d, rest)"
    by (rule read_write_nodes [OF d(3) body])
  moreover have "definition_default\<lparr>df_root := df_root d, df_nodes := df_nodes d\<rparr> = d"
    by (rule trans [OF _ d(1) [symmetric]]) simp
  ultimately show ?thesis
    using d(2) root by (simp add: fbs read_definition_def magic count_u32 not_less
      count_u32_nonzero seq_read_Inr [of "read_nodes _ _"] rret_def)
qed

text \<open>
  C15. What \<open>save_definition_binary\<close> writes for a serialisable definition, \<open>load_definition_binary\<close>
  reads back as the same definition, whatever follows in the file.
\<close>

theorem save_load_roundtrip:
  assumes "serialisable d"
  shows "\<exists>fbs. save_definition_binary True path d = Inr fbs \<and>
    (\<forall>rest. load_definition_binary True path' (fbs @ rest) = Inr d)"
proof -
  obtain fbs where "save_definition_binary True path d = Inr fbs"
    using save_total [OF assms] by blast
  moreover from assms have "validate_definition d = None" by (simp add: serialisable_def)
  ultimately show ?thesis
    by (auto simp: load_definition_binary_def read_saved [OF assms])
qed

definition sample_definition :: bt_definition where
  "sample_definition = definition_default\<lparr>df_root := 1, df_nodes :=
     [node_default\<lparr>nd_kind := K_act, nd_leaf_name := ''go'', nd_args := [arg_default\<lparr>ar_kind := A_integer, ar_int := 7\<rparr>]\<rparr>,
      node_default\<lparr>nd_kind := K_retry, nd_id := 1, nd_int_param := 3, nd_children := [0]\<rparr>]\<rparr>"

lemma sample_serialisable: "serialisable sample_definition"
  by (simp add: sample_definition_def definition_default_def node_default_def arg_default_def serialisable_def
      node_fits_def text_fits_def arg_fits_def arg_normal_def k_max_serialised_items_def validate_definition_def
      validate_node_def)

theorem save_load_roundtrip_witness:
  "\<exists>fbs. save_definition_binary True ''a'' sample_definition = Inr fbs \<and>
    (\<forall>rest. load_definition_binary True ''a'' (fbs @ rest) = Inr sample_definition)"
  by (rule save_load_roundtrip [OF sample_serialisable])

text \<open>
  A file that was cut short is never accepted: every proper prefix of a saved file is rejected
  with the end-of-file error.
\<close>

theorem load_truncated:
  assumes "serialisable d" "save_definition_binary True path d = Inr fbs" "k < length fbs"
  shows "load_definition_binary True path' (take k fbs) = Inl ''bt.load: unexpected end of file''"
proof -
  have "read_definition fbs = Inr (d, [])"
    using read_saved [OF assms(1,2), of "[]"] by simp
  then obtain used where "fbs = used"
      "\<And>k. k < length used \<Longrightarrow> read_definition (take k used) = Inl ''bt.load: unexpected end of file''"
    by (rule local_readerE [OF local_read_definition]) simp
  with assms(3) show ?thesis by (simp add: load_definition_binary_def)
qed

theorem load_truncated_witness:
  "\<exists>fbs. save_definition_binary True ''a'' sample_definition = Inr fbs \<and> 20 < length fbs \<and>
    load_definition_binary True ''a'' (take 20 fbs) = Inl ''bt.load: unexpected end of file''"
proof -
  obtain fbs where fbs: "save_definition_binary True ''a'' sample_definition = Inr fbs"
    using save_total [OF sample_serialisable] by blast
  then have "20 < length fbs"
    by (auto simp: save_definition_binary_def sample_definition_def definition_default_def write_node_def
        write_string_def write_u32_def write_u8_def k_magic_def node_default_def write_i64_def write_u64_def)
  with fbs load_truncated [OF sample_serialisable fbs] show ?thesis by blast
qed

subsection \<open>What the loader returns\<close>

definition yields :: "'a reader \<Rightarrow> ('a \<Rightarrow> bool) \<Rightarrow> bool" where
  "yields d P \<longleftrightarrow> (\<forall>bs x rest. d bs = Inr (x, rest) \<longrightarrow> P x)"

named_theorems yield_intros \<open>what readers return\<close>

lemma yieldsD: "yields d P \<Longrightarrow> d bs = Inr (x, rest) \<Longrightarrow> P x"
  by (auto simp: yields_def)

lemma yields_rret [yield_intros]: "P x \<Longrightarrow> yields (rret x) P"
  by (simp add: yields_def rret_def)

lemma yields_rfail [yield_intros]: "yields (rfail m) P"
  by (simp add: yields_def rfail_def)

lemma yields_seq_read: "yields d Q \<Longrightarrow> (\<And>x. Q x \<Longrightarrow> yields (f x) P) \<Longrightarrow> yields (seq_read d f) P"
  unfolding yields_def seq_read_def by (fastforce simp: split_beta)

lemma yields_seq_any: "(\<And>x. yields (f x) P) \<Longrightarrow> yields (seq_read d f) P"
  by (rule yields_seq_read [of d "\<lambda>_. True"]) (simp_all add: yields_def)

lemma yields_if [yield_intros]: "(b \<Longrightarrow> yields d P) \<Longrightarrow> (\<not> b \<Longrightarrow> yields e P) \<Longrightarrow> yields (if b then d else e) P"
  by simp

lemma yields_read_exact: "yields (read_exact n loc) (\<lambda>b. length b = n)"
  by (auto simp: yields_def read_exact_def)

lemma yields_read_string: "yields (read_string loc) text_fits"
  unfolding read_string_def
  by (intro yields_seq_any yield_intros yields_seq_read [OF yields_read_exact]) (simp add: text_fits_def)

lemma yields_read_n: "yields d P \<Longrightarrow> yields (read_n n d) (\<lambda>xs. length xs = n \<and> list_all P xs)"
proof (induction n)
  case 0
  then show ?case by (simp add: yields_rret)
next
  case (Suc n)
  then show ?case
    by (auto intro!: yields_seq_read [OF Suc.prems] yields_seq_read [OF Suc.IH] yields_rret)
qed

lemma text_fits_Nil [simp]: "text_fits []"
  by (simp add: text_fits_def)

lemma yields_read_arg: "yields read_arg arg_fits"
  unfolding read_arg_def
  by (intro yields_seq_any yield_intros)
    (auto split: arg_kind.split intro!: yields_seq_any yields_seq_read [OF yields_read_string] yields_rret
      simp: arg_fits_def arg_normal_def arg_default_def)

lemma yields_read_child: "yields read_child (\<lambda>c. c < 2 ^ 32)"
  unfolding read_child_def
proof (intro yields_seq_any yields_rret)
  show "unat (w :: u32) < 2 ^ 32" for w using unsigned_less [of w] by simp
qed

lemma yields_read_node: "yields (read_node i) (node_fits i)"
  unfolding read_node_def
  by (intro yields_seq_any yields_if yields_rfail yields_seq_read [OF yields_read_n [OF yields_read_child]]
      yields_seq_read [OF yields_read_string] yields_seq_read [OF yields_read_n [OF yields_read_arg]] yields_rret)
    (auto simp: node_fits_def not_less)

lemma yields_read_nodes:
  "yields (read_nodes i n) (\<lambda>ns. length ns = n \<and> list_all (\<lambda>(i, n). node_fits i n) (enumerate i ns))"
proof (induction n arbitrary: i)
  case 0
  then show ?case by (simp add: yields_rret)
next
  case (Suc n)
  show ?case
    by (auto intro!: yields_seq_read [OF yields_read_node] yields_seq_read [OF Suc.IH] yields_rret)
qed

lemma yields_read_definition:
  "yields read_definition (\<lambda>d. d = definition_default\<lparr>df_nodes := df_nodes d, df_root := df_root d\<rparr> \<and>
     length (df_nodes d) \<le> k_max_serialised_items \<and>
     list_all (\<lambda>(i, n). node_fits i n) (enumerate 0 (df_nodes d)))"
  unfolding read_definition_def
  by (intro yields_seq_any yields_if yields_rfail yields_seq_read [OF yields_read_nodes] yields_rret)
    (auto simp: definition_default_def not_less)

text \<open>
  C36. Whatever bytes the loader accepts, the definition it returns is serialisable, so it is
  valid and saving and loading it again gives the same definition.
\<close>

theorem load_serialisable:
  assumes "load_definition_binary opens path fbs = Inr d"
  shows "serialisable d"
  using assms yieldsD [OF yields_read_definition, of fbs]
  by (auto simp: load_definition_binary_def serialisable_def split: if_splits option.splits)

theorem load_serialisable_witness:
  "\<exists>fbs. load_definition_binary True ''a'' fbs = Inr sample_definition \<and> serialisable sample_definition"
proof -
  obtain fbs where "save_definition_binary True ''a'' sample_definition = Inr fbs"
    using save_total [OF sample_serialisable] by blast
  then have "read_definition (fbs @ []) = Inr (sample_definition, [])"
    by (rule read_saved [OF sample_serialisable])
  then have "load_definition_binary True ''a'' fbs = Inr sample_definition"
    using sample_serialisable by (simp add: load_definition_binary_def serialisable_def)
  with load_serialisable [OF this] show ?thesis by blast
qed

subsection \<open>Saving what the compiler built\<close>

lemma compile_arg_normal: "compile_arg raw = Inr a \<Longrightarrow> arg_normal a"
  by (auto simp: compile_arg_def arg_normal_def arg_default_def split: lisp_value.splits)

lemma compile_args_normal: "compile_args xs = Inr as \<Longrightarrow> list_all arg_normal as"
  by (induction xs arbitrary: as) (auto dest: compile_arg_normal)

definition args_normal :: "node list \<Rightarrow> bool" where
  "args_normal nodes \<longleftrightarrow> (\<forall>n \<in> set nodes. list_all arg_normal (nd_args n))"

lemma args_normal_emit:
  "emit_node n nodes = (i, nodes') \<Longrightarrow> args_normal nodes \<Longrightarrow> list_all arg_normal (nd_args n) \<Longrightarrow> args_normal nodes'"
  by (auto simp: emit_node_def args_normal_def Let_def)

lemma node_default_args [simp]: "nd_args node_default = []"
  by (simp add: node_default_def)

lemma compile_leaf_normal:
  "compile_leaf f items nodes = Inr (i, nodes') \<Longrightarrow> args_normal nodes \<Longrightarrow> args_normal nodes'"
  unfolding compile_leaf_def
  by (auto split: if_splits option.splits elim!: args_normal_emit dest: compile_args_normal)

lemma compile_normal:
  shows "compile_node e nodes = Inr (i, nodes') \<Longrightarrow> args_normal nodes \<Longrightarrow> args_normal nodes'"
    and "compile_items es nodes = Inr (i, nodes') \<Longrightarrow> args_normal nodes \<Longrightarrow> args_normal nodes'"
    and "compile_children es nodes = Inr (is, nodes') \<Longrightarrow> args_normal nodes \<Longrightarrow> args_normal nodes'"
proof (induction e nodes and es nodes and es nodes arbitrary: i nodes' and i nodes' and "is" nodes'
    rule: compile_node_compile_items_compile_children.induct)
  case (1 e nodes)
  then show ?case by (auto split: if_splits simp del: compile_items.simps)
next
  case (2 es nodes)
  then show ?case
    by (auto simp del: compile_node.simps split: list.splits lisp_value.splits option.splits if_splits
        elim!: args_normal_emit intro: compile_leaf_normal)
next
  case (3 nodes)
  then show ?case by simp
next
  case (4 x xs nodes)
  then show ?case by (auto simp del: compile_node.simps)
qed

lemma validate_nodes_None:
  "validate_nodes N b ns = None \<longleftrightarrow> (\<forall>i < length ns. validate_node N (b + i) (ns ! i) = None)"
proof (induction ns arbitrary: b)
  case (Cons n ns)
  show ?case
    by (auto simp: Cons.IH All_less_Suc2 split: option.split)
qed simp

text \<open>The limits of the format a compiled definition can exceed.\<close>

definition node_storable :: "node \<Rightarrow> bool" where
  "node_storable n \<longleftrightarrow> text_fits (nd_leaf_name n) \<and> length (nd_args n) \<le> k_max_serialised_items \<and>
     list_all (\<lambda>a. text_fits (ar_text a)) (nd_args n) \<and> (named_leaf (nd_kind n) \<longrightarrow> nd_leaf_name n \<noteq> '''')"

definition storable :: "bt_definition \<Rightarrow> bool" where
  "storable d \<longleftrightarrow> length (df_nodes d) \<le> k_max_serialised_items \<and> list_all node_storable (df_nodes d)"

lemma wf_node_validate:
  "wf_node i n \<Longrightarrow> i < N \<Longrightarrow> node_storable n \<Longrightarrow> validate_node N i n = None"
proof -
  assume n: "wf_node i n" "i < N" "node_storable n"
  then have "nd_id n = i" "\<not> (\<exists>c \<in> set (nd_children n). c \<ge> N)"
    by (auto simp: wf_node_def)
  with n(1,3) show ?thesis
    by (cases "nd_kind n")
      (simp_all add: validate_node_def wf_node_def node_storable_def composite_def decorator_def named_leaf_def)
qed

lemma wf_validate:
  assumes "wf_definition d" "storable d"
  shows "validate_definition d = None"
  using assms
  by (auto simp: validate_definition_def validate_nodes_None wf_definition_def storable_def list_all_length
      intro: wf_node_validate)

lemma children_length_le:
  "n \<in> set ns \<Longrightarrow> length (nd_children n) \<le> length (concat (map nd_children ns))"
  by (induction ns) auto

lemma compiled_serialisable:
  assumes "compile_definition form = Inr d" "storable d"
  shows "serialisable d"
proof -
  from assms(1) obtain i nodes where c: "compile_node form [] = Inr (i, nodes)" "d = finish i nodes"
    by (auto simp: compile_definition_def simp del: compile_node.simps)
  then have i: "compile_node form [] = Inr (i, df_nodes d)" by (simp add: finish_def del: compile_node.simps)
  from c(2) have d: "d = definition_default\<lparr>df_nodes := df_nodes d, df_root := df_root d\<rparr>"
    by (simp add: finish_def)
  have normal: "args_normal (df_nodes d)"
    using compile_normal(1) [OF i] by (simp add: args_normal_def)
  have small: "length (df_nodes d) \<le> k_max_serialised_items" using assms(2) by (simp add: storable_def)
  then have f: "forest 0 (df_nodes d) [df_root d]"
    using compile_definition_emits [OF assms(1)] by (simp add: k_max_serialised_items_def)
  then have wf: "wf_definition d"
    using forest_roots [OF f] by (auto simp: forest_def wf_definition_def)
  have len: "length (concat (map nd_children (df_nodes d))) = df_root d"
    using forest_single_root [OF f] by (metis diff_zero length_upt size_mset)
  have "node_fits j (df_nodes d ! j)" if j: "j < length (df_nodes d)" for j
  proof -
    let ?n = "df_nodes d ! j"
    have n: "?n \<in> set (df_nodes d)" "wf_node j ?n" "node_storable ?n" "list_all arg_normal (nd_args ?n)"
      using j wf assms(2) normal by (auto simp: wf_definition_def storable_def list_all_length args_normal_def)
    have "length (nd_children ?n) \<le> k_max_serialised_items"
      using children_length_le [OF n(1)] len small forest_roots [OF f] by simp
    with n small j show ?thesis
      by (auto simp: node_fits_def wf_node_def node_storable_def list_all_iff arg_fits_def k_max_serialised_items_def)
  qed
  then have "list_all (\<lambda>(i, n). node_fits i n) (enumerate 0 (df_nodes d))"
    by (auto simp: list_all_length nth_enumerate_eq)
  with d small wf_validate [OF wf assms(2)] show ?thesis by (simp add: serialisable_def)
qed

lemma load_saved:
  assumes "serialisable d" "save_definition_binary True path d = Inr fbs"
  shows "load_definition_binary True path' fbs = Inr d"
  using read_saved [OF assms, of "[]"] assms(1) by (simp add: load_definition_binary_def serialisable_def)

text \<open>
  Compiling, saving and loading gives the compiled definition back, provided it is within the
  limits of the format: at most a million nodes and arguments per node, texts of at most sixteen
  million bytes, and no \<open>cond\<close>/\<open>act\<close> leaf whose name is empty.
\<close>

theorem compiled_roundtrip:
  assumes "compile_definition form = Inr d" "storable d"
  shows "rbind (save_definition_binary True path d) (load_definition_binary True path') = Inr d"
proof -
  have s: "serialisable d" by (rule compiled_serialisable [OF assms])
  obtain fbs where fbs: "save_definition_binary True path d = Inr fbs"
    using save_total [OF s] by blast
  from load_saved [OF s fbs] fbs show ?thesis by simp
qed

lemma sample_storable: "storable sample_compiled"
  by (simp add: sample_compiled_def finish_def definition_default_def node_default_def arg_default_def storable_def
      node_storable_def text_fits_def k_max_serialised_items_def named_leaf_def)

theorem compiled_roundtrip_witness:
  "\<exists>d. compile_definition sample_form = Inr d \<and> storable d \<and>
     rbind (save_definition_binary True ''a'' d) (load_definition_binary True ''a'') = Inr d"
  using compiled_roundtrip [OF sample_form_compiles sample_storable] sample_form_compiles sample_storable by blast

text \<open>A definition whose only node, an inverter, is its own child.\<close>

definition cyclic_definition :: bt_definition where
  "cyclic_definition = definition_default\<lparr>df_nodes := [node_default\<lparr>nd_kind := K_invert, nd_children := [0]\<rparr>]\<rparr>"

lemma cyclic_serialisable: "serialisable cyclic_definition"
  by (simp add: cyclic_definition_def definition_default_def node_default_def serialisable_def node_fits_def
      text_fits_def k_max_serialised_items_def validate_definition_def validate_node_def)

text \<open>
  The loader does not exclude cycles: there is a file it accepts and returns as the definition
  whose only node, an inverter, is its own child.
\<close>

theorem load_accepts_cycle:
  "\<exists>fbs. load_definition_binary True path fbs = Inr cyclic_definition \<and> \<not> wf_definition cyclic_definition"
proof -
  obtain fbs where "save_definition_binary True path cyclic_definition = Inr fbs"
    using save_total [OF cyclic_serialisable] by blast
  then have "read_definition (fbs @ []) = Inr (cyclic_definition, [])"
    by (rule read_saved [OF cyclic_serialisable])
  moreover have "validate_definition cyclic_definition = None"
    using cyclic_serialisable by (simp add: serialisable_def)
  moreover have "\<not> wf_definition cyclic_definition"
    by (simp add: cyclic_definition_def definition_default_def node_default_def wf_definition_def wf_node_def)
  ultimately have "load_definition_binary True path fbs = Inr cyclic_definition \<and> \<not> wf_definition cyclic_definition"
    by (simp add: load_definition_binary_def)
  then show ?thesis by (rule exI)
qed

end
