(* ===== verification/Observability.thy ===== *)
theory Observability
  imports Ast
begin

text \<open>
  The trace buffer, the memory log sink and the profile counters: \<open>src/bt/trace.cpp\<close>,
  \<open>src/bt/logging.cpp\<close>, \<open>src/bt/profile.cpp\<close> and their headers.

  Times and durations (\<open>steady_clock\<close> time points and \<open>nanoseconds\<close>) are unbounded integers counting
  nanoseconds. The mutexes make every operation atomic, so an operation is one function on the
  state. The buffers are interpretations of the interface \<open>bounded_log\<close>.
\<close>

type_synonym time_ns = int
type_synonym job_id = nat

datatype job_status = J_queued | J_running | J_done | J_failed | J_cancelled | J_unknown

fun job_status_name :: "job_status \<Rightarrow> string" where
  "job_status_name J_queued = ''queued''"
| "job_status_name J_running = ''running''"
| "job_status_name J_done = ''done''"
| "job_status_name J_failed = ''failed''"
| "job_status_name J_cancelled = ''cancelled''"
| "job_status_name J_unknown = ''unknown''"

subsection \<open>Trace buffer\<close>

datatype trace_event_kind =
    TE_tick_begin | TE_tick_end | TE_node_enter | TE_node_exit | TE_bb_write | TE_bb_read
  | TE_scheduler_submit | TE_scheduler_start | TE_scheduler_finish | TE_scheduler_cancel
  | TE_node_halt | TE_node_preempt | TE_warning | TE_error

record trace_event =
  te_kind :: trace_event_kind
  te_sequence :: nat
  te_tick_index :: nat
  te_ts :: time_ns
  te_node :: node_id
  te_status :: status
  te_duration :: time_ns
  te_job :: job_id
  te_job_st :: job_status
  te_key :: string
  te_value_repr :: string
  te_message :: string

definition trace_event_default :: trace_event where
  "trace_event_default = \<lparr>te_kind = TE_tick_begin, te_sequence = 0, te_tick_index = 0, te_ts = 0,
     te_node = 0, te_status = Failure, te_duration = 0, te_job = 0, te_job_st = J_unknown,
     te_key = [], te_value_repr = [], te_message = []\<rparr>"

record trace_buffer =
  tb_capacity :: nat
  tb_events :: "trace_event list"
  tb_sequence :: nat

definition trace_buffer_new :: "nat \<Rightarrow> trace_buffer" where
  "trace_buffer_new capacity = \<lparr>tb_capacity = capacity, tb_events = [], tb_sequence = 0\<rparr>"

definition trace_push :: "trace_event \<Rightarrow> trace_buffer \<Rightarrow> trace_buffer" where
  "trace_push ev b =
     (let n = Suc (tb_sequence b) in
      b\<lparr>tb_sequence := n, tb_events := ring_push (tb_capacity b) (ev\<lparr>te_sequence := n\<rparr>) (tb_events b)\<rparr>)"

definition trace_snapshot :: "trace_buffer \<Rightarrow> trace_event list" where
  "trace_snapshot b = tb_events b"

definition trace_size :: "trace_buffer \<Rightarrow> nat" where
  "trace_size b = length (tb_events b)"

definition trace_clear :: "trace_buffer \<Rightarrow> trace_buffer" where
  "trace_clear b = b\<lparr>tb_events := []\<rparr>"

fun trace_event_kind_name :: "trace_event_kind \<Rightarrow> string" where
  "trace_event_kind_name TE_tick_begin = ''tick_begin''"
| "trace_event_kind_name TE_tick_end = ''tick_end''"
| "trace_event_kind_name TE_node_enter = ''node_enter''"
| "trace_event_kind_name TE_node_exit = ''node_exit''"
| "trace_event_kind_name TE_bb_write = ''bb_write''"
| "trace_event_kind_name TE_bb_read = ''bb_read''"
| "trace_event_kind_name TE_scheduler_submit = ''scheduler_submit''"
| "trace_event_kind_name TE_scheduler_start = ''scheduler_start''"
| "trace_event_kind_name TE_scheduler_finish = ''scheduler_finish''"
| "trace_event_kind_name TE_scheduler_cancel = ''scheduler_cancel''"
| "trace_event_kind_name TE_node_halt = ''node_halt''"
| "trace_event_kind_name TE_node_preempt = ''node_preempt''"
| "trace_event_kind_name TE_warning = ''warning''"
| "trace_event_kind_name TE_error = ''error''"

subsection \<open>Memory log sink\<close>

datatype log_level = L_debug | L_info | L_warn | L_error

record log_record =
  lr_sequence :: nat
  lr_ts :: time_ns
  lr_level :: log_level
  lr_tick_index :: nat
  lr_node :: node_id
  lr_category :: string
  lr_message :: string

record memory_log_sink =
  ls_capacity :: nat
  ls_records :: "log_record list"
  ls_sequence :: nat

definition log_sink_new :: "nat \<Rightarrow> memory_log_sink" where
  "log_sink_new capacity = \<lparr>ls_capacity = capacity, ls_records = [], ls_sequence = 0\<rparr>"

definition log_write :: "log_record \<Rightarrow> memory_log_sink \<Rightarrow> memory_log_sink" where
  "log_write rec s =
     (let n = Suc (ls_sequence s) in
      s\<lparr>ls_sequence := n, ls_records := ring_push (ls_capacity s) (rec\<lparr>lr_sequence := n\<rparr>) (ls_records s)\<rparr>)"

definition log_snapshot :: "memory_log_sink \<Rightarrow> log_record list" where
  "log_snapshot s = ls_records s"

definition log_size :: "memory_log_sink \<Rightarrow> nat" where
  "log_size s = length (ls_records s)"

definition log_clear :: "memory_log_sink \<Rightarrow> memory_log_sink" where
  "log_clear s = s\<lparr>ls_records := []\<rparr>"

fun log_level_name :: "log_level \<Rightarrow> string" where
  "log_level_name L_debug = ''debug''"
| "log_level_name L_info = ''info''"
| "log_level_name L_warn = ''warn''"
| "log_level_name L_error = ''error''"

subsection \<open>Profile counters\<close>

record duration_stats =
  ds_count :: nat
  ds_last :: time_ns
  ds_max :: time_ns
  ds_total :: time_ns
  ds_over_budget_count :: nat

definition duration_stats_default :: duration_stats where
  "duration_stats_default = \<lparr>ds_count = 0, ds_last = 0, ds_max = 0, ds_total = 0, ds_over_budget_count = 0\<rparr>"

definition observe :: "time_ns \<Rightarrow> time_ns \<Rightarrow> duration_stats \<Rightarrow> duration_stats" where
  "observe sample budget s =
     s\<lparr>ds_count := Suc (ds_count s), ds_last := sample, ds_total := ds_total s + sample,
       ds_max := (if sample > ds_max s then sample else ds_max s),
       ds_over_budget_count := (if budget > 0 \<and> sample > budget then Suc (ds_over_budget_count s)
         else ds_over_budget_count s)\<rparr>"

record node_profile_stats =
  np_id :: node_id
  np_name :: string
  np_tick_duration :: duration_stats
  np_running_returns :: nat
  np_success_returns :: nat
  np_failure_returns :: nat

definition node_profile_stats_default :: node_profile_stats where
  "node_profile_stats_default = \<lparr>np_id = 0, np_name = [], np_tick_duration = duration_stats_default,
     np_running_returns = 0, np_success_returns = 0, np_failure_returns = 0\<rparr>"

record tree_profile_stats =
  tp_tick_duration :: duration_stats
  tp_tick_count :: nat
  tp_tick_overrun_count :: nat
  tp_configured_tick_budget :: time_ns

definition tree_profile_stats_default :: tree_profile_stats where
  "tree_profile_stats_default = \<lparr>tp_tick_duration = duration_stats_default, tp_tick_count = 0,
     tp_tick_overrun_count = 0, tp_configured_tick_budget = 0\<rparr>"

record scheduler_profile_stats =
  sp_submitted :: nat
  sp_started :: nat
  sp_completed :: nat
  sp_failed :: nat
  sp_cancelled :: nat
  sp_queue_overflow :: nat
  sp_queue_delay :: duration_stats
  sp_run_time :: duration_stats

definition scheduler_profile_stats_default :: scheduler_profile_stats where
  "scheduler_profile_stats_default = \<lparr>sp_submitted = 0, sp_started = 0, sp_completed = 0, sp_failed = 0,
     sp_cancelled = 0, sp_queue_overflow = 0, sp_queue_delay = duration_stats_default,
     sp_run_time = duration_stats_default\<rparr>"

text \<open>Entries numbered from \<open>n + 1\<close> on.\<close>

fun number_from :: "(nat \<Rightarrow> 'e \<Rightarrow> 'e) \<Rightarrow> nat \<Rightarrow> 'e list \<Rightarrow> 'e list" where
  "number_from f n [] = []"
| "number_from f n (e # es) = f (Suc n) e # number_from f (Suc n) es"

subsection \<open>Lemmas\<close>

interpretation tb: bounded_log trace_push tb_events tb_capacity tb_sequence "\<lambda>n e. e\<lparr>te_sequence := n\<rparr>"
  by unfold_locales (simp_all add: trace_push_def Let_def)

interpretation ls: bounded_log log_write ls_records ls_capacity ls_sequence "\<lambda>n r. r\<lparr>lr_sequence := n\<rparr>"
  by unfold_locales (simp_all add: log_write_def Let_def)

lemma tb_stamped: "tb.stamped n es = number_from (\<lambda>n e. e\<lparr>te_sequence := n\<rparr>) n es"
proof (induction es arbitrary: n)
  case Nil
  then show ?case by (simp add: tb.stamped_def)
qed (simp add: tb.stamped_Cons)

lemma ls_stamped: "ls.stamped n es = number_from (\<lambda>n r. r\<lparr>lr_sequence := n\<rparr>) n es"
proof (induction es arbitrary: n)
  case Nil
  then show ?case by (simp add: ls.stamped_def)
qed (simp add: ls.stamped_Cons)

text \<open>
  After any sequence of pushes, a trace buffer of capacity \<open>cap\<close> holds exactly the last \<open>cap\<close> of
  the pushed events, in order, each with its position in the whole sequence as its number.
\<close>

theorem trace_buffer_keeps_latest:
  "trace_snapshot (fold trace_push evs (trace_buffer_new cap)) =
     last_n cap (number_from (\<lambda>n e. e\<lparr>te_sequence := n\<rparr>) 0 evs)"
  using tb.items_pushes [of "trace_buffer_new cap" evs]
  by (simp add: trace_buffer_new_def tb_stamped trace_snapshot_def)

text \<open>
  The same holds of the memory log sink, and clearing it never restarts the numbering.
\<close>

theorem log_sink_keeps_latest:
  "log_snapshot (fold log_write recs (log_sink_new cap)) =
     last_n cap (number_from (\<lambda>n r. r\<lparr>lr_sequence := n\<rparr>) 0 recs) \<and>
   log_snapshot (fold log_write recs' (log_clear (fold log_write recs (log_sink_new cap)))) =
     last_n cap (number_from (\<lambda>n r. r\<lparr>lr_sequence := n\<rparr>) (length recs) recs')"
proof -
  let ?s = "fold log_write recs (log_sink_new cap)"
  have c: "ls_capacity (log_clear ?s) = cap" "ls_sequence (log_clear ?s) = length recs" "ls_records (log_clear ?s) = []"
    using ls.cap_pushes [of recs "log_sink_new cap"] ls.count_pushes [of recs "log_sink_new cap"]
    by (simp_all add: log_clear_def log_sink_new_def)
  show ?thesis
    using ls.items_pushes [of "log_sink_new cap" recs] ls.items_pushes [of "log_clear ?s" recs'] c
    by (simp add: log_snapshot_def ls_stamped log_sink_new_def)
qed

lemma observe_fold:
  "ds_count (fold (\<lambda>x. observe x b) xs s) = ds_count s + length xs"
  "ds_total (fold (\<lambda>x. observe x b) xs s) = ds_total s + sum_list xs"
  "ds_max (fold (\<lambda>x. observe x b) xs s) = fold max xs (ds_max s)"
  "ds_over_budget_count (fold (\<lambda>x. observe x b) xs s) =
     ds_over_budget_count s + length (filter (\<lambda>x. b > 0 \<and> x > b) xs)"
  by (induction xs arbitrary: s) (auto simp: observe_def max_def)

lemma observe_fold_last: "ds_last (fold (\<lambda>x. observe x b) xs s) = (if xs = [] then ds_last s else last xs)"
  by (induction xs arbitrary: s) (auto simp: observe_def)

text \<open>
  The counters of \<open>duration_stats\<close> summarise the samples they saw: their number, sum, last
  and largest (never below zero), and how many were over a positive budget.
\<close>

theorem duration_stats_summary:
  "fold (\<lambda>x. observe x budget) xs duration_stats_default =
     \<lparr>ds_count = length xs, ds_last = (if xs = [] then 0 else last xs), ds_max = Max (insert 0 (set xs)),
      ds_total = sum_list xs, ds_over_budget_count = length (filter (\<lambda>x. budget > 0 \<and> x > budget) xs)\<rparr>"
proof -
  have "fold max xs (0 :: int) = Max (insert 0 (set xs))"
    by (simp flip: Max.set_eq_fold)
  then show ?thesis
    using observe_fold [of budget xs duration_stats_default] observe_fold_last [of budget xs duration_stats_default]
    by (intro duration_stats.equality) (simp_all add: duration_stats_default_def)
qed

end
