(* ===== verification/Event_Log.thy ===== *)
theory Event_Log
  imports Doubles Serialisation Observability
begin

text \<open>
  The event log, \<open>src/bt/event_log.cpp\<close>: numbered JSON lines kept in a ring, appended to a file and
  handed to a listener.

  The wall clock is the sequence of its readings (\<open>el_wall\<close>, with the number of readings taken so
  far). A listener is represented by the lines it received. The file system is the function
  \<open>el_fs\<close> that says whether a path opens for appending; a line written to an open stream is
  recorded in \<open>el_file\<close> with its path. Buffering inside the stream, a failing write after a
  successful open, a failing \<open>create_directories\<close> and the allocation hooks have no part in the
  model. The lock only makes operations atomic.
\<close>

unbundle bit_operations_syntax

record event_log =
  el_enabled :: bool
  el_file_enabled :: bool
  el_flush_on_tick_end :: bool
  el_flush_each_message :: bool
  el_tick_audit_enabled :: bool
  el_tick_audit_warmup_complete :: bool
  el_tick_audit_strict_allocations :: bool
  el_run_started :: bool
  el_ring_capacity :: nat
  el_ring :: "string list"
  el_path :: string
  el_open_path :: "string option"
  el_run_id :: string
  el_seq :: nat
  el_tick_hz :: double
  el_git_sha :: string
  el_host_name :: string
  el_host_version :: string
  el_host_platform :: string
  el_listener :: bool
  el_delivered :: "string list"
  el_deterministic_time :: bool
  el_deterministic_unix_ms :: i64
  el_deterministic_step_ms :: i64
  el_capture_stats :: bool
  el_captured_event_count :: nat
  el_captured_byte_count :: nat
  el_snapshot_bb_requested :: bool
  el_snapshot_bb_full :: bool
  el_wall :: "nat \<Rightarrow> i64"
  el_wall_reads :: nat
  el_fs :: "string \<Rightarrow> bool"
  el_file :: "(string \<times> string) list"

definition event_log_new :: "(nat \<Rightarrow> i64) \<Rightarrow> (string \<Rightarrow> bool) \<Rightarrow> nat \<Rightarrow> event_log" where
  "event_log_new wall fs capacity = \<lparr>
     el_enabled = True, el_file_enabled = False, el_flush_on_tick_end = True,
     el_flush_each_message = False, el_tick_audit_enabled = False,
     el_tick_audit_warmup_complete = True, el_tick_audit_strict_allocations = False,
     el_run_started = False, el_ring_capacity = capacity, el_ring = [],
     el_path = ''logs/run.jsonl'', el_open_path = None, el_run_id = ''run-0'', el_seq = 0,
     el_tick_hz = 0x4049000000000000, el_git_sha = ''unknown'', el_host_name = ''muesli-bt'',
     el_host_version = ''dev'', el_host_platform = ''unknown'', el_listener = False, el_delivered = [],
     el_deterministic_time = False, el_deterministic_unix_ms = 0, el_deterministic_step_ms = 1,
     el_capture_stats = False, el_captured_event_count = 0, el_captured_byte_count = 0,
     el_snapshot_bb_requested = False, el_snapshot_bb_full = False,
     el_wall = wall, el_wall_reads = 0, el_fs = fs, el_file = []\<rparr>"

subsection \<open>Text\<close>

definition fnv1a_64 :: "string \<Rightarrow> u64" where
  "fnv1a_64 text = fold (\<lambda>c hash. (hash XOR word_of_nat (of_char c)) * 1099511628211) text 1469598103934665603"

definition hex_digit :: "nat \<Rightarrow> char" where
  "hex_digit d = char_of (if d < 10 then 48 + d else 87 + d)"

fun hex_fixed :: "nat \<Rightarrow> u64 \<Rightarrow> string" where
  "hex_fixed 0 w = []"
| "hex_fixed (Suc n) w = hex_fixed n (drop_bit 4 w) @ [hex_digit (unat (w AND 0xF))]"

definition hash64_hex :: "string \<Rightarrow> string" where
  "hash64_hex text = ''fnv1a64:'' @ hex_fixed 16 (fnv1a_64 text)"

definition json_escape :: "string \<Rightarrow> string" where
  "json_escape text = escape_text text"

definition escaped_json_size :: "string \<Rightarrow> nat" where
  "escaped_json_size text =
     sum_list (map (\<lambda>c. if c \<in> {backslash, dquote, newline, carriage, tabulator} then 2 else 1) text)"

definition runtime_contract_version :: string where
  "runtime_contract_version = ''1.0.0''"

definition runtime_contract_id :: string where
  "runtime_contract_id = ''runtime-contract-v1.0.0''"

definition serialise_event_line_size :: "string \<Rightarrow> string \<Rightarrow> i64 \<Rightarrow> nat \<Rightarrow> nat option \<Rightarrow> string \<Rightarrow> nat" where
  "serialise_event_line_size type run_id unix_ms seq tick data =
     43 + escaped_json_size runtime_contract_version +
     10 + escaped_json_size type +
     12 + escaped_json_size run_id +
     12 + length (i64_str unix_ms) +
     7 + length (nat_str seq) +
     (case tick of None \<Rightarrow> 0 | Some t \<Rightarrow> 8 + length (nat_str t)) +
     8 + length data + 1"

definition serialise_event_line :: "string \<Rightarrow> string \<Rightarrow> i64 \<Rightarrow> nat \<Rightarrow> nat option \<Rightarrow> string \<Rightarrow> string" where
  "serialise_event_line type run_id unix_ms seq tick data =
     ''{'' @ jkey ''schema'' @ quoted ''mbt.evt.v1'' @ '','' @
     jkey ''contract_version'' @ quoted (json_escape runtime_contract_version) @ '','' @
     jkey ''type'' @ quoted (json_escape type) @ '','' @
     jkey ''run_id'' @ quoted (json_escape run_id) @ '','' @
     jkey ''unix_ms'' @ i64_str unix_ms @ '','' @
     jkey ''seq'' @ nat_str seq @
     (case tick of None \<Rightarrow> [] | Some t \<Rightarrow> '','' @ jkey ''tick'' @ nat_str t) @ '','' @
     jkey ''data'' @ data @ ''}''"

subsection \<open>Settings\<close>

definition el_set_enabled :: "bool \<Rightarrow> event_log \<Rightarrow> event_log" where
  "el_set_enabled b s = s\<lparr>el_enabled := b\<rparr>"

definition el_set_ring_capacity :: "nat \<Rightarrow> event_log \<Rightarrow> event_log" where
  "el_set_ring_capacity capacity s =
     (if capacity = 0 then s\<lparr>el_ring_capacity := 0, el_ring := []\<rparr>
      else if length (el_ring s) > capacity
        then s\<lparr>el_ring_capacity := capacity, el_ring := drop (length (el_ring s) - capacity) (el_ring s)\<rparr>
      else s\<lparr>el_ring_capacity := capacity\<rparr>)"

definition el_set_path :: "string \<Rightarrow> event_log \<Rightarrow> string + event_log" where
  "el_set_path path s =
     guard_err (path = []) ''events.set-path: path must not be empty''
       (Inr (s\<lparr>el_path := path,
          el_open_path := (if el_open_path s = Some path then el_open_path s else None)\<rparr>))"

definition el_set_file_enabled :: "bool \<Rightarrow> event_log \<Rightarrow> event_log" where
  "el_set_file_enabled b s =
     (if b then s\<lparr>el_file_enabled := True\<rparr> else s\<lparr>el_file_enabled := False, el_open_path := None\<rparr>)"

definition el_set_run_id :: "string \<Rightarrow> event_log \<Rightarrow> string + event_log" where
  "el_set_run_id run_id s =
     guard_err (run_id = []) ''set_run_id: run_id must not be empty''
       (Inr (s\<lparr>el_run_id := run_id, el_seq := 0, el_run_started := False\<rparr>))"

definition el_set_tick_hz :: "double \<Rightarrow> event_log \<Rightarrow> event_log" where
  "el_set_tick_hz hz s = (if fp_less 0 hz then s\<lparr>el_tick_hz := hz\<rparr> else s)"

definition el_set_git_sha :: "string \<Rightarrow> event_log \<Rightarrow> event_log" where
  "el_set_git_sha sha s = s\<lparr>el_git_sha := (if sha = [] then ''unknown'' else sha)\<rparr>"

definition el_set_host_info :: "string \<Rightarrow> string \<Rightarrow> string \<Rightarrow> event_log \<Rightarrow> event_log" where
  "el_set_host_info name version platform s = s\<lparr>
     el_host_name := (if name \<noteq> [] then name else el_host_name s),
     el_host_version := (if version \<noteq> [] then version else el_host_version s),
     el_host_platform := (if platform \<noteq> [] then platform else el_host_platform s)\<rparr>"

definition el_set_line_listener :: "event_log \<Rightarrow> event_log" where
  "el_set_line_listener s = s\<lparr>el_listener := True\<rparr>"

definition el_clear_line_listener :: "event_log \<Rightarrow> event_log" where
  "el_clear_line_listener s = s\<lparr>el_listener := False\<rparr>"

definition el_set_deterministic_time :: "i64 \<Rightarrow> i64 \<Rightarrow> event_log \<Rightarrow> event_log" where
  "el_set_deterministic_time start step s = s\<lparr>el_deterministic_time := True,
     el_deterministic_unix_ms := start, el_deterministic_step_ms := step\<rparr>"

definition el_clear_deterministic_time :: "event_log \<Rightarrow> event_log" where
  "el_clear_deterministic_time s = s\<lparr>el_deterministic_time := False,
     el_deterministic_unix_ms := 0, el_deterministic_step_ms := 1\<rparr>"

definition el_set_capture_stats :: "bool \<Rightarrow> event_log \<Rightarrow> event_log" where
  "el_set_capture_stats b s = s\<lparr>el_capture_stats := b\<rparr>"

definition el_clear_capture_stats :: "event_log \<Rightarrow> event_log" where
  "el_clear_capture_stats s = s\<lparr>el_captured_event_count := 0, el_captured_byte_count := 0\<rparr>"

definition el_set_tick_audit :: "bool \<Rightarrow> bool \<Rightarrow> bool \<Rightarrow> event_log \<Rightarrow> event_log" where
  "el_set_tick_audit enabled complete strict s = s\<lparr>el_tick_audit_enabled := enabled,
     el_tick_audit_warmup_complete := complete, el_tick_audit_strict_allocations := strict\<rparr>"

definition el_set_flush :: "bool \<Rightarrow> bool \<Rightarrow> event_log \<Rightarrow> event_log" where
  "el_set_flush on_tick_end each_message s = s\<lparr>el_flush_on_tick_end := on_tick_end,
     el_flush_each_message := each_message\<rparr>"

definition el_snapshot :: "nat \<Rightarrow> event_log \<Rightarrow> string list" where
  "el_snapshot max_count s =
     (if max_count = 0 \<or> max_count \<ge> length (el_ring s) then el_ring s
      else drop (length (el_ring s) - max_count) (el_ring s))"

definition el_clear_ring :: "event_log \<Rightarrow> event_log" where
  "el_clear_ring s = s\<lparr>el_ring := []\<rparr>"

definition request_snapshot_bb :: "bool \<Rightarrow> event_log \<Rightarrow> event_log" where
  "request_snapshot_bb full s = s\<lparr>el_snapshot_bb_requested := True, el_snapshot_bb_full := full\<rparr>"

definition consume_snapshot_bb_request :: "event_log \<Rightarrow> bool \<times> bool \<times> event_log" where
  "consume_snapshot_bb_request s =
     (if \<not> el_snapshot_bb_requested s then (False, False, s)
      else (True, el_snapshot_bb_full s, s\<lparr>el_snapshot_bb_requested := False\<rparr>))"

subsection \<open>Emitting\<close>

definition append_ring_line :: "string \<Rightarrow> event_log \<Rightarrow> event_log" where
  "append_ring_line line s = s\<lparr>el_ring := ring_push (el_ring_capacity s) line (el_ring s)\<rparr>"

definition append_file_line :: "string \<Rightarrow> event_log \<Rightarrow> event_log" where
  "append_file_line line s =
     (if el_open_path s = Some (el_path s) then s\<lparr>el_file := el_file s @ [(el_path s, line)]\<rparr>
      else if \<not> el_fs s (el_path s) then s\<lparr>el_open_path := None\<rparr>
      else s\<lparr>el_open_path := Some (el_path s), el_file := el_file s @ [(el_path s, line)]\<rparr>)"

definition take_unix_ms :: "event_log \<Rightarrow> i64 \<times> event_log" where
  "take_unix_ms s =
     (if el_deterministic_time s then
        (el_deterministic_unix_ms s,
         s\<lparr>el_deterministic_unix_ms := el_deterministic_unix_ms s + el_deterministic_step_ms s\<rparr>)
      else (el_wall s (el_wall_reads s), s\<lparr>el_wall_reads := Suc (el_wall_reads s)\<rparr>))"

definition capture_event :: "nat \<Rightarrow> event_log \<Rightarrow> event_log" where
  "capture_event bytes s =
     (if el_capture_stats s
      then s\<lparr>el_captured_event_count := Suc (el_captured_event_count s),
        el_captured_byte_count := el_captured_byte_count s + bytes\<rparr>
      else s)"

definition store_line :: "string \<Rightarrow> event_log \<Rightarrow> event_log" where
  "store_line line s =
     (if el_file_enabled s then append_file_line line (append_ring_line line s) else append_ring_line line s)"

definition deliver_line :: "string \<Rightarrow> event_log \<Rightarrow> event_log" where
  "deliver_line line s = (if el_listener s then s\<lparr>el_delivered := el_delivered s @ [line]\<rparr> else s)"

definition needs_serialised_line :: "event_log \<Rightarrow> bool" where
  "needs_serialised_line s \<longleftrightarrow> el_file_enabled s \<or> el_ring_capacity s \<noteq> 0 \<or> el_listener s"

definition el_emit :: "string \<Rightarrow> nat option \<Rightarrow> string \<Rightarrow> event_log \<Rightarrow> event_log" where
  "el_emit type tick data s0 =
     (let seq = Suc (el_seq s0); s = s0\<lparr>el_seq := seq\<rparr> in
      if \<not> el_enabled s then s
      else
        let unix_ms = fst (take_unix_ms s); s = snd (take_unix_ms s) in
        if needs_serialised_line s then
          let line = serialise_event_line type (el_run_id s) unix_ms seq tick data
          in deliver_line line (store_line line (capture_event (length line) s))
        else
          capture_event (serialise_event_line_size type (el_run_id s) unix_ms seq tick data) s)"

definition run_start_json :: "string \<Rightarrow> string \<Rightarrow> event_log \<Rightarrow> string" where
  "run_start_json tree_hash capabilities_json s =
     ''{'' @ jkey ''git_sha'' @ quoted (json_escape (el_git_sha s)) @ '','' @
     jkey ''host'' @ ''{'' @ jkey ''name'' @ quoted (json_escape (el_host_name s)) @ '','' @
     jkey ''version'' @ quoted (json_escape (el_host_version s)) @ '','' @
     jkey ''platform'' @ quoted (json_escape (el_host_platform s)) @ ''},'' @
     jkey ''contract_version'' @ quoted runtime_contract_version @ '','' @
     jkey ''contract_id'' @ quoted runtime_contract_id @ '','' @
     jkey ''tick_hz'' @ fp_str (el_tick_hz s) @ '','' @
     jkey ''tree_hash'' @ quoted (json_escape tree_hash) @ '','' @
     jkey ''capabilities'' @ capabilities_json @ ''}''"

definition ensure_run_started :: "string \<Rightarrow> string \<Rightarrow> event_log \<Rightarrow> event_log" where
  "ensure_run_started tree_hash capabilities_json s =
     (if el_run_started s then s
      else (el_emit ''run_start'' None (run_start_json tree_hash capabilities_json s) s)\<lparr>el_run_started := True\<rparr>)"

definition arg_signature :: "arg_value \<Rightarrow> string" where
  "arg_signature a =
     ''|arg-kind='' @ nat_str (unat (arg_kind_code (ar_kind a))) @
     (case ar_kind a of
        A_nil \<Rightarrow> []
      | A_boolean \<Rightarrow> ''|bool='' @ bool_json (ar_bool a)
      | A_integer \<Rightarrow> ''|int='' @ i64_str (ar_int a)
      | A_floating \<Rightarrow> ''|float='' @ fp_str (ar_float a)
      | A_symbol \<Rightarrow> ''|text='' @ ar_text a
      | A_string \<Rightarrow> ''|text='' @ ar_text a)"

definition node_signature :: "node \<Rightarrow> string" where
  "node_signature n =
     ''|id='' @ nat_str (nd_id n) @ ''|kind='' @ nat_str (unat (node_kind_code (nd_kind n))) @
     ''|name='' @ nd_leaf_name n @ ''|int='' @ i64_str (nd_int_param n) @
     concat (map arg_signature (nd_args n)) @
     concat (map (\<lambda>c. ''->'' @ nat_str c) (nd_children n))"

definition definition_graph :: "bt_definition \<Rightarrow> string" where
  "definition_graph d = ''root='' @ nat_str (df_root d) @ concat (map node_signature (df_nodes d))"

fun event_node_kind_name :: "node_kind \<Rightarrow> string" where
  "event_node_kind_name K_seq = ''seq''"
| "event_node_kind_name K_sel = ''sel''"
| "event_node_kind_name K_invert = ''invert''"
| "event_node_kind_name K_repeat = ''repeat''"
| "event_node_kind_name K_retry = ''retry''"
| "event_node_kind_name K_cond = ''cond''"
| "event_node_kind_name K_act = ''act''"
| "event_node_kind_name K_succeed = ''succeed''"
| "event_node_kind_name K_fail = ''fail''"
| "event_node_kind_name K_running = ''running''"
| "event_node_kind_name K_plan_action = ''plan_action''"
| "event_node_kind_name K_vla_request = ''vla_request''"
| "event_node_kind_name K_vla_wait = ''vla_wait''"
| "event_node_kind_name K_vla_cancel = ''vla_cancel''"
| "event_node_kind_name K_mem_seq = ''mem_seq''"
| "event_node_kind_name K_mem_sel = ''mem_sel''"
| "event_node_kind_name K_async_seq = ''async_seq''"
| "event_node_kind_name K_reactive_seq = ''reactive_seq''"
| "event_node_kind_name K_reactive_sel = ''reactive_sel''"

definition node_json :: "node \<Rightarrow> string" where
  "node_json n =
     ''{'' @ jkey ''id'' @ nat_str (nd_id n) @ '','' @
     jkey ''kind'' @ quoted (event_node_kind_name (nd_kind n)) @ '','' @
     jkey ''name'' @ quoted (json_escape
       (if nd_leaf_name n = [] then ''node-'' @ nat_str (nd_id n) else nd_leaf_name n)) @ ''}''"

definition edge_json :: "node_id \<Rightarrow> nat \<times> node_id \<Rightarrow> string" where
  "edge_json parent = (\<lambda>(i, child).
     ''{'' @ jkey ''parent'' @ nat_str parent @ '','' @ jkey ''child'' @ nat_str child @ '','' @
     jkey ''index'' @ nat_str i @ ''}'')"

definition definition_tree_hash :: "bt_definition \<Rightarrow> string" where
  "definition_tree_hash d =
     (if df_canonical_dsl_hash d = [] then hash64_hex (definition_graph d) else df_canonical_dsl_hash d)"

definition bt_def_json :: "bt_definition \<Rightarrow> string" where
  "bt_def_json d =
     ''{'' @ jkey ''tree_name'' @ quoted ''bt'' @ '','' @
     jkey ''dsl'' @ quoted (json_escape (if df_canonical_dsl d = [] then ''<runtime-definition>'' else df_canonical_dsl d)) @ '','' @
     jkey ''tree_hash'' @ quoted (json_escape (definition_tree_hash d)) @
     (if df_source_hash d \<noteq> [] then '','' @ jkey ''source_hash'' @ quoted (json_escape (df_source_hash d)) else []) @
     (if df_canonical_dsl_hash d \<noteq> []
      then '','' @ jkey ''canonical_dsl_hash'' @ quoted (json_escape (df_canonical_dsl_hash d)) else []) @
     '','' @ jkey ''nodes'' @ ''['' @ comma_join (map node_json (df_nodes d)) @ ''],'' @
     jkey ''edges'' @ ''['' @
     comma_join (concat (map (\<lambda>n. map (edge_json (nd_id n)) (enumerate 0 (nd_children n))) (df_nodes d))) @ '']}''"

definition default_capabilities :: string where
  "default_capabilities = ''{'' @ jkey ''reset'' @ ''true}''"

definition emit_bt_def :: "bt_definition \<Rightarrow> event_log \<Rightarrow> event_log" where
  "emit_bt_def d s =
     el_emit ''bt_def'' None (bt_def_json d) (ensure_run_started (definition_tree_hash d) default_capabilities s)"

subsection \<open>Effect of one event\<close>

text \<open>The line of the \<open>i\<close>-th event emitted from state \<open>s\<close> on, and the time it carries.\<close>

definition event_time :: "event_log \<Rightarrow> nat \<Rightarrow> i64" where
  "event_time s i =
     (if el_deterministic_time s then el_deterministic_unix_ms s + of_nat i * el_deterministic_step_ms s
      else el_wall s (el_wall_reads s + i))"

type_synonym event = "string \<times> nat option \<times> string"

definition emit_event :: "event \<Rightarrow> event_log \<Rightarrow> event_log" where
  "emit_event = (\<lambda>(type, tick, data). el_emit type tick data)"

definition event_line :: "event_log \<Rightarrow> nat \<Rightarrow> event \<Rightarrow> string" where
  "event_line s i = (\<lambda>(type, tick, data).
     serialise_event_line type (el_run_id s) (event_time s i) (el_seq s + i + 1) tick data)"

fun event_lines_from :: "event_log \<Rightarrow> nat \<Rightarrow> event list \<Rightarrow> string list" where
  "event_lines_from s i [] = []"
| "event_lines_from s i (e # es) = event_line s i e # event_lines_from s (Suc i) es"

lemma take_unix_ms_frame [simp]:
  "el_enabled (snd (take_unix_ms s)) = el_enabled s"
  "el_run_id (snd (take_unix_ms s)) = el_run_id s"
  "el_seq (snd (take_unix_ms s)) = el_seq s"
  "el_ring_capacity (snd (take_unix_ms s)) = el_ring_capacity s"
  "el_ring (snd (take_unix_ms s)) = el_ring s"
  "el_listener (snd (take_unix_ms s)) = el_listener s"
  "el_delivered (snd (take_unix_ms s)) = el_delivered s"
  "el_file_enabled (snd (take_unix_ms s)) = el_file_enabled s"
  "el_file (snd (take_unix_ms s)) = el_file s"
  "el_open_path (snd (take_unix_ms s)) = el_open_path s"
  "el_path (snd (take_unix_ms s)) = el_path s"
  "el_fs (snd (take_unix_ms s)) = el_fs s"
  "el_capture_stats (snd (take_unix_ms s)) = el_capture_stats s"
  "el_captured_event_count (snd (take_unix_ms s)) = el_captured_event_count s"
  "el_captured_byte_count (snd (take_unix_ms s)) = el_captured_byte_count s"
  "el_deterministic_time (snd (take_unix_ms s)) = el_deterministic_time s"
  "el_deterministic_step_ms (snd (take_unix_ms s)) = el_deterministic_step_ms s"
  "el_wall (snd (take_unix_ms s)) = el_wall s"
  "el_run_started (snd (take_unix_ms s)) = el_run_started s"
  "el_tick_audit_enabled (snd (take_unix_ms s)) = el_tick_audit_enabled s"
  by (simp_all add: take_unix_ms_def)

lemma capture_event_frame [simp]:
  "el_enabled (capture_event n s) = el_enabled s"
  "el_run_id (capture_event n s) = el_run_id s"
  "el_seq (capture_event n s) = el_seq s"
  "el_ring_capacity (capture_event n s) = el_ring_capacity s"
  "el_ring (capture_event n s) = el_ring s"
  "el_listener (capture_event n s) = el_listener s"
  "el_delivered (capture_event n s) = el_delivered s"
  "el_file_enabled (capture_event n s) = el_file_enabled s"
  "el_file (capture_event n s) = el_file s"
  "el_open_path (capture_event n s) = el_open_path s"
  "el_path (capture_event n s) = el_path s"
  "el_fs (capture_event n s) = el_fs s"
  "el_capture_stats (capture_event n s) = el_capture_stats s"
  "el_deterministic_time (capture_event n s) = el_deterministic_time s"
  "el_deterministic_step_ms (capture_event n s) = el_deterministic_step_ms s"
  "el_deterministic_unix_ms (capture_event n s) = el_deterministic_unix_ms s"
  "el_wall (capture_event n s) = el_wall s"
  "el_wall_reads (capture_event n s) = el_wall_reads s"
  "el_run_started (capture_event n s) = el_run_started s"
  "el_tick_audit_enabled (capture_event n s) = el_tick_audit_enabled s"
  by (simp_all add: capture_event_def)

lemma store_line_frame [simp]:
  "el_enabled (store_line l s) = el_enabled s"
  "el_run_id (store_line l s) = el_run_id s"
  "el_seq (store_line l s) = el_seq s"
  "el_ring_capacity (store_line l s) = el_ring_capacity s"
  "el_ring (store_line l s) = ring_push (el_ring_capacity s) l (el_ring s)"
  "el_listener (store_line l s) = el_listener s"
  "el_delivered (store_line l s) = el_delivered s"
  "el_file_enabled (store_line l s) = el_file_enabled s"
  "el_path (store_line l s) = el_path s"
  "el_fs (store_line l s) = el_fs s"
  "el_capture_stats (store_line l s) = el_capture_stats s"
  "el_captured_event_count (store_line l s) = el_captured_event_count s"
  "el_captured_byte_count (store_line l s) = el_captured_byte_count s"
  "el_deterministic_time (store_line l s) = el_deterministic_time s"
  "el_deterministic_step_ms (store_line l s) = el_deterministic_step_ms s"
  "el_deterministic_unix_ms (store_line l s) = el_deterministic_unix_ms s"
  "el_wall (store_line l s) = el_wall s"
  "el_wall_reads (store_line l s) = el_wall_reads s"
  "el_run_started (store_line l s) = el_run_started s"
  "el_tick_audit_enabled (store_line l s) = el_tick_audit_enabled s"
  by (simp_all add: store_line_def append_ring_line_def append_file_line_def)

lemma store_line_file:
  "el_file (store_line l s) = el_file s @
     (if el_file_enabled s \<and> (el_fs s (el_path s) \<or> el_open_path s = Some (el_path s)) then [(el_path s, l)] else [])"
  by (simp add: store_line_def append_ring_line_def append_file_line_def)

lemma deliver_line_frame [simp]:
  "el_enabled (deliver_line l s) = el_enabled s"
  "el_run_id (deliver_line l s) = el_run_id s"
  "el_seq (deliver_line l s) = el_seq s"
  "el_ring_capacity (deliver_line l s) = el_ring_capacity s"
  "el_ring (deliver_line l s) = el_ring s"
  "el_listener (deliver_line l s) = el_listener s"
  "el_delivered (deliver_line l s) = el_delivered s @ (if el_listener s then [l] else [])"
  "el_file_enabled (deliver_line l s) = el_file_enabled s"
  "el_file (deliver_line l s) = el_file s"
  "el_open_path (deliver_line l s) = el_open_path s"
  "el_path (deliver_line l s) = el_path s"
  "el_fs (deliver_line l s) = el_fs s"
  "el_capture_stats (deliver_line l s) = el_capture_stats s"
  "el_captured_event_count (deliver_line l s) = el_captured_event_count s"
  "el_captured_byte_count (deliver_line l s) = el_captured_byte_count s"
  "el_deterministic_time (deliver_line l s) = el_deterministic_time s"
  "el_deterministic_step_ms (deliver_line l s) = el_deterministic_step_ms s"
  "el_deterministic_unix_ms (deliver_line l s) = el_deterministic_unix_ms s"
  "el_wall (deliver_line l s) = el_wall s"
  "el_wall_reads (deliver_line l s) = el_wall_reads s"
  "el_run_started (deliver_line l s) = el_run_started s"
  "el_tick_audit_enabled (deliver_line l s) = el_tick_audit_enabled s"
  by (simp_all add: deliver_line_def)

lemma el_emit_frame [simp]:
  "el_seq (el_emit type tick data s) = Suc (el_seq s)"
  "el_enabled (el_emit type tick data s) = el_enabled s"
  "el_run_id (el_emit type tick data s) = el_run_id s"
  "el_ring_capacity (el_emit type tick data s) = el_ring_capacity s"
  "el_listener (el_emit type tick data s) = el_listener s"
  "el_file_enabled (el_emit type tick data s) = el_file_enabled s"
  "el_capture_stats (el_emit type tick data s) = el_capture_stats s"
  "el_deterministic_time (el_emit type tick data s) = el_deterministic_time s"
  "el_deterministic_step_ms (el_emit type tick data s) = el_deterministic_step_ms s"
  "el_wall (el_emit type tick data s) = el_wall s"
  "el_fs (el_emit type tick data s) = el_fs s"
  "el_path (el_emit type tick data s) = el_path s"
  "el_run_started (el_emit type tick data s) = el_run_started s"
  "el_tick_audit_enabled (el_emit type tick data s) = el_tick_audit_enabled s"
  by (simp_all add: el_emit_def Let_def)

lemma fst_take_unix_ms: "fst (take_unix_ms (s\<lparr>el_seq := n\<rparr>)) = event_time s 0"
  by (simp add: take_unix_ms_def event_time_def)

lemma el_emit_ring:
  "el_enabled s \<Longrightarrow>
     el_ring (el_emit type tick data s) =
       ring_push (el_ring_capacity s) (event_line s 0 (type, tick, data)) (el_ring s)"
  by (simp add: el_emit_def Let_def event_line_def fst_take_unix_ms ring_push_def needs_serialised_line_def)

lemma el_emit_delivered:
  "el_enabled s \<Longrightarrow>
     el_delivered (el_emit type tick data s) =
       el_delivered s @ (if el_listener s then [event_line s 0 (type, tick, data)] else [])"
  by (simp add: el_emit_def Let_def event_line_def fst_take_unix_ms needs_serialised_line_def)

lemma el_emit_file:
  "el_enabled s \<Longrightarrow>
     el_file (el_emit type tick data s) =
       el_file s @ (if el_file_enabled s \<and> (el_fs s (el_path s) \<or> el_open_path s = Some (el_path s))
         then [(el_path s, event_line s 0 (type, tick, data))] else [])"
  by (simp add: el_emit_def Let_def event_line_def fst_take_unix_ms needs_serialised_line_def store_line_file)

lemma el_emit_disabled: "\<not> el_enabled s \<Longrightarrow> el_emit type tick data s = s\<lparr>el_seq := Suc (el_seq s)\<rparr>"
  by (simp add: el_emit_def Let_def)

lemma el_emit_clock:
  "el_enabled s \<Longrightarrow> el_deterministic_unix_ms (el_emit type tick data s) =
     (if el_deterministic_time s then el_deterministic_unix_ms s + el_deterministic_step_ms s
      else el_deterministic_unix_ms s)"
  "el_enabled s \<Longrightarrow> el_wall_reads (el_emit type tick data s) =
     (if el_deterministic_time s then el_wall_reads s else Suc (el_wall_reads s))"
  by (simp_all add: el_emit_def Let_def) (simp_all add: take_unix_ms_def)

lemma event_time_emit:
  "el_enabled s \<Longrightarrow> event_time (el_emit type tick data s) i = event_time s (Suc i)"
  by (simp add: event_time_def el_emit_clock algebra_simps)

lemma event_line_emit:
  "el_enabled s \<Longrightarrow> event_line (el_emit type tick data s) i e = event_line s (Suc i) e"
  by (simp add: event_line_def event_time_emit split: prod.split)

lemma event_lines_emit:
  "el_enabled s \<Longrightarrow> event_lines_from (el_emit type tick data s) i es = event_lines_from s (Suc i) es"
  by (induction es arbitrary: i) (simp_all add: event_line_emit)

lemma escaped_size: "escaped_json_size s = length (json_escape s)"
  by (induction s) (auto simp: escaped_json_size_def json_escape_def escape_char_def)

lemma line_size:
  "serialise_event_line_size type run_id unix_ms seq tick data =
     length (serialise_event_line type run_id unix_ms seq tick data)"
  by (simp add: serialise_event_line_size_def serialise_event_line_def escaped_size jkey_def quoted_def split: option.split)

text \<open>
  The size that \<open>serialise_event_line_size\<close> computes (used to reserve memory and, when no line
  is built, to count bytes) is the length of the line \<open>serialise_event_line\<close> builds.
\<close>

theorem event_line_size:
  "serialise_event_line_size type run_id unix_ms seq tick data =
     length (serialise_event_line type run_id unix_ms seq tick data)"
  by (rule line_size)

lemma event_lines_length [simp]: "length (event_lines_from s i es) = length es"
  by (induction es arbitrary: i) simp_all

lemma emit_event_frame [simp]:
  "el_enabled (emit_event e s) = el_enabled s"
  "el_ring_capacity (emit_event e s) = el_ring_capacity s"
  "el_listener (emit_event e s) = el_listener s"
  "el_file_enabled (emit_event e s) = el_file_enabled s"
  "el_capture_stats (emit_event e s) = el_capture_stats s"
  "el_fs (emit_event e s) = el_fs s"
  "el_path (emit_event e s) = el_path s"
  "el_seq (emit_event e s) = Suc (el_seq s)"
  by (cases e; simp add: emit_event_def)+

lemma emit_event_effects:
  assumes "el_enabled s"
  shows "el_ring (emit_event e s) = ring_push (el_ring_capacity s) (event_line s 0 e) (el_ring s)"
    and "el_delivered (emit_event e s) = el_delivered s @ (if el_listener s then [event_line s 0 e] else [])"
    and "event_lines_from (emit_event e s) i es = event_lines_from s (Suc i) es"
    and "el_fs s (el_path s) \<Longrightarrow> el_file (emit_event e s) =
      el_file s @ (if el_file_enabled s then [(el_path s, event_line s 0 e)] else [])"
  using assms
  by (cases e; simp add: emit_event_def el_emit_ring el_emit_delivered event_lines_emit el_emit_file)+

lemma capture_event_counts:
  "el_capture_stats s \<Longrightarrow> el_captured_event_count (capture_event n s) = Suc (el_captured_event_count s)"
  "el_capture_stats s \<Longrightarrow> el_captured_byte_count (capture_event n s) = el_captured_byte_count s + n"
  by (simp_all add: capture_event_def)

lemma emit_event_capture:
  assumes "el_enabled s" "el_capture_stats s"
  shows "el_captured_event_count (emit_event e s) = Suc (el_captured_event_count s)"
    and "el_captured_byte_count (emit_event e s) = el_captured_byte_count s + length (event_line s 0 e)"
  using assms
  by (cases e; simp add: emit_event_def el_emit_def Let_def event_line_def fst_take_unix_ms line_size
      capture_event_counts)+

lemma emit_events_ring:
  "el_enabled s \<Longrightarrow> length (el_ring s) \<le> el_ring_capacity s \<Longrightarrow>
     el_ring (fold emit_event es s) = last_n (el_ring_capacity s) (el_ring s @ event_lines_from s 0 es)"
proof (induction es arbitrary: s)
  case Nil
  then show ?case by (simp add: last_n_all)
next
  case (Cons e es)
  let ?s = "emit_event e s"
  have ring: "el_ring ?s = last_n (el_ring_capacity s) (el_ring s @ [event_line s 0 e])"
    using Cons.prems by (simp add: emit_event_effects ring_push_last_n)
  then have "length (el_ring ?s) \<le> el_ring_capacity ?s" by simp
  then have "el_ring (fold emit_event es ?s) = last_n (el_ring_capacity s) (el_ring ?s @ event_lines_from s 1 es)"
    using Cons.IH [of ?s] Cons.prems by (simp add: emit_event_effects)
  then show ?case by (simp add: ring last_n_append_last_n)
qed

lemma emit_events_sinks:
  assumes "el_enabled s"
  shows "el_seq (fold emit_event es s) = el_seq s + length es"
    and "el_delivered (fold emit_event es s) =
      el_delivered s @ (if el_listener s then event_lines_from s 0 es else [])"
    and "el_fs s (el_path s) \<Longrightarrow> el_file (fold emit_event es s) =
      el_file s @ (if el_file_enabled s then map (Pair (el_path s)) (event_lines_from s 0 es) else [])"
    and "el_capture_stats s \<Longrightarrow> el_captured_event_count (fold emit_event es s) = el_captured_event_count s + length es"
    and "el_capture_stats s \<Longrightarrow> el_captured_byte_count (fold emit_event es s) =
      el_captured_byte_count s + sum_list (map length (event_lines_from s 0 es))"
  using assms by (induction es arbitrary: s) (simp_all add: emit_event_effects emit_event_capture)

text \<open>
  While the log is enabled, emitting a sequence of events numbers them consecutively, hands
  exactly their lines, in order, to the listener and to the file, keeps the last lines up to the
  capacity in the ring, and counts exactly the events and bytes of these lines.
\<close>

theorem emit_sequence:
  fixes s :: event_log and es :: "event list"
  assumes "el_enabled s" "length (el_ring s) \<le> el_ring_capacity s" "el_fs s (el_path s)"
  defines "lines \<equiv> event_lines_from s 0 es" and "s' \<equiv> fold emit_event es s"
  shows "el_seq s' = el_seq s + length es \<and>
    el_ring s' = last_n (el_ring_capacity s) (el_ring s @ lines) \<and>
    el_delivered s' = el_delivered s @ (if el_listener s then lines else []) \<and>
    el_file s' = el_file s @ (if el_file_enabled s then map (Pair (el_path s)) lines else []) \<and>
    (el_capture_stats s \<longrightarrow> el_captured_event_count s' = el_captured_event_count s + length es \<and>
       el_captured_byte_count s' = el_captured_byte_count s + sum_list (map length lines))"
  unfolding lines_def s'_def
  using emit_events_ring [OF assms(1,2)] emit_events_sinks [OF assms(1)] assms(3) by simp

theorem emit_sequence_witness:
  "\<exists>s' l1 l2. s' = fold emit_event [(''tick_begin'', Some 1, ''{}''), (''tick_end'', Some 1, ''{}'')]
       (event_log_new (\<lambda>_. 0) (\<lambda>_. True) 1) \<and>
     el_seq s' = 2 \<and> el_ring s' = [l2] \<and>
     l1 = serialise_event_line ''tick_begin'' ''run-0'' 0 1 (Some 1) ''{}'' \<and>
     l2 = serialise_event_line ''tick_end'' ''run-0'' 0 2 (Some 1) ''{}''"
  using emit_sequence [of "event_log_new (\<lambda>_. 0) (\<lambda>_. True) 1" "[(''tick_begin'', Some 1, ''{}''), (''tick_end'', Some 1, ''{}'')]"]
  by (simp add: event_log_new_def last_n_def event_line_def event_time_def numeral_2_eq_2)

text \<open>
  Text inside a line is recoverable: no run id and no event type can break the line, because
  the escaped text holds no raw quote or line break and unescaping it gives the text back.
\<close>

theorem json_escape_invertible: "unescape_text (json_escape text) = Some text"
  by (simp add: json_escape_def unescape_escape)

text \<open>
  A run whose log was disabled when it started never gets a \<open>run_start\<close> event: after
  \<open>ensure_run_started\<close> on a disabled log, enabling the log and asking again emits nothing.
\<close>

theorem run_start_lost:
  fixes s :: event_log and h c :: string
  assumes "\<not> el_enabled s"
  defines "s' \<equiv> el_set_enabled True (ensure_run_started h c s)"
  shows "ensure_run_started h' c' s' = s' \<and> el_ring s' = el_ring s \<and> el_delivered s' = el_delivered s \<and>
    el_file s' = el_file s"
  using assms by (simp add: el_set_enabled_def ensure_run_started_def el_emit_disabled)

theorem run_start_lost_witness:
  "ensure_run_started [] [] (el_set_enabled True (ensure_run_started [] []
     (el_set_enabled False (event_log_new (\<lambda>_. 0) (\<lambda>_. True) 8)))) =
   el_set_enabled True (ensure_run_started [] [] (el_set_enabled False (event_log_new (\<lambda>_. 0) (\<lambda>_. True) 8)))"
  using run_start_lost [of "el_set_enabled False (event_log_new (\<lambda>_. 0) (\<lambda>_. True) 8)"]
  by (simp add: el_set_enabled_def)

end
