(* ===== verification/Blackboard.thy ===== *)
theory Blackboard
  imports Doubles Observability
begin

text \<open>
  The blackboard, \<open>src/bt/blackboard.cpp\<close>. The \<open>unordered_map\<close> is an association list with distinct
  keys; the order of the list stands for the iteration order of the map, on which no theorem rests.
\<close>

type_synonym ('k, 'v) alist = "('k \<times> 'v) list"

datatype bb_value =
    BB_nil
  | BB_bool bool
  | BB_int i64
  | BB_float double
  | BB_string string
  | BB_vec "double list"
  | BB_image i64
  | BB_blob i64

record bb_entry =
  be_value :: bb_value
  be_last_write_tick :: nat
  be_last_write_ts :: time_ns
  be_last_writer_node_id :: node_id
  be_last_writer_name :: string

type_synonym blackboard = "(string, bb_entry) alist"

subsection \<open>Unordered maps\<close>

fun alist_put :: "'k \<Rightarrow> 'v \<Rightarrow> ('k, 'v) alist \<Rightarrow> ('k, 'v) alist" where
  "alist_put k v [] = [(k, v)]"
| "alist_put k v ((k', v') # xs) = (if k = k' then (k, v) # xs else (k', v') # alist_put k v xs)"

definition alist_erase :: "'k \<Rightarrow> ('k, 'v) alist \<Rightarrow> ('k, 'v) alist" where
  "alist_erase k xs = filter (\<lambda>(k', _). k' \<noteq> k) xs"

definition alist_wf :: "('k, 'v) alist \<Rightarrow> bool" where
  "alist_wf xs \<longleftrightarrow> distinct (map fst xs)"

subsection \<open>Operations\<close>

definition bb_has :: "string \<Rightarrow> blackboard \<Rightarrow> bool" where
  "bb_has key bb \<longleftrightarrow> map_of bb key \<noteq> None"

definition bb_lookup :: "string \<Rightarrow> blackboard \<Rightarrow> bb_entry option" where
  "bb_lookup key bb = map_of bb key"

definition bb_store :: "string \<Rightarrow> bb_value \<Rightarrow> nat \<Rightarrow> time_ns \<Rightarrow> node_id \<Rightarrow> string \<Rightarrow> blackboard \<Rightarrow> blackboard" where
  "bb_store key v tick ts writer_node writer_name bb =
     alist_put key \<lparr>be_value = v, be_last_write_tick = tick, be_last_write_ts = ts,
       be_last_writer_node_id = writer_node, be_last_writer_name = writer_name\<rparr> bb"

definition bb_snapshot :: "blackboard \<Rightarrow> (string \<times> bb_entry) list" where
  "bb_snapshot bb = bb"

definition bb_clear :: "blackboard \<Rightarrow> blackboard" where
  "bb_clear bb = []"

definition bb_value_repr :: "bb_value \<Rightarrow> string" where
  "bb_value_repr v =
     (case v of
        BB_nil \<Rightarrow> ''nil''
      | BB_bool b \<Rightarrow> if b then ''#t'' else ''#f''
      | BB_int i \<Rightarrow> i64_str i
      | BB_float f \<Rightarrow> fp_str f
      | BB_string s \<Rightarrow> s
      | BB_vec xs \<Rightarrow> ''['' @ comma_join (map fp_str xs) @ '']''
      | BB_image i \<Rightarrow> ''image_handle('' @ i64_str i @ '')''
      | BB_blob i \<Rightarrow> ''blob_handle('' @ i64_str i @ '')'')"

definition bb_value_type_name :: "bb_value \<Rightarrow> string" where
  "bb_value_type_name v =
     (case v of
        BB_nil \<Rightarrow> ''nil''
      | BB_bool _ \<Rightarrow> ''bool''
      | BB_int _ \<Rightarrow> ''int64''
      | BB_float _ \<Rightarrow> ''float64''
      | BB_string _ \<Rightarrow> ''string''
      | BB_vec _ \<Rightarrow> ''float64[]''
      | BB_image _ \<Rightarrow> ''image_handle''
      | BB_blob _ \<Rightarrow> ''blob_handle'')"

subsection \<open>The interface of a keyed store\<close>

text \<open>What the clients of the unordered maps rely on.\<close>

locale keyed_store =
  fixes put :: "'k \<Rightarrow> 'v \<Rightarrow> 's \<Rightarrow> 's"
    and get :: "'k \<Rightarrow> 's \<Rightarrow> 'v option"
    and inv :: "'s \<Rightarrow> bool"
  assumes get_put: "get k (put k' v s) = (if k = k' then Some v else get k s)"
    and inv_put: "inv s \<Longrightarrow> inv (put k v s)"
begin

lemma get_puts_other:
  "k \<notin> fst ` set kvs \<Longrightarrow> get k (fold (\<lambda>(k, v). put k v) kvs s) = get k s"
  by (induction kvs arbitrary: s) (auto simp: get_put)

lemma get_puts:
  "get k (fold (\<lambda>(k, v). put k v) kvs s) = (case map_of (rev kvs) k of Some v \<Rightarrow> Some v | None \<Rightarrow> get k s)"
proof (induction kvs arbitrary: s)
  case (Cons kv kvs)
  obtain k' v where "kv = (k', v)" by (cases kv)
  with Cons show ?case by (auto simp: get_put map_add_def split: option.split)
qed simp

lemma inv_puts: "inv s \<Longrightarrow> inv (fold (\<lambda>(k, v). put k v) kvs s)"
  by (induction kvs arbitrary: s) (auto simp: inv_put)

end

lemma map_of_alist_put [simp]: "map_of (alist_put k v xs) = (map_of xs)(k \<mapsto> v)"
  by (induction k v xs rule: alist_put.induct) auto

lemma alist_put_keys: "set (map fst (alist_put k v xs)) = insert k (set (map fst xs))"
  by (induction k v xs rule: alist_put.induct) auto

lemma alist_put_wf: "alist_wf xs \<Longrightarrow> alist_wf (alist_put k v xs)"
proof (induction k v xs rule: alist_put.induct)
  case (2 k v k' v' xs)
  then show ?case using alist_put_keys [of k v xs] by (auto simp: alist_wf_def)
qed (simp add: alist_wf_def)

lemma map_of_alist_erase [simp]: "map_of (alist_erase k xs) = (map_of xs)(k := None)"
  by (induction xs) (auto simp: alist_erase_def)

lemma alist_erase_wf: "alist_wf xs \<Longrightarrow> alist_wf (alist_erase k xs)"
  by (induction xs) (auto simp: alist_wf_def alist_erase_def)

text \<open>A write given by the entry it stores.\<close>

definition bb_write :: "string \<Rightarrow> bb_entry \<Rightarrow> blackboard \<Rightarrow> blackboard" where
  "bb_write key e = bb_store key (be_value e) (be_last_write_tick e) (be_last_write_ts e)
     (be_last_writer_node_id e) (be_last_writer_name e)"

interpretation store: keyed_store bb_write bb_lookup alist_wf
  by unfold_locales (auto simp: bb_write_def bb_store_def bb_lookup_def intro: alist_put_wf)

text \<open>
  After any sequence of writes, looking a key up gives the entry of the last write to that
  key, or what was there before when there was none, and no key is stored twice.
\<close>

theorem blackboard_last_write:
  "bb_lookup key (fold (\<lambda>(k, e). bb_write k e) writes bb) =
     (case map_of (rev writes) key of Some e \<Rightarrow> Some e | None \<Rightarrow> bb_lookup key bb) \<and>
   distinct (map fst (bb_snapshot (fold (\<lambda>(k, e). bb_write k e) writes (bb_clear bb))))"
  using store.get_puts [of key writes bb] store.inv_puts [of "[]" writes]
  by (simp add: bb_clear_def alist_wf_def bb_snapshot_def)

end
