(* ===== verification/Scheduler.thy ===== *)
theory Scheduler
  imports Observability
begin

text \<open>
  The thread-pool scheduler, \<open>src/bt/scheduler.cpp\<close>. Every critical section is one function on the
  state; between its two critical sections a worker runs the job's function outside the lock. The
  step relation \<open>sched_step\<close> interleaves the critical sections of any number of clients and of
  \<open>worker_count\<close> workers in any order; what the job function returns or throws is an argument of
  the finishing step. The condition variable only delays workers and is not represented: a worker
  step is possible whenever the queue is not empty.
\<close>

record 'r job_state =
  js_status :: job_status
  js_submitted_at :: time_ns
  js_started_at :: time_ns
  js_finished_at :: time_ns
  js_task_name :: string
  js_error_text :: string
  js_result :: "'r option"
  js_cancel_requested :: bool

record 'r sched =
  sc_workers :: nat
  sc_stopping :: bool
  sc_next_job_id :: job_id
  sc_queue :: "job_id list"
  sc_jobs :: "job_id \<Rightarrow> 'r job_state option"
  sc_stats :: scheduler_profile_stats
  sc_active :: "job_id list"

text \<open>\<open>sc_active\<close> lists the jobs that workers are executing, one per busy worker.\<close>

record job_info =
  ji_status :: job_status
  ji_submitted_at :: time_ns
  ji_started_at :: time_ns
  ji_finished_at :: time_ns
  ji_task_name :: string
  ji_error_text :: string

definition job_info_default :: job_info where
  "job_info_default = \<lparr>ji_status = J_unknown, ji_submitted_at = 0, ji_started_at = 0, ji_finished_at = 0,
     ji_task_name = [], ji_error_text = []\<rparr>"

definition effective_worker_count :: "nat \<Rightarrow> nat \<Rightarrow> nat" where
  "effective_worker_count hardware requested =
     (if requested > 0 then requested else if hardware = 0 then 2 else if hardware > 4 then 4 else hardware)"

definition sched_new :: "nat \<Rightarrow> nat \<Rightarrow> 'r sched" where
  "sched_new hardware requested = \<lparr>sc_workers = effective_worker_count hardware requested, sc_stopping = False,
     sc_next_job_id = 1, sc_queue = [], sc_jobs = Map.empty, sc_stats = scheduler_profile_stats_default,
     sc_active = []\<rparr>"

definition sched_submit :: "bool \<Rightarrow> string \<Rightarrow> time_ns \<Rightarrow> 'r sched \<Rightarrow> string + job_id \<times> 'r sched" where
  "sched_submit has_fn task_name now s =
     (if \<not> has_fn then Inl ''scheduler submit: empty job function''
      else let i = sc_next_job_id s;
               st = \<lparr>js_status = J_queued, js_submitted_at = now, js_started_at = 0, js_finished_at = 0,
                 js_task_name = task_name, js_error_text = [], js_result = None, js_cancel_requested = False\<rparr>
           in Inr (i, s\<lparr>sc_next_job_id := Suc i, sc_jobs := (sc_jobs s)(i \<mapsto> st), sc_queue := sc_queue s @ [i],
                sc_stats := (sc_stats s)\<lparr>sp_submitted := Suc (sp_submitted (sc_stats s))\<rparr>\<rparr>))"

definition sched_get_info :: "job_id \<Rightarrow> 'r sched \<Rightarrow> job_info" where
  "sched_get_info i s =
     (case sc_jobs s i of
        None \<Rightarrow> job_info_default
      | Some st \<Rightarrow> \<lparr>ji_status = js_status st, ji_submitted_at = js_submitted_at st, ji_started_at = js_started_at st,
          ji_finished_at = js_finished_at st, ji_task_name = js_task_name st, ji_error_text = js_error_text st\<rparr>)"

definition sched_try_get_result :: "job_id \<Rightarrow> 'r sched \<Rightarrow> 'r option" where
  "sched_try_get_result i s =
     (case sc_jobs s i of
        None \<Rightarrow> None
      | Some st \<Rightarrow> if js_status st \<noteq> J_done then None else js_result st)"

definition terminal_job :: "job_status \<Rightarrow> bool" where
  "terminal_job st \<longleftrightarrow> st \<in> {J_done, J_failed, J_cancelled}"

definition sched_cancel :: "job_id \<Rightarrow> time_ns \<Rightarrow> 'r sched \<Rightarrow> bool \<times> 'r sched" where
  "sched_cancel i now s =
     (case sc_jobs s i of
        None \<Rightarrow> (False, s)
      | Some st \<Rightarrow>
          if terminal_job (js_status st) then (False, s)
          else if js_status st = J_queued then
            (True, s\<lparr>sc_jobs := (sc_jobs s)(i \<mapsto> st\<lparr>js_cancel_requested := True, js_status := J_cancelled, js_finished_at := now\<rparr>),
               sc_stats := (sc_stats s)\<lparr>sp_cancelled := Suc (sp_cancelled (sc_stats s))\<rparr>\<rparr>)
          else (True, s\<lparr>sc_jobs := (sc_jobs s)(i \<mapsto> st\<lparr>js_cancel_requested := True\<rparr>)\<rparr>))"

text \<open>First critical section of a worker: take the front of the queue, skip it if it is unknown or cancelled.\<close>

definition worker_take :: "time_ns \<Rightarrow> 'r sched \<Rightarrow> 'r sched" where
  "worker_take start s =
     (case sc_queue s of
        [] \<Rightarrow> s
      | i # rest \<Rightarrow>
          let s = s\<lparr>sc_queue := rest\<rparr> in
          (case sc_jobs s i of
             None \<Rightarrow> s
           | Some st \<Rightarrow>
               if js_status st = J_cancelled then s
               else s\<lparr>sc_jobs := (sc_jobs s)(i \<mapsto> st\<lparr>js_status := J_running, js_started_at := start\<rparr>),
                 sc_active := i # sc_active s,
                 sc_stats := (sc_stats s)\<lparr>sp_started := Suc (sp_started (sc_stats s)),
                   sp_queue_delay := observe (start - js_submitted_at st) 0 (sp_queue_delay (sc_stats s))\<rparr>\<rparr>))"

text \<open>Second critical section, after the job function returned \<open>Inr r\<close> or threw \<open>Inl e\<close>.\<close>

definition worker_finish :: "job_id \<Rightarrow> exn + 'r \<Rightarrow> time_ns \<Rightarrow> 'r sched \<Rightarrow> 'r sched" where
  "worker_finish i out finish s =
     (case sc_jobs s i of
        None \<Rightarrow> s
      | Some st \<Rightarrow>
          let st = st\<lparr>js_finished_at := finish\<rparr>;
              stats = (sc_stats s)\<lparr>sp_run_time := observe (finish - js_started_at st) 0 (sp_run_time (sc_stats s))\<rparr>;
              (st, stats) =
                (case out of
                   Inr r \<Rightarrow>
                     if js_cancel_requested st
                     then (st\<lparr>js_status := J_cancelled\<rparr>, stats\<lparr>sp_cancelled := Suc (sp_cancelled stats)\<rparr>)
                     else (st\<lparr>js_status := J_done, js_result := Some r\<rparr>, stats\<lparr>sp_completed := Suc (sp_completed stats)\<rparr>)
                 | Inl (Std_exception msg) \<Rightarrow>
                     (st\<lparr>js_status := J_failed, js_error_text := msg\<rparr>, stats\<lparr>sp_failed := Suc (sp_failed stats)\<rparr>)
                 | Inl Other_exception \<Rightarrow>
                     (st\<lparr>js_status := J_failed, js_error_text := ''unknown exception''\<rparr>,
                      stats\<lparr>sp_failed := Suc (sp_failed stats)\<rparr>))
          in s\<lparr>sc_jobs := (sc_jobs s)(i \<mapsto> st), sc_stats := stats, sc_active := remove1 i (sc_active s)\<rparr>)"

definition sched_stop :: "'r sched \<Rightarrow> 'r sched" where
  "sched_stop s = s\<lparr>sc_stopping := True\<rparr>"

inductive sched_step :: "'r sched \<Rightarrow> 'r sched \<Rightarrow> bool" where
  Submit: "sched_submit has_fn name now s = Inr (i, s') \<Longrightarrow> sched_step s s'"
| Cancel: "sched_cancel i now s = (accepted, s') \<Longrightarrow> sched_step s s'"
| Take: "length (sc_active s) < sc_workers s \<Longrightarrow> sc_queue s \<noteq> [] \<Longrightarrow> sched_step s (worker_take now s)"
| Finish: "i \<in> set (sc_active s) \<Longrightarrow> sched_step s (worker_finish i out now s)"
| Stop: "sched_step s (sched_stop s)"

inductive sched_reachable :: "'r sched \<Rightarrow> bool" where
  Init: "sched_reachable (sched_new hardware requested)"
| Step: "sched_reachable s \<Longrightarrow> sched_step s s' \<Longrightarrow> sched_reachable s'"

text \<open>How many of the jobs \<open>1, \<dots>, n - 1\<close> have a status.\<close>

definition status_at :: "'r sched \<Rightarrow> job_id \<Rightarrow> job_status" where
  "status_at s i = ji_status (sched_get_info i s)"

definition jobs_with :: "job_status \<Rightarrow> 'r sched \<Rightarrow> nat" where
  "jobs_with st s = length (filter (\<lambda>i. status_at s i = st) [1 ..< sc_next_job_id s])"

text \<open>
  The invariant: ids are allocated consecutively; the queue holds each waiting job once, possibly
  beside jobs cancelled while waiting; the active jobs are exactly the running ones, at most one
  per worker; a result is present exactly for finished jobs; the counters count the jobs in each
  final status.
\<close>

definition inv_ids :: "'r sched \<Rightarrow> bool" where
  "inv_ids s \<longleftrightarrow> 0 < sc_next_job_id s \<and>
     (\<forall>i. sc_jobs s i \<noteq> None \<longleftrightarrow> 1 \<le> i \<and> i < sc_next_job_id s)"

definition queue_ok :: "(job_id \<Rightarrow> job_status) \<Rightarrow> job_id list \<Rightarrow> bool" where
  "queue_ok f q \<longleftrightarrow> distinct q \<and> (\<forall>i. f i = J_queued \<longrightarrow> i \<in> set q) \<and>
     (\<forall>i \<in> set q. f i = J_queued \<or> f i = J_cancelled)"

definition active_ok :: "(job_id \<Rightarrow> job_status) \<Rightarrow> job_id list \<Rightarrow> bool" where
  "active_ok f a \<longleftrightarrow> distinct a \<and> (\<forall>i. f i = J_running \<longleftrightarrow> i \<in> set a)"

definition inv_jobs :: "'r sched \<Rightarrow> bool" where
  "inv_jobs s \<longleftrightarrow> (\<forall>i st. sc_jobs s i = Some st \<longrightarrow>
     js_status st \<noteq> J_unknown \<and> (js_status st = J_done \<longleftrightarrow> js_result st \<noteq> None))"

definition inv_stats :: "'r sched \<Rightarrow> bool" where
  "inv_stats s \<longleftrightarrow>
     sp_submitted (sc_stats s) = sc_next_job_id s - 1 \<and>
     sp_completed (sc_stats s) = jobs_with J_done s \<and>
     sp_failed (sc_stats s) = jobs_with J_failed s \<and>
     sp_cancelled (sc_stats s) = jobs_with J_cancelled s"

definition sched_inv :: "'r sched \<Rightarrow> bool" where
  "sched_inv s \<longleftrightarrow> inv_ids s \<and> queue_ok (status_at s) (sc_queue s) \<and> active_ok (status_at s) (sc_active s) \<and>
     length (sc_active s) \<le> sc_workers s \<and> inv_jobs s \<and> inv_stats s"

inductive_cases sched_stepE: "sched_step s s'"

subsection \<open>Lemmas\<close>

lemma status_at_alt: "status_at s i = (case sc_jobs s i of None \<Rightarrow> J_unknown | Some st \<Rightarrow> js_status st)"
  by (simp add: status_at_def sched_get_info_def job_info_default_def split: option.split)

lemma status_at_put:
  "sc_jobs s' = (sc_jobs s)(i \<mapsto> st) \<Longrightarrow> status_at s' = (status_at s)(i := js_status st)"
  by (simp add: status_at_alt fun_eq_iff)

lemma status_at_same: "sc_jobs s' = sc_jobs s \<Longrightarrow> status_at s' = status_at s"
  by (simp add: status_at_alt fun_eq_iff)

lemma count_change:
  assumes "distinct xs" "i \<in> set xs"
  shows "length (filter (\<lambda>j. (if j = i then b else f j) = c) xs) + (if f i = c then 1 else 0) =
    length (filter (\<lambda>j. f j = c) xs) + (if b = c then 1 else 0)"
  using assms
proof (induction xs)
  case (Cons x xs)
  show ?case
  proof (cases "x = i")
    case True
    with Cons.prems have "filter (\<lambda>j. (if j = i then b else f j) = c) xs = filter (\<lambda>j. f j = c) xs"
      by (intro filter_cong) auto
    with True show ?thesis by simp
  next
    case False
    with Cons show ?thesis by auto
  qed
qed simp

lemma jobs_with_put:
  assumes "sc_jobs s' = (sc_jobs s)(i \<mapsto> st)" "sc_next_job_id s' = sc_next_job_id s"
    and "1 \<le> i" "i < sc_next_job_id s"
  shows "jobs_with c s' + (if status_at s i = c then 1 else 0) = jobs_with c s + (if js_status st = c then 1 else 0)"
  using count_change [of "[1 ..< sc_next_job_id s]" i "js_status st" "status_at s" c] assms(2-4)
  by (simp add: jobs_with_def status_at_put [OF assms(1)])

lemma jobs_with_same:
  "sc_jobs s' = sc_jobs s \<Longrightarrow> sc_next_job_id s' = sc_next_job_id s \<Longrightarrow> jobs_with c s' = jobs_with c s"
  by (simp add: jobs_with_def status_at_alt)

lemma inv_id: "sched_inv s \<Longrightarrow> sc_jobs s i = Some st \<Longrightarrow> 1 \<le> i \<and> i < sc_next_job_id s"
  by (auto simp: sched_inv_def inv_ids_def)

lemma sched_new_inv: "sched_inv (sched_new hardware requested)"
  by (simp add: sched_inv_def inv_ids_def queue_ok_def active_ok_def inv_jobs_def inv_stats_def sched_new_def
      status_at_alt jobs_with_def scheduler_profile_stats_default_def)

text \<open>How the status function may change without breaking the queue and the active list.\<close>

lemma queue_ok_submit: "queue_ok f q \<Longrightarrow> f i = J_unknown \<Longrightarrow> queue_ok (f(i := J_queued)) (q @ [i])"
  by (auto simp: queue_ok_def)

lemma queue_ok_cancel: "queue_ok f q \<Longrightarrow> f i = J_queued \<Longrightarrow> queue_ok (f(i := J_cancelled)) q"
  by (auto simp: queue_ok_def)

lemma queue_ok_skip: "queue_ok f (i # q) \<Longrightarrow> f i \<noteq> J_queued \<Longrightarrow> queue_ok f q"
  by (auto simp: queue_ok_def)

lemma queue_ok_take: "queue_ok f (i # q) \<Longrightarrow> f i = J_queued \<Longrightarrow> queue_ok (f(i := J_running)) q"
  by (auto simp: queue_ok_def)

lemma queue_ok_finish: "queue_ok f q \<Longrightarrow> f i = J_running \<Longrightarrow> c \<noteq> J_queued \<Longrightarrow> queue_ok (f(i := c)) q"
  by (auto simp: queue_ok_def)

lemma active_ok_other: "active_ok f a \<Longrightarrow> f i \<noteq> J_running \<Longrightarrow> c \<noteq> J_running \<Longrightarrow> active_ok (f(i := c)) a"
  by (simp add: active_ok_def)

lemma active_ok_take: "active_ok f a \<Longrightarrow> f i = J_queued \<Longrightarrow> active_ok (f(i := J_running)) (i # a)"
  by (simp add: active_ok_def) (metis job_status.distinct(1))

lemma active_ok_finish: "active_ok f a \<Longrightarrow> c \<noteq> J_running \<Longrightarrow> active_ok (f(i := c)) (remove1 i a)"
  by (simp add: active_ok_def)

lemma submit_inv:
  assumes inv: "sched_inv s" and sub: "sched_submit has_fn name now s = Inr (i, s')"
  shows "sched_inv s'"
proof -
  define st :: "'a job_state" where "st = \<lparr>js_status = J_queued, js_submitted_at = now, js_started_at = 0,
    js_finished_at = 0, js_task_name = name, js_error_text = [], js_result = None, js_cancel_requested = False\<rparr>"
  have st: "js_status st = J_queued" "js_result st = None" by (simp_all add: st_def)
  from sub have i: "i = sc_next_job_id s"
    and s': "sc_next_job_id s' = Suc i" "sc_jobs s' = (sc_jobs s)(i \<mapsto> st)" "sc_queue s' = sc_queue s @ [i]"
      "sc_active s' = sc_active s" "sc_workers s' = sc_workers s"
      "sc_stats s' = (sc_stats s)\<lparr>sp_submitted := Suc (sp_submitted (sc_stats s))\<rparr>"
    by (auto simp: sched_submit_def Let_def st_def split: if_splits)
  have new: "sc_jobs s i = None" "0 < i" using inv i by (auto simp: sched_inv_def inv_ids_def)
  then have old: "status_at s i = J_unknown" by (simp add: status_at_alt)
  note at = status_at_put [OF s'(2), unfolded st(1)]
  have "jobs_with c s' = jobs_with c s" if "c \<noteq> J_queued" for c
  proof -
    have "filter (\<lambda>j. status_at s' j = c) [1 ..< i] = filter (\<lambda>j. status_at s j = c) [1 ..< i]"
      by (intro filter_cong) (auto simp: at)
    with that new(2) i s'(1) show ?thesis by (simp add: jobs_with_def at)
  qed
  then have "inv_stats s'" using inv s'(1,6) i new(2) by (simp add: sched_inv_def inv_stats_def)
  moreover have "inv_ids s'" using inv s'(1,2) i by (auto simp: sched_inv_def inv_ids_def)
  moreover have "inv_jobs s'" using inv s'(2) st by (auto simp: sched_inv_def inv_jobs_def)
  ultimately show ?thesis
    using inv old by (simp add: sched_inv_def at s' queue_ok_submit active_ok_other)
qed

text \<open>A state whose job \<open>i\<close> was replaced, with the counters moved accordingly.\<close>

lemma put_inv:
  assumes inv: "sched_inv s" and old: "sc_jobs s i = Some st0" and new: "sc_jobs s' = (sc_jobs s)(i \<mapsto> st)"
    and next_id: "sc_next_job_id s' = sc_next_job_id s"
    and status: "js_status st \<noteq> J_unknown" "js_status st = J_done \<longleftrightarrow> js_result st \<noteq> None"
    and queue: "queue_ok ((status_at s)(i := js_status st)) (sc_queue s')"
    and active: "active_ok ((status_at s)(i := js_status st)) (sc_active s')" "length (sc_active s') \<le> sc_workers s'"
    and counts: "sp_submitted (sc_stats s') = sp_submitted (sc_stats s)"
      "sp_completed (sc_stats s') + (if js_status st0 = J_done then 1 else 0) =
       sp_completed (sc_stats s) + (if js_status st = J_done then 1 else 0)"
      "sp_failed (sc_stats s') + (if js_status st0 = J_failed then 1 else 0) =
       sp_failed (sc_stats s) + (if js_status st = J_failed then 1 else 0)"
      "sp_cancelled (sc_stats s') + (if js_status st0 = J_cancelled then 1 else 0) =
       sp_cancelled (sc_stats s) + (if js_status st = J_cancelled then 1 else 0)"
  shows "sched_inv s'"
proof -
  have range: "1 \<le> i" "i < sc_next_job_id s" using inv_id [OF inv old] by auto
  have at: "status_at s i = js_status st0" using old by (simp add: status_at_alt)
  note n = jobs_with_put [OF new next_id range, unfolded at]
  have "inv_ids s'" using inv range new next_id by (auto simp: sched_inv_def inv_ids_def)
  moreover have "inv_jobs s'" using inv new status by (auto simp: sched_inv_def inv_jobs_def)
  moreover have "inv_stats s'"
    using inv counts n [of J_done] n [of J_failed] n [of J_cancelled] next_id
    by (simp add: sched_inv_def inv_stats_def)
  ultimately show ?thesis using queue active by (simp add: sched_inv_def status_at_put [OF new])
qed

lemma inv_no_result:
  assumes "sched_inv s" "sc_jobs s i = Some st"
  shows "js_status st \<noteq> J_done \<Longrightarrow> js_result st = None"
  using assms unfolding sched_inv_def inv_jobs_def by blast

lemma cancel_inv:
  assumes inv: "sched_inv s" and c: "sched_cancel i now s = (accepted, s')"
  shows "sched_inv s'"
proof (cases "\<exists>st. sc_jobs s i = Some st \<and> \<not> terminal_job (js_status st)")
  case False
  with c inv show ?thesis by (auto simp: sched_cancel_def split: option.splits)
next
  case True
  then obtain st where st: "sc_jobs s i = Some st" "\<not> terminal_job (js_status st)" by blast
  from inv st(1) have j: "js_status st \<noteq> J_unknown" "js_result st = None"
    using st(2) by (auto simp: sched_inv_def inv_jobs_def terminal_job_def)
  have at: "status_at s i = js_status st" using st(1) by (simp add: status_at_alt)
  show ?thesis
  proof (cases "js_status st = J_queued")
    case True
    show ?thesis
      using c st True at inv
      by (intro put_inv [OF inv st(1), of _ "st\<lparr>js_cancel_requested := True, js_status := J_cancelled, js_finished_at := now\<rparr>"])
        (auto simp: sched_cancel_def sched_inv_def j queue_ok_cancel active_ok_other)
  next
    case False
    have same: "(status_at s)(i := js_status st) = status_at s" using at by auto
    show ?thesis
      using c st False at inv j
      by (intro put_inv [OF inv st(1), of _ "st\<lparr>js_cancel_requested := True\<rparr>"])
        (auto simp: sched_cancel_def sched_inv_def same terminal_job_def)
  qed
qed

lemma take_inv:
  assumes inv: "sched_inv s" and free: "length (sc_active s) < sc_workers s"
  shows "sched_inv (worker_take now s)"
proof (cases "sc_queue s")
  case Nil
  with inv show ?thesis by (simp add: worker_take_def)
next
  case (Cons i rest)
  have q: "queue_ok (status_at s) (i # rest)" using inv Cons by (simp add: sched_inv_def)
  then obtain st where st: "sc_jobs s i = Some st" "js_status st = J_queued \<or> js_status st = J_cancelled"
    by (auto simp: queue_ok_def status_at_alt split: option.splits)
  have at: "status_at s i = js_status st" using st(1) by (simp add: status_at_alt)
  show ?thesis
  proof (cases "js_status st = J_cancelled")
    case True
    let ?s = "s\<lparr>sc_queue := rest\<rparr>"
    have "worker_take now s = ?s" using Cons st True by (simp add: worker_take_def Let_def)
    moreover have "status_at ?s = status_at s" "jobs_with c ?s = jobs_with c s" for c
      by (rule status_at_same jobs_with_same; simp)+
    moreover have "queue_ok (status_at s) rest" using queue_ok_skip [OF q] True at by simp
    ultimately show ?thesis using inv by (simp add: sched_inv_def inv_ids_def inv_jobs_def inv_stats_def)
  next
    case False
    with st have qd: "js_status st = J_queued" by simp
    with inv_no_result [OF inv st(1)] have r: "js_result st = None" by simp
    have "active_ok (status_at s) (sc_active s)" using inv by (simp add: sched_inv_def)
    then show ?thesis
      using Cons st qd free q at r
      by (intro put_inv [OF inv st(1), of _ "st\<lparr>js_status := J_running, js_started_at := now\<rparr>"])
        (auto simp: worker_take_def Let_def queue_ok_take active_ok_take)
  qed
qed

text \<open>What finishing makes of a job and of the counters.\<close>

definition finish_status :: "exn + 'r \<Rightarrow> 'r job_state \<Rightarrow> job_status" where
  "finish_status out st =
     (case out of Inl _ \<Rightarrow> J_failed | Inr _ \<Rightarrow> if js_cancel_requested st then J_cancelled else J_done)"

lemma finish_effect:
  assumes "sc_jobs s i = Some st"
  obtains st' where "sc_jobs (worker_finish i out now s) = (sc_jobs s)(i \<mapsto> st')"
    "js_status st' = finish_status out st"
    "js_result st' = (case out of Inr r \<Rightarrow> if js_cancel_requested st then js_result st else Some r | Inl _ \<Rightarrow> js_result st)"
    "sc_active (worker_finish i out now s) = remove1 i (sc_active s)"
    "sc_queue (worker_finish i out now s) = sc_queue s"
    "sc_workers (worker_finish i out now s) = sc_workers s"
    "sc_next_job_id (worker_finish i out now s) = sc_next_job_id s"
    "sp_submitted (sc_stats (worker_finish i out now s)) = sp_submitted (sc_stats s)"
    "sp_completed (sc_stats (worker_finish i out now s)) =
       sp_completed (sc_stats s) + (if js_status st' = J_done then 1 else 0)"
    "sp_failed (sc_stats (worker_finish i out now s)) =
       sp_failed (sc_stats s) + (if js_status st' = J_failed then 1 else 0)"
    "sp_cancelled (sc_stats (worker_finish i out now s)) =
       sp_cancelled (sc_stats s) + (if js_status st' = J_cancelled then 1 else 0)"
proof (cases out)
  case (Inl e)
  with assms that show ?thesis by (cases e) (fastforce simp: worker_finish_def Let_def finish_status_def)+
next
  case (Inr r)
  with assms that show ?thesis
    by (cases "js_cancel_requested st") (fastforce simp: worker_finish_def Let_def finish_status_def)+
qed

lemma finish_inv:
  assumes inv: "sched_inv s" and act: "i \<in> set (sc_active s)"
  shows "sched_inv (worker_finish i out now s)"
proof -
  have run: "status_at s i = J_running" using inv act by (auto simp: sched_inv_def active_ok_def)
  then obtain st where st: "sc_jobs s i = Some st" "js_status st = J_running"
    by (auto simp: status_at_alt split: option.splits)
  with inv_no_result [OF inv st(1)] have r: "js_result st = None" by simp
  from st(1) obtain st' where e: "sc_jobs (worker_finish i out now s) = (sc_jobs s)(i \<mapsto> st')"
    "js_status st' = finish_status out st"
    "js_result st' = (case out of Inr r \<Rightarrow> if js_cancel_requested st then js_result st else Some r | Inl _ \<Rightarrow> js_result st)"
    "sc_active (worker_finish i out now s) = remove1 i (sc_active s)"
    "sc_queue (worker_finish i out now s) = sc_queue s"
    "sc_workers (worker_finish i out now s) = sc_workers s"
    "sc_next_job_id (worker_finish i out now s) = sc_next_job_id s"
    "sp_submitted (sc_stats (worker_finish i out now s)) = sp_submitted (sc_stats s)"
    "sp_completed (sc_stats (worker_finish i out now s)) =
       sp_completed (sc_stats s) + (if js_status st' = J_done then 1 else 0)"
    "sp_failed (sc_stats (worker_finish i out now s)) =
       sp_failed (sc_stats s) + (if js_status st' = J_failed then 1 else 0)"
    "sp_cancelled (sc_stats (worker_finish i out now s)) =
       sp_cancelled (sc_stats s) + (if js_status st' = J_cancelled then 1 else 0)"
    by (rule finish_effect)
  have fin: "finish_status out st \<notin> {J_queued, J_running, J_unknown}"
    "finish_status out st = J_done \<longleftrightarrow> js_result st' \<noteq> None"
    using r by (auto simp: finish_status_def e(3) split: sum.splits)
  have "length (remove1 i (sc_active s)) \<le> sc_workers s" "queue_ok (status_at s) (sc_queue s)"
    "active_ok (status_at s) (sc_active s)"
    using inv by (auto simp: sched_inv_def length_remove1)
  with st fin run e show ?thesis
    by (intro put_inv [OF inv st(1) e(1)]) (auto simp: queue_ok_finish active_ok_finish)
qed

lemma stop_inv: "sched_inv s \<Longrightarrow> sched_inv (sched_stop s)"
proof -
  assume inv: "sched_inv s"
  have "status_at (sched_stop s) = status_at s" "jobs_with c (sched_stop s) = jobs_with c s" for c
    by (rule status_at_same jobs_with_same; simp add: sched_stop_def)+
  with inv show ?thesis
    by (simp add: sched_inv_def inv_ids_def inv_jobs_def inv_stats_def) (simp add: sched_stop_def)
qed

lemma step_inv:
  assumes "sched_inv s" "sched_step s s'"
  shows "sched_inv s'"
  using assms(2,1)
  by (cases rule: sched_step.cases) (blast intro: submit_inv cancel_inv take_inv finish_inv stop_inv)+

lemma reachable_inv: "sched_reachable s \<Longrightarrow> sched_inv s"
  by (induction rule: sched_reachable.induct) (auto intro: sched_new_inv step_inv)

subsection \<open>What the runtime relies on\<close>

text \<open>
  The contract behind \<open>scheduler::cancel\<close> and \<open>scheduler::get_info\<close>: a cancel is accepted exactly
  for jobs that are waiting or running, takes a waiting job to \<open>cancelled\<close> at once, leaves a
  running one running, and touches no other job.
\<close>

locale cancellable_jobs =
  fixes status_of :: "job_id \<Rightarrow> 's \<Rightarrow> job_status"
    and cancel :: "job_id \<Rightarrow> time_ns \<Rightarrow> 's \<Rightarrow> bool \<times> 's"
    and inv :: "'s \<Rightarrow> bool"
  assumes cancel_accepts: "inv s \<Longrightarrow> fst (cancel i t s) \<longleftrightarrow> status_of i s = J_queued \<or> status_of i s = J_running"
    and cancel_status: "inv s \<Longrightarrow> status_of j (snd (cancel i t s)) =
      (if j = i \<and> status_of i s = J_queued then J_cancelled else status_of j s)"
    and cancel_inv: "inv s \<Longrightarrow> inv (snd (cancel i t s))"
begin

lemma cancel_again:
  "inv s \<Longrightarrow> status_of i s \<noteq> J_running \<Longrightarrow> \<not> fst (cancel i t' (snd (cancel i t s)))"
  by (auto simp: cancel_accepts cancel_status cancel_inv)

lemma cancel_all:
  "inv s \<Longrightarrow> status_of j (fold (\<lambda>i s. snd (cancel i t s)) is s) =
     (if j \<in> set is \<and> status_of j s = J_queued then J_cancelled else status_of j s)"
proof (induction "is" arbitrary: s)
  case (Cons i "is")
  then show ?case by (auto simp: cancel_status cancel_inv)
qed simp

end

lemma inv_known:
  "sched_inv s \<Longrightarrow> status_at s i = J_unknown \<longleftrightarrow> sc_jobs s i = None"
  by (auto simp: sched_inv_def inv_jobs_def status_at_alt split: option.splits)

interpretation pool: cancellable_jobs "\<lambda>i s. status_at s i" sched_cancel sched_inv
proof unfold_locales
  fix s :: "'a sched" and i j t assume inv: "sched_inv s"
  show "fst (sched_cancel i t s) \<longleftrightarrow> status_at s i = J_queued \<or> status_at s i = J_running"
  proof (cases "sc_jobs s i")
    case (Some st)
    with inv have "js_status st \<noteq> J_unknown" by (simp add: sched_inv_def inv_jobs_def)
    with Some show ?thesis
      by (cases "js_status st") (simp_all add: sched_cancel_def status_at_alt terminal_job_def)
  qed (simp add: sched_cancel_def status_at_alt)
  show "status_at (snd (sched_cancel i t s)) j =
      (if j = i \<and> status_at s i = J_queued then J_cancelled else status_at s j)"
    by (auto simp: sched_cancel_def status_at_alt terminal_job_def split: option.splits)
  show "sched_inv (snd (sched_cancel i t s))"
    using cancel_inv [OF inv, of i t] by (simp add: prod_eq_iff)
qed

subsection \<open>Properties\<close>

lemma status_partition:
  assumes "\<And>j. j \<in> set xs \<Longrightarrow> f j \<noteq> J_unknown"
  shows "length xs = length (filter (\<lambda>j. f j = J_queued) xs) + length (filter (\<lambda>j. f j = J_running) xs) +
    length (filter (\<lambda>j. f j = J_done) xs) + length (filter (\<lambda>j. f j = J_failed) xs) +
    length (filter (\<lambda>j. f j = J_cancelled) xs)"
  using assms
proof (induction xs)
  case (Cons x xs)
  then show ?case by (cases "f x") auto
qed simp

text \<open>
  C14. In every reachable state of the scheduler, whatever the interleaving, the counters balance:
  every submitted job is waiting, running or counted once as completed, failed or cancelled; at
  most \<open>worker_count\<close> jobs run at a time; and a result can be fetched exactly for completed jobs.
\<close>

theorem scheduler_accounts:
  assumes "sched_reachable s"
  shows "sp_submitted (sc_stats s) = jobs_with J_queued s + jobs_with J_running s +
      sp_completed (sc_stats s) + sp_failed (sc_stats s) + sp_cancelled (sc_stats s) \<and>
    length (sc_active s) \<le> sc_workers s \<and>
    (sched_try_get_result i s \<noteq> None \<longleftrightarrow> status_at s i = J_done)"
proof -
  have inv: "sched_inv s" by (rule reachable_inv [OF assms])
  have "status_at s j \<noteq> J_unknown" if "j \<in> set [1 ..< sc_next_job_id s]" for j
    using that inv_known [OF inv, of j] inv by (auto simp: sched_inv_def inv_ids_def)
  then have "sc_next_job_id s - 1 = jobs_with J_queued s + jobs_with J_running s + jobs_with J_done s +
      jobs_with J_failed s + jobs_with J_cancelled s"
    using status_partition [of "[1 ..< sc_next_job_id s]" "status_at s"] by (simp add: jobs_with_def)
  with inv have "sp_submitted (sc_stats s) = jobs_with J_queued s + jobs_with J_running s +
      sp_completed (sc_stats s) + sp_failed (sc_stats s) + sp_cancelled (sc_stats s)"
    by (simp add: sched_inv_def inv_stats_def)
  moreover have "sched_try_get_result i s \<noteq> None \<longleftrightarrow> status_at s i = J_done"
    using inv by (auto simp: sched_try_get_result_def status_at_alt sched_inv_def inv_jobs_def split: option.splits)
  ultimately show ?thesis using inv by (simp add: sched_inv_def)
qed

lemma sched_stepI_submit: "sched_submit True name now s = Inr (i, s') \<Longrightarrow> sched_step s s'"
  by (rule sched_step.Submit)

theorem scheduler_accounts_witness:
  "\<exists>s :: nat sched. sched_reachable s \<and> sp_submitted (sc_stats s) = 1 \<and> sp_completed (sc_stats s) = 1 \<and>
     sched_try_get_result 1 s \<noteq> None"
proof -
  let ?s0 = "sched_new 4 0 :: nat sched"
  let ?s1 = "snd (projr (sched_submit True ''a'' 5 ?s0))"
  let ?s2 = "worker_take 7 ?s1"
  let ?s3 = "worker_finish 1 (Inr 42) 9 ?s2"
  note defs = sched_new_def sched_submit_def worker_take_def worker_finish_def effective_worker_count_def Let_def
    scheduler_profile_stats_default_def status_at_alt sched_try_get_result_def
  have "sched_submit True ''a'' 5 ?s0 = Inr (1, ?s1)" by (simp add: defs)
  then have "sched_reachable ?s1" by (intro sched_reachable.Step [OF sched_reachable.Init] sched_stepI_submit)
  moreover have "sched_step ?s1 ?s2" by (rule sched_step.Take) (simp_all add: defs)
  moreover have "sched_step ?s2 ?s3" by (rule sched_step.Finish) (simp add: defs)
  ultimately have r: "sched_reachable ?s3" by (blast intro: sched_reachable.Step)
  have "status_at ?s3 1 = J_done" "sp_submitted (sc_stats ?s3) = 1" "sp_completed (sc_stats ?s3) = 1"
    by (simp_all add: defs)
  with scheduler_accounts [OF r, of 1] r show ?thesis by blast
qed

lemma terminal_step:
  assumes inv: "sched_inv s" and step: "sched_step s s'" and t: "terminal_job (status_at s i)"
  shows "status_at s' i = status_at s i \<and> sched_try_get_result i s' = sched_try_get_result i s"
proof -
  have job: "sc_jobs s' i = sc_jobs s i"
    using step
  proof (cases rule: sched_step.cases)
    case (Submit has_fn name now j)
    moreover have "i \<noteq> sc_next_job_id s"
      using t inv by (auto simp: status_at_alt terminal_job_def sched_inv_def inv_ids_def split: option.splits)
    ultimately show ?thesis by (auto simp: sched_submit_def Let_def split: if_splits)
  next
    case (Cancel j now accepted)
    with t show ?thesis by (auto simp: sched_cancel_def status_at_alt split: option.splits if_splits)
  next
    case (Take now)
    have "sc_queue s = j # rest \<Longrightarrow> i = j \<Longrightarrow> status_at s j = J_cancelled" for j rest
      using inv t by (auto simp: sched_inv_def queue_ok_def terminal_job_def)
    with Take show ?thesis
      by (fastforce simp: worker_take_def Let_def status_at_alt split: list.splits option.splits)
  next
    case (Finish j out now)
    then have "status_at s j = J_running" using inv by (auto simp: sched_inv_def active_ok_def)
    with t have "i \<noteq> j" by (auto simp: terminal_job_def)
    with Finish(1) show ?thesis
      by (auto simp: worker_finish_def Let_def split: option.splits sum.splits exn.splits)
  next
    case Stop
    then show ?thesis by (simp add: sched_stop_def)
  qed
  then show ?thesis by (simp add: status_at_alt sched_try_get_result_def)
qed

text \<open>
  A job that is done, failed or cancelled stays so with the same result, through any further
  steps of clients and workers. In particular a job cancelled while it was waiting never starts.
\<close>

theorem scheduler_terminal_stable:
  assumes "sched_reachable s" "sched_step\<^sup>*\<^sup>* s s'" "status_at s i \<in> {J_done, J_failed, J_cancelled}"
  shows "status_at s' i = status_at s i \<and> sched_try_get_result i s' = sched_try_get_result i s"
  using assms(2)
proof (induction rule: rtranclp_induct)
  case (step y z)
  have "sched_reachable y"
    using step.hyps(1) assms(1) by (induction rule: rtranclp_induct) (auto intro: sched_reachable.Step)
  with step terminal_step [OF reachable_inv, of y z i] assms(3) show ?case
    by (simp add: terminal_job_def)
qed simp

theorem scheduler_terminal_stable_witness:
  "\<exists>s s' :: nat sched. sched_reachable s \<and> sched_step\<^sup>*\<^sup>* s s' \<and> status_at s 1 = J_cancelled \<and> status_at s' 1 = J_cancelled \<and>
     sc_queue s = [1] \<and> sc_queue s' = []"
proof -
  let ?s0 = "sched_new 4 1 :: nat sched"
  let ?s1 = "snd (projr (sched_submit True ''a'' 5 ?s0))"
  let ?s2 = "snd (sched_cancel 1 6 ?s1)"
  let ?s3 = "worker_take 7 ?s2"
  note defs = sched_new_def sched_submit_def worker_take_def sched_cancel_def effective_worker_count_def Let_def
    scheduler_profile_stats_default_def status_at_alt terminal_job_def
  have "sched_submit True ''a'' 5 ?s0 = Inr (1, ?s1)" by (simp add: defs)
  then have "sched_reachable ?s1" by (intro sched_reachable.Step [OF sched_reachable.Init] sched_stepI_submit)
  moreover have "sched_cancel 1 6 ?s1 = (True, ?s2)" by (simp add: defs)
  then have "sched_step ?s1 ?s2" by (rule sched_step.Cancel)
  ultimately have r: "sched_reachable ?s2" by (rule sched_reachable.Step)
  have "sched_step ?s2 ?s3" by (rule sched_step.Take) (simp_all add: defs)
  then have st: "sched_step\<^sup>*\<^sup>* ?s2 ?s3" by blast
  have c: "status_at ?s2 1 = J_cancelled" by (simp add: defs)
  moreover from scheduler_terminal_stable [OF r st, of 1] c have "status_at ?s3 1 = J_cancelled" by simp
  moreover have "sc_queue ?s2 = [1]" "sc_queue ?s3 = []" by (simp_all add: defs)
  ultimately show ?thesis using r st by blast
qed

text \<open>
  Cancelling: a reachable scheduler accepts a cancel exactly for waiting or running jobs; a
  waiting job is cancelled at once and not accepted again, and after cancelling a list of jobs
  exactly the waiting ones among them are cancelled.
\<close>

theorem scheduler_cancel:
  assumes "sched_reachable s"
  shows "(fst (sched_cancel i t s) \<longleftrightarrow> status_at s i = J_queued \<or> status_at s i = J_running) \<and>
    (status_at s i \<noteq> J_running \<longrightarrow> \<not> fst (sched_cancel i t' (snd (sched_cancel i t s)))) \<and>
    status_at (fold (\<lambda>i s. snd (sched_cancel i t s)) is s) j =
      (if j \<in> set is \<and> status_at s j = J_queued then J_cancelled else status_at s j)"
  using reachable_inv [OF assms] pool.cancel_accepts pool.cancel_again pool.cancel_all by blast

theorem scheduler_cancel_witness:
  "sched_reachable (sched_new 4 1 :: nat sched) \<and> \<not> fst (sched_cancel 1 0 (sched_new 4 1 :: nat sched))"
proof -
  have "status_at (sched_new 4 1 :: nat sched) 1 = J_unknown" by (simp add: sched_new_def status_at_alt)
  moreover have r: "sched_reachable (sched_new 4 1 :: nat sched)" by (rule sched_reachable.Init)
  ultimately show ?thesis using scheduler_cancel [OF r, of 1 0] by simp
qed

end
