(* ===== verification/Context.thy ===== *)
theory Context
  imports Event_Log Blackboard Scheduler
begin

text \<open>
  The execution context of a tick: \<open>instance\<close>, \<open>tick_context\<close> (\<open>include/bt/instance.hpp\<close>,
  \<open>include/bt/runtime.hpp\<close>) and the observability helpers of \<open>src/bt/runtime.cpp\<close>.

  The record \<open>obs\<close> gathers what observability writes: the instance's trace buffer, the optional
  trace buffer, logger and event log of \<open>services\<close>, and the monotonic clock as the sequence of its
  readings. Every helper below only changes \<open>cx_obs\<close>, which the simplifier sees from its
  definition. \<open>cx_world\<close> is the state of the services that live outside the tree: scheduler, planner,
  VLA service, heap, and whatever the registered callbacks act on. \<open>std::any\<close> payloads are values of
  the type parameter \<open>'p\<close>. The reused \<open>halt_stack\<close> buffer is a local variable of the halting loop.
\<close>

record 'p node_memory =
  nm_i0 :: i64
  nm_i1 :: i64
  nm_b0 :: bool
  nm_payload :: "'p option"

definition node_memory_default :: "'p node_memory" where
  "node_memory_default = \<lparr>nm_i0 = 0, nm_i1 = 0, nm_b0 = False, nm_payload = None\<rparr>"

record 'p instance_state =
  in_def :: "bt_definition option"
  in_handle :: i64
  in_memory :: "node_id \<Rightarrow> 'p node_memory option"
  in_active_vla_jobs :: "(node_id, nat) alist"
  in_halt_warning_emitted :: "node_id list"
  in_bb :: blackboard
  in_tick_index :: nat
  in_trace_enabled :: bool
  in_read_trace_enabled :: bool
  in_tree_stats :: tree_profile_stats
  in_node_stats :: "(node_id, node_profile_stats) alist"

definition instance_new :: "bt_definition option \<Rightarrow> 'p instance_state" where
  "instance_new d = \<lparr>in_def = d, in_handle = 0, in_memory = Map.empty, in_active_vla_jobs = [],
     in_halt_warning_emitted = [], in_bb = [], in_tick_index = 0, in_trace_enabled = True,
     in_read_trace_enabled = False, in_tree_stats = tree_profile_stats_default, in_node_stats = []\<rparr>"

record obs =
  ob_trace :: trace_buffer
  ob_ext_trace :: "trace_buffer option"
  ob_logger :: "memory_log_sink option"
  ob_events :: "event_log option"
  ob_clock :: "nat \<Rightarrow> time_ns"
  ob_clock_reads :: nat

record ('w, 'p) tick_context =
  cx_inst :: "'p instance_state"
  cx_obs :: obs
  cx_world :: 'w
  cx_tick_index :: nat
  cx_now :: time_ns
  cx_tick_started_at :: time_ns
  cx_tick_deadline :: "time_ns option"
  cx_current_node :: node_id
  cx_node_path :: "node_id list"
  cx_last_node_path :: "node_id list"
  cx_terminal_node_id :: "node_id option"
  cx_planner_calls :: nat
  cx_vla_submits :: nat
  cx_vla_polls :: nat

text \<open>\<open>cx_tick_deadline = None\<close> is \<open>time_point::max()\<close>.\<close>

subsection \<open>Clock, trace, events, log\<close>

definition now_obs :: "obs \<Rightarrow> time_ns \<times> obs" where
  "now_obs ob = (ob_clock ob (ob_clock_reads ob), ob\<lparr>ob_clock_reads := Suc (ob_clock_reads ob)\<rparr>)"

definition tick_now :: "('w, 'p) tick_context \<Rightarrow> time_ns \<times> ('w, 'p) tick_context" where
  "tick_now c = (let (t, ob) = now_obs (cx_obs c) in (t, c\<lparr>cx_obs := ob\<rparr>))"

text \<open>\<open>resolve_trace_buffer\<close>: the trace buffer of the services if there is one, else the instance's.\<close>

definition push_obs :: "trace_event \<Rightarrow> obs \<Rightarrow> obs" where
  "push_obs ev ob =
     (case ob_ext_trace ob of
        Some b \<Rightarrow> ob\<lparr>ob_ext_trace := Some (trace_push ev b)\<rparr>
      | None \<Rightarrow> ob\<lparr>ob_trace := trace_push ev (ob_trace ob)\<rparr>)"

definition make_trace_event :: "trace_event_kind \<Rightarrow> trace_event" where
  "make_trace_event k = trace_event_default\<lparr>te_kind := k\<rparr>"

definition trace_obs :: "nat \<Rightarrow> trace_event \<Rightarrow> obs \<Rightarrow> obs" where
  "trace_obs tick ev ob = (let (t, ob) = now_obs ob in push_obs (ev\<lparr>te_tick_index := tick, te_ts := t\<rparr>) ob)"

definition emit_trace :: "trace_event \<Rightarrow> ('w, 'p) tick_context \<Rightarrow> ('w, 'p) tick_context" where
  "emit_trace ev c =
     (if \<not> in_trace_enabled (cx_inst c) then c else c\<lparr>cx_obs := trace_obs (cx_tick_index c) ev (cx_obs c)\<rparr>)"

text \<open>\<open>events->emit(type, tick, data)\<close> when there is an event log.\<close>

definition emit_obs :: "string \<Rightarrow> nat \<Rightarrow> string \<Rightarrow> obs \<Rightarrow> obs" where
  "emit_obs type tick data ob = ob\<lparr>ob_events := map_option (el_emit type (Some tick) data) (ob_events ob)\<rparr>"

definition emit_event_data :: "string \<Rightarrow> string \<Rightarrow> ('w, 'p) tick_context \<Rightarrow> ('w, 'p) tick_context" where
  "emit_event_data type data c = c\<lparr>cx_obs := emit_obs type (cx_tick_index c) data (cx_obs c)\<rparr>"

definition node_id_member :: "node_id option \<Rightarrow> string" where
  "node_id_member node = (case node of None \<Rightarrow> [] | Some i \<Rightarrow> '','' @ jkey ''node_id'' @ nat_str i)"

definition event_error_json :: "string \<Rightarrow> string \<Rightarrow> string \<Rightarrow> node_id option \<Rightarrow> string" where
  "event_error_json severity component message node =
     ''{'' @ jkey ''severity'' @ quoted (json_escape severity) @ '','' @
     jkey ''component'' @ quoted (json_escape component) @ '','' @
     (case node of None \<Rightarrow> [] | Some i \<Rightarrow> jkey ''node_id'' @ nat_str i @ '','') @
     jkey ''message'' @ quoted (json_escape message) @ ''}''"

definition emit_event_error :: "string \<Rightarrow> string \<Rightarrow> string \<Rightarrow> node_id option \<Rightarrow> ('w, 'p) tick_context \<Rightarrow> ('w, 'p) tick_context" where
  "emit_event_error severity component message node c =
     emit_event_data ''error'' (event_error_json severity component message node) c"

definition log_severity :: "log_level \<Rightarrow> string" where
  "log_severity level =
     (if level = L_debug then ''debug'' else if level = L_warn then ''warn''
      else if level = L_error then ''error'' else ''info'')"

text \<open>
  \<open>emit_log\<close> moves \<open>category\<close> into the record before it passes it on as the component of the error
  event; the string that was moved from is empty.
\<close>

definition emit_log :: "log_level \<Rightarrow> string \<Rightarrow> string \<Rightarrow> ('w, 'p) tick_context \<Rightarrow> ('w, 'p) tick_context" where
  "emit_log level category message c =
     (case ob_logger (cx_obs c) of
        None \<Rightarrow> c
      | Some sink \<Rightarrow>
          let (t, ob) = now_obs (cx_obs c);
              rec = \<lparr>lr_sequence = 0, lr_ts = t, lr_level = level, lr_tick_index = cx_tick_index c,
                lr_node = cx_current_node c, lr_category = category, lr_message = message\<rparr>;
              c = c\<lparr>cx_obs := ob\<lparr>ob_logger := Some (log_write rec sink)\<rparr>\<rparr>
          in emit_event_error (log_severity level) [] message (Some (cx_current_node c)) c)"

subsection \<open>Budget\<close>

definition tick_budget_ms :: "('w, 'p) tick_context \<Rightarrow> double option" where
  "tick_budget_ms c =
     (let configured = tp_configured_tick_budget (in_tree_stats (cx_inst c)) in
      if configured \<le> 0 then None else Some (ms_of_ns configured))"

definition tick_remaining_ms :: "('w, 'p) tick_context \<Rightarrow> double option \<times> ('w, 'p) tick_context" where
  "tick_remaining_ms c =
     (case tick_budget_ms c of
        None \<Rightarrow> (None, c)
      | Some budget \<Rightarrow>
          let (t, c) = tick_now c in (Some (fp_sub budget (ms_of_ns (t - cx_tick_started_at c))), c))"

definition emit_budget_warning_event ::
  "string \<Rightarrow> node_id option \<Rightarrow> double \<Rightarrow> double \<Rightarrow> string \<Rightarrow> ('w, 'p) tick_context \<Rightarrow> ('w, 'p) tick_context" where
  "emit_budget_warning_event decision_point node remaining_ms threshold_ms reason c =
     emit_event_data ''budget_warning''
       (''{'' @ jkey ''decision_point'' @ quoted (json_escape decision_point) @ '','' @
        jkey ''remaining_ms'' @ fp_str remaining_ms @ '','' @
        jkey ''threshold_ms'' @ fp_str threshold_ms @ '','' @
        jkey ''reason'' @ quoted (json_escape reason) @ node_id_member node @ ''}'') c"

definition emit_deadline_exceeded_event ::
  "node_id option \<Rightarrow> string \<Rightarrow> double \<Rightarrow> double \<Rightarrow> ('w, 'p) tick_context \<Rightarrow> ('w, 'p) tick_context" where
  "emit_deadline_exceeded_event node source budget_ms elapsed_ms c =
     emit_event_data ''deadline_exceeded''
       (''{'' @ jkey ''source'' @ quoted (json_escape source) @ '','' @
        jkey ''tick_budget_ms'' @ fp_str budget_ms @ '','' @
        jkey ''tick_elapsed_ms'' @ fp_str elapsed_ms @ node_id_member node @ ''}'') c"

definition emit_outcome_event ::
  "string \<Rightarrow> string \<Rightarrow> node_id option \<Rightarrow> string option \<Rightarrow> string option \<Rightarrow> ('w, 'p) tick_context \<Rightarrow> ('w, 'p) tick_context" where
  "emit_outcome_event type source node job reason c =
     emit_event_data type
       (''{'' @ jkey ''schema_version'' @ quoted ''runtime_outcome.v1'' @ '','' @
        jkey ''outcome'' @ quoted (json_escape type) @ '','' @
        jkey ''source'' @ quoted (json_escape source) @ node_id_member node @
        (case job of None \<Rightarrow> [] | Some j \<Rightarrow> '','' @ jkey ''job_id'' @ quoted (json_escape j)) @
        (case reason of None \<Rightarrow> [] | Some r \<Rightarrow> '','' @ jkey ''reason'' @ quoted (json_escape r)) @ ''}'') c"

text \<open>The default threshold \<open>0.25\<close>.\<close>

definition budget_threshold_ms :: double where
  "budget_threshold_ms = 0x3FD0000000000000"

definition budget_allows_decision_point ::
  "node_id \<Rightarrow> string \<Rightarrow> ('w, 'p) tick_context \<Rightarrow> bool \<times> ('w, 'p) tick_context" where
  "budget_allows_decision_point node decision_point c =
     (let (remaining, c) = tick_remaining_ms c in
      case remaining of
        None \<Rightarrow> (True, c)
      | Some r \<Rightarrow>
          if fp_le budget_threshold_ms r then (True, c)
          else
            let c = emit_budget_warning_event decision_point (Some node) r budget_threshold_ms ''insufficient_budget'' c
            in (False, emit_log L_warn ''bt''
                 (''budget blocked decision point: '' @ decision_point @ '' node='' @ nat_str node) c))"

subsection \<open>Instance tables\<close>

definition node_display_name :: "node \<Rightarrow> string" where
  "node_display_name n = (if nd_leaf_name n = [] then ''node-'' @ nat_str (nd_id n) else nd_leaf_name n)"

definition node_stats_for :: "node \<Rightarrow> 'p instance_state \<Rightarrow> node_profile_stats" where
  "node_stats_for n inst =
     (case map_of (in_node_stats inst) (nd_id n) of
        Some s \<Rightarrow> s
      | None \<Rightarrow> node_profile_stats_default\<lparr>np_id := nd_id n, np_name := node_display_name n\<rparr>)"

definition memory_of :: "node_id \<Rightarrow> ('w, 'p) tick_context \<Rightarrow> 'p node_memory" where
  "memory_of i c = (case in_memory (cx_inst c) i of Some m \<Rightarrow> m | None \<Rightarrow> node_memory_default)"

definition set_memory :: "node_id \<Rightarrow> 'p node_memory \<Rightarrow> ('w, 'p) tick_context \<Rightarrow> ('w, 'p) tick_context" where
  "set_memory i m c = c\<lparr>cx_inst := (cx_inst c)\<lparr>in_memory := (in_memory (cx_inst c))(i \<mapsto> m)\<rparr>\<rparr>"

text \<open>\<open>inst.memory[id]\<close>: inserts a default entry when there is none.\<close>

definition node_memory_for :: "node_id \<Rightarrow> ('w, 'p) tick_context \<Rightarrow> ('w, 'p) tick_context" where
  "node_memory_for i c = set_memory i (memory_of i c) c"

subsection \<open>Blackboard access of a tick\<close>

definition bb_value_json :: "bb_value \<Rightarrow> string" where
  "bb_value_json v =
     (case v of
        BB_nil \<Rightarrow> ''null''
      | BB_bool b \<Rightarrow> bool_json b
      | BB_int i \<Rightarrow> i64_str i
      | BB_float f \<Rightarrow> fp_str f
      | BB_string s \<Rightarrow> quoted (json_escape s)
      | BB_vec xs \<Rightarrow> ''['' @ comma_join (map fp_str xs) @ '']''
      | BB_image i \<Rightarrow> ''{'' @ jkey ''image_handle'' @ i64_str i @ ''}''
      | BB_blob i \<Rightarrow> ''{'' @ jkey ''blob_handle'' @ i64_str i @ ''}'')"

definition bb_preview_json :: "bb_value \<Rightarrow> string" where
  "bb_preview_json v =
     (let preview = bb_value_json v in
      if length preview \<le> 4096 then preview
      else ''{'' @ jkey ''_truncated'' @ ''true,'' @ jkey ''_type'' @ quoted (bb_value_type_name v) @ '','' @
        jkey ''_bytes'' @ nat_str (length preview) @ ''}'')"

definition source_node_member :: "node_id \<Rightarrow> string" where
  "source_node_member i = (if i \<noteq> 0 then '','' @ jkey ''source_node'' @ nat_str i else [])"

definition cx_bb_put :: "string \<Rightarrow> bb_value \<Rightarrow> string \<Rightarrow> ('w, 'p) tick_context \<Rightarrow> ('w, 'p) tick_context" where
  "cx_bb_put key v writer_name c =
     (let (ts, c) = tick_now c;
          inst = cx_inst c;
          node = cx_current_node c;
          c = c\<lparr>cx_inst := inst\<lparr>in_bb := bb_store key v (cx_tick_index c) ts node writer_name (in_bb inst)\<rparr>\<rparr>;
          c = emit_trace ((make_trace_event TE_bb_write)\<lparr>te_node := node, te_key := key, te_value_repr := bb_value_repr v\<rparr>) c
      in if v = BB_nil then
           emit_event_data ''bb_delete''
             (''{'' @ jkey ''key'' @ quoted (json_escape key) @ source_node_member node @ ''}'') c
         else
           emit_event_data ''bb_write''
             (''{'' @ jkey ''key'' @ quoted (json_escape key) @ '','' @
              jkey ''value_digest'' @ quoted (hash64_hex (bb_value_json v)) @ '','' @
              jkey ''preview'' @ bb_preview_json v @ source_node_member node @ ''}'') c)"

definition cx_bb_get :: "string \<Rightarrow> ('w, 'p) tick_context \<Rightarrow> bb_entry option \<times> ('w, 'p) tick_context" where
  "cx_bb_get key c =
     (let out = bb_lookup key (in_bb (cx_inst c)) in
      (out,
       if in_read_trace_enabled (cx_inst c) then
         emit_trace ((make_trace_event TE_bb_read)\<lparr>te_node := cx_current_node c, te_key := key,
           te_value_repr := (case out of Some e \<Rightarrow> bb_value_repr (be_value e) | None \<Rightarrow> ''<missing>'')\<rparr>) c
       else c))"

subsection \<open>Scheduler events\<close>

definition scheduler_event_type :: "trace_event_kind \<Rightarrow> string" where
  "scheduler_event_type k =
     (if k = TE_scheduler_submit then ''sched_submit'' else if k = TE_scheduler_start then ''sched_start''
      else if k = TE_scheduler_finish then ''sched_finish'' else if k = TE_scheduler_cancel then ''sched_cancel''
      else [])"

definition scheduler_event_json :: "trace_event_kind \<Rightarrow> job_id \<Rightarrow> job_status \<Rightarrow> node_id \<Rightarrow> string" where
  "scheduler_event_json k job st node =
     ''{'' @ jkey ''job_id'' @ quoted (nat_str job) @
     (if k = TE_scheduler_submit \<or> k = TE_scheduler_start then
        '','' @ jkey ''kind'' @ quoted ''scheduler'' @
        (if node \<noteq> 0 then '','' @ jkey ''node_id'' @ nat_str node else [])
      else if st = J_done then '','' @ jkey ''outcome'' @ quoted ''ok''
      else if st = J_failed then '','' @ jkey ''outcome'' @ quoted ''failed''
      else if st = J_cancelled then '','' @ jkey ''outcome'' @ quoted ''cancelled''
      else []) @ ''}''"

definition scheduler_event ::
  "trace_event_kind \<Rightarrow> job_id \<Rightarrow> job_status \<Rightarrow> string \<Rightarrow> ('w, 'p) tick_context \<Rightarrow> ('w, 'p) tick_context" where
  "scheduler_event k job st message c =
     (let c = emit_trace ((make_trace_event k)\<lparr>te_node := cx_current_node c, te_job := job, te_job_st := st,
            te_message := message\<rparr>) c
      in if k = TE_warning \<or> k = TE_error then
           emit_log (if k = TE_error then L_error else L_warn) ''scheduler'' message c
         else
           let c = emit_log L_debug ''scheduler'' message c
           in if scheduler_event_type k = [] then c
              else emit_event_data (scheduler_event_type k) (scheduler_event_json k job st (cx_current_node c)) c)"

subsection \<open>Frame lemmas\<close>

text \<open>The observability helpers change nothing but \<open>cx_obs\<close>.\<close>

lemma tick_now_frame [simp]:
  "cx_inst (snd (tick_now c)) = cx_inst c"
  "cx_world (snd (tick_now c)) = cx_world c"
  "cx_tick_index (snd (tick_now c)) = cx_tick_index c"
  "cx_now (snd (tick_now c)) = cx_now c"
  "cx_tick_started_at (snd (tick_now c)) = cx_tick_started_at c"
  "cx_tick_deadline (snd (tick_now c)) = cx_tick_deadline c"
  "cx_current_node (snd (tick_now c)) = cx_current_node c"
  "cx_node_path (snd (tick_now c)) = cx_node_path c"
  "cx_last_node_path (snd (tick_now c)) = cx_last_node_path c"
  "cx_terminal_node_id (snd (tick_now c)) = cx_terminal_node_id c"
  "cx_planner_calls (snd (tick_now c)) = cx_planner_calls c"
  "cx_vla_submits (snd (tick_now c)) = cx_vla_submits c"
  "cx_vla_polls (snd (tick_now c)) = cx_vla_polls c"
  by (simp_all add: tick_now_def now_obs_def)

lemma emit_trace_frame [simp]:
  "cx_inst (emit_trace ev c) = cx_inst c"
  "cx_world (emit_trace ev c) = cx_world c"
  "cx_tick_index (emit_trace ev c) = cx_tick_index c"
  "cx_now (emit_trace ev c) = cx_now c"
  "cx_tick_started_at (emit_trace ev c) = cx_tick_started_at c"
  "cx_tick_deadline (emit_trace ev c) = cx_tick_deadline c"
  "cx_current_node (emit_trace ev c) = cx_current_node c"
  "cx_node_path (emit_trace ev c) = cx_node_path c"
  "cx_last_node_path (emit_trace ev c) = cx_last_node_path c"
  "cx_terminal_node_id (emit_trace ev c) = cx_terminal_node_id c"
  "cx_planner_calls (emit_trace ev c) = cx_planner_calls c"
  "cx_vla_submits (emit_trace ev c) = cx_vla_submits c"
  "cx_vla_polls (emit_trace ev c) = cx_vla_polls c"
  by (simp_all add: emit_trace_def)

lemma emit_event_data_frame [simp]:
  "cx_inst (emit_event_data type data c) = cx_inst c"
  "cx_world (emit_event_data type data c) = cx_world c"
  "cx_tick_index (emit_event_data type data c) = cx_tick_index c"
  "cx_now (emit_event_data type data c) = cx_now c"
  "cx_tick_started_at (emit_event_data type data c) = cx_tick_started_at c"
  "cx_tick_deadline (emit_event_data type data c) = cx_tick_deadline c"
  "cx_current_node (emit_event_data type data c) = cx_current_node c"
  "cx_node_path (emit_event_data type data c) = cx_node_path c"
  "cx_last_node_path (emit_event_data type data c) = cx_last_node_path c"
  "cx_terminal_node_id (emit_event_data type data c) = cx_terminal_node_id c"
  "cx_planner_calls (emit_event_data type data c) = cx_planner_calls c"
  "cx_vla_submits (emit_event_data type data c) = cx_vla_submits c"
  "cx_vla_polls (emit_event_data type data c) = cx_vla_polls c"
  by (simp_all add: emit_event_data_def)

lemma emit_event_error_frame [simp]:
  "cx_inst (emit_event_error severity component message node c) = cx_inst c"
  "cx_world (emit_event_error severity component message node c) = cx_world c"
  "cx_tick_index (emit_event_error severity component message node c) = cx_tick_index c"
  "cx_now (emit_event_error severity component message node c) = cx_now c"
  "cx_tick_started_at (emit_event_error severity component message node c) = cx_tick_started_at c"
  "cx_tick_deadline (emit_event_error severity component message node c) = cx_tick_deadline c"
  "cx_current_node (emit_event_error severity component message node c) = cx_current_node c"
  "cx_node_path (emit_event_error severity component message node c) = cx_node_path c"
  "cx_last_node_path (emit_event_error severity component message node c) = cx_last_node_path c"
  "cx_terminal_node_id (emit_event_error severity component message node c) = cx_terminal_node_id c"
  "cx_planner_calls (emit_event_error severity component message node c) = cx_planner_calls c"
  "cx_vla_submits (emit_event_error severity component message node c) = cx_vla_submits c"
  "cx_vla_polls (emit_event_error severity component message node c) = cx_vla_polls c"
  by (simp_all add: emit_event_error_def)

lemma emit_log_frame [simp]:
  "cx_inst (emit_log level category message c) = cx_inst c"
  "cx_world (emit_log level category message c) = cx_world c"
  "cx_tick_index (emit_log level category message c) = cx_tick_index c"
  "cx_now (emit_log level category message c) = cx_now c"
  "cx_tick_started_at (emit_log level category message c) = cx_tick_started_at c"
  "cx_tick_deadline (emit_log level category message c) = cx_tick_deadline c"
  "cx_current_node (emit_log level category message c) = cx_current_node c"
  "cx_node_path (emit_log level category message c) = cx_node_path c"
  "cx_last_node_path (emit_log level category message c) = cx_last_node_path c"
  "cx_terminal_node_id (emit_log level category message c) = cx_terminal_node_id c"
  "cx_planner_calls (emit_log level category message c) = cx_planner_calls c"
  "cx_vla_submits (emit_log level category message c) = cx_vla_submits c"
  "cx_vla_polls (emit_log level category message c) = cx_vla_polls c"
  by (simp_all add: emit_log_def now_obs_def split: option.split)

lemma tick_remaining_frame [simp]:
  "cx_inst (snd (tick_remaining_ms c)) = cx_inst c"
  "cx_world (snd (tick_remaining_ms c)) = cx_world c"
  "cx_tick_index (snd (tick_remaining_ms c)) = cx_tick_index c"
  "cx_now (snd (tick_remaining_ms c)) = cx_now c"
  "cx_tick_started_at (snd (tick_remaining_ms c)) = cx_tick_started_at c"
  "cx_tick_deadline (snd (tick_remaining_ms c)) = cx_tick_deadline c"
  "cx_current_node (snd (tick_remaining_ms c)) = cx_current_node c"
  "cx_node_path (snd (tick_remaining_ms c)) = cx_node_path c"
  "cx_last_node_path (snd (tick_remaining_ms c)) = cx_last_node_path c"
  "cx_terminal_node_id (snd (tick_remaining_ms c)) = cx_terminal_node_id c"
  "cx_planner_calls (snd (tick_remaining_ms c)) = cx_planner_calls c"
  "cx_vla_submits (snd (tick_remaining_ms c)) = cx_vla_submits c"
  "cx_vla_polls (snd (tick_remaining_ms c)) = cx_vla_polls c"
  by (simp_all add: tick_remaining_ms_def tick_now_def now_obs_def split: option.split)

lemma emit_budget_warning_frame [simp]:
  "cx_inst (emit_budget_warning_event dp node r th reason c) = cx_inst c"
  "cx_world (emit_budget_warning_event dp node r th reason c) = cx_world c"
  "cx_tick_index (emit_budget_warning_event dp node r th reason c) = cx_tick_index c"
  "cx_now (emit_budget_warning_event dp node r th reason c) = cx_now c"
  "cx_tick_started_at (emit_budget_warning_event dp node r th reason c) = cx_tick_started_at c"
  "cx_tick_deadline (emit_budget_warning_event dp node r th reason c) = cx_tick_deadline c"
  "cx_current_node (emit_budget_warning_event dp node r th reason c) = cx_current_node c"
  "cx_node_path (emit_budget_warning_event dp node r th reason c) = cx_node_path c"
  "cx_last_node_path (emit_budget_warning_event dp node r th reason c) = cx_last_node_path c"
  "cx_terminal_node_id (emit_budget_warning_event dp node r th reason c) = cx_terminal_node_id c"
  "cx_planner_calls (emit_budget_warning_event dp node r th reason c) = cx_planner_calls c"
  "cx_vla_submits (emit_budget_warning_event dp node r th reason c) = cx_vla_submits c"
  "cx_vla_polls (emit_budget_warning_event dp node r th reason c) = cx_vla_polls c"
  by (simp_all add: emit_budget_warning_event_def)

lemma emit_deadline_frame [simp]:
  "cx_inst (emit_deadline_exceeded_event node source b e c) = cx_inst c"
  "cx_world (emit_deadline_exceeded_event node source b e c) = cx_world c"
  "cx_tick_index (emit_deadline_exceeded_event node source b e c) = cx_tick_index c"
  "cx_now (emit_deadline_exceeded_event node source b e c) = cx_now c"
  "cx_tick_started_at (emit_deadline_exceeded_event node source b e c) = cx_tick_started_at c"
  "cx_tick_deadline (emit_deadline_exceeded_event node source b e c) = cx_tick_deadline c"
  "cx_current_node (emit_deadline_exceeded_event node source b e c) = cx_current_node c"
  "cx_node_path (emit_deadline_exceeded_event node source b e c) = cx_node_path c"
  "cx_last_node_path (emit_deadline_exceeded_event node source b e c) = cx_last_node_path c"
  "cx_terminal_node_id (emit_deadline_exceeded_event node source b e c) = cx_terminal_node_id c"
  "cx_planner_calls (emit_deadline_exceeded_event node source b e c) = cx_planner_calls c"
  "cx_vla_submits (emit_deadline_exceeded_event node source b e c) = cx_vla_submits c"
  "cx_vla_polls (emit_deadline_exceeded_event node source b e c) = cx_vla_polls c"
  by (simp_all add: emit_deadline_exceeded_event_def)

lemma emit_outcome_frame [simp]:
  "cx_inst (emit_outcome_event type source node job reason c) = cx_inst c"
  "cx_world (emit_outcome_event type source node job reason c) = cx_world c"
  "cx_tick_index (emit_outcome_event type source node job reason c) = cx_tick_index c"
  "cx_now (emit_outcome_event type source node job reason c) = cx_now c"
  "cx_tick_started_at (emit_outcome_event type source node job reason c) = cx_tick_started_at c"
  "cx_tick_deadline (emit_outcome_event type source node job reason c) = cx_tick_deadline c"
  "cx_current_node (emit_outcome_event type source node job reason c) = cx_current_node c"
  "cx_node_path (emit_outcome_event type source node job reason c) = cx_node_path c"
  "cx_last_node_path (emit_outcome_event type source node job reason c) = cx_last_node_path c"
  "cx_terminal_node_id (emit_outcome_event type source node job reason c) = cx_terminal_node_id c"
  "cx_planner_calls (emit_outcome_event type source node job reason c) = cx_planner_calls c"
  "cx_vla_submits (emit_outcome_event type source node job reason c) = cx_vla_submits c"
  "cx_vla_polls (emit_outcome_event type source node job reason c) = cx_vla_polls c"
  by (simp_all add: emit_outcome_event_def)

lemma scheduler_event_frame [simp]:
  "cx_inst (scheduler_event k job st message c) = cx_inst c"
  "cx_world (scheduler_event k job st message c) = cx_world c"
  "cx_tick_index (scheduler_event k job st message c) = cx_tick_index c"
  "cx_now (scheduler_event k job st message c) = cx_now c"
  "cx_tick_started_at (scheduler_event k job st message c) = cx_tick_started_at c"
  "cx_tick_deadline (scheduler_event k job st message c) = cx_tick_deadline c"
  "cx_current_node (scheduler_event k job st message c) = cx_current_node c"
  "cx_node_path (scheduler_event k job st message c) = cx_node_path c"
  "cx_last_node_path (scheduler_event k job st message c) = cx_last_node_path c"
  "cx_terminal_node_id (scheduler_event k job st message c) = cx_terminal_node_id c"
  "cx_planner_calls (scheduler_event k job st message c) = cx_planner_calls c"
  "cx_vla_submits (scheduler_event k job st message c) = cx_vla_submits c"
  "cx_vla_polls (scheduler_event k job st message c) = cx_vla_polls c"
  by (simp_all add: scheduler_event_def Let_def)

lemma cx_bb_get_frame [simp]:
  "cx_inst (snd (cx_bb_get key c)) = cx_inst c"
  "cx_world (snd (cx_bb_get key c)) = cx_world c"
  "cx_tick_index (snd (cx_bb_get key c)) = cx_tick_index c"
  "cx_now (snd (cx_bb_get key c)) = cx_now c"
  "cx_tick_started_at (snd (cx_bb_get key c)) = cx_tick_started_at c"
  "cx_tick_deadline (snd (cx_bb_get key c)) = cx_tick_deadline c"
  "cx_current_node (snd (cx_bb_get key c)) = cx_current_node c"
  "cx_node_path (snd (cx_bb_get key c)) = cx_node_path c"
  "cx_last_node_path (snd (cx_bb_get key c)) = cx_last_node_path c"
  "cx_terminal_node_id (snd (cx_bb_get key c)) = cx_terminal_node_id c"
  "cx_planner_calls (snd (cx_bb_get key c)) = cx_planner_calls c"
  "cx_vla_submits (snd (cx_bb_get key c)) = cx_vla_submits c"
  "cx_vla_polls (snd (cx_bb_get key c)) = cx_vla_polls c"
  by (simp_all add: cx_bb_get_def Let_def)

lemma fst_cx_bb_get [simp]: "fst (cx_bb_get key c) = bb_lookup key (in_bb (cx_inst c))"
  by (simp add: cx_bb_get_def Let_def)

lemma budget_allows_frame [simp]:
  "cx_inst (snd (budget_allows_decision_point node dp c)) = cx_inst c"
  "cx_world (snd (budget_allows_decision_point node dp c)) = cx_world c"
  "cx_tick_index (snd (budget_allows_decision_point node dp c)) = cx_tick_index c"
  "cx_now (snd (budget_allows_decision_point node dp c)) = cx_now c"
  "cx_tick_started_at (snd (budget_allows_decision_point node dp c)) = cx_tick_started_at c"
  "cx_tick_deadline (snd (budget_allows_decision_point node dp c)) = cx_tick_deadline c"
  "cx_current_node (snd (budget_allows_decision_point node dp c)) = cx_current_node c"
  "cx_node_path (snd (budget_allows_decision_point node dp c)) = cx_node_path c"
  "cx_last_node_path (snd (budget_allows_decision_point node dp c)) = cx_last_node_path c"
  "cx_terminal_node_id (snd (budget_allows_decision_point node dp c)) = cx_terminal_node_id c"
  "cx_planner_calls (snd (budget_allows_decision_point node dp c)) = cx_planner_calls c"
  "cx_vla_submits (snd (budget_allows_decision_point node dp c)) = cx_vla_submits c"
  "cx_vla_polls (snd (budget_allows_decision_point node dp c)) = cx_vla_polls c"
  by (simp_all add: budget_allows_decision_point_def split_beta Let_def split: option.split)

lemma cx_bb_put_frame [simp]:
  "cx_world (cx_bb_put key v writer c) = cx_world c"
  "cx_tick_index (cx_bb_put key v writer c) = cx_tick_index c"
  "cx_now (cx_bb_put key v writer c) = cx_now c"
  "cx_tick_started_at (cx_bb_put key v writer c) = cx_tick_started_at c"
  "cx_tick_deadline (cx_bb_put key v writer c) = cx_tick_deadline c"
  "cx_current_node (cx_bb_put key v writer c) = cx_current_node c"
  "cx_node_path (cx_bb_put key v writer c) = cx_node_path c"
  "cx_last_node_path (cx_bb_put key v writer c) = cx_last_node_path c"
  "cx_terminal_node_id (cx_bb_put key v writer c) = cx_terminal_node_id c"
  "cx_planner_calls (cx_bb_put key v writer c) = cx_planner_calls c"
  "cx_vla_submits (cx_bb_put key v writer c) = cx_vla_submits c"
  "cx_vla_polls (cx_bb_put key v writer c) = cx_vla_polls c"
  by (simp_all add: cx_bb_put_def Let_def tick_now_def now_obs_def)

lemma cx_bb_put_inst [simp]:
  "in_def (cx_inst (cx_bb_put key v writer c)) = in_def (cx_inst c)"
  "in_handle (cx_inst (cx_bb_put key v writer c)) = in_handle (cx_inst c)"
  "in_memory (cx_inst (cx_bb_put key v writer c)) = in_memory (cx_inst c)"
  "in_active_vla_jobs (cx_inst (cx_bb_put key v writer c)) = in_active_vla_jobs (cx_inst c)"
  "in_halt_warning_emitted (cx_inst (cx_bb_put key v writer c)) = in_halt_warning_emitted (cx_inst c)"
  "in_tick_index (cx_inst (cx_bb_put key v writer c)) = in_tick_index (cx_inst c)"
  "in_trace_enabled (cx_inst (cx_bb_put key v writer c)) = in_trace_enabled (cx_inst c)"
  "in_read_trace_enabled (cx_inst (cx_bb_put key v writer c)) = in_read_trace_enabled (cx_inst c)"
  "in_tree_stats (cx_inst (cx_bb_put key v writer c)) = in_tree_stats (cx_inst c)"
  "in_node_stats (cx_inst (cx_bb_put key v writer c)) = in_node_stats (cx_inst c)"
  by (simp_all add: cx_bb_put_def Let_def tick_now_def now_obs_def)

lemma cx_bb_put_bb:
  "in_bb (cx_inst (cx_bb_put key v writer c)) =
     bb_store key v (cx_tick_index c) (fst (tick_now c)) (cx_current_node c) writer (in_bb (cx_inst c))"
  by (simp add: cx_bb_put_def Let_def tick_now_def now_obs_def)

lemma cx_bb_put_lookup:
  "map_option be_value (bb_lookup k (in_bb (cx_inst (cx_bb_put key v writer c)))) =
     (if k = key then Some v else map_option be_value (bb_lookup k (in_bb (cx_inst c))))"
  by (simp add: cx_bb_put_bb bb_store_def bb_lookup_def)

lemma set_memory_frame [simp]:
  "cx_world (set_memory i m c) = cx_world c"
  "cx_tick_index (set_memory i m c) = cx_tick_index c"
  "cx_now (set_memory i m c) = cx_now c"
  "cx_tick_started_at (set_memory i m c) = cx_tick_started_at c"
  "cx_tick_deadline (set_memory i m c) = cx_tick_deadline c"
  "cx_current_node (set_memory i m c) = cx_current_node c"
  "cx_node_path (set_memory i m c) = cx_node_path c"
  "cx_last_node_path (set_memory i m c) = cx_last_node_path c"
  "cx_terminal_node_id (set_memory i m c) = cx_terminal_node_id c"
  "cx_planner_calls (set_memory i m c) = cx_planner_calls c"
  "cx_vla_submits (set_memory i m c) = cx_vla_submits c"
  "cx_vla_polls (set_memory i m c) = cx_vla_polls c"
  "in_def (cx_inst (set_memory i m c)) = in_def (cx_inst c)"
  "in_handle (cx_inst (set_memory i m c)) = in_handle (cx_inst c)"
  "in_active_vla_jobs (cx_inst (set_memory i m c)) = in_active_vla_jobs (cx_inst c)"
  "in_halt_warning_emitted (cx_inst (set_memory i m c)) = in_halt_warning_emitted (cx_inst c)"
  "in_tick_index (cx_inst (set_memory i m c)) = in_tick_index (cx_inst c)"
  "in_trace_enabled (cx_inst (set_memory i m c)) = in_trace_enabled (cx_inst c)"
  "in_read_trace_enabled (cx_inst (set_memory i m c)) = in_read_trace_enabled (cx_inst c)"
  "in_tree_stats (cx_inst (set_memory i m c)) = in_tree_stats (cx_inst c)"
  "in_node_stats (cx_inst (set_memory i m c)) = in_node_stats (cx_inst c)"
  "in_bb (cx_inst (set_memory i m c)) = in_bb (cx_inst c)"
  by (simp_all add: set_memory_def)

lemma memory_of_set_memory [simp]: "memory_of j (set_memory i m c) = (if j = i then m else memory_of j c)"
  by (simp add: memory_of_def set_memory_def)

lemma in_memory_set_memory: "in_memory (cx_inst (set_memory i m c)) = (in_memory (cx_inst c))(i \<mapsto> m)"
  by (simp add: set_memory_def)

lemma memory_of_cong: "in_memory (cx_inst c) i = in_memory (cx_inst c') i \<Longrightarrow> memory_of i c = memory_of i c'"
  by (simp add: memory_of_def)

lemma node_memory_for_frame [simp]:
  "cx_world (node_memory_for i c) = cx_world c"
  "cx_tick_index (node_memory_for i c) = cx_tick_index c"
  "cx_now (node_memory_for i c) = cx_now c"
  "cx_tick_started_at (node_memory_for i c) = cx_tick_started_at c"
  "cx_tick_deadline (node_memory_for i c) = cx_tick_deadline c"
  "cx_current_node (node_memory_for i c) = cx_current_node c"
  "cx_node_path (node_memory_for i c) = cx_node_path c"
  "cx_last_node_path (node_memory_for i c) = cx_last_node_path c"
  "cx_terminal_node_id (node_memory_for i c) = cx_terminal_node_id c"
  "cx_planner_calls (node_memory_for i c) = cx_planner_calls c"
  "cx_vla_submits (node_memory_for i c) = cx_vla_submits c"
  "cx_vla_polls (node_memory_for i c) = cx_vla_polls c"
  "in_def (cx_inst (node_memory_for i c)) = in_def (cx_inst c)"
  "in_handle (cx_inst (node_memory_for i c)) = in_handle (cx_inst c)"
  "in_active_vla_jobs (cx_inst (node_memory_for i c)) = in_active_vla_jobs (cx_inst c)"
  "in_halt_warning_emitted (cx_inst (node_memory_for i c)) = in_halt_warning_emitted (cx_inst c)"
  "in_tick_index (cx_inst (node_memory_for i c)) = in_tick_index (cx_inst c)"
  "in_trace_enabled (cx_inst (node_memory_for i c)) = in_trace_enabled (cx_inst c)"
  "in_read_trace_enabled (cx_inst (node_memory_for i c)) = in_read_trace_enabled (cx_inst c)"
  "in_tree_stats (cx_inst (node_memory_for i c)) = in_tree_stats (cx_inst c)"
  "in_node_stats (cx_inst (node_memory_for i c)) = in_node_stats (cx_inst c)"
  "in_bb (cx_inst (node_memory_for i c)) = in_bb (cx_inst c)"
  by (simp_all add: node_memory_for_def)

lemma memory_of_node_memory_for [simp]: "memory_of j (node_memory_for i c) = memory_of j c"
  by (simp add: node_memory_for_def)

end
