(* ===== verification/Vla_Node.thy ===== *)
theory Vla_Node
  imports Context
begin

text \<open>
  The leaves \<open>vla-request\<close>, \<open>vla-wait\<close> and \<open>vla-cancel\<close> of \<open>src/bt/runtime.cpp\<close> and the data they
  exchange with the VLA service (\<open>include/bt/vla.hpp\<close>). The service is used through \<open>vla_ops\<close>: its three
  operations as functions on the outside world. Parsing of the leaf's options reads arguments in
  pairs; an argument without its partner is a read past the end of the vector, \<open>Undef\<close>.
\<close>

subsection \<open>Data exchanged with the service\<close>

datatype vla_action_type = VA_continuous | VA_discrete | VA_sequence

datatype vla_action =
  Vla_action (va_type: vla_action_type) (va_u: "double list") (va_discrete_id: string) (va_steps: "vla_action list")

datatype vla_status = VS_ok | VS_timeout | VS_error | VS_cancelled | VS_invalid

datatype vla_job_status = VJ_queued | VJ_running | VJ_streaming | VJ_done | VJ_error | VJ_timeout | VJ_cancelled

record vla_model_info =
  vm_name :: string
  vm_version :: string

record vla_observation =
  vo_image :: "i64 option"
  vo_blob :: "i64 option"
  vo_state :: "double list"
  vo_timestamp_ms :: int
  vo_frame_id :: string

record vla_action_space =
  vsp_type :: string
  vsp_dims :: int
  vsp_bounds :: "(double \<times> double) list"

record vla_constraints =
  vcs_max_abs_value :: double
  vcs_max_delta :: double
  vcs_forbidden_ranges :: "(double \<times> double) list"

record vla_request =
  vr_capability :: string
  vr_task_id :: string
  vr_instruction :: string
  vr_observation :: vla_observation
  vr_action_space :: vla_action_space
  vr_constraints :: vla_constraints
  vr_deadline_ms :: i64
  vr_seed :: "u64 option"
  vr_model :: vla_model_info
  vr_run_id :: string
  vr_tick_index :: nat
  vr_node_name :: string

record vla_response =
  vs_status :: vla_status
  vs_action :: vla_action
  vs_confidence :: double
  vs_explanation :: string
  vs_model :: vla_model_info

record vla_partial =
  vp_sequence :: nat
  vp_text_chunk :: string
  vp_action_candidate :: "vla_action option"
  vp_confidence :: double

record vla_poll =
  vpl_status :: vla_job_status
  vpl_partial :: "vla_partial option"
  vpl_final :: "vla_response option"

record 'w vla_ops =
  vla_submit :: "vla_request \<Rightarrow> 'w \<Rightarrow> (exn + nat) \<times> 'w"
  vla_poll_job :: "nat \<Rightarrow> 'w \<Rightarrow> (exn + vla_poll) \<times> 'w"
  vla_cancel_job :: "nat \<Rightarrow> 'w \<Rightarrow> bool \<times> 'w"

fun vla_status_name :: "vla_status \<Rightarrow> string" where
  "vla_status_name VS_ok = ''ok''"
| "vla_status_name VS_timeout = ''timeout''"
| "vla_status_name VS_error = ''error''"
| "vla_status_name VS_cancelled = ''cancelled''"
| "vla_status_name VS_invalid = ''invalid''"

fun vla_job_status_name :: "vla_job_status \<Rightarrow> string" where
  "vla_job_status_name VJ_queued = ''queued''"
| "vla_job_status_name VJ_running = ''running''"
| "vla_job_status_name VJ_streaming = ''streaming''"
| "vla_job_status_name VJ_done = ''done''"
| "vla_job_status_name VJ_error = ''error''"
| "vla_job_status_name VJ_timeout = ''timeout''"
| "vla_job_status_name VJ_cancelled = ''cancelled''"

fun vla_action_type_name :: "vla_action_type \<Rightarrow> string" where
  "vla_action_type_name VA_continuous = ''continuous''"
| "vla_action_type_name VA_discrete = ''discrete''"
| "vla_action_type_name VA_sequence = ''sequence''"

subsection \<open>Text and conversions\<close>

fun vla_action_to_json :: "vla_action \<Rightarrow> string" where
  "vla_action_to_json (Vla_action t u d steps) =
     ''{'' @ jkey ''type'' @ quoted (vla_action_type_name t) @
     (case t of
        VA_continuous \<Rightarrow> '','' @ jkey ''u'' @ ''['' @ comma_join (map fp_str u) @ '']''
      | VA_discrete \<Rightarrow> '','' @ jkey ''id'' @ quoted (json_escape d)
      | VA_sequence \<Rightarrow> '','' @ jkey ''steps'' @ ''['' @ comma_join (map vla_action_to_json steps) @ '']'') @ ''}''"

definition vla_poll_meta_json :: "vla_poll \<Rightarrow> string" where
  "vla_poll_meta_json p =
     ''{'' @ jkey ''status'' @ quoted (vla_job_status_name (vpl_status p)) @
     (case vpl_partial p of
        None \<Rightarrow> []
      | Some q \<Rightarrow>
          '','' @ jkey ''partial'' @ ''{'' @ jkey ''sequence'' @ nat_str (vp_sequence q) @ '','' @
          jkey ''confidence'' @ fp_str (vp_confidence q) @
          (if vp_text_chunk q \<noteq> [] then '','' @ jkey ''text_chunk'' @ quoted (json_escape (vp_text_chunk q)) else []) @
          (case vp_action_candidate q of None \<Rightarrow> [] | Some a \<Rightarrow> '','' @ jkey ''action_candidate'' @ vla_action_to_json a) @
          ''}'') @
     (case vpl_final p of
        None \<Rightarrow> []
      | Some r \<Rightarrow>
          '','' @ jkey ''final'' @ ''{'' @ jkey ''status'' @ quoted (vla_status_name (vs_status r)) @ '','' @
          jkey ''confidence'' @ fp_str (vs_confidence r) @ '','' @
          jkey ''model'' @ ''{'' @ jkey ''name'' @ quoted (json_escape (vm_name (vs_model r))) @ '','' @
          jkey ''version'' @ quoted (json_escape (vm_version (vs_model r))) @ ''}'' @
          (if vs_explanation r \<noteq> [] then '','' @ jkey ''explanation'' @ quoted (json_escape (vs_explanation r)) else []) @
          '','' @ jkey ''action'' @ vla_action_to_json (vs_action r) @ ''}'') @ ''}''"

definition clamp_confidence :: "double \<Rightarrow> double" where
  "clamp_confidence v = (if \<not> fp_is_finite v then 0 else fp_clamp v 0 fp_one)"

text \<open>\<open>action_is_finite\<close> looks into the steps of a sequence.\<close>

fun action_is_finite :: "vla_action \<Rightarrow> bool" where
  "action_is_finite (Vla_action t u d steps) =
     (if t = VA_continuous then list_all fp_is_finite u
      else if t = VA_sequence then list_all action_is_finite steps
      else True)"

definition vla_action_to_blackboard :: "vla_action \<Rightarrow> bb_value" where
  "vla_action_to_blackboard a =
     (case va_type a of
        VA_continuous \<Rightarrow> (case va_u a of [x] \<Rightarrow> BB_float x | _ \<Rightarrow> BB_vec (va_u a))
      | VA_discrete \<Rightarrow> BB_string (va_discrete_id a)
      | VA_sequence \<Rightarrow> BB_string (vla_action_to_json a))"

definition state_from_blackboard :: "bb_value \<Rightarrow> string \<Rightarrow> string + double list" where
  "state_from_blackboard v loc =
     (case v of
        BB_int i \<Rightarrow> Inr [fp_of_int (sint i)]
      | BB_float f \<Rightarrow> Inr [f]
      | BB_vec xs \<Rightarrow> Inr xs
      | _ \<Rightarrow> Inl (loc @ '': state must be int, float, or float vector''))"

text \<open>
  \<open>static_cast<std::uint64_t>(double)\<close> truncates towards zero; on a value of \<open>2 ^ 64\<close> or more the
  behaviour is undefined.
\<close>

definition fp_to_u64 :: "double \<Rightarrow> u64 outcome" where
  "fp_to_u64 f = (let i = fp_num f div fp_den f in if i < 2 ^ 64 then Ret (word_of_int i) else Undef)"

definition seed_from_double :: "double \<Rightarrow> u64 option outcome" where
  "seed_from_double f =
     (if \<not> fp_is_finite f \<or> fp_less f 0 then Ret None
      else (case fp_to_u64 f of Ret w \<Rightarrow> Ret (Some w) | Undef \<Rightarrow> Undef | Diverge \<Rightarrow> Diverge | Throw e \<Rightarrow> Throw e))"

definition seed_from_blackboard :: "bb_value \<Rightarrow> u64 option outcome" where
  "seed_from_blackboard v =
     (case v of
        BB_int i \<Rightarrow> Ret (if sint i < 0 then None else Some i)
      | BB_float f \<Rightarrow> seed_from_double f
      | BB_string s \<Rightarrow> Ret (Some (fnv1a_64 s))
      | _ \<Rightarrow> Ret None)"

definition seed_from_lisp_arg :: "lisp_value \<Rightarrow> u64 option outcome" where
  "seed_from_lisp_arg v =
     (case v of
        VInt i \<Rightarrow> Ret (if sint i < 0 then None else Some i)
      | VFloat f \<Rightarrow> seed_from_double f
      | VSym s \<Rightarrow> Ret (Some (fnv1a_64 s))
      | VStr s \<Rightarrow> Ret (Some (fnv1a_64 s))
      | _ \<Rightarrow> Ret None)"

subsection \<open>Leaf options\<close>

definition normalize_plan_option :: "string \<Rightarrow> string" where
  "normalize_plan_option key =
     map (\<lambda>c. if c = CHR ''-'' then CHR ''_'' else c) (case key of c # cs \<Rightarrow> if c = CHR '':'' then cs else key | [] \<Rightarrow> [])"

definition arg_as_text :: "lisp_value \<Rightarrow> string \<Rightarrow> string + string" where
  "arg_as_text v loc =
     (case v of VSym s \<Rightarrow> Inr s | VStr s \<Rightarrow> Inr s | _ \<Rightarrow> Inl (loc @ '': expected symbol or string''))"

definition arg_as_int :: "lisp_value \<Rightarrow> string \<Rightarrow> string + i64" where
  "arg_as_int v loc = (case v of VInt i \<Rightarrow> Inr i | _ \<Rightarrow> Inl (loc @ '': expected integer value''))"

definition arg_as_number :: "lisp_value \<Rightarrow> string \<Rightarrow> string + double" where
  "arg_as_number v loc =
     (case v of VInt i \<Rightarrow> Inr (fp_of_int (sint i)) | VFloat f \<Rightarrow> Inr f | _ \<Rightarrow> Inl (loc @ '': expected numeric value''))"

definition parse_bool_arg :: "lisp_value \<Rightarrow> string \<Rightarrow> string + bool" where
  "parse_bool_arg v loc = (case v of VBool b \<Rightarrow> Inr b | _ \<Rightarrow> Inl (loc @ '': expected boolean''))"

definition lift_err :: "string + 'a \<Rightarrow> 'a outcome" where
  "lift_err r = (case r of Inl m \<Rightarrow> Throw (Std_exception m) | Inr x \<Rightarrow> Ret x)"

text \<open>The option loop shared by the three leaves: \<open>apply_option raw_key key value opts\<close> is its body.\<close>

fun parse_options ::
  "string \<Rightarrow> (string \<Rightarrow> string \<Rightarrow> lisp_value \<Rightarrow> 'o \<Rightarrow> 'o outcome) \<Rightarrow> lisp_value list \<Rightarrow> 'o \<Rightarrow> 'o outcome" where
  "parse_options loc apply_option [] opts = Ret opts"
| "parse_options loc apply_option [k] opts = (case arg_as_text k loc of Inl m \<Rightarrow> Throw (Std_exception m) | Inr _ \<Rightarrow> Undef)"
| "parse_options loc apply_option (k # v # rest) opts =
     (case arg_as_text k loc of
        Inl m \<Rightarrow> Throw (Std_exception m)
      | Inr raw \<Rightarrow>
          (case apply_option raw (normalize_plan_option raw) v opts of
             Ret opts' \<Rightarrow> parse_options loc apply_option rest opts'
           | Throw e \<Rightarrow> Throw e
           | Undef \<Rightarrow> Undef
           | Diverge \<Rightarrow> Diverge))"

record vla_request_options =
  ro_node_name :: string
  ro_job_key :: string
  ro_instruction :: string
  ro_instruction_key :: string
  ro_task_id :: string
  ro_task_id_key :: string
  ro_state_key :: string
  ro_image_key :: string
  ro_blob_key :: string
  ro_capability :: string
  ro_model_name :: string
  ro_model_version :: string
  ro_frame_id :: string
  ro_deadline_ms :: i64
  ro_dims :: i64
  ro_bound_lo :: double
  ro_bound_hi :: double
  ro_max_abs :: double
  ro_max_delta :: double
  ro_forbidden_range :: "(double \<times> double) option"
  ro_seed_key :: string
  ro_fixed_seed :: "u64 option"

definition vla_default_node_name :: "node \<Rightarrow> string" where
  "vla_default_node_name n = (if nd_leaf_name n = [] then ''vla-request-'' @ nat_str (nd_id n) else nd_leaf_name n)"

definition vla_request_options_default :: "node \<Rightarrow> vla_request_options" where
  "vla_request_options_default n = \<lparr>ro_node_name = vla_default_node_name n,
     ro_job_key = vla_default_node_name n @ ''.job_id'', ro_instruction = [], ro_instruction_key = ''instruction'',
     ro_task_id = ''task'', ro_task_id_key = [], ro_state_key = ''state'', ro_image_key = [], ro_blob_key = [],
     ro_capability = ''vla.rt2'', ro_model_name = ''rt2-stub'', ro_model_version = ''stub-1'', ro_frame_id = ''base'',
     ro_deadline_ms = 20, ro_dims = 0, ro_bound_lo = fp_uminus fp_one, ro_bound_hi = fp_one, ro_max_abs = fp_one,
     ro_max_delta = fp_one, ro_forbidden_range = None, ro_seed_key = [], ro_fixed_seed = None\<rparr>"

definition set_text :: "lisp_value \<Rightarrow> string \<Rightarrow> (string \<Rightarrow> 'o) \<Rightarrow> 'o outcome" where
  "set_text v loc f = lift_err (rbind (arg_as_text v loc) (\<lambda>s. Inr (f s)))"

definition set_int :: "lisp_value \<Rightarrow> string \<Rightarrow> (i64 \<Rightarrow> 'o) \<Rightarrow> 'o outcome" where
  "set_int v loc f = lift_err (rbind (arg_as_int v loc) (\<lambda>i. Inr (f i)))"

definition set_number :: "lisp_value \<Rightarrow> string \<Rightarrow> (double \<Rightarrow> 'o) \<Rightarrow> 'o outcome" where
  "set_number v loc f = lift_err (rbind (arg_as_number v loc) (\<lambda>x. Inr (f x)))"

definition set_bool :: "lisp_value \<Rightarrow> string \<Rightarrow> (bool \<Rightarrow> 'o) \<Rightarrow> 'o outcome" where
  "set_bool v loc f = lift_err (rbind (parse_bool_arg v loc) (\<lambda>b. Inr (f b)))"

definition set_vla_request_option :: "string \<Rightarrow> string \<Rightarrow> lisp_value \<Rightarrow> vla_request_options \<Rightarrow> vla_request_options outcome" where
  "set_vla_request_option raw key v op =
     (if key = ''name'' then set_text v ''vla-request :name'' (\<lambda>s. op\<lparr>ro_node_name := s, ro_job_key := s @ ''.job_id''\<rparr>)
      else if key = ''job_key'' then set_text v ''vla-request :job_key'' (\<lambda>s. op\<lparr>ro_job_key := s\<rparr>)
      else if key = ''instruction'' then set_text v ''vla-request :instruction'' (\<lambda>s. op\<lparr>ro_instruction := s\<rparr>)
      else if key = ''instruction_key'' then set_text v ''vla-request :instruction_key'' (\<lambda>s. op\<lparr>ro_instruction_key := s\<rparr>)
      else if key = ''task_id'' then set_text v ''vla-request :task_id'' (\<lambda>s. op\<lparr>ro_task_id := s\<rparr>)
      else if key = ''task_key'' then set_text v ''vla-request :task_key'' (\<lambda>s. op\<lparr>ro_task_id_key := s\<rparr>)
      else if key = ''state_key'' then set_text v ''vla-request :state_key'' (\<lambda>s. op\<lparr>ro_state_key := s\<rparr>)
      else if key = ''image_key'' then set_text v ''vla-request :image_key'' (\<lambda>s. op\<lparr>ro_image_key := s\<rparr>)
      else if key = ''blob_key'' then set_text v ''vla-request :blob_key'' (\<lambda>s. op\<lparr>ro_blob_key := s\<rparr>)
      else if key = ''capability'' then set_text v ''vla-request :capability'' (\<lambda>s. op\<lparr>ro_capability := s\<rparr>)
      else if key = ''model_name'' then set_text v ''vla-request :model_name'' (\<lambda>s. op\<lparr>ro_model_name := s\<rparr>)
      else if key = ''model_version'' then set_text v ''vla-request :model_version'' (\<lambda>s. op\<lparr>ro_model_version := s\<rparr>)
      else if key = ''frame_id'' then set_text v ''vla-request :frame_id'' (\<lambda>s. op\<lparr>ro_frame_id := s\<rparr>)
      else if key = ''deadline_ms'' \<or> key = ''budget_ms'' then set_int v ''vla-request :deadline_ms'' (\<lambda>i. op\<lparr>ro_deadline_ms := i\<rparr>)
      else if key = ''dims'' then set_int v ''vla-request :dims'' (\<lambda>i. op\<lparr>ro_dims := i\<rparr>)
      else if key = ''bound_lo'' then set_number v ''vla-request :bound_lo'' (\<lambda>x. op\<lparr>ro_bound_lo := x\<rparr>)
      else if key = ''bound_hi'' then set_number v ''vla-request :bound_hi'' (\<lambda>x. op\<lparr>ro_bound_hi := x\<rparr>)
      else if key = ''max_abs'' then set_number v ''vla-request :max_abs'' (\<lambda>x. op\<lparr>ro_max_abs := x\<rparr>)
      else if key = ''max_delta'' then set_number v ''vla-request :max_delta'' (\<lambda>x. op\<lparr>ro_max_delta := x\<rparr>)
      else if key = ''forbidden_lo'' then set_number v ''vla-request :forbidden_lo'' (\<lambda>lo.
        op\<lparr>ro_forbidden_range := Some (case ro_forbidden_range op of None \<Rightarrow> (lo, lo) | Some (_, hi) \<Rightarrow> (lo, hi))\<rparr>)
      else if key = ''forbidden_hi'' then set_number v ''vla-request :forbidden_hi'' (\<lambda>hi.
        op\<lparr>ro_forbidden_range := Some (case ro_forbidden_range op of None \<Rightarrow> (hi, hi) | Some (lo, _) \<Rightarrow> (lo, hi))\<rparr>)
      else if key = ''seed_key'' then set_text v ''vla-request :seed_key'' (\<lambda>s. op\<lparr>ro_seed_key := s\<rparr>)
      else if key = ''seed'' then
        (case seed_from_lisp_arg v of
           Ret (Some w) \<Rightarrow> Ret (op\<lparr>ro_fixed_seed := Some w\<rparr>)
         | Ret None \<Rightarrow> Throw (Std_exception ''vla-request :seed: expected non-negative numeric/string/symbol'')
         | Throw e \<Rightarrow> Throw e | Undef \<Rightarrow> Undef | Diverge \<Rightarrow> Diverge)
      else Throw (Std_exception (''vla-request: unknown option: '' @ raw)))"

definition parse_vla_request_options :: "node \<Rightarrow> lisp_value list \<Rightarrow> vla_request_options outcome" where
  "parse_vla_request_options n args =
     parse_options ''vla-request'' set_vla_request_option args (vla_request_options_default n)"

record vla_wait_options =
  wo_node_name :: string
  wo_job_key :: string
  wo_action_key :: string
  wo_meta_key :: string
  wo_early_confidence :: double
  wo_early_commit :: bool
  wo_cancel_on_early_commit :: bool
  wo_clear_job :: bool

definition vla_wait_options_default :: "node \<Rightarrow> vla_wait_options" where
  "vla_wait_options_default n = \<lparr>wo_node_name = vla_default_node_name n, wo_job_key = vla_default_node_name n @ ''.job_id'',
     wo_action_key = ''action'', wo_meta_key = [], wo_early_confidence = 0x3FF199999999999A, wo_early_commit = False,
     wo_cancel_on_early_commit = True, wo_clear_job = True\<rparr>"

definition set_vla_wait_option :: "string \<Rightarrow> string \<Rightarrow> lisp_value \<Rightarrow> vla_wait_options \<Rightarrow> vla_wait_options outcome" where
  "set_vla_wait_option raw key v op =
     (if key = ''name'' then set_text v ''vla-wait :name'' (\<lambda>s. op\<lparr>wo_node_name := s, wo_job_key := s @ ''.job_id''\<rparr>)
      else if key = ''job_key'' then set_text v ''vla-wait :job_key'' (\<lambda>s. op\<lparr>wo_job_key := s\<rparr>)
      else if key = ''action_key'' then set_text v ''vla-wait :action_key'' (\<lambda>s. op\<lparr>wo_action_key := s\<rparr>)
      else if key = ''meta_key'' then set_text v ''vla-wait :meta_key'' (\<lambda>s. op\<lparr>wo_meta_key := s\<rparr>)
      else if key = ''early_confidence'' then set_number v ''vla-wait :early_confidence'' (\<lambda>x. op\<lparr>wo_early_confidence := x\<rparr>)
      else if key = ''early_commit'' then set_bool v ''vla-wait :early_commit'' (\<lambda>b. op\<lparr>wo_early_commit := b\<rparr>)
      else if key = ''cancel_on_early_commit'' then
        set_bool v ''vla-wait :cancel_on_early_commit'' (\<lambda>b. op\<lparr>wo_cancel_on_early_commit := b\<rparr>)
      else if key = ''clear_job'' then set_bool v ''vla-wait :clear_job'' (\<lambda>b. op\<lparr>wo_clear_job := b\<rparr>)
      else Throw (Std_exception (''vla-wait: unknown option: '' @ raw)))"

definition parse_vla_wait_options :: "node \<Rightarrow> lisp_value list \<Rightarrow> vla_wait_options outcome" where
  "parse_vla_wait_options n args = parse_options ''vla-wait'' set_vla_wait_option args (vla_wait_options_default n)"

record vla_cancel_options =
  co_node_name :: string
  co_job_key :: string

definition set_vla_cancel_option :: "string \<Rightarrow> string \<Rightarrow> lisp_value \<Rightarrow> vla_cancel_options \<Rightarrow> vla_cancel_options outcome" where
  "set_vla_cancel_option raw key v op =
     (if key = ''name'' then set_text v ''vla-cancel :name'' (\<lambda>s. op\<lparr>co_node_name := s, co_job_key := s @ ''.job_id''\<rparr>)
      else if key = ''job_key'' then set_text v ''vla-cancel :job_key'' (\<lambda>s. op\<lparr>co_job_key := s\<rparr>)
      else Throw (Std_exception (''vla-cancel: unknown option: '' @ raw)))"

definition parse_vla_cancel_options :: "node \<Rightarrow> lisp_value list \<Rightarrow> vla_cancel_options outcome" where
  "parse_vla_cancel_options n args = parse_options ''vla-cancel'' set_vla_cancel_option args
     \<lparr>co_node_name = vla_default_node_name n, co_job_key = vla_default_node_name n @ ''.job_id''\<rparr>"

subsection \<open>Executing the leaves\<close>

type_synonym ('w, 'p, 'a) step = "(status outcome + 'a) \<times> ('w, 'p) tick_context"

definition vla_fail :: "string \<Rightarrow> ('w, 'p) tick_context \<Rightarrow> ('w, 'p, 'a) step" where
  "vla_fail msg c = (Inl (Ret Failure), emit_log L_error ''vla'' msg c)"

definition step_outcome :: "'a outcome \<Rightarrow> ('w, 'p) tick_context \<Rightarrow> ('w, 'p, 'a) step" where
  "step_outcome r c =
     (case r of Ret x \<Rightarrow> (Inr x, c) | Throw e \<Rightarrow> (Inl (Throw e), c) | Undef \<Rightarrow> (Inl Undef, c) | Diverge \<Rightarrow> (Inl Diverge, c))"

definition clear_job_key_if_present :: "string \<Rightarrow> string \<Rightarrow> ('w, 'p) tick_context \<Rightarrow> ('w, 'p) tick_context" where
  "clear_job_key_if_present key writer_name c =
     (let (existing, c) = cx_bb_get key c in if existing \<noteq> None then cx_bb_put key BB_nil writer_name c else c)"

definition erase_active_job :: "node_id \<Rightarrow> ('w, 'p) tick_context \<Rightarrow> ('w, 'p) tick_context" where
  "erase_active_job i c =
     c\<lparr>cx_inst := (cx_inst c)\<lparr>in_active_vla_jobs := alist_erase i (in_active_vla_jobs (cx_inst c))\<rparr>\<rparr>"

text \<open>A job id is stored as a positive integer; anything else is not one.\<close>

definition stored_job_id :: "bb_entry option \<Rightarrow> nat option" where
  "stored_job_id e =
     (case e of
        Some e \<Rightarrow> (case be_value e of BB_int i \<Rightarrow> if sint i > 0 then Some (unat i) else None | _ \<Rightarrow> None)
      | None \<Rightarrow> None)"

definition request_state :: "vla_request_options \<Rightarrow> ('w, 'p) tick_context \<Rightarrow> ('w, 'p, bb_entry \<times> double list) step" where
  "request_state op c =
     (let (entry, c) = cx_bb_get (ro_state_key op) c in
      case entry of
        None \<Rightarrow> vla_fail (''vla-request: missing state key: '' @ ro_state_key op) c
      | Some e \<Rightarrow>
          (case state_from_blackboard (be_value e) ''vla-request state'' of
             Inl m \<Rightarrow> vla_fail (''vla-request: invalid state: '' @ m) c
           | Inr [] \<Rightarrow> vla_fail ''vla-request: state must not be empty'' c
           | Inr state \<Rightarrow> (Inr (e, state), c)))"

definition request_instruction :: "vla_request_options \<Rightarrow> ('w, 'p) tick_context \<Rightarrow> ('w, 'p, string) step" where
  "request_instruction op c =
     (if ro_instruction op \<noteq> [] then (Inr (ro_instruction op), c)
      else
        let (entry, c) = cx_bb_get (ro_instruction_key op) c in
        case entry of
          None \<Rightarrow> vla_fail (''vla-request: missing instruction key: '' @ ro_instruction_key op) c
        | Some e \<Rightarrow>
            (case be_value e of
               BB_string s \<Rightarrow> (Inr s, c)
             | _ \<Rightarrow> vla_fail ''vla-request: instruction must be string'' c))"

definition request_task_id :: "vla_request_options \<Rightarrow> ('w, 'p) tick_context \<Rightarrow> ('w, 'p, string) step" where
  "request_task_id op c =
     (if ro_task_id_key op = [] then (Inr (ro_task_id op), c)
      else
        let (entry, c) = cx_bb_get (ro_task_id_key op) c in
        case entry of
          None \<Rightarrow> (Inr (ro_task_id op), c)
        | Some e \<Rightarrow>
            (case be_value e of
               BB_string s \<Rightarrow> (Inr s, c)
             | BB_int i \<Rightarrow> (Inr (i64_str i), c)
             | _ \<Rightarrow> vla_fail ''vla-request: task_key must map to string or int'' c))"

definition request_dims :: "vla_request_options \<Rightarrow> double list \<Rightarrow> int" where
  "request_dims op state = (if sint (ro_dims op) > 0 then sint (ro_dims op) else int (length state))"

definition request_limits :: "vla_request_options \<Rightarrow> double list \<Rightarrow> ('w, 'p) tick_context \<Rightarrow> ('w, 'p, int) step" where
  "request_limits op state c =
     (let dims = request_dims op state in
      if dims \<le> 0 then vla_fail ''vla-request: dims must be > 0'' c
      else if \<not> fp_is_finite (ro_bound_lo op) \<or> \<not> fp_is_finite (ro_bound_hi op) \<or> fp_less (ro_bound_hi op) (ro_bound_lo op)
        then vla_fail ''vla-request: invalid bounds'' c
      else if sint (ro_deadline_ms op) \<le> 0 then vla_fail ''vla-request: deadline_ms must be > 0'' c
      else (Inr dims, c))"

definition request_forbidden :: "vla_request_options \<Rightarrow> ('w, 'p) tick_context \<Rightarrow> ('w, 'p, (double \<times> double) list) step" where
  "request_forbidden op c =
     (case ro_forbidden_range op of
        None \<Rightarrow> (Inr [], c)
      | Some (lo, hi) \<Rightarrow>
          if fp_less hi lo then vla_fail ''vla-request: forbidden range must be ordered'' c else (Inr [(lo, hi)], c))"

definition request_image :: "vla_request_options \<Rightarrow> ('w, 'p) tick_context \<Rightarrow> ('w, 'p, i64 option) step" where
  "request_image op c =
     (if ro_image_key op = [] then (Inr None, c)
      else
        let (entry, c) = cx_bb_get (ro_image_key op) c in
        case entry of
          None \<Rightarrow> vla_fail (''vla-request: missing image key: '' @ ro_image_key op) c
        | Some e \<Rightarrow>
            (case be_value e of
               BB_image i \<Rightarrow> (Inr (Some i), c)
             | _ \<Rightarrow> vla_fail ''vla-request: image key does not hold image_handle'' c))"

definition request_blob :: "vla_request_options \<Rightarrow> ('w, 'p) tick_context \<Rightarrow> ('w, 'p, i64 option) step" where
  "request_blob op c =
     (if ro_blob_key op = [] then (Inr None, c)
      else
        let (entry, c) = cx_bb_get (ro_blob_key op) c in
        case entry of
          None \<Rightarrow> vla_fail (''vla-request: missing blob key: '' @ ro_blob_key op) c
        | Some e \<Rightarrow>
            (case be_value e of
               BB_blob i \<Rightarrow> (Inr (Some i), c)
             | _ \<Rightarrow> vla_fail ''vla-request: blob key does not hold blob_handle'' c))"

definition instance_run_id :: "('w, 'p) tick_context \<Rightarrow> string" where
  "instance_run_id c = ''inst-'' @ i64_str (in_handle (cx_inst c))"

definition request_seed :: "vla_request_options \<Rightarrow> ('w, 'p) tick_context \<Rightarrow> ('w, 'p, u64) step" where
  "request_seed op c =
     (let fallback = fnv1a_64 (instance_run_id c @ ''::'' @ ro_node_name op @ ''::'' @ nat_str (cx_tick_index c));
          base = (case ro_fixed_seed op of Some w \<Rightarrow> w | None \<Rightarrow> fallback)
      in if ro_seed_key op = [] then (Inr base, c)
         else
           let (entry, c) = cx_bb_get (ro_seed_key op) c in
           case entry of
             None \<Rightarrow> (Inr base, c)
           | Some e \<Rightarrow>
               ebind (step_outcome (seed_from_blackboard (be_value e)) c) (\<lambda>seeded c.
                 (Inr (case seeded of Some w \<Rightarrow> w | None \<Rightarrow> base), c)))"

definition build_vla_request :: "vla_request_options \<Rightarrow> ('w, 'p) tick_context \<Rightarrow> ('w, 'p, vla_request) step" where
  "build_vla_request op c =
     ebind (request_state op c) (\<lambda>(entry, state) c.
     ebind (request_instruction op c) (\<lambda>instruction c.
     ebind (request_task_id op c) (\<lambda>task_id c.
     ebind (request_limits op state c) (\<lambda>dims c.
     ebind (request_forbidden op c) (\<lambda>forbidden c.
     ebind (request_image op c) (\<lambda>image c.
     ebind (request_blob op c) (\<lambda>blob c.
     ebind (request_seed op c) (\<lambda>seed c.
       (Inr \<lparr>vr_capability = ro_capability op, vr_task_id = task_id, vr_instruction = instruction,
          vr_observation = \<lparr>vo_image = image, vo_blob = blob, vo_state = state,
            vo_timestamp_ms = ns_to_ms (be_last_write_ts entry), vo_frame_id = ro_frame_id op\<rparr>,
          vr_action_space = \<lparr>vsp_type = ''continuous'', vsp_dims = dims,
            vsp_bounds = replicate (nat dims) (ro_bound_lo op, ro_bound_hi op)\<rparr>,
          vr_constraints = \<lparr>vcs_max_abs_value = fp_max 0 (ro_max_abs op), vcs_max_delta = fp_max 0 (ro_max_delta op),
            vcs_forbidden_ranges = forbidden\<rparr>,
          vr_deadline_ms = ro_deadline_ms op, vr_seed = Some seed,
          vr_model = \<lparr>vm_name = ro_model_name op, vm_version = ro_model_version op\<rparr>,
          vr_run_id = instance_run_id c, vr_tick_index = cx_tick_index c, vr_node_name = ro_node_name op\<rparr>, c)))))))))"

definition job_json :: "nat \<Rightarrow> node_id \<Rightarrow> string \<Rightarrow> string" where
  "job_json i node rest = ''{'' @ jkey ''job_id'' @ quoted (nat_str i) @ '','' @ jkey ''node_id'' @ nat_str node @ rest @ ''}''"

definition str_member :: "string \<Rightarrow> string \<Rightarrow> string" where
  "str_member k v = '','' @ jkey k @ quoted v"

definition submit_vla_request ::
  "'w vla_ops \<Rightarrow> node \<Rightarrow> vla_request_options \<Rightarrow> vla_request \<Rightarrow> ('w, 'p) tick_context \<Rightarrow> ('w, 'p, status outcome) step" where
  "submit_vla_request ops n op req c =
     (let (allowed, c) = budget_allows_decision_point (nd_id n) ''vla_submit'' c in
      if \<not> allowed then (Inl (Ret Failure), c)
      else
        let c = c\<lparr>cx_vla_submits := Suc (cx_vla_submits c)\<rparr>;
            (r, w) = vla_submit ops req (cx_world c);
            c = c\<lparr>cx_world := w\<rparr>
        in case r of
             Inl e \<Rightarrow> (Inl (Throw e), c)
           | Inr i \<Rightarrow>
               let c = c\<lparr>cx_inst := (cx_inst c)\<lparr>in_active_vla_jobs :=
                     alist_put (nd_id n) i (in_active_vla_jobs (cx_inst c))\<rparr>\<rparr>;
                   c = cx_bb_put (ro_job_key op) (BB_int (word_of_nat i)) (ro_node_name op) c;
                   c = emit_event_data ''vla_submit'' (job_json i (nd_id n) (str_member ''status'' ''submitted'')) c;
                   c = emit_log L_info ''vla''
                     (''submitted job='' @ nat_str i @ '' capability='' @ vr_capability req @ '' model='' @
                      vm_name (vr_model req) @ '' deadline_ms='' @ i64_str (vr_deadline_ms req)) c
               in (Inr (Ret Running), c))"

definition execute_vla_request ::
  "'w vla_ops option \<Rightarrow> node \<Rightarrow> lisp_value list \<Rightarrow> ('w, 'p) tick_context \<Rightarrow> status outcome \<times> ('w, 'p) tick_context" where
  "execute_vla_request svc n args c =
     (case svc of
        None \<Rightarrow>
          (Ret Failure,
           emit_log L_error ''vla'' ''vla-request: VLA service is not available''
             (emit_trace ((make_trace_event TE_error)\<lparr>te_node := nd_id n,
                te_message := ''vla-request: VLA service is not available''\<rparr>) c))
      | Some ops \<Rightarrow>
          ends_with
            (ebind (step_outcome (parse_vla_request_options n args) c) (\<lambda>op c.
             let (existing, c) = cx_bb_get (ro_job_key op) c in
             if stored_job_id existing \<noteq> None then (Inl (Ret Running), c)
             else ebind (build_vla_request op c) (submit_vla_request ops n op))))"

text \<open>What a poll asks the waiting leaf to do.\<close>

definition job_in_flight :: "vla_poll \<Rightarrow> bool" where
  "job_in_flight p \<longleftrightarrow> vpl_status p = VJ_queued \<or> vpl_status p = VJ_running \<or> vpl_status p = VJ_streaming"

definition early_action :: "vla_wait_options \<Rightarrow> vla_poll \<Rightarrow> (vla_action \<times> double) option" where
  "early_action op p =
     (if job_in_flight p \<and> wo_early_commit op then
        (case vpl_partial p of
           None \<Rightarrow> None
         | Some q \<Rightarrow>
             (case vp_action_candidate q of
                None \<Rightarrow> None
              | Some a \<Rightarrow>
                  if fp_le (wo_early_confidence op) (clamp_confidence (vp_confidence q)) \<and> action_is_finite a
                  then Some (a, vp_confidence q) else None))
      else None)"

definition final_action :: "vla_poll \<Rightarrow> vla_action option" where
  "final_action p =
     (case vpl_final p of
        None \<Rightarrow> None
      | Some r \<Rightarrow>
          if vpl_status p = VJ_done \<and> vs_status r = VS_ok \<and> action_is_finite (vs_action r) then Some (vs_action r) else None)"

definition cancel_outcome_type :: "bool \<Rightarrow> string" where
  "cancel_outcome_type accepted = (if accepted then ''cancel_acknowledged'' else ''cancel_late'')"

definition call_vla_cancel :: "'w vla_ops \<Rightarrow> nat \<Rightarrow> ('w, 'p) tick_context \<Rightarrow> bool \<times> ('w, 'p) tick_context" where
  "call_vla_cancel ops i c = (let (accepted, w) = vla_cancel_job ops i (cx_world c) in (accepted, c\<lparr>cx_world := w\<rparr>))"

definition bool_member :: "string \<Rightarrow> bool \<Rightarrow> string" where
  "bool_member k b = '','' @ jkey k @ bool_json b"

definition finish_wait_job :: "node \<Rightarrow> vla_wait_options \<Rightarrow> ('w, 'p) tick_context \<Rightarrow> ('w, 'p) tick_context" where
  "finish_wait_job n op c =
     (if wo_clear_job op then erase_active_job (nd_id n) (clear_job_key_if_present (wo_job_key op) (wo_node_name op) c) else c)"

definition commit_early ::
  "'w vla_ops \<Rightarrow> node \<Rightarrow> vla_wait_options \<Rightarrow> nat \<Rightarrow> vla_action \<Rightarrow> double \<Rightarrow> ('w, 'p) tick_context \<Rightarrow> ('w, 'p) tick_context" where
  "commit_early ops n op i a confidence c =
     (let c = cx_bb_put (wo_action_key op) (vla_action_to_blackboard a) (wo_node_name op) c;
          c = (if wo_cancel_on_early_commit op then
                 let c = emit_event_data ''async_cancel_requested'' (job_json i (nd_id n) (str_member ''reason'' ''early_commit'')) c;
                     (accepted, c) = call_vla_cancel ops i c;
                     c = emit_event_data ''async_cancel_acknowledged'' (job_json i (nd_id n) (bool_member ''accepted'' accepted)) c
                 in emit_outcome_event (cancel_outcome_type accepted) ''vla_wait_early_commit'' (Some (nd_id n))
                      (Some (nat_str i)) (Some ''early_commit'') c
               else c);
          c = finish_wait_job n op c
      in emit_log L_info ''vla'' (''vla-wait: early-committed partial action with confidence='' @ fp_to_string confidence) c)"

definition commit_final ::
  "node \<Rightarrow> vla_wait_options \<Rightarrow> nat \<Rightarrow> vla_action \<Rightarrow> ('w, 'p) tick_context \<Rightarrow> ('w, 'p) tick_context" where
  "commit_final n op i a c =
     (let c = cx_bb_put (wo_action_key op) (vla_action_to_blackboard a) (wo_node_name op) c;
          c = finish_wait_job n op c;
          c = emit_log L_info ''vla'' ''vla-wait: committed final action'' c
      in emit_event_data ''vla_result''
           (job_json i (nd_id n) (str_member ''status'' ''ok'' @ str_member ''digest'' (hash64_hex (vla_action_to_json a)))) c)"

definition wait_failure_reason :: "vla_poll \<Rightarrow> string" where
  "wait_failure_reason p =
     (case vpl_final p of
        Some r \<Rightarrow> ''vla-wait: status='' @ vla_status_name (vs_status r) @
          (if vs_explanation r \<noteq> [] then '' '' @ vs_explanation r else [])
      | None \<Rightarrow> ''vla-wait: job status='' @ vla_job_status_name (vpl_status p))"

definition fail_wait ::
  "node \<Rightarrow> vla_wait_options \<Rightarrow> nat \<Rightarrow> vla_poll \<Rightarrow> ('w, 'p) tick_context \<Rightarrow> ('w, 'p) tick_context" where
  "fail_wait n op i p c =
     (let late = ((vpl_status p = VJ_cancelled \<or> vpl_status p = VJ_timeout) \<and>
            (case vpl_final p of Some r \<Rightarrow> vs_status r = VS_cancelled | None \<Rightarrow> False));
          timeout = (vpl_status p = VJ_timeout \<or> (case vpl_final p of Some r \<Rightarrow> vs_status r = VS_timeout | None \<Rightarrow> False));
          c = (if late then
                 emit_outcome_event ''late_result_dropped'' ''vla_wait'' (Some (nd_id n)) (Some (nat_str i))
                   (Some ''completion_after_cancel'')
                   (emit_event_data ''async_completion_dropped''
                      (job_json i (nd_id n) (str_member ''reason'' ''completion_after_cancel'')) c)
               else c);
          c = (if timeout then emit_outcome_event ''vla_timeout'' ''vla_wait'' (Some (nd_id n)) (Some (nat_str i)) (Some ''timeout'') c
               else c);
          c = finish_wait_job n op c
      in emit_log L_warn ''vla'' (wait_failure_reason p) c)"

definition poll_vla_job ::
  "'w vla_ops \<Rightarrow> node \<Rightarrow> vla_wait_options \<Rightarrow> nat \<Rightarrow> ('w, 'p) tick_context \<Rightarrow> ('w, 'p, status outcome) step" where
  "poll_vla_job ops n op i c =
     (let c = c\<lparr>cx_vla_polls := Suc (cx_vla_polls c)\<rparr>;
          (r, w) = vla_poll_job ops i (cx_world c);
          c = c\<lparr>cx_world := w\<rparr>
      in case r of
           Inl e \<Rightarrow> (Inl (Throw e), c)
         | Inr p \<Rightarrow>
             let c = emit_event_data ''vla_poll''
                   (job_json i (nd_id n) (str_member ''status'' (vla_job_status_name (vpl_status p)))) c;
                 c = (if wo_meta_key op \<noteq> [] then cx_bb_put (wo_meta_key op) (BB_string (vla_poll_meta_json p)) (wo_node_name op) c
                      else c)
             in case early_action op p of
                  Some (a, confidence) \<Rightarrow> (Inr (Ret Success), commit_early ops n op i a confidence c)
                | None \<Rightarrow>
                    if job_in_flight p then (Inr (Ret Running), c)
                    else (case final_action p of
                            Some a \<Rightarrow> (Inr (Ret Success), commit_final n op i a c)
                          | None \<Rightarrow> (Inr (Ret Failure), fail_wait n op i p c)))"

definition execute_vla_wait ::
  "'w vla_ops option \<Rightarrow> node \<Rightarrow> lisp_value list \<Rightarrow> ('w, 'p) tick_context \<Rightarrow> status outcome \<times> ('w, 'p) tick_context" where
  "execute_vla_wait svc n args c =
     (case svc of
        None \<Rightarrow> (Ret Failure, emit_log L_error ''vla'' ''vla-wait: VLA service is not available'' c)
      | Some ops \<Rightarrow>
          ends_with
            (ebind (step_outcome (parse_vla_wait_options n args) c) (\<lambda>op c.
             let (entry, c) = cx_bb_get (wo_job_key op) c in
             if entry = None then vla_fail (''vla-wait: missing job key: '' @ wo_job_key op) (erase_active_job (nd_id n) c)
             else (case stored_job_id entry of
                None \<Rightarrow> vla_fail ''vla-wait: job key does not hold a valid job id'' (erase_active_job (nd_id n) c)
              | Some i \<Rightarrow>
                  let (allowed, c) = budget_allows_decision_point (nd_id n) ''vla_poll'' c in
                  if \<not> allowed then (Inl (Ret Running), c) else poll_vla_job ops n op i c))))"

definition execute_vla_cancel ::
  "'w vla_ops option \<Rightarrow> node \<Rightarrow> lisp_value list \<Rightarrow> ('w, 'p) tick_context \<Rightarrow> status outcome \<times> ('w, 'p) tick_context" where
  "execute_vla_cancel svc n args c =
     (case svc of
        None \<Rightarrow> (Ret Failure, emit_log L_error ''vla'' ''vla-cancel: VLA service is not available'' c)
      | Some ops \<Rightarrow>
          ends_with
            (ebind (step_outcome (parse_vla_cancel_options n args) c) (\<lambda>op c.
             let (entry, c) = cx_bb_get (co_job_key op) c in
             if entry = None then (Inr (Ret Success), erase_active_job (nd_id n) c)
             else (case stored_job_id entry of
                None \<Rightarrow> (Inr (Ret Success),
                  erase_active_job (nd_id n) (clear_job_key_if_present (co_job_key op) (co_node_name op) c))
              | Some i \<Rightarrow>
                  let c = emit_event_data ''async_cancel_requested'' (job_json i (nd_id n) (str_member ''reason'' ''explicit_cancel'')) c;
                      (accepted, c) = call_vla_cancel ops i c;
                      c = clear_job_key_if_present (co_job_key op) (co_node_name op) c;
                      c = erase_active_job (nd_id n) c;
                      c = emit_log L_info ''vla'' (''vla-cancel: cancelled job='' @ nat_str i) c;
                      c = emit_event_data ''async_cancel_acknowledged'' (job_json i (nd_id n) (bool_member ''accepted'' accepted)) c;
                      c = emit_outcome_event (cancel_outcome_type accepted) ''vla_cancel'' (Some (nd_id n)) (Some (nat_str i))
                        (Some ''explicit_cancel'') c
                  in (Inr (Ret Success),
                      emit_event_data ''vla_cancel''
                        (job_json i (nd_id n) (str_member ''status'' ''cancelled'' @ bool_member ''accepted'' accepted)) c)))))"

end
