(* ===== verification/Plan_Node.thy ===== *)
theory Plan_Node
  imports Vla_Node
begin

text \<open>
  The leaf \<open>plan-action\<close> of \<open>src/bt/runtime.cpp\<close> with the planner's request and result
  (\<open>include/bt/planner.hpp\<close>) and the small conversions of \<open>src/bt/planner.cpp\<close> it uses. The planner is
  used through \<open>planner_ops\<close>: \<open>plan\<close> and \<open>derive_seed\<close> on the outside world.
\<close>

unbundle bit_operations_syntax

datatype planner_backend = PB_mcts | PB_mppi | PB_ilqr

datatype planner_ilqr_derivatives_mode = PD_analytic | PD_finite_diff

datatype planner_status = PS_ok | PS_timeout | PS_noaction | PS_error

record planner_action =
  pa_action_schema :: string
  pa_u :: "double list"

record planner_constraints =
  pc_max_du :: "double list"
  pc_smoothness_weight :: double
  pc_collision_weight :: double
  pc_goal_tolerance :: double
  pc_has_smoothness_weight :: bool
  pc_has_collision_weight :: bool
  pc_has_goal_tolerance :: bool

record planner_mcts_config =
  mc_c_ucb :: double
  mc_pw_k :: double
  mc_pw_alpha :: double
  mc_max_depth :: i64
  mc_gamma :: double
  mc_rollout_policy :: string
  mc_action_sampler :: string

record planner_mppi_config =
  mp_lambda :: double
  mp_sigma :: "double list"
  mp_n_samples :: i64
  mp_n_elite :: i64

record planner_ilqr_config =
  il_max_iters :: i64
  il_reg_init :: double
  il_reg_factor :: double
  il_tol_cost :: double
  il_tol_grad :: double
  il_derivatives :: planner_ilqr_derivatives_mode
  il_fd_eps :: double

record planner_request =
  pr_schema_version :: string
  pr_planner :: planner_backend
  pr_model_service :: string
  pr_state :: "double list"
  pr_budget_ms :: i64
  pr_work_max :: i64
  pr_horizon :: i64
  pr_dt_ms :: i64
  pr_constraints :: planner_constraints
  pr_top_k :: i64
  pr_seed :: u64
  pr_safe_action :: planner_action
  pr_action_schema :: string
  pr_mcts :: planner_mcts_config
  pr_mppi :: planner_mppi_config
  pr_ilqr :: planner_ilqr_config
  pr_run_id :: string
  pr_tick_index :: nat
  pr_node_name :: string
  pr_state_key :: string

record planner_top_choice_mcts =
  tm_action :: planner_action
  tm_visits :: i64
  tm_q :: double

record planner_top_choice_mppi =
  tp_action :: planner_action
  tp_weight :: double
  tp_cost :: double

record planner_trace_mcts =
  ptm_available :: bool
  ptm_root_visits :: i64
  ptm_root_children :: i64
  ptm_widen_added :: i64
  ptm_top_k :: "planner_top_choice_mcts list"

record planner_trace_mppi =
  ptp_available :: bool
  ptp_n_samples :: i64
  ptp_horizon :: i64
  ptp_top_k :: "planner_top_choice_mppi list"

record planner_trace_ilqr =
  pti_available :: bool
  pti_iters :: i64
  pti_cost_init :: double
  pti_cost_final :: double
  pti_reg_final :: double

record planner_stats =
  pst_budget_ms :: i64
  pst_time_used_ms :: i64
  pst_work_done :: i64
  pst_overrun :: bool
  pst_note :: string

record planner_result =
  pl_planner :: planner_backend
  pl_status :: planner_status
  pl_action :: planner_action
  pl_confidence :: double
  pl_stats :: planner_stats
  pl_mcts :: planner_trace_mcts
  pl_mppi :: planner_trace_mppi
  pl_ilqr :: planner_trace_ilqr
  pl_error :: string

record 'w planner_ops =
  planner_plan :: "planner_request \<Rightarrow> 'w \<Rightarrow> (exn + planner_result) \<times> 'w"
  planner_derive_seed :: "string \<Rightarrow> nat \<Rightarrow> 'w \<Rightarrow> u64"

fun planner_status_name :: "planner_status \<Rightarrow> string" where
  "planner_status_name PS_ok = ''ok''"
| "planner_status_name PS_timeout = ''timeout''"
| "planner_status_name PS_noaction = ''noaction''"
| "planner_status_name PS_error = ''error''"

fun planner_backend_name :: "planner_backend \<Rightarrow> string" where
  "planner_backend_name PB_mcts = ''mcts''"
| "planner_backend_name PB_mppi = ''mppi''"
| "planner_backend_name PB_ilqr = ''ilqr''"

text \<open>\<open>normalized_token\<close>: colons dropped, dashes to underscores, ASCII lower case.\<close>

definition lower_char :: "char \<Rightarrow> char" where
  "lower_char c = (let n = of_char c :: nat in if 65 \<le> n \<and> n \<le> 90 then char_of (n + 32) else c)"

definition normalized_token :: "string \<Rightarrow> string" where
  "normalized_token text =
     map (\<lambda>c. if c = CHR ''-'' then CHR ''_'' else lower_char c) (filter (\<lambda>c. c \<noteq> CHR '':'') text)"

definition planner_backend_from_string :: "string \<Rightarrow> planner_backend option" where
  "planner_backend_from_string text =
     (let norm = normalized_token text in
      if norm = ''mcts'' then Some PB_mcts else if norm = ''mppi'' then Some PB_mppi
      else if norm = ''ilqr'' then Some PB_ilqr else None)"

definition planner_ilqr_derivatives_mode_from_string :: "string \<Rightarrow> planner_ilqr_derivatives_mode option" where
  "planner_ilqr_derivatives_mode_from_string text =
     (let norm = normalized_token text in
      if norm = ''analytic'' then Some PD_analytic
      else if norm = ''finite_diff'' \<or> norm = ''fd'' then Some PD_finite_diff else None)"

definition derive_seed :: "u64 \<Rightarrow> string \<Rightarrow> nat \<Rightarrow> u64" where
  "derive_seed base_seed node_name tick_index =
     (let golden = 0x9e3779b97f4a7c15;
          s1 = base_seed XOR (fnv1a_64 node_name + golden + push_bit 6 base_seed + drop_bit 2 base_seed);
          s2 = s1 XOR (word_of_nat tick_index + golden + push_bit 6 s1 + drop_bit 2 s1)
      in if s2 = 0 then golden else s2)"

subsection \<open>Options\<close>

record plan_options =
  po_request :: planner_request
  po_state_key :: string
  po_action_key :: string
  po_model_service :: string
  po_meta_key :: string
  po_seed_key :: string
  po_safe_action_key :: string
  po_sigma_key :: string
  po_max_du_key :: string

definition planner_request_default :: planner_request where
  "planner_request_default = \<lparr>pr_schema_version = ''planner.request.v1'', pr_planner = PB_mcts,
     pr_model_service = ''toy-1d'', pr_state = [], pr_budget_ms = 20, pr_work_max = 0, pr_horizon = 0, pr_dt_ms = 0,
     pr_constraints = \<lparr>pc_max_du = [], pc_smoothness_weight = 0, pc_collision_weight = 0, pc_goal_tolerance = 0,
       pc_has_smoothness_weight = False, pc_has_collision_weight = False, pc_has_goal_tolerance = False\<rparr>,
     pr_top_k = 3, pr_seed = 0, pr_safe_action = \<lparr>pa_action_schema = [], pa_u = []\<rparr>, pr_action_schema = [],
     pr_mcts = \<lparr>mc_c_ucb = 0x3FF3333333333333, mc_pw_k = 0x4000000000000000, mc_pw_alpha = 0x3FE0000000000000,
       mc_max_depth = 25, mc_gamma = 0x3FEE666666666666, mc_rollout_policy = ''model_default'',
       mc_action_sampler = ''model_default''\<rparr>,
     pr_mppi = \<lparr>mp_lambda = fp_one, mp_sigma = [], mp_n_samples = 128, mp_n_elite = 0\<rparr>,
     pr_ilqr = \<lparr>il_max_iters = 30, il_reg_init = fp_one, il_reg_factor = 0x4024000000000000,
       il_tol_cost = 0x3F1A36E2EB1C432D, il_tol_grad = 0x3F1A36E2EB1C432D, il_derivatives = PD_analytic,
       il_fd_eps = 0x3F1A36E2EB1C432D\<rparr>,
     pr_run_id = ''default'', pr_tick_index = 0, pr_node_name = ''planner'', pr_state_key = []\<rparr>"

definition plan_options_default :: "node \<Rightarrow> ('w, 'p) tick_context \<Rightarrow> plan_options" where
  "plan_options_default n c = \<lparr>
     po_request = planner_request_default\<lparr>
       pr_node_name := (if nd_leaf_name n = [] then ''plan-action-'' @ nat_str (nd_id n) else nd_leaf_name n),
       pr_tick_index := cx_tick_index c, pr_run_id := instance_run_id c\<rparr>,
     po_state_key = ''state'', po_action_key = ''action'', po_model_service = ''toy-1d'', po_meta_key = [],
     po_seed_key = [], po_safe_action_key = [], po_sigma_key = [], po_max_du_key = []\<rparr>"

definition set_plan_option :: "string \<Rightarrow> string \<Rightarrow> lisp_value \<Rightarrow> plan_options \<Rightarrow> plan_options outcome" where
  "set_plan_option raw key v op =
     (if key = ''name'' then set_text v ''plan-action :name'' (\<lambda>x. op\<lparr>po_request := (po_request op)\<lparr>pr_node_name := x\<rparr>\<rparr>)
      else if key = ''planner'' then
        (case arg_as_text v ''plan-action :planner'' of
           Inl m \<Rightarrow> Throw (Std_exception m)
         | Inr s \<Rightarrow>
             (case planner_backend_from_string s of
                None \<Rightarrow> Throw (Std_exception (''plan-action: unsupported planner: '' @ s))
              | Some b \<Rightarrow> Ret (op\<lparr>po_request := (po_request op)\<lparr>pr_planner := b\<rparr>\<rparr>)))
      else if key = ''budget_ms'' then set_int v ''plan-action :budget_ms'' (\<lambda>x. op\<lparr>po_request := (po_request op)\<lparr>pr_budget_ms := x\<rparr>\<rparr>)
      else if key = ''work_max'' \<or> key = ''iters_max'' then set_int v ''plan-action :work_max'' (\<lambda>x. op\<lparr>po_request := (po_request op)\<lparr>pr_work_max := x\<rparr>\<rparr>)
      else if key = ''horizon'' then set_int v ''plan-action :horizon'' (\<lambda>x. op\<lparr>po_request := (po_request op)\<lparr>pr_horizon := x\<rparr>\<rparr>)
      else if key = ''dt_ms'' then set_int v ''plan-action :dt_ms'' (\<lambda>x. op\<lparr>po_request := (po_request op)\<lparr>pr_dt_ms := x\<rparr>\<rparr>)
      else if key = ''model_service'' then set_text v ''plan-action :model_service'' (\<lambda>x. op\<lparr>po_model_service := x\<rparr>)
      else if key = ''state_key'' then set_text v ''plan-action :state_key'' (\<lambda>x. op\<lparr>po_state_key := x\<rparr>)
      else if key = ''action_key'' then set_text v ''plan-action :action_key'' (\<lambda>x. op\<lparr>po_action_key := x\<rparr>)
      else if key = ''meta_key'' then set_text v ''plan-action :meta_key'' (\<lambda>x. op\<lparr>po_meta_key := x\<rparr>)
      else if key = ''seed_key'' then set_text v ''plan-action :seed_key'' (\<lambda>x. op\<lparr>po_seed_key := x\<rparr>)
      else if key = ''safe_action_key'' then set_text v ''plan-action :safe_action_key'' (\<lambda>x. op\<lparr>po_safe_action_key := x\<rparr>)
      else if key = ''safe_action'' \<or> key = ''fallback_action'' then set_number v ''plan-action :safe_action'' (\<lambda>x.
        op\<lparr>po_request := (po_request op)\<lparr>pr_safe_action := (pr_safe_action (po_request op))\<lparr>pa_u := [x]\<rparr>\<rparr>\<rparr>)
      else if key = ''action_schema'' then set_text v ''plan-action :action_schema'' (\<lambda>x. op\<lparr>po_request := (po_request op)\<lparr>pr_action_schema := x\<rparr>\<rparr>)
      else if key = ''top_k'' then set_int v ''plan-action :top_k'' (\<lambda>x. op\<lparr>po_request := (po_request op)\<lparr>pr_top_k := x\<rparr>\<rparr>)
      else if key = ''gamma'' then set_number v ''plan-action :gamma'' (\<lambda>x. op\<lparr>po_request := (po_request op)\<lparr>pr_mcts := (pr_mcts (po_request op))\<lparr>mc_gamma := x\<rparr>\<rparr>\<rparr>)
      else if key = ''max_depth'' then set_int v ''plan-action :max_depth'' (\<lambda>x. op\<lparr>po_request := (po_request op)\<lparr>pr_mcts := (pr_mcts (po_request op))\<lparr>mc_max_depth := x\<rparr>\<rparr>\<rparr>)
      else if key = ''c_ucb'' then set_number v ''plan-action :c_ucb'' (\<lambda>x. op\<lparr>po_request := (po_request op)\<lparr>pr_mcts := (pr_mcts (po_request op))\<lparr>mc_c_ucb := x\<rparr>\<rparr>\<rparr>)
      else if key = ''pw_k'' then set_number v ''plan-action :pw_k'' (\<lambda>x. op\<lparr>po_request := (po_request op)\<lparr>pr_mcts := (pr_mcts (po_request op))\<lparr>mc_pw_k := x\<rparr>\<rparr>\<rparr>)
      else if key = ''pw_alpha'' then set_number v ''plan-action :pw_alpha'' (\<lambda>x. op\<lparr>po_request := (po_request op)\<lparr>pr_mcts := (pr_mcts (po_request op))\<lparr>mc_pw_alpha := x\<rparr>\<rparr>\<rparr>)
      else if key = ''rollout_policy'' then set_text v ''plan-action :rollout_policy'' (\<lambda>x. op\<lparr>po_request := (po_request op)\<lparr>pr_mcts := (pr_mcts (po_request op))\<lparr>mc_rollout_policy := x\<rparr>\<rparr>\<rparr>)
      else if key = ''action_sampler'' then set_text v ''plan-action :action_sampler'' (\<lambda>x. op\<lparr>po_request := (po_request op)\<lparr>pr_mcts := (pr_mcts (po_request op))\<lparr>mc_action_sampler := x\<rparr>\<rparr>\<rparr>)
      else if key = ''lambda'' then set_number v ''plan-action :lambda'' (\<lambda>x. op\<lparr>po_request := (po_request op)\<lparr>pr_mppi := (pr_mppi (po_request op))\<lparr>mp_lambda := x\<rparr>\<rparr>\<rparr>)
      else if key = ''sigma'' then set_number v ''plan-action :sigma'' (\<lambda>x. op\<lparr>po_request := (po_request op)\<lparr>pr_mppi := (pr_mppi (po_request op))\<lparr>mp_sigma := [x]\<rparr>\<rparr>\<rparr>)
      else if key = ''sigma_key'' then set_text v ''plan-action :sigma_key'' (\<lambda>x. op\<lparr>po_sigma_key := x\<rparr>)
      else if key = ''n_samples'' then set_int v ''plan-action :n_samples'' (\<lambda>x. op\<lparr>po_request := (po_request op)\<lparr>pr_mppi := (pr_mppi (po_request op))\<lparr>mp_n_samples := x\<rparr>\<rparr>\<rparr>)
      else if key = ''n_elite'' then set_int v ''plan-action :n_elite'' (\<lambda>x. op\<lparr>po_request := (po_request op)\<lparr>pr_mppi := (pr_mppi (po_request op))\<lparr>mp_n_elite := x\<rparr>\<rparr>\<rparr>)
      else if key = ''max_iters'' then set_int v ''plan-action :max_iters'' (\<lambda>x. op\<lparr>po_request := (po_request op)\<lparr>pr_ilqr := (pr_ilqr (po_request op))\<lparr>il_max_iters := x\<rparr>\<rparr>\<rparr>)
      else if key = ''reg_init'' then set_number v ''plan-action :reg_init'' (\<lambda>x. op\<lparr>po_request := (po_request op)\<lparr>pr_ilqr := (pr_ilqr (po_request op))\<lparr>il_reg_init := x\<rparr>\<rparr>\<rparr>)
      else if key = ''reg_factor'' then set_number v ''plan-action :reg_factor'' (\<lambda>x. op\<lparr>po_request := (po_request op)\<lparr>pr_ilqr := (pr_ilqr (po_request op))\<lparr>il_reg_factor := x\<rparr>\<rparr>\<rparr>)
      else if key = ''tol_cost'' then set_number v ''plan-action :tol_cost'' (\<lambda>x. op\<lparr>po_request := (po_request op)\<lparr>pr_ilqr := (pr_ilqr (po_request op))\<lparr>il_tol_cost := x\<rparr>\<rparr>\<rparr>)
      else if key = ''tol_grad'' then set_number v ''plan-action :tol_grad'' (\<lambda>x. op\<lparr>po_request := (po_request op)\<lparr>pr_ilqr := (pr_ilqr (po_request op))\<lparr>il_tol_grad := x\<rparr>\<rparr>\<rparr>)
      else if key = ''fd_eps'' then set_number v ''plan-action :fd_eps'' (\<lambda>x. op\<lparr>po_request := (po_request op)\<lparr>pr_ilqr := (pr_ilqr (po_request op))\<lparr>il_fd_eps := x\<rparr>\<rparr>\<rparr>)
      else if key = ''derivatives'' then
        (case arg_as_text v ''plan-action :derivatives'' of
           Inl m \<Rightarrow> Throw (Std_exception m)
         | Inr s \<Rightarrow>
             (case planner_ilqr_derivatives_mode_from_string s of
                None \<Rightarrow> Throw (Std_exception (''plan-action: unsupported derivatives mode: '' @ s))
              | Some m \<Rightarrow> Ret (op\<lparr>po_request := (po_request op)\<lparr>pr_ilqr := (pr_ilqr (po_request op))\<lparr>il_derivatives := m\<rparr>\<rparr>\<rparr>)))
      else if key = ''max_du'' then set_number v ''plan-action :max_du'' (\<lambda>x. op\<lparr>po_request := (po_request op)\<lparr>pr_constraints := (pr_constraints (po_request op))\<lparr>pc_max_du := [x]\<rparr>\<rparr>\<rparr>)
      else if key = ''max_du_key'' then set_text v ''plan-action :max_du_key'' (\<lambda>x. op\<lparr>po_max_du_key := x\<rparr>)
      else if key = ''smoothness_weight'' then set_number v ''plan-action :smoothness_weight'' (\<lambda>x. op\<lparr>po_request := (po_request op)\<lparr>pr_constraints := (pr_constraints (po_request op))\<lparr>pc_smoothness_weight := x, pc_has_smoothness_weight := True\<rparr>\<rparr>\<rparr>)
      else if key = ''collision_weight'' then set_number v ''plan-action :collision_weight'' (\<lambda>x. op\<lparr>po_request := (po_request op)\<lparr>pr_constraints := (pr_constraints (po_request op))\<lparr>pc_collision_weight := x, pc_has_collision_weight := True\<rparr>\<rparr>\<rparr>)
      else if key = ''goal_tolerance'' then set_number v ''plan-action :goal_tolerance'' (\<lambda>x. op\<lparr>po_request := (po_request op)\<lparr>pr_constraints := (pr_constraints (po_request op))\<lparr>pc_goal_tolerance := x, pc_has_goal_tolerance := True\<rparr>\<rparr>\<rparr>)
      else Throw (Std_exception (''plan-action: unknown option: '' @ raw)))"


subsection \<open>Executing the leaf\<close>

definition plan_error :: "node \<Rightarrow> string \<Rightarrow> ('w, 'p) tick_context \<Rightarrow> ('w, 'p, 'a) step" where
  "plan_error n msg c =
     (Inl (Ret Failure), emit_log L_error ''planner'' msg
        (emit_trace ((make_trace_event TE_error)\<lparr>te_node := nd_id n, te_message := msg\<rparr>) c))"

definition plan_state :: "node \<Rightarrow> plan_options \<Rightarrow> ('w, 'p) tick_context \<Rightarrow> ('w, 'p, double list) step" where
  "plan_state n op c =
     (let (entry, c) = cx_bb_get (po_state_key op) c in
      case entry of
        None \<Rightarrow> plan_error n (''plan-action: missing state key: '' @ po_state_key op) c
      | Some e \<Rightarrow>
          (case state_from_blackboard (be_value e) ''plan-action'' of
             Inl m \<Rightarrow> plan_error n m c
           | Inr state \<Rightarrow> (Inr state, c)))"

text \<open>An optional vector read from the blackboard: a missing key keeps the default, a wrong type warns.\<close>

definition plan_vector_key ::
  "string \<Rightarrow> string \<Rightarrow> string \<Rightarrow> double list \<Rightarrow> ('w, 'p) tick_context \<Rightarrow> double list \<times> ('w, 'p) tick_context" where
  "plan_vector_key key loc option_name dflt c =
     (if key = [] then (dflt, c)
      else
        let (entry, c) = cx_bb_get key c in
        case entry of
          None \<Rightarrow> (dflt, c)
        | Some e \<Rightarrow>
            (case state_from_blackboard (be_value e) loc of
               Inl m \<Rightarrow> (dflt, emit_log L_warn ''planner'' (''plan-action: invalid '' @ option_name @ '': '' @ m) c)
             | Inr v \<Rightarrow> (v, c)))"

definition plan_seed ::
  "'w planner_ops \<Rightarrow> plan_options \<Rightarrow> ('w, 'p) tick_context \<Rightarrow> ('w, 'p, u64) step" where
  "plan_seed ops op c =
     (let derived = planner_derive_seed ops (pr_node_name (po_request op)) (cx_tick_index c) in
      if po_seed_key op = [] then (Inr (derived (cx_world c)), c)
      else
        let (entry, c) = cx_bb_get (po_seed_key op) c in
        case entry of
          None \<Rightarrow> (Inr (derived (cx_world c)), c)
        | Some e \<Rightarrow>
            ebind (step_outcome (seed_from_blackboard (be_value e)) c) (\<lambda>seed c.
              (Inr (case seed of Some w \<Rightarrow> w | None \<Rightarrow> derived (cx_world c)), c)))"

definition build_plan_request ::
  "'w planner_ops \<Rightarrow> node \<Rightarrow> plan_options \<Rightarrow> ('w, 'p) tick_context \<Rightarrow> ('w, 'p, planner_request) step" where
  "build_plan_request ops n op c =
     ebind (plan_state n op c) (\<lambda>state c.
       let rq = po_request op;
           (safe, c) = plan_vector_key (po_safe_action_key op) ''plan-action safe_action'' ''safe_action_key'' (pa_u (pr_safe_action rq)) c;
           (sigma, c) = plan_vector_key (po_sigma_key op) ''plan-action sigma'' ''sigma_key'' (mp_sigma (pr_mppi rq)) c;
           (max_du, c) = plan_vector_key (po_max_du_key op) ''plan-action max_du'' ''max_du_key'' (pc_max_du (pr_constraints rq)) c;
           schema = (if safe \<noteq> [] then (if pr_action_schema rq = [] then ''action.u.v1'' else pr_action_schema rq)
             else pa_action_schema (pr_safe_action rq))
       in ebind (plan_seed ops op c) (\<lambda>seed c.
            (Inr (rq\<lparr>pr_model_service := po_model_service op, pr_state_key := po_state_key op, pr_state := state,
               pr_safe_action := \<lparr>pa_action_schema = schema, pa_u = safe\<rparr>,
               pr_mppi := (pr_mppi rq)\<lparr>mp_sigma := sigma\<rparr>,
               pr_constraints := (pr_constraints rq)\<lparr>pc_max_du := max_du\<rparr>, pr_seed := seed\<rparr>), c)))"

definition action_json :: "planner_action \<Rightarrow> string" where
  "action_json a =
     ''{'' @ jkey ''action_schema'' @ quoted (json_escape (pa_action_schema a)) @ '','' @
     jkey ''u'' @ ''['' @ comma_join (map fp_str (pa_u a)) @ '']}''"

definition top_choice_mcts_json :: "planner_top_choice_mcts \<Rightarrow> string" where
  "top_choice_mcts_json t =
     ''{'' @ jkey ''action'' @ action_json (tm_action t) @ '','' @ jkey ''visits'' @ i64_str (tm_visits t) @ '','' @
     jkey ''q'' @ fp_str (tm_q t) @ ''}''"

definition top_choice_mppi_json :: "planner_top_choice_mppi \<Rightarrow> string" where
  "top_choice_mppi_json t =
     ''{'' @ jkey ''action'' @ action_json (tp_action t) @ '','' @ jkey ''weight'' @ fp_str (tp_weight t) @ '','' @
     jkey ''cost'' @ fp_str (tp_cost t) @ ''}''"

definition plan_trace_json :: "planner_result \<Rightarrow> string" where
  "plan_trace_json r =
     (if pl_planner r = PB_mcts \<and> ptm_available (pl_mcts r) then
        let t = pl_mcts r in
        '','' @ jkey ''trace'' @ ''{'' @ jkey ''root_visits'' @ i64_str (ptm_root_visits t) @ '','' @
        jkey ''root_children'' @ i64_str (ptm_root_children t) @ '','' @
        jkey ''widen_added'' @ i64_str (ptm_widen_added t) @
        (if ptm_top_k t \<noteq> [] then '','' @ jkey ''top_k'' @ ''['' @ comma_join (map top_choice_mcts_json (ptm_top_k t)) @ '']'' else []) @
        ''}''
      else if pl_planner r = PB_mppi \<and> ptp_available (pl_mppi r) then
        let t = pl_mppi r in
        '','' @ jkey ''trace'' @ ''{'' @ jkey ''n_samples'' @ i64_str (ptp_n_samples t) @ '','' @
        jkey ''horizon'' @ i64_str (ptp_horizon t) @
        (if ptp_top_k t \<noteq> [] then '','' @ jkey ''top_k'' @ ''['' @ comma_join (map top_choice_mppi_json (ptp_top_k t)) @ '']'' else []) @
        ''}''
      else if pl_planner r = PB_ilqr \<and> pti_available (pl_ilqr r) then
        let t = pl_ilqr r in
        '','' @ jkey ''trace'' @ ''{'' @ jkey ''iters'' @ i64_str (pti_iters t) @ '','' @
        jkey ''cost_init'' @ fp_str (pti_cost_init t) @ '','' @ jkey ''cost_final'' @ fp_str (pti_cost_final t) @ '','' @
        jkey ''reg_final'' @ fp_str (pti_reg_final t) @ ''}''
      else [])"

definition plan_meta_to_json :: "planner_result \<Rightarrow> planner_request \<Rightarrow> string" where
  "plan_meta_to_json r rq =
     ''{'' @ jkey ''schema_version'' @ quoted ''planner.v1'' @ '','' @
     jkey ''planner'' @ quoted (planner_backend_name (pl_planner r)) @ '','' @
     jkey ''status'' @ quoted (planner_status_name (pl_status r)) @ '','' @
     jkey ''tick_index'' @ nat_str (pr_tick_index rq) @ '','' @ jkey ''seed'' @ nat_str (unat (pr_seed rq)) @ '','' @
     jkey ''budget_ms'' @ i64_str (pst_budget_ms (pl_stats r)) @ '','' @
     jkey ''time_used_ms'' @ i64_str (pst_time_used_ms (pl_stats r)) @ '','' @
     jkey ''work_done'' @ i64_str (pst_work_done (pl_stats r)) @ '','' @
     jkey ''confidence'' @ fp_str (pl_confidence r) @ '','' @
     jkey ''action'' @ action_json (pl_action r) @ plan_trace_json r @
     (if pst_overrun (pl_stats r) then '','' @ jkey ''overrun'' @ ''true'' else []) @
     (if pst_note (pl_stats r) \<noteq> [] then '','' @ jkey ''note'' @ quoted (json_escape (pst_note (pl_stats r))) else []) @
     (if pl_error r \<noteq> [] then '','' @ jkey ''error'' @ quoted (json_escape (pl_error r)) else []) @ ''}''"

definition planner_action_to_blackboard :: "planner_action \<Rightarrow> bb_value" where
  "planner_action_to_blackboard a = (case pa_u a of [x] \<Rightarrow> BB_float x | _ \<Rightarrow> BB_vec (pa_u a))"

definition with_error :: "string \<Rightarrow> planner_result \<Rightarrow> string" where
  "with_error msg r = msg @ (if pl_error r \<noteq> [] then '': '' @ pl_error r else [])"

text \<open>The end of the planner call: the elapsed time is only read when there is an event log.\<close>

definition emit_planner_call_end ::
  "time_ns \<Rightarrow> (double \<Rightarrow> string) \<Rightarrow> ('w, 'p) tick_context \<Rightarrow> ('w, 'p) tick_context" where
  "emit_planner_call_end started data c =
     (if ob_events (cx_obs c) = None then c
      else let (t, c) = tick_now c in emit_event_data ''planner_call_end'' (data (ms_of_ns (t - started))) c)"

definition finish_plan ::
  "node \<Rightarrow> plan_options \<Rightarrow> planner_request \<Rightarrow> planner_result \<Rightarrow> ('w, 'p) tick_context \<Rightarrow> ('w, 'p, status outcome) step" where
  "finish_plan n op rq r c =
     (let c = (if pl_status r = PS_timeout
            then emit_outcome_event ''planner_timeout'' ''plan-action'' (Some (nd_id n)) None (Some ''timeout'') c else c)
      in if pa_u (pl_action r) = [] then plan_error n (with_error ''plan-action: planner returned empty action'' r) c
         else if \<not> list_all fp_is_finite (pa_u (pl_action r)) then plan_error n ''plan-action: non-finite action value'' c
         else
           let c = cx_bb_put (po_action_key op) (planner_action_to_blackboard (pl_action r)) (pr_node_name rq) c;
               c = (if po_meta_key op \<noteq> []
                 then cx_bb_put (po_meta_key op) (BB_string (plan_meta_to_json r rq)) (pr_node_name rq) c else c);
               c = emit_log L_info ''planner''
                 (''planner='' @ planner_backend_name (pl_planner r) @ '' status='' @ planner_status_name (pl_status r) @
                  '' action='' @ comma_join (map fp_str (pa_u (pl_action r))) @
                  '' confidence='' @ fp_str (pl_confidence r) @ '' work='' @ i64_str (pst_work_done (pl_stats r)) @
                  '' time_ms='' @ i64_str (pst_time_used_ms (pl_stats r))) c
           in if pl_status r \<noteq> PS_ok then
                let msg = with_error ''plan-action: planner status is not :ok'' r;
                    k = (if pl_status r = PS_error then TE_error else TE_warning)
                in (Inl (Ret Failure), emit_log (if pl_status r = PS_error then L_error else L_warn) ''planner'' msg
                      (emit_trace ((make_trace_event k)\<lparr>te_node := nd_id n, te_message := msg\<rparr>) c))
              else (Inr (Ret Success), c))"

definition call_planner ::
  "'w planner_ops \<Rightarrow> node \<Rightarrow> plan_options \<Rightarrow> planner_request \<Rightarrow> ('w, 'p) tick_context \<Rightarrow> ('w, 'p, status outcome) step" where
  "call_planner ops n op rq c =
     (let (allowed, c) = budget_allows_decision_point (nd_id n) ''planner_call_start'' c in
      if \<not> allowed then (Inl (Ret Failure), c)
      else
        let (started, c) = tick_now c;
            head = ''{'' @ jkey ''node_id'' @ nat_str (nd_id n) @ '','' @ jkey ''planner'';
            c = emit_event_data ''planner_call_start''
              (head @ quoted (planner_backend_name (pr_planner rq)) @ '','' @ jkey ''budget_ms'' @ i64_str (pr_budget_ms rq) @ ''}'') c;
            c = c\<lparr>cx_planner_calls := Suc (cx_planner_calls c)\<rparr>;
            (out, w) = planner_plan ops rq (cx_world c);
            c = c\<lparr>cx_world := w\<rparr>
        in case out of
             Inl Other_exception \<Rightarrow> (Inl (Throw Other_exception), c)
           | Inl (Std_exception m) \<Rightarrow>
               plan_error n (''plan-action: planner threw: '' @ m)
                 (emit_planner_call_end started (\<lambda>ms.
                    head @ quoted (planner_backend_name (pr_planner rq)) @ '','' @ jkey ''status'' @ quoted ''error'' @ '','' @
                    jkey ''time_used_ms'' @ fp_str ms @ '','' @ jkey ''message'' @ quoted (json_escape m) @ ''}'') c)
           | Inr r \<Rightarrow>
               finish_plan n op rq r
                 (emit_planner_call_end started (\<lambda>ms.
                    head @ quoted (planner_backend_name (pl_planner r)) @ '','' @
                    jkey ''status'' @ quoted (planner_status_name (pl_status r)) @ '','' @
                    jkey ''time_used_ms'' @ fp_str ms @ '','' @ jkey ''work_done'' @ i64_str (pst_work_done (pl_stats r)) @ ''}'') c))"

definition execute_plan_action ::
  "'w planner_ops option \<Rightarrow> node \<Rightarrow> lisp_value list \<Rightarrow> ('w, 'p) tick_context \<Rightarrow> status outcome \<times> ('w, 'p) tick_context" where
  "execute_plan_action svc n args c =
     (case svc of
        None \<Rightarrow> ends_with (plan_error n ''planner service is not available'' c)
      | Some ops \<Rightarrow>
          ends_with
            (ebind (step_outcome (parse_options ''plan-action'' set_plan_option args (plan_options_default n c)) c) (\<lambda>op c.
             ebind (build_plan_request ops n op c) (call_planner ops n op))))"

end
