(* ===== verification/Gc.thy ===== *)
theory Gc
  imports Ast Blackboard
begin

text \<open>
  The mark-and-sweep collector of the Lisp heap (\<open>include/muslisp/gc.hpp\<close>, \<open>src/gc.cpp\<close>) and the
  allocating constructors \<open>make_*\<close> of \<open>src/value.cpp\<close> that the runtime calls.

  An address is a number, zero the null pointer. The intrusive list of nodes is a list of pairs,
  most recently linked first. A node keeps what the collector sees of it: its mark, the pointers its
  \<open>gc_mark_children\<close> visits, its \<open>gc_size_bytes\<close>. A root slot is a variable that holds a pointer;
  \<open>gh_slot\<close> is the content of these variables. Following a pointer to a node that is not allocated
  is undefined behaviour (\<open>Undef\<close>).
\<close>

type_synonym addr = nat

record gc_node =
  gn_marked :: bool
  gn_children :: "addr list"
  gn_size :: nat

datatype gc_policy = P_default | P_between_ticks | P_manual | P_fail_on_tick_gc

datatype gc_reason = R_threshold | R_requested | R_forced | R_between_ticks

record gc_stats_snapshot =
  gs_total_allocated_objects :: nat
  gs_live_objects_after_last_gc :: nat
  gs_bytes_allocated :: nat
  gs_next_gc_threshold :: nat
  gs_collection_count :: nat
  gs_total_pause_ns :: nat
  gs_freed_objects_total :: nat
  gs_forced_collection_count :: nat

record gc_lifecycle_event =
  ge_begin :: bool
  ge_collection_id :: nat
  ge_reason :: gc_reason
  ge_policy :: gc_policy
  ge_forced :: bool
  ge_in_tick :: bool
  ge_heap_live_bytes_before :: nat
  ge_heap_live_bytes_after :: nat
  ge_live_objects_before :: nat
  ge_live_objects_after :: nat
  ge_freed_objects :: nat
  ge_mark_time_ns :: nat
  ge_sweep_time_ns :: nat
  ge_pause_time_ns :: nat

text \<open>
  \<open>gh_clock\<close> is the steady clock as the sequence of its readings and \<open>gh_delivered\<close> what the
  lifecycle listener was called with. \<open>gh_symbols\<close>, \<open>gh_nil\<close> and \<open>gh_booleans\<close> are the symbol table
  and the static variables of \<open>make_nil\<close> and \<open>make_boolean\<close>; \<open>gh_object_size\<close> is \<open>sizeof(object)\<close>.
\<close>

record gc_heap =
  gh_nodes :: "(addr, gc_node) alist"
  gh_allocated_objects_current :: nat
  gh_total_allocated_objects :: nat
  gh_live_objects_after_last_gc :: nat
  gh_bytes_allocated :: nat
  gh_next_gc_threshold :: nat
  gh_collection_requested :: bool
  gh_requested_reason :: gc_reason
  gh_policy :: gc_policy
  gh_tick_depth :: nat
  gh_collection_count :: nat
  gh_total_pause_ns :: nat
  gh_freed_objects_total :: nat
  gh_forced_collection_count :: nat
  gh_listener :: bool
  gh_delivered :: "gc_lifecycle_event list"
  gh_root_slots :: "nat list"
  gh_slot :: "nat \<Rightarrow> addr"
  gh_root_envs :: "addr list"
  gh_symbols :: "(string, addr) alist"
  gh_nil :: "addr option"
  gh_booleans :: "(addr \<times> addr) option"
  gh_next_addr :: addr
  gh_object_size :: nat
  gh_clock :: "nat \<Rightarrow> nat"
  gh_clock_reads :: nat

definition gc_new :: "nat \<Rightarrow> (nat \<Rightarrow> nat) \<Rightarrow> gc_heap" where
  "gc_new object_size clock =
     \<lparr>gh_nodes = [], gh_allocated_objects_current = 0, gh_total_allocated_objects = 0,
      gh_live_objects_after_last_gc = 0, gh_bytes_allocated = 0, gh_next_gc_threshold = 256,
      gh_collection_requested = False, gh_requested_reason = R_requested, gh_policy = P_default,
      gh_tick_depth = 0, gh_collection_count = 0, gh_total_pause_ns = 0, gh_freed_objects_total = 0,
      gh_forced_collection_count = 0, gh_listener = False, gh_delivered = [], gh_root_slots = [],
      gh_slot = (\<lambda>_. 0), gh_root_envs = [], gh_symbols = [], gh_nil = None, gh_booleans = None,
      gh_next_addr = 1, gh_object_size = object_size, gh_clock = clock, gh_clock_reads = 0\<rparr>"

subsection \<open>Allocation\<close>

definition link_node :: "addr \<Rightarrow> gc_node \<Rightarrow> gc_heap \<Rightarrow> gc_heap" where
  "link_node a n h =
     (let h = h\<lparr>gh_nodes := (a, n) # gh_nodes h,
                gh_allocated_objects_current := Suc (gh_allocated_objects_current h),
                gh_total_allocated_objects := Suc (gh_total_allocated_objects h),
                gh_bytes_allocated := gh_bytes_allocated h + gn_size n\<rparr>
      in if gh_allocated_objects_current h > gh_next_gc_threshold h
         then h\<lparr>gh_collection_requested := True, gh_requested_reason := R_threshold\<rparr> else h)"

text \<open>\<open>gc::allocate\<close>: the new address was never used before.\<close>

definition gc_allocate :: "addr list \<Rightarrow> nat \<Rightarrow> gc_heap \<Rightarrow> addr \<times> gc_heap" where
  "gc_allocate children bytes h =
     (let a = gh_next_addr h in
      (a, link_node a \<lparr>gn_marked = False, gn_children = children, gn_size = bytes\<rparr>
            (h\<lparr>gh_next_addr := Suc a\<rparr>)))"

definition add_root_slot :: "nat \<Rightarrow> gc_heap \<Rightarrow> gc_heap" where
  "add_root_slot slot h = (if slot = 0 then h else h\<lparr>gh_root_slots := gh_root_slots h @ [slot]\<rparr>)"

text \<open>The last occurrence goes, as the search runs backwards.\<close>

definition remove_last :: "'a \<Rightarrow> 'a list \<Rightarrow> 'a list" where
  "remove_last x xs = rev (remove1 x (rev xs))"

definition remove_root_slot :: "nat \<Rightarrow> gc_heap \<Rightarrow> gc_heap" where
  "remove_root_slot slot h = h\<lparr>gh_root_slots := remove_last slot (gh_root_slots h)\<rparr>"

definition register_root_env :: "addr \<Rightarrow> gc_heap \<Rightarrow> gc_heap" where
  "register_root_env e h = (if e = 0 then h else h\<lparr>gh_root_envs := gh_root_envs h @ [e]\<rparr>)"

definition unregister_root_env :: "addr \<Rightarrow> gc_heap \<Rightarrow> gc_heap" where
  "unregister_root_env e h = h\<lparr>gh_root_envs := remove_last e (gh_root_envs h)\<rparr>"

text \<open>\<open>gc_root_scope\<close>: the destructor resizes the vector back, padding with null slots if it shrank.\<close>

definition root_scope_add :: "nat \<Rightarrow> gc_heap \<Rightarrow> gc_heap" where
  "root_scope_add slot h = h\<lparr>gh_root_slots := gh_root_slots h @ [slot]\<rparr>"

definition root_scope_exit :: "nat \<Rightarrow> gc_heap \<Rightarrow> gc_heap" where
  "root_scope_exit begin_index h =
     h\<lparr>gh_root_slots := take begin_index (gh_root_slots h) @ replicate (begin_index - length (gh_root_slots h)) 0\<rparr>"

definition make_object :: "addr list \<Rightarrow> gc_heap \<Rightarrow> addr \<times> gc_heap" where
  "make_object children h = gc_allocate children (gh_object_size h) h"

text \<open>
  The static variables of \<open>make_nil\<close> and \<open>make_boolean\<close> are the root slots 1, 2 and 3, which no
  other variable uses.
\<close>

definition root_static :: "nat \<Rightarrow> addr \<Rightarrow> gc_heap \<Rightarrow> gc_heap" where
  "root_static slot a h = add_root_slot slot (h\<lparr>gh_slot := (gh_slot h)(slot := a)\<rparr>)"

definition make_nil :: "gc_heap \<Rightarrow> addr \<times> gc_heap" where
  "make_nil h =
     (case gh_nil h of
        Some a \<Rightarrow> (a, h)
      | None \<Rightarrow> let (a, h) = make_object [] h in (a, root_static 1 a (h\<lparr>gh_nil := Some a\<rparr>)))"

definition make_boolean :: "bool \<Rightarrow> gc_heap \<Rightarrow> addr \<times> gc_heap" where
  "make_boolean v h =
     (case gh_booleans h of
        Some (t, f) \<Rightarrow> (if v then t else f, h)
      | None \<Rightarrow>
          let (t, h) = make_object [] h;
              h = root_static 2 t h;
              (f, h) = make_object [] h;
              h = root_static 3 f h
          in (if v then t else f, h\<lparr>gh_booleans := Some (t, f)\<rparr>))"

definition make_symbol :: "string \<Rightarrow> gc_heap \<Rightarrow> addr \<times> gc_heap" where
  "make_symbol name h =
     (case map_of (gh_symbols h) name of
        Some a \<Rightarrow> (a, h)
      | None \<Rightarrow> let (a, h) = make_object [] h in (a, h\<lparr>gh_symbols := (name, a) # gh_symbols h\<rparr>))"

text \<open>\<open>materialize_arg\<close> allocates as its kind says; integers, floats and strings are fresh objects.\<close>

definition make_arg :: "arg_value \<Rightarrow> gc_heap \<Rightarrow> addr \<times> gc_heap" where
  "make_arg a h =
     (case ar_kind a of
        A_nil \<Rightarrow> make_nil h
      | A_boolean \<Rightarrow> make_boolean (ar_bool a) h
      | A_integer \<Rightarrow> make_object [] h
      | A_floating \<Rightarrow> make_object [] h
      | A_symbol \<Rightarrow> make_symbol (ar_text a) h
      | A_string \<Rightarrow> make_object [] h)"

subsection \<open>Mark and sweep\<close>

text \<open>
  \<open>mark_node\<close> marks a node and then visits its children in turn; the pending visits of the
  recursion are the list.
\<close>

function mark_nodes :: "addr list \<Rightarrow> (addr, gc_node) alist \<Rightarrow> (addr, gc_node) alist outcome" where
  "mark_nodes [] ns = Ret ns"
| "mark_nodes (a # todo) ns =
     (if a = 0 then mark_nodes todo ns
      else case map_of ns a of
             None \<Rightarrow> Undef
           | Some n \<Rightarrow>
               if gn_marked n then mark_nodes todo ns
               else mark_nodes (gn_children n @ todo) (alist_put a (n\<lparr>gn_marked := True\<rparr>) ns))"
  by pat_completeness auto

definition unmarked :: "(addr, gc_node) alist \<Rightarrow> nat" where
  "unmarked ns = length (filter (\<lambda>(a, n). \<not> gn_marked n) ns)"

lemma unmarked_put:
  "map_of ns a = Some n \<Longrightarrow> \<not> gn_marked n \<Longrightarrow>
     Suc (unmarked (alist_put a (n\<lparr>gn_marked := True\<rparr>) ns)) = unmarked ns"
  by (induction ns) (auto simp: unmarked_def split: if_splits)

termination mark_nodes
proof (relation "measures [\<lambda>(todo, ns). unmarked ns, \<lambda>(todo, ns). length todo]", goal_cases)
  case (4 a todo ns n)
  then show ?case using unmarked_put [of ns a n] by simp
qed auto

declare mark_nodes.simps [simp del]

definition gc_roots :: "gc_heap \<Rightarrow> addr list" where
  "gc_roots h =
     map (gh_slot h) (filter (\<lambda>s. s \<noteq> 0) (gh_root_slots h)) @ gh_root_envs h @ map snd (gh_symbols h)"

definition sweep :: "gc_heap \<Rightarrow> nat \<times> gc_heap" where
  "sweep h =
     (let live = filter (\<lambda>(a, n). gn_marked n) (gh_nodes h);
          live_count = length live;
          freed = length (gh_nodes h) - live_count
      in (freed,
          h\<lparr>gh_nodes := map (\<lambda>(a, n). (a, n\<lparr>gn_marked := False\<rparr>)) live,
            gh_allocated_objects_current := live_count,
            gh_live_objects_after_last_gc := live_count,
            gh_bytes_allocated := sum_list (map (gn_size \<circ> snd) live),
            gh_next_gc_threshold := max (live_count * 2) 256,
            gh_collection_requested := False,
            gh_requested_reason := R_requested\<rparr>))"

definition in_tick :: "gc_heap \<Rightarrow> bool" where
  "in_tick h = (gh_tick_depth h > 0)"

definition gc_now :: "gc_heap \<Rightarrow> nat \<times> gc_heap" where
  "gc_now h = (gh_clock h (gh_clock_reads h), h\<lparr>gh_clock_reads := Suc (gh_clock_reads h)\<rparr>)"

definition emit_lifecycle :: "gc_lifecycle_event \<Rightarrow> gc_heap \<Rightarrow> gc_heap" where
  "emit_lifecycle e h = (if gh_listener h then h\<lparr>gh_delivered := gh_delivered h @ [e]\<rparr> else h)"

definition gc_begin_event :: "gc_reason \<Rightarrow> bool \<Rightarrow> gc_heap \<Rightarrow> gc_lifecycle_event" where
  "gc_begin_event reason forced h =
     \<lparr>ge_begin = True, ge_collection_id = Suc (gh_collection_count h), ge_reason = reason,
      ge_policy = gh_policy h, ge_forced = forced, ge_in_tick = in_tick h,
      ge_heap_live_bytes_before = gh_bytes_allocated h, ge_heap_live_bytes_after = 0,
      ge_live_objects_before = gh_allocated_objects_current h, ge_live_objects_after = 0,
      ge_freed_objects = 0, ge_mark_time_ns = 0, ge_sweep_time_ns = 0, ge_pause_time_ns = 0\<rparr>"

definition collect_impl :: "gc_reason \<Rightarrow> bool \<Rightarrow> gc_heap \<Rightarrow> gc_heap outcome" where
  "collect_impl reason forced h =
     (let (pause_start, h) = gc_now h;
          started = gc_begin_event reason forced h;
          h = emit_lifecycle started h;
          (mark_start, h) = gc_now h
      in case mark_nodes (gc_roots h) (gh_nodes h) of
           Throw e \<Rightarrow> Throw e
         | Undef \<Rightarrow> Undef
         | Diverge \<Rightarrow> Diverge
         | Ret ns \<Rightarrow>
             let (mark_end, h) = gc_now (h\<lparr>gh_nodes := ns\<rparr>);
                 (freed, h) = sweep h;
                 (sweep_end, h) = gc_now h;
                 h = h\<lparr>gh_collection_count := ge_collection_id started,
                       gh_total_pause_ns := gh_total_pause_ns h + (sweep_end - pause_start),
                       gh_freed_objects_total := gh_freed_objects_total h + freed,
                       gh_forced_collection_count := (if forced then Suc else id) (gh_forced_collection_count h)\<rparr>
             in Ret (emit_lifecycle
                  (started\<lparr>ge_begin := False, ge_heap_live_bytes_after := gh_bytes_allocated h,
                           ge_live_objects_after := gh_live_objects_after_last_gc h,
                           ge_freed_objects := freed, ge_mark_time_ns := mark_end - mark_start,
                           ge_sweep_time_ns := sweep_end - mark_end,
                           ge_pause_time_ns := sweep_end - pause_start\<rparr>) h))"

subsection \<open>When to collect\<close>

definition request_collection :: "gc_heap \<Rightarrow> gc_heap" where
  "request_collection h = h\<lparr>gh_collection_requested := True, gh_requested_reason := R_requested\<rparr>"

definition maybe_collect :: "gc_heap \<Rightarrow> gc_heap outcome" where
  "maybe_collect h =
     (if \<not> gh_collection_requested h then Ret h
      else if gh_policy h = P_manual then Ret h
      else if gh_policy h = P_between_ticks \<and> in_tick h then Ret h
      else if gh_policy h = P_fail_on_tick_gc \<and> in_tick h then
        Throw (Std_exception ''gc: collection requested during tick under fail-on-tick-gc policy'')
      else collect_impl (if gh_policy h = P_between_ticks then R_between_ticks else gh_requested_reason h) False h)"

definition gc_collect :: "gc_heap \<Rightarrow> gc_heap outcome" where
  "gc_collect h =
     (if gh_policy h = P_fail_on_tick_gc \<and> in_tick h then
        Throw (Std_exception ''gc: forced collection during tick under fail-on-tick-gc policy'')
      else collect_impl R_forced True h)"

definition set_policy :: "gc_policy \<Rightarrow> gc_heap \<Rightarrow> gc_heap" where
  "set_policy p h = h\<lparr>gh_policy := p\<rparr>"

definition enter_tick :: "gc_heap \<Rightarrow> gc_heap" where
  "enter_tick h = h\<lparr>gh_tick_depth := Suc (gh_tick_depth h)\<rparr>"

definition exit_tick :: "gc_heap \<Rightarrow> gc_heap outcome" where
  "exit_tick h =
     (let h = h\<lparr>gh_tick_depth := gh_tick_depth h - 1\<rparr> in
      if gh_tick_depth h = 0 \<and> gh_collection_requested h \<and> gh_policy h = P_between_ticks
      then collect_impl R_between_ticks False h else Ret h)"

definition gc_stats :: "gc_heap \<Rightarrow> gc_stats_snapshot" where
  "gc_stats h =
     \<lparr>gs_total_allocated_objects = gh_total_allocated_objects h,
      gs_live_objects_after_last_gc = gh_live_objects_after_last_gc h,
      gs_bytes_allocated = gh_bytes_allocated h, gs_next_gc_threshold = gh_next_gc_threshold h,
      gs_collection_count = gh_collection_count h, gs_total_pause_ns = gh_total_pause_ns h,
      gs_freed_objects_total = gh_freed_objects_total h,
      gs_forced_collection_count = gh_forced_collection_count h\<rparr>"

definition set_lifecycle_listener :: "gc_heap \<Rightarrow> gc_heap" where
  "set_lifecycle_listener h = h\<lparr>gh_listener := True\<rparr>"

definition clear_lifecycle_listener :: "gc_heap \<Rightarrow> gc_heap" where
  "clear_lifecycle_listener h = h\<lparr>gh_listener := False\<rparr>"

fun policy_name :: "gc_policy \<Rightarrow> string" where
  "policy_name P_default = ''default''"
| "policy_name P_between_ticks = ''between-ticks''"
| "policy_name P_manual = ''manual''"
| "policy_name P_fail_on_tick_gc = ''fail-on-tick-gc''"

fun collection_reason_name :: "gc_reason \<Rightarrow> string" where
  "collection_reason_name R_threshold = ''threshold''"
| "collection_reason_name R_requested = ''requested''"
| "collection_reason_name R_forced = ''forced''"
| "collection_reason_name R_between_ticks = ''between-ticks''"

definition parse_policy :: "string \<Rightarrow> gc_policy option" where
  "parse_policy text =
     (let t = (if text \<noteq> [] \<and> hd text = CHR '':'' then tl text else text) in
      if t = ''default'' then Some P_default
      else if t = ''between-ticks'' then Some P_between_ticks
      else if t = ''manual'' then Some P_manual
      else if t = ''fail-on-tick-gc'' then Some P_fail_on_tick_gc
      else None)"

end
