(* ===== verification/Registry.thy ===== *)
theory Registry
  imports Vla_Node Plan_Node Gc
begin

text \<open>
  The callback registry (\<open>src/bt/registry.cpp\<close>) and the services a tick can use
  (\<open>struct services\<close> in \<open>include/bt/instance.hpp\<close>).

  A callback is a function of the tick context (which carries the node memory, so the
  \<open>node_memory&\<close> argument is the entry of the node's id) that returns or throws. Scheduler, planner and
  VLA service are optional and act on the outside world; the Lisp heap is a part of that world, read
  with \<open>sv_heap\<close> and written with \<open>sv_set_heap\<close>.
\<close>

type_synonym ('w, 'p) condition_fn =
  "('w, 'p) tick_context \<Rightarrow> lisp_value list \<Rightarrow> (exn + bool) \<times> ('w, 'p) tick_context"

type_synonym ('w, 'p) action_fn =
  "('w, 'p) tick_context \<Rightarrow> node_id \<Rightarrow> lisp_value list \<Rightarrow> (exn + status) \<times> ('w, 'p) tick_context"

type_synonym ('w, 'p) action_halt_fn =
  "('w, 'p) tick_context \<Rightarrow> node_id \<Rightarrow> (exn + unit) \<times> ('w, 'p) tick_context"

record ('w, 'p) registry =
  rg_conditions :: "string \<rightharpoonup> ('w, 'p) condition_fn"
  rg_actions :: "string \<rightharpoonup> ('w, 'p) action_fn"
  rg_action_halts :: "string \<rightharpoonup> ('w, 'p) action_halt_fn"

definition registry_empty :: "('w, 'p) registry" where
  "registry_empty = \<lparr>rg_conditions = Map.empty, rg_actions = Map.empty, rg_action_halts = Map.empty\<rparr>"

definition register_condition :: "string \<Rightarrow> ('w, 'p) condition_fn \<Rightarrow> ('w, 'p) registry \<Rightarrow> ('w, 'p) registry" where
  "register_condition name fn r = r\<lparr>rg_conditions := (rg_conditions r)(name \<mapsto> fn)\<rparr>"

definition register_action ::
  "string \<Rightarrow> ('w, 'p) action_fn \<Rightarrow> ('w, 'p) action_halt_fn option \<Rightarrow> ('w, 'p) registry \<Rightarrow> ('w, 'p) registry" where
  "register_action name fn halt_fn r =
     (let r = (case halt_fn of
                 Some h \<Rightarrow> r\<lparr>rg_action_halts := (rg_action_halts r)(name \<mapsto> h)\<rparr>
               | None \<Rightarrow> r\<lparr>rg_action_halts := (rg_action_halts r)(name := None)\<rparr>)
      in r\<lparr>rg_actions := (rg_actions r)(name \<mapsto> fn)\<rparr>)"

definition find_condition :: "string \<Rightarrow> ('w, 'p) registry \<Rightarrow> ('w, 'p) condition_fn option" where
  "find_condition name r = rg_conditions r name"

definition find_action :: "string \<Rightarrow> ('w, 'p) registry \<Rightarrow> ('w, 'p) action_fn option" where
  "find_action name r = rg_actions r name"

definition find_action_halt :: "string \<Rightarrow> ('w, 'p) registry \<Rightarrow> ('w, 'p) action_halt_fn option" where
  "find_action_halt name r = rg_action_halts r name"

definition registry_clear :: "('w, 'p) registry \<Rightarrow> ('w, 'p) registry" where
  "registry_clear r = registry_empty"

text \<open>The part of the \<open>scheduler\<close> interface that the runtime calls, and the services.\<close>

record 'w sched_ops =
  so_get_info :: "job_id \<Rightarrow> 'w \<Rightarrow> job_info"
  so_cancel :: "job_id \<Rightarrow> 'w \<Rightarrow> bool \<times> 'w"

record 'w services =
  sv_sched :: "'w sched_ops option"
  sv_planner :: "'w planner_ops option"
  sv_vla :: "'w vla_ops option"
  sv_heap :: "'w \<Rightarrow> gc_heap"
  sv_set_heap :: "gc_heap \<Rightarrow> 'w \<Rightarrow> 'w"

record ('w, 'p) host =
  ho_reg :: "('w, 'p) registry"
  ho_svc :: "'w services"

text \<open>
  A name registered last is found with the callbacks it was registered with: registering an action
  without a halt function removes the halt function of an earlier registration.
\<close>

lemma find_registered [simp]:
  "find_condition k (register_condition name fn r) = (if k = name then Some fn else find_condition k r)"
  "find_action k (register_action name act halt r) = (if k = name then Some act else find_action k r)"
  "find_action_halt k (register_action name act halt r) = (if k = name then halt else find_action_halt k r)"
  "find_condition k (register_action name act halt r) = find_condition k r"
  "find_action k (register_condition name fn r) = find_action k r"
  "find_action_halt k (register_condition name fn r) = find_action_halt k r"
  by (auto simp: find_condition_def find_action_def find_action_halt_def register_condition_def
      register_action_def Let_def split: option.splits)

end
