(* ===== verification/Halting.thy ===== *)
theory Halting
  imports Registry
begin

text \<open>
  Halting a subtree (\<open>halt_subtree_impl\<close> and what it calls in \<open>src/bt/runtime.cpp\<close>) and the small
  helpers of the runtime.

  The halting loop works on a stack of node ids; on a definition whose child edges form a cycle it
  does not end. It takes the number of nodes it may halt, \<open>hf\<close>, and answers \<open>Diverge\<close> when that is
  used up. A reference \<open>node_memory&\<close> held across calls reads and writes the entry of its node id,
  which callbacks may update and do not erase.
\<close>

subsection \<open>Sequencing\<close>

definition obind :: "'a outcome \<times> 'c \<Rightarrow> ('a \<Rightarrow> 'c \<Rightarrow> 'b outcome \<times> 'c) \<Rightarrow> 'b outcome \<times> 'c" where
  "obind m f =
     (case m of
        (Ret x, c) \<Rightarrow> f x c
      | (Throw e, c) \<Rightarrow> (Throw e, c)
      | (Undef, c) \<Rightarrow> (Undef, c)
      | (Diverge, c) \<Rightarrow> (Diverge, c))"

lemma obind_simps [simp]:
  "obind (Ret x, c) f = f x c"
  "obind (Throw e, c) f = (Throw e, c)"
  "obind (Undef, c) f = (Undef, c)"
  "obind (Diverge, c) f = (Diverge, c)"
  by (simp_all add: obind_def)

lemma obind_cong [fundef_cong]:
  "m = m' \<Longrightarrow> (\<And>x c. m' = (Ret x, c) \<Longrightarrow> f x c = g x c) \<Longrightarrow> obind m f = obind m' g"
  by (cases m'; cases "fst m'") (auto simp: obind_def)

subsection \<open>Small helpers\<close>

definition status_json :: "status \<Rightarrow> string" where
  "status_json st = quoted (status_name st)"

definition get_node :: "bt_definition \<Rightarrow> node_id \<Rightarrow> exn + node" where
  "get_node d i =
     (if i \<ge> length (df_nodes d) then Inl (Std_exception ''BT runtime: invalid node id'') else Inr (df_nodes d ! i))"

definition clamp_child_index :: "node \<Rightarrow> i64 \<Rightarrow> nat" where
  "clamp_child_index n raw_index =
     (if sint raw_index < 0 then 0
      else let idx = nat (sint raw_index) in if idx \<ge> length (nd_children n) then 0 else idx)"

definition prior_running_child :: "'p node_memory \<Rightarrow> node \<Rightarrow> node_id option" where
  "prior_running_child mem n =
     (if \<not> nm_b0 mem then None
      else if sint (nm_i0 mem) < 0 then None
      else let idx = nat (sint (nm_i0 mem)) in
        if idx \<ge> length (nd_children n) then None else Some (nd_children n ! idx))"

definition upd_memory :: "node_id \<Rightarrow> ('p node_memory \<Rightarrow> 'p node_memory) \<Rightarrow> ('w, 'p) tick_context \<Rightarrow> ('w, 'p) tick_context" where
  "upd_memory i f c = set_memory i (f (memory_of i c)) c"

definition set_i0 :: "node_id \<Rightarrow> nat \<Rightarrow> ('w, 'p) tick_context \<Rightarrow> ('w, 'p) tick_context" where
  "set_i0 i x = upd_memory i (\<lambda>m. m\<lparr>nm_i0 := word_of_nat x\<rparr>)"

definition clear_reactive_running_child :: "node_id \<Rightarrow> ('w, 'p) tick_context \<Rightarrow> ('w, 'p) tick_context" where
  "clear_reactive_running_child i = upd_memory i (\<lambda>m. m\<lparr>nm_b0 := False, nm_i0 := 0\<rparr>)"

definition remember_reactive_running_child :: "node_id \<Rightarrow> nat \<Rightarrow> ('w, 'p) tick_context \<Rightarrow> ('w, 'p) tick_context" where
  "remember_reactive_running_child i child_index = upd_memory i (\<lambda>m. m\<lparr>nm_b0 := True, nm_i0 := word_of_nat child_index\<rparr>)"

subsection \<open>Halting\<close>

text \<open>\<open>trace_capture_enabled\<close> is the test that \<open>emit_trace\<close> repeats, so halting and preemption only trace.\<close>

definition emit_node_halt :: "node_id \<Rightarrow> string \<Rightarrow> ('w, 'p) tick_context \<Rightarrow> ('w, 'p) tick_context" where
  "emit_node_halt halted_node reason c =
     (if \<not> in_trace_enabled (cx_inst c) then c
      else emit_trace ((make_trace_event TE_node_halt)\<lparr>te_node := halted_node, te_message := reason\<rparr>) c)"

definition emit_node_preempt :: "node_id \<Rightarrow> node_id \<Rightarrow> string \<Rightarrow> ('w, 'p) tick_context \<Rightarrow> ('w, 'p) tick_context" where
  "emit_node_preempt from_node to_node reason c =
     (if \<not> in_trace_enabled (cx_inst c) then c
      else emit_trace ((make_trace_event TE_node_preempt)\<lparr>te_node := from_node,
             te_message := ''to_node='' @ nat_str to_node @ '' reason='' @ reason\<rparr>) c)"

definition warning_observability_enabled :: "('w, 'p) tick_context \<Rightarrow> bool" where
  "warning_observability_enabled c \<longleftrightarrow>
     in_trace_enabled (cx_inst c) \<or> ob_logger (cx_obs c) \<noteq> None \<or> ob_events (cx_obs c) \<noteq> None"

definition emit_unhaltable_warning_once :: "node_id \<Rightarrow> string \<Rightarrow> ('w, 'p) tick_context \<Rightarrow> ('w, 'p) tick_context" where
  "emit_unhaltable_warning_once i message c =
     (if \<not> warning_observability_enabled c then c
      else if i \<in> set (in_halt_warning_emitted (cx_inst c)) then c
      else
        let c = c\<lparr>cx_inst := (cx_inst c)\<lparr>in_halt_warning_emitted := i # in_halt_warning_emitted (cx_inst c)\<rparr>\<rparr>;
            c = emit_trace ((make_trace_event TE_warning)\<lparr>te_node := i, te_message := message\<rparr>) c
        in emit_log L_warn ''bt'' message c)"

text \<open>The enumerator \<open>job_status::unknown\<close> has the value 5.\<close>

definition try_cancel_scheduler_leaf ::
  "'w services \<Rightarrow> node_id \<Rightarrow> string \<Rightarrow> ('w, 'p) tick_context \<Rightarrow> bool \<times> ('w, 'p) tick_context" where
  "try_cancel_scheduler_leaf svc i reason c =
     (let mem = memory_of i c in
      case sv_sched svc of
        None \<Rightarrow> (False, c)
      | Some ops \<Rightarrow>
          if \<not> nm_b0 mem \<or> sint (nm_i0 mem) \<le> 0 then (False, c)
          else
            let jid = unat (nm_i0 mem);
                st = ji_status (so_get_info ops jid (cx_world c))
            in if st \<noteq> J_queued \<and> st \<noteq> J_running then (False, c)
               else
                 let (ok, w) = so_cancel ops jid (cx_world c);
                     c = c\<lparr>cx_world := w\<rparr>
                 in if \<not> ok then (False, c)
                    else (True, upd_memory i (\<lambda>m. m\<lparr>nm_b0 := False, nm_i0 := 0, nm_i1 := 5\<rparr>)
                      (scheduler_event TE_scheduler_cancel jid J_cancelled
                        (''scheduler cancelled by halt_subtree ('' @ reason @ '')'') c)))"

definition call_halt_fn ::
  "('w, 'p) registry \<Rightarrow> node \<Rightarrow> node_id \<Rightarrow> ('w, 'p) tick_context \<Rightarrow> bool \<times> ('w, 'p) tick_context" where
  "call_halt_fn reg n i c =
     (case find_action_halt (nd_leaf_name n) reg of
        None \<Rightarrow> (False, c)
      | Some fn \<Rightarrow>
          (case fn c i of
             (Inr _, c) \<Rightarrow> (True, c)
           | (Inl (Std_exception m), c) \<Rightarrow>
               (False, emit_unhaltable_warning_once i (''halt callback threw for node '' @ nat_str i @ '': '' @ m) c)
           | (Inl Other_exception, c) \<Rightarrow>
               (False, emit_unhaltable_warning_once i (''halt callback threw for node '' @ nat_str i) c)))"

definition halt_action ::
  "('w, 'p) host \<Rightarrow> node \<Rightarrow> node_id \<Rightarrow> string \<Rightarrow> ('w, 'p) tick_context \<Rightarrow> ('w, 'p) tick_context" where
  "halt_action H n i reason c =
     (let (halted, c) = call_halt_fn (ho_reg H) n i c;
          (halted, c) = (if halted then (True, c) else try_cancel_scheduler_leaf (ho_svc H) i reason c)
      in if \<not> halted \<and> nm_b0 (memory_of i c)
         then emit_unhaltable_warning_once i (''halt_subtree: no halt hook/job id for running node '' @ nat_str i) c
         else c)"

text \<open>One round of the halting loop: a node that has a memory entry is halted and its entry reset.\<close>

definition halt_one ::
  "('w, 'p) host \<Rightarrow> node \<Rightarrow> node_id \<Rightarrow> string \<Rightarrow> ('w, 'p) tick_context \<Rightarrow> ('w, 'p) tick_context" where
  "halt_one H n i reason c =
     (let c = emit_node_halt i reason c in
      if in_memory (cx_inst c) i = None then c
      else set_memory i node_memory_default (if nd_kind n = K_act then halt_action H n i reason c else c))"

fun halt_loop ::
  "('w, 'p) host \<Rightarrow> nat \<Rightarrow> bt_definition \<Rightarrow> string \<Rightarrow> node_id list \<Rightarrow> ('w, 'p) tick_context \<Rightarrow>
     unit outcome \<times> ('w, 'p) tick_context" where
  "halt_loop H hf d reason [] c = (Ret (), c)"
| "halt_loop H 0 d reason (i # stack) c = (Diverge, c)"
| "halt_loop H (Suc hf) d reason (i # stack) c =
     (case get_node d i of
        Inl e \<Rightarrow> (Throw e, c)
      | Inr n \<Rightarrow> halt_loop H hf d reason (rev (nd_children n) @ stack) (halt_one H n i reason c))"

definition halt_subtree_impl ::
  "('w, 'p) host \<Rightarrow> nat \<Rightarrow> node_id \<Rightarrow> string \<Rightarrow> ('w, 'p) tick_context \<Rightarrow> unit outcome \<times> ('w, 'p) tick_context" where
  "halt_subtree_impl H hf root reason c =
     (case in_def (cx_inst c) of
        None \<Rightarrow> (Ret (), c)
      | Some d \<Rightarrow> halt_loop H hf d reason [root] c)"

definition halt_child_subtree ::
  "('w, 'p) host \<Rightarrow> nat \<Rightarrow> node_id \<Rightarrow> node_id \<Rightarrow> string \<Rightarrow> ('w, 'p) tick_context \<Rightarrow> unit outcome \<times> ('w, 'p) tick_context" where
  "halt_child_subtree H hf from_child to_child reason c =
     halt_subtree_impl H hf from_child reason (emit_node_preempt from_child to_child reason c)"

fun halt_all ::
  "('w, 'p) host \<Rightarrow> nat \<Rightarrow> node_id list \<Rightarrow> string \<Rightarrow> ('w, 'p) tick_context \<Rightarrow> unit outcome \<times> ('w, 'p) tick_context" where
  "halt_all H hf [] reason c = (Ret (), c)"
| "halt_all H hf (i # is) reason c = obind (halt_subtree_impl H hf i reason c) (\<lambda>_. halt_all H hf is reason)"

definition halt_all_children ::
  "('w, 'p) host \<Rightarrow> nat \<Rightarrow> node \<Rightarrow> string \<Rightarrow> ('w, 'p) tick_context \<Rightarrow> unit outcome \<times> ('w, 'p) tick_context" where
  "halt_all_children H hf n reason c = halt_all H hf (nd_children n) reason c"

end
