(* ===== verification/Runtime.thy ===== *)
theory Runtime
  imports Halting
begin

text \<open>
  Ticking a node: \<open>tick_node\<close>, \<open>node_scope\<close> and the bodies of the node kinds in
  \<open>src/bt/runtime.cpp\<close>.

  \<open>tick_node\<close> recurses through node ids and does not end on a cyclic definition. It takes the number
  of levels it may descend, \<open>k\<close>, and answers \<open>Diverge\<close> when that is used up.
\<close>

subsection \<open>Composite nodes with memory\<close>

text \<open>
  Every body takes the function \<open>tk\<close> that ticks a child. The loop of \<open>mem-seq\<close> and \<open>mem-sel\<close> runs over
  the children from the remembered index on.
\<close>

type_synonym ('w, 'p) ticked = "status outcome \<times> ('w, 'p) tick_context"

type_synonym ('w, 'p) ticker = "node_id \<Rightarrow> ('w, 'p) tick_context \<Rightarrow> ('w, 'p) ticked"

definition halted_then :: "unit outcome \<times> ('w, 'p) tick_context \<Rightarrow> status \<Rightarrow> ('w, 'p) ticked" where
  "halted_then m st = obind m (\<lambda>_ c. (Ret st, c))"

fun mem_seq_loop ::
  "('w, 'p) host \<Rightarrow> nat \<Rightarrow> ('w, 'p) ticker \<Rightarrow> node \<Rightarrow> nat \<Rightarrow> node_id list \<Rightarrow> ('w, 'p) tick_context \<Rightarrow> ('w, 'p) ticked" where
  "mem_seq_loop H hf tk n index [] c =
     halted_then (halt_all_children H hf n ''mem-seq complete'' (set_i0 (nd_id n) 0 c)) Success"
| "mem_seq_loop H hf tk n index (child # rest) c =
     obind (tk child c) (\<lambda>st c.
       case st of
         Running \<Rightarrow> (Ret Running, set_i0 (nd_id n) index c)
       | Failure \<Rightarrow> (Ret Failure, set_i0 (nd_id n) index c)
       | Success \<Rightarrow> mem_seq_loop H hf tk n (Suc index) rest c)"

definition tick_mem_seq ::
  "('w, 'p) host \<Rightarrow> nat \<Rightarrow> ('w, 'p) ticker \<Rightarrow> node \<Rightarrow> ('w, 'p) tick_context \<Rightarrow> ('w, 'p) ticked" where
  "tick_mem_seq H hf tk n c =
     (let c = node_memory_for (nd_id n) c;
          index = clamp_child_index n (nm_i0 (memory_of (nd_id n) c))
      in mem_seq_loop H hf tk n index (drop index (nd_children n)) c)"

fun mem_sel_loop ::
  "('w, 'p) host \<Rightarrow> nat \<Rightarrow> ('w, 'p) ticker \<Rightarrow> node \<Rightarrow> nat \<Rightarrow> node_id list \<Rightarrow> ('w, 'p) tick_context \<Rightarrow> ('w, 'p) ticked" where
  "mem_sel_loop H hf tk n index [] c =
     (Ret Failure, upd_memory (nd_id n) (\<lambda>m. m\<lparr>nm_i0 := 0, nm_b0 := False\<rparr>) c)"
| "mem_sel_loop H hf tk n index (child # rest) c =
     obind (tk child c) (\<lambda>st c.
       case st of
         Success \<Rightarrow>
           halted_then (halt_all_children H hf n ''mem-sel success''
             (upd_memory (nd_id n) (\<lambda>m. m\<lparr>nm_i0 := 0, nm_b0 := False\<rparr>) c)) Success
       | Running \<Rightarrow> (Ret Running, upd_memory (nd_id n) (\<lambda>m. m\<lparr>nm_i0 := word_of_nat index, nm_b0 := True\<rparr>) c)
       | Failure \<Rightarrow> mem_sel_loop H hf tk n (Suc index) rest c)"

definition tick_mem_sel ::
  "('w, 'p) host \<Rightarrow> nat \<Rightarrow> ('w, 'p) ticker \<Rightarrow> node \<Rightarrow> ('w, 'p) tick_context \<Rightarrow> ('w, 'p) ticked" where
  "tick_mem_sel H hf tk n c =
     (let c = node_memory_for (nd_id n) c;
          index = clamp_child_index n (nm_i0 (memory_of (nd_id n) c))
      in mem_sel_loop H hf tk n index (drop index (nd_children n)) c)"

text \<open>\<open>n.children[index]\<close> of a node without children is a read outside the vector.\<close>

definition tick_child_at :: "('w, 'p) ticker \<Rightarrow> node \<Rightarrow> nat \<Rightarrow> ('w, 'p) tick_context \<Rightarrow> ('w, 'p) ticked" where
  "tick_child_at tk n index c =
     (if index < length (nd_children n) then tk (nd_children n ! index) c else (Undef, c))"

definition tick_async_seq ::
  "('w, 'p) host \<Rightarrow> nat \<Rightarrow> ('w, 'p) ticker \<Rightarrow> node \<Rightarrow> ('w, 'p) tick_context \<Rightarrow> ('w, 'p) ticked" where
  "tick_async_seq H hf tk n c =
     (let c = node_memory_for (nd_id n) c;
          index = clamp_child_index n (nm_i0 (memory_of (nd_id n) c))
      in obind (tick_child_at tk n index c) (\<lambda>st c.
           case st of
             Running \<Rightarrow> (Ret Running, set_i0 (nd_id n) index c)
           | Failure \<Rightarrow> (Ret Failure, set_i0 (nd_id n) 0 c)
           | Success \<Rightarrow>
               if Suc index \<ge> length (nd_children n) then
                 halted_then (halt_all_children H hf n ''async-seq complete'' (set_i0 (nd_id n) 0 c)) Success
               else (Ret Running, set_i0 (nd_id n) (Suc index) c)))"

subsection \<open>Reactive nodes\<close>

definition halt_previous ::
  "('w, 'p) host \<Rightarrow> nat \<Rightarrow> node_id option \<Rightarrow> node_id \<Rightarrow> string \<Rightarrow> ('w, 'p) tick_context \<Rightarrow> unit outcome \<times> ('w, 'p) tick_context" where
  "halt_previous H hf previous_running to_node reason c =
     (case previous_running of
        None \<Rightarrow> (Ret (), c)
      | Some p \<Rightarrow> halt_child_subtree H hf p to_node reason c)"

fun reactive_seq_loop ::
  "('w, 'p) host \<Rightarrow> nat \<Rightarrow> ('w, 'p) ticker \<Rightarrow> node \<Rightarrow> node_id option \<Rightarrow> nat \<Rightarrow> node_id list \<Rightarrow>
     ('w, 'p) tick_context \<Rightarrow> ('w, 'p) ticked" where
  "reactive_seq_loop H hf tk n previous_running i [] c =
     obind (halt_previous H hf previous_running (nd_id n) ''reactive-seq completed'' c) (\<lambda>_ c.
       (Ret Success, clear_reactive_running_child (nd_id n) c))"
| "reactive_seq_loop H hf tk n previous_running i (child # rest) c =
     obind (tk child c) (\<lambda>st c.
       case st of
         Failure \<Rightarrow>
           obind (halt_previous H hf previous_running child ''reactive-seq preempted on failure'' c) (\<lambda>_ c.
             (Ret Failure, clear_reactive_running_child (nd_id n) c))
       | Running \<Rightarrow>
           obind (if previous_running \<noteq> Some child
                  then halt_previous H hf previous_running child ''reactive-seq switched running child'' c
                  else (Ret (), c)) (\<lambda>_ c.
             (Ret Running, remember_reactive_running_child (nd_id n) i c))
       | Success \<Rightarrow> reactive_seq_loop H hf tk n previous_running (Suc i) rest c)"

definition tick_reactive_seq ::
  "('w, 'p) host \<Rightarrow> nat \<Rightarrow> ('w, 'p) ticker \<Rightarrow> node \<Rightarrow> ('w, 'p) tick_context \<Rightarrow> ('w, 'p) ticked" where
  "tick_reactive_seq H hf tk n c =
     (let c = node_memory_for (nd_id n) c in
      reactive_seq_loop H hf tk n (prior_running_child (memory_of (nd_id n) c) n) 0 (nd_children n) c)"

fun reactive_sel_loop ::
  "('w, 'p) host \<Rightarrow> nat \<Rightarrow> ('w, 'p) ticker \<Rightarrow> node \<Rightarrow> node_id option \<Rightarrow> nat \<Rightarrow> nat \<Rightarrow> node_id list \<Rightarrow>
     ('w, 'p) tick_context \<Rightarrow> ('w, 'p) ticked" where
  "reactive_sel_loop H hf tk n previous_running previous_index i [] c =
     obind (halt_previous H hf previous_running (nd_id n) ''reactive-sel all failed'' c) (\<lambda>_ c.
       (Ret Failure, clear_reactive_running_child (nd_id n) c))"
| "reactive_sel_loop H hf tk n previous_running previous_index i (child # rest) c =
     obind (tk child c) (\<lambda>st c.
       if st = Failure then reactive_sel_loop H hf tk n previous_running previous_index (Suc i) rest c
       else
         obind (if previous_index > i \<and> previous_running \<noteq> Some child
                then halt_previous H hf previous_running child ''reactive-sel switched to higher priority'' c
                else (Ret (), c)) (\<lambda>_ c.
           if st = Running then (Ret Running, remember_reactive_running_child (nd_id n) i c)
           else (Ret Success, clear_reactive_running_child (nd_id n) c)))"

definition tick_reactive_sel ::
  "('w, 'p) host \<Rightarrow> nat \<Rightarrow> ('w, 'p) ticker \<Rightarrow> node \<Rightarrow> ('w, 'p) tick_context \<Rightarrow> ('w, 'p) ticked" where
  "tick_reactive_sel H hf tk n c =
     (let c = node_memory_for (nd_id n) c;
          mem = memory_of (nd_id n) c;
          previous_index = (if nm_b0 mem \<and> sint (nm_i0 mem) \<ge> 0 then nat (sint (nm_i0 mem)) else length (nd_children n))
      in reactive_sel_loop H hf tk n (prior_running_child mem n) previous_index 0 (nd_children n) c)"

subsection \<open>Leaves\<close>

text \<open>The arguments of a leaf are built on the Lisp heap, first to last.\<close>

definition materialize_args :: "'w services \<Rightarrow> node \<Rightarrow> ('w, 'p) tick_context \<Rightarrow> lisp_value list \<times> ('w, 'p) tick_context" where
  "materialize_args svc n c =
     (let h = fold (\<lambda>a h. snd (make_arg a h)) (nd_args n) (sv_heap svc (cx_world c))
      in (map materialize_arg (nd_args n), c\<lparr>cx_world := sv_set_heap svc h (cx_world c)\<rparr>))"

definition leaf_error :: "node \<Rightarrow> string \<Rightarrow> string \<Rightarrow> ('w, 'p) tick_context \<Rightarrow> ('w, 'p) tick_context" where
  "leaf_error n category msg c =
     emit_log L_error category msg (emit_trace ((make_trace_event TE_error)\<lparr>te_node := nd_id n, te_message := msg\<rparr>) c)"

definition tick_cond :: "('w, 'p) host \<Rightarrow> node \<Rightarrow> ('w, 'p) tick_context \<Rightarrow> ('w, 'p) ticked" where
  "tick_cond H n c =
     (case find_condition (nd_leaf_name n) (ho_reg H) of
        None \<Rightarrow> (Ret Failure, leaf_error n ''bt'' (''missing condition callback: '' @ nd_leaf_name n) c)
      | Some fn \<Rightarrow>
          let (args, c) = materialize_args (ho_svc H) n c
          in (case fn c args of
               (Inr b, c) \<Rightarrow> (Ret (if b then Success else Failure), c)
             | (Inl (Std_exception m), c) \<Rightarrow> (Ret Failure, leaf_error n ''bt'' (''condition threw: '' @ m) c)
             | (Inl Other_exception, c) \<Rightarrow> (Throw Other_exception, c)))"

definition tick_act :: "('w, 'p) host \<Rightarrow> node \<Rightarrow> ('w, 'p) tick_context \<Rightarrow> ('w, 'p) ticked" where
  "tick_act H n c =
     (case find_action (nd_leaf_name n) (ho_reg H) of
        None \<Rightarrow> (Ret Failure, leaf_error n ''bt'' (''missing action callback: '' @ nd_leaf_name n) c)
      | Some fn \<Rightarrow>
          let (args, c) = materialize_args (ho_svc H) n (node_memory_for (nd_id n) c)
          in (case fn c (nd_id n) args of
               (Inr st, c) \<Rightarrow> (Ret st, c)
             | (Inl (Std_exception m), c) \<Rightarrow> (Ret Failure, leaf_error n ''bt'' (''action threw: '' @ m) c)
             | (Inl Other_exception, c) \<Rightarrow> (Throw Other_exception, c)))"

text \<open>The \<open>try\<close> blocks around the planner and VLA leaves catch \<open>std::exception\<close> only.\<close>

definition catch_std :: "('w, 'p) ticked \<Rightarrow> (string \<Rightarrow> ('w, 'p) tick_context \<Rightarrow> ('w, 'p) tick_context) \<Rightarrow> ('w, 'p) ticked" where
  "catch_std m handler =
     (case m of
        (Throw (Std_exception msg), c) \<Rightarrow> (Ret Failure, handler msg c)
      | r \<Rightarrow> r)"

definition tick_plan_action :: "('w, 'p) host \<Rightarrow> node \<Rightarrow> ('w, 'p) tick_context \<Rightarrow> ('w, 'p) ticked" where
  "tick_plan_action H n c =
     (let (args, c) = materialize_args (ho_svc H) n c in
      catch_std (execute_plan_action (sv_planner (ho_svc H)) n args c)
        (\<lambda>m. leaf_error n ''planner'' (''plan-action failed: '' @ m)))"

definition tick_vla_request :: "('w, 'p) host \<Rightarrow> node \<Rightarrow> ('w, 'p) tick_context \<Rightarrow> ('w, 'p) ticked" where
  "tick_vla_request H n c =
     (let (args, c) = materialize_args (ho_svc H) n c in
      catch_std (execute_vla_request (sv_vla (ho_svc H)) n args c)
        (\<lambda>m. emit_log L_error ''vla'' (''vla-request failed: '' @ m)))"

definition tick_vla_wait :: "('w, 'p) host \<Rightarrow> node \<Rightarrow> ('w, 'p) tick_context \<Rightarrow> ('w, 'p) ticked" where
  "tick_vla_wait H n c =
     (let (args, c) = materialize_args (ho_svc H) n c in
      catch_std (execute_vla_wait (sv_vla (ho_svc H)) n args c)
        (\<lambda>m. emit_log L_error ''vla'' (''vla-wait failed: '' @ m)))"

definition tick_vla_cancel :: "('w, 'p) host \<Rightarrow> node \<Rightarrow> ('w, 'p) tick_context \<Rightarrow> ('w, 'p) ticked" where
  "tick_vla_cancel H n c =
     (let (args, c) = materialize_args (ho_svc H) n c in
      catch_std (execute_vla_cancel (sv_vla (ho_svc H)) n args c)
        (\<lambda>m. emit_log L_error ''vla'' (''vla-cancel failed: '' @ m)))"

subsection \<open>Ticking a node\<close>

fun seq_loop :: "('w, 'p) ticker \<Rightarrow> node_id list \<Rightarrow> ('w, 'p) tick_context \<Rightarrow> ('w, 'p) ticked" where
  "seq_loop tk [] c = (Ret Success, c)"
| "seq_loop tk (child # rest) c =
     obind (tk child c) (\<lambda>st c. if st = Success then seq_loop tk rest c else (Ret st, c))"

fun sel_loop :: "('w, 'p) ticker \<Rightarrow> node_id list \<Rightarrow> ('w, 'p) tick_context \<Rightarrow> ('w, 'p) ticked" where
  "sel_loop tk [] c = (Ret Failure, c)"
| "sel_loop tk (child # rest) c =
     obind (tk child c) (\<lambda>st c. if st = Failure then sel_loop tk rest c else (Ret st, c))"

definition tick_invert :: "('w, 'p) ticker \<Rightarrow> node \<Rightarrow> ('w, 'p) tick_context \<Rightarrow> ('w, 'p) ticked" where
  "tick_invert tk n c =
     obind (tick_child_at tk n 0 c) (\<lambda>st c.
       (Ret (case st of Success \<Rightarrow> Failure | Failure \<Rightarrow> Success | Running \<Rightarrow> Running), c))"

definition tick_repeat :: "('w, 'p) ticker \<Rightarrow> node \<Rightarrow> ('w, 'p) tick_context \<Rightarrow> ('w, 'p) ticked" where
  "tick_repeat tk n c =
     (let c = node_memory_for (nd_id n) c in
      if sint (nm_i0 (memory_of (nd_id n) c)) \<ge> sint (nd_int_param n) then (Ret Success, c)
      else obind (tick_child_at tk n 0 c) (\<lambda>st c.
        case st of
          Failure \<Rightarrow> (Ret Failure, c)
        | Running \<Rightarrow> (Ret Running, c)
        | Success \<Rightarrow>
            let c = upd_memory (nd_id n) (\<lambda>m. m\<lparr>nm_i0 := nm_i0 m + 1\<rparr>) c
            in (Ret (if sint (nm_i0 (memory_of (nd_id n) c)) \<ge> sint (nd_int_param n) then Success else Running), c)))"

definition tick_retry :: "('w, 'p) ticker \<Rightarrow> node \<Rightarrow> ('w, 'p) tick_context \<Rightarrow> ('w, 'p) ticked" where
  "tick_retry tk n c =
     (let c = node_memory_for (nd_id n) c in
      obind (tick_child_at tk n 0 c) (\<lambda>st c.
        case st of
          Success \<Rightarrow> (Ret Success, set_i0 (nd_id n) 0 c)
        | Running \<Rightarrow> (Ret Running, c)
        | Failure \<Rightarrow>
            let c = upd_memory (nd_id n) (\<lambda>m. m\<lparr>nm_i0 := nm_i0 m + 1\<rparr>) c
            in (Ret (if sint (nm_i0 (memory_of (nd_id n) c)) \<le> sint (nd_int_param n) then Running else Failure), c)))"

definition tick_body ::
  "('w, 'p) host \<Rightarrow> nat \<Rightarrow> ('w, 'p) ticker \<Rightarrow> node \<Rightarrow> ('w, 'p) tick_context \<Rightarrow> ('w, 'p) ticked" where
  "tick_body H hf tk n c =
     (case nd_kind n of
        K_seq \<Rightarrow> seq_loop tk (nd_children n) c
      | K_sel \<Rightarrow> sel_loop tk (nd_children n) c
      | K_mem_seq \<Rightarrow> tick_mem_seq H hf tk n c
      | K_mem_sel \<Rightarrow> tick_mem_sel H hf tk n c
      | K_async_seq \<Rightarrow> tick_async_seq H hf tk n c
      | K_reactive_seq \<Rightarrow> tick_reactive_seq H hf tk n c
      | K_reactive_sel \<Rightarrow> tick_reactive_sel H hf tk n c
      | K_invert \<Rightarrow> tick_invert tk n c
      | K_repeat \<Rightarrow> tick_repeat tk n c
      | K_retry \<Rightarrow> tick_retry tk n c
      | K_cond \<Rightarrow> tick_cond H n c
      | K_act \<Rightarrow> tick_act H n c
      | K_plan_action \<Rightarrow> tick_plan_action H n c
      | K_vla_request \<Rightarrow> tick_vla_request H n c
      | K_vla_wait \<Rightarrow> tick_vla_wait H n c
      | K_vla_cancel \<Rightarrow> tick_vla_cancel H n c
      | K_succeed \<Rightarrow> (Ret Success, c)
      | K_fail \<Rightarrow> (Ret Failure, c)
      | K_running \<Rightarrow> (Ret Running, c))"

text \<open>\<open>node_scope\<close>: what its constructor remembers, and what constructor and destructor do.\<close>

record node_scope =
  ns_prev_node :: node_id
  ns_started_at :: time_ns
  ns_track_node_path :: bool

definition tracks_node_path :: "('w, 'p) tick_context \<Rightarrow> bool" where
  "tracks_node_path c = (case ob_events (cx_obs c) of None \<Rightarrow> False | Some ev \<Rightarrow> el_tick_audit_enabled ev)"

definition node_scope_enter :: "node \<Rightarrow> ('w, 'p) tick_context \<Rightarrow> node_scope \<times> ('w, 'p) tick_context" where
  "node_scope_enter n c =
     (let prev = cx_current_node c;
          (t, c) = tick_now c;
          c = c\<lparr>cx_current_node := nd_id n\<rparr>;
          track = tracks_node_path c;
          c = (if track then c\<lparr>cx_node_path := cx_node_path c @ [nd_id n]\<rparr> else c);
          c = emit_trace ((make_trace_event TE_node_enter)\<lparr>te_node := nd_id n\<rparr>) c;
          c = emit_event_data ''node_enter'' (''{'' @ jkey ''node_id'' @ nat_str (nd_id n) @ ''}'') c
      in (\<lparr>ns_prev_node = prev, ns_started_at = t, ns_track_node_path = track\<rparr>, c))"

definition count_return :: "status \<Rightarrow> time_ns \<Rightarrow> node_profile_stats \<Rightarrow> node_profile_stats" where
  "count_return st elapsed s =
     (let s = s\<lparr>np_tick_duration := observe elapsed 0 (np_tick_duration s)\<rparr> in
      case st of
        Success \<Rightarrow> s\<lparr>np_success_returns := Suc (np_success_returns s)\<rparr>
      | Failure \<Rightarrow> s\<lparr>np_failure_returns := Suc (np_failure_returns s)\<rparr>
      | Running \<Rightarrow> s\<lparr>np_running_returns := Suc (np_running_returns s)\<rparr>)"

definition node_exit_json :: "node \<Rightarrow> status \<Rightarrow> time_ns \<Rightarrow> string" where
  "node_exit_json n st elapsed =
     ''{'' @ jkey ''node_id'' @ nat_str (nd_id n) @ '','' @ jkey ''status'' @ status_json st @ '','' @
     jkey ''dur_ms'' @ fp_str (ms_of_ns elapsed) @ ''}''"

definition node_scope_exit ::
  "node_scope \<Rightarrow> node \<Rightarrow> status \<Rightarrow> ('w, 'p) tick_context \<Rightarrow> ('w, 'p) tick_context" where
  "node_scope_exit sc n st c =
     (let (t, c) = tick_now c;
          elapsed = t - ns_started_at sc;
          c = c\<lparr>cx_inst := (cx_inst c)\<lparr>in_node_stats :=
                 alist_put (nd_id n) (count_return st elapsed (node_stats_for n (cx_inst c))) (in_node_stats (cx_inst c))\<rparr>\<rparr>;
          c = emit_trace ((make_trace_event TE_node_exit)\<lparr>te_node := nd_id n, te_status := st, te_duration := elapsed\<rparr>) c;
          c = emit_event_data ''node_exit'' (node_exit_json n st elapsed) c;
          c = emit_event_data ''node_status'' (node_exit_json n st elapsed) c;
          c = c\<lparr>cx_current_node := ns_prev_node sc\<rparr>
      in if ns_track_node_path sc \<and> cx_node_path c \<noteq> [] then c\<lparr>cx_node_path := butlast (cx_node_path c)\<rparr> else c)"

text \<open>The lambda \<open>finalize\<close>, apart from its call of \<open>set_status\<close>, which \<open>node_scope_exit\<close> receives.\<close>

definition finalize :: "node \<Rightarrow> ('w, 'p) tick_context \<Rightarrow> ('w, 'p) tick_context" where
  "finalize n c =
     (if length (cx_node_path c) \<ge> length (cx_last_node_path c)
      then c\<lparr>cx_last_node_path := cx_node_path c, cx_terminal_node_id := Some (nd_id n)\<rparr> else c)"

text \<open>
  The destructor runs on return and on exception. A body that is undefined or does not end leaves
  no final state; the context it started from stands in.
\<close>

definition tick_scoped ::
  "('w, 'p) host \<Rightarrow> nat \<Rightarrow> ('w, 'p) ticker \<Rightarrow> node \<Rightarrow> ('w, 'p) tick_context \<Rightarrow> ('w, 'p) ticked" where
  "tick_scoped H hf tk n before =
     (let (sc, c) = node_scope_enter n before in
      case tick_body H hf tk n c of
        (Ret st, c) \<Rightarrow> (Ret st, node_scope_exit sc n st (finalize n c))
      | (Throw e, c) \<Rightarrow> (Throw e, node_scope_exit sc n Failure c)
      | (Undef, _) \<Rightarrow> (Undef, before)
      | (Diverge, _) \<Rightarrow> (Diverge, before))"

fun tick_node :: "('w, 'p) host \<Rightarrow> nat \<Rightarrow> nat \<Rightarrow> ('w, 'p) ticker" where
  "tick_node H hf 0 i c = (Diverge, c)"
| "tick_node H hf (Suc k) i c =
     (case in_def (cx_inst c) of
        None \<Rightarrow> (Undef, c)
      | Some d \<Rightarrow>
          (case get_node d i of
             Inl e \<Rightarrow> (Throw e, c)
           | Inr n \<Rightarrow> tick_scoped H hf (tick_node H hf k) n c))"

end
