(* ===== verification/Frame.thy ===== *)
theory Frame
  imports Runtime
begin

text \<open>
  What ticking leaves alone. A relation between the context before and after is kept by every helper
  of the runtime as soon as it is a preorder that the elementary updates respect; the locale
  \<open>context_relation\<close> states these laws and proves it once for halting, the leaves, the composites and
  \<open>tick_node\<close>. It is interpreted on the frame of a tick (\<open>same_frame\<close>: definition, clock marks, current
  node, node path, settings) and on the tables that only grow (\<open>grows\<close>).
\<close>

subsection \<open>The contract of callbacks\<close>

definition respects_condition :: "(('w, 'p) tick_context \<Rightarrow> ('w, 'p) tick_context \<Rightarrow> bool) \<Rightarrow> ('w, 'p) registry \<Rightarrow> bool" where
  "respects_condition R reg \<longleftrightarrow> (\<forall>name fn c args. find_condition name reg = Some fn \<longrightarrow> R c (snd (fn c args)))"

definition respects_action :: "(('w, 'p) tick_context \<Rightarrow> ('w, 'p) tick_context \<Rightarrow> bool) \<Rightarrow> ('w, 'p) registry \<Rightarrow> bool" where
  "respects_action R reg \<longleftrightarrow> (\<forall>name fn c i args. find_action name reg = Some fn \<longrightarrow> R c (snd (fn c i args)))"

definition respects_halt :: "(('w, 'p) tick_context \<Rightarrow> ('w, 'p) tick_context \<Rightarrow> bool) \<Rightarrow> ('w, 'p) registry \<Rightarrow> bool" where
  "respects_halt R reg \<longleftrightarrow> (\<forall>name fn c i. find_action_halt name reg = Some fn \<longrightarrow> R c (snd (fn c i)))"

definition callbacks_respect :: "(('w, 'p) tick_context \<Rightarrow> ('w, 'p) tick_context \<Rightarrow> bool) \<Rightarrow> ('w, 'p) host \<Rightarrow> bool" where
  "callbacks_respect R H \<longleftrightarrow> respects_condition R (ho_reg H) \<and> respects_action R (ho_reg H) \<and> respects_halt R (ho_reg H)"

subsection \<open>Relations kept by a tick\<close>

locale context_relation =
  fixes R :: "('w, 'p) tick_context \<Rightarrow> ('w, 'p) tick_context \<Rightarrow> bool"
  assumes refl [simp]: "R c c"
    and trans: "R a b \<Longrightarrow> R b c \<Longrightarrow> R a c"
    and obs [simp]: "R c (c\<lparr>cx_obs := ob\<rparr>)"
    and world [simp]: "R c (c\<lparr>cx_world := w\<rparr>)"
    and memory [simp]: "R c (set_memory i m c)"
    and store [simp]: "R c (c\<lparr>cx_inst := (cx_inst c)\<lparr>in_bb := bb_store key v tick ts node writer (in_bb (cx_inst c))\<rparr>\<rparr>)"
    and jobs [simp]: "R c (c\<lparr>cx_inst := (cx_inst c)\<lparr>in_active_vla_jobs := js\<rparr>\<rparr>)"
    and warned [simp]: "R c (c\<lparr>cx_inst := (cx_inst c)\<lparr>in_halt_warning_emitted := i # in_halt_warning_emitted (cx_inst c)\<rparr>\<rparr>)"
    and planned [simp]: "R c (c\<lparr>cx_planner_calls := Suc (cx_planner_calls c)\<rparr>)"
    and submitted [simp]: "R c (c\<lparr>cx_vla_submits := Suc (cx_vla_submits c)\<rparr>)"
    and polled [simp]: "R c (c\<lparr>cx_vla_polls := Suc (cx_vla_polls c)\<rparr>)"
    and finalized [simp]: "R c (finalize n c)"
    and scoped: "R (snd (node_scope_enter n c)) c' \<Longrightarrow> R c (node_scope_exit (fst (node_scope_enter n c)) n st c')"
begin

lemma obs_to: "R a c \<Longrightarrow> R a (c\<lparr>cx_obs := ob\<rparr>)"
  by (rule trans [OF _ obs])

lemma world_to: "R a c \<Longrightarrow> R a (c\<lparr>cx_world := w\<rparr>)"
  by (rule trans [OF _ world])

lemma memory_to: "R a c \<Longrightarrow> R a (set_memory i m c)"
  by (rule trans [OF _ memory])

lemma jobs_to: "R a c \<Longrightarrow> inst = cx_inst c \<Longrightarrow> R a (c\<lparr>cx_inst := inst\<lparr>in_active_vla_jobs := js\<rparr>\<rparr>)"
  using trans [OF _ jobs] by simp

lemma trace_to: "R a c \<Longrightarrow> R a (emit_trace ev c)"
  by (simp add: emit_trace_def obs_to)

lemma event_to: "R a c \<Longrightarrow> R a (emit_event_data type data c)"
  by (simp add: emit_event_data_def obs_to)

lemma now_to: "R a c \<Longrightarrow> R a (snd (tick_now c))"
  by (simp add: tick_now_def split_beta obs_to)

lemma log_to: "R a c \<Longrightarrow> R a (emit_log level category message c)"
  by (auto simp: emit_log_def emit_event_error_def split_beta Let_def split: option.split intro!: event_to obs_to)

lemma outcome_to: "R a c \<Longrightarrow> R a (emit_outcome_event type source node job reason c)"
  by (simp add: emit_outcome_event_def event_to)

lemma warning_to: "R a c \<Longrightarrow> R a (emit_budget_warning_event dp node r th reason c)"
  by (simp add: emit_budget_warning_event_def event_to)

lemma deadline_to: "R a c \<Longrightarrow> R a (emit_deadline_exceeded_event node source b e c)"
  by (simp add: emit_deadline_exceeded_event_def event_to)

lemma get_to: "R a c \<Longrightarrow> R a (snd (cx_bb_get key c))"
  by (simp add: cx_bb_get_def Let_def trace_to)

lemma store_to:
  "R a c \<Longrightarrow> inst = cx_inst c \<Longrightarrow>
     R a (c\<lparr>cx_inst := inst\<lparr>in_bb := bb_store key v tick ts node writer (in_bb inst)\<rparr>\<rparr>)"
  using trans [OF _ store] by simp

lemma put_to: "R a c \<Longrightarrow> R a (cx_bb_put key v writer c)"
  unfolding cx_bb_put_def Let_def split_beta
  by (simp add: trace_to event_to store_to now_to)

lemma remaining_to: "R a c \<Longrightarrow> R a (snd (tick_remaining_ms c))"
  by (simp add: tick_remaining_ms_def split_beta now_to split: option.split)

lemma budget_to: "R a c \<Longrightarrow> R a (snd (budget_allows_decision_point node dp c))"
  by (simp add: budget_allows_decision_point_def split_beta Let_def remaining_to log_to warning_to split: option.split)

lemma sched_event_to: "R a c \<Longrightarrow> R a (scheduler_event k job st message c)"
  by (simp add: scheduler_event_def Let_def trace_to log_to event_to)

lemma memory_for_to: "R a c \<Longrightarrow> R a (node_memory_for i c)"
  by (simp add: node_memory_for_def memory_to)

lemma counters_to:
  "R a c \<Longrightarrow> x = Suc (cx_planner_calls c) \<Longrightarrow> R a (c\<lparr>cx_planner_calls := x\<rparr>)"
  "R a c \<Longrightarrow> x = Suc (cx_vla_submits c) \<Longrightarrow> R a (c\<lparr>cx_vla_submits := x\<rparr>)"
  "R a c \<Longrightarrow> x = Suc (cx_vla_polls c) \<Longrightarrow> R a (c\<lparr>cx_vla_polls := x\<rparr>)"
  using trans [OF _ planned] trans [OF _ submitted] trans [OF _ polled] by simp_all

lemmas steps_to = obs_to world_to memory_to jobs_to trace_to event_to now_to log_to outcome_to warning_to
  deadline_to get_to put_to budget_to sched_event_to memory_for_to counters_to

subsection \<open>Planner and VLA leaves\<close>

lemma ebind_to:
  assumes "R a (snd m)" "\<And>x c. m = (Inr x, c) \<Longrightarrow> R a c \<Longrightarrow> R a (snd (f x c))"
  shows "R a (snd (ebind m f))"
  using assms by (cases m; cases "fst m") (auto simp: ebind_def)

lemma ends_with_to: "R a (snd m) \<Longrightarrow> R a (snd (ends_with m))"
  by (cases m; cases "fst m") (auto simp: ends_with_def)

lemma step_outcome_to: "R a c \<Longrightarrow> R a (snd (step_outcome r c))"
  by (simp add: step_outcome_def split: outcome.split)

lemma vla_fail_to: "R a c \<Longrightarrow> R a (snd (vla_fail msg c))"
  by (simp add: vla_fail_def log_to)

lemma plan_error_to: "R a c \<Longrightarrow> R a (snd (plan_error n msg c))"
  by (simp add: plan_error_def log_to trace_to)

lemma erase_job_to: "R a c \<Longrightarrow> R a (erase_active_job i c)"
  by (simp add: erase_active_job_def jobs_to)

lemma clear_key_to: "R a c \<Longrightarrow> R a (clear_job_key_if_present key writer c)"
  by (simp add: clear_job_key_if_present_def split_beta Let_def get_to put_to)

lemma cancel_to: "R a c \<Longrightarrow> R a (snd (call_vla_cancel ops i c))"
  by (simp add: call_vla_cancel_def split_beta world_to)

lemmas leaf_steps_to = steps_to step_outcome_to vla_fail_to plan_error_to erase_job_to clear_key_to cancel_to

lemma request_state_to: "R a c \<Longrightarrow> R a (snd (request_state op c))"
  by (auto simp: request_state_def split_beta Let_def intro!: leaf_steps_to split: option.split sum.split list.split)

lemma request_instruction_to: "R a c \<Longrightarrow> R a (snd (request_instruction op c))"
  by (auto simp: request_instruction_def split_beta Let_def intro!: leaf_steps_to split: option.split bb_value.split)

lemma request_task_id_to: "R a c \<Longrightarrow> R a (snd (request_task_id op c))"
  by (auto simp: request_task_id_def split_beta Let_def intro!: leaf_steps_to split: option.split bb_value.split)

lemma request_limits_to: "R a c \<Longrightarrow> R a (snd (request_limits op state c))"
  by (auto simp: request_limits_def Let_def intro!: leaf_steps_to)

lemma request_forbidden_to: "R a c \<Longrightarrow> R a (snd (request_forbidden op c))"
  by (auto simp: request_forbidden_def intro!: leaf_steps_to split: option.split)

lemma request_image_to: "R a c \<Longrightarrow> R a (snd (request_image op c))"
  by (auto simp: request_image_def split_beta Let_def intro!: leaf_steps_to split: option.split bb_value.split)

lemma request_blob_to: "R a c \<Longrightarrow> R a (snd (request_blob op c))"
  by (auto simp: request_blob_def split_beta Let_def intro!: leaf_steps_to split: option.split bb_value.split)

lemma request_seed_to: "R a c \<Longrightarrow> R a (snd (request_seed op c))"
  by (auto simp: request_seed_def split_beta Let_def intro!: leaf_steps_to ebind_to split: option.split)

lemma build_vla_request_to: "R a c \<Longrightarrow> R a (snd (build_vla_request op c))"
  unfolding build_vla_request_def
  by (auto intro!: ebind_to request_state_to request_instruction_to request_task_id_to request_limits_to
      request_forbidden_to request_image_to request_blob_to request_seed_to)

lemma submit_vla_request_to: "R a c \<Longrightarrow> R a (snd (submit_vla_request ops n op req c))"
  by (auto simp: submit_vla_request_def split_beta Let_def intro!: leaf_steps_to split: sum.split)

lemma execute_vla_request_to: "R a c \<Longrightarrow> R a (snd (execute_vla_request svc n args c))"
  by (auto simp: execute_vla_request_def split_beta Let_def split: option.split
      intro!: ends_with_to ebind_to build_vla_request_to submit_vla_request_to leaf_steps_to)

lemma finish_wait_to: "R a c \<Longrightarrow> R a (finish_wait_job n op c)"
  by (simp add: finish_wait_job_def leaf_steps_to)

lemma commit_early_to: "R a c \<Longrightarrow> R a (commit_early ops n op i act confidence c)"
  by (auto simp: commit_early_def split_beta Let_def intro!: leaf_steps_to finish_wait_to)

lemma commit_final_to: "R a c \<Longrightarrow> R a (commit_final n op i act c)"
  by (auto simp: commit_final_def Let_def intro!: leaf_steps_to finish_wait_to)

lemma fail_wait_to: "R a c \<Longrightarrow> R a (fail_wait n op i p c)"
  by (auto simp: fail_wait_def Let_def intro!: leaf_steps_to finish_wait_to)

lemma poll_vla_job_to: "R a c \<Longrightarrow> R a (snd (poll_vla_job ops n op i c))"
  by (auto simp: poll_vla_job_def split_beta Let_def split: sum.split option.split
      intro!: leaf_steps_to commit_early_to commit_final_to fail_wait_to)

lemma execute_vla_wait_to: "R a c \<Longrightarrow> R a (snd (execute_vla_wait svc n args c))"
  by (auto simp: execute_vla_wait_def split_beta Let_def split: option.split
      intro!: ends_with_to ebind_to poll_vla_job_to leaf_steps_to)

lemma execute_vla_cancel_to: "R a c \<Longrightarrow> R a (snd (execute_vla_cancel svc n args c))"
  by (auto simp: execute_vla_cancel_def split_beta Let_def split: option.split
      intro!: ends_with_to ebind_to leaf_steps_to)

lemma plan_state_to: "R a c \<Longrightarrow> R a (snd (plan_state n op c))"
  by (auto simp: plan_state_def split_beta Let_def intro!: leaf_steps_to split: option.split sum.split)

lemma plan_vector_to: "R a c \<Longrightarrow> R a (snd (plan_vector_key key loc opt d c))"
  by (auto simp: plan_vector_key_def split_beta Let_def intro!: leaf_steps_to split: option.split sum.split)

lemma plan_seed_to: "R a c \<Longrightarrow> R a (snd (plan_seed ops op c))"
  by (auto simp: plan_seed_def split_beta Let_def intro!: leaf_steps_to ebind_to split: option.split)

lemma build_plan_request_to: "R a c \<Longrightarrow> R a (snd (build_plan_request ops n op c))"
  by (auto simp: build_plan_request_def split_beta Let_def
      intro!: ebind_to plan_state_to plan_vector_to plan_seed_to leaf_steps_to)

lemma call_end_to: "R a c \<Longrightarrow> R a (emit_planner_call_end started data c)"
  by (auto simp: emit_planner_call_end_def split_beta Let_def intro!: leaf_steps_to)

lemma finish_plan_to: "R a c \<Longrightarrow> R a (snd (finish_plan n op rq r c))"
  by (auto simp: finish_plan_def Let_def intro!: leaf_steps_to)

lemma call_planner_to: "R a c \<Longrightarrow> R a (snd (call_planner ops n op rq c))"
  by (auto simp: call_planner_def split_beta Let_def split: sum.split exn.split
      intro!: leaf_steps_to finish_plan_to call_end_to)

lemma execute_plan_action_to: "R a c \<Longrightarrow> R a (snd (execute_plan_action svc n args c))"
  by (auto simp: execute_plan_action_def split: option.split
      intro!: ends_with_to ebind_to build_plan_request_to call_planner_to leaf_steps_to)

subsection \<open>Halting\<close>

lemma obind_to:
  assumes "R a (snd m)" "\<And>x c. m = (Ret x, c) \<Longrightarrow> R a c \<Longrightarrow> R a (snd (f x c))"
  shows "R a (snd (obind m f))"
  using assms by (cases m; cases "fst m") (auto simp: obind_def)

lemma upd_memory_to: "R a c \<Longrightarrow> R a (upd_memory i f c)"
  by (simp add: upd_memory_def memory_to)

lemma memory_updates_to:
  "R a c \<Longrightarrow> R a (set_i0 i x c)"
  "R a c \<Longrightarrow> R a (clear_reactive_running_child i c)"
  "R a c \<Longrightarrow> R a (remember_reactive_running_child i x c)"
  by (simp_all add: set_i0_def clear_reactive_running_child_def remember_reactive_running_child_def upd_memory_to)

lemma node_halt_to: "R a c \<Longrightarrow> R a (emit_node_halt i reason c)" "R a c \<Longrightarrow> R a (emit_node_preempt i j reason c)"
  by (simp_all add: emit_node_halt_def emit_node_preempt_def trace_to)

lemma warn_once_to: "R a c \<Longrightarrow> R a (emit_unhaltable_warning_once i message c)"
  using trans [OF _ warned] by (auto simp: emit_unhaltable_warning_once_def Let_def intro!: steps_to)

lemma try_cancel_to: "R a c \<Longrightarrow> R a (snd (try_cancel_scheduler_leaf svc i reason c))"
  by (auto simp: try_cancel_scheduler_leaf_def split_beta Let_def split: option.split intro!: steps_to upd_memory_to)

lemma call_halt_to:
  assumes "respects_halt R reg" "R a c"
  shows "R a (snd (call_halt_fn reg n i c))"
proof (cases "find_action_halt (nd_leaf_name n) reg")
  case (Some fn)
  with assms have "R a (snd (fn c i))" unfolding respects_halt_def by (meson trans)
  then show ?thesis
    by (cases "fn c i") (auto simp: call_halt_fn_def Some split: sum.split exn.split intro!: warn_once_to)
qed (simp add: call_halt_fn_def assms)

lemma halt_action_to: "respects_halt R (ho_reg H) \<Longrightarrow> R a c \<Longrightarrow> R a (halt_action H n i reason c)"
  by (auto simp: halt_action_def split_beta Let_def intro!: warn_once_to try_cancel_to call_halt_to)

lemma halt_one_to: "respects_halt R (ho_reg H) \<Longrightarrow> R a c \<Longrightarrow> R a (halt_one H n i reason c)"
  by (auto simp: halt_one_def Let_def intro!: memory_to halt_action_to node_halt_to)

lemma halt_loop_to: "respects_halt R (ho_reg H) \<Longrightarrow> R a c \<Longrightarrow> R a (snd (halt_loop H hf d reason stack c))"
  by (induction H hf d reason stack c rule: halt_loop.induct) (auto split: sum.split intro: halt_one_to)

lemma halt_subtree_to: "respects_halt R (ho_reg H) \<Longrightarrow> R a c \<Longrightarrow> R a (snd (halt_subtree_impl H hf i reason c))"
  by (auto simp: halt_subtree_impl_def split: option.split intro: halt_loop_to)

lemma halt_child_to: "respects_halt R (ho_reg H) \<Longrightarrow> R a c \<Longrightarrow> R a (snd (halt_child_subtree H hf i j reason c))"
  by (auto simp: halt_child_subtree_def intro: halt_subtree_to node_halt_to)

lemma halt_all_to: "respects_halt R (ho_reg H) \<Longrightarrow> R a c \<Longrightarrow> R a (snd (halt_all H hf is reason c))"
  by (induction "is" arbitrary: c) (auto intro!: obind_to intro: halt_subtree_to)

lemma halt_children_to: "respects_halt R (ho_reg H) \<Longrightarrow> R a c \<Longrightarrow> R a (snd (halt_all_children H hf n reason c))"
  by (simp add: halt_all_children_def halt_all_to)

lemma halted_then_to: "R a (snd m) \<Longrightarrow> R a (snd (halted_then m st))"
  by (auto simp: halted_then_def intro: obind_to)

lemma halt_previous_to: "respects_halt R (ho_reg H) \<Longrightarrow> R a c \<Longrightarrow> R a (snd (halt_previous H hf p j reason c))"
  by (auto simp: halt_previous_def split: option.split intro: halt_child_to)

lemmas halts_to = halt_subtree_to halt_child_to halt_children_to halted_then_to halt_previous_to

subsection \<open>Ticking\<close>

lemma seq_loop_to:
  assumes tk: "\<And>a i c. R a c \<Longrightarrow> R a (snd (tk i c))"
  shows "R a c \<Longrightarrow> R a (snd (seq_loop tk cs c))"
proof (induction cs arbitrary: c)
  case (Cons i cs)
  then show ?case unfolding seq_loop.simps by (intro obind_to tk) auto
qed simp

lemma sel_loop_to:
  assumes tk: "\<And>a i c. R a c \<Longrightarrow> R a (snd (tk i c))"
  shows "R a c \<Longrightarrow> R a (snd (sel_loop tk cs c))"
proof (induction cs arbitrary: c)
  case (Cons i cs)
  then show ?case unfolding sel_loop.simps by (intro obind_to tk) auto
qed simp

lemma mem_seq_loop_to:
  assumes tk: "\<And>a i c. R a c \<Longrightarrow> R a (snd (tk i c))" and H: "respects_halt R (ho_reg H)"
  shows "R a c \<Longrightarrow> R a (snd (mem_seq_loop H hf tk n index cs c))"
proof (induction cs arbitrary: c index)
  case Nil
  then show ?case using H by (simp add: halts_to memory_updates_to)
next
  case (Cons i cs)
  then show ?case unfolding mem_seq_loop.simps
    by (intro obind_to tk) (auto split: status.split intro: memory_updates_to)
qed

lemma mem_sel_loop_to:
  assumes tk: "\<And>a i c. R a c \<Longrightarrow> R a (snd (tk i c))" and H: "respects_halt R (ho_reg H)"
  shows "R a c \<Longrightarrow> R a (snd (mem_sel_loop H hf tk n index cs c))"
proof (induction cs arbitrary: c index)
  case Nil
  then show ?case by (simp add: upd_memory_to)
next
  case (Cons i cs)
  then show ?case unfolding mem_sel_loop.simps
    by (intro obind_to tk) (use H in \<open>auto split: status.split intro: halts_to upd_memory_to\<close>)
qed

lemma reactive_seq_loop_to:
  assumes tk: "\<And>a i c. R a c \<Longrightarrow> R a (snd (tk i c))" and H: "respects_halt R (ho_reg H)"
  shows "R a c \<Longrightarrow> R a (snd (reactive_seq_loop H hf tk n p i cs c))"
proof (induction cs arbitrary: c i)
  case Nil
  then show ?case using H by (auto intro!: obind_to halt_previous_to memory_updates_to)
next
  case (Cons j cs)
  then show ?case unfolding reactive_seq_loop.simps
    by (intro obind_to tk) (use H in \<open>auto split: status.split intro!: obind_to intro: halt_previous_to memory_updates_to\<close>)
qed

lemma reactive_sel_loop_to:
  assumes tk: "\<And>a i c. R a c \<Longrightarrow> R a (snd (tk i c))" and H: "respects_halt R (ho_reg H)"
  shows "R a c \<Longrightarrow> R a (snd (reactive_sel_loop H hf tk n p q i cs c))"
proof (induction cs arbitrary: c i)
  case Nil
  then show ?case using H by (auto intro!: obind_to halt_previous_to memory_updates_to)
next
  case (Cons j cs)
  then show ?case unfolding reactive_sel_loop.simps
    by (intro obind_to tk) (use H in \<open>auto intro!: obind_to intro: halt_previous_to memory_updates_to\<close>)
qed

lemma tick_child_to: "(\<And>a i c. R a c \<Longrightarrow> R a (snd (tk i c))) \<Longrightarrow> R a c \<Longrightarrow> R a (snd (tick_child_at tk n index c))"
  by (auto simp: tick_child_at_def)

lemma composites_to:
  assumes tk: "\<And>a i c. R a c \<Longrightarrow> R a (snd (tk i c))" and H: "respects_halt R (ho_reg H)" and ac: "R a c"
  shows "R a (snd (tick_mem_seq H hf tk n c))" "R a (snd (tick_mem_sel H hf tk n c))"
    "R a (snd (tick_async_seq H hf tk n c))" "R a (snd (tick_reactive_seq H hf tk n c))"
    "R a (snd (tick_reactive_sel H hf tk n c))"
  using ac
  by (auto simp: tick_mem_seq_def tick_mem_sel_def tick_async_seq_def tick_reactive_seq_def tick_reactive_sel_def Let_def
      intro!: mem_seq_loop_to mem_sel_loop_to reactive_seq_loop_to reactive_sel_loop_to obind_to halts_to memory_updates_to memory_for_to tick_child_to tk H
      split: status.split)

lemma decorators_to:
  assumes tk: "\<And>a i c. R a c \<Longrightarrow> R a (snd (tk i c))" and ac: "R a c"
  shows "R a (snd (tick_invert tk n c))" "R a (snd (tick_repeat tk n c))" "R a (snd (tick_retry tk n c))"
  using ac
  by (auto simp: tick_invert_def tick_repeat_def tick_retry_def Let_def
      intro!: obind_to memory_updates_to upd_memory_to memory_for_to tick_child_to tk split: status.split)

lemma args_to: "R a c \<Longrightarrow> R a (snd (materialize_args svc n c))"
  by (simp add: materialize_args_def Let_def world_to)

lemma leaf_error_to: "R a c \<Longrightarrow> R a (leaf_error n category msg c)"
  by (simp add: leaf_error_def log_to trace_to)

lemma tick_cond_to:
  assumes "respects_condition R (ho_reg H)" "R a c"
  shows "R a (snd (tick_cond H n c))"
proof (cases "find_condition (nd_leaf_name n) (ho_reg H)")
  case (Some fn)
  define r where "r = fn (snd (materialize_args (ho_svc H) n c)) (fst (materialize_args (ho_svc H) n c))"
  have "R a (snd r)"
    using Some assms args_to [OF assms(2), of "ho_svc H" n] trans unfolding r_def respects_condition_def by blast
  then show ?thesis
    by (auto simp: tick_cond_def Some split_beta Let_def r_def [symmetric]
        split: prod.split sum.split exn.split intro!: leaf_error_to)
qed (simp add: tick_cond_def assms leaf_error_to)

lemma tick_act_to:
  assumes "respects_action R (ho_reg H)" "R a c"
  shows "R a (snd (tick_act H n c))"
proof (cases "find_action (nd_leaf_name n) (ho_reg H)")
  case (Some fn)
  define c1 where "c1 = materialize_args (ho_svc H) n (node_memory_for (nd_id n) c)"
  define r where "r = fn (snd c1) (nd_id n) (fst c1)"
  have "R a (snd c1)"
    unfolding c1_def by (intro args_to memory_for_to assms)
  then have "R a (snd r)"
    using Some assms trans unfolding r_def respects_action_def by blast
  then show ?thesis
    by (auto simp: tick_act_def Some split_beta Let_def c1_def [symmetric] r_def [symmetric]
        split: prod.split sum.split exn.split intro!: leaf_error_to)
qed (simp add: tick_act_def assms leaf_error_to)

lemma catch_std_to:
  "R a (snd m) \<Longrightarrow> (\<And>msg c. R a c \<Longrightarrow> R a (h msg c)) \<Longrightarrow> R a (snd (catch_std m h))"
  by (auto simp: catch_std_def split: prod.split outcome.split exn.split)

lemma service_leaves_to:
  assumes "R a c"
  shows "R a (snd (tick_plan_action H n c))" "R a (snd (tick_vla_request H n c))"
    "R a (snd (tick_vla_wait H n c))" "R a (snd (tick_vla_cancel H n c))"
  using assms
  by (auto simp: tick_plan_action_def tick_vla_request_def tick_vla_wait_def tick_vla_cancel_def split_beta Let_def
      intro!: catch_std_to execute_plan_action_to execute_vla_request_to execute_vla_wait_to execute_vla_cancel_to
        args_to leaf_error_to log_to)

lemma tick_body_to:
  assumes tk: "\<And>a i c. R a c \<Longrightarrow> R a (snd (tk i c))" and H: "callbacks_respect R H" and ac: "R a c"
  shows "R a (snd (tick_body H hf tk n c))"
proof -
  have hs: "respects_condition R (ho_reg H)" "respects_action R (ho_reg H)" "respects_halt R (ho_reg H)"
    using H by (simp_all add: callbacks_respect_def)
  note facts = seq_loop_to [OF tk ac] sel_loop_to [OF tk ac] composites_to [OF tk hs(3) ac] decorators_to [OF tk ac]
    tick_cond_to [OF hs(1) ac] tick_act_to [OF hs(2) ac] service_leaves_to [OF ac] ac
  show ?thesis
    by (cases "nd_kind n") (simp_all add: tick_body_def facts)
qed

lemma tick_scoped_to:
  assumes tk: "\<And>a i c. R a c \<Longrightarrow> R a (snd (tk i c))" and H: "callbacks_respect R H" and ac: "R a c"
  shows "R a (snd (tick_scoped H hf tk n c))"
proof -
  define c1 where "c1 = snd (node_scope_enter n c)"
  define sc where "sc = fst (node_scope_enter n c)"
  obtain r c2 where body: "tick_body H hf tk n c1 = (r, c2)" by fastforce
  have "R c1 (snd (tick_body H hf tk n c1))"
    by (rule tick_body_to [OF tk H refl])
  with body have "R c1 c2" by simp
  then have exits: "R c (node_scope_exit sc n st (finalize n c2))" "R c (node_scope_exit sc n st c2)" for st
    unfolding c1_def sc_def by (simp_all add: scoped trans [OF _ finalized])
  have "tick_scoped H hf tk n c =
      (case r of Ret st \<Rightarrow> (Ret st, node_scope_exit sc n st (finalize n c2))
       | Throw e \<Rightarrow> (Throw e, node_scope_exit sc n Failure c2) | Undef \<Rightarrow> (Undef, c) | Diverge \<Rightarrow> (Diverge, c))"
    by (simp add: tick_scoped_def split_beta c1_def [symmetric] sc_def [symmetric] body split: outcome.split)
  then show ?thesis
    using ac exits trans [OF ac] by (cases r) simp_all
qed

theorem tick_node_to:
  "callbacks_respect R H \<Longrightarrow> R a c \<Longrightarrow> R a (snd (tick_node H hf k i c))"
proof (induction k arbitrary: a i c)
  case (Suc k)
  show ?case
  proof (cases "in_def (cx_inst c)")
    case (Some d)
    have "R a (snd (tick_scoped H hf (tick_node H hf k) n c))" for n
      by (rule tick_scoped_to) (use Suc in auto)
    then show ?thesis using Some Suc.prems by (simp split: sum.split)
  qed (use Suc.prems in simp)
qed simp

end

subsection \<open>The frame of a tick\<close>

text \<open>
  \<open>same_frame\<close>: what callers of a node rely on finding unchanged afterwards. The current node and the
  node path are restored by the scope of every node.
\<close>

definition same_frame :: "('w, 'p) tick_context \<Rightarrow> ('w, 'p) tick_context \<Rightarrow> bool" where
  "same_frame c c' \<longleftrightarrow>
     in_def (cx_inst c') = in_def (cx_inst c) \<and>
     in_handle (cx_inst c') = in_handle (cx_inst c) \<and>
     in_tick_index (cx_inst c') = in_tick_index (cx_inst c) \<and>
     in_trace_enabled (cx_inst c') = in_trace_enabled (cx_inst c) \<and>
     in_read_trace_enabled (cx_inst c') = in_read_trace_enabled (cx_inst c) \<and>
     in_tree_stats (cx_inst c') = in_tree_stats (cx_inst c) \<and>
     cx_tick_index c' = cx_tick_index c \<and> cx_now c' = cx_now c \<and>
     cx_tick_started_at c' = cx_tick_started_at c \<and> cx_tick_deadline c' = cx_tick_deadline c \<and>
     cx_current_node c' = cx_current_node c \<and> cx_node_path c' = cx_node_path c"

definition alist_keys :: "('k, 'v) alist \<Rightarrow> 'k set" where
  "alist_keys xs = set (map fst xs)"

text \<open>
  \<open>grows\<close>: no entry of the blackboard, of the node memory or of the profile is ever removed, and the
  counters of the tick never go down.
\<close>

definition grows :: "('w, 'p) tick_context \<Rightarrow> ('w, 'p) tick_context \<Rightarrow> bool" where
  "grows c c' \<longleftrightarrow>
     dom (in_memory (cx_inst c)) \<subseteq> dom (in_memory (cx_inst c')) \<and>
     alist_keys (in_bb (cx_inst c)) \<subseteq> alist_keys (in_bb (cx_inst c')) \<and>
     alist_keys (in_node_stats (cx_inst c)) \<subseteq> alist_keys (in_node_stats (cx_inst c')) \<and>
     set (in_halt_warning_emitted (cx_inst c)) \<subseteq> set (in_halt_warning_emitted (cx_inst c')) \<and>
     cx_planner_calls c \<le> cx_planner_calls c' \<and> cx_vla_submits c \<le> cx_vla_submits c' \<and>
     cx_vla_polls c \<le> cx_vla_polls c'"

lemma enter_frame [simp]:
  "cx_inst (snd (node_scope_enter n c)) = cx_inst c"
  "cx_world (snd (node_scope_enter n c)) = cx_world c"
  "cx_tick_index (snd (node_scope_enter n c)) = cx_tick_index c"
  "cx_now (snd (node_scope_enter n c)) = cx_now c"
  "cx_tick_started_at (snd (node_scope_enter n c)) = cx_tick_started_at c"
  "cx_tick_deadline (snd (node_scope_enter n c)) = cx_tick_deadline c"
  "cx_current_node (snd (node_scope_enter n c)) = nd_id n"
  "cx_last_node_path (snd (node_scope_enter n c)) = cx_last_node_path c"
  "cx_terminal_node_id (snd (node_scope_enter n c)) = cx_terminal_node_id c"
  "cx_planner_calls (snd (node_scope_enter n c)) = cx_planner_calls c"
  "cx_vla_submits (snd (node_scope_enter n c)) = cx_vla_submits c"
  "cx_vla_polls (snd (node_scope_enter n c)) = cx_vla_polls c"
  "ns_prev_node (fst (node_scope_enter n c)) = cx_current_node c"
  by (simp_all add: node_scope_enter_def Let_def split_beta tick_now_def)

lemma enter_path:
  "cx_node_path (snd (node_scope_enter n c)) =
     (if ns_track_node_path (fst (node_scope_enter n c)) then cx_node_path c @ [nd_id n] else cx_node_path c)"
  by (simp add: node_scope_enter_def Let_def split_beta tick_now_def)

lemma exit_frame [simp]:
  "cx_world (node_scope_exit sc n st c) = cx_world c"
  "cx_tick_index (node_scope_exit sc n st c) = cx_tick_index c"
  "cx_now (node_scope_exit sc n st c) = cx_now c"
  "cx_tick_started_at (node_scope_exit sc n st c) = cx_tick_started_at c"
  "cx_tick_deadline (node_scope_exit sc n st c) = cx_tick_deadline c"
  "cx_current_node (node_scope_exit sc n st c) = ns_prev_node sc"
  "cx_node_path (node_scope_exit sc n st c) =
     (if ns_track_node_path sc then butlast (cx_node_path c) else cx_node_path c)"
  "cx_last_node_path (node_scope_exit sc n st c) = cx_last_node_path c"
  "cx_terminal_node_id (node_scope_exit sc n st c) = cx_terminal_node_id c"
  "cx_planner_calls (node_scope_exit sc n st c) = cx_planner_calls c"
  "cx_vla_submits (node_scope_exit sc n st c) = cx_vla_submits c"
  "cx_vla_polls (node_scope_exit sc n st c) = cx_vla_polls c"
  by (auto simp: node_scope_exit_def Let_def split_beta tick_now_def)

lemma exit_inst:
  "\<exists>s. cx_inst (node_scope_exit sc n st c) =
     (cx_inst c)\<lparr>in_node_stats := alist_put (nd_id n) s (in_node_stats (cx_inst c))\<rparr>"
  by (auto simp: node_scope_exit_def Let_def split_beta tick_now_def)

lemma finalize_frame [simp]:
  "cx_inst (finalize n c) = cx_inst c" "cx_world (finalize n c) = cx_world c"
  "cx_tick_index (finalize n c) = cx_tick_index c" "cx_now (finalize n c) = cx_now c"
  "cx_tick_started_at (finalize n c) = cx_tick_started_at c" "cx_tick_deadline (finalize n c) = cx_tick_deadline c"
  "cx_current_node (finalize n c) = cx_current_node c" "cx_node_path (finalize n c) = cx_node_path c"
  "cx_planner_calls (finalize n c) = cx_planner_calls c" "cx_vla_submits (finalize n c) = cx_vla_submits c"
  "cx_vla_polls (finalize n c) = cx_vla_polls c" "cx_obs (finalize n c) = cx_obs c"
  by (simp_all add: finalize_def)

interpretation frame: context_relation same_frame
proof unfold_locales
  fix c c' :: "('w, 'p) tick_context" and n st
  assume "same_frame (snd (node_scope_enter n c)) c'"
  then show "same_frame c (node_scope_exit (fst (node_scope_enter n c)) n st c')"
    using exit_inst [of "fst (node_scope_enter n c)" n st c']
    by (auto simp: same_frame_def enter_path)
qed (auto simp: same_frame_def)

lemma alist_keys_put [simp]: "alist_keys (alist_put k v xs) = insert k (alist_keys xs)"
proof (induction xs)
  case (Cons x xs)
  then show ?case by (cases x) (simp add: alist_keys_def insert_commute)
qed (simp add: alist_keys_def)

interpretation growing: context_relation grows
proof unfold_locales
  fix c c' :: "('w, 'p) tick_context" and n st
  assume "grows (snd (node_scope_enter n c)) c'"
  then show "grows c (node_scope_exit (fst (node_scope_enter n c)) n st c')"
    using exit_inst [of "fst (node_scope_enter n c)" n st c']
    by (auto simp: grows_def)
next
  fix a b c :: "('w, 'p) tick_context"
  assume "grows a b" "grows b c"
  then show "grows a c" unfolding grows_def by (meson order_trans)
qed (auto simp: grows_def in_memory_set_memory bb_store_def)

end
