(* ===== verification/Tick.thy ===== *)
theory Tick
  imports Runtime
begin

text \<open>
  The entry points of the runtime, \<open>tick\<close>, \<open>halt_subtree\<close>, \<open>reset\<close>, \<open>set_tick_budget_ms\<close> and the
  dumps of \<open>src/bt/runtime.cpp\<close>, with the tick audit and the tick scope (budget accounting, overrun
  handling, cancellation of VLA jobs).
\<close>

subsection \<open>The tick audit\<close>

definition event_log_sink_name :: "event_log \<Rightarrow> string" where
  "event_log_sink_name ev =
     (if \<not> el_enabled ev then ''disabled''
      else if el_file_enabled ev \<and> el_listener ev then ''file+listener''
      else if el_file_enabled ev then ''file''
      else if el_listener ev then ''listener''
      else if el_ring_capacity ev > 0 then ''ring''
      else ''disabled'')"

definition event_log_flush_policy_name :: "event_log \<Rightarrow> string" where
  "event_log_flush_policy_name ev =
     (if \<not> el_enabled ev then ''none''
      else if el_flush_each_message ev then ''each_message''
      else if el_flush_on_tick_end ev then ''tick_end''
      else ''manual'')"

definition node_path_json :: "node_id list \<Rightarrow> string" where
  "node_path_json path = ''['' @ comma_join (map nat_str path) @ '']''"

text \<open>What a tick did to the heap: the differences of two snapshots, as \<open>tick_audit\<close> reports them.\<close>

record audit_delta =
  hd_allocation_count :: nat
  hd_live_bytes_delta :: int
  hd_allocation_bytes :: nat
  hd_collections :: nat
  hd_pause_ns :: nat
  hd_freed_objects :: nat
  hd_forced :: nat

definition heap_delta :: "gc_stats_snapshot \<Rightarrow> gc_stats_snapshot \<Rightarrow> audit_delta" where
  "heap_delta a b =
     (let live = int (gs_bytes_allocated b) - int (gs_bytes_allocated a) in
      \<lparr>hd_allocation_count = gs_total_allocated_objects b - gs_total_allocated_objects a,
       hd_live_bytes_delta = live,
       hd_allocation_bytes = (if live > 0 then nat live else 0),
       hd_collections = gs_collection_count b - gs_collection_count a,
       hd_pause_ns = gs_total_pause_ns b - gs_total_pause_ns a,
       hd_freed_objects = gs_freed_objects_total b - gs_freed_objects_total a,
       hd_forced = gs_forced_collection_count b - gs_forced_collection_count a\<rparr>)"

definition audit_violation :: "event_log \<Rightarrow> audit_delta \<Rightarrow> bool \<Rightarrow> string" where
  "audit_violation ev d deadline_missed =
     (if el_tick_audit_strict_allocations ev \<and> el_tick_audit_warmup_complete ev \<and>
         (hd_allocation_count d > 0 \<or> hd_allocation_bytes d > 0) then ''allocation''
      else if hd_collections d > 0 then ''tick_gc''
      else if deadline_missed then ''deadline''
      else ''none'')"

definition audit_heap_json :: "gc_stats_snapshot \<Rightarrow> gc_stats_snapshot \<Rightarrow> audit_delta \<Rightarrow> string" where
  "audit_heap_json a b d =
     jkey ''allocation_count'' @ nat_str (hd_allocation_count d) @ '','' @
     jkey ''allocation_bytes'' @ nat_str (hd_allocation_bytes d) @ '','' @
     jkey ''heap_live_bytes_before'' @ nat_str (gs_bytes_allocated a) @ '','' @
     jkey ''heap_live_bytes_after'' @ nat_str (gs_bytes_allocated b) @ '','' @
     jkey ''heap_live_bytes_delta'' @ int_str (hd_live_bytes_delta d) @ '','' @
     jkey ''gc_collections_delta'' @ nat_str (hd_collections d) @ '','' @
     jkey ''gc_pause_ns_delta'' @ nat_str (hd_pause_ns d) @ '','' @
     jkey ''gc_live_objects_after'' @ nat_str (gs_live_objects_after_last_gc b) @ '','' @
     jkey ''gc_freed_objects_delta'' @ nat_str (hd_freed_objects d) @ '','' @
     jkey ''gc_forced'' @ bool_json (hd_forced d > 0) @ '',''"

definition audit_run_json :: "status \<Rightarrow> time_ns \<Rightarrow> bool \<Rightarrow> ('w, 'p) tick_context \<Rightarrow> string" where
  "audit_run_json root_status elapsed deadline_missed c =
     jkey ''root_node_id'' @ nat_str (case in_def (cx_inst c) of Some d \<Rightarrow> df_root d | None \<Rightarrow> 0) @ '','' @
     jkey ''root_status'' @ status_json root_status @ '','' @
     jkey ''node_path'' @ node_path_json (if cx_last_node_path c = [] then cx_node_path c else cx_last_node_path c) @
     (case cx_terminal_node_id c of Some i \<Rightarrow> '','' @ jkey ''terminal_node_id'' @ nat_str i | None \<Rightarrow> []) @
     '','' @ jkey ''active_async_jobs'' @ nat_str (length (in_active_vla_jobs (cx_inst c))) @
     '','' @ jkey ''planner_calls'' @ nat_str (cx_planner_calls c) @
     '','' @ jkey ''vla_submits'' @ nat_str (cx_vla_submits c) @
     '','' @ jkey ''vla_polls'' @ nat_str (cx_vla_polls c) @
     '','' @ jkey ''fallback_used'' @ ''false'' @
     '','' @ jkey ''deadline_missed'' @ bool_json deadline_missed @
     (if tp_configured_tick_budget (in_tree_stats (cx_inst c)) > 0
      then '','' @ jkey ''tick_budget_ms'' @ fp_str (ms_of_ns (tp_configured_tick_budget (in_tree_stats (cx_inst c)))) else []) @
     '','' @ jkey ''tick_elapsed_ns'' @ int_str elapsed"

definition audit_mode_json :: "gc_policy \<Rightarrow> event_log \<Rightarrow> string" where
  "audit_mode_json policy ev =
     jkey ''logging_mode'' @ ''{'' @ jkey ''enabled'' @ bool_json (el_enabled ev) @
     '','' @ jkey ''sink'' @ quoted (event_log_sink_name ev) @
     '','' @ jkey ''flush_policy'' @ quoted (event_log_flush_policy_name ev) @
     '','' @ jkey ''includes_canonical_events_in_window'' @ ''true'' @
     (if el_ring_capacity ev > 0 then '','' @ jkey ''ring_size'' @ nat_str (el_ring_capacity ev) else []) @
     (if el_file_enabled ev then '','' @ jkey ''event_log_path'' @ quoted (json_escape (el_path ev)) else []) @
     ''},'' @ jkey ''audit_mode'' @ ''{'' @ jkey ''enabled'' @ ''true,'' @
     jkey ''strict_allocations'' @ bool_json (el_tick_audit_strict_allocations ev) @ '','' @
     jkey ''strict_gc'' @ bool_json (policy = P_fail_on_tick_gc) @ '','' @
     jkey ''warmup_complete'' @ bool_json (el_tick_audit_warmup_complete ev) @ '','' @
     jkey ''allowed_allocation_count'' @ ''0,'' @ jkey ''allowed_allocation_bytes'' @ ''0,'' @
     jkey ''gc_policy'' @ quoted (policy_name policy) @ ''}''"

definition emit_tick_audit_event ::
  "'w services \<Rightarrow> status \<Rightarrow> time_ns \<Rightarrow> bool \<Rightarrow> gc_stats_snapshot \<Rightarrow> gc_stats_snapshot \<Rightarrow> ('w, 'p) tick_context \<Rightarrow> ('w, 'p) tick_context" where
  "emit_tick_audit_event svc root_status elapsed deadline_missed gc_start gc_end c =
     (case ob_events (cx_obs c) of
        None \<Rightarrow> c
      | Some ev \<Rightarrow>
          if \<not> el_tick_audit_enabled ev then c
          else
            let d = heap_delta gc_start gc_end in
            emit_event_data ''tick_audit''
              (''{'' @ jkey ''schema_version'' @ quoted ''tick_audit.v1'' @ '','' @
               jkey ''tick_id'' @ nat_str (cx_tick_index c) @ '','' @
               jkey ''measurement_window'' @ quoted ''tick_pre_begin_to_tick_end_pre_audit'' @ '','' @
               audit_heap_json gc_start gc_end d @ audit_run_json root_status elapsed deadline_missed c @
               '','' @ jkey ''violation'' @ quoted (audit_violation ev d deadline_missed) @ '','' @
               audit_mode_json (gh_policy (sv_heap svc (cx_world c))) ev @ ''}'') c)"

subsection \<open>The tick scope\<close>

definition count_tick :: "time_ns \<Rightarrow> ('w, 'p) tick_context \<Rightarrow> ('w, 'p) tick_context" where
  "count_tick elapsed c =
     c\<lparr>cx_inst := (cx_inst c)\<lparr>in_tree_stats := (in_tree_stats (cx_inst c))
       \<lparr>tp_tick_duration := observe elapsed (tp_configured_tick_budget (in_tree_stats (cx_inst c)))
           (tp_tick_duration (in_tree_stats (cx_inst c))),
        tp_tick_count := Suc (tp_tick_count (in_tree_stats (cx_inst c)))\<rparr>\<rparr>\<rparr>"

definition deadline_missed :: "time_ns \<Rightarrow> ('w, 'p) tick_context \<Rightarrow> bool" where
  "deadline_missed elapsed c \<longleftrightarrow>
     tp_configured_tick_budget (in_tree_stats (cx_inst c)) > 0 \<and>
     elapsed > tp_configured_tick_budget (in_tree_stats (cx_inst c))"

definition cancel_overrun_job :: "'w vla_ops \<Rightarrow> node_id \<times> nat \<Rightarrow> ('w, 'p) tick_context \<Rightarrow> ('w, 'p) tick_context" where
  "cancel_overrun_job ops nj c =
     (let (node, job) = nj;
          reason = str_member ''reason'' ''tick_deadline_exceeded'';
          c = emit_event_data ''async_cancel_requested'' (job_json job node reason) c;
          (accepted, c) = call_vla_cancel ops job c;
          c = emit_event_data ''async_cancel_acknowledged'' (job_json job node (bool_member ''accepted'' accepted @ reason)) c
      in emit_outcome_event (cancel_outcome_type accepted) ''tick_deadline_exceeded'' (Some node) (Some (nat_str job))
           (Some ''tick_deadline_exceeded'') c)"

definition cancel_overrun_jobs :: "'w vla_ops option \<Rightarrow> ('w, 'p) tick_context \<Rightarrow> ('w, 'p) tick_context" where
  "cancel_overrun_jobs svc c =
     (case svc of
        None \<Rightarrow> c
      | Some ops \<Rightarrow>
          let jobs = in_active_vla_jobs (cx_inst c);
              c = fold (cancel_overrun_job ops) jobs c
          in c\<lparr>cx_inst := (cx_inst c)\<lparr>in_active_vla_jobs :=
               fold alist_erase (map fst jobs) (in_active_vla_jobs (cx_inst c))\<rparr>\<rparr>)"

definition tick_overrun :: "'w services \<Rightarrow> status \<Rightarrow> time_ns \<Rightarrow> ('w, 'p) tick_context \<Rightarrow> ('w, 'p) tick_context" where
  "tick_overrun svc st elapsed c =
     (let ts = in_tree_stats (cx_inst c);
          budget_ms = ms_of_ns (tp_configured_tick_budget ts);
          elapsed_ms = ms_of_ns elapsed;
          c = c\<lparr>cx_inst := (cx_inst c)\<lparr>in_tree_stats := ts\<lparr>tp_tick_overrun_count := Suc (tp_tick_overrun_count ts)\<rparr>\<rparr>\<rparr>;
          c = emit_trace ((make_trace_event TE_warning)\<lparr>te_status := st, te_duration := elapsed,
                te_message := ''tick budget overrun''\<rparr>) c;
          c = emit_log L_warn ''bt'' ''tick budget overrun'' c;
          c = emit_budget_warning_event ''tick_end'' None (fp_sub budget_ms elapsed_ms) 0 ''tick_budget_overrun'' c;
          c = emit_deadline_exceeded_event None ''tick_end'' budget_ms elapsed_ms c
      in cancel_overrun_jobs (sv_vla svc) c)"

definition tick_end_json :: "status \<Rightarrow> time_ns \<Rightarrow> time_ns \<Rightarrow> string" where
  "tick_end_json st elapsed budget =
     ''{'' @ jkey ''root_status'' @ status_json st @ '','' @ jkey ''tick_ms'' @ fp_str (ms_of_ns elapsed) @
     (if budget > 0 then '','' @ jkey ''tick_budget_ms'' @ fp_str (ms_of_ns budget) else []) @ ''}''"

definition tick_scope_exit ::
  "'w services \<Rightarrow> time_ns \<Rightarrow> gc_stats_snapshot \<Rightarrow> status \<Rightarrow> ('w, 'p) tick_context \<Rightarrow> ('w, 'p) tick_context" where
  "tick_scope_exit svc started_at gc_start st c =
     (let (t, c) = tick_now c;
          elapsed = t - started_at;
          budget = tp_configured_tick_budget (in_tree_stats (cx_inst c));
          c = count_tick elapsed c;
          missed = deadline_missed elapsed c;
          c = (if missed then tick_overrun svc st elapsed c else c);
          c = emit_trace ((make_trace_event TE_tick_end)\<lparr>te_status := st, te_duration := elapsed\<rparr>) c;
          c = emit_event_data ''tick_end'' (tick_end_json st elapsed budget) c;
          c = emit_outcome_event (if missed then ''tick_deadline_missed'' else ''tick_ok'') ''bt.tick''
                (cx_terminal_node_id c) None (if missed then Some ''tick_budget_overrun'' else None) c
      in emit_tick_audit_event svc st elapsed missed gc_start (gc_stats (sv_heap svc (cx_world c))) c)"

subsection \<open>Entry points\<close>

definition bb_snapshot_json :: "bool \<Rightarrow> blackboard \<Rightarrow> string" where
  "bb_snapshot_json full bb =
     (let entries = bb_snapshot bb;
          shown = (if full then entries else take 256 entries)
      in ''{'' @ jkey ''entries'' @ ''['' @
         comma_join (map (\<lambda>(k, e). ''['' @ quoted (json_escape k) @ '','' @ bb_value_json (be_value e) @ '']'') shown) @ '']}'')"

definition tick_begin_event :: "nat \<Rightarrow> time_ns \<Rightarrow> blackboard \<Rightarrow> event_log \<Rightarrow> event_log" where
  "tick_begin_event tick budget bb ev =
     (let ev = ensure_run_started [] default_capabilities ev;
          budget_ms = ns_to_ms budget;
          ev = el_emit ''tick_begin'' (Some tick)
                 (if budget_ms > 0 then ''{'' @ jkey ''tick_budget_ms'' @ int_str budget_ms @ ''}'' else ''{}'') ev;
          (requested, full, ev) = consume_snapshot_bb_request ev
      in if requested then el_emit ''bb_snapshot'' (Some tick) (bb_snapshot_json full bb) ev else ev)"

definition with_heap :: "'w services \<Rightarrow> (gc_heap \<Rightarrow> gc_heap) \<Rightarrow> 'w \<Rightarrow> 'w" where
  "with_heap svc f w = sv_set_heap svc (f (sv_heap svc w)) w"

definition new_context ::
  "'p instance_state \<Rightarrow> obs \<Rightarrow> 'w \<Rightarrow> time_ns \<Rightarrow> time_ns option \<Rightarrow> node_id \<Rightarrow> ('w, 'p) tick_context" where
  "new_context inst ob w now deadline node =
     \<lparr>cx_inst = inst, cx_obs = ob, cx_world = w, cx_tick_index = in_tick_index inst, cx_now = now,
      cx_tick_started_at = now, cx_tick_deadline = deadline, cx_current_node = node, cx_node_path = [],
      cx_last_node_path = [], cx_terminal_node_id = None, cx_planner_calls = 0, cx_vla_submits = 0,
      cx_vla_polls = 0\<rparr>"

text \<open>
  The parts of \<open>tick\<close>: everything before the root is ticked, and the destructors that run at its end,
  \<open>tick_scope\<close> (with status failure when an exception passes) and then \<open>gc_tick_scope\<close>.
\<close>

definition tick_prepare ::
  "'w services \<Rightarrow> bt_definition \<Rightarrow> 'p instance_state \<Rightarrow> obs \<Rightarrow> 'w \<Rightarrow> time_ns \<times> gc_stats_snapshot \<times> ('w, 'p) tick_context" where
  "tick_prepare svc d inst ob w =
     (let inst = inst\<lparr>in_tick_index := Suc (in_tick_index inst)\<rparr>;
          (tick_start, ob) = now_obs ob;
          w = with_heap svc enter_tick w;
          gc_start = gc_stats (sv_heap svc w);
          budget = tp_configured_tick_budget (in_tree_stats inst);
          ob = ob\<lparr>ob_events := map_option (tick_begin_event (in_tick_index inst) budget (in_bb inst)) (ob_events ob)\<rparr>;
          c = new_context inst ob w tick_start (if budget > 0 then Some (tick_start + budget) else None) (df_root d)
      in (tick_start, gc_start, emit_trace ((make_trace_event TE_tick_begin)\<lparr>te_node := df_root d\<rparr>) c))"

definition gc_tick_exit :: "'w services \<Rightarrow> status outcome \<Rightarrow> ('w, 'p) tick_context \<Rightarrow> ('w, 'p) ticked" where
  "gc_tick_exit svc r c =
     (case exit_tick (sv_heap svc (cx_world c)) of
        Ret h \<Rightarrow> (r, c\<lparr>cx_world := sv_set_heap svc h (cx_world c)\<rparr>)
      | Throw e \<Rightarrow> (Throw e, c)
      | Undef \<Rightarrow> (Undef, c)
      | Diverge \<Rightarrow> (Diverge, c))"

definition tick_finish :: "'w services \<Rightarrow> time_ns \<Rightarrow> gc_stats_snapshot \<Rightarrow> ('w, 'p) ticked \<Rightarrow> ('w, 'p) ticked" where
  "tick_finish svc tick_start gc_start r =
     (case r of
        (Ret st, c) \<Rightarrow> gc_tick_exit svc (Ret st) (tick_scope_exit svc tick_start gc_start st c)
      | (Throw e, c) \<Rightarrow> gc_tick_exit svc (Throw e) (tick_scope_exit svc tick_start gc_start Failure c)
      | (Undef, c) \<Rightarrow> (Undef, c)
      | (Diverge, c) \<Rightarrow> (Diverge, c))"

definition tick ::
  "('w, 'p) host \<Rightarrow> nat \<Rightarrow> nat \<Rightarrow> 'p instance_state \<Rightarrow> obs \<Rightarrow> 'w \<Rightarrow>
     status outcome \<times> 'p instance_state \<times> obs \<times> 'w" where
  "tick H hf k inst ob w =
     (case in_def inst of
        None \<Rightarrow> (Throw (Std_exception ''BT tick: instance has no definition''), inst, ob, w)
      | Some d \<Rightarrow>
          let (tick_start, gc_start, c) = tick_prepare (ho_svc H) d inst ob w;
              (r, c) = tick_finish (ho_svc H) tick_start gc_start (tick_node H hf k (df_root d) c)
          in (r, cx_inst c, cx_obs c, cx_world c))"

text \<open>The context of \<open>halt_subtree\<close> leaves the start and deadline at their default, the epoch.\<close>

definition halt_subtree ::
  "('w, 'p) host \<Rightarrow> nat \<Rightarrow> node_id \<Rightarrow> string \<Rightarrow> 'p instance_state \<Rightarrow> obs \<Rightarrow> 'w \<Rightarrow>
     unit outcome \<times> 'p instance_state \<times> obs \<times> 'w" where
  "halt_subtree H hf root reason inst ob w =
     (if in_def inst = None then (Ret (), inst, ob, w)
      else
        let (now, ob) = now_obs ob;
            c = (new_context inst ob w now (Some 0) root)\<lparr>cx_tick_started_at := 0\<rparr>;
            (r, c) = halt_subtree_impl H hf root reason c
        in (r, cx_inst c, cx_obs c, cx_world c))"

definition reset_instance :: "'p instance_state \<Rightarrow> 'p instance_state" where
  "reset_instance inst =
     inst\<lparr>in_memory := Map.empty, in_active_vla_jobs := [], in_halt_warning_emitted := [],
       in_bb := bb_clear (in_bb inst)\<rparr>"

definition node_stats_line :: "node_profile_stats \<Rightarrow> string" where
  "node_stats_line s =
     ''node '' @ nat_str (np_id s) @ '' ('' @ np_name s @ '')'' @
     '' success='' @ nat_str (np_success_returns s) @ '' failure='' @ nat_str (np_failure_returns s) @
     '' running='' @ nat_str (np_running_returns s) @ '' last_ns='' @ int_str (ds_last (np_tick_duration s)) @
     '' max_ns='' @ int_str (ds_max (np_tick_duration s)) @ [newline]"

definition dump_stats :: "'p instance_state \<Rightarrow> string" where
  "dump_stats inst =
     (let ts = in_tree_stats inst; td = tp_tick_duration ts in
      ''tick_count='' @ nat_str (tp_tick_count ts) @ [newline] @
      ''tick_overrun_count='' @ nat_str (tp_tick_overrun_count ts) @ [newline] @
      ''tick_last_ns='' @ int_str (ds_last td) @ [newline] @
      ''tick_max_ns='' @ int_str (ds_max td) @ [newline] @
      ''tick_total_ns='' @ int_str (ds_total td) @ [newline] @
      concat (map (\<lambda>i. case map_of (in_node_stats inst) i of Some s \<Rightarrow> node_stats_line s | None \<Rightarrow> [])
        (sort (map fst (in_node_stats inst)))))"

definition trace_line :: "trace_event \<Rightarrow> string" where
  "trace_line ev =
     nat_str (te_sequence ev) @ '' kind='' @ trace_event_kind_name (te_kind ev) @ '' tick='' @ nat_str (te_tick_index ev) @
     '' node='' @ nat_str (te_node ev) @ '' ts_ns='' @ int_str (te_ts ev) @
     (if te_kind ev = TE_node_exit \<or> te_kind ev = TE_tick_end then '' status='' @ status_name (te_status ev) else []) @
     (if te_duration ev > 0 then '' duration_ns='' @ int_str (te_duration ev) else []) @
     (if te_job ev \<noteq> 0 \<or> te_job_st ev \<noteq> J_unknown
      then '' job='' @ nat_str (te_job ev) @ '' job_status='' @ job_status_name (te_job_st ev) else []) @
     (if te_key ev \<noteq> [] then '' key='' @ te_key ev else []) @
     (if te_value_repr ev \<noteq> [] then '' value='' @ te_value_repr ev else []) @
     (if te_message ev \<noteq> [] then '' msg='' @ te_message ev else []) @ [newline]"

definition dump_trace :: "obs \<Rightarrow> string" where
  "dump_trace ob = concat (map trace_line (trace_snapshot (ob_trace ob)))"

definition bb_line :: "string \<times> bb_entry \<Rightarrow> string" where
  "bb_line ke =
     (let (key, e) = ke in
      key @ ''='' @ bb_value_repr (be_value e) @ '' type='' @ bb_value_type_name (be_value e) @
      '' tick='' @ nat_str (be_last_write_tick e) @ '' ts_ns='' @ int_str (be_last_write_ts e) @
      '' writer_node='' @ nat_str (be_last_writer_node_id e) @
      (if be_last_writer_name e \<noteq> [] then '' writer_name='' @ be_last_writer_name e else []) @ [newline])"

definition dump_blackboard :: "'p instance_state \<Rightarrow> string" where
  "dump_blackboard inst = concat (map bb_line (bb_snapshot (in_bb inst)))"

text \<open>The conversion to nanoseconds multiplies in 64 bits; signed overflow is undefined.\<close>

definition set_tick_budget_ms :: "i64 \<Rightarrow> 'p instance_state \<Rightarrow> 'p instance_state outcome" where
  "set_tick_budget_ms budget_ms inst =
     (if sint budget_ms < 0 then Throw (Std_exception ''tick budget must be non-negative'')
      else if sint budget_ms * 1000000 \<ge> 2 ^ 63 then Undef
      else Ret (inst\<lparr>in_tree_stats := (in_tree_stats inst)\<lparr>tp_configured_tick_budget :=
        sint budget_ms * 1000000\<rparr>\<rparr>))"

end
