(* ===== verification/Collection.thy ===== *)
theory Collection
  imports Gc
begin

text \<open>
  Correctness of the collector. \<open>heap_ok\<close> is the invariant of the heap: the list of nodes is
  well-formed and unmarked, every pointer the collector follows is null or allocated, the counters
  agree with the list, and the static values are rooted. Marking reaches exactly the reachable nodes,
  so a collection frees the others and keeps these; every operation of the collector, and every
  write of a mutator that uses allocated pointers only, keeps the invariant.
\<close>

subsection \<open>Reachability\<close>

lemma map_of_filter_keep: "P a \<Longrightarrow> map_of (filter (\<lambda>(k, v). P k) xs) a = map_of xs a"
  by (induction xs) auto

definition allocated :: "gc_heap \<Rightarrow> addr set" where
  "allocated h = set (map fst (gh_nodes h))"

definition kids :: "(addr, gc_node) alist \<Rightarrow> addr \<Rightarrow> addr list" where
  "kids ns a = (case map_of ns a of None \<Rightarrow> [] | Some n \<Rightarrow> gn_children n)"

inductive reachable :: "(addr, gc_node) alist \<Rightarrow> addr set \<Rightarrow> addr \<Rightarrow> bool" for ns roots where
  reachable_root: "a \<in> roots \<Longrightarrow> a \<noteq> 0 \<Longrightarrow> reachable ns roots a"
| reachable_child: "reachable ns roots a \<Longrightarrow> b \<in> set (kids ns a) \<Longrightarrow> b \<noteq> 0 \<Longrightarrow> reachable ns roots b"

inductive_cases reachable_cases: "reachable ns roots a"

lemma reachable_mono:
  assumes "reachable ns roots a" "\<And>r. r \<in> roots \<Longrightarrow> r \<noteq> 0 \<Longrightarrow> reachable ns' roots' r" "kids ns = kids ns'"
  shows "reachable ns' roots' a"
  using assms by induction (auto intro: reachable_child)

text \<open>A set that contains the roots and is closed under children contains everything reachable.\<close>

lemma reachable_least:
  assumes "reachable ns roots a" "\<And>r. r \<in> roots \<Longrightarrow> r \<noteq> 0 \<Longrightarrow> r \<in> S"
    "\<And>a b. a \<in> S \<Longrightarrow> b \<in> set (kids ns a) \<Longrightarrow> b \<noteq> 0 \<Longrightarrow> b \<in> S"
  shows "a \<in> S"
  using assms by induction auto

subsection \<open>Marking\<close>

definition marked_set :: "(addr, gc_node) alist \<Rightarrow> addr set" where
  "marked_set ns = {a. \<exists>n. map_of ns a = Some n \<and> gn_marked n}"

definition strip :: "(addr, gc_node) alist \<Rightarrow> (addr, gc_node) alist" where
  "strip ns = map (\<lambda>(a, n). (a, n\<lparr>gn_marked := False\<rparr>)) ns"

definition closed_nodes :: "(addr, gc_node) alist \<Rightarrow> bool" where
  "closed_nodes ns \<longleftrightarrow> (\<forall>a. set (kids ns a) \<subseteq> insert 0 (set (map fst ns)))"

lemma strip_put_marked:
  "map_of ns a = Some n \<Longrightarrow> strip (alist_put a (n\<lparr>gn_marked := b\<rparr>) ns) = strip ns"
  by (induction ns) (auto simp: strip_def split: if_splits)

lemma kids_put_marked: "map_of ns a = Some n \<Longrightarrow> kids (alist_put a (n\<lparr>gn_marked := b\<rparr>) ns) = kids ns"
  by (auto simp: kids_def fun_eq_iff)

lemma keys_strip [simp]: "map fst (strip ns) = map fst ns"
  by (simp add: strip_def split_beta comp_def)

lemma keys_eq_strip: "strip ns = strip ns' \<Longrightarrow> map fst ns = map fst ns'"
  by (metis keys_strip)

lemma kids_strip [simp]: "kids (strip ns) = kids ns"
  by (induction ns) (auto simp: strip_def kids_def fun_eq_iff)

lemma marked_set_put: "map_of ns a = Some n \<Longrightarrow> marked_set (alist_put a (n\<lparr>gn_marked := True\<rparr>) ns) = insert a (marked_set ns)"
  by (auto simp: marked_set_def)

lemma map_of_key: "a \<in> set (map fst ns) \<longleftrightarrow> (\<exists>n. map_of ns a = Some n)"
  by (metis map_of_eq_None_iff not_None_eq list.set_map)

text \<open>
  The invariant of marking: a marked node's children are marked or pending. At the end nothing is
  pending, so the marked set is closed; and nothing is marked that was not marked or reachable.
\<close>

definition grey :: "addr list \<Rightarrow> (addr, gc_node) alist \<Rightarrow> bool" where
  "grey todo ns \<longleftrightarrow> (\<forall>a \<in> marked_set ns. set (kids ns a) \<subseteq> insert 0 (marked_set ns \<union> set todo))"

definition mark_result :: "addr list \<Rightarrow> (addr, gc_node) alist \<Rightarrow> (addr, gc_node) alist \<Rightarrow> bool" where
  "mark_result todo ns ns' \<longleftrightarrow> strip ns' = strip ns \<and> grey [] ns' \<and>
     marked_set ns \<union> (set todo - {0}) \<subseteq> marked_set ns' \<and>
     (\<forall>a \<in> marked_set ns'. a \<in> marked_set ns \<or> reachable ns (set todo) a)"

lemma mark_result_step:
  assumes n: "map_of ns a = Some n" and res: "mark_result (gn_children n @ todo) (alist_put a (n\<lparr>gn_marked := True\<rparr>) ns) ns'"
    and a: "a \<noteq> 0"
  shows "mark_result (a # todo) ns ns'"
proof -
  let ?ns = "alist_put a (n\<lparr>gn_marked := True\<rparr>) ns"
  note put = strip_put_marked [OF n] kids_put_marked [OF n] marked_set_put [OF n]
  have root: "reachable ns (set (a # todo)) a" using a by (simp add: reachable_root)
  have kids: "kids ns a = gn_children n" using n by (simp add: kids_def)
  have "reachable ns (set (a # todo)) b" if "reachable ?ns (set (gn_children n @ todo)) b" for b
    using that
  proof (rule reachable_mono)
    fix r assume "r \<in> set (gn_children n @ todo)" "r \<noteq> 0"
    then show "reachable ns (set (a # todo)) r"
      using reachable_child [OF root, of r] kids by (auto intro: reachable_root)
  qed (simp add: put)
  then show ?thesis using res root put by (auto simp: mark_result_def)
qed

text \<open>A pending null pointer or marked node is skipped.\<close>

lemma mark_result_skip:
  assumes skip: "a = 0 \<or> a \<in> marked_set ns"
  shows "mark_result todo ns ns' \<Longrightarrow> mark_result (a # todo) ns ns'" "grey (a # todo) ns \<Longrightarrow> grey todo ns"
proof -
  assume res: "mark_result todo ns ns'"
  have "reachable ns (set todo) b \<Longrightarrow> reachable ns (insert a (set todo)) b" for b
    by (erule reachable_mono) (auto intro: reachable_root)
  with res skip show "mark_result (a # todo) ns ns'" by (auto simp: mark_result_def)
qed (use skip in \<open>auto simp: grey_def\<close>)

lemma mark_nodes_result:
  "closed_nodes ns \<Longrightarrow> set todo \<subseteq> insert 0 (set (map fst ns)) \<Longrightarrow> grey todo ns \<Longrightarrow>
     \<exists>ns'. mark_nodes todo ns = Ret ns' \<and> mark_result todo ns ns'"
proof (induction todo ns rule: mark_nodes.induct)
  case (1 ns)
  then show ?case by (simp add: mark_nodes.simps mark_result_def)
next
  case (2 a todo ns)
  show ?case
  proof (cases "a = 0")
    case True
    note skip = mark_result_skip [of a ns todo, OF disjI1, OF True]
    from 2 True skip(2) obtain ns' where "mark_nodes todo ns = Ret ns'" "mark_result todo ns ns'" by auto
    with True skip(1) show ?thesis by (auto simp: mark_nodes.simps)
  next
    case False
    with "2.prems" obtain n where n: "map_of ns a = Some n" by (auto simp: map_of_key simp del: set_map)
    show ?thesis
    proof (cases "gn_marked n")
      case True
      then have "a \<in> marked_set ns" using n by (simp add: marked_set_def)
      note skip = mark_result_skip [of a ns todo, OF disjI2, OF this]
      from 2 False n True skip(2) obtain ns' where "mark_nodes todo ns = Ret ns'" "mark_result todo ns ns'" by auto
      with False n True skip(1) show ?thesis by (auto simp: mark_nodes.simps)
    next
      case unmarked: False
      let ?ns = "alist_put a (n\<lparr>gn_marked := True\<rparr>) ns"
      note put = kids_put_marked [OF n] marked_set_put [OF n] keys_eq_strip [OF strip_put_marked [OF n]]
      have "closed_nodes ?ns" "set (gn_children n @ todo) \<subseteq> insert 0 (set (map fst ?ns))"
        using "2.prems" n by (auto simp: closed_nodes_def put kids_def dest!: spec [of _ a])
      moreover have "grey (gn_children n @ todo) ?ns"
        using "2.prems" n by (auto simp: grey_def put) (auto simp: kids_def)
      ultimately obtain ns' where "mark_nodes (gn_children n @ todo) ?ns = Ret ns'" "mark_result (gn_children n @ todo) ?ns ns'"
        using "2.IH"(3) [OF False n unmarked] by blast
      then show ?thesis
        using False n unmarked mark_result_step [OF n] by (auto simp: mark_nodes.simps)
    qed
  qed
qed

text \<open>From an unmarked heap, marking marks exactly what the roots reach.\<close>

lemma mark_nodes_exact:
  assumes "closed_nodes ns" "set roots \<subseteq> insert 0 (set (map fst ns))" "marked_set ns = {}"
  obtains ns' where "mark_nodes roots ns = Ret ns'" "strip ns' = strip ns" "marked_set ns' = {a. reachable ns (set roots) a}"
proof -
  have "grey roots ns" using assms by (simp add: grey_def)
  with mark_nodes_result assms obtain ns' where res: "mark_nodes roots ns = Ret ns'" "mark_result roots ns ns'" by blast
  then have kids: "kids ns' = kids ns" by (metis kids_strip mark_result_def)
  have "a \<in> marked_set ns'" if "reachable ns (set roots) a" for a
    using that by (rule reachable_least) (use res kids in \<open>auto simp: mark_result_def grey_def\<close>)
  then have "marked_set ns' = {a. reachable ns (set roots) a}"
    using res assms(3) by (auto simp: mark_result_def)
  with that res show ?thesis by (simp add: mark_result_def)
qed

subsection \<open>The invariant\<close>

definition nodes_ok :: "addr \<Rightarrow> (addr, gc_node) alist \<Rightarrow> bool" where
  "nodes_ok next ns \<longleftrightarrow> distinct (map fst ns) \<and>
     (\<forall>(a, n) \<in> set ns. 0 < a \<and> a < next \<and> \<not> gn_marked n \<and> set (gn_children n) \<subseteq> insert 0 (set (map fst ns)))"

text \<open>The static values that exist, with the slot that roots each.\<close>

definition static_slots :: "gc_heap \<Rightarrow> (nat \<times> addr) list" where
  "static_slots h =
     (case gh_nil h of None \<Rightarrow> [] | Some a \<Rightarrow> [(1, a)]) @
     (case gh_booleans h of None \<Rightarrow> [] | Some (t, f) \<Rightarrow> [(2, t), (3, f)])"

definition statics_rooted :: "gc_heap \<Rightarrow> bool" where
  "statics_rooted h \<longleftrightarrow>
     (\<forall>(s, a) \<in> set (static_slots h). a \<noteq> 0 \<and> gh_slot h s = a \<and> s \<in> set (gh_root_slots h)) \<and>
     0 \<notin> snd ` set (gh_symbols h)"

definition heap_ok :: "gc_heap \<Rightarrow> bool" where
  "heap_ok h \<longleftrightarrow> nodes_ok (gh_next_addr h) (gh_nodes h) \<and> 0 < gh_next_addr h \<and>
     set (gc_roots h) \<subseteq> insert 0 (allocated h) \<and> statics_rooted h \<and>
     gh_allocated_objects_current h = length (gh_nodes h) \<and>
     gh_bytes_allocated h = sum_list (map (gn_size \<circ> snd) (gh_nodes h))"

lemma heap_new_ok: "heap_ok (gc_new bytes clock)"
  by (simp add: heap_ok_def nodes_ok_def gc_new_def gc_roots_def statics_rooted_def static_slots_def)

lemma nodes_ok_closed: "nodes_ok next ns \<Longrightarrow> closed_nodes ns"
  by (fastforce simp: nodes_ok_def closed_nodes_def kids_def split: option.splits dest: map_of_SomeD)

lemma nodes_ok_unmarked: "nodes_ok next ns \<Longrightarrow> marked_set ns = {}"
  by (auto simp: nodes_ok_def marked_set_def dest: map_of_SomeD)

lemma nodes_ok_strip: "nodes_ok next ns \<Longrightarrow> strip ns = ns"
  by (auto simp: nodes_ok_def strip_def intro!: map_idI)

subsection \<open>A collection keeps what is reachable\<close>

definition live_nodes :: "gc_heap \<Rightarrow> (addr, gc_node) alist" where
  "live_nodes h = filter (\<lambda>(a, n). reachable (gh_nodes h) (set (gc_roots h)) a) (gh_nodes h)"

text \<open>The nodes that survive, and what the collection does to the counters.\<close>

definition collected :: "bool \<Rightarrow> gc_heap \<Rightarrow> gc_heap \<Rightarrow> bool" where
  "collected forced h h' \<longleftrightarrow>
     gh_nodes h' = live_nodes h \<and>
     gh_allocated_objects_current h' = length (live_nodes h) \<and>
     gh_live_objects_after_last_gc h' = length (live_nodes h) \<and>
     gh_bytes_allocated h' = sum_list (map (gn_size \<circ> snd) (live_nodes h)) \<and>
     gh_next_gc_threshold h' = max (length (live_nodes h) * 2) 256 \<and>
     \<not> gh_collection_requested h' \<and>
     gh_collection_count h' = Suc (gh_collection_count h) \<and>
     gh_freed_objects_total h' = gh_freed_objects_total h + (length (gh_nodes h) - length (live_nodes h)) \<and>
     gh_forced_collection_count h' = gh_forced_collection_count h + (if forced then 1 else 0) \<and>
     gh_root_slots h' = gh_root_slots h \<and> gh_slot h' = gh_slot h \<and> gh_root_envs h' = gh_root_envs h \<and>
     gh_symbols h' = gh_symbols h \<and> gh_nil h' = gh_nil h \<and> gh_booleans h' = gh_booleans h \<and>
     gh_policy h' = gh_policy h \<and> gh_tick_depth h' = gh_tick_depth h \<and> gh_next_addr h' = gh_next_addr h \<and>
     gh_total_allocated_objects h' = gh_total_allocated_objects h"

lemma swept_nodes:
  assumes "distinct (map fst ns)"
  shows "map (\<lambda>(a, n). (a, n\<lparr>gn_marked := False\<rparr>)) (filter (\<lambda>(a, n). gn_marked n) ns) =
    filter (\<lambda>(a, n). a \<in> marked_set ns) (strip ns)"
proof -
  have "filter (\<lambda>(a, n). gn_marked n) ns = filter (\<lambda>(a, n). a \<in> marked_set ns) ns"
    by (rule filter_cong) (use assms in \<open>auto simp: marked_set_def dest: eq_key_imp_eq_value\<close>)
  then show ?thesis by (simp add: strip_def filter_map comp_def case_prod_beta')
qed

lemma swept_sizes:
  "map (gn_size \<circ> snd) (filter P ns) = map (gn_size \<circ> snd) (map (\<lambda>(a, n). (a, n\<lparr>gn_marked := False\<rparr>)) (filter P ns))"
  by (simp add: split_beta)

lemma collect_impl_collects:
  assumes "heap_ok h"
  shows "\<exists>h'. collect_impl reason forced h = Ret h' \<and> collected forced h h'"
proof -
  let ?ns = "gh_nodes h"
  have ok: "nodes_ok (gh_next_addr h) ?ns" "set (gc_roots h) \<subseteq> insert 0 (set (map fst ?ns))"
    using assms by (simp_all add: heap_ok_def allocated_def)
  obtain ns' where mark: "mark_nodes (gc_roots h) ?ns = Ret ns'" "strip ns' = strip ?ns"
    "marked_set ns' = {a. reachable ?ns (set (gc_roots h)) a}"
    by (rule mark_nodes_exact [OF nodes_ok_closed [OF ok(1)] ok(2) nodes_ok_unmarked [OF ok(1)]])
  have keys: "distinct (map fst ns')" "length ns' = length ?ns"
    using keys_eq_strip [OF mark(2)] ok(1) by (simp_all add: nodes_ok_def) (metis length_map)
  have live: "map (\<lambda>(a, n). (a, n\<lparr>gn_marked := False\<rparr>)) (filter (\<lambda>(a, n). gn_marked n) ns') = live_nodes h"
    using swept_nodes [OF keys(1)] mark(2,3) nodes_ok_strip [OF ok(1)] by (simp add: live_nodes_def)
  then have bytes: "sum_list (map (gn_size \<circ> snd) (filter (\<lambda>(a, n). gn_marked n) ns')) = sum_list (map (gn_size \<circ> snd) (live_nodes h))"
    by (metis swept_sizes)
  from live have len: "length (filter (\<lambda>(a, n). gn_marked n) ns') = length (live_nodes h)" by (metis length_map)
  have same: "gc_roots (h\<lparr>gh_clock_reads := x\<rparr>) = gc_roots h" "gc_roots (h\<lparr>gh_delivered := y, gh_clock_reads := x\<rparr>) = gc_roots h" for x y
    by (simp_all add: gc_roots_def)
  show ?thesis
    by (simp add: collect_impl_def gc_now_def emit_lifecycle_def gc_begin_event_def same mark(1) sweep_def
        keys(2) len live bytes collected_def Let_def)
qed

lemma live_keys: "set (map fst (live_nodes h)) = {a \<in> allocated h. reachable (gh_nodes h) (set (gc_roots h)) a}"
  by (auto simp: live_nodes_def allocated_def)

lemma reachable_allocated:
  assumes "heap_ok h" "reachable (gh_nodes h) (set (gc_roots h)) a"
  shows "a \<in> allocated h"
  using assms(2)
proof (rule reachable_least)
  fix a b assume "b \<in> set (kids (gh_nodes h) a)" "b \<noteq> 0"
  then show "b \<in> allocated h"
    using assms(1) nodes_ok_closed [of "gh_next_addr h" "gh_nodes h"]
    by (auto simp: heap_ok_def closed_nodes_def allocated_def)
qed (use assms(1) in \<open>auto simp: heap_ok_def\<close>)

lemma collected_ok:
  assumes "heap_ok h" "collected forced h h'"
  shows "heap_ok h'"
proof -
  let ?R = "reachable (gh_nodes h) (set (gc_roots h))"
  have roots: "gc_roots h' = gc_roots h" and nodes: "gh_nodes h' = live_nodes h"
    using assms(2) by (simp_all add: collected_def gc_roots_def)
  have live: "a \<in> set (map fst (live_nodes h))" if "?R a" for a
    unfolding live_keys using that reachable_allocated [OF assms(1)] by simp
  have ok: "nodes_ok (gh_next_addr h) (gh_nodes h)" using assms(1) by (simp add: heap_ok_def)
  have "nodes_ok (gh_next_addr h) (live_nodes h)"
    unfolding nodes_ok_def
  proof (intro conjI ballI, goal_cases)
    case 1
    show ?case using ok unfolding live_nodes_def nodes_ok_def by (simp add: distinct_map_filter)
  next
    case (2 x)
    obtain a n where "x = (a, n)" by fastforce
    with 2 have x: "x = (a, n)" "(a, n) \<in> set (gh_nodes h)" "?R a" by (simp_all add: live_nodes_def)
    then have "kids (gh_nodes h) a = gn_children n" using ok by (simp add: nodes_ok_def kids_def)
    then have "b \<in> set (gn_children n) \<Longrightarrow> b \<noteq> 0 \<Longrightarrow> b \<in> set (map fst (live_nodes h))" for b
      using reachable_child [OF x(3), of b] live [of b] by simp
    then show ?case using ok x by (fastforce simp: nodes_ok_def)
  qed
  moreover have "set (gc_roots h) \<subseteq> insert 0 (set (map fst (live_nodes h)))"
    using live by (auto intro: reachable_root)
  moreover have "statics_rooted h'" using assms by (simp add: heap_ok_def statics_rooted_def static_slots_def collected_def)
  ultimately show ?thesis
    using assms roots nodes by (simp add: heap_ok_def allocated_def collected_def)
qed

subsection \<open>Every operation keeps the invariant\<close>

text \<open>A write of the program into a cons cell, an environment or a container.\<close>

definition write_children :: "addr \<Rightarrow> addr list \<Rightarrow> gc_heap \<Rightarrow> gc_heap" where
  "write_children a cs h =
     h\<lparr>gh_nodes := map (\<lambda>(b, n). (b, if b = a then n\<lparr>gn_children := cs\<rparr> else n)) (gh_nodes h)\<rparr>"

definition write_slot :: "nat \<Rightarrow> addr \<Rightarrow> gc_heap \<Rightarrow> gc_heap" where
  "write_slot s a h = h\<lparr>gh_slot := (gh_slot h)(s := a)\<rparr>"

abbreviation valid_ptr :: "gc_heap \<Rightarrow> addr \<Rightarrow> bool" where
  "valid_ptr h a \<equiv> a = 0 \<or> a \<in> allocated h"

lemma nodes_ok_write:
  assumes "nodes_ok next ns" "set cs \<subseteq> insert 0 (set (map fst ns))"
  shows "nodes_ok next (map (\<lambda>(b, n). (b, if b = a then n\<lparr>gn_children := cs\<rparr> else n)) ns)"
proof -
  have keys: "map fst (map (\<lambda>(b, n). (b, if b = a then n\<lparr>gn_children := cs\<rparr> else n)) ns) = map fst ns"
    by (simp add: split_beta comp_def)
  define K where "K = insert 0 (set (map fst ns))"
  show ?thesis using assms unfolding nodes_ok_def keys K_def [symmetric] by (fastforce split: if_splits)
qed

lemma write_children_ok:
  assumes "heap_ok h" "\<forall>c \<in> set cs. valid_ptr h c"
  shows "heap_ok (write_children a cs h)"
proof -
  have "set cs \<subseteq> insert 0 (set (map fst (gh_nodes h)))"
    using assms(2) by (auto simp: allocated_def)
  then have "nodes_ok (gh_next_addr h) (gh_nodes (write_children a cs h))"
    using assms(1) unfolding write_children_def by (simp add: nodes_ok_write heap_ok_def)
  moreover have "map (gn_size \<circ> snd) (gh_nodes (write_children a cs h)) = map (gn_size \<circ> snd) (gh_nodes h)"
    by (simp add: write_children_def split_beta comp_def if_distrib cong: if_cong)
  moreover have "gh_next_addr (write_children a cs h) = gh_next_addr h" "length (gh_nodes (write_children a cs h)) = length (gh_nodes h)"
    "gh_allocated_objects_current (write_children a cs h) = gh_allocated_objects_current h"
    "gh_bytes_allocated (write_children a cs h) = gh_bytes_allocated h"
    by (simp_all add: write_children_def)
  moreover have "allocated (write_children a cs h) = allocated h"
    by (simp add: write_children_def allocated_def image_image split_beta)
  moreover have "gc_roots (write_children a cs h) = gc_roots h" "statics_rooted (write_children a cs h) = statics_rooted h"
    by (simp_all add: gc_roots_def write_children_def statics_rooted_def static_slots_def)
  ultimately show ?thesis
    using assms(1) unfolding heap_ok_def by simp
qed

lemma gc_allocate_allocated [simp]:
  "fst (gc_allocate cs bytes h) = gh_next_addr h"
  "allocated (snd (gc_allocate cs bytes h)) = insert (gh_next_addr h) (allocated h)"
  by (simp_all add: gc_allocate_def Let_def link_node_def allocated_def)

lemma nodes_ok_link:
  assumes "nodes_ok next ns" "set cs \<subseteq> insert 0 (set (map fst ns))" "0 < next"
  shows "nodes_ok (Suc next) ((next, \<lparr>gn_marked = False, gn_children = cs, gn_size = bytes\<rparr>) # ns)"
proof -
  have "a < Suc next" if "(a, n) \<in> set ns" for a n
    using assms(1) that by (auto simp: nodes_ok_def less_SucI)
  then show ?thesis using assms by (auto simp: nodes_ok_def)
qed

lemma gc_allocate_ok:
  assumes ok: "heap_ok h" and cs: "\<forall>c \<in> set cs. valid_ptr h c"
  shows "heap_ok (snd (gc_allocate cs bytes h))"
proof -
  let ?h = "snd (gc_allocate cs bytes h)"
  have "gh_nodes ?h = (gh_next_addr h, \<lparr>gn_marked = False, gn_children = cs, gn_size = bytes\<rparr>) # gh_nodes h"
    by (simp add: gc_allocate_def link_node_def Let_def)
  moreover have "set cs \<subseteq> insert 0 (set (map fst (gh_nodes h)))"
    using cs by (auto simp: allocated_def)
  moreover have "gc_roots ?h = gc_roots h" "statics_rooted ?h = statics_rooted h" "gh_next_addr ?h = Suc (gh_next_addr h)"
    "gh_allocated_objects_current ?h = Suc (gh_allocated_objects_current h)" "gh_bytes_allocated ?h = gh_bytes_allocated h + bytes"
    by (simp_all add: gc_allocate_def link_node_def Let_def gc_roots_def statics_rooted_def static_slots_def)
  ultimately show ?thesis
    using ok nodes_ok_link [of "gh_next_addr h" "gh_nodes h" cs bytes] unfolding heap_ok_def gc_allocate_allocated by auto
qed

text \<open>Changing only the roots.\<close>

lemma roots_ok:
  assumes "heap_ok h" "\<forall>s \<in> set rs. s \<noteq> 0 \<longrightarrow> valid_ptr h (sl s)" "\<forall>e \<in> set es. valid_ptr h e"
    "\<forall>(s, a) \<in> set (static_slots h). sl s = a \<and> s \<in> set rs"
  shows "heap_ok (h\<lparr>gh_root_slots := rs, gh_slot := sl, gh_root_envs := es\<rparr>)"
proof -
  let ?h = "h\<lparr>gh_root_slots := rs, gh_slot := sl, gh_root_envs := es\<rparr>"
  have "set (gc_roots ?h) \<subseteq> insert 0 (allocated h)"
    using assms(1-3) by (auto simp: gc_roots_def heap_ok_def)
  moreover have "static_slots ?h = static_slots h" by (simp add: static_slots_def)
  then have "statics_rooted ?h" using assms(1,4) by (auto simp: heap_ok_def statics_rooted_def)
  ultimately show ?thesis using assms(1) by (simp add: heap_ok_def allocated_def)
qed

lemma heap_ok_roots:
  assumes "heap_ok h"
  shows "s \<in> set (gh_root_slots h) \<Longrightarrow> s \<noteq> 0 \<Longrightarrow> valid_ptr h (gh_slot h s)"
    and "e \<in> set (gh_root_envs h) \<Longrightarrow> valid_ptr h e"
    and "(s, a) \<in> set (static_slots h) \<Longrightarrow> gh_slot h s = a \<and> s \<in> set (gh_root_slots h)"
  using assms by (auto simp: heap_ok_def gc_roots_def statics_rooted_def)

lemma set_remove_last: "x \<in> set (remove_last y xs) \<Longrightarrow> x \<in> set xs" "y \<noteq> x \<Longrightarrow> x \<in> set xs \<Longrightarrow> x \<in> set (remove_last y xs)"
  using set_remove1_subset [of y "rev xs"] by (auto simp: remove_last_def)

lemma static_slots_range: "(s, a) \<in> set (static_slots h) \<Longrightarrow> s \<in> {1, 2, 3}"
  by (auto simp: static_slots_def split: option.splits)

lemma static_slot_small: "(s, a) \<in> set (static_slots h) \<Longrightarrow> 3 < x \<Longrightarrow> s \<noteq> x"
  using static_slots_range by fastforce

lemma root_changes_ok:
  assumes ok: "heap_ok h"
  shows "3 < s \<Longrightarrow> valid_ptr h a \<Longrightarrow> heap_ok (write_slot s a h)"
    and "valid_ptr h (gh_slot h s) \<Longrightarrow> heap_ok (root_scope_add s h)"
    and "valid_ptr h (gh_slot h s) \<Longrightarrow> heap_ok (add_root_slot s h)"
    and "3 < s \<Longrightarrow> heap_ok (remove_root_slot s h)"
    and "valid_ptr h a \<Longrightarrow> heap_ok (register_root_env a h)"
    and "heap_ok (unregister_root_env a h)"
    and "(\<forall>(s, a) \<in> set (static_slots h). s \<in> set (take b (gh_root_slots h))) \<Longrightarrow> heap_ok (root_scope_exit b h)"
proof -
  let ?roots = "\<lambda>rs sl es. h\<lparr>gh_root_slots := rs, gh_slot := sl, gh_root_envs := es\<rparr>"
  note rooted = heap_ok_roots [OF ok]
  show "heap_ok (write_slot s a h)" if "3 < s" "valid_ptr h a"
    using roots_ok [OF ok, of "gh_root_slots h" "(gh_slot h)(s := a)" "gh_root_envs h"] that rooted
    by (fastforce simp: write_slot_def dest: static_slot_small)
  show scope: "heap_ok (root_scope_add s h)" if "valid_ptr h (gh_slot h s)"
    using roots_ok [OF ok, of "gh_root_slots h @ [s]" "gh_slot h" "gh_root_envs h"] that rooted
    by (fastforce simp: root_scope_add_def)
  show "heap_ok (add_root_slot s h)" if "valid_ptr h (gh_slot h s)"
    using scope [OF that] ok by (simp add: add_root_slot_def root_scope_add_def)
  show "heap_ok (remove_root_slot s h)" if "3 < s"
    using roots_ok [OF ok, of "remove_last s (gh_root_slots h)" "gh_slot h" "gh_root_envs h"] that rooted
    by (fastforce simp: remove_root_slot_def dest: set_remove_last(1) static_slot_small intro: set_remove_last(2))
  show "heap_ok (register_root_env a h)" if "valid_ptr h a"
    using roots_ok [OF ok, of "gh_root_slots h" "gh_slot h" "gh_root_envs h @ [a]"] that rooted ok
    by (fastforce simp: register_root_env_def)
  show "heap_ok (unregister_root_env a h)"
    using roots_ok [OF ok, of "gh_root_slots h" "gh_slot h" "remove_last a (gh_root_envs h)"] rooted
    by (fastforce simp: unregister_root_env_def dest: set_remove_last(1))
  show "heap_ok (root_scope_exit b h)" if "\<forall>(s, a) \<in> set (static_slots h). s \<in> set (take b (gh_root_slots h))"
    using roots_ok [OF ok, of "take b (gh_root_slots h) @ replicate (b - length (gh_root_slots h)) 0" "gh_slot h" "gh_root_envs h"] that rooted
    by (fastforce simp: root_scope_exit_def dest: in_set_takeD)
qed

text \<open>Allocating the static values and symbols.\<close>

lemma make_object_ok: "heap_ok h \<Longrightarrow> heap_ok (snd (make_object [] h))"
  by (simp add: make_object_def gc_allocate_ok)

lemma make_object_allocated: "heap_ok h \<Longrightarrow> fst (make_object [] h) \<in> allocated (snd (make_object [] h)) - {0}"
  by (simp add: make_object_def heap_ok_def)

lemma make_object_statics [simp]:
  "gh_nil (snd (make_object cs h)) = gh_nil h" "gh_booleans (snd (make_object cs h)) = gh_booleans h"
  "gh_symbols (snd (make_object cs h)) = gh_symbols h"
  by (simp_all add: make_object_def gc_allocate_def link_node_def Let_def)

lemma heap_ok_cong:
  "heap_ok h \<Longrightarrow> gh_nodes h' = gh_nodes h \<Longrightarrow> gh_next_addr h' = gh_next_addr h \<Longrightarrow>
     gh_allocated_objects_current h' = gh_allocated_objects_current h \<Longrightarrow> gh_bytes_allocated h' = gh_bytes_allocated h \<Longrightarrow>
     set (gc_roots h') \<subseteq> insert 0 (allocated h) \<Longrightarrow> statics_rooted h' \<Longrightarrow> heap_ok h'"
  by (simp add: heap_ok_def allocated_def)

lemma allocated_root_static [simp]: "allocated (root_static s a h) = allocated h"
  by (simp add: root_static_def add_root_slot_def allocated_def)

text \<open>
  Rooting a static value \<open>a\<close> in slot \<open>s\<close>; the slot is not one of the static slots in use.
\<close>

lemma root_static_ok:
  assumes "heap_ok h" "a \<in> allocated h" "\<forall>(s', a') \<in> set (static_slots h). s' \<noteq> s"
  shows "heap_ok (root_static s a h)"
proof (rule heap_ok_cong [OF assms(1)])
  show "set (gc_roots (root_static s a h)) \<subseteq> insert 0 (allocated h)"
    using assms by (auto simp: root_static_def add_root_slot_def gc_roots_def heap_ok_def)
  have "static_slots (root_static s a h) = static_slots h"
    by (simp add: root_static_def add_root_slot_def static_slots_def)
  then show "statics_rooted (root_static s a h)"
    using assms by (fastforce simp: heap_ok_def statics_rooted_def root_static_def add_root_slot_def)
qed (simp_all add: root_static_def add_root_slot_def)

lemma set_statics_ok:
  assumes "heap_ok h" "\<forall>(s, a) \<in> set (static_slots (f h)). a \<noteq> 0 \<and> gh_slot h s = a \<and> s \<in> set (gh_root_slots h)"
    "f h = h\<lparr>gh_nil := x, gh_booleans := y\<rparr>"
  shows "heap_ok (f h)"
proof (rule heap_ok_cong [OF assms(1)])
  show "set (gc_roots (f h)) \<subseteq> insert 0 (allocated h)"
    using assms(1,3) by (auto simp: gc_roots_def heap_ok_def)
  show "statics_rooted (f h)"
    using assms by (auto simp: statics_rooted_def heap_ok_def)
qed (simp_all add: assms(3))

lemma root_static_slot [simp]:
  "s \<noteq> 0 \<Longrightarrow> gh_slot (root_static s a h) = (gh_slot h)(s := a)"
  "s \<noteq> 0 \<Longrightarrow> gh_root_slots (root_static s a h) = gh_root_slots h @ [s]"
  "gh_nil (root_static s a h) = gh_nil h" "gh_booleans (root_static s a h) = gh_booleans h"
  by (simp_all add: root_static_def add_root_slot_def)

lemma make_nil_ok:
  assumes "heap_ok h"
  shows "heap_ok (snd (make_nil h))" "fst (make_nil h) \<in> allocated (snd (make_nil h))"
proof -
  obtain a h1 where obj: "make_object [] h = (a, h1)" by fastforce
  have h1: "heap_ok h1" "a \<in> allocated h1" "a \<noteq> 0" "gh_nil h1 = gh_nil h" "gh_booleans h1 = gh_booleans h"
    using make_object_ok [OF assms] make_object_allocated [OF assms] make_object_statics [of "[]" h] obj by simp_all
  show "heap_ok (snd (make_nil h))"
  proof (cases "gh_nil h")
    case None
    then have free: "\<forall>(s, b) \<in> set (static_slots h1). s \<noteq> 1"
      using h1 by (auto simp: static_slots_def split: option.splits)
    define h2 where "h2 = root_static 1 a h1"
    have "heap_ok h2" using root_static_ok [OF h1(1,2) free] by (simp add: h2_def)
    then have "heap_ok (h2\<lparr>gh_nil := Some a\<rparr>)"
    proof (rule set_statics_ok [where x = "Some a" and y = "gh_booleans h2"])
      have "statics_rooted h2" using \<open>heap_ok h2\<close> by (simp add: heap_ok_def)
      moreover have "static_slots (h2\<lparr>gh_nil := Some a\<rparr>) = (1, a) # static_slots h2"
        using None h1 by (simp add: static_slots_def h2_def)
      ultimately show "\<forall>(s, b) \<in> set (static_slots (h2\<lparr>gh_nil := Some a\<rparr>)). b \<noteq> 0 \<and> gh_slot h2 s = b \<and> s \<in> set (gh_root_slots h2)"
        using h1(3) by (auto simp: statics_rooted_def h2_def)
    qed simp
    moreover have "root_static 1 a (h1\<lparr>gh_nil := Some a\<rparr>) = h2\<lparr>gh_nil := Some a\<rparr>"
      by (simp add: h2_def root_static_def add_root_slot_def)
    ultimately show ?thesis by (simp add: make_nil_def None obj)
  qed (simp add: make_nil_def assms)
  show "fst (make_nil h) \<in> allocated (snd (make_nil h))"
  proof (cases "gh_nil h")
    case (Some b)
    then have "(1, b) \<in> set (static_slots h)" by (simp add: static_slots_def)
    with assms have "b \<noteq> 0" "gh_slot h 1 = b" "1 \<in> set (gh_root_slots h)" by (auto simp: heap_ok_def statics_rooted_def)
    with heap_ok_roots(1) [OF assms, of 1] Some show ?thesis by (simp add: make_nil_def)
  qed (use h1 in \<open>simp add: make_nil_def obj allocated_def root_static_def add_root_slot_def\<close>)
qed

lemma new_static_ok:
  assumes "heap_ok h" "\<forall>(s', a') \<in> set (static_slots h). s' \<noteq> s" "make_object [] h = (a, h1)"
  shows "heap_ok (root_static s a h1)" "a \<in> allocated (root_static s a h1)" "a \<noteq> 0"
    "static_slots (root_static s a h1) = static_slots h"
proof -
  have h1: "heap_ok h1" "a \<in> allocated h1" "a \<noteq> 0"
    using make_object_ok [OF assms(1)] make_object_allocated [OF assms(1)] assms(3) by simp_all
  have same: "static_slots h1 = static_slots h"
    using make_object_statics [of "[]" h] assms(3) by (simp add: static_slots_def)
  then show "static_slots (root_static s a h1) = static_slots h" by (simp add: static_slots_def)
  show "heap_ok (root_static s a h1)" using root_static_ok [OF h1(1,2)] assms(2) same by simp
qed (use make_object_allocated [OF assms(1)] assms(3) in simp_all)

lemma make_object_slots: "make_object cs h = (a, h1) \<Longrightarrow> gh_slot h1 = gh_slot h \<and> gh_root_slots h1 = gh_root_slots h"
  by (auto simp: make_object_def gc_allocate_def link_node_def Let_def)

lemma make_boolean_ok:
  assumes "heap_ok h"
  shows "heap_ok (snd (make_boolean v h))" "fst (make_boolean v h) \<in> allocated (snd (make_boolean v h))"
proof -
  have "heap_ok (snd (make_boolean v h)) \<and> fst (make_boolean v h) \<in> allocated (snd (make_boolean v h))"
  proof (cases "gh_booleans h")
    case None
    then have free: "\<forall>(s, b) \<in> set (static_slots h). s \<noteq> 2" "\<forall>(s, b) \<in> set (static_slots h). s \<noteq> 3"
      by (auto simp: static_slots_def split: option.splits)
    obtain t h1 where obj1: "make_object [] h = (t, h1)" by fastforce
    note r1 = new_static_ok [OF assms free(1) obj1]
    obtain f h2 where obj2: "make_object [] (root_static 2 t h1) = (f, h2)" by fastforce
    note r2 = new_static_ok [OF r1(1) _ obj2, of 3, unfolded r1(4), OF free(2)]
    define h3 where "h3 = root_static 3 f h2"
    have slots: "gh_slot h3 2 = t" "gh_slot h3 3 = f" "{2, 3} \<subseteq> set (gh_root_slots h3)"
      using make_object_slots [OF obj2] by (simp_all add: h3_def)
    have "h2 = snd (make_object [] (root_static 2 t h1))" using obj2 by simp
    then have t: "t \<in> allocated h3" using r1(2) by (simp add: make_object_def h3_def)
    have "heap_ok h3" using r2(1) by (simp add: h3_def)
    then have "heap_ok (h3\<lparr>gh_booleans := Some (t, f)\<rparr>)"
    proof (rule set_statics_ok [where x = "gh_nil h3" and y = "Some (t, f)"])
      have "static_slots (h3\<lparr>gh_booleans := Some (t, f)\<rparr>) = static_slots h3 @ [(2, t), (3, f)]"
        using None make_object_statics [of "[]" "root_static 2 t h1"] make_object_statics [of "[]" h] obj1 obj2
        by (simp add: static_slots_def h3_def)
      then show "\<forall>(s, b) \<in> set (static_slots (h3\<lparr>gh_booleans := Some (t, f)\<rparr>)). b \<noteq> 0 \<and> gh_slot h3 s = b \<and> s \<in> set (gh_root_slots h3)"
        using \<open>heap_ok h3\<close> r1(3) r2(3) slots by (auto simp: heap_ok_def statics_rooted_def)
    qed simp
    then show ?thesis
      using t r2(2) by (simp add: make_boolean_def None obj1 obj2 h3_def allocated_def)
  next
    case (Some tf)
    obtain t f where tf: "tf = (t, f)" by fastforce
    then have "(2, t) \<in> set (static_slots h)" "(3, f) \<in> set (static_slots h)" using Some by (simp_all add: static_slots_def)
    with assms have "t \<noteq> 0" "gh_slot h 2 = t" "2 \<in> set (gh_root_slots h)" "f \<noteq> 0" "gh_slot h 3 = f" "3 \<in> set (gh_root_slots h)"
      by (auto simp: heap_ok_def statics_rooted_def)
    with heap_ok_roots(1) [OF assms, of 2] heap_ok_roots(1) [OF assms, of 3] Some tf assms show ?thesis
      by (simp add: make_boolean_def)
  qed
  then show "heap_ok (snd (make_boolean v h))" "fst (make_boolean v h) \<in> allocated (snd (make_boolean v h))" by simp_all
qed

lemma make_symbol_ok:
  assumes "heap_ok h"
  shows "heap_ok (snd (make_symbol name h))" "fst (make_symbol name h) \<in> allocated (snd (make_symbol name h))"
proof -
  obtain a h1 where obj: "make_object [] h = (a, h1)" by fastforce
  have h1: "heap_ok h1" "a \<in> allocated h1" "a \<noteq> 0"
    using make_object_ok [OF assms] make_object_allocated [OF assms] obj by simp_all
  have "heap_ok (h1\<lparr>gh_symbols := (name, a) # gh_symbols h1\<rparr>)"
  proof (rule heap_ok_cong [OF h1(1)])
    show "set (gc_roots (h1\<lparr>gh_symbols := (name, a) # gh_symbols h1\<rparr>)) \<subseteq> insert 0 (allocated h1)"
      using h1 by (auto simp: gc_roots_def heap_ok_def)
    have "static_slots (h1\<lparr>gh_symbols := (name, a) # gh_symbols h1\<rparr>) = static_slots h1" by (simp add: static_slots_def)
    then show "statics_rooted (h1\<lparr>gh_symbols := (name, a) # gh_symbols h1\<rparr>)"
      using h1 by (simp add: heap_ok_def statics_rooted_def)
  qed simp_all
  with assms obj show "heap_ok (snd (make_symbol name h))"
    by (simp add: make_symbol_def split: option.split)
  have "b \<in> allocated h" if "map_of (gh_symbols h) name = Some b" for b
  proof -
    have "b \<in> snd ` set (gh_symbols h)" using map_of_SomeD [OF that] by force
    then show ?thesis using assms by (auto simp: heap_ok_def gc_roots_def statics_rooted_def)
  qed
  then show "fst (make_symbol name h) \<in> allocated (snd (make_symbol name h))"
    using h1 obj by (simp add: make_symbol_def allocated_def split: option.split)
qed

lemma make_arg_ok:
  assumes "heap_ok h"
  shows "heap_ok (snd (make_arg a h))" "fst (make_arg a h) \<in> allocated (snd (make_arg a h))"
  using make_nil_ok [OF assms] make_boolean_ok [OF assms] make_symbol_ok [OF assms] make_object_ok [OF assms]
    make_object_allocated [OF assms]
  by (simp_all add: make_arg_def split: arg_kind.split)

subsection \<open>Collections and the program interleaved\<close>

text \<open>
  Between two collections the program may do anything with allocated pointers: allocate, write into
  nodes and variables, root and unroot. The variables behind slots 1 to 3 belong to the static values,
  and a root scope may only end when no static value was rooted inside it.
\<close>

inductive gc_step :: "gc_heap \<Rightarrow> gc_heap \<Rightarrow> bool" where
  alloc: "\<forall>c \<in> set cs. valid_ptr h c \<Longrightarrow> gc_step h (snd (gc_allocate cs bytes h))"
| arg: "gc_step h (snd (make_arg a h))"
| children: "\<forall>c \<in> set cs. valid_ptr h c \<Longrightarrow> gc_step h (write_children a cs h)"
| slot: "3 < s \<Longrightarrow> valid_ptr h a \<Longrightarrow> gc_step h (write_slot s a h)"
| add_slot: "3 < s \<Longrightarrow> valid_ptr h (gh_slot h s) \<Longrightarrow> gc_step h (add_root_slot s h)"
| remove_slot: "3 < s \<Longrightarrow> gc_step h (remove_root_slot s h)"
| scope_add: "3 < s \<Longrightarrow> valid_ptr h (gh_slot h s) \<Longrightarrow> gc_step h (root_scope_add s h)"
| scope_exit: "\<forall>(s, a) \<in> set (static_slots h). s \<in> set (take b (gh_root_slots h)) \<Longrightarrow> gc_step h (root_scope_exit b h)"
| env: "valid_ptr h e \<Longrightarrow> gc_step h (register_root_env e h)"
| drop_env: "gc_step h (unregister_root_env e h)"
| request: "gc_step h (request_collection h)"
| policy: "gc_step h (set_policy p h)"
| listen: "gc_step h (set_lifecycle_listener h)"
| unlisten: "gc_step h (clear_lifecycle_listener h)"
| enter: "gc_step h (enter_tick h)"
| exit: "exit_tick h = Ret h' \<Longrightarrow> gc_step h h'"
| maybe: "maybe_collect h = Ret h' \<Longrightarrow> gc_step h h'"
| force: "gc_collect h = Ret h' \<Longrightarrow> gc_step h h'"

lemma heap_ok_flags [simp]:
  "heap_ok (h\<lparr>gh_collection_requested := x, gh_requested_reason := r\<rparr>) = heap_ok h"
  "heap_ok (h\<lparr>gh_policy := p\<rparr>) = heap_ok h" "heap_ok (h\<lparr>gh_listener := x\<rparr>) = heap_ok h"
  "heap_ok (h\<lparr>gh_tick_depth := d\<rparr>) = heap_ok h"
  by (simp_all add: heap_ok_def allocated_def gc_roots_def statics_rooted_def static_slots_def)

lemma collect_impl_ok: "heap_ok h \<Longrightarrow> \<exists>h'. collect_impl reason forced h = Ret h' \<and> heap_ok h'"
  using collect_impl_collects collected_ok by blast

text \<open>On a heap that satisfies the invariant the entry points of the collector return or throw.\<close>

lemma collections_ok:
  assumes "heap_ok h"
  shows "(\<exists>h'. exit_tick h = Ret h' \<and> heap_ok h')"
    and "(\<exists>h'. maybe_collect h = Ret h' \<and> heap_ok h') \<or> (\<exists>e. maybe_collect h = Throw e)"
    and "(\<exists>h'. gc_collect h = Ret h' \<and> heap_ok h') \<or> (\<exists>e. gc_collect h = Throw e)"
  using assms collect_impl_ok [of "h\<lparr>gh_tick_depth := 0\<rparr>"] collect_impl_ok [OF assms]
  by (simp_all add: exit_tick_def Let_def maybe_collect_def gc_collect_def)

lemma gc_step_ok: "gc_step h h' \<Longrightarrow> heap_ok h \<Longrightarrow> heap_ok h'"
proof (induction rule: gc_step.induct)
  case (exit h h')
  then show ?case using collections_ok(1) by force
next
  case (maybe h h')
  then show ?case using collections_ok(2) by force
next
  case (force h h')
  then show ?case using collections_ok(3) by force
qed (simp_all add: gc_allocate_ok make_arg_ok write_children_ok root_changes_ok request_collection_def set_policy_def
    set_lifecycle_listener_def clear_lifecycle_listener_def enter_tick_def)

lemma gc_steps_ok: "gc_step\<^sup>*\<^sup>* h h' \<Longrightarrow> heap_ok h \<Longrightarrow> heap_ok h'"
  by (induction rule: rtranclp_induct) (auto dest: gc_step_ok)

text \<open>
  C6. A collection frees exactly the unreachable nodes. On a heap that satisfies the invariant it
  returns, the surviving nodes are those reachable from the root slots, root environments and interned
  symbols, each with its content unchanged, the invariant holds again, and the next threshold is twice
  the number of survivors but at least 256.
\<close>

theorem collect_keeps_reachable:
  assumes "heap_ok h"
  shows "\<exists>h'. collect_impl reason forced h = Ret h' \<and> heap_ok h' \<and>
    allocated h' = {a. reachable (gh_nodes h) (set (gc_roots h)) a} \<and>
    (\<forall>a \<in> allocated h'. map_of (gh_nodes h') a = map_of (gh_nodes h) a) \<and>
    gh_freed_objects_total h' + card (allocated h') = gh_freed_objects_total h + card (allocated h) \<and>
    gh_next_gc_threshold h' = max (2 * card (allocated h')) 256"
proof -
  obtain h' where h': "collect_impl reason forced h = Ret h'" "collected forced h h'"
    using collect_impl_collects [OF assms] by blast
  then have nodes: "gh_nodes h' = live_nodes h" by (simp add: collected_def)
  then have live: "allocated h' = {a. reachable (gh_nodes h) (set (gc_roots h)) a}"
    using reachable_allocated [OF assms] live_keys [of h] by (auto simp: allocated_def)
  have distinct: "distinct (map fst (gh_nodes h))" using assms by (simp add: heap_ok_def nodes_ok_def)
  then have "distinct (map fst (live_nodes h))" by (simp add: live_nodes_def distinct_map_filter)
  then have card: "card (allocated h') = length (live_nodes h)" "card (allocated h) = length (gh_nodes h)"
    using distinct nodes by (metis allocated_def distinct_card length_map)+
  have "length (live_nodes h) \<le> length (gh_nodes h)" by (simp add: live_nodes_def)
  moreover have "map_of (gh_nodes h') a = map_of (gh_nodes h) a" if "a \<in> allocated h'" for a
    using that live nodes distinct unfolding live_nodes_def by (simp add: map_of_filter_keep)
  ultimately show ?thesis
    using h' live card collected_ok [OF assms h'(2)] by (auto simp: collected_def mult.commute)
qed

text \<open>A heap with a rooted pair of nodes that point at each other and an unreachable third.\<close>

definition sample_heap :: gc_heap where
  "sample_heap = write_children 1 [2] (snd (gc_allocate [] 8 (snd (gc_allocate [1] 8 (register_root_env 1 (snd (gc_allocate [] 8 (gc_new 16 (\<lambda>_. 0)))))))))"

lemma sample_heap_steps: "gc_step\<^sup>*\<^sup>* (gc_new 16 (\<lambda>_. 0)) sample_heap"
proof -
  let ?h1 = "snd (gc_allocate [] 8 (gc_new 16 (\<lambda>_. 0)))"
  let ?h2 = "register_root_env 1 ?h1"
  let ?h3 = "snd (gc_allocate [1] 8 ?h2)"
  let ?h4 = "snd (gc_allocate [] 8 ?h3)"
  have alloc: "allocated ?h1 = {1}" by (simp add: gc_new_def gc_allocate_def link_node_def Let_def allocated_def)
  have "allocated ?h2 = {1}" using alloc by (simp add: register_root_env_def allocated_def)
  moreover have "gh_next_addr ?h2 = 2" by (simp add: register_root_env_def gc_allocate_def link_node_def gc_new_def Let_def)
  ultimately have "gc_step (gc_new 16 (\<lambda>_. 0)) ?h1" "gc_step ?h1 ?h2" "gc_step ?h2 ?h3" "gc_step ?h3 ?h4"
    "gc_step ?h4 (write_children 1 [2] ?h4)"
    using alloc by (simp_all add: gc_step.alloc gc_step.env gc_step.children)
  then show ?thesis unfolding sample_heap_def by (meson converse_rtranclp_into_rtranclp r_into_rtranclp)
qed

theorem collect_keeps_reachable_witness:
  "\<exists>h'. collect_impl R_forced True sample_heap = Ret h' \<and>
     allocated h' = {a. reachable (gh_nodes sample_heap) (set (gc_roots sample_heap)) a} \<and> gh_next_gc_threshold h' = max (2 * card (allocated h')) 256"
  using collect_keeps_reachable [OF gc_steps_ok [OF sample_heap_steps heap_new_ok], of R_forced True] by blast



subsection \<open>Collections during a tick\<close>

definition tick_step :: "gc_heap \<Rightarrow> gc_heap \<Rightarrow> bool" where
  "tick_step h h' \<longleftrightarrow> gc_step h h' \<and> in_tick h' \<and> gh_policy h' = P_fail_on_tick_gc"

text \<open>What no step but a collection changes.\<close>

definition keeps_nodes :: "gc_heap \<Rightarrow> gc_heap \<Rightarrow> bool" where
  "keeps_nodes h h' \<longleftrightarrow> allocated h \<subseteq> allocated h' \<and> gh_collection_count h' = gh_collection_count h"

lemma make_object_keeps: "keeps_nodes h (snd (make_object cs h))"
  by (auto simp: make_object_def keeps_nodes_def gc_allocate_def link_node_def Let_def allocated_def)

lemma keeps_root_static: "keeps_nodes h h' \<Longrightarrow> keeps_nodes h (root_static s a h')"
  by (simp add: keeps_nodes_def root_static_def add_root_slot_def allocated_def)

lemma keeps_trans: "keeps_nodes a b \<Longrightarrow> keeps_nodes b c \<Longrightarrow> keeps_nodes a c"
  by (auto simp: keeps_nodes_def)

lemma keeps_statics:
  "keeps_nodes h (h'\<lparr>gh_nil := x\<rparr>) = keeps_nodes h h'" "keeps_nodes h (h'\<lparr>gh_booleans := y\<rparr>) = keeps_nodes h h'"
  "keeps_nodes h (h'\<lparr>gh_symbols := z\<rparr>) = keeps_nodes h h'" "keeps_nodes h h"
  by (simp_all add: keeps_nodes_def allocated_def)

lemma make_arg_keeps: "keeps_nodes h (snd (make_arg a h))"
proof -
  have obj: "make_object cs h = (b, h1) \<Longrightarrow> keeps_nodes h h1" for cs h b h1
    using make_object_keeps [of h cs] by simp
  have "keeps_nodes h (snd (make_boolean v h))" for v
    by (auto simp: make_boolean_def split_beta Let_def keeps_statics split: option.split
        intro!: keeps_root_static keeps_trans [OF _ make_object_keeps] make_object_keeps)
  then show ?thesis
    using make_object_keeps
    by (auto simp: make_arg_def make_nil_def make_symbol_def split_beta Let_def keeps_statics split: arg_kind.split option.split
        intro!: keeps_root_static)
qed

lemma tick_step_keeps:
  assumes "tick_step h h'" "in_tick h" "gh_policy h = P_fail_on_tick_gc"
  shows "keeps_nodes h h'"
proof -
  have "gc_step h h'" and depth: "in_tick h'" using assms(1) by (simp_all add: tick_step_def)
  then show ?thesis
  proof (cases rule: gc_step.cases)
    case exit
    then show ?thesis using assms depth by (auto simp: exit_tick_def Let_def in_tick_def keeps_nodes_def allocated_def split: if_splits)
  next
    case maybe
    then show ?thesis using assms(2,3) by (auto simp: maybe_collect_def keeps_nodes_def split: if_splits)
  next
    case force
    then show ?thesis using assms(2,3) by (simp add: gc_collect_def)
  next
    case arg
    then show ?thesis using make_arg_keeps by simp
  qed (auto simp: keeps_nodes_def gc_allocate_def link_node_def Let_def allocated_def write_children_def write_slot_def
      add_root_slot_def remove_root_slot_def root_scope_add_def root_scope_exit_def register_root_env_def unregister_root_env_def
      request_collection_def set_policy_def set_lifecycle_listener_def clear_lifecycle_listener_def enter_tick_def image_image split_beta)
qed

text \<open>
  Under the policy \<open>fail-on-tick-gc\<close> nothing is freed during a tick: as long as the policy stays
  and the tick (or a nested one) is not over, no sequence of operations collects, so every allocated
  node stays allocated.
\<close>

theorem no_collection_in_tick:
  assumes "tick_step\<^sup>*\<^sup>* h h'" "in_tick h" "gh_policy h = P_fail_on_tick_gc"
  shows "allocated h \<subseteq> allocated h' \<and> gh_collection_count h' = gh_collection_count h"
proof -
  have "keeps_nodes h h' \<and> in_tick h' \<and> gh_policy h' = P_fail_on_tick_gc"
    using assms
  proof (induction rule: rtranclp_induct)
    case (step h1 h2)
    then have "keeps_nodes h1 h2" by (intro tick_step_keeps) auto
    with step show ?case using keeps_trans by (auto simp: tick_step_def)
  qed (simp add: keeps_statics)
  then show ?thesis by (simp add: keeps_nodes_def)
qed

definition sample_tick_heap :: gc_heap where
  "sample_tick_heap = (enter_tick (set_policy P_fail_on_tick_gc sample_heap))\<lparr>gh_collection_requested := True\<rparr>"

theorem no_collection_in_tick_witness:
  "gh_collection_count (snd (gc_allocate [] 8 sample_tick_heap)) = gh_collection_count sample_tick_heap"
proof -
  have tick: "in_tick sample_tick_heap" "gh_policy sample_tick_heap = P_fail_on_tick_gc"
    by (simp_all add: sample_tick_heap_def enter_tick_def set_policy_def in_tick_def)
  then have "tick_step sample_tick_heap (snd (gc_allocate [] 8 sample_tick_heap))"
    unfolding tick_step_def by (simp add: gc_step.alloc)
      (simp add: in_tick_def gc_allocate_def link_node_def Let_def)
  then show ?thesis using no_collection_in_tick [OF r_into_rtranclp tick] by blast
qed


end
