(* ===== verification/Samples.thy ===== *)
theory Samples
  imports Frame Tick Collection
begin

text \<open>
  A small concrete host and tree on which the theorems are instantiated: a patrol that works when it
  is ready and otherwise succeeds idly. The action runs during the first tick and succeeds from the
  second on. The outside world is a Lisp heap that satisfies its invariant (any other value of the type
  stands for the empty heap); there is no scheduler, planner or VLA service.
\<close>

definition sample_node :: "node_kind \<Rightarrow> node_id \<Rightarrow> node_id list \<Rightarrow> string \<Rightarrow> node" where
  "sample_node k i cs leaf = node_default\<lparr>nd_kind := k, nd_id := i, nd_children := cs, nd_leaf_name := leaf\<rparr>"

definition patrol_definition :: bt_definition where
  "patrol_definition = definition_default\<lparr>df_nodes :=
     [sample_node K_cond 0 [] ''ready'', sample_node K_act 1 [] ''work'', sample_node K_mem_seq 2 [0, 1] [],
      sample_node K_succeed 3 [] [], sample_node K_reactive_sel 4 [2, 3] []], df_root := 4\<rparr>"

definition work_status :: "nat \<Rightarrow> status" where
  "work_status t = (if t = 1 then Running else Success)"

definition sample_registry :: "(gc_heap, unit) registry" where
  "sample_registry =
     register_action ''work'' (\<lambda>c i args. (Inr (work_status (cx_tick_index c)), c)) (Some (\<lambda>c i. (Inr (), c)))
       (register_condition ''ready'' (\<lambda>c args. (Inr True, c)) registry_empty)"

definition sample_services :: "gc_heap services" where
  "sample_services = \<lparr>sv_sched = None, sv_planner = None, sv_vla = None, sv_heap = (\<lambda>h. if heap_ok h then h else gc_new 16 (\<lambda>_. 0)), sv_set_heap = (\<lambda>h _. h)\<rparr>"

definition sample_host :: "(gc_heap, unit) host" where
  "sample_host = \<lparr>ho_reg = sample_registry, ho_svc = sample_services\<rparr>"

definition sample_obs :: obs where
  "sample_obs = \<lparr>ob_trace = trace_buffer_new 4, ob_ext_trace = None, ob_logger = None, ob_events = None,
     ob_clock = int, ob_clock_reads = 0\<rparr>"

definition sample_instance :: "bt_definition \<Rightarrow> unit instance_state" where
  "sample_instance d = (instance_new (Some d))\<lparr>in_trace_enabled := False\<rparr>"

definition sample_context :: "bt_definition \<Rightarrow> (gc_heap, unit) tick_context" where
  "sample_context d = new_context ((sample_instance d)\<lparr>in_tick_index := 1\<rparr>) sample_obs (gc_new 16 (\<lambda>_. 0)) 0 None (df_root d)"

lemma sample_registered [simp]:
  "find_condition name sample_registry = (if name = ''ready'' then Some (\<lambda>c args. (Inr True, c)) else None)"
  "find_action name sample_registry =
     (if name = ''work'' then Some (\<lambda>c i args. (Inr (work_status (cx_tick_index c)), c)) else None)"
  "find_action_halt name sample_registry = (if name = ''work'' then Some (\<lambda>c i. (Inr (), c)) else None)"
  by (simp_all add: sample_registry_def) (simp_all add: registry_empty_def find_condition_def find_action_def find_action_halt_def)

lemma sample_host_sel [simp]: "ho_reg sample_host = sample_registry" "ho_svc sample_host = sample_services"
  by (simp_all add: sample_host_def)

lemma sample_respects:
  assumes "\<And>c. R c c" shows "callbacks_respect R sample_host"
  using assms by (simp add: callbacks_respect_def respects_condition_def respects_action_def respects_halt_def)

lemma sample_context_sel [simp]:
  "in_def (cx_inst (sample_context d)) = Some d"
  "cx_tick_index (sample_context d) = 1"
  "in_memory (cx_inst (sample_context d)) = Map.empty"
  by (simp_all add: sample_context_def new_context_def sample_instance_def instance_new_def)

lemma patrol_nodes:
  "df_nodes patrol_definition =
     [sample_node K_cond 0 [] ''ready'', sample_node K_act 1 [] ''work'', sample_node K_mem_seq 2 [0, 1] [],
      sample_node K_succeed 3 [] [], sample_node K_reactive_sel 4 [2, 3] []]"
  "df_root patrol_definition = 4" "length (df_nodes patrol_definition) = 5"
  by (simp_all add: patrol_definition_def definition_default_def)

lemma sample_node_sel [simp]:
  "nd_kind (sample_node k i cs leaf) = k" "nd_id (sample_node k i cs leaf) = i"
  "nd_children (sample_node k i cs leaf) = cs" "nd_leaf_name (sample_node k i cs leaf) = leaf"
  "nd_args (sample_node k i cs leaf) = []" "nd_int_param (sample_node k i cs leaf) = 0"
  by (simp_all add: sample_node_def node_default_def)

lemma all_less_Suc: "(\<forall>i < Suc k. P i) \<longleftrightarrow> P k \<and> (\<forall>i < k. P i)" for k :: nat
  by (auto simp: less_Suc_eq)

lemma patrol_wf: "wf_definition patrol_definition"
  by (simp add: wf_definition_def patrol_nodes wf_node_def composite_def decorator_def eval_nat_numeral all_less_Suc)

end
