(* ===== verification/Progress.thy ===== *)
theory Progress
  imports Samples Compiler Serialisation
begin

text \<open>
  When a tick ends, and how. On a well-formed definition (children have smaller ids than their
  parent, as the compiler produces them) ticking and halting end within explicit step bounds, no
  \<open>std::exception\<close> escapes from a node, and nothing undefined happens outside the planner and VLA
  leaves. On a definition whose children form a cycle, which the loader accepts, a tick does not end.
\<close>

subsection \<open>Bounds\<close>

text \<open>\<open>halt_steps d i\<close>: how many nodes the halting loop visits below node \<open>i\<close>, itself included.\<close>

fun halt_steps_upto :: "bt_definition \<Rightarrow> nat \<Rightarrow> node_id \<Rightarrow> nat" where
  "halt_steps_upto d 0 i = 0"
| "halt_steps_upto d (Suc k) i = Suc (sum_list (map (halt_steps_upto d k) (nd_children (df_nodes d ! i))))"

definition halt_steps :: "bt_definition \<Rightarrow> node_id \<Rightarrow> nat" where
  "halt_steps d i = halt_steps_upto d (Suc i) i"

definition enough_halt_steps :: "bt_definition \<Rightarrow> nat \<Rightarrow> bool" where
  "enough_halt_steps d hf \<longleftrightarrow> (\<forall>i < length (df_nodes d). halt_steps d i \<le> hf)"

definition service_leaf :: "node_kind \<Rightarrow> bool" where
  "service_leaf k = (k \<in> {K_plan_action, K_vla_request, K_vla_wait, K_vla_cancel})"

definition core_definition :: "bt_definition \<Rightarrow> bool" where
  "core_definition d \<longleftrightarrow> (\<forall>n \<in> set (df_nodes d). \<not> service_leaf (nd_kind n))"

text \<open>Callbacks that throw nothing but \<open>std::exception\<close>s.\<close>

definition std_callbacks :: "('w, 'p) host \<Rightarrow> bool" where
  "std_callbacks H \<longleftrightarrow>
     (\<forall>name fn c args. find_condition name (ho_reg H) = Some fn \<longrightarrow> fst (fn c args) \<noteq> Inl Other_exception) \<and>
     (\<forall>name fn c i args. find_action name (ho_reg H) = Some fn \<longrightarrow> fst (fn c i args) \<noteq> Inl Other_exception)"

text \<open>How ticking a node of a well-formed definition may end.\<close>

fun settled :: "bt_definition \<Rightarrow> ('w, 'p) host \<Rightarrow> status outcome \<Rightarrow> bool" where
  "settled d H (Ret st) = True"
| "settled d H (Throw e) = (e = Other_exception \<and> \<not> (core_definition d \<and> std_callbacks H))"
| "settled d H Undef = (\<not> core_definition d)"
| "settled d H Diverge = False"

definition runs :: "bt_definition \<Rightarrow> ('w, 'p) tick_context \<Rightarrow> bool" where
  "runs d c \<longleftrightarrow> in_def (cx_inst c) = Some d"

lemma same_frame_runs: "same_frame c c' \<Longrightarrow> runs d c \<Longrightarrow> runs d c'"
  by (simp add: same_frame_def runs_def)

subsection \<open>Halting ends\<close>

lemma halt_steps_upto_stable:
  assumes "wf_definition d"
  shows "i < length (df_nodes d) \<Longrightarrow> i < k \<Longrightarrow> halt_steps_upto d k i = halt_steps d i"
proof (induction i arbitrary: k rule: less_induct)
  case (less i)
  then obtain k' where k: "k = Suc k'" by (cases k) auto
  have "halt_steps_upto d k' c = halt_steps_upto d i c" if "c \<in> set (nd_children (df_nodes d ! i))" for c
  proof -
    have "c < i" "c < length (df_nodes d)"
      using wf_definition_child [OF assms _ that] less.prems by auto
    with less k show ?thesis by simp
  qed
  then show ?case
    unfolding k halt_steps_def halt_steps_upto.simps by (metis (no_types, lifting) map_cong)
qed

lemma halt_steps_children:
  assumes "wf_definition d" "i < length (df_nodes d)"
  shows "halt_steps d i = Suc (sum_list (map (halt_steps d) (nd_children (df_nodes d ! i))))"
proof -
  have "halt_steps_upto d i c = halt_steps d c" if "c \<in> set (nd_children (df_nodes d ! i))" for c
    using wf_definition_child [OF assms that] halt_steps_upto_stable [OF assms(1)] by simp
  then show ?thesis
    unfolding halt_steps_def [of d i] halt_steps_upto.simps by (metis (no_types, lifting) map_cong)
qed

lemma halt_loop_returns:
  "wf_definition d \<Longrightarrow> \<forall>i \<in> set stack. i < length (df_nodes d) \<Longrightarrow>
     sum_list (map (halt_steps d) stack) \<le> hf \<Longrightarrow> fst (halt_loop H hf d reason stack c) = Ret ()"
proof (induction H hf d reason stack c rule: halt_loop.induct)
  case (2 H d reason i stack c)
  then show ?case by (simp add: halt_steps_def)
next
  case (3 H hf d reason i stack c)
  define n where "n = df_nodes d ! i"
  have i: "i < length (df_nodes d)" using "3.prems" by simp
  have node: "get_node d i = Inr n" using i by (simp add: get_node_def n_def)
  have "\<forall>j \<in> set (rev (nd_children n) @ stack). j < length (df_nodes d)"
    using "3.prems" wf_definition_child [OF "3.prems"(1) i] by (auto simp: n_def)
  moreover have "sum_list (map (halt_steps d) (rev (nd_children n) @ stack)) \<le> hf"
    using "3.prems" halt_steps_children [OF "3.prems"(1) i] by (simp add: n_def rev_map [symmetric] sum_list_rev)
  ultimately show ?case
    using "3.IH" [OF node "3.prems"(1)] node by simp
qed simp

lemma halt_subtree_returns:
  assumes "wf_definition d" "enough_halt_steps d hf" "i < length (df_nodes d)" "runs d c"
  shows "fst (halt_subtree_impl H hf i reason c) = Ret ()"
  using assms by (simp add: halt_subtree_impl_def runs_def halt_loop_returns enough_halt_steps_def)

text \<open>With the frame: halting returns, and the definition is still there.\<close>

definition halts :: "bt_definition \<Rightarrow> unit outcome \<times> ('w, 'p) tick_context \<Rightarrow> bool" where
  "halts d r \<longleftrightarrow> fst r = Ret () \<and> runs d (snd r)"

lemma obind_halts: "halts d m \<Longrightarrow> obind m f = f () (snd m)"
  by (cases m) (auto simp: halts_def)

lemma halts_runs: "halts d m \<Longrightarrow> runs d (snd m)"
  by (simp add: halts_def)

lemma runs_simps [simp]:
  "runs d (node_memory_for i c) = runs d c"
  "runs d (set_memory i m c) = runs d c"
  "runs d (upd_memory i f c) = runs d c"
  "runs d (set_i0 i x c) = runs d c"
  "runs d (clear_reactive_running_child i c) = runs d c"
  "runs d (remember_reactive_running_child i x c) = runs d c"
  "runs d (emit_node_preempt i j reason c) = runs d c"
  by (simp_all add: runs_def upd_memory_def set_i0_def clear_reactive_running_child_def
      remember_reactive_running_child_def emit_node_preempt_def)

definition halting_ok :: "bt_definition \<Rightarrow> ('w, 'p) host \<Rightarrow> nat \<Rightarrow> bool" where
  "halting_ok d H hf \<longleftrightarrow> wf_definition d \<and> enough_halt_steps d hf \<and> callbacks_respect same_frame H"

lemma halting_ok_halt: "halting_ok d H hf \<Longrightarrow> respects_halt same_frame (ho_reg H)"
  by (simp add: halting_ok_def callbacks_respect_def)

lemma halt_subtree_halts:
  assumes "halting_ok d H hf" "runs d c" "i < length (df_nodes d)"
  shows "halts d (halt_subtree_impl H hf i reason c)"
proof -
  have "same_frame c (snd (halt_subtree_impl H hf i reason c))"
    using halting_ok_halt [OF assms(1)] by (intro frame.halt_subtree_to) simp_all
  moreover have "fst (halt_subtree_impl H hf i reason c) = Ret ()"
    by (rule halt_subtree_returns [of d]) (use assms in \<open>simp_all add: halting_ok_def\<close>)
  ultimately show ?thesis
    using assms by (simp add: halts_def same_frame_runs)
qed

lemma halt_child_halts:
  "halting_ok d H hf \<Longrightarrow> runs d c \<Longrightarrow> i < length (df_nodes d) \<Longrightarrow> halts d (halt_child_subtree H hf i j reason c)"
  by (simp add: halt_child_subtree_def halt_subtree_halts)

lemma halt_all_halts:
  "halting_ok d H hf \<Longrightarrow> runs d c \<Longrightarrow> \<forall>i \<in> set is. i < length (df_nodes d) \<Longrightarrow> halts d (halt_all H hf is reason c)"
proof (induction "is" arbitrary: c)
  case (Cons i "is")
  then have "halts d (halt_subtree_impl H hf i reason c)"
    by (simp add: halt_subtree_halts)
  with Cons show ?case
    by (simp add: obind_halts [of d] halts_runs)
qed (simp add: halts_def)

lemma halt_children_halts:
  assumes "halting_ok d H hf" "runs d c" "\<forall>i \<in> set (nd_children n). i < length (df_nodes d)"
  shows "halts d (halt_all_children H hf n reason c)"
  using assms by (simp add: halt_all_children_def halt_all_halts)

lemma halt_previous_halts:
  "halting_ok d H hf \<Longrightarrow> runs d c \<Longrightarrow> \<forall>i. p = Some i \<longrightarrow> i < length (df_nodes d) \<Longrightarrow>
     halts d (halt_previous H hf p j reason c)"
  by (cases p) (simp_all add: halt_previous_def halt_child_halts, simp add: halts_def)

lemma prior_running_child_in: "prior_running_child mem n = Some i \<Longrightarrow> i \<in> set (nd_children n)"
  by (auto simp: prior_running_child_def Let_def split: if_splits)

subsection \<open>Ticking ends\<close>

definition ok :: "bt_definition \<Rightarrow> ('w, 'p) host \<Rightarrow> ('w, 'p) ticked \<Rightarrow> bool" where
  "ok d H r \<longleftrightarrow> settled d H (fst r) \<and> runs d (snd r)"

lemma ok_Ret [simp]: "ok d H (Ret st, c) = runs d c"
  by (simp add: ok_def)

lemma ok_obind:
  assumes "ok d H m" "\<And>st c. runs d c \<Longrightarrow> ok d H (f st c)"
  shows "ok d H (obind m f)"
  using assms by (cases m; cases "fst m") (auto simp: ok_def)

lemma ok_halted: "halts d m \<Longrightarrow> ok d H (halted_then m st)"
  by (simp add: halted_then_def obind_halts [of d] halts_runs)

lemma ok_after_halt: "halts d m \<Longrightarrow> (\<And>c. runs d c \<Longrightarrow> ok d H (f () c)) \<Longrightarrow> ok d H (obind m f)"
  by (simp add: obind_halts [of d] halts_runs)

lemma ok_loops:
  assumes tk: "\<And>i c. i \<in> set cs \<Longrightarrow> runs d c \<Longrightarrow> ok d H (tk i c)"
  shows "runs d c \<Longrightarrow> ok d H (seq_loop tk cs c)" "runs d c \<Longrightarrow> ok d H (sel_loop tk cs c)"
  using tk by (induction cs arbitrary: c) (auto intro!: ok_obind)

lemma ok_mem_loops:
  assumes H: "halting_ok d H hf" and ids: "\<forall>i \<in> set (nd_children n). i < length (df_nodes d)"
    and tk: "\<And>i c. i \<in> set cs \<Longrightarrow> runs d c \<Longrightarrow> ok d H (tk i c)"
  shows "runs d c \<Longrightarrow> ok d H (mem_seq_loop H hf tk n index cs c)"
    and "runs d c \<Longrightarrow> ok d H (mem_sel_loop H hf tk n index cs c)"
  using tk
  by (induction cs arbitrary: c index)
    (auto intro!: ok_obind ok_halted halt_children_halts [OF H] ids [rule_format] split: status.split)

lemma ok_reactive_loops:
  assumes H: "halting_ok d H hf" and p: "\<forall>i. p = Some i \<longrightarrow> i < length (df_nodes d)"
    and tk: "\<And>i c. i \<in> set cs \<Longrightarrow> runs d c \<Longrightarrow> ok d H (tk i c)"
  shows "runs d c \<Longrightarrow> ok d H (reactive_seq_loop H hf tk n p i cs c)"
    and "runs d c \<Longrightarrow> ok d H (reactive_sel_loop H hf tk n p q i cs c)"
  using tk
  by (induction cs arbitrary: c i)
    (auto intro!: ok_obind ok_after_halt halt_previous_halts [OF H] p [rule_format] split: status.split)

lemma ok_composites:
  assumes H: "halting_ok d H hf" and ids: "\<forall>i \<in> set (nd_children n). i < length (df_nodes d)"
    and tk: "\<And>i c. i \<in> set (nd_children n) \<Longrightarrow> runs d c \<Longrightarrow> ok d H (tk i c)" and c: "runs d c"
  shows "ok d H (tick_mem_seq H hf tk n c)" "ok d H (tick_mem_sel H hf tk n c)"
    "ok d H (tick_reactive_seq H hf tk n c)" "ok d H (tick_reactive_sel H hf tk n c)"
  unfolding tick_mem_seq_def tick_mem_sel_def tick_reactive_seq_def tick_reactive_sel_def Let_def
  using c ids tk
  by (auto intro!: ok_mem_loops ok_reactive_loops H dest: in_set_dropD dest!: prior_running_child_in)

lemma ok_child_at:
  assumes "index < length (nd_children n)" "runs d c"
    and "\<And>i c. i \<in> set (nd_children n) \<Longrightarrow> runs d c \<Longrightarrow> ok d H (tk i c)"
  shows "ok d H (tick_child_at tk n index c)"
  using assms by (simp add: tick_child_at_def)

lemma clamp_child_index_less: "nd_children n \<noteq> [] \<Longrightarrow> clamp_child_index n x < length (nd_children n)"
  by (auto simp: clamp_child_index_def Let_def)

lemma ok_async_seq:
  assumes H: "halting_ok d H hf" and ids: "\<forall>i \<in> set (nd_children n). i < length (df_nodes d)"
    and tk: "\<And>i c. i \<in> set (nd_children n) \<Longrightarrow> runs d c \<Longrightarrow> ok d H (tk i c)" and c: "runs d c"
    and ne: "nd_children n \<noteq> []"
  shows "ok d H (tick_async_seq H hf tk n c)"
  unfolding tick_async_seq_def Let_def
  using c ids by (auto intro!: ok_obind ok_child_at clamp_child_index_less ne tk ok_halted
      halt_children_halts [OF H] split: status.split)

lemma ok_decorators:
  assumes tk: "\<And>i c. i \<in> set (nd_children n) \<Longrightarrow> runs d c \<Longrightarrow> ok d H (tk i c)" and c: "runs d c"
    and ne: "nd_children n \<noteq> []"
  shows "ok d H (tick_invert tk n c)" "ok d H (tick_repeat tk n c)" "ok d H (tick_retry tk n c)"
  unfolding tick_invert_def tick_repeat_def tick_retry_def Let_def
  using c ne by (auto intro!: ok_obind ok_child_at tk split: status.split)

subsection \<open>Leaves end\<close>

text \<open>The planner and VLA leaves never run out of steps: no part of them loops.\<close>

lemma setters_end [simp]:
  "set_text v loc f \<noteq> Diverge" "set_int v loc g \<noteq> Diverge" "set_number v loc h \<noteq> Diverge" "set_bool v loc b \<noteq> Diverge"
  by (simp_all add: set_text_def set_int_def set_number_def set_bool_def lift_err_def split: sum.split)

lemma seeds_end [simp]: "seed_from_blackboard x \<noteq> Diverge" "seed_from_lisp_arg v \<noteq> Diverge"
  by (simp_all add: seed_from_blackboard_def seed_from_lisp_arg_def seed_from_double_def fp_to_u64_def Let_def
      split: bb_value.split lisp_value.split)

lemma options_end [simp]:
  "set_vla_request_option raw key v op \<noteq> Diverge"
  "set_vla_wait_option raw key v ow \<noteq> Diverge"
  "set_vla_cancel_option raw key v oc \<noteq> Diverge"
  using seeds_end(2) [of v]
  by (auto simp: set_vla_request_option_def set_vla_wait_option_def set_vla_cancel_option_def split: outcome.split option.split)

lemma plan_options_end [simp]: "set_plan_option raw key v op \<noteq> Diverge"
  by (simp add: set_plan_option_def split: sum.split option.split)

lemma parse_options_end:
  "(\<And>raw key v op. f raw key v op \<noteq> Diverge) \<Longrightarrow> parse_options loc f args op \<noteq> Diverge"
  by (induction loc f args op rule: parse_options.induct) (auto split: sum.split outcome.split)

definition step_ends :: "(status outcome + 'a) \<times> 'c \<Rightarrow> bool" where
  "step_ends m \<longleftrightarrow> fst m \<noteq> Inl Diverge"

lemma step_ends_simps [simp]:
  "step_ends (Inr x, c)" "step_ends (Inl (Ret st), c)" "step_ends (Inl (Throw e), c)"
  "step_ends (vla_fail msg tc)" "step_ends (plan_error n msg tc)"
  by (simp_all add: step_ends_def vla_fail_def plan_error_def)

lemma step_ends_outcome: "r \<noteq> Diverge \<Longrightarrow> step_ends (step_outcome r c)"
  by (cases r) (simp_all add: step_outcome_def step_ends_def)

lemma step_ends_ebind:
  assumes "step_ends m" "\<And>x c. step_ends (f x c)"
  shows "step_ends (ebind m f)"
  using assms by (cases m; cases "fst m") (auto simp: ebind_def step_ends_def)

text \<open>The same for the last step of a leaf, whose value is the result.\<close>

definition leaf_ends :: "(status outcome + status outcome) \<times> 'c \<Rightarrow> bool" where
  "leaf_ends m \<longleftrightarrow> fst m \<noteq> Inl Diverge \<and> fst m \<noteq> Inr Diverge"

lemma leaf_ends_simps [simp]:
  "leaf_ends (Inr (Ret st), c)" "leaf_ends (Inl (Ret st), c)" "leaf_ends (Inl (Throw e), c)"
  "leaf_ends (vla_fail msg tc)" "leaf_ends (plan_error n msg tc)"
  by (simp_all add: leaf_ends_def vla_fail_def plan_error_def)

lemma leaf_ends_ebind:
  assumes "step_ends m" "\<And>x c. leaf_ends (f x c)"
  shows "leaf_ends (ebind m f)"
  using assms by (cases m; cases "fst m") (auto simp: ebind_def step_ends_def leaf_ends_def)

definition ends :: "status outcome \<times> 'c \<Rightarrow> bool" where
  "ends r \<longleftrightarrow> fst r \<noteq> Diverge"

lemma ends_with_ends: "leaf_ends m \<Longrightarrow> ends (ends_with m)"
  by (cases m; cases "fst m") (auto simp: ends_with_def leaf_ends_def ends_def)

lemma ends_Ret [simp]: "ends (Ret st, c)"
  by (simp add: ends_def)

lemma request_steps_end [simp]:
  "step_ends (request_state op c)" "step_ends (request_instruction op c)" "step_ends (request_task_id op c)"
  "step_ends (request_limits op state c)" "step_ends (request_forbidden op c)" "step_ends (request_image op c)"
  "step_ends (request_blob op c)" "step_ends (request_seed op c)"
  by (auto simp: request_state_def request_instruction_def request_task_id_def request_limits_def request_forbidden_def
      request_image_def request_blob_def request_seed_def split_beta Let_def
      split: option.split sum.split list.split bb_value.split intro!: step_ends_ebind step_ends_outcome)

lemma build_requests_end [simp]:
  "step_ends (build_vla_request op c)" "step_ends (build_plan_request pops n po c)"
  by (auto simp: build_vla_request_def build_plan_request_def plan_state_def plan_seed_def split_beta Let_def
      split: option.split sum.split intro!: step_ends_ebind step_ends_outcome)

lemma submit_ends [simp]: "leaf_ends (submit_vla_request ops n op rq c)"
  by (auto simp: submit_vla_request_def split_beta Let_def split: sum.split)

lemma poll_ends [simp]: "leaf_ends (poll_vla_job ops n op i c)"
  by (auto simp: poll_vla_job_def split_beta Let_def split: sum.split option.split)

lemma finish_plan_ends [simp]: "leaf_ends (finish_plan n op rq r c)"
  by (auto simp: finish_plan_def Let_def)

lemma call_planner_ends [simp]: "leaf_ends (call_planner ops n op rq c)"
  by (auto simp: call_planner_def split_beta Let_def split: sum.split exn.split)

lemma execute_request_ends: "ends (execute_vla_request svc n args c)"
  by (auto simp: execute_vla_request_def parse_vla_request_options_def parse_options_end split_beta Let_def split: option.split
      intro!: ends_with_ends leaf_ends_ebind step_ends_outcome)

lemma execute_wait_ends: "ends (execute_vla_wait svc n args c)"
  by (auto simp: execute_vla_wait_def parse_vla_wait_options_def parse_options_end split_beta Let_def
      split: option.split intro!: ends_with_ends leaf_ends_ebind step_ends_outcome)

lemma execute_cancel_ends: "ends (execute_vla_cancel svc n args c)"
  by (auto simp: execute_vla_cancel_def parse_vla_cancel_options_def parse_options_end split_beta Let_def
      split: option.split intro!: ends_with_ends leaf_ends_ebind step_ends_outcome)

lemma execute_plan_ends: "ends (execute_plan_action svc n args c)"
  by (auto simp: execute_plan_action_def parse_options_end
      split: option.split intro!: ends_with_ends leaf_ends_ebind step_ends_outcome)

lemma ok_catch_std:
  assumes "ends m" "runs d (snd (catch_std m h))" "\<not> core_definition d"
  shows "ok d H (catch_std m h)"
  using assms by (cases m; cases "fst m") (auto simp: ok_def ends_def catch_std_def split: exn.splits)

lemma ok_service_leaves:
  assumes "runs d c" "\<not> core_definition d"
  shows "ok d H (tick_plan_action H n c)" "ok d H (tick_vla_request H n c)"
    "ok d H (tick_vla_wait H n c)" "ok d H (tick_vla_cancel H n c)"
proof -
  note kept = frame.service_leaves_to [OF frame.refl, of c H n, THEN same_frame_runs, OF assms(1)]
  show "ok d H (tick_plan_action H n c)"
    using kept(1) assms(2) by (auto simp: tick_plan_action_def split_beta intro!: ok_catch_std execute_plan_ends)
  show "ok d H (tick_vla_request H n c)"
    using kept(2) assms(2) by (auto simp: tick_vla_request_def split_beta intro!: ok_catch_std execute_request_ends)
  show "ok d H (tick_vla_wait H n c)"
    using kept(3) assms(2) by (auto simp: tick_vla_wait_def split_beta intro!: ok_catch_std execute_wait_ends)
  show "ok d H (tick_vla_cancel H n c)"
    using kept(4) assms(2) by (auto simp: tick_vla_cancel_def split_beta intro!: ok_catch_std execute_cancel_ends)
qed

lemma ok_callbacks:
  assumes "callbacks_respect same_frame H" "runs d c"
  shows "ok d H (tick_cond H n c)" "ok d H (tick_act H n c)"
proof -
  have "runs d (snd (tick_cond H n c))" "runs d (snd (tick_act H n c))"
    using assms same_frame_runs frame.tick_cond_to frame.tick_act_to frame.refl
    unfolding callbacks_respect_def by blast+
  moreover have "settled d H (fst (tick_cond H n c))"
    by (auto simp: tick_cond_def std_callbacks_def split_beta Let_def split: option.split prod.split sum.split exn.split)
  moreover have "settled d H (fst (tick_act H n c))"
    by (auto simp: tick_act_def std_callbacks_def split_beta Let_def split: option.split prod.split sum.split exn.split)
  ultimately show "ok d H (tick_cond H n c)" "ok d H (tick_act H n c)"
    by (simp_all add: ok_def)
qed

subsection \<open>Nodes end\<close>

lemma ok_body:
  assumes H: "halting_ok d H hf" and i: "i < length (df_nodes d)" and n: "n = df_nodes d ! i"
    and tk: "\<And>j c. j < i \<Longrightarrow> runs d c \<Longrightarrow> ok d H (tk j c)" and c: "runs d c"
  shows "ok d H (tick_body H hf tk n c)"
proof -
  have wf: "wf_definition d" and cb: "callbacks_respect same_frame H"
    using H by (simp_all add: halting_ok_def)
  then have node: "wf_node i n" using i n by (simp add: wf_definition_def)
  have ids: "\<forall>j \<in> set (nd_children n). j < length (df_nodes d)" and below: "\<forall>j \<in> set (nd_children n). j < i"
    using wf_definition_child [OF wf i] n by auto
  have tk': "\<And>j c. j \<in> set (nd_children n) \<Longrightarrow> runs d c \<Longrightarrow> ok d H (tk j c)"
    using tk below by blast
  have ne: "composite (nd_kind n) \<or> decorator (nd_kind n) \<Longrightarrow> nd_children n \<noteq> []"
    using node by (auto simp: wf_node_def)
  have leaf: "service_leaf (nd_kind n) \<Longrightarrow> \<not> core_definition d"
    using i n by (auto simp: core_definition_def)
  note facts = ok_loops [where tk = tk, OF tk' c] ok_composites [OF H ids tk' c] ok_async_seq [OF H ids tk' c] ok_decorators [OF tk' c]
    ok_callbacks [OF cb c] ok_service_leaves [OF c]
  show ?thesis
    using ne leaf
    by (cases "nd_kind n") (simp_all add: tick_body_def facts c composite_def decorator_def service_leaf_def)
qed

lemma runs_enter [simp]: "runs d (snd (node_scope_enter n c)) = runs d c"
  by (simp add: runs_def)

lemma runs_exit [simp]: "runs d (node_scope_exit sc n st c) = runs d c"
  using exit_inst [of sc n st c] by (auto simp: runs_def)

lemma runs_finalize [simp]: "runs d (finalize n c) = runs d c"
  by (simp add: runs_def)

lemma ok_scoped:
  assumes "runs d c" "ok d H (tick_body H hf tk n (snd (node_scope_enter n c)))"
  shows "ok d H (tick_scoped H hf tk n c)"
proof -
  obtain sc c1 where enter: "node_scope_enter n c = (sc, c1)" by fastforce
  obtain r c2 where body: "tick_body H hf tk n c1 = (r, c2)" by fastforce
  from assms enter body show ?thesis
    by (cases r) (simp_all add: tick_scoped_def ok_def)
qed

lemma ok_tick_node:
  assumes H: "halting_ok d H hf"
  shows "i < length (df_nodes d) \<Longrightarrow> i < k \<Longrightarrow> runs d c \<Longrightarrow> ok d H (tick_node H hf k i c)"
proof (induction k arbitrary: i c)
  case (Suc k)
  have "ok d H (tick_node H hf k j c)" if "j < i" "runs d c" for j c
    using Suc that by simp
  then have "ok d H (tick_scoped H hf (tick_node H hf k) (df_nodes d ! i) c)"
    using Suc.prems by (intro ok_scoped ok_body [OF H]) simp_all
  then show ?case
    using Suc.prems by (simp add: get_node_def runs_def)
qed simp


text \<open>Five levels and nine halting steps are plenty for the patrol.\<close>

lemma patrol_halt_steps: "enough_halt_steps patrol_definition 9"
  by (simp add: enough_halt_steps_def halt_steps_def patrol_nodes eval_nat_numeral all_less_Suc)

lemma patrol_core: "core_definition patrol_definition"
  by (simp add: core_definition_def patrol_nodes service_leaf_def)

lemma sample_std: "std_callbacks sample_host"
  by (simp add: std_callbacks_def)




end
