(* ===== verification/Refinement.thy ===== *)
theory Refinement
  imports Progress
begin

text \<open>
  The documented meaning of a tick (\<open>docs/bt/semantics.md\<close>) as an abstract machine on trees, and the
  proof that \<open>tick_node\<close> implements it.

  The abstract state is one cell per node: a stored index or counter and a flag. The statuses of the
  leaves are given by an oracle for the tick. Everything else of the runtime (scopes, traces, events,
  callbacks and their errors, the heap, the memory of leaves) is absent. The rules are stated with a
  single combinator, \<open>first_stop\<close>: run the children in order up to the first status that decides.
\<close>

subsection \<open>Trees and cells\<close>

datatype bt_tree = Node (bt_kind: node_kind) (bt_id: node_id) (bt_param: i64) (bt_children: "bt_tree list")

fun tree_upto :: "bt_definition \<Rightarrow> nat \<Rightarrow> node_id \<Rightarrow> bt_tree" where
  "tree_upto d 0 i = Node K_fail i 0 []"
| "tree_upto d (Suc k) i =
     (let n = df_nodes d ! i in Node (nd_kind n) i (nd_int_param n) (map (tree_upto d k) (nd_children n)))"

definition tree_of :: "bt_definition \<Rightarrow> node_id \<Rightarrow> bt_tree" where
  "tree_of d i = tree_upto d (Suc i) i"

fun tree_ids :: "bt_tree \<Rightarrow> node_id list" where
  "tree_ids (Node k i p ts) = i # concat (map tree_ids ts)"

type_synonym cells = "node_id \<Rightarrow> i64 \<times> bool"

definition clear_cells :: "node_id list \<Rightarrow> cells \<Rightarrow> cells" where
  "clear_cells is s = (\<lambda>i. if i \<in> set is then (0, False) else s i)"

subsection \<open>The documented rules\<close>

type_synonym runner = "cells \<Rightarrow> status \<times> cells"

fun first_stop :: "(status \<Rightarrow> bool) \<Rightarrow> nat \<Rightarrow> runner list \<Rightarrow> cells \<Rightarrow> (nat \<times> status) option \<times> cells" where
  "first_stop P j [] s = (None, s)"
| "first_stop P j (f # fs) s =
     (let (st, s) = f s in if P st then (Some (j, st), s) else first_stop P (Suc j) fs s)"

definition start_index :: "nat \<Rightarrow> i64 \<Rightarrow> nat" where
  "start_index len x = (if 0 \<le> sint x \<and> sint x < int len then nat (sint x) else 0)"

definition running_child :: "bt_tree list \<Rightarrow> i64 \<times> bool \<Rightarrow> bt_tree option" where
  "running_child ts cell =
     (if snd cell \<and> 0 \<le> sint (fst cell) \<and> sint (fst cell) < int (length ts) then Some (ts ! nat (sint (fst cell))) else None)"

definition preempt :: "bt_tree option \<Rightarrow> cells \<Rightarrow> cells" where
  "preempt p s = (case p of None \<Rightarrow> s | Some t \<Rightarrow> clear_cells (tree_ids t) s)"

definition doc_mem_seq :: "node_id \<Rightarrow> bt_tree list \<Rightarrow> runner list \<Rightarrow> runner" where
  "doc_mem_seq i ts fs s =
     (let start = start_index (length ts) (fst (s i)) in
      case first_stop (\<lambda>st. st \<noteq> Success) start (drop start fs) s of
        (Some (j, st), s) \<Rightarrow> (st, s(i := (word_of_nat j, snd (s i))))
      | (None, s) \<Rightarrow> (Success, clear_cells (concat (map tree_ids ts)) (s(i := (0, snd (s i))))))"

definition doc_mem_sel :: "node_id \<Rightarrow> bt_tree list \<Rightarrow> runner list \<Rightarrow> runner" where
  "doc_mem_sel i ts fs s =
     (let start = start_index (length ts) (fst (s i)) in
      case first_stop (\<lambda>st. st \<noteq> Failure) start (drop start fs) s of
        (Some (j, Running), s) \<Rightarrow> (Running, s(i := (word_of_nat j, True)))
      | (Some (j, st), s) \<Rightarrow> (st, clear_cells (concat (map tree_ids ts)) (s(i := (0, False))))
      | (None, s) \<Rightarrow> (Failure, s(i := (0, False))))"

definition doc_async_seq :: "node_id \<Rightarrow> bt_tree list \<Rightarrow> runner list \<Rightarrow> runner" where
  "doc_async_seq i ts fs s =
     (let j = start_index (length ts) (fst (s i)) in
      case (fs ! j) s of
        (Running, s) \<Rightarrow> (Running, s(i := (word_of_nat j, snd (s i))))
      | (Failure, s) \<Rightarrow> (Failure, s(i := (0, snd (s i))))
      | (Success, s) \<Rightarrow>
          if Suc j < length ts then (Running, s(i := (word_of_nat (Suc j), snd (s i))))
          else (Success, clear_cells (concat (map tree_ids ts)) (s(i := (0, snd (s i))))))"

definition doc_reactive_seq :: "node_id \<Rightarrow> bt_tree list \<Rightarrow> runner list \<Rightarrow> runner" where
  "doc_reactive_seq i ts fs s =
     (let prev = running_child ts (s i) in
      case first_stop (\<lambda>st. st \<noteq> Success) 0 fs s of
        (Some (j, Running), s) \<Rightarrow>
          (Running, (if map_option bt_id prev \<noteq> Some (bt_id (ts ! j)) then preempt prev s else s)(i := (word_of_nat j, True)))
      | (Some (j, st), s) \<Rightarrow> (st, (preempt prev s)(i := (0, False)))
      | (None, s) \<Rightarrow> (Success, (preempt prev s)(i := (0, False))))"

definition doc_reactive_sel :: "node_id \<Rightarrow> bt_tree list \<Rightarrow> runner list \<Rightarrow> runner" where
  "doc_reactive_sel i ts fs s =
     (let prev = running_child ts (s i); prev_index = nat (sint (fst (s i))) in
      case first_stop (\<lambda>st. st \<noteq> Failure) 0 fs s of
        (Some (j, st), s) \<Rightarrow>
          let s = (if j < prev_index \<and> map_option bt_id prev \<noteq> Some (bt_id (ts ! j)) then preempt prev s else s)
          in (st, s(i := (if st = Running then (word_of_nat j, True) else (0, False))))
      | (None, s) \<Rightarrow> (Failure, (preempt prev s)(i := (0, False))))"

definition doc_repeat :: "node_id \<Rightarrow> i64 \<Rightarrow> runner \<Rightarrow> runner" where
  "doc_repeat i p f s =
     (if sint p \<le> sint (fst (s i)) then (Success, s)
      else case f s of
             (Success, s) \<Rightarrow>
               let x = fst (s i) + 1
               in (if sint p \<le> sint x then Success else Running, s(i := (x, snd (s i))))
           | (st, s) \<Rightarrow> (st, s))"

definition doc_retry :: "node_id \<Rightarrow> i64 \<Rightarrow> runner \<Rightarrow> runner" where
  "doc_retry i p f s =
     (case f s of
        (Success, s) \<Rightarrow> (Success, s(i := (0, snd (s i))))
      | (Running, s) \<Rightarrow> (Running, s)
      | (Failure, s) \<Rightarrow>
          let x = fst (s i) + 1
          in (if sint x \<le> sint p then Running else Failure, s(i := (x, snd (s i)))))"

definition decided :: "status \<Rightarrow> (nat \<times> status) option \<times> cells \<Rightarrow> status \<times> cells" where
  "decided otherwise r = (case fst r of Some (j, st) \<Rightarrow> st | None \<Rightarrow> otherwise, snd r)"

definition doc_rule :: "(node_id \<Rightarrow> status) \<Rightarrow> node_kind \<Rightarrow> node_id \<Rightarrow> i64 \<Rightarrow> bt_tree list \<Rightarrow> runner list \<Rightarrow> runner" where
  "doc_rule orc k i p ts fs s =
     (case k of
        K_seq \<Rightarrow> decided Success (first_stop (\<lambda>st. st \<noteq> Success) 0 fs s)
      | K_sel \<Rightarrow> decided Failure (first_stop (\<lambda>st. st \<noteq> Failure) 0 fs s)
      | K_mem_seq \<Rightarrow> doc_mem_seq i ts fs s
      | K_mem_sel \<Rightarrow> doc_mem_sel i ts fs s
      | K_async_seq \<Rightarrow> doc_async_seq i ts fs s
      | K_reactive_seq \<Rightarrow> doc_reactive_seq i ts fs s
      | K_reactive_sel \<Rightarrow> doc_reactive_sel i ts fs s
      | K_invert \<Rightarrow>
          (case hd fs s of (Success, s) \<Rightarrow> (Failure, s) | (Failure, s) \<Rightarrow> (Success, s) | (Running, s) \<Rightarrow> (Running, s))
      | K_repeat \<Rightarrow> doc_repeat i p (hd fs) s
      | K_retry \<Rightarrow> doc_retry i p (hd fs) s
      | K_succeed \<Rightarrow> (Success, s)
      | K_fail \<Rightarrow> (Failure, s)
      | K_running \<Rightarrow> (Running, s)
      | _ \<Rightarrow> (orc i, s))"

fun doc_tick :: "(node_id \<Rightarrow> status) \<Rightarrow> bt_tree \<Rightarrow> runner" where
  "doc_tick orc (Node k i p ts) s = doc_rule orc k i p ts (map (doc_tick orc) ts) s"

subsection \<open>Contracts of leaves and halt functions\<close>

definition interior :: "node_kind \<Rightarrow> bool" where
  "interior k \<longleftrightarrow> composite k \<or> decorator k"

definition callback_leaf :: "node_kind \<Rightarrow> bool" where
  "callback_leaf k \<longleftrightarrow> named_leaf k \<or> service_leaf k"

text \<open>Only the memory of node \<open>i\<close> changes, and the definition stays.\<close>

definition touches :: "node_id \<Rightarrow> ('w, 'p) tick_context \<Rightarrow> ('w, 'p) tick_context \<Rightarrow> bool" where
  "touches i c c' \<longleftrightarrow> in_def (cx_inst c') = in_def (cx_inst c) \<and> cx_tick_index c' = cx_tick_index c \<and>
     (\<forall>j. j \<noteq> i \<longrightarrow> in_memory (cx_inst c') j = in_memory (cx_inst c) j)"

definition local_halts :: "('w, 'p) host \<Rightarrow> bool" where
  "local_halts H \<longleftrightarrow> (\<forall>name fn c i. find_action_halt name (ho_reg H) = Some fn \<longrightarrow> touches i c (snd (fn c i)))"

text \<open>During tick \<open>t\<close>, leaf \<open>i\<close> answers \<open>orc t i\<close> and changes no memory but its own.\<close>

definition leaves_answer :: "bt_definition \<Rightarrow> ('w, 'p) host \<Rightarrow> (nat \<Rightarrow> node_id \<Rightarrow> status) \<Rightarrow> bool" where
  "leaves_answer d H orc \<longleftrightarrow>
     (\<forall>i c hf tk. i < length (df_nodes d) \<longrightarrow> callback_leaf (nd_kind (df_nodes d ! i)) \<longrightarrow> in_def (cx_inst c) = Some d \<longrightarrow>
        fst (tick_body H hf tk (df_nodes d ! i) c) = Ret (orc (cx_tick_index c) i) \<and> touches i c (snd (tick_body H hf tk (df_nodes d ! i) c)))"

text \<open>The simulation relation: the cells are the memories of the interior nodes.\<close>

definition cell_of :: "node_id \<Rightarrow> ('w, 'p) tick_context \<Rightarrow> i64 \<times> bool" where
  "cell_of i c = (nm_i0 (memory_of i c), nm_b0 (memory_of i c))"

definition sim :: "bt_definition \<Rightarrow> nat \<Rightarrow> cells \<Rightarrow> ('w, 'p) tick_context \<Rightarrow> bool" where
  "sim d t s c \<longleftrightarrow> runs d c \<and> cx_tick_index c = t \<and>
     (\<forall>i < length (df_nodes d). interior (nd_kind (df_nodes d ! i)) \<longrightarrow> cell_of i c = s i)"

subsection \<open>Trees of well-formed definitions\<close>

lemma tree_upto_stable:
  assumes "wf_definition d"
  shows "i < length (df_nodes d) \<Longrightarrow> i < k \<Longrightarrow> tree_upto d k i = tree_of d i"
proof (induction i arbitrary: k rule: less_induct)
  case (less i)
  then obtain k' where k: "k = Suc k'" by (cases k) auto
  have "tree_upto d k' c = tree_upto d i c" if "c \<in> set (nd_children (df_nodes d ! i))" for c
  proof -
    have "c < i" "c < length (df_nodes d)"
      using wf_definition_child [OF assms _ that] less.prems by auto
    with less k show ?thesis by simp
  qed
  then show ?case
    unfolding k tree_of_def tree_upto.simps Let_def by simp
qed

lemma tree_of_unfold:
  assumes "wf_definition d" "i < length (df_nodes d)"
  shows "tree_of d i = Node (nd_kind (df_nodes d ! i)) i (nd_int_param (df_nodes d ! i))
    (map (tree_of d) (nd_children (df_nodes d ! i)))"
proof -
  have "tree_upto d i c = tree_of d c" if "c \<in> set (nd_children (df_nodes d ! i))" for c
    using wf_definition_child [OF assms that] tree_upto_stable [OF assms(1)] by simp
  then show ?thesis
    by (simp add: tree_of_def [of d i] Let_def)
qed

lemma bt_id_tree_of [simp]: "bt_id (tree_of d i) = i"
  by (simp add: tree_of_def Let_def)

subsection \<open>Halting clears cells\<close>

lemma touches_refl [simp]: "touches i c c"
  by (simp add: touches_def)

lemma touches_trans: "touches i a b \<Longrightarrow> touches i b c \<Longrightarrow> touches i a c"
  by (simp add: touches_def)

lemma touches_inst: "cx_inst c' = cx_inst c \<Longrightarrow> cx_tick_index c' = cx_tick_index c \<Longrightarrow> touches i a c \<Longrightarrow> touches i a c'"
  by (simp add: touches_def)

lemma touches_memory: "touches i a c \<Longrightarrow> touches i a (set_memory i m c)"
  by (simp add: touches_def in_memory_set_memory)

lemma touches_warning: "touches i a c \<Longrightarrow> touches i a (emit_unhaltable_warning_once j msg c)"
  by (simp add: emit_unhaltable_warning_once_def Let_def touches_def)

lemma touches_try_cancel: "touches i a c \<Longrightarrow> touches i a (snd (try_cancel_scheduler_leaf svc i reason c))"
  by (auto simp: try_cancel_scheduler_leaf_def upd_memory_def split_beta Let_def split: option.split
      intro!: touches_memory) (simp_all add: touches_def)

lemma touches_call_halt:
  assumes "local_halts H" "touches i a c"
  shows "touches i a (snd (call_halt_fn (ho_reg H) n i c))"
proof (cases "find_action_halt (nd_leaf_name n) (ho_reg H)")
  case (Some fn)
  with assms have "touches i a (snd (fn c i))" unfolding local_halts_def by (metis touches_trans)
  then show ?thesis
    by (cases "fn c i") (auto simp: call_halt_fn_def Some split: sum.split exn.split intro!: touches_warning)
qed (simp add: call_halt_fn_def assms)

lemma touches_halt_action: "local_halts H \<Longrightarrow> touches i a c \<Longrightarrow> touches i a (halt_action H n i reason c)"
  by (auto simp: halt_action_def split_beta Let_def intro!: touches_warning touches_try_cancel touches_call_halt)

lemma halt_one_touches: "local_halts H \<Longrightarrow> touches i c (halt_one H n i reason c)"
  by (auto simp: halt_one_def Let_def emit_node_halt_def intro!: touches_memory touches_halt_action)
    (simp_all add: touches_def)

lemma halt_one_clears: "memory_of i (halt_one H n i reason c) = node_memory_default"
proof (cases "in_memory (cx_inst c) i")
  case None
  then have "in_memory (cx_inst (emit_node_halt i reason c)) i = None"
    by (simp add: emit_node_halt_def)
  then show ?thesis by (simp add: halt_one_def memory_of_def Let_def)
next
  case (Some m)
  then have "in_memory (cx_inst (emit_node_halt i reason c)) i \<noteq> None"
    by (simp add: emit_node_halt_def)
  then show ?thesis by (auto simp: halt_one_def Let_def)
qed

definition stack_ids :: "bt_definition \<Rightarrow> node_id list \<Rightarrow> node_id list" where
  "stack_ids d stack = concat (map (\<lambda>j. tree_ids (tree_of d j)) stack)"

text \<open>What halting the nodes \<open>is\<close> does to the memory: their entries are default, all others unchanged.\<close>

definition cleared :: "node_id list \<Rightarrow> ('w, 'p) tick_context \<Rightarrow> ('w, 'p) tick_context \<Rightarrow> bool" where
  "cleared is c c' \<longleftrightarrow> in_def (cx_inst c') = in_def (cx_inst c) \<and> cx_tick_index c' = cx_tick_index c \<and>
     (\<forall>j. j \<in> set is \<longrightarrow> memory_of j c' = node_memory_default) \<and>
     (\<forall>j. j \<notin> set is \<longrightarrow> in_memory (cx_inst c') j = in_memory (cx_inst c) j)"

lemma cleared_Nil [simp]: "cleared [] c c"
  by (simp add: cleared_def)

lemma cleared_append: "cleared is a b \<Longrightarrow> cleared js b c \<Longrightarrow> cleared (is @ js) a c"
  unfolding cleared_def by (auto simp: memory_of_def)

lemma cleared_set_cong: "set is = set js \<Longrightarrow> cleared is a b = cleared js a b"
  by (simp add: cleared_def)

lemma halt_one_cleared: "local_halts H \<Longrightarrow> cleared [i] c (halt_one H n i reason c)"
  using halt_one_touches [of H i c n reason] halt_one_clears [of i H n reason c]
  by (simp add: cleared_def touches_def)

lemma halt_loop_cleared:
  "wf_definition d \<Longrightarrow> local_halts H \<Longrightarrow> \<forall>i \<in> set stack. i < length (df_nodes d) \<Longrightarrow>
     fst (halt_loop H hf d reason stack c) = Ret () \<Longrightarrow>
     cleared (stack_ids d stack) c (snd (halt_loop H hf d reason stack c))"
proof (induction H hf d reason stack c rule: halt_loop.induct)
  case (3 H hf d reason i stack c)
  define n where "n = df_nodes d ! i"
  have i: "i < length (df_nodes d)" using "3.prems" by simp
  have node: "get_node d i = Inr n" using i by (simp add: get_node_def n_def)
  have "\<forall>j \<in> set (rev (nd_children n) @ stack). j < length (df_nodes d)"
    using "3.prems" wf_definition_child [OF "3.prems"(1) i] by (auto simp: n_def)
  with "3.IH" [OF node] "3.prems" node
  have "cleared (stack_ids d (rev (nd_children n) @ stack)) (halt_one H n i reason c)
      (snd (halt_loop H (Suc hf) d reason (i # stack) c))" by simp
  then have "cleared ([i] @ stack_ids d (rev (nd_children n) @ stack)) c
      (snd (halt_loop H (Suc hf) d reason (i # stack) c))"
    by (rule cleared_append [OF halt_one_cleared [OF "3.prems"(2)]])
  moreover have "set ([i] @ stack_ids d (rev (nd_children n) @ stack)) = set (stack_ids d (i # stack))"
    using tree_of_unfold [OF "3.prems"(1) i] by (simp add: stack_ids_def n_def rev_map [symmetric] comp_def)
  ultimately show ?case using cleared_set_cong by blast
qed (simp_all add: stack_ids_def)

lemma halt_subtree_cleared:
  assumes "wf_definition d" "local_halts H" "enough_halt_steps d hf" "runs d c" "i < length (df_nodes d)"
  shows "\<exists>c'. halt_subtree_impl H hf i reason c = (Ret (), c') \<and> cleared (tree_ids (tree_of d i)) c c'"
proof -
  obtain r c' where eq: "halt_subtree_impl H hf i reason c = (r, c')" by fastforce
  have "r = Ret ()" using halt_subtree_returns [OF assms(1,3,5,4), of H reason] eq by simp
  moreover have "cleared (stack_ids d [i]) c c'"
    using halt_loop_cleared [OF assms(1,2), of "[i]" hf reason c] assms eq \<open>r = Ret ()\<close>
    by (simp add: halt_subtree_impl_def runs_def)
  ultimately show ?thesis using eq by (simp add: stack_ids_def)
qed

subsection \<open>Simulation of the parts\<close>

definition refines :: "bt_definition \<Rightarrow> nat \<Rightarrow> (('w, 'p) tick_context \<Rightarrow> ('w, 'p) ticked) \<Rightarrow> runner \<Rightarrow> bool" where
  "refines d t m f \<longleftrightarrow> (\<forall>s c. sim d t s c \<longrightarrow> (\<exists>c'. m c = (Ret (fst (f s)), c') \<and> sim d t (snd (f s)) c'))"

definition halts_as ::
  "bt_definition \<Rightarrow> nat \<Rightarrow> (('w, 'p) tick_context \<Rightarrow> unit outcome \<times> ('w, 'p) tick_context) \<Rightarrow> (cells \<Rightarrow> cells) \<Rightarrow> bool" where
  "halts_as d t m g \<longleftrightarrow> (\<forall>s c. sim d t s c \<longrightarrow> (\<exists>c'. m c = (Ret (), c') \<and> sim d t (g s) c'))"

definition halting_sound :: "bt_definition \<Rightarrow> ('w, 'p) host \<Rightarrow> nat \<Rightarrow> bool" where
  "halting_sound d H hf \<longleftrightarrow> wf_definition d \<and> local_halts H \<and> enough_halt_steps d hf"

lemma refinesD:
  assumes "refines d t m f" "sim d t s c"
  obtains c' where "m c = (Ret (fst (f s)), c')" "sim d t (snd (f s)) c'"
  using assms unfolding refines_def by blast

lemma sim_inst: "cx_inst c' = cx_inst c \<Longrightarrow> cx_tick_index c' = cx_tick_index c \<Longrightarrow> sim d t s c \<Longrightarrow> sim d t s c'"
  by (simp add: sim_def runs_def cell_of_def memory_of_def)

lemma sim_node_memory_for [simp]: "sim d t s (node_memory_for i c) = sim d t s c"
  by (simp add: sim_def cell_of_def)

lemma sim_upd_memory:
  "sim d t s c \<Longrightarrow> nm_i0 (f (memory_of i c)) = x \<Longrightarrow> nm_b0 (f (memory_of i c)) = b \<Longrightarrow>
     sim d t (s(i := (x, b))) (upd_memory i f c)"
  by (auto simp: sim_def cell_of_def upd_memory_def runs_def)

lemma sim_cell: "sim d t s c \<Longrightarrow> i < length (df_nodes d) \<Longrightarrow> interior (nd_kind (df_nodes d ! i)) \<Longrightarrow> s i = cell_of i c"
  by (simp add: sim_def)

lemma sim_set_i0:
  assumes "sim d t s c" "i < length (df_nodes d)" "interior (nd_kind (df_nodes d ! i))"
  shows "sim d t (s(i := (word_of_nat x, snd (s i)))) (set_i0 i x c)"
  unfolding set_i0_def using assms sim_cell [OF assms] by (intro sim_upd_memory) (simp_all add: cell_of_def)

lemma sim_cleared: "sim d t s c \<Longrightarrow> cleared is c c' \<Longrightarrow> sim d t (clear_cells is s) c'"
  by (auto simp: sim_def cleared_def runs_def cell_of_def clear_cells_def node_memory_default_def memory_of_def)

lemma clear_cells_append: "clear_cells (is @ js) s = clear_cells js (clear_cells is s)"
  by (auto simp: clear_cells_def)

lemma sim_runs: "sim d t s c \<Longrightarrow> runs d c"
  by (simp add: sim_def)

lemma halt_subtree_as:
  assumes "halting_sound d H hf" "i < length (df_nodes d)"
  shows "halts_as d t (halt_subtree_impl H hf i reason) (clear_cells (tree_ids (tree_of d i)))"
  unfolding halts_as_def
proof (intro allI impI)
  fix s and c :: "('a, 'b) tick_context"
  assume sim: "sim d t s c"
  with assms obtain c' where "halt_subtree_impl H hf i reason c = (Ret (), c')" "cleared (tree_ids (tree_of d i)) c c'"
    using halt_subtree_cleared [of d H hf c i reason] by (auto simp: halting_sound_def dest: sim_runs)
  with sim show "\<exists>c'. halt_subtree_impl H hf i reason c = (Ret (), c') \<and> sim d t (clear_cells (tree_ids (tree_of d i)) s) c'"
    using sim_cleared by blast
qed

lemma halt_all_as:
  assumes "halting_sound d H hf"
  shows "\<forall>i \<in> set is. i < length (df_nodes d) \<Longrightarrow>
    halts_as d t (halt_all H hf is reason) (clear_cells (concat (map tree_ids (map (tree_of d) is))))"
proof (induction "is")
  case Nil
  then show ?case by (simp add: halts_as_def clear_cells_def)
next
  case (Cons i "is")
  then have "halts_as d t (halt_subtree_impl H hf i reason) (clear_cells (tree_ids (tree_of d i)))"
    using halt_subtree_as [OF assms] by simp
  with Cons show ?case
    unfolding halts_as_def by (fastforce simp: clear_cells_append)
qed

lemma halt_previous_as:
  assumes "halting_sound d H hf" "\<forall>i. p = Some i \<longrightarrow> i < length (df_nodes d)"
  shows "halts_as d t (halt_previous H hf p j reason) (preempt (map_option (tree_of d) p))"
proof (cases p)
  case None
  then show ?thesis by (simp add: halts_as_def halt_previous_def preempt_def)
next
  case (Some i)
  then have "halts_as d t (halt_subtree_impl H hf i reason) (clear_cells (tree_ids (tree_of d i)))"
    using assms halt_subtree_as by blast
  moreover have "sim d t s c \<Longrightarrow> sim d t s (emit_node_preempt i j reason c)" for s and c :: "('a, 'b) tick_context"
    by (auto simp: emit_node_preempt_def intro: sim_inst [rotated])
  ultimately show ?thesis
    by (simp add: halts_as_def halt_previous_def halt_child_subtree_def preempt_def Some)
qed

lemma halts_asD:
  assumes "halts_as d t m g" "sim d t s c"
  obtains c' where "m c = (Ret (), c')" "sim d t (g s) c'"
  using assms unfolding halts_as_def by blast

subsection \<open>Simulation of the loops\<close>

abbreviation refines_all :: "bt_definition \<Rightarrow> nat \<Rightarrow> ('w, 'p) ticker \<Rightarrow> node_id list \<Rightarrow> runner list \<Rightarrow> bool" where
  "refines_all d t tk cs fs \<equiv> list_all2 (\<lambda>j f. refines d t (tk j) f) cs fs"

lemma refines_cong: "refines d t m f \<Longrightarrow> (\<And>s. f s = f' s) \<Longrightarrow> (\<And>c. m c = m' c) \<Longrightarrow> refines d t m' f'"
  by (simp add: refines_def)

lemma refines_obind:
  assumes "refines d t m f" "\<And>st. refines d t (h st) (g st)"
  shows "refines d t (\<lambda>c. obind (m c) h) (\<lambda>s. g (fst (f s)) (snd (f s)))"
  using assms unfolding refines_def by fastforce

lemma refines_Ret:
  "(\<And>s c. sim d t s c \<Longrightarrow> sim d t (g s) (u c)) \<Longrightarrow> refines d t (\<lambda>c. (Ret st, u c)) (\<lambda>s. (st, g s))"
  by (simp add: refines_def)

lemma refines_after_halt:
  assumes "halts_as d t m g" "refines d t h f"
  shows "refines d t (\<lambda>c. obind (m c) (\<lambda>_. h)) (\<lambda>s. f (g s))"
  using assms unfolding refines_def halts_as_def by fastforce

lemma refines_halted: "halts_as d t m g \<Longrightarrow> refines d t (\<lambda>c. halted_then (m c) st) (\<lambda>s. (st, g s))"
  unfolding refines_def halts_as_def halted_then_def by fastforce

lemma halts_as_after: "halts_as d t m g \<Longrightarrow> (\<And>s c. sim d t s c \<Longrightarrow> sim d t (e s) (u c)) \<Longrightarrow> halts_as d t (\<lambda>c. m (u c)) (\<lambda>s. g (e s))"
  by (simp add: halts_as_def)

lemma halts_as_if:
  "halts_as d t m g \<Longrightarrow> halts_as d t (\<lambda>c. if b then m c else (Ret (), c)) (\<lambda>s. if b then g s else s)"
  by (simp add: halts_as_def)

lemma seq_loop_refines:
  "refines_all d t tk cs fs \<Longrightarrow> refines d t (seq_loop tk cs) (\<lambda>s. decided Success (first_stop (\<lambda>st. st \<noteq> Success) j fs s))"
proof (induction arbitrary: j rule: list_all2_induct)
  case (Cons c cs f fs)
  define g where "g st = (if st = Success then (\<lambda>s. decided Success (first_stop (\<lambda>st. st \<noteq> Success) (Suc j) fs s))
    else (\<lambda>s. (st, s)))" for st
  have "refines d t (\<lambda>x. if st = Success then seq_loop tk cs x else (Ret st, x)) (g st)" for st
    using Cons(3) [of "Suc j"] by (simp add: g_def refines_def)
  from refines_obind [OF Cons(1) this] show ?case
    by (rule refines_cong) (simp_all add: g_def decided_def split_beta)
qed (simp add: refines_def decided_def)

lemma sel_loop_refines:
  "refines_all d t tk cs fs \<Longrightarrow> refines d t (sel_loop tk cs) (\<lambda>s. decided Failure (first_stop (\<lambda>st. st \<noteq> Failure) j fs s))"
proof (induction arbitrary: j rule: list_all2_induct)
  case (Cons c cs f fs)
  define g where "g st = (if st = Failure then (\<lambda>s. decided Failure (first_stop (\<lambda>st. st \<noteq> Failure) (Suc j) fs s))
    else (\<lambda>s. (st, s)))" for st
  have "refines d t (\<lambda>x. if st = Failure then sel_loop tk cs x else (Ret st, x)) (g st)" for st
    using Cons(3) [of "Suc j"] by (simp add: g_def refines_def)
  from refines_obind [OF Cons(1) this] show ?case
    by (rule refines_cong) (simp_all add: g_def decided_def split_beta)
qed (simp add: refines_def decided_def)

text \<open>The ends of the composites with memory, once the loop over the children has stopped.\<close>

definition mem_seq_end :: "node_id \<Rightarrow> bt_tree list \<Rightarrow> (nat \<times> status) option \<times> cells \<Rightarrow> status \<times> cells" where
  "mem_seq_end i ts r =
     (case r of
        (Some (j, st), s) \<Rightarrow> (st, s(i := (word_of_nat j, snd (s i))))
      | (None, s) \<Rightarrow> (Success, clear_cells (concat (map tree_ids ts)) (s(i := (0, snd (s i))))))"

definition mem_sel_end :: "node_id \<Rightarrow> bt_tree list \<Rightarrow> (nat \<times> status) option \<times> cells \<Rightarrow> status \<times> cells" where
  "mem_sel_end i ts r =
     (case r of
        (Some (j, Running), s) \<Rightarrow> (Running, s(i := (word_of_nat j, True)))
      | (Some (j, st), s) \<Rightarrow> (st, clear_cells (concat (map tree_ids ts)) (s(i := (0, False))))
      | (None, s) \<Rightarrow> (Failure, s(i := (0, False))))"

definition interior_node :: "bt_definition \<Rightarrow> node \<Rightarrow> bool" where
  "interior_node d n \<longleftrightarrow> nd_id n < length (df_nodes d) \<and> n = df_nodes d ! nd_id n \<and> interior (nd_kind n) \<and>
     (\<forall>j \<in> set (nd_children n). j < length (df_nodes d))"

lemma interior_sim_i0:
  "interior_node d n \<Longrightarrow> sim d t s c \<Longrightarrow> sim d t (s(nd_id n := (word_of_nat x, snd (s (nd_id n))))) (set_i0 (nd_id n) x c)"
  by (rule sim_set_i0) (auto simp: interior_node_def)

lemma halt_children_as:
  assumes "halting_sound d H hf" "interior_node d n"
  shows "halts_as d t (halt_all_children H hf n reason) (clear_cells (concat (map tree_ids (map (tree_of d) (nd_children n)))))"
  using halt_all_as [OF assms(1), of "nd_children n" t reason] assms(2)
  by (simp add: halt_all_children_def interior_node_def halts_as_def)

lemma mem_seq_loop_refines:
  assumes H: "halting_sound d H hf" and n: "interior_node d n"
  shows "refines_all d t tk cs fs \<Longrightarrow> refines d t (mem_seq_loop H hf tk n index cs)
    (\<lambda>s. mem_seq_end (nd_id n) (map (tree_of d) (nd_children n)) (first_stop (\<lambda>st. st \<noteq> Success) index fs s))"
proof (induction arbitrary: index rule: list_all2_induct)
  case Nil
  from refines_halted [OF halts_as_after [OF halt_children_as [OF H n] interior_sim_i0 [OF n]]]
  show ?case by (rule refines_cong) (simp_all add: mem_seq_end_def fun_upd_def)
next
  case (Cons c cs f fs)
  define g where "g st = (\<lambda>s. if st = Success
    then mem_seq_end (nd_id n) (map (tree_of d) (nd_children n)) (first_stop (\<lambda>st. st \<noteq> Success) (Suc index) fs s)
    else (st, s(nd_id n := (word_of_nat index, snd (s (nd_id n))))))" for st
  have "refines d t (\<lambda>x. case st of Running \<Rightarrow> (Ret Running, set_i0 (nd_id n) index x)
      | Failure \<Rightarrow> (Ret Failure, set_i0 (nd_id n) index x) | Success \<Rightarrow> mem_seq_loop H hf tk n (Suc index) cs x) (g st)" for st
    using Cons(3) [of "Suc index"] by (cases st) (simp_all add: g_def refines_def interior_sim_i0 [OF n])
  from refines_obind [OF Cons(1) this] show ?case
    by (rule refines_cong) (simp_all add: g_def split_beta mem_seq_end_def)
qed

lemma interior_sim_upd:
  "sim d t s c \<Longrightarrow> sim d t (s(i := (x, b))) (upd_memory i (\<lambda>m. m\<lparr>nm_i0 := x, nm_b0 := b\<rparr>) c)"
  by (rule sim_upd_memory) simp_all

lemma mem_sel_loop_refines:
  assumes H: "halting_sound d H hf" and n: "interior_node d n"
  shows "refines_all d t tk cs fs \<Longrightarrow> refines d t (mem_sel_loop H hf tk n index cs)
    (\<lambda>s. mem_sel_end (nd_id n) (map (tree_of d) (nd_children n)) (first_stop (\<lambda>st. st \<noteq> Failure) index fs s))"
proof (induction arbitrary: index rule: list_all2_induct)
  case Nil
  show ?case by (simp add: refines_def mem_sel_end_def interior_sim_upd)
next
  case (Cons c cs f fs)
  define g where "g st = (\<lambda>s. if st = Failure
    then mem_sel_end (nd_id n) (map (tree_of d) (nd_children n)) (first_stop (\<lambda>st. st \<noteq> Failure) (Suc index) fs s)
    else mem_sel_end (nd_id n) (map (tree_of d) (nd_children n)) (Some (index, st), s))" for st
  note success = refines_halted [OF halts_as_after [OF halt_children_as [OF H n] interior_sim_upd]]
  have "refines d t (\<lambda>x. case st of
        Success \<Rightarrow> halted_then (halt_all_children H hf n ''mem-sel success''
          (upd_memory (nd_id n) (\<lambda>m. m\<lparr>nm_i0 := 0, nm_b0 := False\<rparr>) x)) Success
      | Running \<Rightarrow> (Ret Running, upd_memory (nd_id n) (\<lambda>m. m\<lparr>nm_i0 := word_of_nat index, nm_b0 := True\<rparr>) x)
      | Failure \<Rightarrow> mem_sel_loop H hf tk n (Suc index) cs x) (g st)" for st
    using Cons(3) [of "Suc index"] success
    by (cases st) (simp_all add: g_def refines_def interior_sim_upd mem_sel_end_def)
  from refines_obind [OF Cons(1) this] show ?case
    by (rule refines_cong) (simp_all add: g_def split_beta)
qed

text \<open>The same for the reactive composites; \<open>is\<close> are the ids of the children that the loop runs over.\<close>

definition reactive_seq_end ::
  "node_id \<Rightarrow> bt_tree option \<Rightarrow> (nat \<Rightarrow> node_id) \<Rightarrow> (nat \<times> status) option \<times> cells \<Rightarrow> status \<times> cells" where
  "reactive_seq_end i prev child r =
     (case r of
        (Some (j, Running), s) \<Rightarrow>
          (Running, (if map_option bt_id prev \<noteq> Some (child j) then preempt prev s else s)(i := (word_of_nat j, True)))
      | (Some (j, st), s) \<Rightarrow> (st, (preempt prev s)(i := (0, False)))
      | (None, s) \<Rightarrow> (Success, (preempt prev s)(i := (0, False))))"

definition reactive_sel_end ::
  "node_id \<Rightarrow> bt_tree option \<Rightarrow> nat \<Rightarrow> (nat \<Rightarrow> node_id) \<Rightarrow> (nat \<times> status) option \<times> cells \<Rightarrow> status \<times> cells" where
  "reactive_sel_end i prev prev_index child r =
     (case r of
        (Some (j, st), s) \<Rightarrow>
          (st, (if j < prev_index \<and> map_option bt_id prev \<noteq> Some (child j) then preempt prev s else s)
             (i := (if st = Running then (word_of_nat j, True) else (0, False))))
      | (None, s) \<Rightarrow> (Failure, (preempt prev s)(i := (0, False))))"

lemma sim_clear_reactive: "sim d t s c \<Longrightarrow> sim d t (s(i := (0, False))) (clear_reactive_running_child i c)"
  unfolding clear_reactive_running_child_def by (rule sim_upd_memory) simp_all

lemma sim_remember_reactive:
  "sim d t s c \<Longrightarrow> sim d t (s(i := (word_of_nat j, True))) (remember_reactive_running_child i j c)"
  unfolding remember_reactive_running_child_def by (rule sim_upd_memory) simp_all

lemma map_bt_id_tree_of [simp]: "map_option bt_id (map_option (tree_of d) p) = p"
  by (cases p) simp_all

lemma reactive_seq_loop_refines:
  assumes H: "halting_sound d H hf" and p: "\<forall>j. p = Some j \<longrightarrow> j < length (df_nodes d)"
  shows "refines_all d t tk cs fs \<Longrightarrow> (\<And>j. j < length cs \<Longrightarrow> child (i + j) = cs ! j) \<Longrightarrow>
    refines d t (reactive_seq_loop H hf tk n p i cs)
      (\<lambda>s. reactive_seq_end (nd_id n) (map_option (tree_of d) p) child (first_stop (\<lambda>st. st \<noteq> Success) i fs s))"
proof (induction arbitrary: i rule: list_all2_induct)
  case Nil
  from refines_after_halt [OF halt_previous_as [OF H p] refines_Ret [OF sim_clear_reactive]]
  show ?case by (rule refines_cong) (simp_all add: reactive_seq_end_def)
next
  case (Cons c cs f fs)
  define e where "e = reactive_seq_end (nd_id n) (map_option (tree_of d) p) child"
  define g where "g st = (\<lambda>s. if st = Success then e (first_stop (\<lambda>st. st \<noteq> Success) (Suc i) fs s)
    else e (Some (i, st), s))" for st
  have child: "child i = c" "\<And>j. j < length cs \<Longrightarrow> child (Suc i + j) = cs ! j"
    using Cons(4) [of 0] Cons(4) [of "Suc j" for j] by simp_all
  note previous = halt_previous_as [OF H p, of t c]
  have "refines d t (\<lambda>x. case st of
         Failure \<Rightarrow>
           obind (halt_previous H hf p c ''reactive-seq preempted on failure'' x) (\<lambda>_ c.
             (Ret Failure, clear_reactive_running_child (nd_id n) c))
       | Running \<Rightarrow>
           obind (if p \<noteq> Some c
                  then halt_previous H hf p c ''reactive-seq switched running child'' x
                  else (Ret (), x)) (\<lambda>_ c. (Ret Running, remember_reactive_running_child (nd_id n) i c))
       | Success \<Rightarrow> reactive_seq_loop H hf tk n p (Suc i) cs x) (g st)" for st
  proof (cases st)
    case Success
    then show ?thesis using Cons(3) [OF child(2)] by (simp add: g_def e_def)
  next
    case Failure
    from refines_after_halt [OF previous refines_Ret [OF sim_clear_reactive]] show ?thesis
      by (rule refines_cong) (simp_all add: Failure g_def e_def reactive_seq_end_def)
  next
    case Running
    from refines_after_halt [OF halts_as_if [OF previous] refines_Ret [OF sim_remember_reactive]] show ?thesis
      by (rule refines_cong) (simp_all add: Running g_def e_def reactive_seq_end_def child)
  qed
  from refines_obind [OF Cons(1) this] show ?case
    by (rule refines_cong) (simp_all add: g_def e_def split_beta)
qed

lemma reactive_sel_loop_refines:
  assumes H: "halting_sound d H hf" and p: "\<forall>j. p = Some j \<longrightarrow> j < length (df_nodes d)"
  shows "refines_all d t tk cs fs \<Longrightarrow> (\<And>j. j < length cs \<Longrightarrow> child (i + j) = cs ! j) \<Longrightarrow>
    refines d t (reactive_sel_loop H hf tk n p q i cs)
      (\<lambda>s. reactive_sel_end (nd_id n) (map_option (tree_of d) p) q child (first_stop (\<lambda>st. st \<noteq> Failure) i fs s))"
proof (induction arbitrary: i rule: list_all2_induct)
  case Nil
  from refines_after_halt [OF halt_previous_as [OF H p] refines_Ret [OF sim_clear_reactive]]
  show ?case by (rule refines_cong) (simp_all add: reactive_sel_end_def)
next
  case (Cons c cs f fs)
  define e where "e = reactive_sel_end (nd_id n) (map_option (tree_of d) p) q child"
  define g where "g st = (\<lambda>s. if st = Failure then e (first_stop (\<lambda>st. st \<noteq> Failure) (Suc i) fs s)
    else e (Some (i, st), s))" for st
  have child: "child i = c" "\<And>j. j < length cs \<Longrightarrow> child (Suc i + j) = cs ! j"
    using Cons(4) [of 0] Cons(4) [of "Suc j" for j] by simp_all
  note halt = halts_as_if [OF halt_previous_as [OF H p, of t c]]
  have "refines d t (\<lambda>x. if st = Failure then reactive_sel_loop H hf tk n p q (Suc i) cs x
      else obind (if i < q \<and> p \<noteq> Some c then halt_previous H hf p c ''reactive-sel switched to higher priority'' x
                  else (Ret (), x)) (\<lambda>_ c. if st = Running then (Ret Running, remember_reactive_running_child (nd_id n) i c)
           else (Ret Success, clear_reactive_running_child (nd_id n) c))) (g st)" for st
  proof (cases st)
    case Failure
    then show ?thesis using Cons(3) [OF child(2)] by (simp add: g_def e_def)
  next
    case Success
    from refines_after_halt [OF halt refines_Ret [OF sim_clear_reactive]] show ?thesis
      by (rule refines_cong) (simp_all add: Success g_def e_def reactive_sel_end_def child)
  next
    case Running
    from refines_after_halt [OF halt refines_Ret [OF sim_remember_reactive]] show ?thesis
      by (rule refines_cong) (simp_all add: Running g_def e_def reactive_sel_end_def child)
  qed
  from refines_obind [OF Cons(1) this] show ?case
    by (rule refines_cong) (simp_all add: g_def e_def split_beta)
qed

subsection \<open>Simulation of the composites and decorators\<close>

lemma clamp_start_index: "clamp_child_index n x = start_index (length (nd_children n)) x"
  by (auto simp: clamp_child_index_def start_index_def Let_def)

lemma prior_running_child_tree:
  "map_option (tree_of d) (prior_running_child mem n) = running_child (map (tree_of d) (nd_children n)) (nm_i0 mem, nm_b0 mem)"
  by (auto simp: prior_running_child_def running_child_def Let_def nat_less_iff)

lemma interior_cell: "interior_node d n \<Longrightarrow> sim d t s c \<Longrightarrow> s (nd_id n) = (nm_i0 (memory_of (nd_id n) c), nm_b0 (memory_of (nd_id n) c))"
  using sim_cell [of d t s c "nd_id n"] by (auto simp: interior_node_def cell_of_def)

text \<open>A refinement that holds at every pair of related states, each through a refinement of its own.\<close>

definition refines_at :: "bt_definition \<Rightarrow> nat \<Rightarrow> (('w, 'p) tick_context \<Rightarrow> ('w, 'p) ticked) \<Rightarrow> runner \<Rightarrow> cells \<Rightarrow> ('w, 'p) tick_context \<Rightarrow> bool" where
  "refines_at d t m f s c \<longleftrightarrow> (\<exists>c'. m c = (Ret (fst (f s)), c') \<and> sim d t (snd (f s)) c')"

lemma refinesI: "(\<And>s c. sim d t s c \<Longrightarrow> refines_at d t m f s c) \<Longrightarrow> refines d t m f"
  by (simp add: refines_def refines_at_def)

lemma refines_at_via:
  "refines d t m' f' \<Longrightarrow> sim d t s c0 \<Longrightarrow> m c = m' c0 \<Longrightarrow> f s = f' s \<Longrightarrow> refines_at d t m f s c"
  unfolding refines_def refines_at_def by metis

lemma tick_mem_seq_refines:
  fixes H :: "('w, 'p) host"
  assumes H: "halting_sound d H hf" and n: "interior_node d n" and tk: "refines_all d t tk (nd_children n) fs"
  shows "refines d t (tick_mem_seq H hf tk n) (doc_mem_seq (nd_id n) (map (tree_of d) (nd_children n)) fs)"
proof (rule refinesI)
  fix s and c :: "('w, 'p) tick_context"
  assume sim: "sim d t s c"
  define j where "j = start_index (length (nd_children n)) (fst (s (nd_id n)))"
  have "clamp_child_index n (nm_i0 (memory_of (nd_id n) c)) = j"
    using interior_cell [OF n sim] by (simp add: clamp_start_index j_def)
  with sim show "refines_at d t (tick_mem_seq H hf tk n) (doc_mem_seq (nd_id n) (map (tree_of d) (nd_children n)) fs) s c"
    by (intro refines_at_via [OF mem_seq_loop_refines [OF H n list_all2_dropI [OF tk], of j j],
          of s "node_memory_for (nd_id n) c"])
      (simp_all add: tick_mem_seq_def doc_mem_seq_def mem_seq_end_def j_def [symmetric])
qed

lemma tick_mem_sel_refines:
  fixes H :: "('w, 'p) host"
  assumes H: "halting_sound d H hf" and n: "interior_node d n" and tk: "refines_all d t tk (nd_children n) fs"
  shows "refines d t (tick_mem_sel H hf tk n) (doc_mem_sel (nd_id n) (map (tree_of d) (nd_children n)) fs)"
proof (rule refinesI)
  fix s and c :: "('w, 'p) tick_context"
  assume sim: "sim d t s c"
  define j where "j = start_index (length (nd_children n)) (fst (s (nd_id n)))"
  have "clamp_child_index n (nm_i0 (memory_of (nd_id n) c)) = j"
    using interior_cell [OF n sim] by (simp add: clamp_start_index j_def)
  with sim show "refines_at d t (tick_mem_sel H hf tk n) (doc_mem_sel (nd_id n) (map (tree_of d) (nd_children n)) fs) s c"
    by (intro refines_at_via [OF mem_sel_loop_refines [OF H n list_all2_dropI [OF tk], of j j],
          of s "node_memory_for (nd_id n) c"])
      (simp_all add: tick_mem_sel_def doc_mem_sel_def mem_sel_end_def j_def [symmetric])
qed

lemma previous_in_range:
  assumes "interior_node d n"
  shows "\<forall>j. prior_running_child mem n = Some j \<longrightarrow> j < length (df_nodes d)"
  using assms prior_running_child_in by (fastforce simp: interior_node_def)

lemma tick_reactive_seq_refines:
  fixes H :: "('w, 'p) host"
  assumes H: "halting_sound d H hf" and n: "interior_node d n" and tk: "refines_all d t tk (nd_children n) fs"
  shows "refines d t (tick_reactive_seq H hf tk n) (doc_reactive_seq (nd_id n) (map (tree_of d) (nd_children n)) fs)"
proof (rule refinesI)
  fix s and c :: "('w, 'p) tick_context"
  assume sim: "sim d t s c"
  define p where "p = prior_running_child (memory_of (nd_id n) c) n"
  define ts where "ts = map (tree_of d) (nd_children n)"
  have prev: "running_child ts (s (nd_id n)) = map_option (tree_of d) p"
    using interior_cell [OF n sim] by (simp add: p_def prior_running_child_tree ts_def)
  have "refines d t (reactive_seq_loop H hf tk n p 0 (nd_children n))
      (\<lambda>s. reactive_seq_end (nd_id n) (map_option (tree_of d) p) (\<lambda>j. bt_id (ts ! j)) (first_stop (\<lambda>st. st \<noteq> Success) 0 fs s))"
    using tk previous_in_range [OF n] by (intro reactive_seq_loop_refines H) (simp_all add: p_def ts_def)
  from this sim show "refines_at d t (tick_reactive_seq H hf tk n) (doc_reactive_seq (nd_id n) (map (tree_of d) (nd_children n)) fs) s c"
    by (intro refines_at_via [where m' = "reactive_seq_loop H hf tk n p 0 (nd_children n)" and ?c0.0 = "node_memory_for (nd_id n) c"])
      (simp_all add: tick_reactive_seq_def doc_reactive_seq_def reactive_seq_end_def p_def [symmetric] ts_def [symmetric] prev Let_def)
qed

lemma tick_reactive_sel_refines:
  fixes H :: "('w, 'p) host"
  assumes H: "halting_sound d H hf" and n: "interior_node d n" and tk: "refines_all d t tk (nd_children n) fs"
  shows "refines d t (tick_reactive_sel H hf tk n) (doc_reactive_sel (nd_id n) (map (tree_of d) (nd_children n)) fs)"
proof (rule refinesI)
  fix s and c :: "('w, 'p) tick_context"
  assume sim: "sim d t s c"
  define mem where "mem = memory_of (nd_id n) c"
  define p where "p = prior_running_child mem n"
  define ts where "ts = map (tree_of d) (nd_children n)"
  define q where "q = (if nm_b0 mem \<and> sint (nm_i0 mem) \<ge> 0 then nat (sint (nm_i0 mem)) else length (nd_children n))"
  have cell: "s (nd_id n) = (nm_i0 mem, nm_b0 mem)"
    using interior_cell [OF n sim] by (simp add: mem_def)
  then have prev: "running_child ts (s (nd_id n)) = map_option (tree_of d) p"
    by (simp add: p_def prior_running_child_tree ts_def)
  have "p = None \<or> q = nat (sint (fst (s (nd_id n))))"
    by (auto simp: q_def p_def cell prior_running_child_def)
  then have q: "reactive_sel_end (nd_id n) (map_option (tree_of d) p) q child r =
      reactive_sel_end (nd_id n) (map_option (tree_of d) p) (nat (sint (fst (s (nd_id n))))) child r" for child r
    by (auto simp: reactive_sel_end_def preempt_def split: option.split prod.split)
  have loop: "refines d t (reactive_sel_loop H hf tk n p q 0 (nd_children n))
      (\<lambda>s. reactive_sel_end (nd_id n) (map_option (tree_of d) p) q (\<lambda>j. bt_id (ts ! j)) (first_stop (\<lambda>st. st \<noteq> Failure) 0 fs s))"
    using tk previous_in_range [OF n] by (intro reactive_sel_loop_refines H) (simp_all add: p_def ts_def)
  show "refines_at d t (tick_reactive_sel H hf tk n) (doc_reactive_sel (nd_id n) (map (tree_of d) (nd_children n)) fs) s c"
  proof (rule refines_at_via [OF loop])
    show "sim d t s (node_memory_for (nd_id n) c)" using sim by simp
    show "tick_reactive_sel H hf tk n c = reactive_sel_loop H hf tk n p q 0 (nd_children n) (node_memory_for (nd_id n) c)"
      by (simp add: tick_reactive_sel_def Let_def p_def q_def mem_def)
    show "doc_reactive_sel (nd_id n) (map (tree_of d) (nd_children n)) fs s =
        reactive_sel_end (nd_id n) (map_option (tree_of d) p) q (\<lambda>j. bt_id (ts ! j)) (first_stop (\<lambda>st. st \<noteq> Failure) 0 fs s)"
      unfolding q by (auto simp: doc_reactive_sel_def reactive_sel_end_def ts_def [symmetric] prev Let_def split: option.split prod.split)
  qed
qed

lemma tick_child_refines:
  assumes "refines_all d t tk (nd_children n) fs" "j < length (nd_children n)"
  shows "refines d t (tick_child_at tk n j) (fs ! j)"
proof -
  have "tick_child_at tk n j = tk (nd_children n ! j)"
    using assms(2) by (simp add: fun_eq_iff tick_child_at_def)
  with assms show ?thesis by (simp add: list_all2_conv_all_nth)
qed

lemma start_index_less: "0 < len \<Longrightarrow> start_index len x < len"
  by (auto simp: start_index_def)

lemma tick_async_seq_refines:
  fixes H :: "('w, 'p) host"
  assumes H: "halting_sound d H hf" and n: "interior_node d n" and tk: "refines_all d t tk (nd_children n) fs"
    and ne: "nd_children n \<noteq> []"
  shows "refines d t (tick_async_seq H hf tk n) (doc_async_seq (nd_id n) (map (tree_of d) (nd_children n)) fs)"
proof (rule refinesI)
  fix s and c :: "('w, 'p) tick_context"
  assume sim: "sim d t s c"
  define i where "i = nd_id n"
  define ts where "ts = map (tree_of d) (nd_children n)"
  define j where "j = start_index (length (nd_children n)) (fst (s i))"
  have j: "j < length (nd_children n)" using ne by (simp add: j_def start_index_less)
  have index: "clamp_child_index n (nm_i0 (memory_of (nd_id n) c)) = j"
    using interior_cell [OF n sim] by (simp add: clamp_start_index j_def i_def)
  define g where "g st = (\<lambda>s. case st of
      Running \<Rightarrow> (Running, s(i := (word_of_nat j, snd (s i))))
    | Failure \<Rightarrow> (Failure, s(i := (word_of_nat 0, snd (s i))))
    | Success \<Rightarrow> if Suc j < length ts then (Running, s(i := (word_of_nat (Suc j), snd (s i))))
        else (Success, clear_cells (concat (map tree_ids ts)) (s(i := (word_of_nat 0, snd (s i))))))" for st :: status
  note i0 = interior_sim_i0 [OF n, folded i_def]
  have ret: "refines d t (\<lambda>c :: ('w, 'p) tick_context. (Ret st, set_i0 i x c)) (\<lambda>s. (st, s(i := (word_of_nat x, snd (s i)))))" for st x
    by (rule refines_Ret) (rule i0)
  have finished: "refines d t (\<lambda>c. halted_then (halt_all_children H hf n ''async-seq complete'' (set_i0 i 0 c)) Success)
      (\<lambda>s. (Success, clear_cells (concat (map tree_ids ts)) (s(i := (word_of_nat 0, snd (s i))))))"
    unfolding ts_def by (rule refines_halted) (rule halts_as_after [OF halt_children_as [OF H n] i0])
  have "refines d t (\<lambda>c. case st of
       Running \<Rightarrow> (Ret Running, set_i0 i j c)
     | Failure \<Rightarrow> (Ret Failure, set_i0 i 0 c)
     | Success \<Rightarrow>
         if Suc j \<ge> length (nd_children n) then
           halted_then (halt_all_children H hf n ''async-seq complete'' (set_i0 i 0 c)) Success
         else (Ret Running, set_i0 i (Suc j) c)) (g st)" for st
    using ret [of Failure 0] ret [of Running j] ret [of Running "Suc j"] finished
    by (cases st; cases "Suc j < length (nd_children n)") (simp_all add: g_def ts_def)
  note step = refines_obind [where g = g, OF tick_child_refines [OF tk j] this, unfolded i_def]
  show "refines_at d t (tick_async_seq H hf tk n) (doc_async_seq (nd_id n) (map (tree_of d) (nd_children n)) fs) s c"
    by (rule refines_at_via [OF step, where ?c0.0 = "node_memory_for (nd_id n) c"])
      (use sim in \<open>auto simp: tick_async_seq_def doc_async_seq_def index g_def ts_def j_def [unfolded i_def, symmetric]
        i_def Let_def split: prod.split status.split cong: status.case_cong if_cong\<close>)
qed

lemma tick_invert_refines:
  assumes tk: "refines_all d t tk (nd_children n) fs" and ne: "nd_children n \<noteq> []"
  shows "refines d t (tick_invert tk n) (\<lambda>s. case hd fs s of
      (Success, s) \<Rightarrow> (Failure, s) | (Failure, s) \<Rightarrow> (Success, s) | (Running, s) \<Rightarrow> (Running, s))"
proof -
  have fs: "hd fs = fs ! 0" using tk ne by (cases fs) (auto simp: list_all2_conv_all_nth)
  define inv where "inv st = (case st of Success \<Rightarrow> Failure | Failure \<Rightarrow> Success | Running \<Rightarrow> Running)" for st
  have child: "refines d t (tick_child_at tk n 0) (fs ! 0)"
    using tick_child_refines [OF tk] ne by simp
  have "refines d t (\<lambda>c. obind (tick_child_at tk n 0 c) (\<lambda>st c. (Ret (inv st), c)))
      (\<lambda>s. (inv (fst ((fs ! 0) s)), snd ((fs ! 0) s)))"
    using refines_obind [where h = "\<lambda>st c. (Ret (inv st), c)" and g = "\<lambda>st s. (inv st, s)", OF child refines_Ret] by simp
  then show ?thesis
    by (rule refines_cong) (auto simp: tick_invert_def inv_def fs split_beta split: status.split)
qed

lemma sim_increment:
  assumes "interior_node d n" "sim d t s c"
  shows "sim d t (s(nd_id n := (fst (s (nd_id n)) + 1, snd (s (nd_id n))))) (upd_memory (nd_id n) (\<lambda>m. m\<lparr>nm_i0 := nm_i0 m + 1\<rparr>) c)"
  using assms interior_cell [OF assms] by (intro sim_upd_memory) simp_all

text \<open>Counting up and comparing with the parameter, as \<open>repeat\<close> and \<open>retry\<close> do.\<close>

lemma count_refines:
  assumes n: "interior_node d n"
  shows "refines d t (\<lambda>c :: ('w, 'p) tick_context. let c = upd_memory (nd_id n) (\<lambda>m. m\<lparr>nm_i0 := nm_i0 m + 1\<rparr>) c
      in (Ret (verdict (nm_i0 (memory_of (nd_id n) c))), c))
    (\<lambda>s. let x = fst (s (nd_id n)) + 1 in (verdict x, s(nd_id n := (x, snd (s (nd_id n))))))"
proof (rule refinesI)
  fix s and c :: "('w, 'p) tick_context"
  assume sim: "sim d t s c"
  show "refines_at d t (\<lambda>c. let c = upd_memory (nd_id n) (\<lambda>m. m\<lparr>nm_i0 := nm_i0 m + 1\<rparr>) c
      in (Ret (verdict (nm_i0 (memory_of (nd_id n) c))), c))
    (\<lambda>s. let x = fst (s (nd_id n)) + 1 in (verdict x, s(nd_id n := (x, snd (s (nd_id n)))))) s c"
    using sim_increment [OF n sim] interior_cell [OF n sim] by (simp add: refines_at_def upd_memory_def Let_def)
qed

lemma tick_repeat_refines:
  fixes tk :: "('w, 'p) ticker"
  assumes n: "interior_node d n" and tk: "refines_all d t tk (nd_children n) fs" and ne: "nd_children n \<noteq> []"
  shows "refines d t (tick_repeat tk n) (doc_repeat (nd_id n) (nd_int_param n) (hd fs))"
proof (rule refinesI)
  fix s and c :: "('w, 'p) tick_context"
  assume sim: "sim d t s c"
  have fs: "hd fs = fs ! 0" using tk ne by (cases fs) (auto simp: list_all2_conv_all_nth)
  define verdict where "verdict x = (if sint x \<ge> sint (nd_int_param n) then Success else Running)" for x :: i64
  define g where "g st = (\<lambda>s :: cells. if st = Success
    then let x = fst (s (nd_id n)) + 1 in (verdict x, s(nd_id n := (x, snd (s (nd_id n))))) else (st, s))" for st
  have "refines d t (\<lambda>c :: ('w, 'p) tick_context. case st of
          Failure \<Rightarrow> (Ret Failure, c)
        | Running \<Rightarrow> (Ret Running, c)
        | Success \<Rightarrow>
            let c = upd_memory (nd_id n) (\<lambda>m. m\<lparr>nm_i0 := nm_i0 m + 1\<rparr>) c
            in (Ret (verdict (nm_i0 (memory_of (nd_id n) c))), c)) (g st)" for st
    using count_refines [OF n, of t verdict] refines_Ret [of d t "\<lambda>s. s" "\<lambda>c. c"] by (cases st) (simp_all add: g_def)
  note step = refines_obind [where g = g, OF tick_child_refines [OF tk, of 0] this, unfolded verdict_def]
  show "refines_at d t (tick_repeat tk n) (doc_repeat (nd_id n) (nd_int_param n) (hd fs)) s c"
  proof (cases "sint (nd_int_param n) \<le> sint (fst (s (nd_id n)))")
    case True
    then show ?thesis
      using sim interior_cell [OF n sim] by (simp add: refines_at_def tick_repeat_def doc_repeat_def)
  next
    case False
    show ?thesis
      by (rule refines_at_via [OF step, where ?c0.0 = "node_memory_for (nd_id n) c"])
        (use ne False sim interior_cell [OF n sim] in
          \<open>auto simp: tick_repeat_def doc_repeat_def g_def verdict_def fs Let_def split: prod.split status.split\<close>)
  qed
qed

lemma tick_retry_refines:
  fixes tk :: "('w, 'p) ticker"
  assumes n: "interior_node d n" and tk: "refines_all d t tk (nd_children n) fs" and ne: "nd_children n \<noteq> []"
  shows "refines d t (tick_retry tk n) (doc_retry (nd_id n) (nd_int_param n) (hd fs))"
proof (rule refinesI)
  fix s and c :: "('w, 'p) tick_context"
  assume sim: "sim d t s c"
  have fs: "hd fs = fs ! 0" using tk ne by (cases fs) (auto simp: list_all2_conv_all_nth)
  define verdict where "verdict x = (if sint x \<le> sint (nd_int_param n) then Running else Failure)" for x :: i64
  define g where "g st = (\<lambda>s :: cells. case st of
      Failure \<Rightarrow> let x = fst (s (nd_id n)) + 1 in (verdict x, s(nd_id n := (x, snd (s (nd_id n)))))
    | Success \<Rightarrow> (Success, s(nd_id n := (word_of_nat 0, snd (s (nd_id n)))))
    | Running \<Rightarrow> (Running, s))" for st :: status
  have reset: "refines d t (\<lambda>c :: ('w, 'p) tick_context. (Ret Success, set_i0 (nd_id n) 0 c))
      (\<lambda>s. (Success, s(nd_id n := (word_of_nat 0, snd (s (nd_id n))))))"
    by (rule refines_Ret) (rule interior_sim_i0 [OF n])
  have "refines d t (\<lambda>c :: ('w, 'p) tick_context. case st of
          Success \<Rightarrow> (Ret Success, set_i0 (nd_id n) 0 c)
        | Running \<Rightarrow> (Ret Running, c)
        | Failure \<Rightarrow>
            let c = upd_memory (nd_id n) (\<lambda>m. m\<lparr>nm_i0 := nm_i0 m + 1\<rparr>) c
            in (Ret (verdict (nm_i0 (memory_of (nd_id n) c))), c)) (g st)" for st
    using count_refines [OF n, of t verdict] refines_Ret [of d t "\<lambda>s. s" "\<lambda>c. c"] reset
    by (cases st) (simp_all add: g_def)
  note step = refines_obind [where g = g, OF tick_child_refines [OF tk, of 0] this, unfolded verdict_def]
  show "refines_at d t (tick_retry tk n) (doc_retry (nd_id n) (nd_int_param n) (hd fs)) s c"
    by (rule refines_at_via [OF step, where ?c0.0 = "node_memory_for (nd_id n) c"])
      (use ne sim in \<open>auto simp: tick_retry_def doc_retry_def g_def verdict_def fs Let_def split: prod.split status.split\<close>)
qed

subsection \<open>Simulation of a tick\<close>

lemma sim_enter [simp]: "sim d t s (snd (node_scope_enter n c)) = sim d t s c"
  by (simp add: sim_def runs_def cell_of_def memory_of_def)

lemma sim_exit [simp]: "sim d t s (node_scope_exit sc n st c) = sim d t s c"
  using exit_inst [of sc n st c] by (auto simp: sim_def runs_def cell_of_def memory_of_def)

lemma sim_finalize [simp]: "sim d t s (finalize n c) = sim d t s c"
  by (simp add: sim_def runs_def cell_of_def memory_of_def)

lemma scoped_refines:
  fixes H :: "('w, 'p) host"
  assumes "refines d t (tick_body H hf tk n) f"
  shows "refines d t (tick_scoped H hf tk n) f"
proof (rule refinesI)
  fix s and c :: "('w, 'p) tick_context"
  assume "sim d t s c"
  then have "sim d t s (snd (node_scope_enter n c))" by simp
  with assms obtain c' where "tick_body H hf tk n (snd (node_scope_enter n c)) = (Ret (fst (f s)), c')"
    "sim d t (snd (f s)) c'" by (rule refinesD)
  then show "refines_at d t (tick_scoped H hf tk n) f s c"
    by (simp add: refines_at_def tick_scoped_def split_beta)
qed

lemma leaf_refines:
  fixes H :: "('w, 'p) host"
  assumes "leaves_answer d H orc" "i < length (df_nodes d)" "callback_leaf (nd_kind (df_nodes d ! i))"
    "\<not> interior (nd_kind (df_nodes d ! i))"
  shows "refines d t (tick_body H hf tk (df_nodes d ! i)) (\<lambda>s. (orc t i, s))"
proof (rule refinesI)
  fix s and c :: "('w, 'p) tick_context"
  assume sim: "sim d t s c"
  then have "fst (tick_body H hf tk (df_nodes d ! i) c) = Ret (orc t i)"
    and touch: "touches i c (snd (tick_body H hf tk (df_nodes d ! i) c))"
    using assms(1-3) by (auto simp: leaves_answer_def sim_def runs_def)
  moreover have "sim d t s (snd (tick_body H hf tk (df_nodes d ! i) c))"
    unfolding sim_def runs_def
  proof (intro conjI allI impI)
    show "in_def (cx_inst (snd (tick_body H hf tk (df_nodes d ! i) c))) = Some d"
      using touch sim by (simp add: touches_def sim_def runs_def)
    show "cx_tick_index (snd (tick_body H hf tk (df_nodes d ! i) c)) = t"
      using touch sim by (simp add: touches_def sim_def)
    fix j assume "j < length (df_nodes d)" "interior (nd_kind (df_nodes d ! j))"
    with touch assms(4) sim show "cell_of j (snd (tick_body H hf tk (df_nodes d ! i) c)) = s j"
      by (cases "j = i") (auto simp: touches_def sim_def cell_of_def memory_of_def)
  qed
  ultimately show "refines_at d t (tick_body H hf tk (df_nodes d ! i)) (\<lambda>s. (orc t i, s)) s c"
    by (cases "tick_body H hf tk (df_nodes d ! i) c") (simp add: refines_at_def)
qed

lemma constant_refines: "refines d t (\<lambda>c. (Ret st, c)) (\<lambda>s. (st, s))"
  by (rule refines_Ret)

lemma body_refines:
  fixes H :: "('w, 'p) host"
  assumes H: "halting_sound d H hf" and L: "leaves_answer d H orc" and i: "i < length (df_nodes d)"
    and tk: "refines_all d t tk (nd_children (df_nodes d ! i)) fs"
  defines "n \<equiv> df_nodes d ! i"
  shows "refines d t (tick_body H hf tk n) (doc_rule (orc t) (nd_kind n) i (nd_int_param n) (map (tree_of d) (nd_children n)) fs)"
proof -
  have wf: "wf_definition d" using H by (simp add: halting_sound_def)
  then have node: "wf_node i n" using i by (simp add: wf_definition_def n_def)
  then have id: "nd_id n = i" by (simp add: wf_node_def)
  have ne: "interior (nd_kind n) \<Longrightarrow> nd_children n \<noteq> []"
    using node by (auto simp: wf_node_def interior_def)
  have inter: "interior (nd_kind n) \<Longrightarrow> interior_node d n"
    using i id wf_definition_child [OF wf i] by (auto simp: interior_node_def n_def)
  have leaf: "callback_leaf (nd_kind n) \<Longrightarrow> refines d t (tick_body H hf tk n) (\<lambda>s. (orc t i, s))"
    using leaf_refines [OF L i, of t hf tk]
    by (cases "nd_kind n") (simp_all add: n_def [symmetric] callback_leaf_def named_leaf_def service_leaf_def interior_def
        composite_def decorator_def)
  note tk = tk [folded n_def]
  note inner = seq_loop_refines [OF tk] sel_loop_refines [OF tk] tick_mem_seq_refines [OF H _ tk] tick_mem_sel_refines [OF H _ tk]
    tick_reactive_seq_refines [OF H _ tk] tick_reactive_sel_refines [OF H _ tk] tick_async_seq_refines [OF H _ tk]
    tick_invert_refines [OF tk] tick_repeat_refines [OF _ tk] tick_retry_refines [OF _ tk]
  note all = inner [unfolded id] leaf ne inter constant_refines
  show ?thesis
    by (cases "nd_kind n") (use all in \<open>simp_all add: tick_body_def [abs_def] doc_rule_def [abs_def] callback_leaf_def named_leaf_def
      service_leaf_def interior_def composite_def decorator_def\<close>)
qed

lemma tick_node_refines:
  fixes H :: "('w, 'p) host"
  assumes H: "halting_sound d H hf" and L: "leaves_answer d H orc"
  shows "i < length (df_nodes d) \<Longrightarrow> i < k \<Longrightarrow> refines d t (tick_node H hf k i) (doc_tick (orc t) (tree_of d i))"
proof (induction k arbitrary: i)
  case (Suc k)
  have wf: "wf_definition d" using H by (simp add: halting_sound_def)
  define n where "n = df_nodes d ! i"
  have "refines d t (tick_node H hf k j) (doc_tick (orc t) (tree_of d j))" if "j \<in> set (nd_children n)" for j
    using Suc.IH [of j] Suc.prems wf_definition_child [OF wf Suc.prems(1), of j] that by (auto simp: n_def)
  then have "refines_all d t (tick_node H hf k) (nd_children n) (map (\<lambda>j. doc_tick (orc t) (tree_of d j)) (nd_children n))"
    by (simp add: list_all2_map2 list_all2_same)
  from scoped_refines [OF body_refines [OF H L Suc.prems(1) this [unfolded n_def]]]
  have "refines d t (tick_scoped H hf (tick_node H hf k) n) (doc_tick (orc t) (tree_of d i))"
    by (rule refines_cong) (simp_all add: tree_of_unfold [OF wf Suc.prems(1)] n_def comp_def)
  then show ?case
    using Suc.prems by (auto simp: refines_def sim_def runs_def get_node_def n_def)
qed simp

end
