(* ===== verification/Ticks.thy ===== *)
theory Ticks
  imports Refinement Collection
begin

text \<open>
  Whole ticks: the accounting of \<open>tick\<close> (index, counters, budget overruns, cancelled jobs), the
  documented semantics for a sequence of ticks, halting and resetting.
\<close>

subsection \<open>The end of a tick\<close>

lemma cancel_overrun_job_inst [simp]:
  "cx_inst (cancel_overrun_job ops nj c) = cx_inst c"
  "cx_world (cancel_overrun_job ops nj c) = snd (vla_cancel_job ops (snd nj) (cx_world c))"
  by (simp_all add: cancel_overrun_job_def split_beta Let_def call_vla_cancel_def emit_outcome_event_def)

lemma cancel_jobs_fold [simp]:
  "cx_inst (fold (cancel_overrun_job ops) jobs c) = cx_inst c"
  "cx_world (fold (cancel_overrun_job ops) jobs c) = fold (\<lambda>(node, job) w. snd (vla_cancel_job ops job w)) jobs (cx_world c)"
  by (induction jobs arbitrary: c) (simp_all add: split_beta)

lemma erase_all_keys: "fold alist_erase (map fst xs) ys = filter (\<lambda>(k, v). k \<notin> fst ` set xs) ys"
  by (induction xs arbitrary: ys) (auto simp: alist_erase_def intro!: filter_cong)

lemma erase_own_keys: "fold alist_erase (map fst xs) xs = []"
  unfolding erase_all_keys filter_empty_conv by force

text \<open>What the destructor of \<open>tick_scope\<close> does to the instance, for a tick that took \<open>elapsed\<close>.\<close>

definition overran :: "time_ns \<Rightarrow> 'p instance_state \<Rightarrow> bool" where
  "overran elapsed inst \<longleftrightarrow>
     0 < tp_configured_tick_budget (in_tree_stats inst) \<and> tp_configured_tick_budget (in_tree_stats inst) < elapsed"

definition account_tick :: "'w services \<Rightarrow> time_ns \<Rightarrow> 'p instance_state \<Rightarrow> 'p instance_state" where
  "account_tick svc elapsed inst =
     (let ts = in_tree_stats inst in
      inst\<lparr>in_tree_stats := ts
             \<lparr>tp_tick_duration := observe elapsed (tp_configured_tick_budget ts) (tp_tick_duration ts),
              tp_tick_count := Suc (tp_tick_count ts),
              tp_tick_overrun_count := tp_tick_overrun_count ts + (if overran elapsed inst then 1 else 0)\<rparr>,
           in_active_vla_jobs := (if overran elapsed inst \<and> sv_vla svc \<noteq> None then [] else in_active_vla_jobs inst)\<rparr>)"

lemma deadline_missed_count [simp]: "deadline_missed elapsed (count_tick elapsed c) = overran elapsed (cx_inst c)"
  by (simp add: deadline_missed_def count_tick_def overran_def)

lemma emit_log_inst [simp]: "cx_inst (emit_log level category message c) = cx_inst c"
  by (simp add: emit_log_def emit_event_error_def Let_def split_beta split: option.split)

lemma tick_overrun_inst:
  "cx_inst (tick_overrun svc st elapsed c) = (cx_inst c)
     \<lparr>in_tree_stats := (in_tree_stats (cx_inst c))\<lparr>tp_tick_overrun_count := Suc (tp_tick_overrun_count (in_tree_stats (cx_inst c)))\<rparr>,
      in_active_vla_jobs := (if sv_vla svc = None then in_active_vla_jobs (cx_inst c) else [])\<rparr>"
  by (simp add: tick_overrun_def Let_def cancel_overrun_jobs_def erase_own_keys emit_budget_warning_event_def
      emit_deadline_exceeded_event_def split: option.split)

lemma audit_event_inst [simp]: "cx_inst (emit_tick_audit_event svc st e m a b c) = cx_inst c"
  by (simp add: emit_tick_audit_event_def Let_def split: option.split)

lemma tick_scope_exit_inst:
  "cx_inst (tick_scope_exit svc started gc_start st c) = account_tick svc (fst (tick_now c) - started) (cx_inst c)"
proof -
  obtain t c1 where now: "tick_now c = (t, c1)" by fastforce
  then have c1: "cx_inst c1 = cx_inst c" by (auto simp: tick_now_def now_obs_def)
  define e where "e = t - started"
  define c2 where "c2 = (if overran e (cx_inst c) then tick_overrun svc st e (count_tick e c1) else count_tick e c1)"
  have "cx_inst (tick_scope_exit svc started gc_start st c) = cx_inst c2"
    by (simp add: tick_scope_exit_def now Let_def c1 emit_outcome_event_def c2_def e_def [symmetric] del: deadline_missed_count)
      (simp add: c1)
  also have "\<dots> = account_tick svc e (cx_inst c)"
    by (cases "overran e (cx_inst c)") (simp_all add: c2_def tick_overrun_inst count_tick_def account_tick_def Let_def c1)
  finally show ?thesis by (simp add: now e_def)
qed

subsection \<open>A whole tick\<close>

lemma tick_prepare_context:
  "cx_inst (snd (snd (tick_prepare svc d inst ob w))) = inst\<lparr>in_tick_index := Suc (in_tick_index inst)\<rparr>"
  "cx_tick_index (snd (snd (tick_prepare svc d inst ob w))) = Suc (in_tick_index inst)"
  by (simp_all add: tick_prepare_def Let_def split_beta new_context_def)

text \<open>How the result of a tick depends on the result of its root.\<close>

lemma tick_result:
  assumes "in_def inst = Some d"
  obtains started gc_start c where "cx_inst c = inst\<lparr>in_tick_index := Suc (in_tick_index inst)\<rparr>"
    "cx_tick_index c = Suc (in_tick_index inst)"
    "tick H hf k inst ob w =
       (let (r, c) = tick_finish (ho_svc H) started gc_start (tick_node H hf k (df_root d) c) in (r, cx_inst c, cx_obs c, cx_world c))"
proof -
  obtain started gc_start c where prep: "tick_prepare (ho_svc H) d inst ob w = (started, gc_start, c)"
    by (cases "tick_prepare (ho_svc H) d inst ob w") auto
  show thesis
    by (rule that [of c started gc_start])
      (use prep assms tick_prepare_context [of "ho_svc H" d inst ob w] in \<open>simp_all add: tick_def\<close>)
qed

lemma gc_tick_exit_inst [simp]: "cx_inst (snd (gc_tick_exit svc r c)) = cx_inst c"
  by (simp add: gc_tick_exit_def split: outcome.split)

lemma tick_finish_inst:
  assumes "fst (tick_finish svc started gc_start (r, c)) \<notin> {Undef, Diverge}"
  shows "\<exists>elapsed. cx_inst (snd (tick_finish svc started gc_start (r, c))) = account_tick svc elapsed (cx_inst c)"
  using assms by (cases r) (auto simp: tick_finish_def tick_scope_exit_inst)


subsection \<open>The documented semantics over ticks\<close>

definition inst_cell :: "node_id \<Rightarrow> 'p instance_state \<Rightarrow> i64 \<times> bool" where
  "inst_cell i inst = (case in_memory inst i of None \<Rightarrow> (0, False) | Some m \<Rightarrow> (nm_i0 m, nm_b0 m))"

definition inst_sim :: "bt_definition \<Rightarrow> cells \<Rightarrow> 'p instance_state \<Rightarrow> bool" where
  "inst_sim d s inst \<longleftrightarrow> in_def inst = Some d \<and>
     (\<forall>i < length (df_nodes d). interior (nd_kind (df_nodes d ! i)) \<longrightarrow> inst_cell i inst = s i)"

lemma cell_of_inst: "cell_of i c = inst_cell i (cx_inst c)"
  by (simp add: cell_of_def inst_cell_def memory_of_def node_memory_default_def split: option.split)

lemma sim_inst_sim: "sim d t s c \<longleftrightarrow> inst_sim d s (cx_inst c) \<and> cx_tick_index c = t"
  by (auto simp: sim_def inst_sim_def runs_def cell_of_inst)

lemma inst_cell_account: "inst_sim d s (account_tick svc e inst) = inst_sim d s inst"
  by (simp add: inst_sim_def inst_cell_def account_tick_def Let_def)

lemma account_tick_index [simp]: "in_tick_index (account_tick svc e inst) = in_tick_index inst"
  by (simp add: account_tick_def Let_def)

text \<open>The heap of every world satisfies its invariant.\<close>

definition heaps_ok :: "'w services \<Rightarrow> bool" where
  "heaps_ok svc \<longleftrightarrow> (\<forall>w. heap_ok (sv_heap svc w))"

lemma gc_tick_exit_returns: "heaps_ok svc \<Longrightarrow> fst (gc_tick_exit svc r c) = r"
  using collections_ok(1) [of "sv_heap svc (cx_world c)"] by (auto simp: heaps_ok_def gc_tick_exit_def)

text \<open>A host that runs \<open>d\<close> as the documentation describes, with the leaves answering \<open>orc\<close>.\<close>

definition sound_host :: "bt_definition \<Rightarrow> ('w, 'p) host \<Rightarrow> nat \<Rightarrow> nat \<Rightarrow> (nat \<Rightarrow> node_id \<Rightarrow> status) \<Rightarrow> bool" where
  "sound_host d H hf k orc \<longleftrightarrow> halting_sound d H hf \<and> leaves_answer d H orc \<and> callbacks_respect same_frame H \<and>
     heaps_ok (ho_svc H) \<and> df_root d < k"

lemma tick_refines:
  assumes H: "sound_host d H hf k orc" and s: "inst_sim d s inst"
  defines "doc \<equiv> doc_tick (orc (Suc (in_tick_index inst))) (tree_of d (df_root d)) s"
  shows "\<exists>inst' ob' w'. tick H hf k inst ob w = (Ret (fst doc), inst', ob', w') \<and>
    inst_sim d (snd doc) inst' \<and> in_tick_index inst' = Suc (in_tick_index inst)"
proof -
  have def: "in_def inst = Some d" using s by (simp add: inst_sim_def)
  obtain started gc_start c where c: "cx_inst c = inst\<lparr>in_tick_index := Suc (in_tick_index inst)\<rparr>"
    "cx_tick_index c = Suc (in_tick_index inst)"
    "tick H hf k inst ob w =
       (let (r, c) = tick_finish (ho_svc H) started gc_start (tick_node H hf k (df_root d) c) in (r, cx_inst c, cx_obs c, cx_world c))"
    by (rule tick_result [OF def])
  have sim: "sim d (Suc (in_tick_index inst)) s c"
    using s c(1,2) by (simp add: sim_inst_sim inst_sim_def inst_cell_def)
  have "df_root d < length (df_nodes d)" using H by (simp add: sound_host_def halting_sound_def wf_definition_def)
  then obtain c1 where root: "tick_node H hf k (df_root d) c = (Ret (fst doc), c1)" "sim d (Suc (in_tick_index inst)) (snd doc) c1"
    using tick_node_refines [of d H hf orc "df_root d" k "Suc (in_tick_index inst)"] H sim
    unfolding sound_host_def refines_def doc_def by blast
  have "same_frame c c1"
    using frame.tick_node_to [of H c c hf k "df_root d"] H root by (simp add: sound_host_def)
  then have index: "in_tick_index (cx_inst c1) = Suc (in_tick_index inst)" using c(1) by (simp add: same_frame_def)
  define c2 where "c2 = tick_scope_exit (ho_svc H) started gc_start (fst doc) c1"
  have finish: "tick_finish (ho_svc H) started gc_start (tick_node H hf k (df_root d) c) = gc_tick_exit (ho_svc H) (Ret (fst doc)) c2"
    by (simp add: tick_finish_def root(1) c2_def)
  have "inst_sim d (snd doc) (cx_inst c2)" "in_tick_index (cx_inst c2) = Suc (in_tick_index inst)"
    using root(2) index by (simp_all add: c2_def tick_scope_exit_inst inst_cell_account sim_inst_sim)
  moreover have "fst (gc_tick_exit (ho_svc H) (Ret (fst doc)) c2) = Ret (fst doc)"
    using H by (simp add: gc_tick_exit_returns sound_host_def)
  ultimately show ?thesis
    unfolding c(3) finish by (simp add: split_beta)
qed

text \<open>A sequence of ticks of the program, and of the documented machine.\<close>

fun ticks ::
  "('w, 'p) host \<Rightarrow> nat \<Rightarrow> nat \<Rightarrow> nat \<Rightarrow> 'p instance_state \<Rightarrow> obs \<Rightarrow> 'w \<Rightarrow> status outcome list \<times> 'p instance_state \<times> obs \<times> 'w" where
  "ticks H hf k 0 inst ob w = ([], inst, ob, w)"
| "ticks H hf k (Suc n) inst ob w =
     (let (r, inst, ob, w) = tick H hf k inst ob w; (rs, rest) = ticks H hf k n inst ob w in (r # rs, rest))"

fun doc_run :: "(nat \<Rightarrow> node_id \<Rightarrow> status) \<Rightarrow> bt_tree \<Rightarrow> nat \<Rightarrow> nat \<Rightarrow> cells \<Rightarrow> status list" where
  "doc_run orc t first 0 s = []"
| "doc_run orc t first (Suc n) s = (let (st, s) = doc_tick (orc first) t s in st # doc_run orc t (Suc first) n s)"

definition no_cells :: cells where
  "no_cells = (\<lambda>_. (0, False))"

lemma ticks_refine:
  assumes "sound_host d H hf k orc"
  shows "inst_sim d s inst \<Longrightarrow>
    fst (ticks H hf k n inst ob w) = map Ret (doc_run orc (tree_of d (df_root d)) (Suc (in_tick_index inst)) n s)"
proof (induction n arbitrary: s inst ob w)
  case (Suc n)
  obtain inst' ob' w' where "tick H hf k inst ob w = (Ret (fst (doc_tick (orc (Suc (in_tick_index inst))) (tree_of d (df_root d)) s)), inst', ob', w')"
    "inst_sim d (snd (doc_tick (orc (Suc (in_tick_index inst))) (tree_of d (df_root d)) s)) inst'"
    "in_tick_index inst' = Suc (in_tick_index inst)"
    using tick_refines [OF assms Suc.prems, of ob w] by auto
  with Suc.IH [of _ inst' ob' w'] show ?case by (simp add: Let_def split_beta)
qed simp

lemma fresh_sim: "inst_sim d no_cells (instance_new (Some d))" and fresh_index [simp]: "in_tick_index (instance_new def) = 0"
  by (simp_all add: inst_sim_def inst_cell_def instance_new_def no_cells_def)


definition sample_oracle :: "nat \<Rightarrow> node_id \<Rightarrow> status" where
  "sample_oracle t i = (if i = 1 then work_status t else Success)"

lemma patrol_leaves: "leaves_answer patrol_definition sample_host sample_oracle"
  unfolding leaves_answer_def patrol_nodes sample_oracle_def
  by (auto simp: eval_nat_numeral less_Suc_eq callback_leaf_def named_leaf_def service_leaf_def tick_body_def tick_cond_def tick_act_def
      materialize_args_def touches_def node_memory_for_def in_memory_set_memory Let_def)

lemma patrol_sound: "sound_host patrol_definition sample_host 9 5 sample_oracle"
  using heap_new_ok
  by (simp add: sound_host_def halting_sound_def patrol_wf patrol_halt_steps patrol_leaves sample_respects heaps_ok_def
      sample_services_def patrol_nodes local_halts_def touches_def)

lemma patrol_tree:
  "tree_of patrol_definition 4 =
     Node K_reactive_sel 4 0 [Node K_mem_seq 2 0 [Node K_cond 0 0 [], Node K_act 1 0 []], Node K_succeed 3 0 []]"
  by (simp add: tree_of_def patrol_nodes eval_nat_numeral)

lemma patrol_documented: "doc_run sample_oracle (tree_of patrol_definition 4) 1 2 no_cells = [Running, Success]"
  by (simp add: patrol_tree numeral_2_eq_2 doc_rule_def doc_reactive_sel_def doc_mem_seq_def running_child_def start_index_def
      no_cells_def sample_oracle_def work_status_def preempt_def clear_cells_def)


text \<open>The witness of the accounting uses that this tick returns.\<close>

lemma patrol_tick:
  "\<exists>inst' ob' w'. tick sample_host 9 5 (instance_new (Some patrol_definition)) sample_obs (gc_new 16 (\<lambda>_. 0)) = (Ret Running, inst', ob', w')"
  using tick_refines [OF patrol_sound fresh_sim, of sample_obs "gc_new 16 (\<lambda>_. 0)"] patrol_documented
  by (auto simp: numeral_2_eq_2 patrol_nodes(2) split_beta Let_def)


subsection \<open>Halting, resetting, overruns\<close>

text \<open>
  C34. \<open>halt_subtree\<close> ends, and resets the memory of exactly the nodes of the subtree: theirs is the
  default afterwards, that of every other node is unchanged.
\<close>

theorem halt_subtree_clears:
  assumes "wf_definition d" "local_halts H" "enough_halt_steps d hf" "in_def inst = Some d" "i < length (df_nodes d)"
  shows "\<exists>inst' ob' w'. halt_subtree H hf i reason inst ob w = (Ret (), inst', ob', w') \<and> in_def inst' = Some d \<and>
    (\<forall>j. if j \<in> set (tree_ids (tree_of d i)) then in_memory inst' j \<in> {None, Some node_memory_default}
         else in_memory inst' j = in_memory inst j)"
proof -
  define c where "c = (new_context inst (snd (now_obs ob)) w (fst (now_obs ob)) (Some 0) i)\<lparr>cx_tick_started_at := 0\<rparr>"
  have c: "cx_inst c = inst" by (simp add: c_def new_context_def)
  then have "runs d c" using assms(4) by (simp add: runs_def)
  then obtain c' where h: "halt_subtree_impl H hf i reason c = (Ret (), c')" "cleared (tree_ids (tree_of d i)) c c'"
    using halt_subtree_cleared [OF assms(1-3) _ assms(5)] by blast
  then have "halt_subtree H hf i reason inst ob w = (Ret (), cx_inst c', cx_obs c', cx_world c')"
    using assms(4) by (simp add: halt_subtree_def split_beta c_def [symmetric] Let_def)
  moreover have "in_memory (cx_inst c') j \<in> {None, Some node_memory_default}" if "memory_of j c' = node_memory_default" for j
    using that by (auto simp: memory_of_def split: option.splits)
  ultimately show ?thesis using h(2) c assms(4) by (auto simp: cleared_def)
qed

theorem halt_subtree_clears_witness:
  "\<exists>inst' ob' w'. halt_subtree sample_host 9 2 ''stop'' (instance_new (Some patrol_definition)) sample_obs (gc_new 16 (\<lambda>_. 0)) =
     (Ret (), inst', ob', w') \<and> in_def inst' = Some patrol_definition"
proof -
  have "local_halts sample_host" using patrol_sound by (simp add: sound_host_def halting_sound_def)
  moreover have "in_def (instance_new (Some patrol_definition)) = Some patrol_definition" by (simp add: instance_new_def)
  moreover have "2 < length (df_nodes patrol_definition)" by (simp add: patrol_nodes)
  ultimately have "\<exists>inst' ob' w'. halt_subtree sample_host 9 2 ''stop'' (instance_new (Some patrol_definition)) sample_obs (gc_new 16 (\<lambda>_. 0)) =
     (Ret (), inst', ob', w') \<and> in_def inst' = Some patrol_definition \<and>
     (\<forall>j. if j \<in> set (tree_ids (tree_of patrol_definition 2)) then in_memory inst' j \<in> {None, Some node_memory_default}
          else in_memory inst' j = in_memory (instance_new (Some patrol_definition)) j)"
    by (rule halt_subtree_clears [OF patrol_wf _ patrol_halt_steps])
  then show ?thesis by meson
qed

text \<open>
  After \<open>reset\<close> a tree starts over: the following ticks return what the documented machine returns
  from empty cells, whatever the state of the instance was before.
\<close>

theorem reset_restarts:
  assumes "sound_host d H hf k orc" "in_def inst = Some d"
  shows "fst (ticks H hf k n (reset_instance inst) ob w) =
    map Ret (doc_run orc (tree_of d (df_root d)) (Suc (in_tick_index inst)) n no_cells)"
proof -
  have "inst_sim d no_cells (reset_instance inst)"
    using assms(2) by (simp add: inst_sim_def inst_cell_def reset_instance_def no_cells_def)
  from ticks_refine [OF assms(1) this] show ?thesis by (simp add: reset_instance_def)
qed

theorem reset_restarts_witness:
  "fst (ticks sample_host 9 5 2 (reset_instance (instance_new (Some patrol_definition))) sample_obs (gc_new 16 (\<lambda>_. 0))) = [Ret Running, Ret Success]"
  using reset_restarts [OF patrol_sound, of "instance_new (Some patrol_definition)" 2]
  by (simp add: instance_new_def patrol_nodes(2) patrol_documented [unfolded One_nat_def])

text \<open>
  A tick that overran its budget cancels every active VLA job, in the order of registration, and
  forgets them; no other service is called at its end.
\<close>

theorem overrun_cancels_jobs:
  assumes "sv_vla svc = Some ops" "overran (fst (tick_now c) - started) (cx_inst c)"
  shows "cx_world (tick_scope_exit svc started gc_start st c) =
      fold (\<lambda>(node, job) w. snd (vla_cancel_job ops job w)) (in_active_vla_jobs (cx_inst c)) (cx_world c) \<and>
    in_active_vla_jobs (cx_inst (tick_scope_exit svc started gc_start st c)) = []"
proof -
  obtain t c1 where now: "tick_now c = (t, c1)" by fastforce
  then have c1: "cx_inst c1 = cx_inst c" "cx_world c1 = cx_world c" by (auto simp: tick_now_def now_obs_def)
  have log: "cx_world (emit_log level category message x) = cx_world x" for level category message and x :: "('a, 'b) tick_context"
    by (simp add: emit_log_def emit_event_error_def Let_def split_beta split: option.split)
  have audit: "cx_world (emit_tick_audit_event svc st e m a b x) = cx_world x" for e m a b and x :: "('a, 'b) tick_context"
    by (simp add: emit_tick_audit_event_def Let_def split: option.split)
  have "cx_world (tick_scope_exit svc started gc_start st c) =
      fold (\<lambda>(node, job) w. snd (vla_cancel_job ops job w)) (in_active_vla_jobs (cx_inst c)) (cx_world c)"
    using assms now by (simp add: tick_scope_exit_def Let_def c1 audit emit_outcome_event_def tick_overrun_def cancel_overrun_jobs_def
        emit_budget_warning_event_def emit_deadline_exceeded_event_def log) (simp add: count_tick_def c1)
  then show ?thesis
    using assms by (simp add: tick_scope_exit_inst account_tick_def Let_def)
qed

text \<open>A service whose world is the list of jobs that were cancelled.\<close>

definition recording_vla :: "nat list vla_ops" where
  "recording_vla = \<lparr>vla_submit = (\<lambda>r w. (Inr 1, w)), vla_poll_job = (\<lambda>i w. (Inl Other_exception, w)),
     vla_cancel_job = (\<lambda>i w. (True, w @ [i]))\<rparr>"

definition late_context :: "(nat list, unit) tick_context" where
  "late_context = new_context
     ((instance_new None)\<lparr>in_active_vla_jobs := [(3, 7), (5, 8)], in_tree_stats := tree_profile_stats_default\<lparr>tp_configured_tick_budget := 1\<rparr>\<rparr>)
     (sample_obs\<lparr>ob_clock := (\<lambda>_. 10)\<rparr>) [] 0 None 0"

theorem overrun_cancels_jobs_witness:
  "cx_world (tick_scope_exit \<lparr>sv_sched = None, sv_planner = None, sv_vla = Some recording_vla, sv_heap = (\<lambda>_. gc_new 16 (\<lambda>_. 0)),
     sv_set_heap = (\<lambda>_ w. w)\<rparr> 0 (gc_stats (gc_new 16 (\<lambda>_. 0))) Success late_context) = [7, 8]"
proof -
  have "overran (fst (tick_now late_context) - 0) (cx_inst late_context)"
    by (simp add: late_context_def new_context_def tick_now_def now_obs_def sample_obs_def overran_def instance_new_def
        tree_profile_stats_default_def)
  from overrun_cancels_jobs [OF _ this, of _ recording_vla] show ?thesis
    by (simp add: late_context_def new_context_def instance_new_def recording_vla_def)
qed

subsection \<open>Decorators over time\<close>

lemma sint_of_small: "j < 2 ^ 63 \<Longrightarrow> sint (word_of_nat j :: i64) = int j"
  by (simp add: signed_of_nat signed_take_bit_int_eq_self)

lemma sint_param_small: "sint (p :: i64) = int m \<Longrightarrow> m < 2 ^ 63"
  using sint_lt [of p] by simp

text \<open>One tick of a decorator whose counter stands at \<open>j\<close>.\<close>

lemma doc_repeat_step:
  assumes p: "sint p = int m" and j: "j < m" and s: "fst (s i) = word_of_nat j" and leaf: "orc l = Success"
  shows "doc_tick orc (Node K_repeat i p [Node K_act l q []]) s =
    (if Suc j = m then Success else Running, s(i := (word_of_nat (Suc j), snd (s i))))"
proof -
  have "sint (word_of_nat j :: i64) = int j" "sint (word_of_nat (Suc j) :: i64) = int (Suc j)"
    using sint_param_small [OF p] j by (simp_all add: sint_of_small del: of_nat_Suc)
  then show ?thesis using p j s leaf by (auto simp: doc_rule_def doc_repeat_def Let_def add.commute)
qed

lemma doc_retry_step:
  assumes p: "sint p = int m" and j: "j \<le> m" "Suc m < 2 ^ 63" and s: "fst (s i) = word_of_nat j" and leaf: "orc l = Failure"
  shows "doc_tick orc (Node K_retry i p [Node K_act l q []]) s =
    (if j = m then Failure else Running, s(i := (word_of_nat (Suc j), snd (s i))))"
proof -
  have "sint (word_of_nat (Suc j) :: i64) = int (Suc j)" using j by (intro sint_of_small) simp
  then show ?thesis using p j s leaf by (auto simp: doc_rule_def doc_retry_def Let_def add.commute)
qed

lemma doc_repeat_run:
  assumes p: "sint p = int m" and leaf: "\<And>t. orc t l = Success"
  shows "j < m \<Longrightarrow> fst (s i) = word_of_nat j \<Longrightarrow>
    doc_run orc (Node K_repeat i p [Node K_act l q []]) first (m - j) s = replicate (m - Suc j) Running @ [Success]"
proof (induction "m - Suc j" arbitrary: j s first)
  case 0
  then have "m - j = Suc 0" by simp
  with 0 show ?case using doc_repeat_step [of p m j s i "orc first" l q, OF p 0(2,3) leaf] by (simp del: doc_tick.simps)
next
  case (Suc x)
  then have m: "m - j = Suc (m - Suc j)" "m - Suc j = Suc (m - Suc (Suc j))" "Suc j < m" by simp_all
  define s' where "s' = s(i := (word_of_nat (Suc j), snd (s i)))"
  have "doc_run orc (Node K_repeat i p [Node K_act l q []]) (Suc first) (m - Suc j) s' = replicate (m - Suc (Suc j)) Running @ [Success]"
    using Suc(1) [of "Suc j" s'] Suc(2) m by (simp add: s'_def)
  then show ?case
    unfolding m(1) using m Suc.prems by (simp add: doc_repeat_step [of p m j s i "orc first" l q, OF p Suc.prems leaf] s'_def del: doc_tick.simps)
qed

lemma doc_retry_run:
  assumes p: "sint p = int m" "Suc m < 2 ^ 63" and leaf: "\<And>t. orc t l = Failure"
  shows "j \<le> m \<Longrightarrow> fst (s i) = word_of_nat j \<Longrightarrow>
    doc_run orc (Node K_retry i p [Node K_act l q []]) first (Suc m - j) s = replicate (m - j) Running @ [Failure]"
proof (induction "m - j" arbitrary: j s first)
  case 0
  then have "Suc m - j = Suc 0" "j = m" by simp_all
  with 0 show ?case using doc_retry_step [of p m j s i "orc first" l q, OF p(1) 0(2) p(2) 0(3) leaf] by (simp del: doc_tick.simps)
next
  case (Suc x)
  then have m: "Suc m - j = Suc (m - j)" "m - j = Suc (m - Suc j)" "Suc j \<le> m" "j \<noteq> m" "Suc m - Suc j = m - j" by simp_all
  define s' where "s' = s(i := (word_of_nat (Suc j), snd (s i)))"
  have "doc_run orc (Node K_retry i p [Node K_act l q []]) (Suc first) (m - j) s' = replicate (m - Suc j) Running @ [Failure]"
    using Suc(1) [of "Suc j" s'] Suc(2) m by (simp add: s'_def)
  then show ?case
    unfolding m(1) using m Suc.prems
    by (simp add: doc_retry_step [of p m j s i "orc first" l q, OF p(1) Suc.prems(1) p(2) Suc.prems(2) leaf] s'_def del: doc_tick.simps)
qed


text \<open>A retry around an action that nobody registered: the leaf fails in every tick.\<close>

definition retry_definition :: bt_definition where
  "retry_definition = definition_default\<lparr>df_nodes :=
     [sample_node K_act 0 [] ''missing'', (sample_node K_retry 1 [0] [])\<lparr>nd_int_param := 2\<rparr>], df_root := 1\<rparr>"

lemma retry_nodes:
  "df_nodes retry_definition = [sample_node K_act 0 [] ''missing'', (sample_node K_retry 1 [0] [])\<lparr>nd_int_param := 2\<rparr>]"
  "df_root retry_definition = 1"
  by (simp_all add: retry_definition_def definition_default_def)

lemma retry_sound: "sound_host retry_definition sample_host 9 5 (\<lambda>_ _. Failure)"
proof -
  have "wf_definition retry_definition" "enough_halt_steps retry_definition 9"
    by (simp_all add: wf_definition_def retry_nodes wf_node_def composite_def decorator_def eval_nat_numeral all_less_Suc
        enough_halt_steps_def halt_steps_def)
  moreover have "leaves_answer retry_definition sample_host (\<lambda>_ _. Failure)"
    unfolding leaves_answer_def retry_nodes
    by (auto simp: eval_nat_numeral less_Suc_eq callback_leaf_def named_leaf_def service_leaf_def tick_body_def tick_act_def
        leaf_error_def touches_def Let_def emit_log_def emit_event_error_def split_beta split: option.split)
  ultimately show ?thesis
    using patrol_sound by (simp add: sound_host_def halting_sound_def retry_nodes)
qed


subsection \<open>What a node leaves alone, and the budget setting\<close>

text \<open>
  Ticking a node, whatever its kind and however it ends, leaves the frame of the tick alone (tree,
  clock marks, budget, tick index, current node and node path) and only adds to the tables: no node
  memory, blackboard key, profile entry or warning disappears, as long as the callbacks do the same.
\<close>

theorem tick_node_frame:
  assumes "callbacks_respect same_frame H" "callbacks_respect grows H"
  shows "same_frame c (snd (tick_node H hf k i c)) \<and> grows c (snd (tick_node H hf k i c))"
  using frame.tick_node_to [OF assms(1) frame.refl] growing.tick_node_to [OF assms(2) growing.refl] by blast

theorem tick_node_frame_witness:
  "same_frame (sample_context patrol_definition) (snd (tick_node sample_host 9 5 4 (sample_context patrol_definition)))"
  using tick_node_frame [of sample_host "sample_context patrol_definition" 9 5 4] by (simp add: sample_respects)

text \<open>
  \<open>set_tick_budget_ms\<close> rejects negative budgets and accepts exactly the budgets up to
  9223372036854 ms, for which the budget in nanoseconds is exact and fits 64 bits; above that the
  conversion overflows, which is undefined behaviour.
\<close>

theorem set_tick_budget_range:
  "set_tick_budget_ms b inst =
     (if sint b < 0 then Throw (Std_exception ''tick budget must be non-negative'')
      else if sint b \<le> 9223372036854
      then Ret (inst\<lparr>in_tree_stats := (in_tree_stats inst)\<lparr>tp_configured_tick_budget := sint b * 1000000\<rparr>\<rparr>)
      else Undef) \<and>
   (case set_tick_budget_ms b inst of
      Ret inst' \<Rightarrow> tp_configured_tick_budget (in_tree_stats inst') \<in> {0..<2 ^ 63} | _ \<Rightarrow> True)"
  by (auto simp: set_tick_budget_ms_def)

end
