(* ===== verification/Leaf_Safety.thy ===== *)
theory Leaf_Safety
  imports Ticks
begin

text \<open>
  What the planner and VLA leaves guarantee: an action reaches the blackboard only when it is finite
  and the service vouches for it, the time budget stops calls to the services, and a request is
  submitted once.
\<close>

subsection \<open>Steps that only read\<close>

definition reads_only :: "('w, 'p) tick_context \<Rightarrow> ('w, 'p, 'a) step \<Rightarrow> bool" where
  "reads_only c m \<longleftrightarrow> cx_inst (snd m) = cx_inst c \<and> cx_world (snd m) = cx_world c \<and>
     cx_vla_submits (snd m) = cx_vla_submits c \<and> cx_planner_calls (snd m) = cx_planner_calls c \<and>
     (\<forall>st. fst m = Inl (Ret st) \<longrightarrow> st = Failure)"

lemma reads_only_value [simp]: "reads_only c (Inr x, c)"
  by (simp add: reads_only_def)

lemma reads_only_value_get [simp]: "reads_only c (Inr x, snd (cx_bb_get key c))"
  by (simp add: reads_only_def)

lemma reads_only_fail [simp]:
  "reads_only c (vla_fail msg c)" "reads_only c (vla_fail msg (snd (cx_bb_get key c)))"
  "reads_only c (plan_error n msg c)" "reads_only c (plan_error n msg (snd (cx_bb_get key c)))"
  by (simp_all add: reads_only_def vla_fail_def plan_error_def)

lemma reads_only_outcome [simp]:
  "reads_only c (step_outcome r c)" "reads_only c (step_outcome r (snd (cx_bb_get key c)))"
  by (cases r; simp add: reads_only_def step_outcome_def)+

lemma reads_only_ebind:
  "reads_only c m \<Longrightarrow> (\<And>x c'. reads_only c' (f x c')) \<Longrightarrow> reads_only c (ebind m f)"
  by (cases m; cases "fst m") (auto simp: ebind_def reads_only_def)

lemma request_parts_read_only [simp]:
  "reads_only c (request_state op c)" "reads_only c (request_instruction op c)" "reads_only c (request_task_id op c)"
  "reads_only c (request_limits op state c)" "reads_only c (request_forbidden op c)" "reads_only c (request_image op c)"
  "reads_only c (request_blob op c)" "reads_only c (request_seed op c)"
  by (simp_all add: request_state_def request_instruction_def request_task_id_def request_limits_def request_forbidden_def
      request_image_def request_blob_def request_seed_def Let_def split_beta reads_only_ebind
      split: option.split sum.split list.split bb_value.split)

lemma build_vla_request_reads_only: "reads_only c (build_vla_request op c)"
  unfolding build_vla_request_def by (intro reads_only_ebind) (simp_all add: split_beta reads_only_ebind)

text \<open>How an early return and the rest of a leaf combine.\<close>

lemma ends_ebind:
  assumes "ends_with (ebind m f) = (r, c')"
  obtains (early) "m = (Inl r, c')" | (later) x c1 where "m = (Inr x, c1)" "ends_with (f x c1) = (r, c')"
  using assms by (cases m; cases "fst m") (auto simp: ebind_def ends_with_def)

subsection \<open>A request is submitted once\<close>

abbreviation stored_job :: "string \<Rightarrow> ('w, 'p) tick_context \<Rightarrow> nat option" where
  "stored_job key c \<equiv> stored_job_id (bb_lookup key (in_bb (cx_inst c)))"

lemma request_with_stored_job:
  assumes "parse_vla_request_options n args = Ret op" "stored_job (ro_job_key op) c \<noteq> None"
  shows "execute_vla_request (Some ops) n args c = (Ret Running, snd (cx_bb_get (ro_job_key op) c))"
  using assms by (simp add: execute_vla_request_def step_outcome_def ebind_def ends_with_def split_beta)

text \<open>The service hands out positive job ids that fit the blackboard's integers.\<close>

definition positive_ids :: "'w vla_ops \<Rightarrow> bool" where
  "positive_ids ops \<longleftrightarrow> (\<forall>req w i w'. vla_submit ops req w = (Inr i, w') \<longrightarrow> 0 < i \<and> i < 2 ^ 63)"

lemma stored_job_put:
  assumes "0 < i" "i < 2 ^ 63"
  shows "stored_job key (cx_bb_put key (BB_int (word_of_nat i)) writer c) = Some i"
proof -
  have "sint (word_of_nat i :: i64) = int i" using assms by (intro sint_of_small)
  moreover have "unat (word_of_nat i :: i64) = i" using assms by (simp add: unat_of_nat)
  ultimately show ?thesis using assms by (simp add: cx_bb_put_bb bb_store_def bb_lookup_def stored_job_id_def)
qed

lemma submit_stores_job:
  assumes "positive_ids ops" "ends_with (submit_vla_request ops n op req c) = (Ret Running, c1)"
  shows "stored_job (ro_job_key op) c1 \<noteq> None"
proof -
  obtain allowed c0 where gate: "budget_allows_decision_point (nd_id n) ''vla_submit'' c = (allowed, c0)" by fastforce
  obtain r w where sub: "vla_submit ops req (cx_world c0) = (r, w)" by fastforce
  show ?thesis
  proof (cases r)
    case (Inr i)
    then have "0 < i" "i < 2 ^ 63" using assms(1) sub by (auto simp: positive_ids_def)
    then show ?thesis
      using assms(2) Inr by (auto simp: submit_vla_request_def gate sub ends_with_def Let_def stored_job_put split: if_splits)
  qed (use assms(2) in \<open>auto simp: submit_vla_request_def gate sub ends_with_def Let_def split: if_splits\<close>)
qed

lemma request_running_stores_job:
  assumes "positive_ids ops" "parse_vla_request_options n args = Ret op"
    and run: "execute_vla_request (Some ops) n args c = (Ret Running, c1)"
  shows "stored_job (ro_job_key op) c1 \<noteq> None"
proof (cases "stored_job (ro_job_key op) c = None")
  case False
  with run request_with_stored_job [OF assms(2) this, of ops] show ?thesis by auto
next
  case True
  then have "ends_with (ebind (build_vla_request op (snd (cx_bb_get (ro_job_key op) c))) (submit_vla_request ops n op)) = (Ret Running, c1)"
    using run assms(2) by (simp add: execute_vla_request_def step_outcome_def ebind_def ends_with_def split_beta)
  then show ?thesis
  proof (cases rule: ends_ebind)
    case early
    then show ?thesis using build_vla_request_reads_only [of "snd (cx_bb_get (ro_job_key op) c)" op] by (simp add: reads_only_def)
  next
    case (later x c0)
    then show ?thesis using submit_stores_job [OF assms(1)] by blast
  qed
qed

text \<open>
  A \<open>vla-request\<close> leaf that answered running does not submit again: ticked once more, with its job
  still stored on the blackboard, it answers running and calls no service.
\<close>

theorem vla_request_once:
  assumes "positive_ids ops" "parse_vla_request_options n args = Ret op"
    and "execute_vla_request (Some ops) n args c = (Ret Running, c1)"
  shows "\<exists>c2. execute_vla_request (Some ops) n args c1 = (Ret Running, c2) \<and>
    cx_world c2 = cx_world c1 \<and> cx_vla_submits c2 = cx_vla_submits c1 \<and> cx_inst c2 = cx_inst c1"
  using request_with_stored_job [OF assms(2) request_running_stores_job [OF assms]] by simp

subsection \<open>The budget gates the services\<close>

text \<open>The clock shows that less than the threshold of 0.25 ms is left of the tick budget.\<close>

definition out_of_budget :: "('w, 'p) tick_context \<Rightarrow> bool" where
  "out_of_budget c \<longleftrightarrow>
     (case tick_budget_ms c of
        None \<Rightarrow> False
      | Some budget \<Rightarrow> \<not> fp_le budget_threshold_ms (fp_sub budget (ms_of_ns (fst (tick_now c) - cx_tick_started_at c))))"

lemma budget_blocks: "fst (budget_allows_decision_point i dp c) \<longleftrightarrow> \<not> out_of_budget c"
  by (simp add: budget_allows_decision_point_def tick_remaining_ms_def out_of_budget_def split_beta Let_def split: option.split)

text \<open>
  With less than a quarter of a millisecond of the tick budget left, no service is called: the
  planner leaf and the request leaf fail, a waiting leaf stays running, and the world outside the
  tree is unchanged. Otherwise the calls go through.
\<close>

theorem budget_gates_services:
  "(if out_of_budget c
    then fst (call_planner pops n pop rq c) = Inl (Ret Failure) \<and> cx_world (snd (call_planner pops n pop rq c)) = cx_world c \<and>
      fst (submit_vla_request vops n rop req c) = Inl (Ret Failure) \<and> cx_world (snd (submit_vla_request vops n rop req c)) = cx_world c
    else cx_world (snd (call_planner pops n pop rq c)) = snd (planner_plan pops rq (cx_world c)) \<and>
      cx_world (snd (submit_vla_request vops n rop req c)) = snd (vla_submit vops req (cx_world c)))"
proof -
  have gate: "fst (budget_allows_decision_point (nd_id n) dp c) = (\<not> out_of_budget c)" for dp by (rule budget_blocks)
  have ends: "cx_world (emit_planner_call_end started data x) = cx_world x" for started data and x :: "('a, 'b) tick_context"
    by (simp add: emit_planner_call_end_def split_beta Let_def)
  have "cx_world (snd (finish_plan n pop rq r x)) = cx_world x" for r and x :: "('a, 'b) tick_context"
    by (simp add: finish_plan_def plan_error_def Let_def)
  with ends have "\<not> out_of_budget c \<Longrightarrow> cx_world (snd (call_planner pops n pop rq c)) = snd (planner_plan pops rq (cx_world c))"
    by (auto simp: call_planner_def gate split_beta Let_def plan_error_def split: sum.split exn.split)
  moreover have "\<not> out_of_budget c \<Longrightarrow> cx_world (snd (submit_vla_request vops n rop req c)) = snd (vla_submit vops req (cx_world c))"
    by (simp add: submit_vla_request_def gate split_beta Let_def split: sum.split)
  ultimately show ?thesis
    by (simp add: call_planner_def submit_vla_request_def gate split_beta Let_def)
qed

subsection \<open>Only vouched-for, finite actions are committed\<close>

definition bb_value_at :: "string \<Rightarrow> ('w, 'p) tick_context \<Rightarrow> bb_value option" where
  "bb_value_at key c = map_option be_value (bb_lookup key (in_bb (cx_inst c)))"

lemma bb_value_at_put [simp]: "bb_value_at k (cx_bb_put key v writer c) = (if k = key then Some v else bb_value_at k c)"
  by (simp add: bb_value_at_def cx_bb_put_lookup)

lemma bb_value_at_frame [simp]:
  "bb_value_at k (emit_log level category message c) = bb_value_at k c" "bb_value_at k (emit_trace ev c) = bb_value_at k c"
  "bb_value_at k (emit_event_data type data c) = bb_value_at k c"
  "bb_value_at k (emit_outcome_event type source node job reason c) = bb_value_at k c"
  "bb_value_at k (erase_active_job i c) = bb_value_at k c"
  by (simp_all add: bb_value_at_def erase_active_job_def)

lemma finish_plan_success:
  assumes "ends_with (finish_plan n op rq r c) = (Ret Success, c')"
  shows "pl_status r = PS_ok \<and> pa_u (pl_action r) \<noteq> [] \<and> list_all fp_is_finite (pa_u (pl_action r)) \<and>
    (po_meta_key op \<noteq> po_action_key op \<longrightarrow> bb_value_at (po_action_key op) c' = Some (planner_action_to_blackboard (pl_action r)))"
  using assms by (auto simp: finish_plan_def plan_error_def ends_with_def Let_def split: if_splits)

lemma plan_vector_frame [simp]:
  "cx_inst (snd (plan_vector_key key loc name dflt c)) = cx_inst c"
  "cx_world (snd (plan_vector_key key loc name dflt c)) = cx_world c"
  "cx_vla_submits (snd (plan_vector_key key loc name dflt c)) = cx_vla_submits c"
  "cx_planner_calls (snd (plan_vector_key key loc name dflt c)) = cx_planner_calls c"
  by (simp_all add: plan_vector_key_def split_beta Let_def split: option.split sum.split)

lemma reads_only_shift:
  "reads_only c' m \<Longrightarrow> cx_inst c' = cx_inst c \<Longrightarrow> cx_world c' = cx_world c \<Longrightarrow> cx_vla_submits c' = cx_vla_submits c \<Longrightarrow>
     cx_planner_calls c' = cx_planner_calls c \<Longrightarrow> reads_only c m"
  by (simp add: reads_only_def)

lemma build_plan_request_reads_only: "reads_only c (build_plan_request ops n op c)"
proof -
  have "reads_only x (plan_seed ops op x)" for x :: "('a, 'b) tick_context"
    by (simp add: plan_seed_def Let_def split_beta reads_only_ebind split: option.split)
  then have seed: "reads_only y (plan_seed ops op x)"
    if "cx_inst x = cx_inst y" "cx_world x = cx_world y" "cx_vla_submits x = cx_vla_submits y" "cx_planner_calls x = cx_planner_calls y"
    for x y :: "('a, 'b) tick_context"
    using that reads_only_shift by blast
  have "reads_only c (plan_state n op c)"
    by (simp add: plan_state_def split_beta Let_def split: option.split sum.split)
  then show ?thesis
    unfolding build_plan_request_def Let_def split_beta
    by (intro reads_only_ebind) (auto intro!: reads_only_ebind seed)
qed

lemma call_planner_success:
  assumes "ends_with (call_planner ops n op rq c) = (Ret Success, c')"
  obtains r w w' where "planner_plan ops rq w = (Inr r, w')" "pl_status r = PS_ok" "pa_u (pl_action r) \<noteq> []"
    "list_all fp_is_finite (pa_u (pl_action r))"
    "po_meta_key op \<noteq> po_action_key op \<longrightarrow> bb_value_at (po_action_key op) c' = Some (planner_action_to_blackboard (pl_action r))"
proof -
  obtain out w' where plan: "planner_plan ops rq (cx_world c) = (out, w')" by fastforce
  show thesis
  proof (cases out)
    case (Inr r)
    then have "\<exists>x. call_planner ops n op rq c = finish_plan n op rq r x \<or> call_planner ops n op rq c = (Inl (Ret Failure), x)"
      using plan by (auto simp: call_planner_def split_beta Let_def)
    then obtain x where "ends_with (finish_plan n op rq r x) = (Ret Success, c')"
      using assms by (auto simp: ends_with_def)
    from finish_plan_success [OF this] show thesis using that plan Inr by blast
  next
    case (Inl e)
    then show thesis
      using assms plan by (cases e) (auto simp: call_planner_def ends_with_def split_beta Let_def plan_error_def split: if_splits)
  qed
qed

text \<open>
  C29. A planner leaf succeeds only with a plan: the planner was called and reported success with a
  nonempty, finite action, and that action is what the blackboard holds under the action key (unless
  the metadata is written under the same key).
\<close>

theorem plan_success_commits:
  assumes "execute_plan_action (Some ops) n args c = (Ret Success, c')"
  shows "\<exists>op rq r w w'. parse_options ''plan-action'' set_plan_option args (plan_options_default n c) = Ret op \<and>
    planner_plan ops rq w = (Inr r, w') \<and> pl_status r = PS_ok \<and> pa_u (pl_action r) \<noteq> [] \<and>
    list_all fp_is_finite (pa_u (pl_action r)) \<and>
    (po_meta_key op \<noteq> po_action_key op \<longrightarrow> bb_value_at (po_action_key op) c' = Some (planner_action_to_blackboard (pl_action r)))"
proof -
  obtain op where op: "parse_options ''plan-action'' set_plan_option args (plan_options_default n c) = Ret op"
    "ends_with (ebind (build_plan_request ops n op c) (call_planner ops n op)) = (Ret Success, c')"
    using assms by (cases "parse_options ''plan-action'' set_plan_option args (plan_options_default n c)")
      (auto simp: execute_plan_action_def step_outcome_def ebind_def ends_with_def)
  from op(2) show ?thesis
  proof (cases rule: ends_ebind)
    case early
    then show ?thesis using build_plan_request_reads_only [of c ops n op] by (simp add: reads_only_def)
  next
    case (later rq c0)
    then show ?thesis using op(1) by (elim call_planner_success) blast
  qed
qed

lemma finish_wait_value:
  "wo_job_key op \<noteq> k \<Longrightarrow> bb_value_at k (finish_wait_job n op c) = bb_value_at k c"
  by (auto simp: finish_wait_job_def clear_job_key_if_present_def split_beta Let_def) (simp_all add: bb_value_at_def)

lemma call_vla_cancel_value [simp]: "bb_value_at k (snd (call_vla_cancel ops i c)) = bb_value_at k c"
  by (simp add: call_vla_cancel_def split_beta bb_value_at_def)

lemma commits_value:
  assumes "wo_job_key op \<noteq> wo_action_key op"
  shows "bb_value_at (wo_action_key op) (commit_early ops n op i a x c) = Some (vla_action_to_blackboard a)"
    and "bb_value_at (wo_action_key op) (commit_final n op i a c) = Some (vla_action_to_blackboard a)"
  using assms by (simp_all add: commit_early_def commit_final_def Let_def finish_wait_value split_beta)

definition committed_action :: "vla_wait_options \<Rightarrow> vla_poll \<Rightarrow> vla_action \<Rightarrow> bool" where
  "committed_action op p a \<longleftrightarrow> (\<exists>confidence. early_action op p = Some (a, confidence)) \<or> final_action p = Some a"

lemma committed_finite: "committed_action op p a \<Longrightarrow> action_is_finite a"
  by (auto simp: committed_action_def early_action_def final_action_def split: if_splits option.splits)

lemma poll_success:
  assumes "ends_with (poll_vla_job ops n op i c) = (Ret Success, c')"
  shows "\<exists>p w w' a. vla_poll_job ops i w = (Inr p, w') \<and> committed_action op p a \<and>
    (wo_job_key op \<noteq> wo_action_key op \<longrightarrow> bb_value_at (wo_action_key op) c' = Some (vla_action_to_blackboard a))"
proof -
  obtain r w' where poll: "vla_poll_job ops i (cx_world c) = (r, w')" by fastforce
  then obtain p where p: "r = Inr p" using assms by (cases r) (auto simp: poll_vla_job_def ends_with_def)
  have "\<exists>a. committed_action op p a \<and>
    (wo_job_key op \<noteq> wo_action_key op \<longrightarrow> bb_value_at (wo_action_key op) c' = Some (vla_action_to_blackboard a))"
  proof (cases "early_action op p")
    case (Some ax)
    obtain a x where ax: "ax = (a, x)" by fastforce
    have "committed_action op p a" using Some ax by (simp add: committed_action_def)
    moreover have "\<exists>y. c' = commit_early ops n op i a x y"
      using assms poll p Some ax by (auto simp: poll_vla_job_def ends_with_def Let_def)
    ultimately show ?thesis using commits_value(1) by blast
  next
    case None
    then obtain a where a: "final_action p = Some a"
      using assms poll p by (cases "final_action p") (auto simp: poll_vla_job_def ends_with_def Let_def split: if_splits)
    then have "committed_action op p a" by (simp add: committed_action_def)
    moreover have "\<exists>y. c' = commit_final n op i a y"
      using assms poll p None a by (auto simp: poll_vla_job_def ends_with_def Let_def split: if_splits)
    ultimately show ?thesis using commits_value(2) by blast
  qed
  then show ?thesis using poll p by blast
qed

text \<open>
  C28. A waiting leaf succeeds only with an action of its own job: the job id comes from the
  blackboard, the service was polled for it, and the action it reported, either the final action of a
  job that is done or a partial one above the early-commit confidence, is finite and is what the
  blackboard holds under the action key.
\<close>

theorem vla_wait_commits:
  assumes "execute_vla_wait (Some ops) n args c = (Ret Success, c')" "parse_vla_wait_options n args = Ret op"
    and "wo_job_key op \<noteq> wo_action_key op"
  shows "\<exists>i p w w' a. stored_job (wo_job_key op) c = Some i \<and> vla_poll_job ops i w = (Inr p, w') \<and>
    committed_action op p a \<and> action_is_finite a \<and> bb_value_at (wo_action_key op) c' = Some (vla_action_to_blackboard a)"
proof -
  obtain i where i: "stored_job (wo_job_key op) c = Some i"
    using assms(1,2) by (cases "stored_job (wo_job_key op) c")
      (auto simp: execute_vla_wait_def step_outcome_def ebind_def ends_with_def split_beta Let_def vla_fail_def split: if_splits)
  then have "\<exists>x. ends_with (poll_vla_job ops n op i x) = (Ret Success, c')"
    using assms(1,2) by (auto simp: execute_vla_wait_def step_outcome_def ebind_def split_beta Let_def stored_job_id_def
        split: if_splits) (auto simp: ends_with_def)
  then show ?thesis using i assms(3) poll_success committed_finite by blast
qed

subsection \<open>Registered jobs\<close>

definition active_job :: "node_id \<Rightarrow> ('w, 'p) tick_context \<Rightarrow> nat option" where
  "active_job m c = map_of (in_active_vla_jobs (cx_inst c)) m"

lemma active_job_frame [simp]:
  "active_job m (cx_bb_put key v writer c) = active_job m c"
  "active_job m (emit_log level category message c) = active_job m c"
  "active_job m (emit_event_data type data c) = active_job m c"
  "active_job m (emit_outcome_event type source node job reason c) = active_job m c"
  "active_job m (snd (cx_bb_get key c)) = active_job m c"
  "active_job m (snd (budget_allows_decision_point j dp c)) = active_job m c"
  "active_job m (snd (call_vla_cancel ops i c)) = active_job m c"
  "active_job m (c\<lparr>cx_world := w\<rparr>) = active_job m c" "active_job m (c\<lparr>cx_vla_polls := x\<rparr>) = active_job m c"
  "active_job m (erase_active_job n c) = (if m = n then None else active_job m c)"
  by (simp_all add: active_job_def erase_active_job_def call_vla_cancel_def split_beta)

lemma finish_wait_active [simp]: "m \<noteq> nd_id n \<Longrightarrow> active_job m (finish_wait_job n op c) = active_job m c"
  by (simp add: finish_wait_job_def clear_job_key_if_present_def split_beta Let_def)

text \<open>
  Jobs are registered under the requesting node, but a waiting or cancelling leaf only removes
  the registration under its own node: after the job was committed or cancelled by another leaf, it is
  still registered, so an overrun cancels it again and the tick audit counts it as active.
\<close>

theorem registration_survives:
  assumes "m \<noteq> nd_id n"
  shows "active_job m (snd (execute_vla_wait svc n args c)) = active_job m c \<and>
    active_job m (snd (execute_vla_cancel svc n args c)) = active_job m c"
proof -
  have "active_job m (snd (poll_vla_job ops n op i x)) = active_job m x" for ops op i and x :: "('a, 'b) tick_context"
    using assms by (simp add: poll_vla_job_def commit_early_def commit_final_def fail_wait_def split_beta Let_def split: sum.split option.split)
  then have "active_job m (snd (execute_vla_wait svc n args c)) = active_job m c"
    using assms by (auto simp: execute_vla_wait_def step_outcome_def ebind_def ends_with_def vla_fail_def split_beta Let_def
        split: option.split outcome.split sum.split)
  moreover have "active_job m (snd (execute_vla_cancel svc n args c)) = active_job m c"
    using assms by (auto simp: execute_vla_cancel_def step_outcome_def ebind_def ends_with_def clear_job_key_if_present_def split_beta Let_def
        split: option.split outcome.split sum.split)
  ultimately show ?thesis ..
qed

subsection \<open>Examples\<close>

definition service_context :: "(string \<times> bb_value) list \<Rightarrow> (nat list, unit) tick_context" where
  "service_context entries = new_context
     ((instance_new None)\<lparr>in_trace_enabled := False, in_bb := fold (\<lambda>(k, v). bb_store k v 0 0 0 []) entries []\<rparr>)
     sample_obs [] 0 None 0"

definition done_poll :: vla_poll where
  "done_poll = \<lparr>vpl_status = VJ_done, vpl_partial = None, vpl_final = Some
     \<lparr>vs_status = VS_ok, vs_action = Vla_action VA_continuous [fp_one] [] [], vs_confidence = fp_one, vs_explanation = [],
      vs_model = \<lparr>vm_name = [], vm_version = []\<rparr>\<rparr>\<rparr>"

definition prompt_vla :: "nat list vla_ops" where
  "prompt_vla = recording_vla\<lparr>vla_poll_job := (\<lambda>i w. (Inr done_poll, w @ [i]))\<rparr>"

lemma prompt_vla_sel [simp]:
  "vla_submit prompt_vla = (\<lambda>r w. (Inr 1, w))" "vla_poll_job prompt_vla = (\<lambda>i w. (Inr done_poll, w @ [i]))"
  by (simp_all add: prompt_vla_def recording_vla_def)

lemma unit_bounds: "fp_is_finite fp_one" "fp_is_finite (fp_uminus fp_one)" "\<not> fp_less fp_one (fp_uminus fp_one)"
  by code_simp+

lemma request_sample:
  "fst (execute_vla_request (Some prompt_vla) (sample_node K_vla_request 3 [] ''see'') []
     (service_context [(''state'', BB_float fp_one), (''instruction'', BB_string ''go'')])) = Ret Running"
  by (simp add: execute_vla_request_def parse_vla_request_options_def step_outcome_def ebind_def ends_with_def split_beta
      service_context_def new_context_def instance_new_def bb_store_def bb_lookup_def vla_request_options_default_def
      vla_default_node_name_def stored_job_id_def build_vla_request_def request_state_def state_from_blackboard_def
      request_instruction_def request_task_id_def request_limits_def request_dims_def unit_bounds request_forbidden_def
      request_image_def request_blob_def request_seed_def submit_vla_request_def budget_blocks out_of_budget_def tick_budget_ms_def
      tree_profile_stats_default_def Let_def)

theorem vla_request_once_witness:
  "\<exists>c1 c2. execute_vla_request (Some prompt_vla) (sample_node K_vla_request 3 [] ''see'') []
       (service_context [(''state'', BB_float fp_one), (''instruction'', BB_string ''go'')]) = (Ret Running, c1) \<and>
     execute_vla_request (Some prompt_vla) (sample_node K_vla_request 3 [] ''see'') [] c1 = (Ret Running, c2) \<and>
     cx_vla_submits c2 = cx_vla_submits c1"
proof -
  obtain c1 where run: "execute_vla_request (Some prompt_vla) (sample_node K_vla_request 3 [] ''see'') []
     (service_context [(''state'', BB_float fp_one), (''instruction'', BB_string ''go'')]) = (Ret Running, c1)"
    using request_sample by (metis prod.collapse)
  have "positive_ids prompt_vla" by (simp add: positive_ids_def)
  from vla_request_once [OF this _ run] run show ?thesis by (auto simp: parse_vla_request_options_def)
qed

lemma wait_sample:
  "fst (execute_vla_wait (Some prompt_vla) (sample_node K_vla_wait 4 [] ''see'') [] (service_context [(''see.job_id'', BB_int 7)])) = Ret Success"
  by (simp add: execute_vla_wait_def parse_vla_wait_options_def step_outcome_def ebind_def ends_with_def split_beta
      service_context_def new_context_def instance_new_def bb_store_def bb_lookup_def vla_wait_options_default_def
      vla_default_node_name_def stored_job_id_def budget_blocks out_of_budget_def tick_budget_ms_def
      tree_profile_stats_default_def Let_def poll_vla_job_def done_poll_def early_action_def job_in_flight_def final_action_def
      action_is_finite.simps unit_bounds)

theorem vla_wait_commits_witness:
  "\<exists>c'. execute_vla_wait (Some prompt_vla) (sample_node K_vla_wait 4 [] ''see'') [] (service_context [(''see.job_id'', BB_int 7)]) = (Ret Success, c') \<and>
     (\<exists>a. action_is_finite a \<and> bb_value_at ''action'' c' = Some (vla_action_to_blackboard a))"
proof -
  obtain c1 where run: "execute_vla_wait (Some prompt_vla) (sample_node K_vla_wait 4 [] ''see'') [] (service_context [(''see.job_id'', BB_int 7)]) = (Ret Success, c1)"
    using wait_sample by (metis prod.collapse)
  have op: "parse_vla_wait_options (sample_node K_vla_wait 4 [] ''see'') [] = Ret (vla_wait_options_default (sample_node K_vla_wait 4 [] ''see''))"
    by (simp add: parse_vla_wait_options_def)
  have keys: "wo_action_key (vla_wait_options_default n) = ''action''" for n by (simp add: vla_wait_options_default_def)
  have "wo_job_key (vla_wait_options_default (sample_node K_vla_wait 4 [] ''see'')) \<noteq> ''action''"
    by (simp add: vla_wait_options_default_def vla_default_node_name_def)
  from vla_wait_commits [OF run op] this run show ?thesis unfolding keys by blast
qed

definition registered_context :: "(nat list, unit) tick_context" where
  "registered_context =
     (let c = service_context [(''see.job_id'', BB_int 7)]
      in c\<lparr>cx_inst := (cx_inst c)\<lparr>in_active_vla_jobs := [(3, 7)]\<rparr>\<rparr>)"

theorem registration_survives_witness:
  "active_job 3 (snd (execute_vla_wait (Some prompt_vla) (sample_node K_vla_wait 4 [] ''see'') [] registered_context)) = Some 7"
  using registration_survives [of 3 "sample_node K_vla_wait 4 [] ''see''" "Some prompt_vla" "[]" registered_context]
  by (simp add: active_job_def registered_context_def Let_def)

definition unit_plan :: planner_result where
  "unit_plan = \<lparr>pl_planner = PB_mcts, pl_status = PS_ok, pl_action = \<lparr>pa_action_schema = [], pa_u = [fp_one]\<rparr>, pl_confidence = fp_one,
     pl_stats = \<lparr>pst_budget_ms = 10, pst_time_used_ms = 1, pst_work_done = 1, pst_overrun = False, pst_note = []\<rparr>,
     pl_mcts = \<lparr>ptm_available = False, ptm_root_visits = 0, ptm_root_children = 0, ptm_widen_added = 0, ptm_top_k = []\<rparr>,
     pl_mppi = \<lparr>ptp_available = False, ptp_n_samples = 0, ptp_horizon = 0, ptp_top_k = []\<rparr>,
     pl_ilqr = \<lparr>pti_available = False, pti_iters = 0, pti_cost_init = 0, pti_cost_final = 0, pti_reg_final = 0\<rparr>, pl_error = []\<rparr>"

definition unit_planner :: "nat list planner_ops" where
  "unit_planner = \<lparr>planner_plan = (\<lambda>rq w. (Inr unit_plan, w)), planner_derive_seed = (\<lambda>_ _ _. 1)\<rparr>"

lemma plan_sample:
  "fst (execute_plan_action (Some unit_planner) (sample_node K_plan_action 5 [] ''plan'') [] (service_context [(''state'', BB_float fp_one)])) =
     Ret Success"
  by (simp add: execute_plan_action_def plan_options_default_def step_outcome_def ebind_def ends_with_def split_beta
      service_context_def new_context_def instance_new_def bb_store_def bb_lookup_def build_plan_request_def plan_state_def
      state_from_blackboard_def plan_vector_key_def plan_seed_def call_planner_def budget_blocks out_of_budget_def tick_budget_ms_def
      tree_profile_stats_default_def Let_def unit_planner_def finish_plan_def unit_plan_def unit_bounds)

theorem plan_success_commits_witness:
  "\<exists>c'. execute_plan_action (Some unit_planner) (sample_node K_plan_action 5 [] ''plan'') [] (service_context [(''state'', BB_float fp_one)]) =
      (Ret Success, c') \<and> bb_value_at ''action'' c' = Some (planner_action_to_blackboard (pl_action unit_plan))"
proof -
  obtain c1 where run: "execute_plan_action (Some unit_planner) (sample_node K_plan_action 5 [] ''plan'') [] (service_context [(''state'', BB_float fp_one)]) = (Ret Success, c1)"
    using plan_sample by (metis prod.collapse)
  from plan_success_commits [OF run] run show ?thesis
    by (auto simp: plan_options_default_def unit_planner_def)
qed

end
