(* ===== verification/Vla_Checks.thy ===== *)
theory Vla_Checks
  imports Vla_Node "HOL-Library.List_Lexorder" "HOL-Library.Char_ord"
begin

text \<open>
  The stateless part of the VLA service, \<open>src/bt/vla.cpp\<close>: what a request must look like, how an action is
  checked and clamped before it is released, the request hash, the JSON text of responses and
  records, the capability registry, and the two built-in backends.

  \<open>std::unordered_map\<close> leaves its order of iteration open. Where the code depends on it, the order is an
  argument: \<open>host_choices\<close> says in which order the statistics of a response are printed and which
  entry of the cache comes first.
\<close>

record host_choices =
  hc_stats_order :: "(string, double) alist \<Rightarrow> (string, double) alist"
  hc_cache_begin :: "u64 list \<Rightarrow> nat"

subsection \<open>Responses and statuses\<close>

text \<open>A response with the members that only the service and its log use.\<close>

record service_response = vla_response +
  vs_stats :: "(string, double) alist"
  vs_request_hashes :: "string list"
  vs_response_hashes :: "string list"
  vs_frame_refs :: "string list"
  vs_replay_cache_hit :: bool

definition empty_action :: vla_action where
  "empty_action = Vla_action VA_continuous [] [] []"

definition default_model :: vla_model_info where
  "default_model = \<lparr>vm_name = ''rt2-stub'', vm_version = ''stub-1''\<rparr>"

definition service_response_default :: service_response where
  "service_response_default = \<lparr>vs_status = VS_error, vs_action = empty_action, vs_confidence = 0, vs_explanation = [],
     vs_model = default_model, vs_stats = [], vs_request_hashes = [], vs_response_hashes = [], vs_frame_refs = [],
     vs_replay_cache_hit = False\<rparr>"

text \<open>The responses the service makes itself: a status, the request's model and an explanation.\<close>

definition status_response :: "vla_status \<Rightarrow> vla_request \<Rightarrow> string \<Rightarrow> service_response" where
  "status_response st req why = service_response_default\<lparr>vs_status := st, vs_model := vr_model req, vs_explanation := why\<rparr>"

definition is_terminal :: "vla_job_status \<Rightarrow> bool" where
  "is_terminal st \<longleftrightarrow> st = VJ_done \<or> st = VJ_error \<or> st = VJ_timeout \<or> st = VJ_cancelled"

definition is_scheduler_terminal :: "job_status \<Rightarrow> bool" where
  "is_scheduler_terminal st \<longleftrightarrow> st = J_done \<or> st = J_failed \<or> st = J_cancelled \<or> st = J_unknown"

fun to_job_status :: "vla_status \<Rightarrow> vla_job_status" where
  "to_job_status VS_ok = VJ_done"
| "to_job_status VS_timeout = VJ_timeout"
| "to_job_status VS_error = VJ_error"
| "to_job_status VS_invalid = VJ_error"
| "to_job_status VS_cancelled = VJ_cancelled"

text \<open>\<open>elapsed_ms\<close>: whole microseconds, divided by \<open>1000.0\<close>.\<close>

definition fp_thousand :: double where
  "fp_thousand = 0x408F400000000000"

definition ns_to_us :: "time_ns \<Rightarrow> int" where
  "ns_to_us t = (if t \<ge> 0 then t div 1000 else - ((- t) div 1000))"

definition elapsed_ms :: "time_ns \<Rightarrow> time_ns \<Rightarrow> double" where
  "elapsed_ms start fin = fp_div (fp_of_int (ns_to_us (fin - start))) fp_thousand"

subsection \<open>Checking requests and actions\<close>

definition bad_bound :: "double \<times> double \<Rightarrow> bool" where
  "bad_bound b = (case b of (lo, hi) \<Rightarrow> \<not> fp_is_finite lo \<or> \<not> fp_is_finite hi \<or> fp_less hi lo)"

definition validate_request_shape :: "vla_request \<Rightarrow> string option" where
  "validate_request_shape req =
     (if vr_task_id req = [] then Some ''request.task_id is required''
      else if vr_instruction req = [] then Some ''request.instruction is required''
      else if sint (vr_deadline_ms req) \<le> 0 then Some ''request.deadline_ms must be > 0''
      else if vsp_type (vr_action_space req) = [] then Some ''request.action_space.type is required''
      else if vsp_dims (vr_action_space req) \<le> 0 then Some ''request.action_space.dims must be > 0''
      else if int (length (vsp_bounds (vr_action_space req))) \<noteq> vsp_dims (vr_action_space req)
        then Some ''request.action_space.bounds length must match dims''
      else if list_ex bad_bound (vsp_bounds (vr_action_space req))
        then Some ''request.action_space.bounds entries must be finite and ordered''
      else if vm_name (vr_model req) = [] \<or> vm_version (vr_model req) = []
        then Some ''request.model.name and request.model.version are required''
      else None)"

definition fp_copysign :: "double \<Rightarrow> double \<Rightarrow> double" where
  "fp_copysign m s = fp_make (fp_neg s) (fp_mag m)"

definition in_forbidden :: "vla_constraints \<Rightarrow> double \<Rightarrow> bool" where
  "in_forbidden cs v \<longleftrightarrow> list_ex (\<lambda>(lo, hi). fp_le lo v \<and> fp_le v hi) (vcs_forbidden_ranges cs)"

text \<open>
  \<open>validate_and_clamp_action\<close> works in place: its first loop clamps one coordinate after the other and
  stops at the first bad one, so a rejected action keeps what was clamped before. The result is the
  reason of a rejection and the action as it was left.
\<close>

definition clamp_coord :: "vla_constraints \<Rightarrow> double \<times> double \<Rightarrow> double \<Rightarrow> double" where
  "clamp_coord cs b v =
     (let v = fp_clamp v (fst b) (snd b) in
      if fp_less (vcs_max_abs_value cs) (fp_abs v) then fp_copysign (vcs_max_abs_value cs) v else v)"

fun check_coords :: "vla_constraints \<Rightarrow> (double \<times> double) list \<Rightarrow> double list \<Rightarrow> string option \<times> double list" where
  "check_coords cs (b # bs) (v # vs) =
     (if \<not> fp_is_finite v then (Some ''response.action contains non-finite value'', v # vs)
      else if in_forbidden cs (clamp_coord cs b v)
        then (Some ''response.action intersects forbidden range'', clamp_coord cs b v # vs)
      else let (reason, vs) = check_coords cs bs vs in (reason, clamp_coord cs b v # vs))"
| "check_coords cs bs vs = (None, vs)"

definition limit_delta :: "vla_constraints \<Rightarrow> double \<times> double \<Rightarrow> double \<Rightarrow> double \<Rightarrow> double" where
  "limit_delta cs b s v =
     (if fp_less (vcs_max_delta cs) (fp_abs (fp_sub v s))
      then fp_clamp (fp_add s (fp_copysign (vcs_max_delta cs) (fp_sub v s))) (fst b) (snd b)
      else v)"

fun limit_deltas :: "vla_constraints \<Rightarrow> (double \<times> double) list \<Rightarrow> double list \<Rightarrow> double list \<Rightarrow> double list" where
  "limit_deltas cs (b # bs) (s # ss) (v # vs) = limit_delta cs b s v # limit_deltas cs bs ss vs"
| "limit_deltas cs bs ss vs = vs"

fun with_u :: "double list \<Rightarrow> vla_action \<Rightarrow> vla_action" where
  "with_u u (Vla_action t _ d steps) = Vla_action t u d steps"

definition validate_and_clamp_action :: "vla_request \<Rightarrow> vla_action \<Rightarrow> string option \<times> vla_action" where
  "validate_and_clamp_action req a =
     (if va_type a \<noteq> VA_continuous then (None, a)
      else if int (length (va_u a)) \<noteq> vsp_dims (vr_action_space req)
        then (Some ''response.action dimensions do not match action space'', a)
      else case check_coords (vr_constraints req) (vsp_bounds (vr_action_space req)) (va_u a) of
             (Some reason, u) \<Rightarrow> (Some reason, with_u u a)
           | (None, u) \<Rightarrow>
               (None, with_u (limit_deltas (vr_constraints req) (vsp_bounds (vr_action_space req))
                  (vo_state (vr_observation req)) u) a))"

subsection \<open>Hash and text\<close>

definition hash64 :: "string \<Rightarrow> u64" where
  "hash64 text = fnv1a_64 text"

definition request_text :: "vla_request \<Rightarrow> string" where
  "request_text req =
     (let ob = vr_observation req; sp = vr_action_space req; nl = [newline] in
      vr_capability req @ nl @ vr_task_id req @ nl @ vr_instruction req @ nl @
      int_str (vo_timestamp_ms ob) @ nl @ vo_frame_id ob @ nl @
      (case vo_image ob of None \<Rightarrow> [] | Some i \<Rightarrow> ''img:'' @ i64_str i @ nl) @
      (case vo_blob ob of None \<Rightarrow> [] | Some i \<Rightarrow> ''blob:'' @ i64_str i @ nl) @
      ''state:'' @ concat (map (\<lambda>v. fp_str v @ '','') (vo_state ob)) @ nl @
      ''dims:'' @ int_str (vsp_dims sp) @ nl @
      concat (map (\<lambda>(lo, hi). fp_str lo @ '':'' @ fp_str hi @ '';'') (vsp_bounds sp)) @ nl @
      ''model:'' @ vm_name (vr_model req) @ '':'' @ vm_version (vr_model req) @ nl @
      ''deadline:'' @ i64_str (vr_deadline_ms req) @ nl @
      ''max_abs:'' @ fp_str (vcs_max_abs_value (vr_constraints req)) @
      '' max_delta:'' @ fp_str (vcs_max_delta (vr_constraints req)) @ nl)"

definition hash_request :: "vla_request \<Rightarrow> u64" where
  "hash_request req = hash64 (request_text req)"

definition make_owner_key :: "vla_request \<Rightarrow> string" where
  "make_owner_key req = vr_run_id req @ ''::'' @ vr_node_name req"

definition action_to_json :: "vla_action \<Rightarrow> string" where
  "action_to_json a = vla_action_to_json a"

definition json_string_array :: "string list \<Rightarrow> string" where
  "json_string_array xs = ''['' @ comma_join (map (\<lambda>x. quoted (json_escape x)) xs) @ '']''"

definition response_to_json_local :: "host_choices \<Rightarrow> service_response \<Rightarrow> string" where
  "response_to_json_local hc r =
     ''{'' @ jkey ''status'' @ quoted (vla_status_name (vs_status r)) @ '','' @
     jkey ''action'' @ action_to_json (vs_action r) @ '','' @
     jkey ''confidence'' @ fp_str (vs_confidence r) @ '','' @
     jkey ''model'' @ ''{'' @ jkey ''name'' @ quoted (json_escape (vm_name (vs_model r))) @ '','' @
     jkey ''version'' @ quoted (json_escape (vm_version (vs_model r))) @ ''}'' @
     (if vs_explanation r \<noteq> [] then '','' @ jkey ''explanation'' @ quoted (json_escape (vs_explanation r)) else []) @
     (if vs_stats r \<noteq> [] then
        '','' @ jkey ''stats'' @ ''{'' @
        comma_join (map (\<lambda>(k, v). jkey (json_escape k) @ fp_str v) (hc_stats_order hc (vs_stats r))) @ ''}''
      else []) @
     (if vs_request_hashes r \<noteq> [] \<or> vs_response_hashes r \<noteq> [] \<or> vs_frame_refs r \<noteq> [] \<or> vs_replay_cache_hit r then
        '','' @ jkey ''model_service'' @ ''{'' @ jkey ''request_hashes'' @ json_string_array (vs_request_hashes r) @ '','' @
        jkey ''response_hashes'' @ json_string_array (vs_response_hashes r) @ '','' @
        jkey ''frame_refs'' @ json_string_array (vs_frame_refs r) @ '','' @
        jkey ''replay_cache_hit'' @ bool_json (vs_replay_cache_hit r) @ ''}''
      else []) @ ''}''"

definition observation_summary :: "vla_request \<Rightarrow> string" where
  "observation_summary req =
     (let ob = vr_observation req in
      ''state_dims='' @ nat_str (length (vo_state ob)) @
      (case vo_image ob of None \<Rightarrow> [] | Some i \<Rightarrow> '' image_id='' @ i64_str i) @
      (case vo_blob ob of None \<Rightarrow> [] | Some i \<Rightarrow> '' blob_id='' @ i64_str i) @
      '' frame_id='' @ vo_frame_id ob @ '' ts_ms='' @ int_str (vo_timestamp_ms ob))"

record vla_record =
  rc_ts_ms :: int
  rc_run_id :: string
  rc_tick_index :: nat
  rc_node_name :: string
  rc_task_id :: string
  rc_capability :: string
  rc_model_name :: string
  rc_model_version :: string
  rc_request_hash :: u64
  rc_observation_summary :: string
  rc_deadline_ms :: i64
  rc_seed :: u64
  rc_status :: string
  rc_latency_ms :: double
  rc_response_json :: string
  rc_request_hashes :: "string list"
  rc_response_hashes :: "string list"
  rc_frame_refs :: "string list"
  rc_replay_cache_hit :: bool
  rc_cache_hit :: bool
  rc_replay_hit :: bool
  rc_superseded :: bool
  rc_completion_dropped :: bool

text \<open>The assignments that every record starts with.\<close>

definition request_record :: "time_ns \<Rightarrow> vla_request \<Rightarrow> string \<Rightarrow> double \<Rightarrow> string \<Rightarrow> vla_record" where
  "request_record now req status latency response_json =
     \<lparr>rc_ts_ms = ns_to_ms now, rc_run_id = vr_run_id req, rc_tick_index = vr_tick_index req,
      rc_node_name = vr_node_name req, rc_task_id = vr_task_id req, rc_capability = vr_capability req,
      rc_model_name = vm_name (vr_model req), rc_model_version = vm_version (vr_model req),
      rc_request_hash = hash_request req, rc_observation_summary = observation_summary req,
      rc_deadline_ms = vr_deadline_ms req, rc_seed = (case vr_seed req of None \<Rightarrow> 0 | Some s \<Rightarrow> s),
      rc_status = status, rc_latency_ms = latency, rc_response_json = response_json,
      rc_request_hashes = [], rc_response_hashes = [], rc_frame_refs = [], rc_replay_cache_hit = False,
      rc_cache_hit = False, rc_replay_hit = False, rc_superseded = False, rc_completion_dropped = False\<rparr>"

definition record_to_json :: "vla_record \<Rightarrow> string" where
  "record_to_json r =
     ''{'' @ jkey ''ts_ms'' @ int_str (rc_ts_ms r) @ '','' @
     jkey ''run_id'' @ quoted (json_escape (rc_run_id r)) @ '','' @
     jkey ''tick_index'' @ nat_str (rc_tick_index r) @ '','' @
     jkey ''node_name'' @ quoted (json_escape (rc_node_name r)) @ '','' @
     jkey ''task_id'' @ quoted (json_escape (rc_task_id r)) @ '','' @
     jkey ''capability'' @ quoted (json_escape (rc_capability r)) @ '','' @
     jkey ''model_name'' @ quoted (json_escape (rc_model_name r)) @ '','' @
     jkey ''model_version'' @ quoted (json_escape (rc_model_version r)) @ '','' @
     jkey ''request_hash'' @ int_str (uint (rc_request_hash r)) @ '','' @
     jkey ''observation'' @ quoted (json_escape (rc_observation_summary r)) @ '','' @
     jkey ''deadline_ms'' @ i64_str (rc_deadline_ms r) @ '','' @
     jkey ''seed'' @ int_str (uint (rc_seed r)) @ '','' @
     jkey ''status'' @ quoted (json_escape (rc_status r)) @ '','' @
     jkey ''latency_ms'' @ fp_str (rc_latency_ms r) @ '','' @
     jkey ''cache_hit'' @ bool_json (rc_cache_hit r) @ '','' @
     jkey ''replay_hit'' @ bool_json (rc_replay_hit r) @ '','' @
     jkey ''superseded'' @ bool_json (rc_superseded r) @ '','' @
     jkey ''completion_dropped'' @ bool_json (rc_completion_dropped r) @ '','' @
     jkey ''model_service'' @ ''{'' @ jkey ''request_hashes'' @ json_string_array (rc_request_hashes r) @ '','' @
     jkey ''response_hashes'' @ json_string_array (rc_response_hashes r) @ '','' @
     jkey ''frame_refs'' @ json_string_array (rc_frame_refs r) @ '','' @
     jkey ''replay_cache_hit'' @ bool_json (rc_replay_cache_hit r) @ ''}'' @ '','' @
     jkey ''response'' @ rc_response_json r @ ''}''"

subsection \<open>Capabilities\<close>

record capability_field =
  cf_name :: string
  cf_type :: string
  cf_required :: bool

record capability_descriptor =
  cd_name :: string
  cd_request_schema :: "capability_field list"
  cd_response_schema :: "capability_field list"
  cd_safety_class :: string
  cd_cost_category :: string

type_synonym capability_registry = "(string, capability_descriptor) alist"

definition register_capability :: "capability_descriptor \<Rightarrow> capability_registry \<Rightarrow> string + capability_registry" where
  "register_capability d caps =
     guard_err (cd_name d = []) ''register_capability: capability name must not be empty''
       (Inr (alist_put (cd_name d) d caps))"

definition capability_list :: "capability_registry \<Rightarrow> string list" where
  "capability_list caps = sort (map fst caps)"

definition capability_describe :: "string \<Rightarrow> capability_registry \<Rightarrow> capability_descriptor option" where
  "capability_describe name caps = map_of caps name"

definition required_field :: "string \<Rightarrow> string \<Rightarrow> capability_field" where
  "required_field name type = \<lparr>cf_name = name, cf_type = type, cf_required = True\<rparr>"

definition vla_rt2_capability :: capability_descriptor where
  "vla_rt2_capability = \<lparr>cd_name = ''vla.rt2'',
     cd_request_schema = [required_field ''task_id'' ''string'', required_field ''instruction'' ''string'',
       required_field ''observation'' ''map'', required_field ''action_space'' ''map'',
       required_field ''constraints'' ''map'', required_field ''deadline_ms'' ''int'', required_field ''model'' ''map''],
     cd_response_schema = [required_field ''status'' ''keyword'', required_field ''action'' ''map'',
       required_field ''confidence'' ''float'', required_field ''model'' ''map'', required_field ''stats'' ''map''],
     cd_safety_class = ''restricted'', cd_cost_category = ''high''\<rparr>"

subsection \<open>The built-in backends\<close>

text \<open>
  What a running backend sees of its surroundings: the cancel flag at each load, the answers of
  \<open>on_partial\<close>, and the readings of the clock.
\<close>

record backend_env =
  en_flag :: "nat \<Rightarrow> bool"
  en_accept :: "nat \<Rightarrow> bool"
  en_clock :: "nat \<Rightarrow> time_ns"

definition make_continuous_action :: "double list \<Rightarrow> vla_action" where
  "make_continuous_action u = Vla_action VA_continuous u [] []"

definition fp_minus_one :: double where
  "fp_minus_one = 0xBFF0000000000000"

text \<open>\<open>rt2_stub_backend\<close>: the coordinate \<open>d\<close> of the action prior; \<open>state[d]\<close> is not checked.\<close>

definition stub_prior :: "nat \<Rightarrow> double list \<Rightarrow> nat \<Rightarrow> double outcome" where
  "stub_prior dims state d =
     (if state = [] then Ret 0
      else if dims = 1 then Ret (fp_clamp (fp_sub fp_one (state ! 0)) fp_minus_one fp_one)
      else if length state \<ge> 4 \<and> d < 2
        then Ret (fp_clamp (state ! (2 + d)) 0xBFD6666666666666 0x3FD6666666666666)
      else if d < length state then Ret (fp_clamp (state ! d) fp_minus_one fp_one)
      else Undef)"

fun stub_priors :: "nat \<Rightarrow> double list \<Rightarrow> nat list \<Rightarrow> double list outcome" where
  "stub_priors dims state [] = Ret []"
| "stub_priors dims state (d # ds) =
     (case stub_prior dims state d of
        Ret v \<Rightarrow> (case stub_priors dims state ds of Ret vs \<Rightarrow> Ret (v # vs) | r \<Rightarrow> r)
      | Throw e \<Rightarrow> Throw e | Undef \<Rightarrow> Undef | Diverge \<Rightarrow> Diverge)"

definition stub_proposal :: "vla_request \<Rightarrow> nat \<Rightarrow> double list \<Rightarrow> double list outcome" where
  "stub_proposal req i proposal =
     (let dims = nat (vsp_dims (vr_action_space req)) in
      if i = 0 then Ret (replicate dims 0)
      else if i = 1 then stub_priors dims (vo_state (vr_observation req)) [0 ..< dims]
      else Ret (map (\<lambda>v. fp_mul v 0x3FECCCCCCCCCCCCD) proposal))"

definition stub_partial :: "nat \<Rightarrow> double list \<Rightarrow> vla_partial" where
  "stub_partial i proposal = \<lparr>vp_sequence = i + 1,
     vp_text_chunk = (if i = 0 then ''encode observation'' else if i = 1 then ''decode action prior''
       else ''finalize structured action''),
     vp_action_candidate = Some (make_continuous_action proposal),
     vp_confidence = (if i = 0 then 0x3FC999999999999A else if i = 1 then 0x3FE199999999999A else 0x3FE8000000000000)\<rparr>"

definition stub_cancelled :: "vla_request \<Rightarrow> double \<Rightarrow> service_response" where
  "stub_cancelled req latency =
     (status_response VS_cancelled req ''cancelled before completion'')\<lparr>vs_stats := [(''latency_ms'', latency)]\<rparr>"

definition stub_timeout :: "vla_request \<Rightarrow> nat \<Rightarrow> double list \<Rightarrow> double \<Rightarrow> service_response" where
  "stub_timeout req i proposal latency =
     (status_response VS_timeout req ''deadline exceeded'')\<lparr>vs_action := make_continuous_action proposal,
        vs_stats := [(''latency_ms'', latency), (''partials'', fp_of_int (int i + 1))]\<rparr>"

definition stub_ok :: "vla_request \<Rightarrow> double list \<Rightarrow> double \<Rightarrow> service_response" where
  "stub_ok req proposal latency =
     (status_response VS_ok req ''rt2-style stub output'')\<lparr>vs_action := make_continuous_action proposal,
        vs_confidence := 0x3FE8000000000000, vs_stats := [(''latency_ms'', latency), (''partials'', fp_of_int 3)]\<rparr>"

text \<open>
  The loop over the three stages. Its result is the partials it emitted, in order, and the response.
  The clock is read once before the loop and once at the end of every stage or on the way out.
\<close>

fun stub_stages ::
  "backend_env \<Rightarrow> vla_request \<Rightarrow> nat list \<Rightarrow> bool \<Rightarrow> double list \<Rightarrow> (vla_partial list \<times> service_response) outcome" where
  "stub_stages env req [] stop proposal = Ret ([], stub_ok req proposal (elapsed_ms (en_clock env 0) (en_clock env 4)))"
| "stub_stages env req (i # rest) stop proposal =
     (let now = elapsed_ms (en_clock env 0) (en_clock env (i + 1)) in
      if stop \<or> en_flag env i then Ret ([], stub_cancelled req now)
      else case stub_proposal req i proposal of
             Ret proposal \<Rightarrow>
               if fp_less (fp_of_int (sint (vr_deadline_ms req))) now
               then Ret ([stub_partial i proposal], stub_timeout req i proposal now)
               else (case stub_stages env req rest (\<not> en_accept env i) proposal of
                       Ret (parts, r) \<Rightarrow> Ret (stub_partial i proposal # parts, r)
                     | r \<Rightarrow> r)
           | Throw e \<Rightarrow> Throw e | Undef \<Rightarrow> Undef | Diverge \<Rightarrow> Diverge)"

definition rt2_stub_infer :: "backend_env \<Rightarrow> vla_request \<Rightarrow> (vla_partial list \<times> service_response) outcome" where
  "rt2_stub_infer env req = stub_stages env req [0, 1, 2] False (replicate (nat (vsp_dims (vr_action_space req))) 0)"

definition replay_infer :: "(u64 \<Rightarrow> service_response option) \<Rightarrow> vla_request \<Rightarrow> service_response" where
  "replay_infer lookup_fn req =
     (case lookup_fn (hash_request req) of
        Some r \<Rightarrow> r
      | None \<Rightarrow> status_response VS_error req ''replay miss'')"

subsection \<open>Facts on doubles\<close>

lemma fp_mag_range [simp]: "0 \<le> fp_mag w" "fp_mag w < 9223372036854775808"
  by (simp_all add: fp_mag_def)

lemma fp_make_parts:
  assumes "0 \<le> m" "m < 9223372036854775808"
  shows "fp_mag (fp_make n m) = m" "fp_neg (fp_make n m) = n"
proof -
  define k where "k = (if n then 2 ^ 63 else 0) + m"
  have "0 \<le> k" "k < 2 ^ 64" using assms by (auto simp: k_def)
  then have "uint (word_of_int k :: double) = k" by (simp add: uint_word_of_int take_bit_int_eq_self_iff)
  then have "fp_bits (fp_make n m) = k" by (simp only: fp_bits_def fp_make_def k_def)
  with assms show "fp_mag (fp_make n m) = m" "fp_neg (fp_make n m) = n"
    by (auto simp: fp_mag_def fp_neg_def k_def)
qed

lemma fp_copysign_parts [simp]:
  "fp_mag (fp_copysign m s) = fp_mag m" "fp_neg (fp_copysign m s) = fp_neg s"
  by (simp_all add: fp_copysign_def fp_make_parts)

lemma fp_abs_parts [simp]: "fp_mag (fp_abs w) = fp_mag w" "fp_neg (fp_abs w) = False"
  by (simp_all add: fp_abs_def fp_make_parts)

lemma fp_finite_not_nan: "fp_is_finite w \<Longrightarrow> \<not> fp_is_nan w"
  by (simp add: fp_is_finite_def fp_is_nan_def)

lemma fp_key_abs: "\<bar>fp_key w\<bar> = fp_mag w"
  by (simp add: fp_key_def)

lemma fp_finite_key: "fp_is_finite w \<longleftrightarrow> \<bar>fp_key w\<bar> < fp_inf_mag"
  by (simp add: fp_is_finite_def fp_key_abs)

text \<open>Between two finite numbers there are only finite numbers.\<close>

lemma fp_between_finite:
  "fp_is_finite lo \<Longrightarrow> fp_is_finite hi \<Longrightarrow> fp_key lo \<le> fp_key v \<Longrightarrow> fp_key v \<le> fp_key hi \<Longrightarrow> fp_is_finite v"
  by (simp add: fp_finite_key)

definition within :: "double \<times> double \<Rightarrow> double \<Rightarrow> bool" where
  "within b v \<longleftrightarrow> fp_is_finite v \<and> fp_le (fst b) v \<and> fp_le v (snd b)"

lemma fp_clamp_within:
  assumes "\<not> bad_bound b" "\<not> fp_is_nan v"
  shows "within b (fp_clamp v (fst b) (snd b))"
proof -
  obtain lo hi where b: "b = (lo, hi)" by fastforce
  have fin: "fp_is_finite lo" "fp_is_finite hi" and ord: "fp_key lo \<le> fp_key hi"
    using assms(1) by (auto simp: b bad_bound_def fp_less_def fp_finite_not_nan)
  with assms(2) fp_between_finite [OF fin, of v] show ?thesis
    by (auto simp: b within_def fp_clamp_def fp_less_def fp_le_def fp_finite_not_nan)
qed

text \<open>Rounding never makes a NaN, so only a NaN or opposite infinities add up to one.\<close>

lemma round_half_even_nonneg: "0 \<le> n \<Longrightarrow> 0 < d \<Longrightarrow> 0 \<le> round_half_even n d"
  by (simp add: round_half_even_def Let_def pos_imp_zdiv_nonneg_iff)

lemma scale2_pos: "0 < n \<Longrightarrow> 0 < scale2 n k"
  by (simp add: scale2_def)

lemma round_mag_range:
  assumes "0 \<le> n" "0 < d"
  shows "0 \<le> round_mag n d" "round_mag n d \<le> fp_inf_mag"
proof -
  have inf: "0 \<le> fp_inf_mag" by (simp add: fp_inf_mag_def)
  have "0 \<le> (q + 1074) * 2 ^ 52 + round_half_even (scale2 n (- q)) (scale2 d q)" if "n \<noteq> 0" "- 1074 \<le> q" for q
    using assms that round_half_even_nonneg [OF order_less_imp_le [OF scale2_pos] scale2_pos, of n d "- q" q] by simp
  with inf show "0 \<le> round_mag n d" "round_mag n d \<le> fp_inf_mag"
    unfolding round_mag_def Let_def by auto
qed

lemma fp_den_pos: "0 < fp_den w"
  by (simp add: fp_den_def Let_def)

lemma fp_round_not_nan: "0 < d \<Longrightarrow> \<not> fp_is_nan (fp_round z i d)"
  using round_mag_range [of "\<bar>i\<bar>" d]
  by (auto simp: fp_round_def fp_is_nan_def fp_make_parts fp_inf_mag_def)

lemma fp_add_not_nan: "\<not> fp_is_nan a \<Longrightarrow> fp_is_finite b \<Longrightarrow> \<not> fp_is_nan (fp_add a b)"
  by (auto simp: fp_add_def fp_finite_not_nan fp_is_inf_def fp_is_finite_def fp_is_nan_def [of a]
      intro!: fp_round_not_nan mult_pos_pos fp_den_pos)

lemma fp_sub_nan: "fp_is_nan s \<Longrightarrow> fp_is_nan (fp_sub v s)"
  by (simp add: fp_sub_def fp_add_def fp_uminus_def fp_is_nan_def fp_make_parts fp_nan_def fp_inf_mag_def)

subsection \<open>What the checks guarantee\<close>

lemma validated_bounds:
  "validate_request_shape req = None \<Longrightarrow>
     int (length (vsp_bounds (vr_action_space req))) = vsp_dims (vr_action_space req) \<and>
     0 < vsp_dims (vr_action_space req) \<and> (\<forall>b \<in> set (vsp_bounds (vr_action_space req)). \<not> bad_bound b)"
  by (auto simp: validate_request_shape_def list_ex_iff split: if_splits)

text \<open>Constraints that say something: the limits are numbers, not negative.\<close>

definition sane_constraints :: "vla_constraints \<Rightarrow> bool" where
  "sane_constraints cs \<longleftrightarrow> fp_le 0 (vcs_max_abs_value cs) \<and> fp_le 0 (vcs_max_delta cs)"

definition spans_zero :: "double \<times> double \<Rightarrow> bool" where
  "spans_zero b \<longleftrightarrow> fp_le (fst b) 0 \<and> fp_le 0 (snd b)"

lemma fp_zero [simp]: "fp_mag 0 = 0" "fp_neg 0 = False" "fp_key 0 = 0"
  by (simp_all add: fp_mag_def fp_neg_def fp_bits_def fp_key_def)

lemma fp_le_zero: "fp_le 0 m \<longleftrightarrow> \<not> fp_is_nan m \<and> fp_key m = fp_mag m"
  by (auto simp: fp_le_def fp_is_nan_def fp_inf_mag_def fp_key_def dest: antisym)

text \<open>\<open>copysign\<close> moves a number towards zero, so it stays in every range around zero.\<close>

lemma fp_key_copysign: "fp_key (fp_copysign m v) = (if fp_neg v then - fp_mag m else fp_mag m)"
  by (simp add: fp_key_def)

lemma copysign_within:
  assumes "within b v" "spans_zero b" "fp_le 0 m" "fp_less m (fp_abs v)"
  shows "within b (fp_copysign m v)"
proof -
  have "fp_mag m < fp_mag v" using assms(3,4) by (simp add: fp_le_zero fp_less_def fp_key_def [of "fp_abs v"])
  moreover have "fp_key v = (if fp_neg v then - fp_mag v else fp_mag v)" by (simp add: fp_key_def)
  ultimately show ?thesis
    using assms(1,2) fp_mag_range(1) [of m] fp_mag_range(1) [of v]
    by (simp del: fp_mag_range add: within_def spans_zero_def fp_le_def fp_is_nan_def fp_is_finite_def fp_key_copysign
        split: if_splits)
qed

lemma clamp_coord_within:
  assumes "\<not> bad_bound b" "spans_zero b" "fp_le 0 (vcs_max_abs_value cs)" "fp_is_finite v"
  shows "within b (clamp_coord cs b v)"
  using fp_clamp_within [OF assms(1), of v] assms by (simp add: clamp_coord_def Let_def fp_finite_not_nan copysign_within)

lemma clamp_coord_abs:
  assumes "fp_le 0 (vcs_max_abs_value cs)" "\<not> bad_bound b" "fp_is_finite v"
  shows "fp_le (fp_abs (clamp_coord cs b v)) (vcs_max_abs_value cs)"
proof -
  have "fp_is_finite (fp_clamp v (fst b) (snd b))"
    using fp_clamp_within [OF assms(2) fp_finite_not_nan [OF assms(3)]] by (simp add: within_def)
  with assms(1) show ?thesis
    by (auto simp: clamp_coord_def Let_def fp_le_zero fp_le_def fp_less_def fp_is_nan_def fp_is_finite_def fp_key_def)
qed

lemma limit_delta_within:
  assumes "\<not> bad_bound b" "fp_le 0 (vcs_max_delta cs)" "within b v"
  shows "within b (limit_delta cs b s v)"
proof (cases "fp_less (vcs_max_delta cs) (fp_abs (fp_sub v s))")
  case True
  then have n: "\<not> fp_is_nan (fp_sub v s)" and m: "fp_mag (vcs_max_delta cs) < fp_mag (fp_sub v s)"
    using assms(2) by (auto simp: fp_less_def fp_is_nan_def fp_le_zero fp_key_def [of "fp_abs (fp_sub v s)"])
  then have "fp_is_finite (fp_copysign (vcs_max_delta cs) (fp_sub v s))"
    by (simp add: fp_is_finite_def fp_is_nan_def)
  with n have "\<not> fp_is_nan (fp_add s (fp_copysign (vcs_max_delta cs) (fp_sub v s)))"
    using fp_sub_nan [of s v] by (intro fp_add_not_nan) auto
  with True show ?thesis using fp_clamp_within [OF assms(1)] by (simp add: limit_delta_def)
qed (use assms(3) in \<open>simp add: limit_delta_def\<close>)

text \<open>The two loops, coordinate by coordinate.\<close>

lemma check_coords_ok:
  assumes "check_coords cs bs vs = (None, us)" "length vs = length bs"
  shows "list_all2 (\<lambda>b v. fp_is_finite v) bs vs \<and>
    list_all2 (\<lambda>(b, v) u. u = clamp_coord cs b v \<and> \<not> in_forbidden cs u) (zip bs vs) us"
  using assms by (induction cs bs vs arbitrary: us rule: check_coords.induct) (auto split: if_splits prod.splits)

lemma limit_deltas_within:
  "list_all2 within bs vs \<Longrightarrow> (\<forall>b \<in> set bs. \<not> bad_bound b) \<Longrightarrow> fp_le 0 (vcs_max_delta cs) \<Longrightarrow>
     list_all2 within bs (limit_deltas cs bs ss vs)"
  by (induction cs bs ss vs rule: limit_deltas.induct) (auto simp: limit_delta_within)

lemma check_coords_within:
  assumes "check_coords cs bs vs = (None, us)" "length vs = length bs" "fp_le 0 (vcs_max_abs_value cs)"
    and "\<forall>b \<in> set bs. \<not> bad_bound b \<and> spans_zero b"
  shows "list_all2 within bs us"
  using assms
  by (induction cs bs vs arbitrary: us rule: check_coords.induct)
    (auto simp: clamp_coord_within split: if_splits prod.splits)

lemma checked_coord:
  assumes "check_coords cs bs vs = (None, us)" "length vs = length bs" "fp_le 0 (vcs_max_abs_value cs)"
    and "\<forall>b \<in> set bs. \<not> bad_bound b" "u \<in> set us"
  shows "fp_le (fp_abs u) (vcs_max_abs_value cs) \<and> \<not> in_forbidden cs u"
  using assms
  by (induction cs bs vs arbitrary: us rule: check_coords.induct)
    (auto simp: clamp_coord_abs split: if_splits prod.splits)

lemma with_u_parts [simp]: "va_type (with_u u a) = va_type a" "va_u (with_u u a) = u"
  by (cases a; simp)+

lemma limit_deltas_no_state [simp]: "limit_deltas cs bs [] vs = vs"
  by (cases bs; cases vs) auto

lemma validate_continuous:
  assumes "validate_and_clamp_action req a = (None, a')" "va_type a = VA_continuous"
  obtains us where "check_coords (vr_constraints req) (vsp_bounds (vr_action_space req)) (va_u a) = (None, us)"
    "int (length (va_u a)) = vsp_dims (vr_action_space req)"
    "a' = with_u (limit_deltas (vr_constraints req) (vsp_bounds (vr_action_space req)) (vo_state (vr_observation req)) us) a"
  using assms by (auto simp: validate_and_clamp_action_def split: if_splits prod.splits option.splits)


text \<open>A request of dimension one with the range from -1 to 1 and both limits one.\<close>

definition sample_vla_request :: vla_request where
  "sample_vla_request = \<lparr>vr_capability = ''vla.rt2'', vr_task_id = ''task'', vr_instruction = ''go'',
     vr_observation = \<lparr>vo_image = None, vo_blob = None, vo_state = [], vo_timestamp_ms = 0, vo_frame_id = ''base''\<rparr>,
     vr_action_space = \<lparr>vsp_type = ''continuous'', vsp_dims = 1, vsp_bounds = [(fp_minus_one, fp_one)]\<rparr>,
     vr_constraints = \<lparr>vcs_max_abs_value = fp_one, vcs_max_delta = fp_one, vcs_forbidden_ranges = []\<rparr>,
     vr_deadline_ms = 200, vr_seed = None, vr_model = default_model, vr_run_id = ''run'', vr_tick_index = 0,
     vr_node_name = ''vla-node''\<rparr>"

lemmas fp_compute = fp_minus_one_def fp_one_def fp_less_def fp_le_def fp_is_nan_def fp_is_finite_def fp_key_def
  fp_mag_def fp_neg_def fp_bits_def fp_inf_mag_def

lemma sample_vla_request_valid [simp]:
  "validate_request_shape sample_vla_request = None" "sane_constraints (vr_constraints sample_vla_request)"
  "list_all spans_zero (vsp_bounds (vr_action_space sample_vla_request))"
  by (simp_all add: sample_vla_request_def validate_request_shape_def default_model_def bad_bound_def
      sane_constraints_def spans_zero_def fp_compute)

text \<open>The action \<open>3.0\<close> is clamped to \<open>1.0\<close>.\<close>

lemma sample_clamped:
  "validate_and_clamp_action sample_vla_request (make_continuous_action [0x4008000000000000]) =
     (None, make_continuous_action [fp_one])"
  by (simp add: validate_and_clamp_action_def sample_vla_request_def make_continuous_action_def clamp_coord_def
      in_forbidden_def fp_clamp_def fp_abs_def fp_make_def fp_compute)


subsection \<open>What they do not guarantee\<close>

text \<open>
  The step towards the observed state comes after the test of the forbidden ranges and is not
  tested again: with state \<open>-0.5\<close>, a largest step of \<open>1.0\<close> and the range from \<open>0.4\<close> to \<open>0.6\<close> forbidden, the
  action \<open>1.0\<close> is released as \<open>0.5\<close>.
\<close>

definition forbidden_constraints :: vla_constraints where
  "forbidden_constraints = \<lparr>vcs_max_abs_value = fp_one, vcs_max_delta = fp_one,
     vcs_forbidden_ranges = [(0x3FD999999999999A, 0x3FE3333333333333)]\<rparr>"

definition forbidden_request :: vla_request where
  "forbidden_request = sample_vla_request\<lparr>vr_constraints := forbidden_constraints,
     vr_observation := (vr_observation sample_vla_request)\<lparr>vo_state := [0xBFE0000000000000]\<rparr>\<rparr>"

theorem step_enters_forbidden_range:
  "\<exists>u. validate_and_clamp_action forbidden_request (make_continuous_action [fp_one]) = (None, make_continuous_action [u]) \<and>
     in_forbidden (vr_constraints forbidden_request) u"
proof -
  have sub: "fp_sub fp_one 0xBFE0000000000000 = 0x3FF8000000000000" by code_simp
  have add: "fp_add 0xBFE0000000000000 fp_one = 0x3FE0000000000000" by code_simp
  have "validate_and_clamp_action forbidden_request (make_continuous_action [fp_one]) =
      (None, make_continuous_action [0x3FE0000000000000])"
    using sub add
    by (simp add: validate_and_clamp_action_def forbidden_request_def forbidden_constraints_def sample_vla_request_def
        make_continuous_action_def clamp_coord_def in_forbidden_def limit_delta_def fp_clamp_def fp_copysign_def
        fp_abs_def fp_make_def fp_compute)
  moreover have "in_forbidden (vr_constraints forbidden_request) 0x3FE0000000000000"
    by (simp add: forbidden_request_def forbidden_constraints_def in_forbidden_def fp_compute)
  ultimately show ?thesis by blast
qed

text \<open>
  The request hash, the key of the cache and of the replay store, covers neither the forbidden ranges nor
  the seed nor the type of the action space.
\<close>

lemma hash_ignores:
  "hash_request (req\<lparr>vr_constraints := (vr_constraints req)\<lparr>vcs_forbidden_ranges := fr\<rparr>\<rparr>) = hash_request req"
  "hash_request (req\<lparr>vr_seed := sd\<rparr>) = hash_request req"
  "hash_request (req\<lparr>vr_action_space := (vr_action_space req)\<lparr>vsp_type := ty\<rparr>\<rparr>) = hash_request req"
  by (simp_all add: hash_request_def request_text_def Let_def)

subsection \<open>The stub backend\<close>

lemma stub_prior_defined:
  "stub_prior dims state d \<noteq> Undef \<longleftrightarrow> state = [] \<or> dims = 1 \<or> (length state \<ge> 4 \<and> d < 2) \<or> d < length state"
  by (simp add: stub_prior_def)

lemma stub_prior_returns: "stub_prior dims state d = Undef \<or> (\<exists>v. stub_prior dims state d = Ret v)"
  by (auto simp: stub_prior_def)

lemma stub_priors_defined:
  "stub_priors dims state ds = Undef \<longleftrightarrow> (\<exists>d \<in> set ds. stub_prior dims state d = Undef)"
  "stub_priors dims state ds = Undef \<or> (\<exists>vs. stub_priors dims state ds = Ret vs)"
proof (induction ds)
  case (Cons d ds)
  { case 1 show ?case using Cons stub_prior_returns [of dims state d] by (auto split: outcome.splits) }
  { case 2 show ?case using Cons stub_prior_returns [of dims state d] by (auto split: outcome.splits) }
qed simp_all

text \<open>The observed state does not cover the dimensions of the action space.\<close>

definition state_too_short :: "vla_request \<Rightarrow> bool" where
  "state_too_short req \<longleftrightarrow> vo_state (vr_observation req) \<noteq> [] \<and> 1 < vsp_dims (vr_action_space req) \<and>
     int (length (vo_state (vr_observation req))) < vsp_dims (vr_action_space req)"

lemma stub_priors_short:
  assumes "0 < vsp_dims (vr_action_space req)"
  shows "stub_priors (nat (vsp_dims (vr_action_space req))) (vo_state (vr_observation req))
      [0 ..< nat (vsp_dims (vr_action_space req))] = Undef \<longleftrightarrow> state_too_short req"
proof -
  let ?s = "vo_state (vr_observation req)" and ?n = "nat (vsp_dims (vr_action_space req))"
  have "(\<exists>d < ?n. stub_prior ?n ?s d = Undef) \<longleftrightarrow> ?s \<noteq> [] \<and> ?n \<noteq> 1 \<and> length ?s < ?n"
  proof
    assume "?s \<noteq> [] \<and> ?n \<noteq> 1 \<and> length ?s < ?n"
    then have "stub_prior ?n ?s (length ?s) = Undef" by (auto simp: stub_prior_def)
    with \<open>?s \<noteq> [] \<and> ?n \<noteq> 1 \<and> length ?s < ?n\<close> show "\<exists>d < ?n. stub_prior ?n ?s d = Undef" by blast
  qed (auto simp: stub_prior_def split: if_splits)
  with assms show ?thesis by (auto simp: stub_priors_defined(1) state_too_short_def)
qed

text \<open>
  The stub backend, when it is neither cancelled nor late, reads past the end of the observed state
  exactly when the state is not empty and shorter than an action space of more than one dimension. The
  service accepts such requests.
\<close>

theorem stub_reads_outside:
  assumes "validate_request_shape req = None" "\<not> en_flag env 0" "\<not> en_flag env 1" "en_accept env 0"
    and "\<not> fp_less (fp_of_int (sint (vr_deadline_ms req))) (elapsed_ms (en_clock env 0) (en_clock env 1))"
  shows "rt2_stub_infer env req = Undef \<longleftrightarrow> state_too_short req"
proof -
  have "0 < vsp_dims (vr_action_space req)" using validated_bounds [OF assms(1)] by simp
  note short = stub_priors_short [OF this]
  show ?thesis
    using assms(2-) short stub_priors_defined(2)
    by (auto simp: rt2_stub_infer_def stub_proposal_def Let_def split: outcome.splits)
qed

theorem stub_reads_outside_witness:
  "\<exists>env req. validate_request_shape req = None \<and> rt2_stub_infer env req = Undef"
proof -
  let ?req = "sample_vla_request\<lparr>vr_action_space := \<lparr>vsp_type = ''continuous'', vsp_dims = 2,
      vsp_bounds = [(fp_minus_one, fp_one), (fp_minus_one, fp_one)]\<rparr>,
    vr_observation := (vr_observation sample_vla_request)\<lparr>vo_state := [fp_one]\<rparr>\<rparr>"
  let ?env = "\<lparr>en_flag = \<lambda>_. False, en_accept = \<lambda>_. True, en_clock = \<lambda>_. 0\<rparr>"
  have valid: "validate_request_shape ?req = None"
    by (simp add: sample_vla_request_def validate_request_shape_def default_model_def bad_bound_def fp_compute)
  have "\<not> fp_less (fp_of_int 200) (elapsed_ms 0 0)" by code_simp
  then have "rt2_stub_infer ?env ?req = Undef \<longleftrightarrow> state_too_short ?req"
    by (intro stub_reads_outside [OF valid]) (simp_all add: sample_vla_request_def)
  then show ?thesis using valid by (auto simp: state_too_short_def)
qed

end
