(* ===== verification/Vla_Service.thy ===== *)
theory Vla_Service
  imports Vla_Checks
begin

text \<open>
  The VLA service, \<open>class vla_service\<close> of \<open>src/bt/vla.cpp\<close>, together with the scheduler whose workers run
  its jobs. The state of the service is a record; every critical section of a method is one function
  on it. A method that leaves the lock and takes it again is cut at that point: the rest of it is a
  thread position of type \<open>vla_pc\<close>, and \<open>vla_step\<close> lets the clients, the threads and the workers take
  their sections in any order. What a backend does between its sections is open: it may report any
  partials, raise its cancel flag, and return any response or throw.
\<close>

subsection \<open>State\<close>

record image_info =
  ii_id :: i64
  ii_width :: i64
  ii_height :: i64
  ii_channels :: i64
  ii_encoding :: string
  ii_timestamp_ms :: i64
  ii_frame_id :: string

record blob_info =
  bi_id :: i64
  bi_size_bytes :: i64
  bi_mime_type :: string
  bi_timestamp_ms :: i64
  bi_tag :: string

record vla_job =
  vj_id :: nat
  vj_request :: vla_request
  vj_status :: vla_job_status
  vj_cancel_requested :: bool
  vj_final :: "service_response option"
  vj_latest_partial :: "vla_partial option"
  vj_partial_count :: nat
  vj_request_hash :: u64
  vj_cache_hit :: bool
  vj_replay_hit :: bool
  vj_superseded :: bool
  vj_completion_dropped :: bool
  vj_scheduler_job_id :: job_id
  vj_submitted_at :: time_ns
  vj_started_at :: time_ns
  vj_finished_at :: time_ns
  vj_error :: string

record cache_entry =
  ce_response :: service_response
  ce_expires_at :: time_ns

text \<open>The two built-in backends, and those a host registers.\<close>

datatype vla_backend = Rt2_stub | Replay_backend | Host_backend nat

text \<open>
  \<open>sv_delivered\<close> and \<open>sv_written\<close> are what the record listener was called with and what was handed to the
  log file.
\<close>

record vla_service =
  sv_capabilities :: capability_registry
  sv_next_job_id :: nat
  sv_jobs :: "nat \<Rightarrow> vla_job option"
  sv_active_owner_jobs :: "(string, nat) alist"
  sv_backends :: "(string, vla_backend) alist"
  sv_default_backend :: string
  sv_cache :: "(u64, cache_entry) alist"
  sv_cache_capacity :: nat
  sv_cache_ttl_ms :: i64
  sv_replay_store :: "(u64, service_response) alist"
  sv_next_image_id :: i64
  sv_next_blob_id :: i64
  sv_images :: "(i64, image_info) alist"
  sv_blobs :: "(i64, blob_info) alist"
  sv_records :: "vla_record list"
  sv_log_enabled :: bool
  sv_log_path :: string
  sv_listener :: bool
  sv_delivered :: "(vla_record \<times> string) list"
  sv_written :: "(string \<times> string) list"

definition record_capacity :: nat where
  "record_capacity = 4096"

definition vla_service_new :: vla_service where
  "vla_service_new = \<lparr>sv_capabilities = [(cd_name vla_rt2_capability, vla_rt2_capability)], sv_next_job_id = 1,
     sv_jobs = Map.empty, sv_active_owner_jobs = [],
     sv_backends = [(''rt2-stub'', Rt2_stub), (''replay'', Replay_backend)], sv_default_backend = ''rt2-stub'',
     sv_cache = [], sv_cache_capacity = 256, sv_cache_ttl_ms = 750, sv_replay_store = [], sv_next_image_id = 1,
     sv_next_blob_id = 1, sv_images = [], sv_blobs = [], sv_records = [], sv_log_enabled = False,
     sv_log_path = ''logs/run.jsonl'', sv_listener = False, sv_delivered = [], sv_written = []\<rparr>"

text \<open>
  Where a thread inside a method or a job function stands. The scheduler job that a worker executes
  comes with the positions of the job function.
\<close>

datatype vla_pc =
    At_resolve nat
  | At_no_backend nat
  | At_schedule nat vla_backend
  | At_assign nat job_id
  | At_record vla_record
  | At_sched_cancel job_id
  | At_start job_id nat vla_backend
  | At_infer job_id nat vla_backend
  | At_finish job_id nat "exn + service_response"
  | At_job_record job_id vla_record
  | At_return job_id

text \<open>\<open>sy_fn j\<close> is what the function of scheduler job \<open>j\<close> captured; \<open>None\<close> for jobs of other clients.\<close>

record vla_system =
  sy_service :: vla_service
  sy_sched :: "unit sched"
  sy_fn :: "job_id \<Rightarrow> (nat \<times> vla_backend) option"
  sy_threads :: "vla_pc list"

definition vla_system_new :: "nat \<Rightarrow> nat \<Rightarrow> vla_system" where
  "vla_system_new hardware requested = \<lparr>sy_service = vla_service_new, sy_sched = sched_new hardware requested,
     sy_fn = Map.empty, sy_threads = []\<rparr>"

definition update_job :: "nat \<Rightarrow> (vla_job \<Rightarrow> vla_job) \<Rightarrow> vla_service \<Rightarrow> vla_service" where
  "update_job i f sv = sv\<lparr>sv_jobs := (sv_jobs sv)(i := map_option f (sv_jobs sv i))\<rparr>"

definition update_service :: "(vla_service \<Rightarrow> vla_service) \<Rightarrow> vla_system \<Rightarrow> vla_system" where
  "update_service f s = s\<lparr>sy_service := f (sy_service s)\<rparr>"

definition sched_cancel_in :: "job_id \<Rightarrow> time_ns \<Rightarrow> vla_system \<Rightarrow> vla_system" where
  "sched_cancel_in j now s = s\<lparr>sy_sched := snd (sched_cancel j now (sy_sched s))\<rparr>"

text \<open>A thread moves from one position to the next.\<close>

definition advance :: "vla_pc \<Rightarrow> vla_pc list \<Rightarrow> vla_system \<Rightarrow> vla_system" where
  "advance pc pcs s = s\<lparr>sy_threads := pcs @ remove1 pc (sy_threads s)\<rparr>"

definition spawn :: "vla_pc \<Rightarrow> vla_system \<Rightarrow> vla_system" where
  "spawn pc s = s\<lparr>sy_threads := pc # sy_threads s\<rparr>"

subsection \<open>Records\<close>

text \<open>\<open>append_record\<close>, with the call of the listener and the line for the log file.\<close>

definition append_record :: "vla_record \<Rightarrow> vla_service \<Rightarrow> vla_service" where
  "append_record rec sv =
     (let old = (if length (sv_records sv) = record_capacity then tl (sv_records sv) else sv_records sv);
          line = record_to_json rec
      in sv\<lparr>sv_records := old @ [rec],
           sv_delivered := sv_delivered sv @ (if sv_listener sv then [(rec, line)] else []),
           sv_written := sv_written sv @ (if sv_log_enabled sv then [(sv_log_path sv, line)] else [])\<rparr>)"

definition recent_records :: "nat \<Rightarrow> vla_service \<Rightarrow> vla_record list" where
  "recent_records max_count sv =
     (if max_count \<ge> length (sv_records sv) then sv_records sv else last_n max_count (sv_records sv))"

definition dump_recent_records :: "nat \<Rightarrow> vla_service \<Rightarrow> string" where
  "dump_recent_records max_count sv = concat (map (\<lambda>r. record_to_json r @ [newline]) (recent_records max_count sv))"

definition clear_records :: "vla_service \<Rightarrow> vla_service" where
  "clear_records sv = sv\<lparr>sv_records := []\<rparr>"

definition set_record_listener :: "bool \<Rightarrow> vla_service \<Rightarrow> vla_service" where
  "set_record_listener present sv = sv\<lparr>sv_listener := present\<rparr>"

definition set_log_path :: "string \<Rightarrow> vla_service \<Rightarrow> string + vla_service" where
  "set_log_path path sv =
     guard_err (path = []) ''set_log_path: path must not be empty'' (Inr (sv\<lparr>sv_log_path := path\<rparr>))"

definition set_log_enabled :: "bool \<Rightarrow> vla_service \<Rightarrow> vla_service" where
  "set_log_enabled enabled sv = sv\<lparr>sv_log_enabled := enabled\<rparr>"

subsection \<open>Cache\<close>

text \<open>Erasing \<open>cache_.begin()\<close>, an entry of the library's choice, while there are too many.\<close>

definition erase_begin :: "host_choices \<Rightarrow> (u64, cache_entry) alist \<Rightarrow> (u64, cache_entry) alist" where
  "erase_begin hc cache =
     (let k = hc_cache_begin hc (map fst cache) mod length cache in take k cache @ drop (Suc k) cache)"

lemma erase_begin_length [simp]: "cache \<noteq> [] \<Longrightarrow> length (erase_begin hc cache) = length cache - 1"
  by (cases "length cache") (simp_all add: erase_begin_def Let_def)

function evict_cache :: "host_choices \<Rightarrow> nat \<Rightarrow> (u64, cache_entry) alist \<Rightarrow> (u64, cache_entry) alist" where
  "evict_cache hc capacity cache =
     (if length cache > capacity then evict_cache hc capacity (erase_begin hc cache) else cache)"
  by auto
termination
proof (relation "measure (\<lambda>(hc, capacity, cache). length cache)")
  fix hc :: host_choices and capacity :: nat and cache :: "(u64, cache_entry) alist"
  assume "length cache > capacity"
  then have "cache \<noteq> []" by auto
  then show "((hc, capacity, erase_begin hc cache), hc, capacity, cache) \<in> measure (\<lambda>(hc, capacity, cache). length cache)"
    by simp
qed simp

declare evict_cache.simps [simp del]

definition evict_cache_if_needed :: "host_choices \<Rightarrow> vla_service \<Rightarrow> vla_service" where
  "evict_cache_if_needed hc sv = sv\<lparr>sv_cache := evict_cache hc (sv_cache_capacity sv) (sv_cache sv)\<rparr>"

definition set_cache_capacity :: "host_choices \<Rightarrow> nat \<Rightarrow> vla_service \<Rightarrow> vla_service" where
  "set_cache_capacity hc capacity sv = evict_cache_if_needed hc (sv\<lparr>sv_cache_capacity := capacity\<rparr>)"

definition set_cache_ttl_ms :: "i64 \<Rightarrow> vla_service \<Rightarrow> string + vla_service" where
  "set_cache_ttl_ms ttl sv =
     guard_err (sint ttl < 0) ''set_cache_ttl_ms: ttl must be non-negative'' (Inr (sv\<lparr>sv_cache_ttl_ms := ttl\<rparr>))"

definition fresh_entry :: "u64 \<Rightarrow> time_ns \<Rightarrow> vla_service \<Rightarrow> cache_entry option" where
  "fresh_entry h now sv =
     (case map_of (sv_cache sv) h of
        None \<Rightarrow> None
      | Some e \<Rightarrow> if now < ce_expires_at e then Some e else None)"

subsection \<open>Backends, images and blobs\<close>

definition register_backend :: "string \<Rightarrow> vla_backend option \<Rightarrow> vla_service \<Rightarrow> string + vla_service" where
  "register_backend name backend sv =
     guard_err (name = []) ''register_backend: backend name must not be empty''
       (case backend of
          None \<Rightarrow> Inl ''register_backend: backend pointer is null''
        | Some b \<Rightarrow> Inr (sv\<lparr>sv_backends := alist_put name b (sv_backends sv)\<rparr>))"

definition set_default_backend :: "string \<Rightarrow> vla_service \<Rightarrow> string + vla_service" where
  "set_default_backend name sv =
     guard_err (map_of (sv_backends sv) name = None) (''set_default_backend: unknown backend: '' @ name)
       (Inr (sv\<lparr>sv_default_backend := name\<rparr>))"

definition resolve_backend :: "vla_request \<Rightarrow> vla_service \<Rightarrow> vla_backend option" where
  "resolve_backend req sv =
     (case (if vm_name (vr_model req) = [] then None else map_of (sv_backends sv) (vm_name (vr_model req))) of
        Some b \<Rightarrow> Some b
      | None \<Rightarrow> map_of (sv_backends sv) (sv_default_backend sv))"

text \<open>The image counter is signed; its overflow after \<open>2 ^ 63 - 1\<close> images is out of reach.\<close>

definition create_image ::
  "i64 \<Rightarrow> i64 \<Rightarrow> i64 \<Rightarrow> string \<Rightarrow> i64 \<Rightarrow> string \<Rightarrow> vla_service \<Rightarrow> string + i64 \<times> vla_service" where
  "create_image width height channels encoding timestamp_ms frame_id sv =
     guard_err (sint width \<le> 0 \<or> sint height \<le> 0 \<or> sint channels \<le> 0) ''create_image: dimensions/channels must be > 0''
       (let i = sv_next_image_id sv;
            info = \<lparr>ii_id = i, ii_width = width, ii_height = height, ii_channels = channels, ii_encoding = encoding,
              ii_timestamp_ms = timestamp_ms, ii_frame_id = frame_id\<rparr>
        in Inr (i, sv\<lparr>sv_next_image_id := i + 1, sv_images := alist_put i info (sv_images sv)\<rparr>))"

definition create_blob :: "i64 \<Rightarrow> string \<Rightarrow> i64 \<Rightarrow> string \<Rightarrow> vla_service \<Rightarrow> string + i64 \<times> vla_service" where
  "create_blob size_bytes mime_type timestamp_ms tag sv =
     guard_err (sint size_bytes < 0) ''create_blob: size_bytes must be >= 0''
       (let i = sv_next_blob_id sv;
            info = \<lparr>bi_id = i, bi_size_bytes = size_bytes, bi_mime_type = mime_type, bi_timestamp_ms = timestamp_ms,
              bi_tag = tag\<rparr>
        in Inr (i, sv\<lparr>sv_next_blob_id := i + 1, sv_blobs := alist_put i info (sv_blobs sv)\<rparr>))"

definition get_image_info :: "i64 \<Rightarrow> vla_service \<Rightarrow> image_info option" where
  "get_image_info handle sv = map_of (sv_images sv) handle"

definition get_blob_info :: "i64 \<Rightarrow> vla_service \<Rightarrow> blob_info option" where
  "get_blob_info handle sv = map_of (sv_blobs sv) handle"

subsection \<open>Submitting\<close>

definition new_job :: "nat \<Rightarrow> time_ns \<Rightarrow> vla_request \<Rightarrow> vla_job" where
  "new_job i now req = \<lparr>vj_id = i, vj_request = req, vj_status = VJ_queued, vj_cancel_requested = False, vj_final = None,
     vj_latest_partial = None, vj_partial_count = 0, vj_request_hash = hash_request req, vj_cache_hit = False,
     vj_replay_hit = False, vj_superseded = False, vj_completion_dropped = False, vj_scheduler_job_id = 0,
     vj_submitted_at = now, vj_started_at = 0, vj_finished_at = 0, vj_error = []\<rparr>"

text \<open>Why a request is refused at once: its shape, then its image and blob handles.\<close>

definition missing_handle :: "(i64, 'v) alist \<Rightarrow> i64 option \<Rightarrow> bool" where
  "missing_handle table handle = (case handle of None \<Rightarrow> False | Some i \<Rightarrow> map_of table i = None)"

definition request_error :: "vla_request \<Rightarrow> vla_service \<Rightarrow> string option" where
  "request_error req sv =
     (case validate_request_shape req of
        Some why \<Rightarrow> Some why
      | None \<Rightarrow>
          if missing_handle (sv_images sv) (vo_image (vr_observation req))
          then Some ''observation.image handle does not exist''
          else if missing_handle (sv_blobs sv) (vo_blob (vr_observation req))
          then Some ''observation.blob handle does not exist''
          else None)"

text \<open>A newer request of the same run and node cancels the job of the older one.\<close>

definition supersede :: "string \<Rightarrow> time_ns \<Rightarrow> vla_system \<Rightarrow> vla_system" where
  "supersede owner now s =
     (case map_of (sv_active_owner_jobs (sy_service s)) owner of
        None \<Rightarrow> s
      | Some i \<Rightarrow>
          (case sv_jobs (sy_service s) i of
             None \<Rightarrow> s
           | Some job \<Rightarrow>
               if is_terminal (vj_status job) then s
               else let s = update_service (update_job i (\<lambda>j. j\<lparr>vj_cancel_requested := True, vj_superseded := True\<rparr>)) s
                    in if vj_scheduler_job_id job \<noteq> 0 then sched_cancel_in (vj_scheduler_job_id job) now s else s))"

definition refuse_job :: "host_choices \<Rightarrow> time_ns \<Rightarrow> time_ns \<Rightarrow> nat \<Rightarrow> vla_request \<Rightarrow> string \<Rightarrow> vla_system \<Rightarrow> vla_system" where
  "refuse_job hc now ts i req why s =
     (let err = status_response VS_error req why in
      spawn (At_record (request_record ts req ''error'' 0 (response_to_json_local hc err)))
        (update_service (update_job i (\<lambda>j. j\<lparr>vj_status := VJ_error, vj_final := Some err, vj_finished_at := now,
           vj_error := why\<rparr>)) s))"

definition cache_record :: "host_choices \<Rightarrow> time_ns \<Rightarrow> vla_request \<Rightarrow> service_response \<Rightarrow> vla_record" where
  "cache_record hc ts req r =
     (request_record ts req ''done'' 0 (response_to_json_local hc r))\<lparr>rc_request_hashes := vs_request_hashes r,
        rc_response_hashes := vs_response_hashes r, rc_frame_refs := vs_frame_refs r,
        rc_replay_cache_hit := vs_replay_cache_hit r, rc_cache_hit := True\<rparr>"

definition answer_from_cache ::
  "host_choices \<Rightarrow> time_ns \<Rightarrow> time_ns \<Rightarrow> nat \<Rightarrow> vla_request \<Rightarrow> service_response \<Rightarrow> vla_system \<Rightarrow> vla_system" where
  "answer_from_cache hc now ts i req r s =
     spawn (At_record (cache_record hc ts req r))
       (update_service (update_job i (\<lambda>j. j\<lparr>vj_status := VJ_done, vj_cache_hit := True, vj_started_at := now,
          vj_finished_at := now, vj_final := Some r\<rparr>)) s)"

definition admit_job :: "nat \<Rightarrow> time_ns \<Rightarrow> vla_request \<Rightarrow> vla_service \<Rightarrow> vla_service" where
  "admit_job i now req sv = sv\<lparr>sv_next_job_id := Suc i, sv_jobs := (sv_jobs sv)(i \<mapsto> new_job i now req)\<rparr>"

text \<open>The first critical section of \<open>submit\<close>.\<close>

definition submit_enter :: "host_choices \<Rightarrow> time_ns \<Rightarrow> time_ns \<Rightarrow> vla_request \<Rightarrow> vla_system \<Rightarrow> vla_system" where
  "submit_enter hc now ts req s =
     (let i = sv_next_job_id (sy_service s);
          s = update_service (admit_job i now req) s
      in case request_error req (sy_service s) of
           Some why \<Rightarrow> refuse_job hc now ts i req why s
         | None \<Rightarrow>
             let owner = make_owner_key req;
                 s = supersede owner now s;
                 s = update_service (\<lambda>sv. sv\<lparr>sv_active_owner_jobs := alist_put owner i (sv_active_owner_jobs sv)\<rparr>) s
             in case fresh_entry (hash_request req) now (sy_service s) of
                  Some e \<Rightarrow> answer_from_cache hc now ts i req (ce_response e) s
                | None \<Rightarrow> spawn (At_resolve i) s)"

text \<open>\<open>resolve_backend\<close> takes the lock for itself; without a backend the job ends in another section.\<close>

definition job_request_of :: "nat \<Rightarrow> vla_system \<Rightarrow> vla_request option" where
  "job_request_of i s = map_option vj_request (sv_jobs (sy_service s) i)"

definition submit_resolve :: "nat \<Rightarrow> vla_system \<Rightarrow> vla_system" where
  "submit_resolve i s =
     (case job_request_of i s of
        None \<Rightarrow> s
      | Some req \<Rightarrow>
          (case resolve_backend req (sy_service s) of
             None \<Rightarrow> advance (At_resolve i) [At_no_backend i] s
           | Some b \<Rightarrow> advance (At_resolve i) [At_schedule i b] s))"

definition submit_no_backend :: "host_choices \<Rightarrow> time_ns \<Rightarrow> time_ns \<Rightarrow> nat \<Rightarrow> vla_system \<Rightarrow> vla_system" where
  "submit_no_backend hc now ts i s =
     (case job_request_of i s of
        None \<Rightarrow> s
      | Some req \<Rightarrow>
          let err = status_response VS_error req ''backend not found'';
              rec = request_record ts req ''error'' 0 (response_to_json_local hc err)
          in advance (At_no_backend i) [At_record rec]
               (update_service (update_job i (\<lambda>j. j\<lparr>vj_status := VJ_error, vj_final := Some err, vj_finished_at := now\<rparr>)) s))"

text \<open>\<open>sched_->submit\<close>, then the scheduler's id is stored under the lock.\<close>

definition submit_schedule :: "time_ns \<Rightarrow> nat \<Rightarrow> vla_backend \<Rightarrow> vla_system \<Rightarrow> vla_system" where
  "submit_schedule now i b s =
     (case sched_submit True ''vla.submit'' now (sy_sched s) of
        Inl _ \<Rightarrow> s
      | Inr (j, sc) \<Rightarrow>
          advance (At_schedule i b) [At_assign i j] (s\<lparr>sy_sched := sc, sy_fn := (sy_fn s)(j \<mapsto> (i, b))\<rparr>))"

definition submit_assign :: "nat \<Rightarrow> job_id \<Rightarrow> vla_system \<Rightarrow> vla_system" where
  "submit_assign i j s =
     advance (At_assign i j) [] (update_service (update_job i (\<lambda>job. job\<lparr>vj_scheduler_job_id := j\<rparr>)) s)"

definition finish_record :: "vla_record \<Rightarrow> vla_system \<Rightarrow> vla_system" where
  "finish_record rec s = advance (At_record rec) [] (update_service (append_record rec) s)"

subsection \<open>The job function\<close>

definition start_job :: "time_ns \<Rightarrow> job_id \<Rightarrow> nat \<Rightarrow> vla_backend \<Rightarrow> vla_system \<Rightarrow> vla_system" where
  "start_job now j i b s =
     advance (At_start j i b) [At_infer j i b]
       (update_service (update_job i (\<lambda>job. job\<lparr>vj_status := VJ_running, vj_started_at := now\<rparr>)) s)"

text \<open>\<open>on_partial\<close>: refused once the job is to be cancelled.\<close>

definition note_partial :: "vla_partial \<Rightarrow> vla_job \<Rightarrow> vla_job" where
  "note_partial part job =
     (if vj_cancel_requested job then job
      else job\<lparr>vj_latest_partial := Some part, vj_partial_count := Suc (vj_partial_count job), vj_status := VJ_streaming\<rparr>)"

definition on_partial :: "vla_partial \<Rightarrow> nat \<Rightarrow> vla_system \<Rightarrow> bool \<times> vla_system" where
  "on_partial part i s =
     ((case sv_jobs (sy_service s) i of None \<Rightarrow> False | Some job \<Rightarrow> \<not> vj_cancel_requested job),
      update_service (update_job i (note_partial part)) s)"

definition raise_cancel_flag :: "nat \<Rightarrow> vla_system \<Rightarrow> vla_system" where
  "raise_cancel_flag i s = update_service (update_job i (\<lambda>job. job\<lparr>vj_cancel_requested := True\<rparr>)) s"

definition backend_returns :: "job_id \<Rightarrow> nat \<Rightarrow> vla_backend \<Rightarrow> exn + service_response \<Rightarrow> vla_system \<Rightarrow> vla_system" where
  "backend_returns j i b out s = advance (At_infer j i b) [At_finish j i out] s"

definition infer_response :: "vla_request \<Rightarrow> exn + service_response \<Rightarrow> service_response" where
  "infer_response req out =
     (case out of
        Inr r \<Rightarrow> r
      | Inl (Std_exception msg) \<Rightarrow> status_response VS_error req (''backend exception: '' @ msg)
      | Inl Other_exception \<Rightarrow> status_response VS_error req ''backend unknown exception'')"

text \<open>What becomes of a response: dropped after a cancel, late, rejected, or released with the clamped action.\<close>

definition drop_cancelled :: "vla_job \<Rightarrow> service_response \<Rightarrow> service_response" where
  "drop_cancelled job r =
     (if vj_cancel_requested job \<and> vs_status r = VS_ok
      then r\<lparr>vs_status := VS_cancelled, vs_explanation := ''cancelled''\<rparr> else r)"

definition drop_late :: "double \<Rightarrow> vla_job \<Rightarrow> service_response \<Rightarrow> service_response" where
  "drop_late latency job r =
     (if fp_less (fp_of_int (sint (vr_deadline_ms (vj_request job)))) latency \<and> vs_status r = VS_ok
      then r\<lparr>vs_status := VS_timeout, vs_explanation := ''deadline exceeded''\<rparr> else r)"

definition check_action :: "vla_job \<Rightarrow> service_response \<Rightarrow> service_response" where
  "check_action job r =
     (if vs_status r = VS_ok
      then (case validate_and_clamp_action (vj_request job) (vs_action r) of
              (Some reason, a) \<Rightarrow> r\<lparr>vs_action := a, vs_status := VS_invalid, vs_explanation := reason\<rparr>
            | (None, a) \<Rightarrow> r\<lparr>vs_action := a\<rparr>)
      else r)"

definition settle_response :: "double \<Rightarrow> vla_job \<Rightarrow> service_response \<Rightarrow> service_response" where
  "settle_response latency job r =
     (let r = check_action job (drop_late latency job (drop_cancelled job r)) in
      r\<lparr>vs_stats := alist_put ''partials'' (fp_of_int (int (vj_partial_count job)))
          (alist_put ''latency_ms'' latency (vs_stats r))\<rparr>)"

definition release_owner :: "nat \<Rightarrow> vla_request \<Rightarrow> vla_service \<Rightarrow> vla_service" where
  "release_owner i req sv =
     (if map_of (sv_active_owner_jobs sv) (make_owner_key req) = Some i
      then sv\<lparr>sv_active_owner_jobs := alist_erase (make_owner_key req) (sv_active_owner_jobs sv)\<rparr> else sv)"

definition remember_response :: "host_choices \<Rightarrow> time_ns \<Rightarrow> vla_job \<Rightarrow> service_response \<Rightarrow> vla_service \<Rightarrow> vla_service" where
  "remember_response hc fin job r sv =
     (if vs_status r = VS_ok then
        evict_cache_if_needed hc
          (sv\<lparr>sv_cache := alist_put (vj_request_hash job)
                \<lparr>ce_response = r, ce_expires_at = fin + sint (sv_cache_ttl_ms sv) * 1000000\<rparr> (sv_cache sv),
             sv_replay_store := alist_put (vj_request_hash job) r (sv_replay_store sv)\<rparr>)
      else sv)"

definition job_record :: "host_choices \<Rightarrow> time_ns \<Rightarrow> double \<Rightarrow> vla_job \<Rightarrow> service_response \<Rightarrow> vla_record" where
  "job_record hc ts latency job r =
     (request_record ts (vj_request job) (vla_job_status_name (vj_status job)) latency (response_to_json_local hc r))
       \<lparr>rc_request_hash := vj_request_hash job, rc_request_hashes := vs_request_hashes r,
        rc_response_hashes := vs_response_hashes r, rc_frame_refs := vs_frame_refs r,
        rc_replay_cache_hit := vs_replay_cache_hit r, rc_cache_hit := vj_cache_hit job,
        rc_replay_hit := vj_replay_hit job, rc_superseded := vj_superseded job,
        rc_completion_dropped := vj_completion_dropped job\<rparr>"

definition settled_job :: "time_ns \<Rightarrow> service_response \<Rightarrow> service_response \<Rightarrow> vla_job \<Rightarrow> vla_job" where
  "settled_job fin r r' job =
     job\<lparr>vj_completion_dropped := (vj_completion_dropped job \<or> vj_cancel_requested job \<and> vs_status r = VS_ok),
         vj_final := Some r', vj_finished_at := fin, vj_status := to_job_status (vs_status r')\<rparr>"

text \<open>The section after \<open>infer\<close>.\<close>

definition finish_job ::
  "host_choices \<Rightarrow> time_ns \<Rightarrow> time_ns \<Rightarrow> job_id \<Rightarrow> nat \<Rightarrow> exn + service_response \<Rightarrow> vla_system \<Rightarrow> vla_system" where
  "finish_job hc fin ts j i out s =
     (case sv_jobs (sy_service s) i of
        None \<Rightarrow> s
      | Some job \<Rightarrow>
          let r = infer_response (vj_request job) out;
              latency = elapsed_ms (vj_submitted_at job) fin;
              r' = settle_response latency job r;
              job' = settled_job fin r r' job
          in advance (At_finish j i out) [At_job_record j (job_record hc ts latency job' r')]
               (update_service (\<lambda>sv. remember_response hc fin job' r'
                  (release_owner i (vj_request job) (update_job i (\<lambda>_. job') sv))) s))"

definition finish_job_record :: "job_id \<Rightarrow> vla_record \<Rightarrow> vla_system \<Rightarrow> vla_system" where
  "finish_job_record j rec s = advance (At_job_record j rec) [At_return j] (update_service (append_record rec) s)"

subsection \<open>The worker around the job function\<close>

definition pool_take :: "time_ns \<Rightarrow> vla_system \<Rightarrow> vla_system" where
  "pool_take now s =
     (let sc = worker_take now (sy_sched s);
          s' = s\<lparr>sy_sched := sc\<rparr>
      in case sc_active sc of
           [] \<Rightarrow> s'
         | j # rest \<Rightarrow>
             if length (sc_active sc) = length (sc_active (sy_sched s)) then s'
             else (case sy_fn s j of None \<Rightarrow> s' | Some (i, b) \<Rightarrow> spawn (At_start j i b) s'))"

definition pool_return :: "time_ns \<Rightarrow> job_id \<Rightarrow> vla_system \<Rightarrow> vla_system" where
  "pool_return now j s = advance (At_return j) [] (s\<lparr>sy_sched := worker_finish j (Inr ()) now (sy_sched s)\<rparr>)"

subsection \<open>Polling and cancelling\<close>

record service_poll =
  sl_status :: vla_job_status
  sl_partial :: "vla_partial option"
  sl_final :: "service_response option"
  sl_stats :: "(string, double) alist"

definition past_deadline :: "time_ns \<Rightarrow> vla_job \<Rightarrow> bool" where
  "past_deadline now job \<longleftrightarrow> \<not> is_terminal (vj_status job) \<and> sint (vr_deadline_ms (vj_request job)) > 0 \<and>
     fp_less (fp_of_int (sint (vr_deadline_ms (vj_request job)))) (elapsed_ms (vj_submitted_at job) now) \<and>
     \<not> vj_cancel_requested job"

definition poll_result :: "time_ns \<Rightarrow> vla_job \<Rightarrow> service_poll" where
  "poll_result now job = \<lparr>sl_status = vj_status job, sl_partial = vj_latest_partial job, sl_final = vj_final job,
     sl_stats = [(''latency_ms'', elapsed_ms (vj_submitted_at job) (if vj_finished_at job = 0 then now else vj_finished_at job)),
       (''partial_count'', fp_of_int (int (vj_partial_count job))),
       (''request_hash'', fp_of_int (uint (vj_request_hash job AND 0xFFFFFFFF)))]\<rparr>"

definition poll :: "time_ns \<Rightarrow> time_ns \<Rightarrow> nat \<Rightarrow> vla_system \<Rightarrow> service_poll \<times> vla_system" where
  "poll now now' i s =
     (case sv_jobs (sy_service s) i of
        None \<Rightarrow> (\<lparr>sl_status = VJ_error, sl_partial = None, sl_final = None, sl_stats = []\<rparr>, s)
      | Some job \<Rightarrow>
          if past_deadline now job then
            let job' = job\<lparr>vj_cancel_requested := True, vj_status := VJ_timeout\<rparr>;
                s = update_service (update_job i (\<lambda>_. job')) s
            in (poll_result now' job',
                if vj_scheduler_job_id job \<noteq> 0 then spawn (At_sched_cancel (vj_scheduler_job_id job)) s else s)
          else (poll_result now' job, s))"

definition poll_sched_cancel :: "time_ns \<Rightarrow> job_id \<Rightarrow> vla_system \<Rightarrow> vla_system" where
  "poll_sched_cancel now j s = advance (At_sched_cancel j) [] (sched_cancel_in j now s)"

definition cancelled_response :: "time_ns \<Rightarrow> vla_job \<Rightarrow> service_response" where
  "cancelled_response now job =
     (status_response VS_cancelled (vj_request job) ''cancelled while queued'')
       \<lparr>vs_stats := [(''latency_ms'', elapsed_ms (vj_submitted_at job) now)]\<rparr>"

definition cancel_vla_job :: "host_choices \<Rightarrow> time_ns \<Rightarrow> time_ns \<Rightarrow> nat \<Rightarrow> vla_system \<Rightarrow> bool \<times> vla_system" where
  "cancel_vla_job hc now ts i s =
     (case sv_jobs (sy_service s) i of
        None \<Rightarrow> (False, s)
      | Some job \<Rightarrow>
          if is_terminal (vj_status job) then (True, s)
          else
            let s = update_service (update_job i (\<lambda>j. j\<lparr>vj_cancel_requested := True\<rparr>)) s;
                s = (if vj_scheduler_job_id job \<noteq> 0 then sched_cancel_in (vj_scheduler_job_id job) now s else s)
            in if vj_status job \<noteq> VJ_queued then (True, s)
               else
                 let r = cancelled_response now job;
                     rec = (request_record ts (vj_request job) ''cancelled'' (elapsed_ms (vj_submitted_at job) now)
                       (response_to_json_local hc r))\<lparr>rc_request_hash := vj_request_hash job\<rparr>
                 in (True, spawn (At_record rec)
                      (update_service (update_job i (\<lambda>j. j\<lparr>vj_status := VJ_cancelled, vj_finished_at := now,
                         vj_final := Some r\<rparr>)) s)))"

text \<open>
  The destructor without its wait: no listener and no log any more, every job is told to stop, and
  the scheduler is told to cancel those that have not ended.
\<close>

definition job_list :: "vla_service \<Rightarrow> vla_job list" where
  "job_list sv = List.map_filter (sv_jobs sv) [1 ..< sv_next_job_id sv]"

definition service_shutdown :: "time_ns \<Rightarrow> vla_system \<Rightarrow> vla_system" where
  "service_shutdown now s =
     (let sv = sy_service s;
          doomed = filter (\<lambda>job. \<not> is_terminal (vj_status job) \<and> vj_scheduler_job_id job \<noteq> 0) (job_list sv);
          sv = sv\<lparr>sv_listener := False, sv_log_enabled := False,
            sv_jobs := (\<lambda>i. map_option (\<lambda>job. job\<lparr>vj_cancel_requested := True\<rparr>) (sv_jobs sv i))\<rparr>
      in fold (\<lambda>job. sched_cancel_in (vj_scheduler_job_id job) now) doomed (s\<lparr>sy_service := sv\<rparr>))"

subsection \<open>Interleaving\<close>

inductive vla_config :: "host_choices \<Rightarrow> vla_service \<Rightarrow> vla_service \<Rightarrow> bool" where
  "register_backend name b sv = Inr sv' \<Longrightarrow> vla_config hc sv sv'"
| "set_default_backend name sv = Inr sv' \<Longrightarrow> vla_config hc sv sv'"
| "create_image w h c enc ts frame sv = Inr (handle, sv') \<Longrightarrow> vla_config hc sv sv'"
| "create_blob bytes mime ts tag sv = Inr (handle, sv') \<Longrightarrow> vla_config hc sv sv'"
| "register_capability d (sv_capabilities sv) = Inr caps \<Longrightarrow> vla_config hc sv (sv\<lparr>sv_capabilities := caps\<rparr>)"
| "set_log_path path sv = Inr sv' \<Longrightarrow> vla_config hc sv sv'"
| "set_cache_ttl_ms ttl sv = Inr sv' \<Longrightarrow> vla_config hc sv sv'"
| "vla_config hc sv (set_log_enabled enabled sv)"
| "vla_config hc sv (set_record_listener present sv)"
| "vla_config hc sv (clear_records sv)"
| "vla_config hc sv (set_cache_capacity hc capacity sv)"

text \<open>The calls of clients are visible as events.\<close>

datatype vla_event = Ev_submit vla_request | Ev_poll nat | Ev_cancel nat | Ev_internal

inductive vla_step :: "host_choices \<Rightarrow> vla_event \<Rightarrow> vla_system \<Rightarrow> vla_system \<Rightarrow> bool" where
  Submit: "vla_step hc (Ev_submit req) s (submit_enter hc now ts req s)"
| Resolve: "At_resolve i \<in> set (sy_threads s) \<Longrightarrow> vla_step hc Ev_internal s (submit_resolve i s)"
| No_backend: "At_no_backend i \<in> set (sy_threads s) \<Longrightarrow> vla_step hc Ev_internal s (submit_no_backend hc now ts i s)"
| Schedule: "At_schedule i b \<in> set (sy_threads s) \<Longrightarrow> vla_step hc Ev_internal s (submit_schedule now i b s)"
| Assign: "At_assign i j \<in> set (sy_threads s) \<Longrightarrow> vla_step hc Ev_internal s (submit_assign i j s)"
| Record: "At_record rec \<in> set (sy_threads s) \<Longrightarrow> vla_step hc Ev_internal s (finish_record rec s)"
| Poll: "vla_step hc (Ev_poll i) s (snd (poll now now' i s))"
| Poll_cancel: "At_sched_cancel j \<in> set (sy_threads s) \<Longrightarrow> vla_step hc Ev_internal s (poll_sched_cancel now j s)"
| Cancel: "vla_step hc (Ev_cancel i) s (snd (cancel_vla_job hc now ts i s))"
| Take: "length (sc_active (sy_sched s)) < sc_workers (sy_sched s) \<Longrightarrow> sc_queue (sy_sched s) \<noteq> [] \<Longrightarrow>
    vla_step hc Ev_internal s (pool_take now s)"
| Start: "At_start j i b \<in> set (sy_threads s) \<Longrightarrow> vla_step hc Ev_internal s (start_job now j i b s)"
| Partial: "At_infer j i b \<in> set (sy_threads s) \<Longrightarrow> vla_step hc Ev_internal s (snd (on_partial part i s))"
| Flag: "At_infer j i b \<in> set (sy_threads s) \<Longrightarrow> vla_step hc Ev_internal s (raise_cancel_flag i s)"
| Returns: "At_infer j i b \<in> set (sy_threads s) \<Longrightarrow> vla_step hc Ev_internal s (backend_returns j i b out s)"
| Finish: "At_finish j i out \<in> set (sy_threads s) \<Longrightarrow> vla_step hc Ev_internal s (finish_job hc now ts j i out s)"
| Job_record: "At_job_record j rec \<in> set (sy_threads s) \<Longrightarrow> vla_step hc Ev_internal s (finish_job_record j rec s)"
| Return: "At_return j \<in> set (sy_threads s) \<Longrightarrow> vla_step hc Ev_internal s (pool_return now j s)"
| Configure: "vla_config hc (sy_service s) sv \<Longrightarrow> vla_step hc Ev_internal s (s\<lparr>sy_service := sv\<rparr>)"
| Other_submit: "sched_submit has_fn name now (sy_sched s) = Inr (j, sc) \<Longrightarrow> vla_step hc Ev_internal s (s\<lparr>sy_sched := sc\<rparr>)"
| Other_cancel: "sy_fn s j = None \<Longrightarrow> vla_step hc Ev_internal s (sched_cancel_in j now s)"
| Other_return: "j \<in> set (sc_active (sy_sched s)) \<Longrightarrow> sy_fn s j = None \<Longrightarrow>
    vla_step hc Ev_internal s (s\<lparr>sy_sched := worker_finish j out now (sy_sched s)\<rparr>)"

text \<open>Runs, with the events of the calls in order, and the states a service can get into.\<close>

inductive vla_run :: "host_choices \<Rightarrow> vla_event list \<Rightarrow> vla_system \<Rightarrow> vla_system \<Rightarrow> bool" where
  Stay: "vla_run hc [] s s"
| More: "vla_run hc evs s s' \<Longrightarrow> vla_step hc ev s' s'' \<Longrightarrow> vla_run hc (evs @ [ev]) s s''"

definition vla_reachable :: "host_choices \<Rightarrow> vla_system \<Rightarrow> bool" where
  "vla_reachable hc s \<longleftrightarrow> (\<exists>evs hardware requested. vla_run hc evs (vla_system_new hardware requested) s)"

inductive_cases vla_configE: "vla_config hc sv sv'"
inductive_cases vla_stepE: "vla_step hc ev s s'"

end
