(* ===== verification/Vla_Jobs.thy ===== *)
theory Vla_Jobs
  imports Vla_Service
begin

text \<open>
  What holds of the jobs of the VLA service whatever the clients, the workers and the backends do and
  in whatever order: a job is worked on at most once, a released action passed the checks, a
  finished job stays as it is, and a cancelled job is never reported as done.
\<close>

subsection \<open>The fields an update touches\<close>

lemma system_fields [simp]:
  "sy_service (update_service f s) = f (sy_service s)" "sy_sched (update_service f s) = sy_sched s"
  "sy_fn (update_service f s) = sy_fn s" "sy_threads (update_service f s) = sy_threads s"
  "sy_service (advance pc pcs s) = sy_service s" "sy_sched (advance pc pcs s) = sy_sched s"
  "sy_fn (advance pc pcs s) = sy_fn s" "sy_threads (advance pc pcs s) = pcs @ remove1 pc (sy_threads s)"
  "sy_service (spawn pc s) = sy_service s" "sy_sched (spawn pc s) = sy_sched s"
  "sy_fn (spawn pc s) = sy_fn s" "sy_threads (spawn pc s) = pc # sy_threads s"
  "sy_service (sched_cancel_in j now s) = sy_service s" "sy_fn (sched_cancel_in j now s) = sy_fn s"
  "sy_threads (sched_cancel_in j now s) = sy_threads s"
  "sy_sched (sched_cancel_in j now s) = snd (sched_cancel j now (sy_sched s))"
  by (simp_all add: update_service_def advance_def spawn_def sched_cancel_in_def)

lemma update_job_fields [simp]:
  "sv_jobs (update_job i f sv) = (sv_jobs sv)(i := map_option f (sv_jobs sv i))"
  "sv_next_job_id (update_job i f sv) = sv_next_job_id sv" "sv_cache (update_job i f sv) = sv_cache sv"
  "sv_cache_capacity (update_job i f sv) = sv_cache_capacity sv" "sv_records (update_job i f sv) = sv_records sv"
  "sv_active_owner_jobs (update_job i f sv) = sv_active_owner_jobs sv"
  "sv_replay_store (update_job i f sv) = sv_replay_store sv"
  by (simp_all add: update_job_def)

lemma append_record_fields [simp]:
  "sv_jobs (append_record rec sv) = sv_jobs sv" "sv_next_job_id (append_record rec sv) = sv_next_job_id sv"
  "sv_cache (append_record rec sv) = sv_cache sv" "sv_cache_capacity (append_record rec sv) = sv_cache_capacity sv"
  "sv_replay_store (append_record rec sv) = sv_replay_store sv"
  by (simp_all add: append_record_def Let_def)

lemma release_owner_fields [simp]:
  "sv_jobs (release_owner i req sv) = sv_jobs sv" "sv_next_job_id (release_owner i req sv) = sv_next_job_id sv"
  "sv_cache (release_owner i req sv) = sv_cache sv" "sv_cache_capacity (release_owner i req sv) = sv_cache_capacity sv"
  "sv_records (release_owner i req sv) = sv_records sv" "sv_replay_store (release_owner i req sv) = sv_replay_store sv"
  by (simp_all add: release_owner_def)

lemma evict_fields [simp]:
  "sv_jobs (evict_cache_if_needed hc sv) = sv_jobs sv" "sv_next_job_id (evict_cache_if_needed hc sv) = sv_next_job_id sv"
  "sv_cache_capacity (evict_cache_if_needed hc sv) = sv_cache_capacity sv"
  "sv_records (evict_cache_if_needed hc sv) = sv_records sv"
  "sv_replay_store (evict_cache_if_needed hc sv) = sv_replay_store sv"
  by (simp_all add: evict_cache_if_needed_def)

lemma remember_fields [simp]:
  "sv_jobs (remember_response hc fin job r sv) = sv_jobs sv"
  "sv_next_job_id (remember_response hc fin job r sv) = sv_next_job_id sv"
  "sv_cache_capacity (remember_response hc fin job r sv) = sv_cache_capacity sv"
  "sv_records (remember_response hc fin job r sv) = sv_records sv"
  by (simp_all add: remember_response_def)

lemma config_fields:
  assumes "vla_config hc sv sv'"
  shows "sv_jobs sv' = sv_jobs sv \<and> sv_next_job_id sv' = sv_next_job_id sv \<and> sv_replay_store sv' = sv_replay_store sv"
  using assms
  by cases (auto simp: register_backend_def set_default_backend_def create_image_def create_blob_def set_log_path_def
      set_cache_ttl_ms_def set_log_enabled_def set_record_listener_def clear_records_def set_cache_capacity_def
      guard_err_def Let_def split: if_splits option.splits)

subsection \<open>Who works on a job\<close>

text \<open>
  A job of the service is carried by a client that is about to hand it to the scheduler, by a waiting
  job of the scheduler, or by a worker that has not settled it yet.
\<close>

fun pc_carries :: "vla_pc \<Rightarrow> nat list" where
  "pc_carries (At_resolve i) = [i]"
| "pc_carries (At_no_backend i) = [i]"
| "pc_carries (At_schedule i b) = [i]"
| "pc_carries (At_start j i b) = [i]"
| "pc_carries (At_infer j i b) = [i]"
| "pc_carries (At_finish j i out) = [i]"
| "pc_carries _ = []"

fun pc_worker :: "vla_pc \<Rightarrow> job_id list" where
  "pc_worker (At_start j i b) = [j]"
| "pc_worker (At_infer j i b) = [j]"
| "pc_worker (At_finish j i out) = [j]"
| "pc_worker (At_job_record j rec) = [j]"
| "pc_worker (At_return j) = [j]"
| "pc_worker _ = []"

abbreviation threads_at :: "(vla_pc \<Rightarrow> nat list) \<Rightarrow> vla_pc list \<Rightarrow> nat multiset" where
  "threads_at f ts \<equiv> mset (concat (map f ts))"

definition fn_carries :: "(nat \<times> vla_backend) option \<Rightarrow> nat list" where
  "fn_carries c = (case c of None \<Rightarrow> [] | Some (i, b) \<Rightarrow> [i])"

definition queue_carries :: "unit sched \<Rightarrow> (job_id \<Rightarrow> (nat \<times> vla_backend) option) \<Rightarrow> nat multiset" where
  "queue_carries sc fn =
     mset (concat (map (\<lambda>j. if status_at sc j = J_queued then fn_carries (fn j) else []) (sc_queue sc)))"

definition carried :: "vla_system \<Rightarrow> nat multiset" where
  "carried s = threads_at pc_carries (sy_threads s) + queue_carries (sy_sched s) (sy_fn s)"

lemma fn_carries_simps [simp]: "fn_carries None = []" "fn_carries (Some (i, b)) = [i]"
  by (simp_all add: fn_carries_def)

lemma threads_remove: "pc \<in> set ts \<Longrightarrow> threads_at f ts = mset (f pc) + threads_at f (remove1 pc ts)"
  by (induction ts) auto

text \<open>One entry of a list of guarded values is switched off.\<close>

lemma concat_switch_off:
  "distinct xs \<Longrightarrow>
     mset (concat (map (\<lambda>x. if p x then g x else []) xs)) =
     mset (concat (map (\<lambda>x. if x \<noteq> k \<and> p x then g x else []) xs)) + (if k \<in> set xs \<and> p k then mset (g k) else {#})"
  by (induction xs) auto

lemma queue_carries_cong:
  assumes "sc_queue sc' = sc_queue sc" "\<And>j. j \<in> set (sc_queue sc) \<Longrightarrow> status_at sc' j = J_queued \<longleftrightarrow> status_at sc j = J_queued"
  shows "queue_carries sc' fn = queue_carries sc fn"
  unfolding queue_carries_def assms(1)
  by (intro arg_cong [of _ _ "\<lambda>x. mset (concat x)"] map_cong) (auto simp: assms(2))

lemma queue_known: "sched_inv sc \<Longrightarrow> j \<in> set (sc_queue sc) \<Longrightarrow> j < sc_next_job_id sc"
  using inv_known [of sc j] by (auto simp: sched_inv_def queue_ok_def inv_ids_def)

lemma queue_submit:
  assumes inv: "sched_inv sc" and sub: "sched_submit has_fn name now sc = Inr (j, sc')"
  shows "queue_carries sc' (fn(j := c)) = queue_carries sc fn + mset (fn_carries c)"
    "j = sc_next_job_id sc" "sc_next_job_id sc' = Suc j" "sc_active sc' = sc_active sc"
proof -
  show j: "j = sc_next_job_id sc" "sc_next_job_id sc' = Suc j" "sc_active sc' = sc_active sc"
    using sub by (auto simp: sched_submit_def Let_def split: if_splits)
  have q: "sc_queue sc' = sc_queue sc @ [j]" "status_at sc' = (status_at sc)(j := J_queued)"
    using sub by (auto simp: sched_submit_def Let_def status_at_alt fun_eq_iff split: if_splits)
  have "map (\<lambda>k. if status_at sc' k = J_queued then fn_carries ((fn(j := c)) k) else []) (sc_queue sc) =
      map (\<lambda>k. if status_at sc k = J_queued then fn_carries (fn k) else []) (sc_queue sc)"
    using queue_known [OF inv] j(1) by (intro map_cong) (auto simp: q(2))
  from arg_cong [OF this, of "\<lambda>x. mset (concat x)"]
  show "queue_carries sc' (fn(j := c)) = queue_carries sc fn + mset (fn_carries c)"
    by (simp add: queue_carries_def q)
qed

lemma queue_cancel:
  assumes inv: "sched_inv sc"
  shows "queue_carries sc fn = queue_carries (snd (sched_cancel j now sc)) fn +
    (if status_at sc j = J_queued then mset (fn_carries (fn j)) else {#})"
proof -
  have q: "sc_queue (snd (sched_cancel j now sc)) = sc_queue sc"
    by (auto simp: sched_cancel_def split: option.splits)
  have st: "status_at (snd (sched_cancel j now sc)) k = J_queued \<longleftrightarrow> k \<noteq> j \<and> status_at sc k = J_queued" for k
    using pool.cancel_status [OF inv, where i = j and j = k and t = now] by auto
  have "distinct (sc_queue sc)" "status_at sc j = J_queued \<Longrightarrow> j \<in> set (sc_queue sc)"
    using inv by (auto simp: sched_inv_def queue_ok_def)
  then show ?thesis
    using concat_switch_off [of "sc_queue sc" "\<lambda>k. status_at sc k = J_queued" "\<lambda>k. fn_carries (fn k)" j]
    by (auto simp: queue_carries_def q st)
qed

lemma queue_finish:
  assumes "sched_inv sc" "j \<in> set (sc_active sc)"
  shows "queue_carries (worker_finish j out now sc) fn = queue_carries sc fn"
    "sc_active (worker_finish j out now sc) = remove1 j (sc_active sc)"
    "sc_next_job_id (worker_finish j out now sc) = sc_next_job_id sc"
proof -
  have "status_at sc j = J_running" using assms by (auto simp: sched_inv_def active_ok_def)
  then obtain st where st: "sc_jobs sc j = Some st" "js_status st = J_running"
    by (auto simp: status_at_alt split: option.splits)
  from st(1) obtain st' where e: "sc_jobs (worker_finish j out now sc) = (sc_jobs sc)(j \<mapsto> st')"
    "js_status st' = finish_status out st" "sc_active (worker_finish j out now sc) = remove1 j (sc_active sc)"
    "sc_queue (worker_finish j out now sc) = sc_queue sc"
    "sc_next_job_id (worker_finish j out now sc) = sc_next_job_id sc"
    by (rule finish_effect) blast
  then show "sc_active (worker_finish j out now sc) = remove1 j (sc_active sc)"
    "sc_next_job_id (worker_finish j out now sc) = sc_next_job_id sc" by simp_all
  have "finish_status out st \<noteq> J_queued" by (auto simp: finish_status_def split: sum.splits)
  then show "queue_carries (worker_finish j out now sc) fn = queue_carries sc fn"
    using e st by (intro queue_carries_cong) (auto simp: status_at_alt)
qed

text \<open>A worker takes the front of the queue: it skips a cancelled job and makes a waiting one active.\<close>

lemma queue_take:
  assumes inv: "sched_inv sc" and ne: "sc_queue sc \<noteq> []"
  obtains (skip) "sc_active (worker_take now sc) = sc_active sc" "sc_next_job_id (worker_take now sc) = sc_next_job_id sc"
      "\<And>fn. queue_carries (worker_take now sc) fn = queue_carries sc fn"
  | (run) j where "sc_active (worker_take now sc) = j # sc_active sc" "j \<notin> set (sc_active sc)"
      "sc_next_job_id (worker_take now sc) = sc_next_job_id sc"
      "\<And>fn. queue_carries sc fn = mset (fn_carries (fn j)) + queue_carries (worker_take now sc) fn"
proof -
  obtain j rest where q: "sc_queue sc = j # rest" using ne by (cases "sc_queue sc") auto
  have st: "status_at sc j = J_queued \<or> status_at sc j = J_cancelled" and d: "j \<notin> set rest"
    using inv q by (auto simp: sched_inv_def queue_ok_def)
  then obtain job where job: "sc_jobs sc j = Some job" by (auto simp: status_at_alt split: option.splits)
  show thesis
  proof (cases "js_status job = J_cancelled")
    case True
    then have "worker_take now sc = sc\<lparr>sc_queue := rest\<rparr>" using q job by (simp add: worker_take_def)
    with True q job show thesis by (intro skip) (simp_all add: queue_carries_def status_at_alt)
  next
    case False
    with st job have queued: "status_at sc j = J_queued" by (simp add: status_at_alt)
    then have "j \<notin> set (sc_active sc)"
      using inv unfolding sched_inv_def active_ok_def by (metis job_status.distinct(1))
    moreover from False q job have eff: "sc_active (worker_take now sc) = j # sc_active sc"
      "sc_next_job_id (worker_take now sc) = sc_next_job_id sc" "sc_queue (worker_take now sc) = rest"
      "status_at (worker_take now sc) = (status_at sc)(j := J_running)"
      by (auto simp: worker_take_def Let_def status_at_alt fun_eq_iff)
    moreover have "queue_carries sc fn = mset (fn_carries (fn j)) + queue_carries (worker_take now sc) fn" for fn
    proof -
      have "map (\<lambda>k. if status_at (worker_take now sc) k = J_queued then fn_carries (fn k) else []) rest =
          map (\<lambda>k. if status_at sc k = J_queued then fn_carries (fn k) else []) rest"
        using d by (intro map_cong) (auto simp: eff(4))
      then show ?thesis by (simp only: queue_carries_def eff(3) q) (simp add: queued)
    qed
    ultimately show thesis by (intro run) auto
  qed
qed

subsection \<open>A job is worked on once\<close>

text \<open>A job that somebody carries passed the check of its request and is not done yet.\<close>

definition pending :: "vla_service \<Rightarrow> nat \<Rightarrow> bool" where
  "pending sv i \<longleftrightarrow> (\<exists>job. sv_jobs sv i = Some job \<and> validate_request_shape (vj_request job) = None \<and> vj_status job \<noteq> VJ_done)"

definition ids_ok :: "vla_service \<Rightarrow> bool" where
  "ids_ok sv \<longleftrightarrow> 0 < sv_next_job_id sv \<and> (\<forall>i. sv_jobs sv i \<noteq> None \<longleftrightarrow> 1 \<le> i \<and> i < sv_next_job_id sv)"

definition workers_ok :: "vla_system \<Rightarrow> bool" where
  "workers_ok s \<longleftrightarrow> threads_at pc_worker (sy_threads s) \<subseteq># mset (sc_active (sy_sched s)) \<and>
     (\<forall>j \<in># threads_at pc_worker (sy_threads s). sy_fn s j \<noteq> None)"

text \<open>\<open>X\<close> are jobs that nobody carries any more.\<close>

definition carried_ok :: "nat set \<Rightarrow> vla_system \<Rightarrow> bool" where
  "carried_ok X s \<longleftrightarrow> (\<forall>i. count (carried s) i \<le> 1) \<and> (\<forall>i \<in># carried s. i \<notin> X \<and> pending (sy_service s) i)"

definition fn_ok :: "vla_system \<Rightarrow> bool" where
  "fn_ok s \<longleftrightarrow> (\<forall>j. sy_fn s j \<noteq> None \<longrightarrow> j < sc_next_job_id (sy_sched s))"

definition tokens_ok :: "nat set \<Rightarrow> vla_system \<Rightarrow> bool" where
  "tokens_ok X s \<longleftrightarrow> ids_ok (sy_service s) \<and> (\<forall>i \<in> X. i < sv_next_job_id (sy_service s)) \<and> sched_inv (sy_sched s) \<and> fn_ok s \<and> workers_ok s \<and> carried_ok X s"

lemma carried_okI:
  assumes "carried_ok X s" "carried s' \<subseteq># carried s"
    and "\<And>i. i \<in># carried s' \<Longrightarrow> pending (sy_service s) i \<Longrightarrow> pending (sy_service s') i"
  shows "carried_ok X s'"
  unfolding carried_ok_def
proof (intro conjI allI ballI)
  fix i show "count (carried s') i \<le> 1"
    using assms(1) mset_subset_eq_count [OF assms(2), of i] by (simp add: carried_ok_def) (metis le_trans)
next
  fix i assume "i \<in># carried s'"
  with assms show "i \<notin> X" "pending (sy_service s') i" by (auto simp: carried_ok_def dest: mset_subset_eqD)
qed

lemma carried_okD: "carried_ok X s \<Longrightarrow> i \<in># carried s \<Longrightarrow> pending (sy_service s) i"
  by (simp add: carried_ok_def)

lemma tokens_okD:
  assumes "tokens_ok X s"
  shows "ids_ok (sy_service s)" "sched_inv (sy_sched s)" "carried_ok X s"
    "sv_jobs (sy_service s) i = Some job \<Longrightarrow> 0 < i \<and> i < sv_next_job_id (sy_service s)"
    "sv_jobs (sy_service s) (sv_next_job_id (sy_service s)) = None"
proof -
  show ids: "ids_ok (sy_service s)" "sched_inv (sy_sched s)" "carried_ok X s" using assms by (simp_all add: tokens_ok_def)
  have eq: "sv_jobs (sy_service s) k \<noteq> None \<longleftrightarrow> 1 \<le> k \<and> k < sv_next_job_id (sy_service s)" for k
    using ids(1) by (simp add: ids_ok_def)
  show "sv_jobs (sy_service s) i = Some job \<Longrightarrow> 0 < i \<and> i < sv_next_job_id (sy_service s)" using eq [of i] by simp
  show "sv_jobs (sy_service s) (sv_next_job_id (sy_service s)) = None" using eq [of "sv_next_job_id (sy_service s)"] by simp
qed

lemma fresh_not_carried: "tokens_ok X s \<Longrightarrow> sv_next_job_id (sy_service s) \<notin># carried s"
  using carried_okD [OF tokens_okD(3), of X s "sv_next_job_id (sy_service s)"] tokens_okD(5) [of X s] by (auto simp: pending_def)

subsubsection \<open>The parts of a step keep it so\<close>

text \<open>Changes of a job that neither touch its request nor make it done.\<close>

definition keeps_pending :: "(vla_job \<Rightarrow> vla_job) \<Rightarrow> bool" where
  "keeps_pending f \<longleftrightarrow> (\<forall>job. vj_request (f job) = vj_request job \<and> (vj_status job \<noteq> VJ_done \<longrightarrow> vj_status (f job) \<noteq> VJ_done))"

lemma ids_ok_update [simp]: "ids_ok (update_job i f sv) = ids_ok sv"
  by (auto simp: ids_ok_def)

lemma tokens_update:
  assumes "tokens_ok X s" "keeps_pending f \<or> i \<notin># carried s"
  shows "tokens_ok X (update_service (update_job i f) s)"
proof -
  have c: "carried (update_service (update_job i f) s) = carried s" by (simp add: carried_def)
  have "pending (sy_service (update_service (update_job i f) s)) k" if "k \<in># carried s" "pending (sy_service s) k" for k
    using assms(2) that by (auto simp: pending_def keeps_pending_def)
  then have "carried_ok X (update_service (update_job i f) s)" 
    by (intro carried_okI [OF tokens_okD(3) [OF assms(1)]]) (simp_all add: c)
  with assms(1) show ?thesis by (simp add: tokens_ok_def workers_ok_def fn_ok_def)
qed

lemma tokens_service:
  assumes "tokens_ok X s" "sv_jobs (g (sy_service s)) = sv_jobs (sy_service s)"
    "sv_next_job_id (g (sy_service s)) = sv_next_job_id (sy_service s)"
  shows "tokens_ok X (update_service g s)"
  using assms by (simp add: tokens_ok_def workers_ok_def fn_ok_def carried_ok_def carried_def ids_ok_def pending_def)

lemma tokens_spawn:
  assumes "tokens_ok X s" "pc_carries pc = []" "pc_worker pc = []"
  shows "tokens_ok X (spawn pc s)"
  using assms by (simp add: tokens_ok_def workers_ok_def fn_ok_def carried_ok_def carried_def)

lemma carried_advance:
  assumes "pc \<in> set (sy_threads s)"
  shows "carried s + threads_at pc_carries pcs = carried (advance pc pcs s) + mset (pc_carries pc)"
  using threads_remove [OF assms, of pc_carries] by (simp add: carried_def)

lemma tokens_advance:
  assumes ok: "tokens_ok X s" and pc: "pc \<in> set (sy_threads s)"
    and c: "threads_at pc_carries pcs \<subseteq># mset (pc_carries pc)" and w: "concat (map pc_worker pcs) = pc_worker pc"
  shows "tokens_ok X (advance pc pcs s)"
proof -
  have "carried (advance pc pcs s) \<subseteq># carried s"
    using carried_advance [OF pc, of pcs] c by (metis subset_mset.add_le_cancel_right subset_mset.add_left_mono)
  then have "carried_ok X (advance pc pcs s)" by (rule carried_okI [OF tokens_okD(3) [OF ok]]) simp
  moreover have "threads_at pc_worker (sy_threads (advance pc pcs s)) = threads_at pc_worker (sy_threads s)"
    using threads_remove [OF pc, of pc_worker] w by simp
  then have "workers_ok (advance pc pcs s)" using ok by (simp add: tokens_ok_def workers_ok_def)
  ultimately show ?thesis using ok by (simp add: tokens_ok_def fn_ok_def)
qed

lemma tokens_cancel:
  assumes ok: "tokens_ok X s"
  shows "tokens_ok X (sched_cancel_in j now s)" "carried (sched_cancel_in j now s) \<subseteq># carried s"
proof -
  have inv: "sched_inv (sy_sched s)" using ok by (simp add: tokens_ok_def)
  show sub: "carried (sched_cancel_in j now s) \<subseteq># carried s"
    using queue_cancel [OF inv, of "sy_fn s" j now] by (simp add: carried_def)
  have "sc_active (snd (sched_cancel j now (sy_sched s))) = sc_active (sy_sched s)"
    "sc_next_job_id (snd (sched_cancel j now (sy_sched s))) = sc_next_job_id (sy_sched s)"
    by (auto simp: sched_cancel_def split: option.splits)
  moreover have "carried_ok X (sched_cancel_in j now s)" using sub by (rule carried_okI [OF tokens_okD(3) [OF ok]]) simp
  ultimately show "tokens_ok X (sched_cancel_in j now s)"
    using ok pool.cancel_inv [OF inv] by (simp add: tokens_ok_def workers_ok_def fn_ok_def)
qed

lemma tokens_admit:
  assumes "tokens_ok X s" "i = sv_next_job_id (sy_service s)"
  shows "tokens_ok X (update_service (admit_job i now req) s)"
proof -
  have "i \<notin># carried s" using fresh_not_carried [OF assms(1)] assms(2) by simp
  then have "pending (admit_job i now req (sy_service s)) k" if "k \<in># carried s" "pending (sy_service s) k" for k
    using that by (auto simp: pending_def admit_job_def)
  then have "carried_ok X (update_service (admit_job i now req) s)"
    by (intro carried_okI [OF tokens_okD(3) [OF assms(1)]]) (simp_all add: carried_def)
  with assms show ?thesis
    by (auto simp: tokens_ok_def workers_ok_def fn_ok_def ids_ok_def admit_job_def)
qed

lemma tokens_resolve:
  assumes "tokens_ok X s" "i \<notin># carried s" "i \<notin> X" "pending (sy_service s) i"
  shows "tokens_ok X (spawn (At_resolve i) s)"
proof -
  have "carried (spawn (At_resolve i) s) = add_mset i (carried s)" by (simp add: carried_def)
  with assms have "carried_ok X (spawn (At_resolve i) s)"
    by (auto simp: tokens_ok_def carried_ok_def not_in_iff)
  with assms show ?thesis by (simp add: tokens_ok_def workers_ok_def fn_ok_def)
qed

text \<open>What the scheduler does with the jobs of the service and of others.\<close>

lemma tokens_schedule:
  assumes ok: "tokens_ok X s" and pc: "At_schedule i b \<in> set (sy_threads s)"
  shows "tokens_ok X (submit_schedule now i b s)"
proof -
  obtain j sc where sub: "sched_submit True ''vla.submit'' now (sy_sched s) = Inr (j, sc)"
    by (simp add: sched_submit_def Let_def)
  note inv = tokens_okD(2) [OF ok]
  note q = queue_submit [OF inv sub]
  define s' where "s' = submit_schedule now i b s"
  have s': "sy_service s' = sy_service s" "sy_sched s' = sc" "sy_fn s' = (sy_fn s)(j \<mapsto> (i, b))"
    "sy_threads s' = At_assign i j # remove1 (At_schedule i b) (sy_threads s)"
    by (simp_all add: s'_def submit_schedule_def sub)
  have "carried s' = carried s"
    using threads_remove [OF pc, of pc_carries] q(1) [of "sy_fn s" "Some (i, b)"] by (simp add: carried_def s')
  then have "carried_ok X s'" by (intro carried_okI [OF tokens_okD(3) [OF ok]]) (simp_all add: s')
  moreover have "threads_at pc_worker (sy_threads s') = threads_at pc_worker (sy_threads s)"
    using threads_remove [OF pc, of pc_worker] by (simp add: s')
  then have "workers_ok s'" using ok q(4) by (simp add: tokens_ok_def workers_ok_def s')
  moreover have "fn_ok s'" using ok q(2,3) by (auto simp: tokens_ok_def fn_ok_def s' less_Suc_eq)
  moreover have "sched_inv sc" by (rule submit_inv [OF inv sub])
  ultimately show ?thesis using ok by (simp add: tokens_ok_def s' flip: s'_def)
qed

lemma tokens_other_submit:
  assumes ok: "tokens_ok X s" and sub: "sched_submit has_fn name now (sy_sched s) = Inr (j, sc)"
  shows "tokens_ok X (s\<lparr>sy_sched := sc\<rparr>)"
proof -
  note inv = tokens_okD(2) [OF ok]
  note q = queue_submit [OF inv sub]
  have "sy_fn s j = None" using ok q(2) unfolding tokens_ok_def fn_ok_def by (metis less_irrefl)
  then have "(sy_fn s)(j := None) = sy_fn s" by auto
  with q(1) [of "sy_fn s" None] have "carried (s\<lparr>sy_sched := sc\<rparr>) = carried s" by (simp add: carried_def)
  then show ?thesis
    using ok q(2-4) submit_inv [OF inv sub] by (auto simp: tokens_ok_def carried_ok_def workers_ok_def fn_ok_def less_Suc_eq)
qed

lemma tokens_take:
  assumes ok: "tokens_ok X s" and room: "length (sc_active (sy_sched s)) < sc_workers (sy_sched s)" "sc_queue (sy_sched s) \<noteq> []"
  shows "tokens_ok X (pool_take now s)"
proof -
  note inv = tokens_okD(2) [OF ok]
  define sc where "sc = worker_take now (sy_sched s)"
  have "sched_step (sy_sched s) sc" unfolding sc_def using room by (rule sched_step.Take)
  then have inv': "sched_inv sc" using inv by (rule step_inv [rotated])
  from inv room(2) show ?thesis
  proof (cases rule: queue_take [where now = now])
    case skip
    then have "pool_take now s = s\<lparr>sy_sched := sc\<rparr>"
      by (simp add: pool_take_def Let_def sc_def split: list.split)
    with ok skip inv' show ?thesis
      by (simp add: tokens_ok_def carried_ok_def carried_def workers_ok_def fn_ok_def flip: sc_def)
  next
    case (run j)
    define s' where "s' = pool_take now s"
    have s': "sy_service s' = sy_service s" "sy_sched s' = sc" "sy_fn s' = sy_fn s"
      "sy_threads s' = (case sy_fn s j of None \<Rightarrow> [] | Some (i, b) \<Rightarrow> [At_start j i b]) @ sy_threads s"
      using run(1) by (auto simp: s'_def pool_take_def Let_def sc_def split: option.splits)
    have "carried s' = carried s"
      using run(4) [of "sy_fn s"] by (auto simp: carried_def s' simp flip: sc_def split: option.splits)
    then have "carried_ok X s'" by (intro carried_okI [OF tokens_okD(3) [OF ok]]) (simp_all add: s')
    moreover have "workers_ok s'"
      using ok run(1,2) by (auto simp: tokens_ok_def workers_ok_def s' simp flip: sc_def split: option.splits
          intro: subset_mset.order_trans)
    ultimately show ?thesis using ok inv' run(3) by (simp add: tokens_ok_def fn_ok_def s' flip: s'_def sc_def)
  qed
qed

lemma tokens_return:
  assumes ok: "tokens_ok X s" and act: "j \<in> set (sc_active (sy_sched s))"
    and s': "sy_service s' = sy_service s" "sy_sched s' = worker_finish j out now (sy_sched s)" "sy_fn s' = sy_fn s"
      "threads_at pc_carries (sy_threads s') = threads_at pc_carries (sy_threads s)"
      "threads_at pc_worker (sy_threads s') = threads_at pc_worker (sy_threads s) - {#j#}"
  shows "tokens_ok X s'"
proof -
  note inv = tokens_okD(2) [OF ok]
  note q = queue_finish [OF inv act]
  have "carried s' = carried s" using q(1) by (simp add: carried_def s')
  then have "carried_ok X s'" by (intro carried_okI [OF tokens_okD(3) [OF ok]]) (simp_all add: s')
  moreover have "workers_ok s'"
  proof -
    have w: "workers_ok s" using ok by (simp add: tokens_ok_def)
    show ?thesis
      unfolding workers_ok_def s' q(2)
    proof (intro conjI ballI)
      show "threads_at pc_worker (sy_threads s) - {#j#} \<subseteq># mset (remove1 j (sc_active (sy_sched s)))"
        using w by (simp add: workers_ok_def subseteq_mset_def diff_le_mono)
      fix k assume "k \<in># threads_at pc_worker (sy_threads s) - {#j#}"
      then have "k \<in># threads_at pc_worker (sy_threads s)" by (rule in_diffD)
      with w show "sy_fn s k \<noteq> None" unfolding workers_ok_def by blast
    qed
  qed
  ultimately show ?thesis using ok finish_inv [OF inv act] by (simp add: tokens_ok_def fn_ok_def s' q(3))
qed

subsubsection \<open>Every step keeps it so\<close>

lemma advance_update: "advance pc pcs (update_service f s) = update_service f (advance pc pcs s)"
  by (simp add: advance_def update_service_def)

lemma keeps_pending_intros [simp]:
  "keeps_pending (\<lambda>j. j\<lparr>vj_cancel_requested := True, vj_superseded := True\<rparr>)"
  "keeps_pending (\<lambda>j. j\<lparr>vj_cancel_requested := True\<rparr>)"
  "keeps_pending (\<lambda>j. j\<lparr>vj_status := VJ_error, vj_final := r, vj_finished_at := t\<rparr>)"
  "keeps_pending (\<lambda>j. j\<lparr>vj_status := VJ_error, vj_final := r, vj_finished_at := t, vj_error := why\<rparr>)"
  "keeps_pending (\<lambda>j. j\<lparr>vj_status := VJ_cancelled, vj_finished_at := t, vj_final := r\<rparr>)"
  "keeps_pending (\<lambda>j. j\<lparr>vj_scheduler_job_id := k\<rparr>)"
  "keeps_pending (\<lambda>j. j\<lparr>vj_status := VJ_running, vj_started_at := t\<rparr>)"
  "keeps_pending (note_partial part)"
  by (simp_all add: keeps_pending_def note_partial_def)

lemma tokens_supersede:
  assumes "tokens_ok X s"
  shows "tokens_ok X (supersede owner now s)" "carried (supersede owner now s) \<subseteq># carried s"
proof -
  have c: "carried (update_service (update_job i f) s) = carried s" for i f by (simp add: carried_def)
  show "tokens_ok X (supersede owner now s)" "carried (supersede owner now s) \<subseteq># carried s"
    using assms tokens_cancel [OF tokens_update [OF assms disjI1 [OF keeps_pending_intros(1)]]]
    by (auto simp: supersede_def Let_def tokens_update c split: option.split)
qed

text \<open>The first section of \<open>submit\<close> in parts: the job is entered, then it becomes the job of its owner.\<close>

definition admitted :: "time_ns \<Rightarrow> vla_request \<Rightarrow> vla_system \<Rightarrow> vla_system" where
  "admitted now req s = update_service (admit_job (sv_next_job_id (sy_service s)) now req) s"

definition claimed :: "time_ns \<Rightarrow> vla_request \<Rightarrow> vla_system \<Rightarrow> vla_system" where
  "claimed now req s =
     update_service (\<lambda>sv. sv\<lparr>sv_active_owner_jobs :=
         alist_put (make_owner_key req) (sv_next_job_id (sy_service s)) (sv_active_owner_jobs sv)\<rparr>)
       (supersede (make_owner_key req) now (admitted now req s))"

lemma submit_parts:
  "submit_enter hc now ts req s =
     (let i = sv_next_job_id (sy_service s) in
      case request_error req (sy_service (admitted now req s)) of
        Some why \<Rightarrow> refuse_job hc now ts i req why (admitted now req s)
      | None \<Rightarrow>
          (case fresh_entry (hash_request req) now (sy_service (claimed now req s)) of
             Some e \<Rightarrow> answer_from_cache hc now ts i req (ce_response e) (claimed now req s)
           | None \<Rightarrow> spawn (At_resolve i) (claimed now req s)))"
  by (simp only: submit_enter_def Let_def admitted_def claimed_def)

lemma admitted_jobs [simp]:
  "sv_jobs (sy_service (admitted now req s)) =
     (sv_jobs (sy_service s))(sv_next_job_id (sy_service s) \<mapsto> new_job (sv_next_job_id (sy_service s)) now req)"
  by (simp add: admitted_def admit_job_def)

lemma admitted_fields [simp]:
  "sy_sched (admitted now req s) = sy_sched s" "sy_fn (admitted now req s) = sy_fn s"
  "sy_threads (admitted now req s) = sy_threads s" "sv_cache (sy_service (admitted now req s)) = sv_cache (sy_service s)"
  "sv_active_owner_jobs (sy_service (admitted now req s)) = sv_active_owner_jobs (sy_service s)"
  by (simp_all add: admitted_def admit_job_def)

lemma supersede_at:
  "sv_jobs (sy_service (supersede owner now s)) i = sv_jobs (sy_service s) i \<or>
   (\<exists>job. sv_jobs (sy_service s) i = Some job \<and> \<not> is_terminal (vj_status job) \<and>
     sv_jobs (sy_service (supersede owner now s)) i = Some (job\<lparr>vj_cancel_requested := True, vj_superseded := True\<rparr>))"
  by (auto simp: supersede_def Let_def split: option.split)

lemma claimed_new:
  obtains job where "sv_jobs (sy_service (claimed now req s)) (sv_next_job_id (sy_service s)) = Some job"
    "vj_request job = req" "vj_request_hash job = hash_request req" "vj_status job = VJ_queued"
  using supersede_at [of "make_owner_key req" now "admitted now req s" "sv_next_job_id (sy_service s)"]
  by (auto simp: claimed_def new_job_def)

lemma claimed_old:
  assumes "i \<noteq> sv_next_job_id (sy_service s)"
  shows "sv_jobs (sy_service (claimed now req s)) i = sv_jobs (sy_service s) i \<or>
    (\<exists>job. sv_jobs (sy_service s) i = Some job \<and> \<not> is_terminal (vj_status job) \<and>
      sv_jobs (sy_service (claimed now req s)) i = Some (job\<lparr>vj_cancel_requested := True, vj_superseded := True\<rparr>))"
  using assms supersede_at [of "make_owner_key req" now "admitted now req s" i] by (simp add: claimed_def)

lemma tokens_submit:
  assumes ok: "tokens_ok X s"
  shows "tokens_ok X (submit_enter hc now ts req s)"
proof -
  define i where "i = sv_next_job_id (sy_service s)"
  let ?s1 = "admitted now req s" and ?s3 = "claimed now req s"
  have ok1: "tokens_ok X ?s1" unfolding admitted_def using ok refl by (rule tokens_admit)
  have c1: "carried ?s1 = carried s" by (simp add: carried_def)
  have new: "i \<notin># carried ?s1" "i \<notin> X"
    using fresh_not_carried [OF ok] ok by (auto simp: i_def c1 tokens_ok_def)
  let ?s2 = "supersede (make_owner_key req) now ?s1"
  have ok3: "tokens_ok X ?s3" unfolding claimed_def by (rule tokens_service [OF tokens_supersede(1) [OF ok1]]) simp_all
  have "carried ?s3 = carried ?s2" by (simp add: claimed_def carried_def)
  then have new3: "i \<notin># carried ?s3" using new(1) mset_subset_eqD [OF tokens_supersede(2) [OF ok1]] by metis
  obtain job where "sv_jobs (sy_service ?s3) i = Some job" "vj_request job = req" "vj_status job = VJ_queued"
    unfolding i_def by (rule claimed_new)
  then have "pending (sy_service ?s3) i" if "request_error req (sy_service ?s1) = None"
    using that by (auto simp: pending_def request_error_def split: option.splits)
  then have "tokens_ok X (spawn (At_resolve i) ?s3)" if "request_error req (sy_service ?s1) = None"
    using ok3 new3 new(2) that by (blast intro: tokens_resolve)
  moreover have "tokens_ok X (refuse_job hc now ts i req why ?s1)" for why
    unfolding refuse_job_def Let_def by (intro tokens_spawn tokens_update ok1) (simp_all add: new)
  moreover have "tokens_ok X (answer_from_cache hc now ts i req r ?s3)" for r
    unfolding answer_from_cache_def by (intro tokens_spawn tokens_update ok3) (simp_all add: new3)
  ultimately show ?thesis by (simp add: submit_parts Let_def split: option.split flip: i_def)
qed

text \<open>The response and the job as \<open>finish_job\<close> leaves them, and the section in parts.\<close>

definition response_after :: "time_ns \<Rightarrow> exn + service_response \<Rightarrow> vla_job \<Rightarrow> service_response" where
  "response_after now out job =
     settle_response (elapsed_ms (vj_submitted_at job) now) job (infer_response (vj_request job) out)"

definition job_after :: "time_ns \<Rightarrow> exn + service_response \<Rightarrow> vla_job \<Rightarrow> vla_job" where
  "job_after now out job = settled_job now (infer_response (vj_request job) out) (response_after now out job) job"

lemma finish_job_parts:
  assumes "sv_jobs (sy_service s) i = Some job"
  obtains rec where "finish_job hc now ts j i out s =
    update_service (\<lambda>sv. remember_response hc now (job_after now out job) (response_after now out job)
        (release_owner i (vj_request job) sv))
      (update_service (update_job i (\<lambda>_. job_after now out job)) (advance (At_finish j i out) [At_job_record j rec] s))"
proof
  show "finish_job hc now ts j i out s =
    update_service (\<lambda>sv. remember_response hc now (job_after now out job) (response_after now out job)
        (release_owner i (vj_request job) sv))
      (update_service (update_job i (\<lambda>_. job_after now out job)) (advance (At_finish j i out)
        [At_job_record j (job_record hc ts (elapsed_ms (vj_submitted_at job) now) (job_after now out job)
           (response_after now out job))] s))"
    by (simp add: finish_job_def assms Let_def update_service_def advance_def job_after_def response_after_def)
qed

lemma tokens_finish:
  assumes ok: "tokens_ok X s" and pc: "At_finish j i out \<in> set (sy_threads s)"
  shows "tokens_ok X (finish_job hc now ts j i out s)"
proof (cases "sv_jobs (sy_service s) i")
  case (Some job)
  then obtain rec where f: "finish_job hc now ts j i out s =
      update_service (\<lambda>sv. remember_response hc now (job_after now out job) (response_after now out job)
        (release_owner i (vj_request job) sv))
      (update_service (update_job i (\<lambda>_. job_after now out job)) (advance (At_finish j i out) [At_job_record j rec] s))"
    by (rule finish_job_parts)
  let ?s = "advance (At_finish j i out) [At_job_record j rec] s"
  have "tokens_ok X ?s" using ok pc by (rule tokens_advance) simp_all
  moreover have "carried s = carried ?s + {#i#}" using carried_advance [OF pc, of "[At_job_record j rec]"] by simp
  with tokens_okD(3) [OF ok] have "i \<notin># carried ?s"
    unfolding carried_ok_def by (metis One_nat_def Suc_le_mono add_mset_add_single count_add_mset le_zero_eq not_in_iff)
  ultimately have "tokens_ok X (update_service (update_job i (\<lambda>_. job_after now out job)) ?s)" by (simp add: tokens_update)
  then show ?thesis unfolding f by (rule tokens_service) simp_all
qed (simp add: finish_job_def ok)

lemma tokens_poll:
  assumes "tokens_ok X s"
  shows "tokens_ok X (snd (poll now now' i s))"
proof (cases "sv_jobs (sy_service s) i")
  case (Some job)
  let ?u = "\<lambda>j. if j = job then job\<lparr>vj_cancel_requested := True, vj_status := VJ_timeout\<rparr> else j"
  have "update_job i (\<lambda>_. job\<lparr>vj_cancel_requested := True, vj_status := VJ_timeout\<rparr>) (sy_service s) = update_job i ?u (sy_service s)"
    by (simp add: update_job_def Some)
  then have "update_service (update_job i (\<lambda>_. job\<lparr>vj_cancel_requested := True, vj_status := VJ_timeout\<rparr>)) s =
      update_service (update_job i ?u) s" by (simp add: update_service_def)
  moreover have "keeps_pending ?u" by (simp add: keeps_pending_def)
  ultimately show ?thesis
    using assms Some by (simp add: poll_def Let_def tokens_update tokens_spawn)
qed (simp add: poll_def assms)

lemma tokens_cancel_job:
  assumes "tokens_ok X s"
  shows "tokens_ok X (snd (cancel_vla_job hc now ts i s))"
  using assms
  by (auto simp: cancel_vla_job_def Let_def intro!: tokens_spawn tokens_update tokens_cancel(1) split: option.split)

lemma tokens_step:
  assumes "vla_step hc ev s s'" "tokens_ok X s"
  shows "tokens_ok X s'"
  using assms
proof cases
  case (Resolve i)
  then show ?thesis using assms(2) tokens_advance
    by (auto simp: submit_resolve_def split: option.split)
next
  case (No_backend i now ts)
  then show ?thesis using assms(2)
    by (auto simp: submit_no_backend_def Let_def advance_update intro!: tokens_update tokens_advance split: option.split)
next
  case (Take now)
  then show ?thesis using assms(2) tokens_take by blast
next
  case (Return j now)
  have w: "j \<in># threads_at pc_worker (sy_threads s)" using Return by force
  then have "j \<in> set (sc_active (sy_sched s))"
    using assms(2) by (auto simp: tokens_ok_def workers_ok_def dest!: mset_subset_eqD)
  then show ?thesis
    using assms(2) Return threads_remove [of "At_return j" "sy_threads s" pc_worker]
      threads_remove [of "At_return j" "sy_threads s" pc_carries]
    by (intro tokens_return [of X s j s' "Inr ()" now]) (simp_all add: pool_return_def)
next
  case (Configure sv)
  then have "s' = update_service (\<lambda>_. sv) s" by (simp add: update_service_def)
  then show ?thesis using assms(2) config_fields [OF Configure(3)] by (simp add: tokens_service)
next
  case (Other_return j out now)
  then have "j \<notin># threads_at pc_worker (sy_threads s)"
    using assms(2) unfolding tokens_ok_def workers_ok_def by blast
  then show ?thesis
    using assms(2) Other_return by (intro tokens_return [of X s j s' out now]) (simp_all add: diff_single_trivial)
qed (auto simp: submit_assign_def finish_record_def poll_sched_cancel_def start_job_def on_partial_def raise_cancel_flag_def
    backend_returns_def finish_job_record_def advance_update
    intro!: tokens_submit tokens_schedule tokens_poll tokens_cancel_job tokens_cancel(1) tokens_finish tokens_other_submit
      tokens_update tokens_service tokens_advance)

lemma tokens_new: "tokens_ok {} (vla_system_new hardware requested)"
  by (simp add: tokens_ok_def vla_system_new_def vla_service_new_def ids_ok_def sched_new_inv fn_ok_def workers_ok_def
      carried_ok_def carried_def queue_carries_def) (simp add: sched_new_def)

lemma tokens_run: "vla_run hc evs s s' \<Longrightarrow> tokens_ok X s \<Longrightarrow> tokens_ok X s'"
  by (induction rule: vla_run.induct) (auto intro: tokens_step)

lemma tokens_reachable: "vla_reachable hc s \<Longrightarrow> tokens_ok {} s"
  unfolding vla_reachable_def using tokens_new tokens_run by blast

lemma reachable_run: "vla_reachable hc s \<Longrightarrow> vla_run hc evs s s' \<Longrightarrow> vla_reachable hc s'"
proof (rotate_tac, induction rule: vla_run.induct)
  case (More hc evs s s' ev s'')
  then obtain evs' hw rq where "vla_run hc evs' (vla_system_new hw rq) s'" by (auto simp: vla_reachable_def)
  then have "vla_run hc (evs' @ [ev]) (vla_system_new hw rq) s''" using More.hyps(2) by (rule vla_run.More)
  then show ?case unfolding vla_reachable_def by blast
qed simp

subsection \<open>The life of a job\<close>

text \<open>
  All that can happen to a job in one step. \<open>c\<close> says that somebody carries the job, \<open>called\<close> that the step is
  a call of \<open>cancel\<close> for it.
\<close>

inductive job_change :: "bool \<Rightarrow> bool \<Rightarrow> vla_job \<Rightarrow> vla_job \<Rightarrow> bool" where
  Same: "job_change c called job job"
| Assigned: "job_change c called job (job\<lparr>vj_scheduler_job_id := j\<rparr>)"
| Superseded: "\<not> is_terminal (vj_status job) \<Longrightarrow>
    job_change c called job (job\<lparr>vj_cancel_requested := True, vj_superseded := True\<rparr>)"
| Timed_out: "past_deadline now job \<Longrightarrow>
    job_change c called job (job\<lparr>vj_cancel_requested := True, vj_status := VJ_timeout\<rparr>)"
| Told: "\<not> is_terminal (vj_status job) \<Longrightarrow> vj_status job \<noteq> VJ_queued \<Longrightarrow>
    job_change c True job (job\<lparr>vj_cancel_requested := True\<rparr>)"
| Cancelled: "vj_status job = VJ_queued \<Longrightarrow>
    job_change c True job (job\<lparr>vj_cancel_requested := True, vj_status := VJ_cancelled, vj_finished_at := now, vj_final := r\<rparr>)"
| Homeless: "job_change True called job (job\<lparr>vj_status := VJ_error, vj_final := r, vj_finished_at := now\<rparr>)"
| Started: "job_change True called job (job\<lparr>vj_status := VJ_running, vj_started_at := now\<rparr>)"
| Streamed: "job_change True called job (note_partial part job)"
| Flagged: "job_change True called job (job\<lparr>vj_cancel_requested := True\<rparr>)"
| Settled: "job_change True called job (job_after now out job)"

lemma carried_thread: "pc \<in> set (sy_threads s) \<Longrightarrow> i \<in> set (pc_carries pc) \<Longrightarrow> i \<in># carried s"
  by (auto simp: carried_def)

lemma job_update_at:
  "sv_jobs sv i = Some job \<Longrightarrow> (k = i \<Longrightarrow> job_change c called job (f job)) \<Longrightarrow>
     \<exists>job'. sv_jobs (update_job k f sv) i = Some job' \<and> job_change c called job job'"
  by (auto intro: job_change.Same)

lemma submit_change:
  assumes "sv_jobs (sy_service s) i = Some job" "i \<noteq> sv_next_job_id (sy_service s)"
  shows "\<exists>job'. sv_jobs (sy_service (submit_enter hc now ts req s)) i = Some job' \<and> job_change c called job job'"
  using claimed_old [OF assms(2), of now req] assms
  by (auto simp: submit_parts Let_def refuse_job_def answer_from_cache_def intro: job_change.intros split: option.split)

lemma poll_change:
  assumes "sv_jobs (sy_service s) i = Some job"
  shows "\<exists>job'. sv_jobs (sy_service (snd (poll now now' k s))) i = Some job' \<and> job_change c called job job'"
  using assms by (auto simp: poll_def Let_def intro: job_change.intros split: option.split)

lemma cancel_change:
  assumes "sv_jobs (sy_service s) i = Some job"
  shows "\<exists>job'. sv_jobs (sy_service (snd (cancel_vla_job hc now ts k s))) i = Some job' \<and> job_change c (k = i) job job'"
  using assms
  by (auto simp: cancel_vla_job_def Let_def intro: job_change.intros split: option.split)

lemma finish_change:
  assumes "sv_jobs (sy_service s) i = Some job" "k = i \<Longrightarrow> c"
  shows "\<exists>job'. sv_jobs (sy_service (finish_job hc now ts j k out s)) i = Some job' \<and> job_change c called job job'"
proof (cases "sv_jobs (sy_service s) k")
  case None
  with assms show ?thesis by (auto simp: finish_job_def intro: job_change.Same)
next
  case (Some jb)
  then obtain rec where f: "finish_job hc now ts j k out s =
      update_service (\<lambda>sv. remember_response hc now (job_after now out jb) (response_after now out jb)
        (release_owner k (vj_request jb) sv))
      (update_service (update_job k (\<lambda>_. job_after now out jb)) (advance (At_finish j k out) [At_job_record j rec] s))"
    by (rule finish_job_parts)
  with assms Some show ?thesis by (auto intro: job_change.intros)
qed

lemma step_change:
  assumes "vla_step hc ev s s'" "tokens_ok X s" "sv_jobs (sy_service s) i = Some job"
  shows "\<exists>job'. sv_jobs (sy_service s') i = Some job' \<and> job_change (i \<in># carried s) (ev = Ev_cancel i) job job'"
  using assms(1)
proof cases
  case (Submit req now ts)
  have "i \<noteq> sv_next_job_id (sy_service s)" using tokens_okD(4) [OF assms(2,3)] by simp
  with assms(3) Submit show ?thesis by (simp add: submit_change)
next
  case (Cancel k now ts)
  with cancel_change [OF assms(3), of hc now ts k] show ?thesis by auto
next
  case (Poll k now now')
  with poll_change [OF assms(3)] show ?thesis by simp
next
  case (Finish j k out now ts)
  with carried_thread [OF Finish(3)] show ?thesis by (auto intro!: finish_change [OF assms(3)])
next
  case (Configure sv)
  with config_fields [OF Configure(3)] assms(3) show ?thesis by (auto intro: job_change.Same)
qed (use assms(3) carried_thread in \<open>force simp: submit_resolve_def submit_no_backend_def submit_schedule_def submit_assign_def
    finish_record_def poll_sched_cancel_def pool_take_def start_job_def on_partial_def raise_cancel_flag_def
    backend_returns_def finish_job_record_def pool_return_def Let_def intro: job_change.intros
    split: option.splits list.splits sum.splits prod.splits if_splits\<close>)+

lemma run_induct_job [consumes 3, case_names refl step]:
  assumes "vla_run hc evs s s'" "tokens_ok X s" "sv_jobs (sy_service s) i = Some job"
    and refl: "P [] job"
    and step: "\<And>evs ev s' job' job''. vla_run hc evs s s' \<Longrightarrow> tokens_ok X s' \<Longrightarrow> P evs job' \<Longrightarrow>
      sv_jobs (sy_service s') i = Some job' \<Longrightarrow> job_change (i \<in># carried s') (ev = Ev_cancel i) job' job'' \<Longrightarrow> P (evs @ [ev]) job''"
  shows "\<exists>job'. sv_jobs (sy_service s') i = Some job' \<and> P evs job'"
  using assms(1,2,3) refl step
proof (induction rule: vla_run.induct)
  case (More hc evs s s' ev s'')
  obtain job' where job': "sv_jobs (sy_service s') i = Some job'" "P evs job'" using More.IH More.prems by blast
  have "tokens_ok X s'" using tokens_run [OF More.hyps(1) More.prems(1)] .
  with step_change [OF More.hyps(2) this job'(1)] More.hyps(1) More.prems(4) job' show ?case by blast
qed simp

subsection \<open>Released actions passed the checks\<close>

text \<open>The response carries an action that the check let through for this request.\<close>

definition released :: "vla_request \<Rightarrow> service_response \<Rightarrow> bool" where
  "released req r \<longleftrightarrow> vs_status r = VS_ok \<and> validate_request_shape req = None \<and>
     (\<exists>a. validate_and_clamp_action req a = (None, vs_action r))"

definition remembered :: "u64 \<Rightarrow> service_response \<Rightarrow> bool" where
  "remembered h r \<longleftrightarrow> (\<exists>req. hash_request req = h \<and> released req r)"

definition job_ok :: "vla_job \<Rightarrow> bool" where
  "job_ok job \<longleftrightarrow> vj_request_hash job = hash_request (vj_request job) \<and>
     (vj_status job = VJ_done \<longrightarrow>
       (\<exists>r. vj_final job = Some r \<and>
         (if vj_cache_hit job then remembered (hash_request (vj_request job)) r else released (vj_request job) r)))"

lemma response_after_ok:
  assumes "vs_status (response_after now out job) = VS_ok" "validate_request_shape (vj_request job) = None"
  shows "released (vj_request job) (response_after now out job)" "\<not> vj_cancel_requested job"
  using assms
  by (auto simp: released_def response_after_def settle_response_def check_action_def drop_late_def drop_cancelled_def Let_def
      split: if_splits prod.splits option.splits)

lemma to_job_status_done: "to_job_status st = VJ_done \<longleftrightarrow> st = VS_ok"
  by (cases st) simp_all

lemma job_after_fields [simp]:
  "vj_request (job_after now out job) = vj_request job" "vj_request_hash (job_after now out job) = vj_request_hash job"
  "vj_cache_hit (job_after now out job) = vj_cache_hit job" "vj_final (job_after now out job) = Some (response_after now out job)"
  "vj_status (job_after now out job) = to_job_status (vs_status (response_after now out job))"
  "vj_cancel_requested (job_after now out job) = vj_cancel_requested job"
  by (simp_all add: job_after_def settled_job_def)

lemma job_ok_change:
  assumes "job_change c called job job'" "job_ok job" "c \<Longrightarrow> validate_request_shape (vj_request job) = None"
  shows "job_ok job'"
  using assms(1)
proof cases
  case (Settled now out)
  then show ?thesis using assms(2) response_after_ok [of now out job] assms(3)
    by (auto simp: job_ok_def to_job_status_done remembered_def)
qed (use assms(2) in \<open>auto simp: job_ok_def note_partial_def\<close>)

definition content_ok :: "vla_system \<Rightarrow> bool" where
  "content_ok s \<longleftrightarrow> (\<forall>i job. sv_jobs (sy_service s) i = Some job \<longrightarrow> job_ok job) \<and>
     (\<forall>h e. (h, e) \<in> set (sv_cache (sy_service s)) \<longrightarrow> remembered h (ce_response e)) \<and>
     (\<forall>h r. (h, r) \<in> set (sv_replay_store (sy_service s)) \<longrightarrow> remembered h r)"

lemma alist_put_subset: "set (alist_put k v xs) \<subseteq> insert (k, v) (set xs)"
  by (induction k v xs rule: alist_put.induct) auto

lemma evict_subset: "set (evict_cache hc cap cache) \<subseteq> set cache"
proof (induction hc cap cache rule: evict_cache.induct)
  case (1 hc cap cache)
  have "set (erase_begin hc cache) \<subseteq> set cache"
    by (auto simp: erase_begin_def Let_def dest: in_set_takeD in_set_dropD)
  with 1 show ?case by (subst evict_cache.simps) auto
qed

lemma evict_bound: "length (evict_cache hc cap cache) \<le> cap"
  by (induction hc cap cache rule: evict_cache.induct) (subst evict_cache.simps, auto)

lemma supersede_service [simp]:
  "sv_cache (sy_service (supersede owner now s)) = sv_cache (sy_service s)"
  "sv_replay_store (sy_service (supersede owner now s)) = sv_replay_store (sy_service s)"
  "sv_next_job_id (sy_service (supersede owner now s)) = sv_next_job_id (sy_service s)"
  "sv_cache_capacity (sy_service (supersede owner now s)) = sv_cache_capacity (sy_service s)"
  "sv_records (sy_service (supersede owner now s)) = sv_records (sy_service s)"
  by (auto simp: supersede_def Let_def split: option.split)

lemma claimed_cache [simp]: "sv_cache (sy_service (claimed now req s)) = sv_cache (sy_service s)"
  by (simp add: claimed_def)

text \<open>Only \<open>submit\<close> makes jobs, and a new job is in order.\<close>

lemma submit_new_job:
  assumes "\<And>h e. (h, e) \<in> set (sv_cache (sy_service s)) \<Longrightarrow> remembered h (ce_response e)"
    and "sv_jobs (sy_service s) i = None" "sv_jobs (sy_service (submit_enter hc now ts req s)) i = Some job"
  shows "job_ok job"
proof -
  let ?n = "sv_next_job_id (sy_service s)"
  have i: "i = ?n"
    using assms(2,3) claimed_old [of i s now req]
    by (rule_tac ccontr) (auto simp: submit_parts Let_def refuse_job_def answer_from_cache_def split: option.splits)
  obtain job2 where j2: "sv_jobs (sy_service (claimed now req s)) ?n = Some job2"
    "vj_request job2 = req" "vj_request_hash job2 = hash_request req" "vj_status job2 = VJ_queued"
    by (rule claimed_new)
  have "remembered (hash_request req) (ce_response e)" if "map_of (sv_cache (sy_service s)) (hash_request req) = Some e" for e
    using assms(1) that by (blast dest: map_of_SomeD)
  with assms(3) i j2 show ?thesis
    by (auto simp: submit_parts Let_def refuse_job_def answer_from_cache_def job_ok_def fresh_entry_def new_job_def
        split: option.splits if_splits)
qed

lemma step_no_new_job:
  assumes "vla_step hc ev s s'" "\<And>req. ev \<noteq> Ev_submit req" "sv_jobs (sy_service s) i = None"
  shows "sv_jobs (sy_service s') i = None"
  using assms(1)
proof cases
  case (Finish j k out now ts)
  with assms(3) show ?thesis by (auto simp: finish_job_def Let_def split: option.split)
next
  case (Configure sv)
  with config_fields [OF Configure(3)] assms(3) show ?thesis by simp
qed (use assms(2,3) in \<open>auto simp: submit_resolve_def submit_no_backend_def submit_schedule_def submit_assign_def
    finish_record_def poll_sched_cancel_def pool_take_def start_job_def on_partial_def raise_cancel_flag_def poll_def
    cancel_vla_job_def backend_returns_def finish_job_record_def pool_return_def Let_def
    split: option.splits list.splits sum.splits prod.splits if_splits\<close>)

text \<open>The cache and the replay store hold released responses only.\<close>

lemma step_stores:
  assumes "vla_step hc ev s s'"
  shows "(set (sv_cache (sy_service s')) \<subseteq> set (sv_cache (sy_service s)) \<and>
      sv_replay_store (sy_service s') = sv_replay_store (sy_service s)) \<or>
    (\<exists>j i out job now e. At_finish j i out \<in> set (sy_threads s) \<and> sv_jobs (sy_service s) i = Some job \<and>
      ce_response e = response_after now out job \<and> vs_status (response_after now out job) = VS_ok \<and>
      set (sv_cache (sy_service s')) \<subseteq> insert (vj_request_hash job, e) (set (sv_cache (sy_service s))) \<and>
      set (sv_replay_store (sy_service s')) \<subseteq>
        insert (vj_request_hash job, response_after now out job) (set (sv_replay_store (sy_service s))))"
  using assms
proof cases
  case (Finish j i out now ts)
  show ?thesis
  proof (cases "sv_jobs (sy_service s) i")
    case None
    with Finish show ?thesis by (simp add: finish_job_def)
  next
    case (Some job)
    then obtain rec where f: "finish_job hc now ts j i out s =
        update_service (\<lambda>sv. remember_response hc now (job_after now out job) (response_after now out job)
          (release_owner i (vj_request job) sv))
        (update_service (update_job i (\<lambda>_. job_after now out job)) (advance (At_finish j i out) [At_job_record j rec] s))"
      by (rule finish_job_parts)
    define e where "e = \<lparr>ce_response = response_after now out job,
      ce_expires_at = now + sint (sv_cache_ttl_ms (release_owner i (vj_request job)
        (update_job i (\<lambda>_. job_after now out job) (sy_service s)))) * 1000000\<rparr>"
    show ?thesis
    proof (cases "vs_status (response_after now out job) = VS_ok")
      case True
      have "set (sv_cache (sy_service s')) \<subseteq> insert (vj_request_hash job, e) (set (sv_cache (sy_service s)))"
        using evict_subset alist_put_subset True unfolding Finish f
        by (fastforce simp: remember_response_def evict_cache_if_needed_def e_def)
      moreover have "set (sv_replay_store (sy_service s')) \<subseteq>
          insert (vj_request_hash job, response_after now out job) (set (sv_replay_store (sy_service s)))"
        using alist_put_subset True unfolding Finish f by (fastforce simp: remember_response_def)
      moreover have "ce_response e = response_after now out job" by (simp add: e_def)
      ultimately show ?thesis using Some True Finish(3) by blast
    next
      case False
      then show ?thesis unfolding Finish f by (simp add: remember_response_def)
    qed
  qed
next
  case (Configure sv)
  with config_fields [OF Configure(3)] have "sv_replay_store sv = sv_replay_store (sy_service s)" by simp
  moreover have "set (sv_cache sv) \<subseteq> set (sv_cache (sy_service s))"
    using Configure(3)
  proof cases
    case (11 capacity)
    then show ?thesis using evict_subset by (auto simp: set_cache_capacity_def evict_cache_if_needed_def)
  qed (auto simp: register_backend_def set_default_backend_def create_image_def create_blob_def set_log_path_def
      set_cache_ttl_ms_def set_log_enabled_def set_record_listener_def clear_records_def
      guard_err_def Let_def split: if_splits option.splits)
  ultimately show ?thesis using Configure by simp
qed (auto simp: submit_enter_def refuse_job_def answer_from_cache_def admit_job_def submit_resolve_def submit_no_backend_def
    submit_schedule_def submit_assign_def finish_record_def poll_sched_cancel_def pool_take_def start_job_def on_partial_def
    raise_cancel_flag_def poll_def cancel_vla_job_def backend_returns_def finish_job_record_def pool_return_def Let_def
    split: option.splits list.splits sum.splits prod.splits if_splits)

lemma content_step:
  assumes step: "vla_step hc ev s s'" and tok: "tokens_ok X s" and ok: "content_ok s"
  shows "content_ok s'"
proof -
  have shape: "validate_request_shape (vj_request job) = None" if "i \<in># carried s" "sv_jobs (sy_service s) i = Some job" for i job
    using carried_okD [OF tokens_okD(3) [OF tok] that(1)] that(2) by (simp add: pending_def)
  have jobs: "job_ok job" if "sv_jobs (sy_service s') i = Some job" for i job
  proof (cases "sv_jobs (sy_service s) i")
    case None
    then have "\<exists>req. ev = Ev_submit req" using step_no_new_job [OF step _ None] that by (metis option.distinct(1))
    then obtain req where "ev = Ev_submit req" by blast
    then obtain now ts where "s' = submit_enter hc now ts req s" using step by (auto elim: vla_stepE)
    with that None ok show ?thesis by (intro submit_new_job [OF _ None]) (auto simp: content_ok_def)
  next
    case (Some job0)
    with step_change [OF step tok Some] that have "job_change (i \<in># carried s) (ev = Ev_cancel i) job0 job" by simp
    then show ?thesis
      by (rule job_ok_change) (use ok Some shape [OF _ Some] in \<open>auto simp: content_ok_def\<close>)
  qed
  have stores: "(\<forall>h e. (h, e) \<in> set (sv_cache (sy_service s')) \<longrightarrow> remembered h (ce_response e)) \<and>
      (\<forall>h r. (h, r) \<in> set (sv_replay_store (sy_service s')) \<longrightarrow> remembered h r)"
    using step_stores [OF step]
  proof (elim disjE exE conjE)
    fix j i out job now e
    assume a: "At_finish j i out \<in> set (sy_threads s)" "sv_jobs (sy_service s) i = Some job"
      "ce_response e = response_after now out job" "vs_status (response_after now out job) = VS_ok"
      "set (sv_cache (sy_service s')) \<subseteq> insert (vj_request_hash job, e) (set (sv_cache (sy_service s)))"
      "set (sv_replay_store (sy_service s')) \<subseteq>
        insert (vj_request_hash job, response_after now out job) (set (sv_replay_store (sy_service s)))"
    have "i \<in># carried s" using carried_thread [OF a(1)] by simp
    then have "released (vj_request job) (response_after now out job)"
      by (intro response_after_ok(1) [OF a(4)] shape [OF _ a(2)])
    moreover have "vj_request_hash job = hash_request (vj_request job)" using ok a(2) by (simp add: content_ok_def job_ok_def)
    ultimately have "remembered (vj_request_hash job) (response_after now out job)" by (auto simp: remembered_def)
    with ok a(3) have "\<And>h x. (h, x) \<in> insert (vj_request_hash job, e) (set (sv_cache (sy_service s))) \<Longrightarrow> remembered h (ce_response x)"
      "\<And>h r. (h, r) \<in> insert (vj_request_hash job, response_after now out job) (set (sv_replay_store (sy_service s))) \<Longrightarrow> remembered h r"
      by (auto simp: content_ok_def)
    with a(5,6) show ?thesis by blast
  qed (use ok in \<open>auto simp: content_ok_def\<close>)
  from jobs stores show ?thesis by (auto simp: content_ok_def)
qed

lemma content_run: "vla_run hc evs s s' \<Longrightarrow> tokens_ok X s \<Longrightarrow> content_ok s \<Longrightarrow> content_ok s'"
  by (induction rule: vla_run.induct) (auto intro: content_step tokens_run)

lemma content_reachable: "vla_reachable hc s \<Longrightarrow> content_ok s"
proof -
  have "content_ok (vla_system_new hardware requested)" for hardware requested
    by (simp add: content_ok_def vla_system_new_def vla_service_new_def)
  then show "vla_reachable hc s \<Longrightarrow> content_ok s"
    unfolding vla_reachable_def using tokens_new content_run by blast
qed

subsection \<open>A run\<close>

text \<open>
  A request is submitted and scheduled, a worker runs it, and the backend answers with the action \<open>3.0\<close>,
  which is released as \<open>1.0\<close>.
\<close>

definition sample_choices :: host_choices where
  "sample_choices = \<lparr>hc_stats_order = id, hc_cache_begin = (\<lambda>_. 0)\<rparr>"

definition sample_answer :: service_response where
  "sample_answer = (status_response VS_ok sample_vla_request [])\<lparr>vs_action := make_continuous_action [0x4008000000000000]\<rparr>"

definition sample_queued :: vla_system where
  "sample_queued = submit_assign 1 1 (submit_schedule 0 1 Rt2_stub (submit_resolve 1
     (submit_enter sample_choices 0 0 sample_vla_request (vla_system_new 1 1))))"

definition sample_answered :: vla_system where
  "sample_answered = backend_returns 1 1 Rt2_stub (Inr sample_answer) (start_job 0 1 1 Rt2_stub (pool_take 0 sample_queued))"

definition sample_settled :: vla_system where
  "sample_settled = finish_job sample_choices 0 0 1 1 (Inr sample_answer) sample_answered"

lemma sample_request_admitted: "request_error sample_vla_request sv = None"
  by (simp add: request_error_def missing_handle_def) (simp add: sample_vla_request_def)

lemma sample_request_model [simp]: "vr_model sample_vla_request = \<lparr>vm_name = ''rt2-stub'', vm_version = ''stub-1''\<rparr>"
  by (simp add: sample_vla_request_def default_model_def)

lemmas sample_new = vla_system_new_def vla_service_new_def sched_new_def effective_worker_count_def
lemmas sample_submit = submit_enter_def submit_resolve_def submit_schedule_def submit_assign_def admit_job_def supersede_def
  fresh_entry_def sched_submit_def job_request_of_def resolve_backend_def update_service_def update_job_def spawn_def advance_def
  sample_request_admitted new_job_def

lemma sample_queued_fields:
  "sy_threads sample_queued = []" "sc_queue (sy_sched sample_queued) = [1]" "sc_active (sy_sched sample_queued) = []"
  "sc_workers (sy_sched sample_queued) = 1" "sy_fn sample_queued 1 = Some (1, Rt2_stub)"
  by (simp_all add: sample_queued_def sample_submit sample_new Let_def)

lemma sample_queued_job:
  "sv_jobs (sy_service sample_queued) 1 = Some ((new_job 1 0 sample_vla_request)\<lparr>vj_scheduler_job_id := 1\<rparr>)"
  "sc_jobs (sy_sched sample_queued) 1 = Some \<lparr>js_status = J_queued, js_submitted_at = 0, js_started_at = 0, js_finished_at = 0,
     js_task_name = ''vla.submit'', js_error_text = [], js_result = None, js_cancel_requested = False\<rparr>"
  "sv_active_owner_jobs (sy_service sample_queued) = [(make_owner_key sample_vla_request, 1)]"
  "sv_cache (sy_service sample_queued) = []" "sv_cache_capacity (sy_service sample_queued) = 256"
  by (simp_all add: sample_queued_def sample_submit sample_new Let_def)

lemma sample_queued_run: "vla_run sample_choices [Ev_submit sample_vla_request, Ev_internal, Ev_internal, Ev_internal]
    (vla_system_new 1 1) sample_queued"
proof -
  let ?s1 = "submit_enter sample_choices 0 0 sample_vla_request (vla_system_new 1 1)"
  let ?s2 = "submit_resolve 1 ?s1" and ?s3 = "submit_schedule 0 1 Rt2_stub (submit_resolve 1 ?s1)"
  have "vla_run sample_choices [Ev_submit sample_vla_request] (vla_system_new 1 1) ?s1"
    using vla_run.More [OF vla_run.Stay vla_step.Submit] by simp
  moreover have "vla_step sample_choices Ev_internal ?s1 ?s2"
    by (rule vla_step.Resolve) (simp add: sample_submit sample_new Let_def)
  moreover have "vla_step sample_choices Ev_internal ?s2 ?s3"
    by (rule vla_step.Schedule) (simp add: sample_submit sample_new Let_def)
  moreover have "vla_step sample_choices Ev_internal ?s3 sample_queued"
    unfolding sample_queued_def
    by (rule vla_step.Assign) (simp add: sample_submit sample_new Let_def)
  ultimately show ?thesis by (fastforce dest: vla_run.More)
qed

lemma sample_queued_reachable: "vla_reachable sample_choices sample_queued"
  unfolding vla_reachable_def using sample_queued_run by blast

lemma sample_taken:
  "sy_threads (pool_take 0 sample_queued) = [At_start 1 1 Rt2_stub]"
  "sy_service (pool_take 0 sample_queued) = sy_service sample_queued"
  by (simp_all del: One_nat_def add: pool_take_def worker_take_def sample_queued_fields sample_queued_job Let_def)

lemma sample_answered_job:
  "sv_jobs (sy_service sample_answered) 1 =
     Some ((new_job 1 0 sample_vla_request)\<lparr>vj_scheduler_job_id := 1, vj_status := VJ_running, vj_started_at := 0\<rparr>)"
  "sy_threads sample_answered = [At_finish 1 1 (Inr sample_answer)]"
  by (simp_all del: One_nat_def add: sample_answered_def backend_returns_def start_job_def sample_taken sample_queued_job)

lemma sample_settled_run:
  "vla_run sample_choices [Ev_internal, Ev_internal, Ev_internal, Ev_internal] sample_queued sample_settled"
proof -
  let ?s1 = "pool_take 0 sample_queued" and ?s2 = "start_job 0 1 1 Rt2_stub (pool_take 0 sample_queued)"
  have "vla_run sample_choices [Ev_internal] sample_queued ?s1"
    using vla_run.More [OF vla_run.Stay vla_step.Take] by (simp add: sample_queued_fields)
  moreover have "vla_step sample_choices Ev_internal ?s1 ?s2" by (rule vla_step.Start) (simp add: sample_taken)
  moreover have "vla_step sample_choices Ev_internal ?s2 sample_answered"
    unfolding sample_answered_def by (rule vla_step.Returns) (simp add: start_job_def sample_taken)
  moreover have "vla_step sample_choices Ev_internal sample_answered sample_settled"
    unfolding sample_settled_def by (rule vla_step.Finish) (simp add: sample_answered_job)
  ultimately show ?thesis by (fastforce dest: vla_run.More)
qed

lemma sample_settled_reachable: "vla_reachable sample_choices sample_settled"
  using reachable_run [OF sample_queued_reachable sample_settled_run] .

text \<open>The job as the section after \<open>infer\<close> finds and leaves it.\<close>

definition sample_job :: vla_job where
  "sample_job = (new_job 1 0 sample_vla_request)\<lparr>vj_scheduler_job_id := 1, vj_status := VJ_running, vj_started_at := 0\<rparr>"

definition sample_released :: service_response where
  "sample_released = response_after 0 (Inr sample_answer) sample_job"

lemma sample_released_parts: "vs_status sample_released = VS_ok" "vs_action sample_released = make_continuous_action [fp_one]"
proof -
  have "\<not> fp_less (fp_of_int 200) (elapsed_ms 0 0)" by code_simp
  with sample_clamped show "vs_status sample_released = VS_ok" "vs_action sample_released = make_continuous_action [fp_one]"
    by (simp_all add: sample_released_def sample_job_def response_after_def infer_response_def settle_response_def drop_cancelled_def
        drop_late_def check_action_def sample_answer_def status_response_def new_job_def Let_def sample_vla_request_def)
qed

lemma sample_settled_fields:
  "sv_jobs (sy_service sample_settled) 1 = Some (job_after 0 (Inr sample_answer) sample_job)"
  "sv_cache (sy_service sample_settled) =
     [(hash_request sample_vla_request, \<lparr>ce_response = sample_released, ce_expires_at = 750000000\<rparr>)]"
  "sv_next_job_id (sy_service sample_settled) = 2"
proof -
  let ?out = "Inr sample_answer :: exn + service_response"
  have jb: "sv_jobs (sy_service sample_answered) 1 = Some sample_job"
    by (simp del: One_nat_def add: sample_job_def sample_answered_job)
  obtain rec where f: "sample_settled =
      update_service (\<lambda>sv. remember_response sample_choices 0 (job_after 0 ?out sample_job) sample_released
        (release_owner 1 (vj_request sample_job) sv))
      (update_service (update_job 1 (\<lambda>_. job_after 0 ?out sample_job))
        (advance (At_finish 1 1 ?out) [At_job_record 1 rec] sample_answered))"
    using finish_job_parts [OF jb, of sample_choices 0 0 1 ?out] unfolding sample_settled_def sample_released_def .
  have sv: "sv_cache (sy_service sample_answered) = []" "sv_cache_capacity (sy_service sample_answered) = 256"
    "sv_cache_ttl_ms (sy_service sample_answered) = 750" "sv_next_job_id (sy_service sample_answered) = 2"
    by (simp_all add: sample_answered_def backend_returns_def start_job_def sample_taken)
      (simp_all add: sample_queued_def sample_submit sample_new Let_def)
  have "sv_cache_ttl_ms (release_owner 1 req (update_job 1 g sv)) = sv_cache_ttl_ms sv" for req g sv
    by (simp add: release_owner_def update_job_def)
  moreover have "vj_request_hash sample_job = hash_request sample_vla_request" by (simp add: sample_job_def new_job_def)
  ultimately show "sv_cache (sy_service sample_settled) =
      [(hash_request sample_vla_request, \<lparr>ce_response = sample_released, ce_expires_at = 750000000\<rparr>)]"
    unfolding f by (simp add: remember_response_def sample_released_parts evict_cache_if_needed_def sv evict_cache.simps)
  show "sv_jobs (sy_service sample_settled) 1 = Some (job_after 0 ?out sample_job)" "sv_next_job_id (sy_service sample_settled) = 2"
    unfolding f by (simp_all del: One_nat_def add: jb sv)
qed

lemma sample_settled_job:
  obtains job where "sv_jobs (sy_service sample_settled) 1 = Some job" "vj_status job = VJ_done" "\<not> vj_cache_hit job"
    "vj_request job = sample_vla_request" "vj_final job = Some sample_released"
proof
  show "sv_jobs (sy_service sample_settled) 1 = Some (job_after 0 (Inr sample_answer) sample_job)"
    by (rule sample_settled_fields)
qed (simp_all add: sample_released_parts flip: sample_released_def, simp_all add: sample_job_def new_job_def)

end
