(* ===== verification/Vla_Guarantees.thy ===== *)
theory Vla_Guarantees
  imports Vla_Jobs
begin

text \<open>
  The guarantees of the VLA service to its clients, over all interleavings of \<open>Vla_Service\<close>, and the two
  places where it does not keep what it promises: a superseded job that never ends, and a cached
  action that ignores the forbidden ranges of the request it answers.
\<close>

subsection \<open>Done means released\<close>

text \<open>
  C30. A job that the service reports as done has a final response with status ok. Unless it came from the
  cache, its action passed the checks for this very request; from the cache, it passed them for a
  request with the same hash.
\<close>

theorem vla_done_sound:
  assumes "vla_reachable hc s" "sv_jobs (sy_service s) i = Some job" "vj_status job = VJ_done"
  shows "\<exists>r req. vj_final job = Some r \<and> vs_status r = VS_ok \<and> validate_request_shape req = None \<and>
    (\<exists>a. validate_and_clamp_action req a = (None, vs_action r)) \<and>
    hash_request req = hash_request (vj_request job) \<and> (\<not> vj_cache_hit job \<longrightarrow> req = vj_request job)"
proof -
  have "job_ok job" using content_reachable [OF assms(1)] assms(2) by (simp add: content_ok_def)
  then obtain r where r: "vj_final job = Some r"
    "if vj_cache_hit job then remembered (hash_request (vj_request job)) r else released (vj_request job) r"
    using assms(3) by (auto simp: job_ok_def)
  then obtain req where "released req r" "hash_request req = hash_request (vj_request job)"
    "\<not> vj_cache_hit job \<longrightarrow> req = vj_request job"
    by (auto simp: remembered_def split: if_splits)
  with r(1) show ?thesis by (auto simp: released_def)
qed

theorem vla_done_sound_witness:
  "\<exists>s job r a. vla_reachable sample_choices s \<and> sv_jobs (sy_service s) 1 = Some job \<and> vj_final job = Some r \<and>
     validate_and_clamp_action (vj_request job) a = (None, vs_action r)"
proof -
  obtain job where job: "sv_jobs (sy_service sample_settled) 1 = Some job" "vj_status job = VJ_done" "\<not> vj_cache_hit job"
    by (rule sample_settled_job)
  from vla_done_sound [OF sample_settled_reachable job(1,2)] job(3) obtain r a where
    "vj_final job = Some r" "validate_and_clamp_action (vj_request job) a = (None, vs_action r)"
    by auto
  with job(1) sample_settled_reachable show ?thesis by blast
qed

text \<open>
  C32. A job that is done stays done, with the same response, through any further steps of clients, workers
  and backends.
\<close>

theorem vla_done_stable:
  assumes "vla_reachable hc s" "vla_run hc evs s s'"
    and "sv_jobs (sy_service s) i = Some job" "vj_status job = VJ_done"
  shows "\<exists>job'. sv_jobs (sy_service s') i = Some job' \<and> vj_status job' = VJ_done \<and> vj_final job' = vj_final job \<and>
    vj_request job' = vj_request job"
  using assms(2) tokens_reachable [OF assms(1)] assms(3)
proof (induction rule: run_induct_job)
  case (step evs ev s' job' job'')
  have "i \<notin># carried s'"
    using carried_okD [OF tokens_okD(3) [OF step(2)], of i] step(3,4) by (auto simp: pending_def)
  with step(3,5) show ?case by (auto elim!: job_change.cases simp: is_terminal_def past_deadline_def)
qed (simp add: assms(4))

theorem vla_done_stable_witness:
  "\<exists>s' job'. vla_run sample_choices [Ev_cancel 1] sample_settled s' \<and> sv_jobs (sy_service s') 1 = Some job' \<and>
     vj_status job' = VJ_done"
proof -
  obtain job where job: "sv_jobs (sy_service sample_settled) 1 = Some job" "vj_status job = VJ_done"
    by (rule sample_settled_job)
  have run: "vla_run sample_choices [Ev_cancel 1] sample_settled (snd (cancel_vla_job sample_choices 5 5 1 sample_settled))"
    using vla_run.More [OF vla_run.Stay vla_step.Cancel] by simp
  from vla_done_stable [OF sample_settled_reachable run job] run show ?thesis by blast
qed

text \<open>
  C31. A job that was told to stop before it was done is never reported as done: not when the backend returns a
  good response later, nor through any other steps.
\<close>

theorem vla_cancelled_never_done:
  assumes "vla_reachable hc s" "vla_run hc evs s s'"
    and "sv_jobs (sy_service s) i = Some job" "vj_cancel_requested job" "vj_status job \<noteq> VJ_done"
  shows "\<exists>job'. sv_jobs (sy_service s') i = Some job' \<and> vj_cancel_requested job' \<and> vj_status job' \<noteq> VJ_done"
  using assms(2) tokens_reachable [OF assms(1)] assms(3)
proof (induction rule: run_induct_job)
  case (step evs ev s' job' job'')
  have "validate_request_shape (vj_request job') = None" if "i \<in># carried s'"
    using carried_okD [OF tokens_okD(3) [OF step(2)] that] step(4) by (simp add: pending_def)
  then have "vs_status (response_after now out job') \<noteq> VS_ok" if "i \<in># carried s'" for now out
    using response_after_ok(2) that step(3) by blast
  with step(3,5) show ?case by (auto elim!: job_change.cases simp: note_partial_def to_job_status_done)
qed (simp add: assms)

theorem vla_cancelled_never_done_witness:
  "\<exists>s s' job'. vla_reachable sample_choices s \<and> vla_run sample_choices [Ev_internal, Ev_internal] s s' \<and>
     sv_jobs (sy_service s') 1 = Some job' \<and> vj_status job' \<noteq> VJ_done"
proof -
  let ?s1 = "start_job 0 1 1 Rt2_stub (pool_take 0 sample_queued)"
  let ?s2 = "snd (cancel_vla_job sample_choices 5 5 1 ?s1)"
  let ?s3 = "backend_returns 1 1 Rt2_stub (Inr sample_answer) ?s2"
  have "vla_step sample_choices Ev_internal sample_queued (pool_take 0 sample_queued)"
    by (rule vla_step.Take) (simp_all add: sample_queued_fields)
  moreover have "vla_step sample_choices Ev_internal (pool_take 0 sample_queued) ?s1"
    by (rule vla_step.Start) (simp add: sample_taken)
  moreover have "vla_step sample_choices (Ev_cancel 1) ?s1 ?s2" by (rule vla_step.Cancel)
  ultimately have "vla_run sample_choices [Ev_internal, Ev_internal, Ev_cancel 1] sample_queued ?s2"
    using vla_run.More [OF vla_run.More [OF vla_run.More [OF vla_run.Stay]]] by fastforce
  then have reach: "vla_reachable sample_choices ?s2" by (rule reachable_run [OF sample_queued_reachable])
  have run_job: "sv_jobs (sy_service ?s1) 1 =
      Some ((new_job 1 0 sample_vla_request)\<lparr>vj_scheduler_job_id := 1, vj_status := VJ_running, vj_started_at := 0\<rparr>)"
    by (simp del: One_nat_def add: start_job_def sample_taken sample_queued_job)
  then obtain job where job: "sv_jobs (sy_service ?s2) 1 = Some job" "vj_cancel_requested job" "vj_status job \<noteq> VJ_done"
    by (simp del: One_nat_def add: cancel_vla_job_def run_job is_terminal_def Let_def)
  have thr: "sy_threads ?s2 = [At_infer 1 1 Rt2_stub]"
    by (simp del: One_nat_def add: cancel_vla_job_def run_job is_terminal_def Let_def) (simp add: start_job_def sample_taken)
  then have "vla_step sample_choices Ev_internal ?s2 ?s3" by (intro vla_step.Returns) simp
  moreover have "vla_step sample_choices Ev_internal ?s3 (finish_job sample_choices 6 6 1 1 (Inr sample_answer) ?s3)"
    by (rule vla_step.Finish) (simp add: backend_returns_def)
  ultimately have run: "vla_run sample_choices [Ev_internal, Ev_internal] ?s2 (finish_job sample_choices 6 6 1 1 (Inr sample_answer) ?s3)"
    using vla_run.More [OF vla_run.More [OF vla_run.Stay]] by fastforce
  from vla_cancelled_never_done [OF reach run job] reach run show ?thesis by blast
qed

subsection \<open>A superseded job never ends\<close>

text \<open>A job that nobody carries, told to stop while it was waiting.\<close>

definition stuck :: "nat \<Rightarrow> vla_system \<Rightarrow> bool" where
  "stuck i s \<longleftrightarrow> (\<exists>job. sv_jobs (sy_service s) i = Some job \<and> vj_status job = VJ_queued \<and> vj_cancel_requested job \<and>
     vj_final job = None) \<and> tokens_ok {i} s"

lemma stuck_run:
  assumes "vla_run hc evs s s'" "stuck i s" "Ev_cancel i \<notin> set evs"
  shows "stuck i s'"
proof -
  from assms(2) obtain job where job: "sv_jobs (sy_service s) i = Some job" "vj_status job = VJ_queued"
    "vj_cancel_requested job" "vj_final job = None" and tok: "tokens_ok {i} s"
    by (auto simp: stuck_def)
  have "\<exists>job'. sv_jobs (sy_service s') i = Some job' \<and>
      (Ev_cancel i \<notin> set evs \<longrightarrow> vj_status job' = VJ_queued \<and> vj_cancel_requested job' \<and> vj_final job' = None)"
    using assms(1) tok job(1)
  proof (induction rule: run_induct_job)
    case (step evs ev s' job' job'')
    have "i \<notin># carried s'" using tokens_okD(3) [OF step(2)] by (auto simp: carried_ok_def)
    with step(3,5) show ?case by (auto elim!: job_change.cases simp: past_deadline_def)
  qed (simp add: job)
  with assms(3) tokens_run [OF assms(1) tok] show ?thesis by (auto simp: stuck_def)
qed

lemma stuck_poll: "stuck i s \<Longrightarrow> sl_status (fst (poll now now' i s)) = VJ_queued \<and> sl_final (fst (poll now now' i s)) = None"
  by (auto simp: stuck_def poll_def past_deadline_def poll_result_def)

text \<open>Waiting in the scheduler as the job of its owner.\<close>

definition waits_for_owner :: "vla_request \<Rightarrow> nat \<Rightarrow> vla_system \<Rightarrow> bool" where
  "waits_for_owner req i s \<longleftrightarrow> map_of (sv_active_owner_jobs (sy_service s)) (make_owner_key req) = Some i \<and>
     (case sv_jobs (sy_service s) i of
        None \<Rightarrow> False
      | Some job \<Rightarrow> vj_status job = VJ_queued \<and> vj_final job = None \<and> vj_scheduler_job_id job \<noteq> 0 \<and>
          status_at (sy_sched s) (vj_scheduler_job_id job) = J_queued \<and>
          map_option fst (sy_fn s (vj_scheduler_job_id job)) = Some i)"

lemma superseded_stuck:
  assumes tok: "tokens_ok {} s" and wait: "waits_for_owner req i s" and new: "request_error req (sy_service s) = None"
  shows "stuck i (submit_enter hc now ts req s)"
proof -
  let ?n = "sv_next_job_id (sy_service s)"
  obtain job b where job: "sv_jobs (sy_service s) i = Some job" "vj_status job = VJ_queued" "vj_final job = None"
      "vj_scheduler_job_id job \<noteq> 0" "status_at (sy_sched s) (vj_scheduler_job_id job) = J_queued"
      "sy_fn s (vj_scheduler_job_id job) = Some (i, b)"
    and own: "map_of (sv_active_owner_jobs (sy_service s)) (make_owner_key req) = Some i"
    using wait by (auto simp: waits_for_owner_def split: option.splits)
  have ne: "i \<noteq> ?n" using tokens_okD(4) [OF tok job(1)] by simp
  have claimed: "claimed now req s =
      update_service (\<lambda>sv. sv\<lparr>sv_active_owner_jobs := alist_put (make_owner_key req) ?n (sv_active_owner_jobs sv)\<rparr>)
        (sched_cancel_in (vj_scheduler_job_id job) now
          (update_service (update_job i (\<lambda>j. j\<lparr>vj_cancel_requested := True, vj_superseded := True\<rparr>)) (admitted now req s)))"
    using job ne own by (simp add: claimed_def supersede_def is_terminal_def Let_def)
  have c: "carried s = carried (claimed now req s) + {#i#}"
    using queue_cancel [OF tokens_okD(2) [OF tok], of "sy_fn s" "vj_scheduler_job_id job" now] job(5,6)
    by (simp add: claimed carried_def)
  then have gone: "i \<notin># carried (claimed now req s)"
    using tokens_okD(3) [OF tok] unfolding carried_ok_def
    by (metis One_nat_def Suc_le_mono add_mset_add_single count_add_mset le_zero_eq not_in_iff)
  have err: "request_error req (sy_service (admitted now req s)) = None"
    using new by (simp add: request_error_def admitted_def admit_job_def split: option.splits if_splits)
  define s' where "s' = submit_enter hc now ts req s"
  have "carried s' \<subseteq># add_mset ?n (carried (claimed now req s))"
    by (auto simp: s'_def submit_parts err Let_def answer_from_cache_def carried_def split: option.split)
  then have "i \<notin># carried s'" using gone ne by (auto dest: mset_subset_eqD)
  moreover have tok': "tokens_ok {} s'" unfolding s'_def by (rule tokens_submit [OF tok])
  moreover have jobs: "\<exists>job. sv_jobs (sy_service s') i = Some job \<and> vj_status job = VJ_queued \<and> vj_cancel_requested job \<and>
      vj_final job = None"
    using job ne by (auto simp: s'_def submit_parts err Let_def answer_from_cache_def claimed split: option.split)
  ultimately have "tokens_ok {i} s'" using tokens_okD(4) [OF tok'] by (auto simp: tokens_ok_def carried_ok_def)
  with jobs show ?thesis by (simp add: stuck_def flip: s'_def)
qed



lemma poll_past_deadline:
  assumes "sv_jobs (sy_service s) i = Some job" "sint (vr_deadline_ms (vj_request job)) > 0" "\<not> vj_cancel_requested job"
    and "fp_less (fp_of_int (sint (vr_deadline_ms (vj_request job)))) (elapsed_ms (vj_submitted_at job) now)"
  shows "is_terminal (sl_status (fst (poll now now' i s)))"
  using assms by (auto simp: poll_def past_deadline_def poll_result_def Let_def is_terminal_def)

subsection \<open>The cache ignores forbidden ranges\<close>

definition guarded_request :: vla_request where
  "guarded_request = sample_vla_request\<lparr>vr_constraints :=
     (vr_constraints sample_vla_request)\<lparr>vcs_forbidden_ranges := [(fp_one, fp_one)]\<rparr>\<rparr>"

text \<open>
  The service can report a job as done with an action in a range that the request of the job forbids:
  the action was released for an earlier request that differs in the forbidden ranges only, and the
  cache does not tell the two apart.
\<close>

theorem cached_action_forbidden:
  "\<exists>s job r. vla_reachable sample_choices s \<and> sv_jobs (sy_service s) 2 = Some job \<and> vj_status job = VJ_done \<and>
     vj_final job = Some r \<and> list_ex (in_forbidden (vr_constraints (vj_request job))) (va_u (vs_action r)) \<and>
     fst (validate_and_clamp_action (vj_request job) (vs_action r)) \<noteq> None"
proof -
  let ?s = "submit_enter sample_choices 1 1 guarded_request sample_settled"
  have run: "vla_run sample_choices [Ev_submit guarded_request] sample_settled ?s"
    using vla_run.More [OF vla_run.Stay vla_step.Submit] by simp
  have "validate_request_shape guarded_request = validate_request_shape sample_vla_request"
    by (simp add: guarded_request_def validate_request_shape_def)
  then have err: "request_error guarded_request sv = None" for sv
    by (simp add: request_error_def missing_handle_def) (simp add: guarded_request_def sample_vla_request_def)
  have hash: "hash_request guarded_request = hash_request sample_vla_request"
    unfolding guarded_request_def by (rule hash_ignores)
  obtain job0 where new: "sv_jobs (sy_service (claimed 1 guarded_request sample_settled)) 2 = Some job0"
    "vj_request job0 = guarded_request"
    using claimed_new [of 1 guarded_request sample_settled] by (auto simp: sample_settled_fields)
  have "fresh_entry (hash_request guarded_request) 1 (sy_service (claimed 1 guarded_request sample_settled)) =
      Some \<lparr>ce_response = sample_released, ce_expires_at = 750000000\<rparr>"
    by (simp add: fresh_entry_def sample_settled_fields hash)
  then have "?s = answer_from_cache sample_choices 1 1 2 guarded_request sample_released (claimed 1 guarded_request sample_settled)"
    by (simp add: submit_parts err Let_def sample_settled_fields)
  with new obtain job where job: "sv_jobs (sy_service ?s) 2 = Some job" "vj_status job = VJ_done" "vj_final job = Some sample_released"
    "vj_request job = guarded_request"
    by (simp add: answer_from_cache_def)
  moreover have "in_forbidden (vr_constraints guarded_request) fp_one"
    by (simp add: guarded_request_def in_forbidden_def fp_compute)
  moreover have "fst (validate_and_clamp_action guarded_request (make_continuous_action [fp_one])) \<noteq> None"
    by (simp add: validate_and_clamp_action_def guarded_request_def sample_vla_request_def make_continuous_action_def
        clamp_coord_def in_forbidden_def fp_clamp_def fp_abs_def fp_make_def fp_compute)
  ultimately show ?thesis
    using reachable_run [OF sample_settled_reachable run] by (auto simp: sample_released_parts make_continuous_action_def)
qed

subsection \<open>Bounded tables\<close>

definition sizes_ok :: "vla_system \<Rightarrow> bool" where
  "sizes_ok s \<longleftrightarrow> length (sv_cache (sy_service s)) \<le> sv_cache_capacity (sy_service s) \<and>
     length (sv_records (sy_service s)) \<le> record_capacity"

lemma append_record_size:
  "length (sv_records sv) \<le> record_capacity \<Longrightarrow> length (sv_records (append_record rec sv)) \<le> record_capacity"
  by (auto simp: append_record_def Let_def record_capacity_def)

lemma remember_size:
  "length (sv_cache sv) \<le> cap \<Longrightarrow> sv_cache_capacity sv = cap \<Longrightarrow>
     length (sv_cache (remember_response hc fin job r sv)) \<le> cap"
  using evict_bound by (auto simp: remember_response_def evict_cache_if_needed_def)

lemma config_size:
  assumes "vla_config hc sv sv'" "length (sv_cache sv) \<le> sv_cache_capacity sv" "length (sv_records sv) \<le> record_capacity"
  shows "length (sv_cache sv') \<le> sv_cache_capacity sv' \<and> length (sv_records sv') \<le> record_capacity"
  using assms evict_bound
  by cases (auto simp: register_backend_def set_default_backend_def create_image_def create_blob_def set_log_path_def
      set_cache_ttl_ms_def set_log_enabled_def set_record_listener_def clear_records_def set_cache_capacity_def
      evict_cache_if_needed_def guard_err_def Let_def split: if_splits option.splits)

lemma sizes_step:
  assumes "vla_step hc ev s s'" "sizes_ok s"
  shows "sizes_ok s'"
  using assms(1)
proof cases
  case (Finish j i out now ts)
  then show ?thesis using assms(2) by (auto simp: finish_job_def Let_def sizes_ok_def intro!: remember_size split: option.split)
next
  case (Configure sv)
  then show ?thesis using assms(2) config_size by (auto simp: sizes_ok_def)
qed (use assms(2) append_record_size in \<open>auto simp: sizes_ok_def submit_parts refuse_job_def answer_from_cache_def claimed_def
    admitted_def admit_job_def submit_resolve_def submit_no_backend_def submit_schedule_def submit_assign_def finish_record_def
    poll_sched_cancel_def pool_take_def start_job_def on_partial_def raise_cancel_flag_def poll_def cancel_vla_job_def
    backend_returns_def finish_job_record_def pool_return_def Let_def
    split: option.splits list.splits sum.splits prod.splits if_splits\<close>)

lemma sizes_reachable: "vla_reachable hc s \<Longrightarrow> sizes_ok s"
proof -
  have "sizes_ok (vla_system_new hardware requested)" for hardware requested
    by (simp add: sizes_ok_def vla_system_new_def vla_service_new_def)
  moreover have "vla_run hc evs s s' \<Longrightarrow> sizes_ok s \<Longrightarrow> sizes_ok s'" for evs s s'
    by (induction rule: vla_run.induct) (auto intro: sizes_step)
  ultimately show "vla_reachable hc s \<Longrightarrow> sizes_ok s" unfolding vla_reachable_def by blast
qed

end
