(* ===== verification/Bytecode.thy ===== *)
theory Bytecode
  imports Ast
begin

text \<open>
  The bytecode of closures (\<open>src/compiled_eval.cpp\<close>): the compiler that every \<open>lambda\<close> and function
  definition goes through, and the machine that runs one frame of a compiled closure.

  The functions of the compiler are mutually recursive through \<open>compile_expr\<close>; here each takes the
  compiler of the subexpressions as an argument, and \<open>compile_expr\<close> takes the depth to which it may
  descend, for which the size of the expression is enough. \<open>None\<close> stands for \<open>false\<close>: the closure is
  not compiled and is interpreted instead.
\<close>

subsection \<open>Errors\<close>

text \<open>The classes of \<open>include/muslisp/error.hpp\<close>; \<open>Foreign\<close> is any exception of a host function.\<close>

datatype lisp_exn =
    Lisp_error string
  | Syntax_error string bool
  | Eval_error string
  | Type_error string
  | Name_error string
  | Foreign exn
  | No_fuel

type_synonym ('a, 'w) lisp_result = "(lisp_exn + 'a) \<times> 'w"

subsection \<open>Instructions\<close>

datatype compiled_instruction =
    Push_const lisp_value
  | Load_local nat
  | Load_name string
  | Store_local nat
  | Pop
  | Jump nat
  | Jump_if_false nat
  | Jump_if_false_keep nat
  | Jump_if_truthy_keep nat
  | Call nat
  | Tail_call nat
  | Return_value

record compiled_closure =
  cc_code :: "compiled_instruction list"
  cc_local_count :: nat

record compile_scope =
  cs_locals :: "string \<Rightarrow> nat option"
  cs_next_slot :: nat

definition is_symbol_named :: "lisp_value \<Rightarrow> string \<Rightarrow> bool" where
  "is_symbol_named v name = (v = VSym name)"

definition emit :: "compiled_instruction \<Rightarrow> compiled_closure \<Rightarrow> compiled_closure" where
  "emit instr out = out\<lparr>cc_code := cc_code out @ [instr]\<rparr>"

text \<open>\<open>out.code[at].index = target\<close>, for the jump at that position.\<close>

fun with_index :: "nat \<Rightarrow> compiled_instruction \<Rightarrow> compiled_instruction" where
  "with_index target (Jump _) = Jump target"
| "with_index target (Jump_if_false _) = Jump_if_false target"
| "with_index target (Jump_if_false_keep _) = Jump_if_false_keep target"
| "with_index target (Jump_if_truthy_keep _) = Jump_if_truthy_keep target"
| "with_index target instr = instr"

definition patch :: "nat \<Rightarrow> compiled_closure \<Rightarrow> compiled_closure" where
  "patch at out = out\<lparr>cc_code := (cc_code out)[at := with_index (length (cc_code out)) (cc_code out ! at)]\<rparr>"

definition here :: "compiled_closure \<Rightarrow> nat" where
  "here out = length (cc_code out)"

subsection \<open>The compiler\<close>

type_synonym compile_fn = "lisp_value \<Rightarrow> compile_scope \<Rightarrow> bool \<Rightarrow> compiled_closure \<Rightarrow> compiled_closure option"

text \<open>The loop of \<open>compile_sequence\<close> over a nonempty list.\<close>

fun compile_body :: "compile_fn \<Rightarrow> lisp_value list \<Rightarrow> compile_scope \<Rightarrow> bool \<Rightarrow> compiled_closure \<Rightarrow> compiled_closure option" where
  "compile_body cmp [] scope tail_position out = Some out"
| "compile_body cmp [e] scope tail_position out = cmp e scope tail_position out"
| "compile_body cmp (e # es) scope tail_position out =
     Option.bind (cmp e scope False out) (\<lambda>out. compile_body cmp es scope tail_position (emit Pop out))"

definition compile_sequence ::
  "compile_fn \<Rightarrow> lisp_value list \<Rightarrow> compile_scope \<Rightarrow> bool \<Rightarrow> compiled_closure \<Rightarrow> compiled_closure option" where
  "compile_sequence cmp exprs scope tail_position out =
     (if exprs = [] then Some (emit (Push_const VNil) out) else compile_body cmp exprs scope tail_position out)"

definition compile_if_form ::
  "compile_fn \<Rightarrow> lisp_value list \<Rightarrow> compile_scope \<Rightarrow> bool \<Rightarrow> compiled_closure \<Rightarrow> compiled_closure option" where
  "compile_if_form cmp args scope tail_position out =
     (if length args \<noteq> 2 \<and> length args \<noteq> 3 then None
      else Option.bind (cmp (args ! 0) scope False out) (\<lambda>out.
        let false_jump = here out; out = emit (Jump_if_false 0) out in
        Option.bind (cmp (args ! 1) scope tail_position out) (\<lambda>out.
          let end_jump = here out; out = patch false_jump (emit (Jump 0) out) in
          Option.bind (if length args = 3 then cmp (args ! 2) scope tail_position out
                       else Some (emit (Push_const VNil) out)) (\<lambda>out.
            Some (patch end_jump out)))))"

text \<open>The loop of \<open>and\<close> and \<open>or\<close>: every argument but the last is followed by a conditional exit.\<close>

fun compile_chain ::
  "compile_fn \<Rightarrow> (nat \<Rightarrow> compiled_instruction) \<Rightarrow> lisp_value list \<Rightarrow> compile_scope \<Rightarrow> bool \<Rightarrow> nat list \<Rightarrow> compiled_closure \<Rightarrow>
    (nat list \<times> compiled_closure) option" where
  "compile_chain cmp exit [] scope tail_position jumps out = Some (jumps, out)"
| "compile_chain cmp exit [e] scope tail_position jumps out =
     map_option (Pair jumps) (cmp e scope tail_position out)"
| "compile_chain cmp exit (e # es) scope tail_position jumps out =
     Option.bind (cmp e scope False out) (\<lambda>out.
       compile_chain cmp exit es scope tail_position (jumps @ [here out]) (emit Pop (emit (exit 0) out)))"

definition compile_and_form ::
  "compile_fn \<Rightarrow> lisp_value list \<Rightarrow> compile_scope \<Rightarrow> bool \<Rightarrow> compiled_closure \<Rightarrow> compiled_closure option" where
  "compile_and_form cmp args scope tail_position out =
     (if args = [] then Some (emit (Push_const (VBool True)) out)
      else map_option (\<lambda>(jumps, out). fold patch jumps out)
             (compile_chain cmp Jump_if_false_keep args scope tail_position [] out))"

definition compile_or_form ::
  "compile_fn \<Rightarrow> lisp_value list \<Rightarrow> compile_scope \<Rightarrow> bool \<Rightarrow> compiled_closure \<Rightarrow> compiled_closure option" where
  "compile_or_form cmp args scope tail_position out =
     (if args = [] then Some (emit (Push_const VNil) out)
      else map_option (\<lambda>(jumps, out). fold patch jumps out)
             (compile_chain cmp Jump_if_truthy_keep args scope tail_position [] out))"

text \<open>Every binding of a \<open>let\<close> gets the next slot; the initialisers are compiled in the outer scope.\<close>

fun let_binding :: "lisp_value \<Rightarrow> (string \<times> lisp_value) option" where
  "let_binding v =
     (case vector_from_list v of
        Inr [VSym name, init] \<Rightarrow> Some (name, init)
      | _ \<Rightarrow> None)"

fun let_bindings :: "lisp_value list \<Rightarrow> (string \<times> lisp_value) list option" where
  "let_bindings [] = Some []"
| "let_bindings (b # bs) = Option.bind (let_binding b) (\<lambda>x. map_option (Cons x) (let_bindings bs))"

definition bind_slot :: "string \<Rightarrow> compile_scope \<Rightarrow> compile_scope" where
  "bind_slot name scope =
     scope\<lparr>cs_locals := (cs_locals scope)(name \<mapsto> cs_next_slot scope), cs_next_slot := Suc (cs_next_slot scope)\<rparr>"

fun compile_inits ::
  "compile_fn \<Rightarrow> lisp_value list \<Rightarrow> nat \<Rightarrow> compile_scope \<Rightarrow> compiled_closure \<Rightarrow> compiled_closure option" where
  "compile_inits cmp [] slot scope out = Some out"
| "compile_inits cmp (e # es) slot scope out =
     Option.bind (cmp e scope False out) (\<lambda>out. compile_inits cmp es (Suc slot) scope (emit (Store_local slot) out))"

definition compile_let_form ::
  "compile_fn \<Rightarrow> lisp_value list \<Rightarrow> compile_scope \<Rightarrow> bool \<Rightarrow> compiled_closure \<Rightarrow> compiled_closure option" where
  "compile_let_form cmp args scope tail_position out =
     (if length args < 2 then None
      else case vector_from_list (args ! 0) of
        Inl _ \<Rightarrow> None
      | Inr bindings \<Rightarrow>
          Option.bind (let_bindings bindings) (\<lambda>bs.
            let body_scope = fold bind_slot (map fst bs) scope;
                out = out\<lparr>cc_local_count := max (cs_next_slot body_scope) (cc_local_count out)\<rparr> in
            Option.bind (compile_inits cmp (map snd bs) (cs_next_slot scope) scope out) (\<lambda>out.
              compile_sequence cmp (drop 1 args) body_scope tail_position out)))"

fun compile_operands :: "compile_fn \<Rightarrow> lisp_value list \<Rightarrow> compile_scope \<Rightarrow> compiled_closure \<Rightarrow> compiled_closure option" where
  "compile_operands cmp [] scope out = Some out"
| "compile_operands cmp (e # es) scope out = Option.bind (cmp e scope False out) (compile_operands cmp es scope)"

definition compile_call_form ::
  "compile_fn \<Rightarrow> lisp_value list \<Rightarrow> compile_scope \<Rightarrow> bool \<Rightarrow> compiled_closure \<Rightarrow> compiled_closure option" where
  "compile_call_form cmp items scope tail_position out =
     (if items = [] then None
      else map_option (emit (if tail_position then Tail_call (length items - 1) else Call (length items - 1)))
             (compile_operands cmp items scope out))"

definition interpreted_forms :: "string list" where
  "interpreted_forms =
     [''cond'', ''define'', ''lambda'', ''quasiquote'', ''load'', ''bt'', ''defbt'', ''unquote'', ''unquote-splicing'']"

definition compile_list_form :: "compile_fn \<Rightarrow> compile_fn" where
  "compile_list_form cmp expr scope tail_position out =
     (case vector_from_list expr of
        Inr (head # args) \<Rightarrow>
          if is_symbol_named head ''quote'' then
            (if length args \<noteq> 1 then None else Some (emit (Push_const (args ! 0)) out))
          else if is_symbol_named head ''if'' then compile_if_form cmp args scope tail_position out
          else if is_symbol_named head ''begin'' then compile_sequence cmp args scope tail_position out
          else if is_symbol_named head ''let'' then compile_let_form cmp args scope tail_position out
          else if is_symbol_named head ''and'' then compile_and_form cmp args scope tail_position out
          else if is_symbol_named head ''or'' then compile_or_form cmp args scope tail_position out
          else if list_ex (is_symbol_named head) interpreted_forms then None
          else compile_call_form cmp (head # args) scope tail_position out
      | _ \<Rightarrow> None)"

fun compile_expr :: "nat \<Rightarrow> compile_fn" where
  "compile_expr 0 expr scope tail_position out = None"
| "compile_expr (Suc k) expr scope tail_position out =
     (case expr of
        VSym name \<Rightarrow>
          (case cs_locals scope name of
             Some slot \<Rightarrow> Some (emit (Load_local slot) out)
           | None \<Rightarrow> Some (emit (Load_name name) out))
      | VCons _ _ \<Rightarrow> compile_list_form (compile_expr k) expr scope tail_position out
      | _ \<Rightarrow> Some (emit (Push_const expr) out))"

definition param_scope :: "string list \<Rightarrow> compile_scope" where
  "param_scope params = fold bind_slot params \<lparr>cs_locals = (\<lambda>_. None), cs_next_slot = 0\<rparr>"

definition compile_depth :: "lisp_value list \<Rightarrow> nat" where
  "compile_depth body = Suc (size_list size body)"

definition try_compile_closure :: "string list \<Rightarrow> lisp_value list \<Rightarrow> compiled_closure option" where
  "try_compile_closure params body =
     map_option (emit Return_value)
       (compile_sequence (compile_expr (compile_depth body)) body (param_scope params) True
          \<lparr>cc_code = [], cc_local_count = length params\<rparr>)"

subsection \<open>The machine\<close>

text \<open>
  One frame of \<open>execute_compiled_closure\<close>. What the machine needs from the rest of the evaluator, on a
  state of type \<open>'w\<close>: calling a value, looking a name up in the environment of the closure, and whether
  a value is a compiled closure.
\<close>

record 'w machine_host =
  mh_invoke :: "lisp_value \<Rightarrow> lisp_value list \<Rightarrow> 'w \<Rightarrow> (lisp_value, 'w) lisp_result"
  mh_lookup :: "string \<Rightarrow> 'w \<Rightarrow> lisp_exn + lisp_value"
  mh_compiled :: "lisp_value \<Rightarrow> 'w \<Rightarrow> bool"

record machine =
  vm_ip :: nat
  vm_stack :: "lisp_value list"
  vm_locals :: "lisp_value list"

datatype frame_end =
    Frame_return lisp_value
  | Frame_tail lisp_value "lisp_value list"
  | Frame_throw lisp_exn

definition underflow :: lisp_exn where
  "underflow = Eval_error ''compiled closure: stack underflow''"

definition bad_slot :: lisp_exn where
  "bad_slot = Eval_error ''compiled closure: invalid local slot''"

definition push :: "lisp_value \<Rightarrow> machine \<Rightarrow> machine" where
  "push v m = m\<lparr>vm_ip := Suc (vm_ip m), vm_stack := v # vm_stack m\<rparr>"

text \<open>\<open>pop_call_args\<close>, then the callee: the arguments lie on the stack last first, the callee below them.\<close>

definition pop_call :: "nat \<Rightarrow> lisp_value list \<Rightarrow> (lisp_value \<times> lisp_value list \<times> lisp_value list) option" where
  "pop_call argc stack =
     (if length stack \<le> argc then None else Some (stack ! argc, rev (take argc stack), drop (Suc argc) stack))"

fun vm_step :: "'w machine_host \<Rightarrow> compiled_instruction \<Rightarrow> machine \<Rightarrow> 'w \<Rightarrow> (frame_end + machine) \<times> 'w" where
  "vm_step host (Push_const v) m w = (Inr (push v m), w)"
| "vm_step host (Load_local i) m w =
     ((if i \<ge> length (vm_locals m) then Inl (Frame_throw bad_slot) else Inr (push (vm_locals m ! i) m)), w)"
| "vm_step host (Load_name name) m w =
     ((case mh_lookup host name w of Inl e \<Rightarrow> Inl (Frame_throw e) | Inr v \<Rightarrow> Inr (push v m)), w)"
| "vm_step host (Store_local i) m w =
     ((if i \<ge> length (vm_locals m) then Inl (Frame_throw bad_slot)
       else case vm_stack m of
         [] \<Rightarrow> Inl (Frame_throw underflow)
       | v # s \<Rightarrow> Inr (m\<lparr>vm_ip := Suc (vm_ip m), vm_stack := s, vm_locals := (vm_locals m)[i := v]\<rparr>)), w)"
| "vm_step host Pop m w =
     ((case vm_stack m of
         [] \<Rightarrow> Inl (Frame_throw underflow)
       | v # s \<Rightarrow> Inr (m\<lparr>vm_ip := Suc (vm_ip m), vm_stack := s\<rparr>)), w)"
| "vm_step host (Jump i) m w = (Inr (m\<lparr>vm_ip := i\<rparr>), w)"
| "vm_step host (Jump_if_false i) m w =
     ((case vm_stack m of
         [] \<Rightarrow> Inl (Frame_throw underflow)
       | v # s \<Rightarrow> Inr (m\<lparr>vm_ip := (if is_truthy v then Suc (vm_ip m) else i), vm_stack := s\<rparr>)), w)"
| "vm_step host (Jump_if_false_keep i) m w =
     ((case vm_stack m of
         [] \<Rightarrow> Inl (Frame_throw underflow)
       | v # s \<Rightarrow> Inr (m\<lparr>vm_ip := (if is_truthy v then Suc (vm_ip m) else i)\<rparr>)), w)"
| "vm_step host (Jump_if_truthy_keep i) m w =
     ((case vm_stack m of
         [] \<Rightarrow> Inl (Frame_throw underflow)
       | v # s \<Rightarrow> Inr (m\<lparr>vm_ip := (if is_truthy v then i else Suc (vm_ip m))\<rparr>)), w)"
| "vm_step host (Call argc) m w =
     (case pop_call argc (vm_stack m) of
        None \<Rightarrow> (Inl (Frame_throw underflow), w)
      | Some (callee, args, s) \<Rightarrow>
          (case mh_invoke host callee args w of
             (Inl e, w) \<Rightarrow> (Inl (Frame_throw e), w)
           | (Inr v, w) \<Rightarrow> (Inr (push v (m\<lparr>vm_stack := s\<rparr>)), w)))"
| "vm_step host (Tail_call argc) m w =
     (case pop_call argc (vm_stack m) of
        None \<Rightarrow> (Inl (Frame_throw underflow), w)
      | Some (callee, args, s) \<Rightarrow>
          if mh_compiled host callee w then (Inl (Frame_tail callee args), w)
          else (case mh_invoke host callee args w of
                  (Inl e, w) \<Rightarrow> (Inl (Frame_throw e), w)
                | (Inr v, w) \<Rightarrow> (Inl (Frame_return v), w)))"
| "vm_step host Return_value m w =
     (Inl (Frame_return (case vm_stack m of [] \<Rightarrow> VNil | v # s \<Rightarrow> v)), w)"

text \<open>
  The inner loop. Jumps of compiled code only go forward, so as many steps as there are instructions are
  enough (\<open>compiled_frame_ends\<close>).
\<close>

fun run_frame ::
  "nat \<Rightarrow> 'w machine_host \<Rightarrow> compiled_instruction list \<Rightarrow> machine \<Rightarrow> 'w \<Rightarrow> frame_end \<times> 'w" where
  "run_frame 0 host code m w =
     (Frame_throw (if vm_ip m < length code then No_fuel else Eval_error ''compiled closure: fell off end of bytecode''), w)"
| "run_frame (Suc n) host code m w =
     (if vm_ip m < length code then
        (case vm_step host (code ! vm_ip m) m w of
           (Inl e, w) \<Rightarrow> (e, w)
         | (Inr m, w) \<Rightarrow> run_frame n host code m w)
      else (Frame_throw (Eval_error ''compiled closure: fell off end of bytecode''), w))"

definition enter_frame :: "compiled_closure \<Rightarrow> lisp_value list \<Rightarrow> machine" where
  "enter_frame cc args =
     \<lparr>vm_ip = 0, vm_stack = [], vm_locals = args @ replicate (cc_local_count cc - length args) VNil\<rparr>"

definition execute_frame ::
  "'w machine_host \<Rightarrow> compiled_closure \<Rightarrow> lisp_value list \<Rightarrow> 'w \<Rightarrow> frame_end \<times> 'w" where
  "execute_frame host cc args w = run_frame (length (cc_code cc)) host (cc_code cc) (enter_frame cc args) w"

end
