(* ===== verification/Reader.thy ===== *)
theory Reader
  imports Doubles
begin

text \<open>
  The text syntax of Lisp data: the reader (\<open>src/reader.cpp\<close>) and the printer (\<open>src/printer.cpp\<close>).

  The parser's position in the source is represented by the rest of the input; the offset that error
  messages report is the difference of the lengths. \<open>read_expr\<close> and \<open>read_list\<close> call each other, so
  they take a number of calls; twice the length of the input is enough (\<open>read_all_total\<close>). Characters
  are classified as in the C locale.
\<close>

subsection \<open>Errors with positions\<close>

abbreviation apostrophe :: char where "apostrophe \<equiv> CHR 0x27"
abbreviation backquote :: char where "backquote \<equiv> CHR 0x60"

datatype parse_failure = Parse_error string bool | Out_of_fuel

type_synonym 'a parsed = "parse_failure + 'a"

fun line_column :: "nat \<Rightarrow> nat \<Rightarrow> string \<Rightarrow> nat \<times> nat" where
  "line_column line column [] = (line, column)"
| "line_column line column (c # s) =
     (if c = newline then line_column (Suc line) 1 s else line_column line (Suc column) s)"

definition parse_error_at :: "string \<Rightarrow> string \<Rightarrow> bool \<Rightarrow> nat \<Rightarrow> parse_failure" where
  "parse_error_at source message incomplete position =
     (let (line, column) = line_column 1 1 (take position source) in
      Parse_error (''line '' @ nat_str line @ '', column '' @ nat_str column @ '': '' @ message) incomplete)"

definition parse_error_here :: "string \<Rightarrow> string \<Rightarrow> string \<Rightarrow> bool \<Rightarrow> parse_failure" where
  "parse_error_here source rest message incomplete =
     parse_error_at source message incomplete (length source - length rest)"

subsection \<open>White space and comments\<close>

definition is_space :: "char \<Rightarrow> bool" where
  "is_space c = (c \<in> set [CHR '' '', tabulator, newline, CHR 0x0B, CHR 0x0C, carriage])"

function skip_ws_and_comments :: "string \<Rightarrow> string" where
  "skip_ws_and_comments [] = []"
| "skip_ws_and_comments (c # s) =
     (if is_space c then skip_ws_and_comments s
      else if c = CHR '';'' then skip_ws_and_comments (dropWhile (\<lambda>d. d \<noteq> newline) s)
      else c # s)"
  by pat_completeness auto
termination
  by (relation "measure length") (auto simp: less_Suc_eq_le length_dropWhile_le)

subsection \<open>Numbers\<close>

text \<open>\<open>std::from_chars\<close> on a 64-bit integer, when it accepts the whole token.\<close>

definition is_digit :: "char \<Rightarrow> bool" where
  "is_digit c = (c \<in> set ''0123456789'')"

definition is_xdigit :: "char \<Rightarrow> bool" where
  "is_xdigit c = (c \<in> set ''0123456789abcdefABCDEF'')"

definition digit_value :: "char \<Rightarrow> int" where
  "digit_value c = (let k = of_char c in if k < 58 then k - 48 else if k < 71 then k - 55 else k - 87)"

definition digits_value :: "int \<Rightarrow> string \<Rightarrow> int" where
  "digits_value base s = fold (\<lambda>c v. v * base + digit_value c) s 0"

definition from_chars :: "string \<Rightarrow> i64 option" where
  "from_chars token =
     (let neg = (take 1 token = ''-''); ds = (if neg then drop 1 token else token);
          v = (if neg then - digits_value 10 ds else digits_value 10 ds)
      in if ds \<noteq> [] \<and> list_all is_digit ds \<and> - (2 ^ 63) \<le> v \<and> v < 2 ^ 63 then Some (word_of_int v) else None)"

text \<open>
  \<open>std::strtod\<close>, when it accepts the whole token: a sign, then a decimal number with an exponent of ten
  or a hexadecimal one with an exponent of two, correctly rounded. Infinities and NaNs have names
  without a point or an \<open>e\<close>, so \<open>read_atom\<close> never asks for them.
\<close>

definition signed_text :: "string \<Rightarrow> bool \<times> string" where
  "signed_text s = (if take 1 s = ''-'' then (True, drop 1 s) else if take 1 s = ''+'' then (False, drop 1 s) else (False, s))"

definition exponent_text :: "string \<Rightarrow> int option" where
  "exponent_text s =
     (let (neg, ds) = signed_text s in
      if ds \<noteq> [] \<and> list_all is_digit ds then Some (if neg then - digits_value 10 ds else digits_value 10 ds) else None)"

definition scaled_double :: "bool \<Rightarrow> int \<Rightarrow> int \<Rightarrow> int \<Rightarrow> double" where
  "scaled_double neg base m x =
     (let i = (if neg then - m else m) in
      if x \<ge> 0 then fp_round neg (i * base ^ nat x) 1 else fp_round neg i (base ^ nat (- x)))"

definition float_text ::
  "(char \<Rightarrow> bool) \<Rightarrow> int \<Rightarrow> string \<Rightarrow> int \<Rightarrow> int \<Rightarrow> bool \<Rightarrow> string \<Rightarrow> double option" where
  "float_text isd base markers ebase per_digit neg s =
     (let whole = takeWhile isd s; r = dropWhile isd s;
          point = (take 1 r = ''.'');
          frac = (if point then takeWhile isd (drop 1 r) else []);
          rest = (if point then dropWhile isd (drop 1 r) else r);
          m = digits_value base (whole @ frac); x = - (per_digit * int (length frac))
      in if whole @ frac = [] then None
         else if rest = [] then Some (scaled_double neg ebase m x)
         else if hd rest \<in> set markers then
           map_option (\<lambda>e. scaled_double neg ebase m (x + e)) (exponent_text (tl rest))
         else None)"

definition strtod :: "string \<Rightarrow> double option" where
  "strtod token =
     (let (neg, s) = signed_text token in
      if take 2 s \<in> {''0x'', ''0X''} \<and> list_ex is_xdigit (take 2 (drop 2 s))
      then float_text is_xdigit 16 ''pP'' 2 4 neg (drop 2 s)
      else float_text is_digit 10 ''eE'' 10 1 neg s)"

subsection \<open>Reading\<close>

definition delimiter :: "char \<Rightarrow> bool" where
  "delimiter c = (is_space c \<or> c \<in> set ''();'')"

definition maybe_float :: "string \<Rightarrow> bool" where
  "maybe_float token = list_ex (\<lambda>c. c \<in> set ''.eE'') token"

definition atom_value :: "string \<Rightarrow> lisp_value" where
  "atom_value token =
     (if token = ''#t'' then VBool True
      else if token = ''#f'' then VBool False
      else if token = ''nil'' then VNil
      else if maybe_float token then (case strtod token of Some d \<Rightarrow> VFloat d | None \<Rightarrow> VSym token)
      else (case from_chars token of Some i \<Rightarrow> VInt i | None \<Rightarrow> VSym token))"

definition read_atom :: "char \<Rightarrow> string \<Rightarrow> lisp_value \<times> string" where
  "read_atom first_char s =
     (atom_value (first_char # takeWhile (\<lambda>c. \<not> delimiter c) s), dropWhile (\<lambda>c. \<not> delimiter c) s)"

definition unescaped :: "char \<Rightarrow> char option" where
  "unescaped c =
     (if c = CHR ''n'' then Some newline
      else if c = CHR ''t'' then Some tabulator
      else if c = CHR ''r'' then Some carriage
      else if c = dquote then Some dquote
      else if c = backslash then Some backslash
      else None)"

fun read_string_literal :: "string \<Rightarrow> string \<Rightarrow> string \<Rightarrow> (lisp_value \<times> string) parsed" where
  "read_string_literal source out [] = Inl (parse_error_here source [] ''unterminated string'' True)"
| "read_string_literal source out (c # s) =
     (if c = dquote then Inr (VStr out, s)
      else if c = backslash then
        (case s of
           [] \<Rightarrow> Inl (parse_error_here source [] ''unterminated string escape'' True)
         | escaped # s' \<Rightarrow>
             (case unescaped escaped of
                Some d \<Rightarrow> read_string_literal source (out @ [d]) s'
              | None \<Rightarrow> Inl (parse_error_here source s' ''unknown string escape'' False)))
      else read_string_literal source (out @ [c]) s)"

definition tagged :: "string \<Rightarrow> (lisp_value \<times> string) parsed \<Rightarrow> (lisp_value \<times> string) parsed" where
  "tagged tag r = rbind r (\<lambda>(v, s). Inr (list_from_vector [VSym tag, v], s))"

text \<open>The characters that stand for a form around the next expression.\<close>

definition reader_macro :: "char \<Rightarrow> string \<Rightarrow> (string \<times> string) option" where
  "reader_macro c r =
     (if c = apostrophe then Some (''quote'', r)
      else if c = backquote then Some (''quasiquote'', r)
      else if c = CHR '','' then
        (if take 1 r = ''@'' then Some (''unquote-splicing'', drop 1 r) else Some (''unquote'', r))
      else None)"

fun read_expr :: "nat \<Rightarrow> string \<Rightarrow> string \<Rightarrow> (lisp_value \<times> string) parsed"
  and read_list :: "nat \<Rightarrow> string \<Rightarrow> lisp_value list \<Rightarrow> string \<Rightarrow> (lisp_value \<times> string) parsed" where
  "read_expr 0 source s = Inl Out_of_fuel"
| "read_expr (Suc k) source s =
     (case skip_ws_and_comments s of
        [] \<Rightarrow> Inl (parse_error_here source [] ''unexpected end of input'' True)
      | c # r \<Rightarrow>
          if c = CHR ''('' then read_list k source [] r
          else if c = CHR '')'' then Inl (parse_error_here source r (''unexpected '' @ [apostrophe, CHR '')'', apostrophe]) False)
          else if c = CHR '','' \<and> r = [] then
            Inl (parse_error_here source [] (''unexpected end of input after '' @ [apostrophe, CHR '','', apostrophe]) True)
          else if c = dquote then read_string_literal source [] r
          else (case reader_macro c r of
                  Some (tag, r') \<Rightarrow> tagged tag (read_expr k source r')
                | None \<Rightarrow> Inr (read_atom c r)))"
| "read_list 0 source items s = Inl Out_of_fuel"
| "read_list (Suc k) source items s =
     (case skip_ws_and_comments s of
        [] \<Rightarrow> Inl (parse_error_here source [] ''unterminated list'' True)
      | c # r \<Rightarrow>
          if c = CHR '')'' then Inr (list_from_vector items, r)
          else rbind (read_expr k source (c # r)) (\<lambda>(v, s'). read_list k source (items @ [v]) s'))"

fun read_all_expressions :: "nat \<Rightarrow> string \<Rightarrow> lisp_value list \<Rightarrow> string \<Rightarrow> lisp_value list parsed" where
  "read_all_expressions 0 source exprs s = Inl Out_of_fuel"
| "read_all_expressions (Suc k) source exprs s =
     (case skip_ws_and_comments s of
        [] \<Rightarrow> Inr exprs
      | c # r \<Rightarrow>
          rbind (read_expr k source (c # r)) (\<lambda>(v, s'). read_all_expressions k source (exprs @ [v]) s'))"

definition enough_calls :: "string \<Rightarrow> nat" where
  "enough_calls s = 2 * length s + 2"

definition read_all :: "string \<Rightarrow> lisp_value list parsed" where
  "read_all source = read_all_expressions (enough_calls source) source [] source"

definition read_one :: "string \<Rightarrow> lisp_value parsed" where
  "read_one source =
     rbind (read_all source)
       (\<lambda>exprs. case exprs of
          [] \<Rightarrow> Inl (Parse_error ''line 1, column 1: expected one expression, got none'' False)
        | [v] \<Rightarrow> Inr v
        | _ \<Rightarrow> Inl (Parse_error ''line 1, column 1: expected one expression, got multiple'' False))"

subsection \<open>Printing\<close>

text \<open>Names of primitives and sizes of containers are those of the objects on the heap.\<close>

record object_info =
  oi_name :: "nat \<Rightarrow> string"
  oi_size :: "nat \<Rightarrow> nat"

definition format_float :: "double \<Rightarrow> string" where
  "format_float v =
     (if fp_is_nan v then ''nan''
      else if fp_is_inf v then (if fp_less v 0 then ''-inf'' else ''inf'')
      else let text = fp_str_prec 15 v in if maybe_float text then text else text @ ''.0'')"

definition write_error_message :: "value_type \<Rightarrow> string" where
  "write_error_message t = ''write: cannot serialise '' @ type_name t @ '' as readable data''"

definition print_object :: "object_info \<Rightarrow> value_type \<Rightarrow> nat \<Rightarrow> string" where
  "print_object info t a =
     (case t of
        T_primitive_fn \<Rightarrow> ''<primitive:'' @ oi_name info a @ ''>''
      | T_closure \<Rightarrow> ''<closure>''
      | T_vec \<Rightarrow> ''<vec:'' @ nat_str (oi_size info a) @ ''>''
      | T_map \<Rightarrow> ''<map:'' @ nat_str (oi_size info a) @ ''>''
      | T_pq \<Rightarrow> ''<pq:'' @ nat_str (oi_size info a) @ ''>''
      | T_rng \<Rightarrow> ''<rng>''
      | T_bt_def \<Rightarrow> ''<bt_def:'' @ nat_str a @ ''>''
      | T_bt_instance \<Rightarrow> ''<bt_instance:'' @ nat_str a @ ''>''
      | T_image_handle \<Rightarrow> ''<image_handle:'' @ nat_str a @ ''>''
      | T_blob_handle \<Rightarrow> ''<blob_handle:'' @ nat_str a @ ''>''
      | _ \<Rightarrow> ''<unknown>'')"

fun print_atom :: "object_info \<Rightarrow> bool \<Rightarrow> lisp_value \<Rightarrow> string + string" where
  "print_atom info readable VNil = Inr ''nil''"
| "print_atom info readable (VBool b) = Inr (if b then ''#t'' else ''#f'')"
| "print_atom info readable (VInt i) = Inr (i64_str i)"
| "print_atom info readable (VFloat d) =
     (if readable \<and> \<not> fp_is_finite d then Inl ''write: non-finite floats are not readable'' else Inr (format_float d))"
| "print_atom info readable (VSym s) = Inr s"
| "print_atom info readable (VStr s) = Inr (quoted (escape_text s))"
| "print_atom info readable (VOther t a) =
     (if readable then Inl (write_error_message t) else Inr (print_object info t a))"
| "print_atom info readable (VCons a d) = Inr []"

text \<open>\<open>print_tail\<close> is the rest of \<open>append_list\<close> behind the first item.\<close>

fun print_impl :: "object_info \<Rightarrow> bool \<Rightarrow> lisp_value \<Rightarrow> string + string"
  and print_tail :: "object_info \<Rightarrow> bool \<Rightarrow> lisp_value \<Rightarrow> string + string" where
  "print_impl info readable (VCons a d) =
     rbind (print_impl info readable a) (\<lambda>x. rbind (print_tail info readable d) (\<lambda>y. Inr (''('' @ x @ y @ '')'')))"
| "print_impl info readable v = print_atom info readable v"
| "print_tail info readable VNil = Inr []"
| "print_tail info readable (VCons a d) =
     rbind (print_impl info readable a) (\<lambda>x. rbind (print_tail info readable d) (\<lambda>y. Inr ('' '' @ x @ y)))"
| "print_tail info readable v = rbind (print_atom info readable v) (\<lambda>x. Inr ('' . '' @ x))"

definition print_value :: "object_info \<Rightarrow> lisp_value \<Rightarrow> string + string" where
  "print_value info v = print_impl info False v"

definition write_value :: "object_info \<Rightarrow> lisp_value \<Rightarrow> string + string" where
  "write_value info v = print_impl info True v"

end
