(* ===== verification/Lisp_Eval.thy ===== *)
theory Lisp_Eval
  imports Bytecode Reader Compiler
begin

text \<open>
  The evaluator (\<open>src/eval.cpp\<close>) with its environments (\<open>src/env.cpp\<close>) and the calls of compiled closures
  (\<open>execute_compiled_closure\<close> of \<open>src/compiled_eval.cpp\<close>).

  Environments and closures live in two tables of the world; a scope is the number of its environment, a closure value
  carries the number of its closure. An environment is younger than its parent. Primitive functions, the file system
  and the store of behaviour-tree definitions are parameters; a primitive gets \<open>invoke_callable\<close> to call back. Collections are
  left out: the collector frees only unreachable nodes (\<open>Collection\<close>).

  Evaluation need not end, so every operation takes its recursive calls from a record \<open>evaluator\<close>, and
  \<open>evaluator_of H k\<close> is the evaluator whose calls nest, or bounce, at most \<open>k\<close> deep; beyond that it gives \<open>No_fuel\<close>.
\<close>

subsection \<open>Environments and closures\<close>

record env_frame =
  ef_parent :: "nat option"
  ef_bindings :: "string \<Rightarrow> lisp_value option"

record closure_data =
  cl_params :: "string list"
  cl_body :: "lisp_value list"
  cl_env :: nat
  cl_compiled :: "compiled_closure option"

record 'h lisp_world =
  lw_envs :: "nat \<Rightarrow> env_frame"
  lw_next_env :: nat
  lw_closures :: "nat \<Rightarrow> closure_data"
  lw_next_closure :: nat
  lw_load_base_dirs :: "string list"
  lw_host :: 'h

type_synonym ('a, 'h) evaluation = "'h lisp_world \<Rightarrow> ('a, 'h lisp_world) lisp_result"

definition fail :: "lisp_exn \<Rightarrow> ('a, 'h) evaluation" where
  "fail e w = (Inl e, w)"

definition ok_value :: "'a \<Rightarrow> ('a, 'h) evaluation" where
  "ok_value v w = (Inr v, w)"

definition make_env :: "nat option \<Rightarrow> (nat, 'h) evaluation" where
  "make_env parent w =
     (Inr (lw_next_env w),
      w\<lparr>lw_envs := (lw_envs w)(lw_next_env w := \<lparr>ef_parent = parent, ef_bindings = Map.empty\<rparr>),
        lw_next_env := Suc (lw_next_env w)\<rparr>)"

definition bind_name :: "string \<Rightarrow> lisp_value \<Rightarrow> env_frame \<Rightarrow> env_frame" where
  "bind_name name v f = f\<lparr>ef_bindings := (ef_bindings f)(name \<mapsto> v)\<rparr>"

definition define_name :: "nat \<Rightarrow> string \<Rightarrow> lisp_value \<Rightarrow> 'h lisp_world \<Rightarrow> 'h lisp_world" where
  "define_name scope name v w = w\<lparr>lw_envs := (lw_envs w)(scope := bind_name name v (lw_envs w scope))\<rparr>"

text \<open>The loop of \<open>lookup\<close> over the parents; a parent that is not older than its child cannot occur (\<open>envs_ok\<close>).\<close>

function lookup :: "(nat \<Rightarrow> env_frame) \<Rightarrow> nat \<Rightarrow> string \<Rightarrow> lisp_exn + lisp_value" where
  "lookup envs scope name =
     (case ef_bindings (envs scope) name of
        Some v \<Rightarrow> Inr v
      | None \<Rightarrow>
          (case ef_parent (envs scope) of
             None \<Rightarrow> Inl (Name_error (''unbound symbol: '' @ name))
           | Some p \<Rightarrow> if p < scope then lookup envs p name else Inl No_fuel))"
  by pat_completeness auto
termination by (relation "measure (\<lambda>(_, scope, _). scope)") auto

declare lookup.simps [simp del]

definition envs_ok :: "'h lisp_world \<Rightarrow> bool" where
  "envs_ok w \<longleftrightarrow> (\<forall>e < lw_next_env w. \<forall>p. ef_parent (lw_envs w e) = Some p \<longrightarrow> p < e)"

definition make_closure :: "string list \<Rightarrow> lisp_value list \<Rightarrow> nat \<Rightarrow> (lisp_value, 'h) evaluation" where
  "make_closure params body captured w =
     (Inr (VOther T_closure (lw_next_closure w)),
      w\<lparr>lw_closures := (lw_closures w)(lw_next_closure w :=
          \<lparr>cl_params = params, cl_body = body, cl_env = captured, cl_compiled = try_compile_closure params body\<rparr>),
        lw_next_closure := Suc (lw_next_closure w)\<rparr>)"

definition closure_of :: "lisp_value \<Rightarrow> 'h lisp_world \<Rightarrow> closure_data option" where
  "closure_of v w = (case v of VOther T_closure i \<Rightarrow> Some (lw_closures w i) | _ \<Rightarrow> None)"

subsection \<open>Host and evaluator\<close>

datatype eval_position = Non_tail | Tail

datatype eval_outcome = Eval_result lisp_value | Tail_to lisp_value nat

type_synonym 'h invocation = "lisp_value \<Rightarrow> lisp_value list \<Rightarrow> (lisp_value, 'h) evaluation"

record 'h lisp_host =
  lh_primitive :: "nat \<Rightarrow> 'h invocation \<Rightarrow> lisp_value list \<Rightarrow> (lisp_value, 'h) evaluation"
  lh_read_file :: "string \<Rightarrow> 'h \<Rightarrow> string option"
  lh_store_definition :: "bt_definition \<Rightarrow> 'h \<Rightarrow> nat \<times> 'h"

record 'h evaluator =
  ev_eval :: "lisp_value \<Rightarrow> nat \<Rightarrow> eval_position \<Rightarrow> (lisp_value, 'h) evaluation"
  ev_invoke :: "'h invocation"
  ev_execute :: "'h invocation"

definition expect_exact :: "string \<Rightarrow> lisp_value list \<Rightarrow> nat \<Rightarrow> lisp_exn + unit" where
  "expect_exact name args expected =
     (if length args \<noteq> expected
      then Inl (Lisp_error (name @ '': expected '' @ nat_str expected @ '' arguments, got '' @ nat_str (length args)))
      else Inr ())"

definition expect_min :: "string \<Rightarrow> lisp_value list \<Rightarrow> nat \<Rightarrow> lisp_exn + unit" where
  "expect_min name args minimum =
     (if length args < minimum
      then Inl (Lisp_error (name @ '': expected at least '' @ nat_str minimum @ '' arguments, got '' @ nat_str (length args)))
      else Inr ())"

definition list_items :: "lisp_value \<Rightarrow> lisp_exn + lisp_value list" where
  "list_items v = (case vector_from_list v of Inl m \<Rightarrow> Inl (Lisp_error m) | Inr xs \<Rightarrow> Inr xs)"

text \<open>A check or a conversion inside an evaluation.\<close>

definition lift :: "lisp_exn + 'a \<Rightarrow> ('a, 'h) evaluation" where
  "lift r w = (r, w)"

fun param_names :: "lisp_value list \<Rightarrow> lisp_exn + string list" where
  "param_names [] = Inr []"
| "param_names (VSym name # vs) = rbind (param_names vs) (\<lambda>names. Inr (name # names))"
| "param_names (_ # vs) = Inl (Lisp_error ''lambda: parameters must be symbols'')"

definition parse_params :: "lisp_value \<Rightarrow> lisp_exn + string list" where
  "parse_params params_expr =
     (case vector_from_list params_expr of
        Inl _ \<Rightarrow> Inl (Lisp_error ''lambda: parameter list must be a proper list'')
      | Inr entries \<Rightarrow> param_names entries)"

subsection \<open>Sequences and arguments\<close>

definition eval_non_tail :: "'h evaluator \<Rightarrow> lisp_value \<Rightarrow> nat \<Rightarrow> (lisp_value, 'h) evaluation" where
  "eval_non_tail ev expr scope = ev_eval ev expr scope Non_tail"

definition result_of :: "(lisp_value, 'h lisp_world) lisp_result \<Rightarrow> (eval_outcome, 'h lisp_world) lisp_result" where
  "result_of r = ebind r (\<lambda>v. ok_value (Eval_result v))"

definition eval_or_bounce :: "'h evaluator \<Rightarrow> lisp_value \<Rightarrow> nat \<Rightarrow> eval_position \<Rightarrow> (eval_outcome, 'h) evaluation" where
  "eval_or_bounce ev expr scope position w =
     (if position = Tail then (Inr (Tail_to expr scope), w) else result_of (eval_non_tail ev expr scope w))"

fun sequence_from :: "'h evaluator \<Rightarrow> lisp_value \<Rightarrow> lisp_value list \<Rightarrow> nat \<Rightarrow> eval_position \<Rightarrow> (eval_outcome, 'h) evaluation" where
  "sequence_from ev acc [] scope position w = (Inr (Eval_result acc), w)"
| "sequence_from ev acc (e # es) scope position w =
     (if es = [] \<and> position = Tail then (Inr (Tail_to e scope), w)
      else ebind (eval_non_tail ev e scope w) (\<lambda>v. sequence_from ev v es scope position))"

definition eval_sequence_step :: "'h evaluator \<Rightarrow> lisp_value list \<Rightarrow> nat \<Rightarrow> eval_position \<Rightarrow> (eval_outcome, 'h) evaluation" where
  "eval_sequence_step ev exprs scope position = sequence_from ev VNil exprs scope position"

text \<open>What both callers of a step do with a tail call that comes back.\<close>

definition resume :: "'h evaluator \<Rightarrow> (eval_outcome, 'h lisp_world) lisp_result \<Rightarrow> (lisp_value, 'h lisp_world) lisp_result" where
  "resume ev r =
     ebind r (\<lambda>outcome w. case outcome of Eval_result v \<Rightarrow> (Inr v, w) | Tail_to e scope \<Rightarrow> ev_eval ev e scope Tail w)"

definition eval_sequence_in_position :: "'h evaluator \<Rightarrow> lisp_value list \<Rightarrow> nat \<Rightarrow> eval_position \<Rightarrow> (lisp_value, 'h) evaluation" where
  "eval_sequence_in_position ev exprs scope position w = resume ev (eval_sequence_step ev exprs scope position w)"

fun eval_args :: "'h evaluator \<Rightarrow> lisp_value list \<Rightarrow> nat \<Rightarrow> (lisp_value list, 'h) evaluation" where
  "eval_args ev [] scope w = (Inr [], w)"
| "eval_args ev (e # es) scope w =
     ebind (eval_non_tail ev e scope w) (\<lambda>v w. ebind (eval_args ev es scope w) (\<lambda>vs w. (Inr (v # vs), w)))"

subsection \<open>Quasiquotation\<close>

text \<open>The first argument bounds the depth of the data; the size of the data is enough.\<close>

definition one_argument :: "string \<Rightarrow> lisp_value list \<Rightarrow> lisp_exn + lisp_value" where
  "one_argument name items =
     (if length items \<noteq> 2 then Inl (Lisp_error (name @ '': expected 1 argument'')) else Inr (items ! 1))"

definition splice_form :: "lisp_value \<Rightarrow> lisp_value list option" where
  "splice_form item =
     (case item of
        VCons _ _ \<Rightarrow>
          (case vector_from_list item of
             Inr form \<Rightarrow> if form \<noteq> [] \<and> is_symbol_named (form ! 0) ''unquote-splicing'' then Some form else None
           | Inl _ \<Rightarrow> None)
      | _ \<Rightarrow> None)"

fun quasi_items ::
  "'h evaluator \<Rightarrow> (lisp_value \<Rightarrow> nat \<Rightarrow> (lisp_value, 'h) evaluation) \<Rightarrow> lisp_value list \<Rightarrow> nat \<Rightarrow> nat \<Rightarrow>
    (lisp_value list, 'h) evaluation" where
  "quasi_items ev quasi [] scope depth w = (Inr [], w)"
| "quasi_items ev quasi (item # items) scope depth w =
     ebind
       (case splice_form item of
          Some form \<Rightarrow>
            ebind (lift (one_argument ''unquote-splicing'' form) w)
              (\<lambda>x w.
                if depth = 1 then
                  ebind (eval_non_tail ev x scope w)
                    (\<lambda>spliced. lift (case vector_from_list spliced of
                        Inl _ \<Rightarrow> Inl (Lisp_error ''unquote-splicing: expected list value'') | Inr xs \<Rightarrow> Inr xs))
                else ebind (quasi x (depth - 1) w)
                  (\<lambda>nested. ok_value [list_from_vector [VSym ''unquote-splicing'', nested]]))
        | None \<Rightarrow> ebind (quasi item depth w) (\<lambda>v. ok_value [v]))
       (\<lambda>front w. ebind (quasi_items ev quasi items scope depth w) (\<lambda>rest. ok_value (front @ rest)))"

fun eval_quasiquote :: "'h evaluator \<Rightarrow> nat \<Rightarrow> nat \<Rightarrow> lisp_value \<Rightarrow> nat \<Rightarrow> (lisp_value, 'h) evaluation" where
  "eval_quasiquote ev 0 scope expr depth w = (Inl No_fuel, w)"
| "eval_quasiquote ev (Suc n) scope expr depth w =
     (case expr of
        VCons _ _ \<Rightarrow>
          (case vector_from_list expr of
             Inl _ \<Rightarrow> (Inl (Lisp_error ''quasiquote: expected proper list''), w)
           | Inr items \<Rightarrow>
               if items = [] then (Inr expr, w)
               else if is_symbol_named (items ! 0) ''unquote'' then
                 ebind (lift (one_argument ''unquote'' items) w)
                   (\<lambda>x w.
                     if depth = 1 then eval_non_tail ev x scope w
                     else ebind (eval_quasiquote ev n scope x (depth - 1) w)
                       (\<lambda>nested. ok_value (list_from_vector [VSym ''unquote'', nested])))
               else if is_symbol_named (items ! 0) ''unquote-splicing'' then
                 ebind (lift (one_argument ''unquote-splicing'' items) w)
                   (\<lambda>x w.
                     if depth = 1 then (Inl (Lisp_error ''unquote-splicing: only valid in list context''), w)
                     else ebind (eval_quasiquote ev n scope x (depth - 1) w)
                       (\<lambda>nested. ok_value (list_from_vector [VSym ''unquote-splicing'', nested])))
               else if is_symbol_named (items ! 0) ''quasiquote'' then
                 ebind (lift (one_argument ''quasiquote'' items) w)
                   (\<lambda>x w. ebind (eval_quasiquote ev n scope x (depth + 1) w)
                       (\<lambda>nested. ok_value (list_from_vector [VSym ''quasiquote'', nested])))
               else ebind (quasi_items ev (eval_quasiquote ev n scope) items scope depth w)
                 (\<lambda>out. ok_value (list_from_vector out)))
      | _ \<Rightarrow> (Inr expr, w))"

subsection \<open>Special forms\<close>

definition eval_define_form :: "'h evaluator \<Rightarrow> lisp_value list \<Rightarrow> nat \<Rightarrow> (lisp_value, 'h) evaluation" where
  "eval_define_form ev args scope w =
     ebind (lift (expect_min ''define'' args 2) w)
       (\<lambda>_ w. case args ! 0 of
          VSym name \<Rightarrow>
            ebind (lift (expect_exact ''define'' args 2) w)
              (\<lambda>_ w. ebind (eval_non_tail ev (args ! 1) scope w) (\<lambda>v w. (Inr v, define_name scope name v w)))
        | VCons _ _ \<Rightarrow>
            ebind (lift (list_items (args ! 0)) w)
              (\<lambda>signature w. case signature of
                 [] \<Rightarrow> (Inl (Lisp_error ''define: invalid function signature''), w)
               | VSym function_name # param_values \<Rightarrow>
                   ebind (lift (parse_params (list_from_vector param_values)) w)
                     (\<lambda>params w. ebind (make_closure params (drop 1 args) scope w)
                       (\<lambda>fn w. (Inr fn, define_name scope function_name fn w)))
               | _ \<Rightarrow> (Inl (Lisp_error ''define: function name must be a symbol''), w))
        | _ \<Rightarrow> (Inl (Type_error ''define: first argument must be symbol or function signature''), w))"

definition eval_lambda_form :: "lisp_value list \<Rightarrow> nat \<Rightarrow> (lisp_value, 'h) evaluation" where
  "eval_lambda_form args scope w =
     ebind (lift (expect_min ''lambda'' args 2) w)
       (\<lambda>_ w. ebind (lift (parse_params (args ! 0)) w) (\<lambda>params. make_closure params (drop 1 args) scope))"

definition eval_if_form :: "'h evaluator \<Rightarrow> lisp_value list \<Rightarrow> nat \<Rightarrow> eval_position \<Rightarrow> (eval_outcome, 'h) evaluation" where
  "eval_if_form ev args scope position w =
     (if length args \<noteq> 2 \<and> length args \<noteq> 3 then (Inl (Lisp_error ''if: expected 2 or 3 arguments''), w)
      else ebind (eval_non_tail ev (args ! 0) scope w)
        (\<lambda>test w.
          if is_truthy test then eval_or_bounce ev (args ! 1) scope position w
          else if length args = 3 then eval_or_bounce ev (args ! 2) scope position w
          else (Inr (Eval_result VNil), w)))"

text \<open>The loops of \<open>and\<close> and \<open>or\<close>: \<open>stop\<close> decides after each argument, \<open>exhausted\<close> is what is returned after the last.\<close>

fun eval_chain ::
  "'h evaluator \<Rightarrow> (lisp_value \<Rightarrow> bool) \<Rightarrow> (lisp_value \<Rightarrow> lisp_value) \<Rightarrow> lisp_value list \<Rightarrow> lisp_value \<Rightarrow> nat \<Rightarrow> eval_position \<Rightarrow>
    (eval_outcome, 'h) evaluation" where
  "eval_chain ev stop exhausted [] acc scope position w = (Inr (Eval_result (exhausted acc)), w)"
| "eval_chain ev stop exhausted (e # es) acc scope position w =
     (if es = [] \<and> position = Tail then (Inr (Tail_to e scope), w)
      else ebind (eval_non_tail ev e scope w)
        (\<lambda>v w. if stop v then (Inr (Eval_result v), w) else eval_chain ev stop exhausted es v scope position w))"

definition eval_and_form :: "'h evaluator \<Rightarrow> lisp_value list \<Rightarrow> nat \<Rightarrow> eval_position \<Rightarrow> (eval_outcome, 'h) evaluation" where
  "eval_and_form ev args = eval_chain ev (\<lambda>v. \<not> is_truthy v) (\<lambda>v. v) args (VBool True)"

definition eval_or_form :: "'h evaluator \<Rightarrow> lisp_value list \<Rightarrow> nat \<Rightarrow> eval_position \<Rightarrow> (eval_outcome, 'h) evaluation" where
  "eval_or_form ev args = eval_chain ev is_truthy (\<lambda>_. VNil) args VNil"

definition parse_binding :: "lisp_value \<Rightarrow> lisp_exn + string \<times> lisp_value" where
  "parse_binding binding =
     (case vector_from_list binding of
        Inl _ \<Rightarrow> Inl (Lisp_error ''let: each binding must be a (name expr) pair'')
      | Inr items \<Rightarrow>
          if length items \<noteq> 2 then Inl (Lisp_error ''let: each binding must contain exactly name and expression'')
          else (case items ! 0 of
                  VSym name \<Rightarrow> Inr (name, items ! 1)
                | _ \<Rightarrow> Inl (Lisp_error ''let: binding name must be a symbol'')))"

fun eval_bindings :: "'h evaluator \<Rightarrow> lisp_value list \<Rightarrow> nat \<Rightarrow> nat \<Rightarrow> (unit, 'h) evaluation" where
  "eval_bindings ev [] scope child w = (Inr (), w)"
| "eval_bindings ev (b # bs) scope child w =
     ebind (lift (parse_binding b) w)
       (\<lambda>(name, expr) w. ebind (eval_non_tail ev expr scope w)
         (\<lambda>v w. eval_bindings ev bs scope child (define_name child name v w)))"

definition eval_let_form :: "'h evaluator \<Rightarrow> lisp_value list \<Rightarrow> nat \<Rightarrow> eval_position \<Rightarrow> (eval_outcome, 'h) evaluation" where
  "eval_let_form ev args scope position w =
     ebind (lift (expect_min ''let'' args 2) w)
       (\<lambda>_ w. case vector_from_list (args ! 0) of
          Inl _ \<Rightarrow> (Inl (Lisp_error ''let: expected binding list''), w)
        | Inr bindings \<Rightarrow>
            ebind (make_env (Some scope) w)
              (\<lambda>child w. ebind (eval_bindings ev bindings scope child w)
                (\<lambda>_. eval_sequence_step ev (drop 1 args) child position)))"

fun eval_cond_form :: "'h evaluator \<Rightarrow> lisp_value list \<Rightarrow> nat \<Rightarrow> eval_position \<Rightarrow> (eval_outcome, 'h) evaluation" where
  "eval_cond_form ev [] scope position w = (Inr (Eval_result VNil), w)"
| "eval_cond_form ev (c # cs) scope position w =
     (case vector_from_list c of
        Inl _ \<Rightarrow> (Inl (Lisp_error ''cond: each clause must be a proper list''), w)
      | Inr [] \<Rightarrow> (Inl (Lisp_error ''cond: clause cannot be empty''), w)
      | Inr (test # body) \<Rightarrow>
          if is_symbol_named test ''else'' then
            (if cs \<noteq> [] then (Inl (Lisp_error ''cond: else clause must be last''), w)
             else if body = [] then (Inr (Eval_result VNil), w)
             else eval_sequence_step ev body scope position w)
          else ebind (eval_non_tail ev test scope w)
            (\<lambda>v w.
              if \<not> is_truthy v then eval_cond_form ev cs scope position w
              else if body = [] then (Inr (Eval_result v), w)
              else eval_sequence_step ev body scope position w))"

text \<open>
  Only \<open>bt_compile_error\<close> is caught and prefixed; the \<open>lisp_error\<close> of \<open>vector_from_list\<close> on an improper form passes through.
\<close>

definition compile_failure :: "string \<Rightarrow> string \<Rightarrow> lisp_exn" where
  "compile_failure place m = Lisp_error (if m = ''expected proper list'' then m else place @ m)"

definition eval_bt_form :: "'h lisp_host \<Rightarrow> lisp_value list \<Rightarrow> (lisp_value, 'h) evaluation" where
  "eval_bt_form H args w =
     ebind (lift (expect_exact ''bt'' args 1) w)
       (\<lambda>_ w. case compile_definition (args ! 0) of
          Inl m \<Rightarrow> (Inl (compile_failure ''bt: '' m), w)
        | Inr d \<Rightarrow> (case lh_store_definition H d (lw_host w) of
            (handle, h) \<Rightarrow> (Inr (VOther T_bt_def handle), w\<lparr>lw_host := h\<rparr>)))"

definition eval_defbt_form :: "'h lisp_host \<Rightarrow> lisp_value list \<Rightarrow> nat \<Rightarrow> (lisp_value, 'h) evaluation" where
  "eval_defbt_form H args scope w =
     ebind (lift (expect_exact ''defbt'' args 2) w)
       (\<lambda>_ w. case args ! 0 of
          VSym name \<Rightarrow> ebind (eval_bt_form H [args ! 1] w) (\<lambda>d w. (Inr d, define_name scope name d w))
        | _ \<Rightarrow> (Inl (Lisp_error ''defbt: first argument must be a symbol''), w))"

definition eval_begin_form :: "'h evaluator \<Rightarrow> lisp_value list \<Rightarrow> nat \<Rightarrow> eval_position \<Rightarrow> (eval_outcome, 'h) evaluation" where
  "eval_begin_form = eval_sequence_step"

subsection \<open>Loading\<close>

text \<open>The paths of \<open>std::filesystem\<close> on a POSIX system.\<close>

definition path_is_absolute :: "string \<Rightarrow> bool" where
  "path_is_absolute p = (take 1 p = ''/'')"

definition path_append :: "string \<Rightarrow> string \<Rightarrow> string" where
  "path_append base p =
     (if path_is_absolute p then p
      else if base = [] \<or> last base = CHR ''/'' then base @ p
      else base @ ''/'' @ p)"

definition path_parent :: "string \<Rightarrow> string" where
  "path_parent p =
     (let root = takeWhile ((=) (CHR ''/'')) p; rel = dropWhile ((=) (CHR ''/'')) p
      in root @ rev (dropWhile ((=) (CHR ''/'')) (dropWhile ((\<noteq>) (CHR ''/'')) (rev rel))))"

definition resolve_load_path :: "string \<Rightarrow> 'h lisp_world \<Rightarrow> string" where
  "resolve_load_path raw w =
     (if path_is_absolute raw \<or> lw_load_base_dirs w = [] then raw
      else path_append (last (lw_load_base_dirs w)) raw)"

text \<open>\<open>what()\<close> of an exception derived from \<open>lisp_error\<close>.\<close>

fun lisp_what :: "lisp_exn \<Rightarrow> string option" where
  "lisp_what (Lisp_error m) = Some m"
| "lisp_what (Syntax_error m _) = Some m"
| "lisp_what (Eval_error m) = Some m"
| "lisp_what (Type_error m) = Some m"
| "lisp_what (Name_error m) = Some m"
| "lisp_what (Foreign e) = None"
| "lisp_what No_fuel = None"

definition load_failure :: "string \<Rightarrow> lisp_exn \<Rightarrow> lisp_exn" where
  "load_failure path e = (case lisp_what e of Some m \<Rightarrow> Lisp_error (''load: '' @ path @ '': '' @ m) | None \<Rightarrow> e)"

fun load_exprs :: "'h evaluator \<Rightarrow> string \<Rightarrow> lisp_value \<Rightarrow> lisp_value list \<Rightarrow> nat \<Rightarrow> (lisp_value, 'h) evaluation" where
  "load_exprs ev path acc [] scope w = (Inr acc, w)"
| "load_exprs ev path acc (e # es) scope w =
     (case eval_non_tail ev e scope w of
        (Inl x, w) \<Rightarrow> (Inl (load_failure path x), w)
      | (Inr v, w) \<Rightarrow> load_exprs ev path v es scope w)"

definition parse_source :: "string \<Rightarrow> lisp_exn + lisp_value list" where
  "parse_source source =
     (case read_all source of
        Inl (Parse_error m incomplete) \<Rightarrow> Inl (Syntax_error m incomplete)
      | Inl Out_of_fuel \<Rightarrow> Inl No_fuel
      | Inr exprs \<Rightarrow> Inr exprs)"

text \<open>\<open>scoped_load_base_dir\<close>: the directory is pushed for the rest of the form and popped on every way out.\<close>

definition with_load_base_dir :: "string \<Rightarrow> (lisp_value, 'h) evaluation \<Rightarrow> (lisp_value, 'h) evaluation" where
  "with_load_base_dir path body w =
     (case body (w\<lparr>lw_load_base_dirs := lw_load_base_dirs w @ [path_parent path]\<rparr>) of
        (r, w) \<Rightarrow> (r, w\<lparr>lw_load_base_dirs := butlast (lw_load_base_dirs w)\<rparr>))"

definition eval_load_form :: "'h lisp_host \<Rightarrow> 'h evaluator \<Rightarrow> lisp_value list \<Rightarrow> nat \<Rightarrow> (lisp_value, 'h) evaluation" where
  "eval_load_form H ev args scope w =
     ebind (lift (expect_exact ''load'' args 1) w)
       (\<lambda>_ w. ebind (eval_non_tail ev (args ! 0) scope w)
         (\<lambda>path_value w. case path_value of
            VStr raw \<Rightarrow>
              (let path = resolve_load_path raw w
               in case lh_read_file H path (lw_host w) of
                    None \<Rightarrow> (Inl (load_failure path (Lisp_error (''failed to open file: '' @ path))), w)
                  | Some source \<Rightarrow>
                      with_load_base_dir path
                        (case parse_source source of
                           Inl e \<Rightarrow> fail (load_failure path e)
                         | Inr exprs \<Rightarrow> load_exprs ev path VNil exprs scope) w)
          | _ \<Rightarrow> (Inl (Lisp_error ''load: expected file path string''), w)))"

subsection \<open>Dispatch\<close>

datatype special_form_kind =
    SF_none | SF_quote | SF_if | SF_let | SF_and | SF_or | SF_cond | SF_define | SF_bt | SF_defbt | SF_quasiquote
  | SF_unquote | SF_unquote_splicing | SF_lambda | SF_begin | SF_load

definition classify_special_form :: "lisp_value \<Rightarrow> special_form_kind" where
  "classify_special_form head =
     (case head of
        VSym name \<Rightarrow>
          if name = ''quote'' then SF_quote
          else if name = ''if'' then SF_if
          else if name = ''let'' then SF_let
          else if name = ''and'' then SF_and
          else if name = ''or'' then SF_or
          else if name = ''cond'' then SF_cond
          else if name = ''define'' then SF_define
          else if name = ''bt'' then SF_bt
          else if name = ''defbt'' then SF_defbt
          else if name = ''quasiquote'' then SF_quasiquote
          else if name = ''unquote'' then SF_unquote
          else if name = ''unquote-splicing'' then SF_unquote_splicing
          else if name = ''lambda'' then SF_lambda
          else if name = ''begin'' then SF_begin
          else if name = ''load'' then SF_load
          else SF_none
      | _ \<Rightarrow> SF_none)"

fun dispatch_special_form ::
  "'h lisp_host \<Rightarrow> 'h evaluator \<Rightarrow> special_form_kind \<Rightarrow> lisp_value list \<Rightarrow> nat \<Rightarrow> eval_position \<Rightarrow> (eval_outcome, 'h) evaluation" where
  "dispatch_special_form H ev SF_quote args scope position w =
     ebind (lift (expect_exact ''quote'' args 1) w) (\<lambda>_. ok_value (Eval_result (args ! 0)))"
| "dispatch_special_form H ev SF_if args scope position w = eval_if_form ev args scope position w"
| "dispatch_special_form H ev SF_let args scope position w = eval_let_form ev args scope position w"
| "dispatch_special_form H ev SF_and args scope position w = eval_and_form ev args scope position w"
| "dispatch_special_form H ev SF_or args scope position w = eval_or_form ev args scope position w"
| "dispatch_special_form H ev SF_cond args scope position w = eval_cond_form ev args scope position w"
| "dispatch_special_form H ev SF_define args scope position w = result_of (eval_define_form ev args scope w)"
| "dispatch_special_form H ev SF_bt args scope position w = result_of (eval_bt_form H args w)"
| "dispatch_special_form H ev SF_defbt args scope position w = result_of (eval_defbt_form H args scope w)"
| "dispatch_special_form H ev SF_quasiquote args scope position w =
     ebind (lift (expect_exact ''quasiquote'' args 1) w)
       (\<lambda>_ w. result_of (eval_quasiquote ev (Suc (size (args ! 0))) scope (args ! 0) 1 w))"
| "dispatch_special_form H ev SF_unquote args scope position w =
     (Inl (Lisp_error ''unquote: only valid inside quasiquote''), w)"
| "dispatch_special_form H ev SF_unquote_splicing args scope position w =
     (Inl (Lisp_error ''unquote-splicing: only valid inside quasiquote list context''), w)"
| "dispatch_special_form H ev SF_lambda args scope position w = result_of (eval_lambda_form args scope w)"
| "dispatch_special_form H ev SF_begin args scope position w = eval_begin_form ev args scope position w"
| "dispatch_special_form H ev SF_load args scope position w = result_of (eval_load_form H ev args scope w)"
| "dispatch_special_form H ev SF_none args scope position w = (Inl (Eval_error ''eval: unknown special form''), w)"

subsection \<open>Calls\<close>

definition arity_error :: "nat \<Rightarrow> nat \<Rightarrow> lisp_exn" where
  "arity_error expected got =
     Lisp_error (''closure call: expected '' @ nat_str expected @ '' arguments, got '' @ nat_str got)"

definition bind_params :: "nat \<Rightarrow> string list \<Rightarrow> lisp_value list \<Rightarrow> 'h lisp_world \<Rightarrow> 'h lisp_world" where
  "bind_params scope params args w = fold (\<lambda>(name, v). define_name scope name v) (zip params args) w"

definition apply_callable_in_position ::
  "'h lisp_host \<Rightarrow> 'h evaluator \<Rightarrow> lisp_value \<Rightarrow> lisp_value list \<Rightarrow> eval_position \<Rightarrow> (eval_outcome, 'h) evaluation" where
  "apply_callable_in_position H ev fn args call_position w =
     (case fn of
        VOther T_primitive_fn i \<Rightarrow> result_of (lh_primitive H i (ev_invoke ev) args w)
      | VOther T_closure i \<Rightarrow>
          (let c = lw_closures w i
           in if length (cl_params c) \<noteq> length args then (Inl (arity_error (length (cl_params c)) (length args)), w)
              else if cl_compiled c \<noteq> None then result_of (ev_execute ev fn args w)
              else ebind (make_env (Some (cl_env c)) w)
                (\<lambda>scope w.
                  let w = bind_params scope (cl_params c) args w
                  in if call_position = Tail then eval_sequence_step ev (cl_body c) scope Tail w
                     else result_of (eval_sequence_in_position ev (cl_body c) scope Tail w)))
      | _ \<Rightarrow> (Inl (Type_error ''attempt to call non-function value''), w))"

definition eval_list_form_in_position ::
  "'h lisp_host \<Rightarrow> 'h evaluator \<Rightarrow> lisp_value \<Rightarrow> lisp_value \<Rightarrow> nat \<Rightarrow> eval_position \<Rightarrow> (eval_outcome, 'h) evaluation" where
  "eval_list_form_in_position H ev head rest scope position w =
     ebind (lift (list_items rest) w)
       (\<lambda>raw_args w.
         if classify_special_form head \<noteq> SF_none
         then dispatch_special_form H ev (classify_special_form head) raw_args scope position w
         else ebind (eval_non_tail ev head scope w)
           (\<lambda>fn w. ebind (eval_args ev raw_args scope w)
             (\<lambda>args. apply_callable_in_position H ev fn args position)))"

definition eval_step_in_position ::
  "'h lisp_host \<Rightarrow> 'h evaluator \<Rightarrow> lisp_value \<Rightarrow> nat \<Rightarrow> eval_position \<Rightarrow> (eval_outcome, 'h) evaluation" where
  "eval_step_in_position H ev expr scope position w =
     (case expr of
        VSym name \<Rightarrow> result_of (lookup (lw_envs w) scope name, w)
      | VCons head rest \<Rightarrow> eval_list_form_in_position H ev head rest scope position w
      | _ \<Rightarrow> (Inr (Eval_result expr), w))"

definition invoke_callable :: "'h lisp_host \<Rightarrow> 'h evaluator \<Rightarrow> 'h invocation" where
  "invoke_callable H ev fn args w = resume ev (apply_callable_in_position H ev fn args Non_tail w)"

text \<open>
  One round of the outer loop of \<open>execute_compiled_closure\<close>: the frame of the function, then, after a tail call, the next
  round.
\<close>

definition closure_host :: "'h evaluator \<Rightarrow> nat \<Rightarrow> 'h lisp_world machine_host" where
  "closure_host ev scope =
     \<lparr>mh_invoke = ev_invoke ev,
      mh_lookup = (\<lambda>name w. lookup (lw_envs w) scope name),
      mh_compiled = (\<lambda>fn w. case closure_of fn w of Some c \<Rightarrow> cl_compiled c \<noteq> None | None \<Rightarrow> False)\<rparr>"

definition execute_compiled_closure :: "'h evaluator \<Rightarrow> 'h invocation" where
  "execute_compiled_closure ev fn args w =
     (case closure_of fn w of
        None \<Rightarrow> (Inl (Lisp_error ''closure_compiled: expected closure''), w)
      | Some c \<Rightarrow>
          (case cl_compiled c of
             None \<Rightarrow> (Inl (Eval_error ''execute_compiled_closure: missing compiled body''), w)
           | Some cc \<Rightarrow>
               if length (cl_params c) \<noteq> length args then (Inl (arity_error (length (cl_params c)) (length args)), w)
               else (case execute_frame (closure_host ev (cl_env c)) cc args w of
                       (Frame_return v, w) \<Rightarrow> (Inr v, w)
                     | (Frame_throw e, w) \<Rightarrow> (Inl e, w)
                     | (Frame_tail next_fn next_args, w) \<Rightarrow> ev_execute ev next_fn next_args w)))"

subsection \<open>The evaluator\<close>

definition no_evaluator :: "'h evaluator" where
  "no_evaluator = \<lparr>ev_eval = (\<lambda>_ _ _. fail No_fuel), ev_invoke = (\<lambda>_ _. fail No_fuel), ev_execute = (\<lambda>_ _. fail No_fuel)\<rparr>"

definition next_evaluator :: "'h lisp_host \<Rightarrow> 'h evaluator \<Rightarrow> 'h evaluator" where
  "next_evaluator H ev =
     \<lparr>ev_eval = (\<lambda>expr scope position w. resume ev (eval_step_in_position H ev expr scope position w)),
      ev_invoke = invoke_callable H ev,
      ev_execute = execute_compiled_closure ev\<rparr>"

primrec evaluator_of :: "'h lisp_host \<Rightarrow> nat \<Rightarrow> 'h evaluator" where
  "evaluator_of H 0 = no_evaluator"
| "evaluator_of H (Suc k) = next_evaluator H (evaluator_of H k)"

definition eval_in_position :: "'h lisp_host \<Rightarrow> nat \<Rightarrow> lisp_value \<Rightarrow> nat \<Rightarrow> eval_position \<Rightarrow> (lisp_value, 'h) evaluation" where
  "eval_in_position H k = ev_eval (evaluator_of H k)"

definition eval_expr :: "'h lisp_host \<Rightarrow> nat \<Rightarrow> lisp_value \<Rightarrow> nat \<Rightarrow> (lisp_value, 'h) evaluation" where
  "eval_expr H k expr scope = eval_non_tail (evaluator_of H k) expr scope"

definition eval_sequence :: "'h lisp_host \<Rightarrow> nat \<Rightarrow> lisp_value list \<Rightarrow> nat \<Rightarrow> (lisp_value, 'h) evaluation" where
  "eval_sequence H k exprs scope = eval_sequence_in_position (evaluator_of H k) exprs scope Non_tail"

fun eval_each :: "'h evaluator \<Rightarrow> lisp_value \<Rightarrow> lisp_value list \<Rightarrow> nat \<Rightarrow> (lisp_value, 'h) evaluation" where
  "eval_each ev acc [] scope w = (Inr acc, w)"
| "eval_each ev acc (e # es) scope w = ebind (eval_non_tail ev e scope w) (\<lambda>v. eval_each ev v es scope)"

definition eval_source :: "'h lisp_host \<Rightarrow> nat \<Rightarrow> string \<Rightarrow> nat \<Rightarrow> (lisp_value, 'h) evaluation" where
  "eval_source H k source scope w =
     ebind (lift (parse_source source) w) (\<lambda>exprs. eval_each (evaluator_of H k) VNil exprs scope)"

end
