(* ===== verification/Lisp_Fuel.thy ===== *)
theory Lisp_Fuel
  imports Lisp_Eval
begin

text \<open>
  The answer of the evaluator does not depend on its fuel: an evaluation that ends with some fuel ends in the same way with
  more. Every operation is shown to be monotone in the evaluator it takes its recursive calls from.
\<close>

named_theorems le_intros \<open>operations are monotone in their evaluator\<close>

subsection \<open>The order on answers\<close>

definition res_le :: "('a, 'w) lisp_result \<Rightarrow> ('a, 'w) lisp_result \<Rightarrow> bool" where
  "res_le r r' \<longleftrightarrow> fst r = Inl No_fuel \<or> r' = r"

definition ev_le :: "'h evaluator \<Rightarrow> 'h evaluator \<Rightarrow> bool" where
  "ev_le ev ev' \<longleftrightarrow>
     (\<forall>e s p w. res_le (ev_eval ev e s p w) (ev_eval ev' e s p w)) \<and>
     (\<forall>f a w. res_le (ev_invoke ev f a w) (ev_invoke ev' f a w)) \<and>
     (\<forall>f a w. res_le (ev_execute ev f a w) (ev_execute ev' f a w))"

text \<open>What is asked of primitive functions: they only see the results of the functions they call back.\<close>

definition primitives_monotone :: "'h lisp_host \<Rightarrow> bool" where
  "primitives_monotone H \<longleftrightarrow>
     (\<forall>i inv inv' args w. (\<forall>f a w. res_le (inv f a w) (inv' f a w)) \<longrightarrow>
        res_le (lh_primitive H i inv args w) (lh_primitive H i inv' args w))"

lemma res_le_refl [simp, le_intros]: "res_le r r"
  by (simp add: res_le_def)

lemma res_le_trans: "res_le a b \<Longrightarrow> res_le b c \<Longrightarrow> res_le a c"
  by (auto simp: res_le_def)

lemma res_leD: "res_le r r' \<Longrightarrow> fst r \<noteq> Inl No_fuel \<Longrightarrow> r' = r"
  by (simp add: res_le_def)

lemma res_le_ebind [le_intros]:
  "res_le m m' \<Longrightarrow> (\<And>x w. res_le (f x w) (f' x w)) \<Longrightarrow> res_le (ebind m f) (ebind m' f')"
  by (cases m; cases "fst m") (auto simp: res_le_def ebind_def)

lemma res_le_if [le_intros]:
  "(b \<Longrightarrow> res_le x x') \<Longrightarrow> (\<not> b \<Longrightarrow> res_le y y') \<Longrightarrow> res_le (if b then x else y) (if b then x' else y')"
  by simp

lemma ev_leD [le_intros]:
  assumes "ev_le ev ev'"
  shows "res_le (ev_eval ev e s p w) (ev_eval ev' e s p w)" "res_le (ev_invoke ev f a w) (ev_invoke ev' f a w)"
    "res_le (ev_execute ev f a w) (ev_execute ev' f a w)"
    "res_le (eval_non_tail ev e s w) (eval_non_tail ev' e s w)"
  using assms by (simp_all add: ev_le_def eval_non_tail_def)

subsection \<open>Every operation is monotone\<close>

lemma le_result_of [le_intros]: "res_le r r' \<Longrightarrow> res_le (result_of r) (result_of r')"
  unfolding result_of_def by (rule res_le_ebind) simp_all

lemma le_resume [le_intros]: "ev_le ev ev' \<Longrightarrow> res_le r r' \<Longrightarrow> res_le (resume ev r) (resume ev' r')"
  unfolding resume_def by (rule res_le_ebind) (auto split: eval_outcome.split intro: le_intros)

lemma le_eval_or_bounce [le_intros]: "ev_le ev ev' \<Longrightarrow> res_le (eval_or_bounce ev e s p w) (eval_or_bounce ev' e s p w)"
  unfolding eval_or_bounce_def by (intro le_intros)

lemma le_sequence_from: "ev_le ev ev' \<Longrightarrow> res_le (sequence_from ev acc es s p w) (sequence_from ev' acc es s p w)"
  by (induction ev acc es s p w rule: sequence_from.induct) (auto intro!: le_intros)

lemma le_sequence_step [le_intros]:
  "ev_le ev ev' \<Longrightarrow> res_le (eval_sequence_step ev es s p w) (eval_sequence_step ev' es s p w)"
  unfolding eval_sequence_step_def by (rule le_sequence_from)

lemma le_sequence [le_intros]:
  "ev_le ev ev' \<Longrightarrow> res_le (eval_sequence_in_position ev es s p w) (eval_sequence_in_position ev' es s p w)"
  unfolding eval_sequence_in_position_def by (intro le_intros)

lemma le_eval_args [le_intros]: "ev_le ev ev' \<Longrightarrow> res_le (eval_args ev es s w) (eval_args ev' es s w)"
  by (induction es arbitrary: w) (auto intro!: le_intros)

lemma le_quasi_items [le_intros]:
  assumes "ev_le ev ev'" "\<And>x d w. res_le (quasi x d w) (quasi' x d w)"
  shows "res_le (quasi_items ev quasi items s d w) (quasi_items ev' quasi' items s d w)"
  using assms(1) by (induction items arbitrary: w) (auto split: option.split intro!: le_intros assms(2))

declare quasi_items.simps [simp del]

lemma le_quasiquote [le_intros]:
  "ev_le ev ev' \<Longrightarrow> res_le (eval_quasiquote ev n s e d w) (eval_quasiquote ev' n s e d w)"
  by (induction n arbitrary: e d w) (auto split: lisp_value.split sum.split intro!: le_intros)

declare eval_quasiquote.simps [simp del]

lemma le_define [le_intros]: "ev_le ev ev' \<Longrightarrow> res_le (eval_define_form ev args s w) (eval_define_form ev' args s w)"
  unfolding eval_define_form_def by (intro le_intros) (auto split: lisp_value.split list.split intro!: le_intros)

lemma le_if [le_intros]: "ev_le ev ev' \<Longrightarrow> res_le (eval_if_form ev args s p w) (eval_if_form ev' args s p w)"
  unfolding eval_if_form_def by (intro le_intros)

lemma le_chain: "ev_le ev ev' \<Longrightarrow> res_le (eval_chain ev st x es acc s p w) (eval_chain ev' st x es acc s p w)"
  by (induction es arbitrary: acc w) (auto intro!: le_intros)

lemma le_and_or [le_intros]:
  "ev_le ev ev' \<Longrightarrow> res_le (eval_and_form ev args s p w) (eval_and_form ev' args s p w)"
  "ev_le ev ev' \<Longrightarrow> res_le (eval_or_form ev args s p w) (eval_or_form ev' args s p w)"
  unfolding eval_and_form_def eval_or_form_def by (simp_all add: le_chain)

lemma le_bindings [le_intros]:
  "ev_le ev ev' \<Longrightarrow> res_le (eval_bindings ev bs s c w) (eval_bindings ev' bs s c w)"
  by (induction bs arbitrary: w) (auto intro!: le_intros)

lemma le_let [le_intros]: "ev_le ev ev' \<Longrightarrow> res_le (eval_let_form ev args s p w) (eval_let_form ev' args s p w)"
  unfolding eval_let_form_def by (intro le_intros) (auto split: sum.split intro!: le_intros)

lemma le_cond [le_intros]: "ev_le ev ev' \<Longrightarrow> res_le (eval_cond_form ev cs s p w) (eval_cond_form ev' cs s p w)"
  by (induction cs arbitrary: w) (auto split: sum.split list.split intro!: le_intros)

lemma load_failure_fuel [simp]: "load_failure path e = No_fuel \<longleftrightarrow> e = No_fuel"
  by (cases e) (simp_all add: load_failure_def)

lemma le_load_exprs: "ev_le ev ev' \<Longrightarrow> res_le (load_exprs ev path acc es s w) (load_exprs ev' path acc es s w)"
proof (induction es arbitrary: acc w)
  case (Cons e es)
  then have "res_le (eval_non_tail ev e s w) (eval_non_tail ev' e s w)" by (intro le_intros)
  then show ?case using Cons by (auto simp: res_le_def split: prod.split sum.split) metis
qed simp

lemma le_load_dir: "(\<And>w. res_le (f w) (f' w)) \<Longrightarrow> res_le (with_load_base_dir path f w) (with_load_base_dir path f' w)"
  unfolding with_load_base_dir_def res_le_def by (auto split: prod.split) (metis fst_conv prod.inject)+

lemma le_load [le_intros]: "ev_le ev ev' \<Longrightarrow> res_le (eval_load_form H ev args s w) (eval_load_form H ev' args s w)"
  unfolding eval_load_form_def Let_def
  by (intro le_intros) (auto split: lisp_value.split option.split sum.split intro!: le_intros le_load_dir le_load_exprs)

lemma le_dispatch [le_intros]:
  "ev_le ev ev' \<Longrightarrow> res_le (dispatch_special_form H ev kind args s p w) (dispatch_special_form H ev' kind args s p w)"
  by (cases kind) (auto simp: eval_begin_form_def intro!: le_intros)

lemma le_apply [le_intros]:
  assumes "primitives_monotone H" "ev_le ev ev'"
  shows "res_le (apply_callable_in_position H ev fn args p w) (apply_callable_in_position H ev' fn args p w)"
proof -
  have "res_le (lh_primitive H i (ev_invoke ev) args w) (lh_primitive H i (ev_invoke ev') args w)" for i
    using assms by (simp add: primitives_monotone_def ev_le_def)
  with assms(2) show ?thesis unfolding apply_callable_in_position_def Let_def
    by (auto split: lisp_value.split value_type.split intro!: le_intros)
qed

lemma le_step [le_intros]:
  "primitives_monotone H \<Longrightarrow> ev_le ev ev' \<Longrightarrow>
    res_le (eval_step_in_position H ev e s p w) (eval_step_in_position H ev' e s p w)"
  unfolding eval_step_in_position_def eval_list_form_in_position_def
  by (auto split: lisp_value.split intro!: le_intros)

subsection \<open>Frames of compiled closures\<close>

definition end_le :: "frame_end \<times> 'w \<Rightarrow> frame_end \<times> 'w \<Rightarrow> bool" where
  "end_le r r' \<longleftrightarrow> fst r = Frame_throw No_fuel \<or> r' = r"

definition machine_le :: "'w machine_host \<Rightarrow> 'w machine_host \<Rightarrow> bool" where
  "machine_le h h' \<longleftrightarrow>
     mh_lookup h' = mh_lookup h \<and> mh_compiled h' = mh_compiled h \<and>
     (\<forall>f a w. res_le (mh_invoke h f a w) (mh_invoke h' f a w))"

lemma vm_step_le:
  assumes "machine_le h h'"
  shows "fst (vm_step h i m w) = Inl (Frame_throw No_fuel) \<or> vm_step h' i m w = vm_step h i m w"
proof -
  have inv: "fst (mh_invoke h f a w) = Inl No_fuel \<or> mh_invoke h' f a w = mh_invoke h f a w" for f a w
    using assms by (simp add: machine_le_def res_le_def)
  have same: "mh_lookup h' = mh_lookup h" "mh_compiled h' = mh_compiled h" using assms by (simp_all add: machine_le_def)
  have call: "fst (case mh_invoke h f a w of (Inl e, w) \<Rightarrow> (Inl (Frame_throw e), w) | (Inr v, w) \<Rightarrow> (g v, w)) =
        Inl (Frame_throw No_fuel) \<or>
      (case mh_invoke h' f a w of (Inl e, w) \<Rightarrow> (Inl (Frame_throw e), w) | (Inr v, w) \<Rightarrow> (g v, w)) =
      (case mh_invoke h f a w of (Inl e, w) \<Rightarrow> (Inl (Frame_throw e), w) | (Inr v, w) \<Rightarrow> (g v, w))"
    for f a and g :: "lisp_value \<Rightarrow> frame_end + machine"
    using inv [of f a w] by (cases "mh_invoke h f a w") auto
  have popped: ?thesis if "i = Call n \<or> i = Tail_call n" "pop_call n (vm_stack m) = Some p" for n p
  proof -
    obtain f a s where "p = (f, a, s)" by (cases p)
    then show ?thesis using that same call [of "\<lambda>v. Inr (push v (m\<lparr>vm_stack := s\<rparr>))" f a]
        call [of "\<lambda>v. Inl (Frame_return v)" f a] by auto
  qed
  show ?thesis
  proof (cases i)
    case (Call n)
    then show ?thesis using popped [of n] by (cases "pop_call n (vm_stack m)") simp_all
  next
    case (Tail_call n)
    then show ?thesis using popped [of n] by (cases "pop_call n (vm_stack m)") simp_all
  qed (simp_all add: same)
qed

lemma run_frame_le: "machine_le h h' \<Longrightarrow> end_le (run_frame n h code m w) (run_frame n h' code m w)"
proof (induction n arbitrary: m w)
  case (Suc n)
  show ?case
  proof (cases "fst (vm_step h (code ! vm_ip m) m w) = Inl (Frame_throw No_fuel)")
    case True
    then show ?thesis by (cases "vm_step h (code ! vm_ip m) m w") (auto simp: end_le_def)
  next
    case False
    then have "vm_step h' (code ! vm_ip m) m w = vm_step h (code ! vm_ip m) m w" using vm_step_le [OF Suc.prems] by blast
    then show ?thesis using Suc by (auto simp: end_le_def split: prod.split sum.split)
  qed
qed (simp add: end_le_def)

lemma le_execute [le_intros]:
  assumes "ev_le ev ev'"
  shows "res_le (execute_compiled_closure ev fn args w) (execute_compiled_closure ev' fn args w)"
proof -
  have "end_le (execute_frame (closure_host ev e) cc args w) (execute_frame (closure_host ev' e) cc args w)" for e cc
    unfolding execute_frame_def
    by (rule run_frame_le) (use assms in \<open>simp add: machine_le_def closure_host_def ev_le_def\<close>)
  moreover have "res_le
      (case r of (Frame_return v, w) \<Rightarrow> (Inr v, w) | (Frame_throw e, w) \<Rightarrow> (Inl e, w) | (Frame_tail f a, w) \<Rightarrow> ev_execute ev f a w)
      (case r' of (Frame_return v, w) \<Rightarrow> (Inr v, w) | (Frame_throw e, w) \<Rightarrow> (Inl e, w) | (Frame_tail f a, w) \<Rightarrow> ev_execute ev' f a w)"
    if "end_le r r'" for r r'
    using that assms by (cases r; cases "fst r") (auto simp: end_le_def ev_le_def res_le_def)
  ultimately show ?thesis unfolding execute_compiled_closure_def by (auto split: option.split intro!: le_intros)
qed

subsection \<open>More fuel\<close>

lemma le_next: "primitives_monotone H \<Longrightarrow> ev_le ev ev' \<Longrightarrow> ev_le (next_evaluator H ev) (next_evaluator H ev')"
  unfolding ev_le_def [of "next_evaluator H ev"]
  by (auto simp: next_evaluator_def invoke_callable_def intro!: le_intros)

lemma ev_le_refl: "ev_le ev ev"
  by (simp add: ev_le_def)

lemma ev_le_trans: "ev_le a b \<Longrightarrow> ev_le b c \<Longrightarrow> ev_le a c"
  unfolding ev_le_def by (meson res_le_trans)

lemma ev_le_Suc: "primitives_monotone H \<Longrightarrow> ev_le (evaluator_of H k) (evaluator_of H (Suc k))"
proof (induction k)
  case 0
  show ?case by (simp add: ev_le_def no_evaluator_def fail_def res_le_def)
next
  case (Suc k)
  then show ?case using le_next [of H "evaluator_of H k"] by simp
qed

lemma ev_le_fuel:
  assumes "primitives_monotone H" "k \<le> n"
  shows "ev_le (evaluator_of H k) (evaluator_of H n)"
  using assms(2)
proof (induction rule: dec_induct)
  case (step m)
  then show ?case using ev_le_trans ev_le_Suc [OF assms(1)] by blast
qed (rule ev_le_refl)

end
