(* ===== verification/Lisp_Scope.thy ===== *)
theory Lisp_Scope
  imports Lisp_Eval
begin

text \<open>
  What an evaluation may change: the bindings of its own scope, and new environments and closures. The other environments,
  all parents, the existing closures and the stack of load directories stay as they are, also when the evaluation fails.
\<close>

named_theorems sound_intros \<open>operations change only the scopes they may change\<close>

subsection \<open>Changes\<close>

definition world_ok :: "'h lisp_world \<Rightarrow> bool" where
  "world_ok w \<longleftrightarrow> envs_ok w \<and> (\<forall>c. cl_env (lw_closures w c) < lw_next_env w)"

definition live :: "nat set \<Rightarrow> 'h lisp_world \<Rightarrow> bool" where
  "live S w \<longleftrightarrow> world_ok w \<and> (\<forall>s \<in> S. s < lw_next_env w)"

definition extends :: "nat set \<Rightarrow> 'h lisp_world \<Rightarrow> 'h lisp_world \<Rightarrow> bool" where
  "extends S w w' \<longleftrightarrow>
     lw_next_env w \<le> lw_next_env w' \<and> lw_next_closure w \<le> lw_next_closure w' \<and>
     lw_load_base_dirs w' = lw_load_base_dirs w \<and>
     (\<forall>e < lw_next_env w. ef_parent (lw_envs w' e) = ef_parent (lw_envs w e)) \<and>
     (\<forall>e < lw_next_env w. e \<notin> S \<longrightarrow> lw_envs w' e = lw_envs w e) \<and>
     (\<forall>c < lw_next_closure w. lw_closures w' c = lw_closures w c)"

definition sound :: "nat set \<Rightarrow> 'h lisp_world \<Rightarrow> ('a, 'h lisp_world) lisp_result \<Rightarrow> bool" where
  "sound S w r \<longleftrightarrow> (live S w \<longrightarrow> live S (snd r) \<and> extends S w (snd r))"

text \<open>A tail call goes on in a scope that may be changed or is new.\<close>

fun bounce_ok :: "nat set \<Rightarrow> 'h lisp_world \<Rightarrow> (eval_outcome, 'h lisp_world) lisp_result \<Rightarrow> bool" where
  "bounce_ok S w (Inr (Tail_to e s), w') \<longleftrightarrow> s < lw_next_env w' \<and> (s \<in> S \<or> lw_next_env w \<le> s)"
| "bounce_ok S w _ \<longleftrightarrow> True"

definition sound_step :: "nat set \<Rightarrow> 'h lisp_world \<Rightarrow> (eval_outcome, 'h lisp_world) lisp_result \<Rightarrow> bool" where
  "sound_step S w r \<longleftrightarrow> sound S w r \<and> (live S w \<longrightarrow> bounce_ok S w r)"

lemma extends_refl: "extends S w w"
  by (simp add: extends_def)

lemma extends_trans: "extends S w w1 \<Longrightarrow> extends S w1 w2 \<Longrightarrow> extends S w w2"
  unfolding extends_def by (metis order_less_le_trans order_trans)

lemma live_mono: "live S w \<Longrightarrow> T \<subseteq> S \<Longrightarrow> live T w"
  by (auto simp: live_def)

lemma sound_here [simp, sound_intros]: "sound S w (r, w)"
  by (simp add: sound_def extends_refl)

lemma sound_lift [simp, sound_intros]: "sound S w (lift r w)" "sound S w (fail e w)" "sound S w (ok_value v w)"
  by (simp_all add: lift_def fail_def ok_value_def)

lemma sound_weaken:
  assumes "sound T w r" "T \<subseteq> S"
  shows "sound S w r"
  unfolding sound_def
proof
  assume l: "live S w"
  with assms have "live T (snd r)" "extends T w (snd r)" using live_mono by (auto simp: sound_def)
  then show "live S (snd r) \<and> extends S w (snd r)"
    using l assms(2) unfolding live_def extends_def by (auto dest: order_less_le_trans)
qed

lemma sound_ebind [sound_intros]:
  assumes "sound S w m" "\<And>x w1. sound S w1 (f x w1)"
  shows "sound S w (ebind m f)"
proof (cases m)
  case (Pair r w1)
  then show ?thesis using assms extends_trans by (cases r) (fastforce simp: sound_def ebind_def)+
qed

lemma sound_if [sound_intros]: "(b \<Longrightarrow> sound S w x) \<Longrightarrow> (\<not> b \<Longrightarrow> sound S w y) \<Longrightarrow> sound S w (if b then x else y)"
  by simp

lemma step_here [simp, sound_intros]: "sound_step S w (Inl e, w)" "sound_step S w (Inr (Eval_result v), w)"
  "sound_step S w (lift (Inl e) w)" "sound_step S w (ok_value (Eval_result v) w)"
  by (simp_all add: sound_step_def lift_def ok_value_def)

lemma step_bounce [sound_intros]: "s \<in> S \<Longrightarrow> sound_step S w (Inr (Tail_to e s), w)"
  by (auto simp: sound_step_def live_def)

lemma step_if [sound_intros]:
  "(b \<Longrightarrow> sound_step S w x) \<Longrightarrow> (\<not> b \<Longrightarrow> sound_step S w y) \<Longrightarrow> sound_step S w (if b then x else y)"
  by simp

lemma bounce_ok_earlier:
  assumes "bounce_ok S w1 r" "lw_next_env w \<le> lw_next_env w1"
  shows "bounce_ok S w r"
  using assms by (cases "(S, w1, r)" rule: bounce_ok.cases) auto

lemma step_ebind [sound_intros]:
  assumes "sound S w m" "\<And>x w1. sound_step S w1 (f x w1)"
  shows "sound_step S w (ebind m f)"
proof -
  have "sound S w (ebind m f)" using assms by (auto simp: sound_step_def intro: sound_ebind)
  moreover have "bounce_ok S w (ebind m f)" if l: "live S w"
  proof (cases m)
    case (Pair r w1)
    show ?thesis
    proof (cases r)
      case (Inr x)
      have "live S w1" "extends S w w1" using assms(1) l Pair by (simp_all add: sound_def)
      then show ?thesis using assms(2) [of w1 x] Pair Inr bounce_ok_earlier [of S w1]
        by (simp add: sound_step_def ebind_def extends_def)
    qed (simp add: Pair ebind_def)
  qed
  ultimately show ?thesis by (simp add: sound_step_def)
qed

lemma result_of_cases: "fst (result_of r) \<noteq> Inr (Tail_to e s)" "snd (result_of r) = snd r"
  by (cases r; cases "fst r"; simp add: result_of_def ebind_def ok_value_def)+

lemma step_result_of [sound_intros]: "sound S w r \<Longrightarrow> sound_step S w (result_of r)"
  by (cases r; cases "fst r"; simp add: sound_step_def sound_def result_of_def ebind_def ok_value_def)

subsection \<open>Environments\<close>

lemma define_sound: "s \<in> S \<Longrightarrow> sound S w (r, define_name s name v w)"
  by (auto simp: sound_def live_def world_ok_def envs_ok_def extends_def define_name_def bind_name_def)

lemma sound_before:
  assumes "sound S w (Inr x, w1)" "sound S w1 r"
  shows "sound S w r"
  using assms extends_trans by (fastforce simp: sound_def)

lemma sound_snd: "sound S w r \<Longrightarrow> snd r' = snd r \<Longrightarrow> sound S w r'"
  by (simp add: sound_def)

text \<open>Work in a new environment, whose changes do not count.\<close>

lemma make_env_step:
  assumes "\<And>w1. lw_next_env w1 = Suc (lw_next_env w) \<Longrightarrow> sound_step (insert (lw_next_env w) S) w1 (f (lw_next_env w) w1)"
    and "live S w \<Longrightarrow> \<forall>p. parent = Some p \<longrightarrow> p < lw_next_env w"
  shows "sound_step S w (ebind (make_env parent w) f)"
proof -
  let ?n = "lw_next_env w" and ?w1 = "snd (make_env parent w)"
  let ?r = "f ?n ?w1"
  have eq: "ebind (make_env parent w) f = ?r" by (simp add: make_env_def ebind_def)
  have n1: "lw_next_env ?w1 = Suc ?n" by (simp add: make_env_def)
  have "sound_step S w ?r" unfolding sound_step_def sound_def
  proof (intro conjI impI)
    assume l: "live S w"
    have l1: "live (insert ?n S) ?w1" using l assms(2) [OF l]
      by (fastforce simp: live_def world_ok_def envs_ok_def make_env_def less_Suc_eq)
    have e1: "extends S w ?w1" by (simp add: extends_def make_env_def)
    from assms(1) [OF n1] l1 have r: "live (insert ?n S) (snd ?r)" "extends (insert ?n S) ?w1 (snd ?r)"
      "bounce_ok (insert ?n S) ?w1 ?r" by (simp_all add: sound_step_def sound_def)
    show "live S (snd ?r)" by (rule live_mono [OF r(1)]) auto
    show "extends S w (snd ?r)" using r(2) n1 unfolding extends_def by (auto simp: make_env_def)
    show "bounce_ok S w ?r" using r(3) n1 by (cases "(S, w, ?r)" rule: bounce_ok.cases) auto
  qed
  then show ?thesis by (simp add: eq)
qed

lemma make_closure_sound: "s \<in> S \<Longrightarrow> sound S w (make_closure params body s w)"
  by (auto simp: sound_def live_def world_ok_def envs_ok_def extends_def make_closure_def)

lemma bind_params_sound: "s \<in> S \<Longrightarrow> sound S w (Inr (), bind_params s params args w)"
proof (induction params args arbitrary: w rule: list_induct2')
  case (4 p ps a as)
  then show ?case using sound_before [OF define_sound [OF 4(2), of w "Inr ()" p a] 4(1) [OF 4(2)]]
    by (simp add: bind_params_def)
qed (simp_all add: bind_params_def)

subsection \<open>Operations\<close>

definition sound_evaluator :: "'h evaluator \<Rightarrow> bool" where
  "sound_evaluator ev \<longleftrightarrow>
     (\<forall>e s p w. sound {s} w (ev_eval ev e s p w)) \<and>
     (\<forall>f a w. sound {} w (ev_invoke ev f a w)) \<and>
     (\<forall>f a w. sound {} w (ev_execute ev f a w))"

text \<open>What is asked of primitive functions: they leave environments and closures alone, except through the functions they call.\<close>

definition primitives_sound :: "'h lisp_host \<Rightarrow> bool" where
  "primitives_sound H \<longleftrightarrow>
     (\<forall>i inv args w. (\<forall>f a w. sound {} w (inv f a w)) \<longrightarrow> sound {} w (lh_primitive H i inv args w))"

lemma sound_evaluatorD [sound_intros]:
  assumes "sound_evaluator ev"
  shows "s \<in> S \<Longrightarrow> sound S w (ev_eval ev e s p w)" "sound S w (ev_invoke ev f a w)" "sound S w (ev_execute ev f a w)"
    "s \<in> S \<Longrightarrow> sound S w (eval_non_tail ev e s w)"
  using assms by (auto simp: sound_evaluator_def eval_non_tail_def
      intro: sound_weaken [where T = "{s}"] sound_weaken [where T = "{}"])

lemma sound_resume:
  assumes "sound_evaluator ev" "sound_step S w r"
  shows "sound S w (resume ev r)"
proof (cases "\<exists>e s. fst r = Inr (Tail_to e s)")
  case True
  then obtain e s w1 where r: "r = (Inr (Tail_to e s), w1)" by (cases r) auto
  show ?thesis unfolding sound_def
  proof
    assume l: "live S w"
    with assms(2) r have 1: "live S w1" "extends S w w1" "s < lw_next_env w1" "s \<in> S \<or> lw_next_env w \<le> s"
      by (auto simp: sound_step_def sound_def)
    let ?r = "ev_eval ev e s Tail w1"
    have "live {s} w1" using 1 by (simp add: live_def)
    then have 2: "live {s} (snd ?r)" "extends {s} w1 (snd ?r)" using assms(1) by (simp_all add: sound_evaluator_def sound_def)
    have "resume ev r = ?r" by (simp add: r resume_def ebind_def)
    moreover have "live S (snd ?r)" using 1(1) 2 unfolding live_def extends_def by (auto dest: order_less_le_trans)
    moreover have "extends S w (snd ?r)" using 1 2(2) unfolding extends_def by (auto dest: order_less_le_trans)
    ultimately show "live S (snd (resume ev r)) \<and> extends S w (snd (resume ev r))" by simp
  qed
next
  case False
  then have "snd (resume ev r) = snd r"
    by (cases r; cases "fst r") (auto simp: resume_def ebind_def split: eval_outcome.splits)
  then show ?thesis using assms(2) by (simp add: sound_step_def sound_def)
qed

lemma sound_or_bounce [sound_intros]: "sound_evaluator ev \<Longrightarrow> s \<in> S \<Longrightarrow> sound_step S w (eval_or_bounce ev e s p w)"
  unfolding eval_or_bounce_def by (auto intro!: sound_intros)

lemma sound_sequence_from: "sound_evaluator ev \<Longrightarrow> s \<in> S \<Longrightarrow> sound_step S w (sequence_from ev acc es s p w)"
  by (induction ev acc es s p w rule: sequence_from.induct) (auto intro!: sound_intros)

lemma sound_sequence [sound_intros]:
  assumes "sound_evaluator ev" "s \<in> S"
  shows "sound_step S w (eval_sequence_step ev es s p w)" "sound S w (eval_sequence_in_position ev es s p w)"
  using sound_sequence_from [OF assms, of w VNil es p] sound_resume [OF assms(1)]
  by (simp_all add: eval_sequence_step_def eval_sequence_in_position_def)

lemma sound_args [sound_intros]: "sound_evaluator ev \<Longrightarrow> s \<in> S \<Longrightarrow> sound S w (eval_args ev es s w)"
  by (induction es arbitrary: w) (auto intro!: sound_intros)

lemma sound_quasi_items [sound_intros]:
  assumes "sound_evaluator ev" "s \<in> S" "\<And>x d w. sound S w (quasi x d w)"
  shows "sound S w (quasi_items ev quasi items s d w)"
  using assms(1,2) by (induction items arbitrary: w) (auto split: option.split intro!: sound_intros assms(3))

lemma sound_quasiquote [sound_intros]:
  "sound_evaluator ev \<Longrightarrow> s \<in> S \<Longrightarrow> sound S w (eval_quasiquote ev n s e d w)"
proof (induction n arbitrary: e d w)
  case (Suc n)
  then show ?case
    by (auto simp del: quasi_items.simps split: lisp_value.split sum.split intro!: sound_intros)
qed simp

declare eval_quasiquote.simps [simp del]

lemma sound_define [sound_intros]: "sound_evaluator ev \<Longrightarrow> s \<in> S \<Longrightarrow> sound S w (eval_define_form ev args s w)"
  unfolding eval_define_form_def
  by (auto split: lisp_value.split list.split intro!: sound_intros define_sound make_closure_sound)

lemma sound_lambda [sound_intros]: "s \<in> S \<Longrightarrow> sound S w (eval_lambda_form args s w)"
  unfolding eval_lambda_form_def by (auto intro!: sound_intros make_closure_sound)

lemma sound_if_form [sound_intros]: "sound_evaluator ev \<Longrightarrow> s \<in> S \<Longrightarrow> sound_step S w (eval_if_form ev args s p w)"
  unfolding eval_if_form_def by (auto intro!: sound_intros)

lemma sound_chain: "sound_evaluator ev \<Longrightarrow> s \<in> S \<Longrightarrow> sound_step S w (eval_chain ev st x es acc s p w)"
  by (induction es arbitrary: acc w) (auto intro!: sound_intros)

lemma sound_bindings [sound_intros]:
  assumes "sound_evaluator ev" "s \<in> S" "c \<in> S"
  shows "sound S w (eval_bindings ev bs s c w)"
proof (induction bs arbitrary: w)
  case (Cons b bs)
  have "sound S w (eval_bindings ev bs s c (define_name c name v w))" for name v w
    by (rule sound_before [OF define_sound [OF assms(3), of w "Inr ()" name v] Cons])
  then show ?case using assms by (auto intro!: sound_intros)
qed simp

lemma sound_let [sound_intros]:
  assumes "sound_evaluator ev" "s \<in> S"
  shows "sound_step S w (eval_let_form ev args s p w)"
proof -
  have "sound_step S w (ebind (make_env (Some s) w)
      (\<lambda>child w. ebind (eval_bindings ev bs s child w) (\<lambda>_. eval_sequence_step ev body child p)))" for w bs body
    by (rule make_env_step) (use assms in \<open>auto simp: live_def intro!: sound_intros\<close>)
  then show ?thesis unfolding eval_let_form_def by (auto split: sum.split intro!: sound_intros)
qed

lemma sound_cond [sound_intros]: "sound_evaluator ev \<Longrightarrow> s \<in> S \<Longrightarrow> sound_step S w (eval_cond_form ev cs s p w)"
  by (induction cs arbitrary: w) (auto split: sum.split list.split intro!: sound_intros)

lemma sound_stored: "sound S w (r, w\<lparr>lw_host := h\<rparr>)"
  by (simp add: sound_def live_def world_ok_def envs_ok_def extends_def)

lemma sound_bt [sound_intros]: "sound S w (eval_bt_form H args w)"
  unfolding eval_bt_form_def by (auto split: sum.split prod.split intro!: sound_intros sound_stored)

lemma sound_defbt [sound_intros]: "s \<in> S \<Longrightarrow> sound S w (eval_defbt_form H args s w)"
  unfolding eval_defbt_form_def by (auto split: lisp_value.split intro!: sound_intros define_sound)

lemma sound_load_exprs: "sound_evaluator ev \<Longrightarrow> s \<in> S \<Longrightarrow> sound S w (load_exprs ev path acc es s w)"
proof (induction es arbitrary: acc w)
  case (Cons e es)
  obtain x w1 where e: "eval_non_tail ev e s w = (x, w1)" by force
  have s: "sound S w (y, w1)" for y :: "lisp_exn + lisp_value"
    using sound_evaluatorD(4) [OF Cons.prems, of w e] unfolding e by (rule sound_snd) simp
  show ?case
  proof (cases x)
    case (Inl y)
    then show ?thesis using e s by simp
  next
    case (Inr v)
    then show ?thesis using e sound_before [OF s Cons.IH [OF Cons.prems]] by simp
  qed
qed simp

lemma sound_load_dir:
  fixes w :: "'h lisp_world"
  assumes "\<And>w. sound S w (f w)"
  shows "sound S w (with_load_base_dir path f w)"
proof -
  let ?dirs = "lw_load_base_dirs w @ [path_parent path]"
  obtain r w1 where f: "f (w\<lparr>lw_load_base_dirs := ?dirs\<rparr>) = (r, w1)" by force
  then have w1: "with_load_base_dir path f w = (r, w1\<lparr>lw_load_base_dirs := butlast (lw_load_base_dirs w1)\<rparr>)"
    by (simp add: with_load_base_dir_def)
  have live: "live S (w\<lparr>lw_load_base_dirs := d\<rparr>) = live S w" for d and w :: "'h lisp_world"
    by (simp add: live_def world_ok_def envs_ok_def)
  have s: "live S w \<Longrightarrow> live S w1 \<and> extends S (w\<lparr>lw_load_base_dirs := ?dirs\<rparr>) w1"
    using assms [of "w\<lparr>lw_load_base_dirs := ?dirs\<rparr>"] f by (simp add: sound_def live)
  moreover have "extends S w (w1\<lparr>lw_load_base_dirs := butlast (lw_load_base_dirs w1)\<rparr>)"
    if "extends S (w\<lparr>lw_load_base_dirs := ?dirs\<rparr>) w1"
    using that unfolding extends_def by simp
  ultimately show ?thesis unfolding sound_def w1 by (simp add: live)
qed

lemma sound_load [sound_intros]: "sound_evaluator ev \<Longrightarrow> s \<in> S \<Longrightarrow> sound S w (eval_load_form H ev args s w)"
  unfolding eval_load_form_def Let_def
  by (auto split: lisp_value.split option.split sum.split intro!: sound_intros sound_load_dir sound_load_exprs)

lemma sound_dispatch [sound_intros]:
  "sound_evaluator ev \<Longrightarrow> s \<in> S \<Longrightarrow> sound_step S w (dispatch_special_form H ev kind args s p w)"
  by (cases kind) (auto simp: eval_begin_form_def eval_and_form_def eval_or_form_def intro!: sound_intros sound_chain)

lemma sound_apply:
  assumes "primitives_sound H" "sound_evaluator ev"
  shows "sound_step {} w (apply_callable_in_position H ev fn args p w)"
proof -
  have prim: "sound {} w (lh_primitive H i (ev_invoke ev) args w)" for i
    using assms by (simp add: primitives_sound_def sound_evaluator_def)
  have bound: "sound_step {s} w1 r" if "sound_step {s} (bind_params s ps args w1) r" for s ps w1 r
  proof -
    let ?w2 = "bind_params s ps args w1"
    have b: "sound {s} w1 (Inr (), ?w2)" by (rule bind_params_sound) simp
    have "sound {s} w1 r" by (rule sound_before [OF b]) (use that in \<open>simp add: sound_step_def\<close>)
    moreover have "bounce_ok {s} w1 r" if "live {s} w1"
      using that \<open>sound_step {s} ?w2 r\<close> b bounce_ok_earlier [of "{s}" ?w2 r w1]
      by (auto simp: sound_step_def sound_def extends_def)
    ultimately show ?thesis by (simp add: sound_step_def)
  qed
  have call: "sound_step {} w (ebind (make_env (Some (cl_env (lw_closures w i))) w)
      (\<lambda>scope w. if p = Tail then eval_sequence_step ev body scope Tail (bind_params scope ps args w)
           else result_of (eval_sequence_in_position ev body scope Tail (bind_params scope ps args w))))" for i ps body
  proof (rule make_env_step)
    fix w1
    show "sound_step {lw_next_env w} w1 (if p = Tail then eval_sequence_step ev body (lw_next_env w) Tail (bind_params (lw_next_env w) ps args w1)
        else result_of (eval_sequence_in_position ev body (lw_next_env w) Tail (bind_params (lw_next_env w) ps args w1)))"
      by (rule bound) (use assms(2) in \<open>auto intro!: sound_intros\<close>)
  qed (simp add: live_def world_ok_def)
  show ?thesis
  proof (cases "\<exists>i. fn = VOther T_closure i")
    case True
    then show ?thesis using call assms(2)
      by (auto simp: apply_callable_in_position_def Let_def intro!: step_result_of sound_evaluatorD)
  next
    case False
    then show ?thesis using step_result_of [OF prim]
      by (auto simp: apply_callable_in_position_def split: lisp_value.split value_type.split)
  qed
qed

lemma step_weaken: "sound_step {} w r \<Longrightarrow> sound_step S w r"
proof -
  assume s: "sound_step {} w r"
  then have "sound S w r" by (auto simp: sound_step_def intro: sound_weaken)
  moreover have "bounce_ok S w r" if "live S w"
    using s live_mono [OF that, of "{}"] by (cases "(S, w, r)" rule: bounce_ok.cases) (auto simp: sound_step_def)
  ultimately show ?thesis by (simp add: sound_step_def)
qed

lemma sound_step_in_position:
  assumes "primitives_sound H" "sound_evaluator ev" "s \<in> S"
  shows "sound_step S w (eval_step_in_position H ev e s p w)"
  unfolding eval_step_in_position_def eval_list_form_in_position_def
  using assms by (auto split: lisp_value.split intro!: sound_intros step_weaken [OF sound_apply])

subsection \<open>Frames of compiled closures\<close>

lemma vm_step_sound:
  assumes "\<And>f a w. sound {} w (mh_invoke h f a w)"
  shows "sound {} w (Inr (), snd (vm_step h i m w))"
proof -
  have "sound {} w (Inr (), snd (mh_invoke h f a w))" for f a using assms [of w f a] by (simp add: sound_def)
  then have "sound {} w (Inr (), snd (case mh_invoke h f a w of (Inl e, w) \<Rightarrow> (g e, w) | (Inr v, w) \<Rightarrow> (g' v, w)))"
    for f a and g :: "lisp_exn \<Rightarrow> frame_end + machine" and g'
    by (auto split: prod.split sum.split) (metis snd_conv)+
  then show ?thesis by (cases i) (auto split: option.split)
qed

lemma run_frame_sound:
  assumes "\<And>f a w. sound {} w (mh_invoke h f a w)"
  shows "sound {} w (Inr (), snd (run_frame n h code m w))"
proof (induction n arbitrary: m w)
  case (Suc n)
  have "sound {} w (Inr (), snd (vm_step h (code ! vm_ip m) m w))" by (rule vm_step_sound [OF assms])
  then show ?case using Suc sound_before
    by (cases "vm_step h (code ! vm_ip m) m w"; cases "fst (vm_step h (code ! vm_ip m) m w)") fastforce+
qed simp

lemma sound_execute:
  assumes "sound_evaluator ev"
  shows "sound {} w (execute_compiled_closure ev fn args w)"
proof -
  have f: "sound {} w (Inr (), snd (execute_frame (closure_host ev e) cc args w))" for e cc
    unfolding execute_frame_def
    by (rule run_frame_sound) (use assms in \<open>simp add: closure_host_def sound_evaluator_def\<close>)
  have "sound {} w (case r of (Frame_return v, w) \<Rightarrow> (Inr v, w) | (Frame_throw e, w) \<Rightarrow> (Inl e, w)
      | (Frame_tail f a, w) \<Rightarrow> ev_execute ev f a w)" if "sound {} w (Inr (), snd r)" for r
  proof (cases r)
    case (Pair fe w1)
    with that have s: "sound {} w (x, w1)" for x :: "lisp_exn + lisp_value" by (simp add: sound_def)
    have t: "sound {} w1 (ev_execute ev g a w1)" for g a using assms by (simp add: sound_evaluator_def)
    show ?thesis using Pair s sound_before [OF that [unfolded Pair snd_conv] t] by (cases fe) simp_all
  qed
  with f show ?thesis unfolding execute_compiled_closure_def by (auto split: option.split intro!: sound_intros)
qed

lemma sound_evaluator_of: "primitives_sound H \<Longrightarrow> sound_evaluator (evaluator_of H k)"
proof (induction k)
  case 0
  show ?case by (simp add: sound_evaluator_def no_evaluator_def)
next
  case (Suc k)
  then show ?case unfolding evaluator_of.simps sound_evaluator_def [of "next_evaluator H (evaluator_of H k)"]
    by (auto simp: next_evaluator_def invoke_callable_def
        intro!: sound_resume sound_step_in_position sound_apply sound_execute)
qed

end
