(* ===== verification/Bytecode_Correct.thy ===== *)
theory Bytecode_Correct
  imports Bytecode
begin

text \<open>
  What compiled closures compute. The reference evaluates the body directly, with the local variables in a
  map (\<open>docs/language/semantics.md\<close>, except that \<open>or\<close> without a true argument gives its last
  value, as the bytecode does); the machine computes the same, for every behaviour of the functions that
  are called, provided no initialiser of a \<open>let\<close> but the first contains a \<open>let\<close>. Without that
  condition it does not: a nested \<open>let\<close> reuses the slots of the bindings before it.
\<close>

subsection \<open>The reference\<close>

type_synonym locals = "string \<Rightarrow> lisp_value option"
type_synonym 'w ref_fn = "lisp_value \<Rightarrow> locals \<Rightarrow> 'w \<Rightarrow> (lisp_value, 'w) lisp_result"

fun ref_sequence :: "'w ref_fn \<Rightarrow> lisp_value list \<Rightarrow> locals \<Rightarrow> 'w \<Rightarrow> (lisp_value, 'w) lisp_result" where
  "ref_sequence ev [] \<rho> w = (Inr VNil, w)"
| "ref_sequence ev [e] \<rho> w = ev e \<rho> w"
| "ref_sequence ev (e # es) \<rho> w = ebind (ev e \<rho> w) (\<lambda>_. ref_sequence ev es \<rho>)"

text \<open>\<open>and\<close> and \<open>or\<close> of at least one argument: stop at the first value that decides.\<close>

fun ref_chain :: "(lisp_value \<Rightarrow> bool) \<Rightarrow> 'w ref_fn \<Rightarrow> lisp_value list \<Rightarrow> locals \<Rightarrow> 'w \<Rightarrow> (lisp_value, 'w) lisp_result" where
  "ref_chain stop ev [] \<rho> w = (Inr VNil, w)"
| "ref_chain stop ev [e] \<rho> w = ev e \<rho> w"
| "ref_chain stop ev (e # es) \<rho> w =
     ebind (ev e \<rho> w) (\<lambda>v w. if stop v then (Inr v, w) else ref_chain stop ev es \<rho> w)"

fun ref_args :: "'w ref_fn \<Rightarrow> lisp_value list \<Rightarrow> locals \<Rightarrow> 'w \<Rightarrow> (lisp_value list, 'w) lisp_result" where
  "ref_args ev [] \<rho> w = (Inr [], w)"
| "ref_args ev (e # es) \<rho> w =
     ebind (ev e \<rho> w) (\<lambda>v w. ebind (ref_args ev es \<rho> w) (\<lambda>vs w. (Inr (v # vs), w)))"

definition ref_if :: "'w ref_fn \<Rightarrow> lisp_value list \<Rightarrow> locals \<Rightarrow> 'w \<Rightarrow> (lisp_value, 'w) lisp_result" where
  "ref_if ev args \<rho> w =
     ebind (ev (args ! 0) \<rho> w)
       (\<lambda>v w. if is_truthy v then ev (args ! 1) \<rho> w
              else if length args = 3 then ev (args ! 2) \<rho> w
              else (Inr VNil, w))"

definition ref_let :: "'w ref_fn \<Rightarrow> lisp_value list \<Rightarrow> locals \<Rightarrow> 'w \<Rightarrow> (lisp_value, 'w) lisp_result" where
  "ref_let ev args \<rho> w =
     (case Option.bind (case vector_from_list (args ! 0) of Inl _ \<Rightarrow> None | Inr bs \<Rightarrow> Some bs) let_bindings of
        None \<Rightarrow> (Inl (Lisp_error ''let''), w)
      | Some bs \<Rightarrow>
          ebind (ref_args ev (map snd bs) \<rho> w)
            (\<lambda>vs. ref_sequence ev (drop 1 args) (\<rho>(map fst bs [\<mapsto>] vs))))"

definition ref_call :: "'w machine_host \<Rightarrow> 'w ref_fn \<Rightarrow> lisp_value list \<Rightarrow> locals \<Rightarrow> 'w \<Rightarrow> (lisp_value, 'w) lisp_result" where
  "ref_call host ev items \<rho> w = ebind (ref_args ev items \<rho> w) (\<lambda>vs. mh_invoke host (hd vs) (tl vs))"

definition ref_list :: "'w machine_host \<Rightarrow> 'w ref_fn \<Rightarrow> 'w ref_fn" where
  "ref_list host ev expr \<rho> w =
     (case vector_from_list expr of
        Inr (head # args) \<Rightarrow>
          if head = VSym ''quote'' then (Inr (args ! 0), w)
          else if head = VSym ''if'' then ref_if ev args \<rho> w
          else if head = VSym ''begin'' then ref_sequence ev args \<rho> w
          else if head = VSym ''let'' then ref_let ev args \<rho> w
          else if head = VSym ''and'' then
            (if args = [] then (Inr (VBool True), w) else ref_chain (\<lambda>v. \<not> is_truthy v) ev args \<rho> w)
          else if head = VSym ''or'' then (if args = [] then (Inr VNil, w) else ref_chain is_truthy ev args \<rho> w)
          else ref_call host ev (head # args) \<rho> w
      | _ \<Rightarrow> (Inl (Lisp_error ''expected proper list''), w))"

fun ref_eval :: "'w machine_host \<Rightarrow> nat \<Rightarrow> 'w ref_fn" where
  "ref_eval host 0 expr \<rho> w = (Inl No_fuel, w)"
| "ref_eval host (Suc k) expr \<rho> w =
     (case expr of
        VSym name \<Rightarrow> (case \<rho> name of Some v \<Rightarrow> (Inr v, w) | None \<Rightarrow> (mh_lookup host name w, w))
      | VCons _ _ \<Rightarrow> ref_list host (ref_eval host k) expr \<rho> w
      | _ \<Rightarrow> (Inr expr, w))"

text \<open>Expressions with a \<open>let\<close> somewhere in an evaluated position, and those whose slots do not clash.\<close>

definition form_items :: "lisp_value \<Rightarrow> lisp_value list" where
  "form_items v = (case v of VCons _ _ \<Rightarrow> (case vector_from_list v of Inr items \<Rightarrow> items | Inl _ \<Rightarrow> []) | _ \<Rightarrow> [])"

fun has_let :: "nat \<Rightarrow> lisp_value \<Rightarrow> bool" where
  "has_let 0 v = True"
| "has_let (Suc k) v =
     (case form_items v of
        [] \<Rightarrow> False
      | head # args \<Rightarrow>
          head \<noteq> VSym ''quote'' \<and> (head = VSym ''let'' \<or> list_ex (has_let k) (head # args)))"

definition let_inits :: "lisp_value list \<Rightarrow> lisp_value list" where
  "let_inits args =
     (case Option.bind (case vector_from_list (args ! 0) of Inl _ \<Rightarrow> None | Inr bs \<Rightarrow> Some bs) let_bindings of
        None \<Rightarrow> [] | Some bs \<Rightarrow> map snd bs)"

fun let_safe :: "nat \<Rightarrow> lisp_value \<Rightarrow> bool" where
  "let_safe 0 v = True"
| "let_safe (Suc k) v =
     (case form_items v of
        [] \<Rightarrow> True
      | head # args \<Rightarrow>
          head = VSym ''quote'' \<or>
          (if head = VSym ''let''
           then list_all (let_safe k) (let_inits args) \<and> list_all (\<lambda>e. \<not> has_let k e) (drop 1 (let_inits args)) \<and>
             list_all (let_safe k) (drop 1 args)
           else list_all (let_safe k) (head # args)))"

subsection \<open>Runs of the machine\<close>

text \<open>Runs in which every step goes forward in the code.\<close>

abbreviation vm :: "nat \<Rightarrow> lisp_value list \<Rightarrow> lisp_value list \<Rightarrow> machine" where
  "vm i s L \<equiv> \<lparr>vm_ip = i, vm_stack = s, vm_locals = L\<rparr>"

inductive runs_to :: "'w machine_host \<Rightarrow> compiled_instruction list \<Rightarrow> machine \<Rightarrow> 'w \<Rightarrow> machine \<Rightarrow> 'w \<Rightarrow> bool"
  for host P where
  runs_refl: "runs_to host P m w m w"
| runs_step: "vm_ip m < length P \<Longrightarrow> vm_step host (P ! vm_ip m) m w = (Inr m1, w1) \<Longrightarrow> vm_ip m < vm_ip m1 \<Longrightarrow>
    runs_to host P m1 w1 m2 w2 \<Longrightarrow> runs_to host P m w m2 w2"

definition frame_ends :: "'w machine_host \<Rightarrow> compiled_instruction list \<Rightarrow> machine \<Rightarrow> 'w \<Rightarrow> frame_end \<Rightarrow> 'w \<Rightarrow> bool" where
  "frame_ends host P m w fe w' =
     (\<exists>m1 w1. runs_to host P m w m1 w1 \<and> vm_ip m1 < length P \<and> vm_step host (P ! vm_ip m1) m1 w1 = (Inl fe, w'))"

text \<open>The result of a frame: a tail call is the call of the function.\<close>

definition frame_result :: "'w machine_host \<Rightarrow> frame_end \<Rightarrow> 'w \<Rightarrow> (lisp_value, 'w) lisp_result" where
  "frame_result host fe w =
     (case fe of
        Frame_return v \<Rightarrow> (Inr v, w)
      | Frame_tail f args \<Rightarrow> mh_invoke host f args w
      | Frame_throw e \<Rightarrow> (Inl e, w))"

lemma runs_one:
  "vm_ip m < length P \<Longrightarrow> vm_step host (P ! vm_ip m) m w = (Inr m1, w1) \<Longrightarrow> vm_ip m < vm_ip m1 \<Longrightarrow> runs_to host P m w m1 w1"
  by (rule runs_step) (auto intro: runs_refl)

lemma runs_trans: "runs_to host P m w m1 w1 \<Longrightarrow> runs_to host P m1 w1 m2 w2 \<Longrightarrow> runs_to host P m w m2 w2"
  by (induction rule: runs_to.induct) (auto intro: runs_step)

lemma runs_ends: "runs_to host P m w m1 w1 \<Longrightarrow> frame_ends host P m1 w1 fe w' \<Longrightarrow> frame_ends host P m w fe w'"
  unfolding frame_ends_def by (blast intro: runs_trans)

lemma ends_one: "vm_ip m < length P \<Longrightarrow> vm_step host (P ! vm_ip m) m w = (Inl fe, w') \<Longrightarrow> frame_ends host P m w fe w'"
  unfolding frame_ends_def by (blast intro: runs_refl)

subsection \<open>Segments of code\<close>

definition segment :: "compiled_instruction list \<Rightarrow> nat \<Rightarrow> compiled_instruction list \<Rightarrow> bool" where
  "segment P i c = (i + length c \<le> length P \<and> (\<forall>j < length c. P ! (i + j) = c ! j))"

lemma segment_Cons [simp]: "segment P i (x # c) \<longleftrightarrow> i < length P \<and> P ! i = x \<and> segment P (Suc i) c"
  by (auto simp: segment_def nth_Cons less_Suc_eq_0_disj all_conj_distrib dest: spec [of _ 0])

lemma segment_append [simp]: "segment P i (c @ d) \<longleftrightarrow> segment P i c \<and> segment P (i + length c) d"
proof (induction c arbitrary: i)
  case Nil
  then show ?case by (auto simp: segment_def)
qed simp

lemma segment_whole: "segment (pre @ c @ post) (length pre) c"
  by (auto simp: segment_def nth_append)

subsection \<open>Locals and scopes\<close>

text \<open>The locals of the machine hold the variables of the reference.\<close>

definition in_scope :: "compile_scope \<Rightarrow> locals \<Rightarrow> lisp_value list \<Rightarrow> bool" where
  "in_scope scope \<rho> L =
     (cs_next_slot scope \<le> length L \<and>
      (\<forall>x. cs_locals scope x = None \<longrightarrow> \<rho> x = None) \<and>
      (\<forall>x i. cs_locals scope x = Some i \<longrightarrow> i < cs_next_slot scope \<and> \<rho> x = Some (L ! i)))"

definition same_below :: "nat \<Rightarrow> bool \<Rightarrow> lisp_value list \<Rightarrow> lisp_value list \<Rightarrow> bool" where
  "same_below n keep L L' = (length L' = length L \<and> (\<forall>i < n. L' ! i = L ! i) \<and> (keep \<longrightarrow> L' = L))"

lemma same_below_refl [simp]: "same_below n keep L L"
  by (simp add: same_below_def)

lemma same_below_trans: "same_below n k L M \<Longrightarrow> same_below n k' M N \<Longrightarrow> same_below n (k \<and> k') L N"
  by (auto simp: same_below_def)

lemma same_below_mono: "same_below n k L M \<Longrightarrow> n' \<le> n \<Longrightarrow> (k' \<longrightarrow> k) \<Longrightarrow> same_below n' k' L M"
  by (auto simp: same_below_def)

lemma in_scope_same: "in_scope scope \<rho> L \<Longrightarrow> same_below (cs_next_slot scope) k L L' \<Longrightarrow> in_scope scope \<rho> L'"
  by (auto simp: in_scope_def same_below_def)

lemma in_scope_local: "in_scope scope \<rho> L \<Longrightarrow> cs_locals scope x = Some i \<Longrightarrow> i < length L \<and> \<rho> x = Some (L ! i)"
  by (auto simp: in_scope_def intro: less_le_trans)

lemma in_scope_bind:
  "in_scope scope \<rho> L \<Longrightarrow> cs_next_slot scope < length L \<Longrightarrow> L ! cs_next_slot scope = v \<Longrightarrow>
    in_scope (bind_slot x scope) (\<rho>(x \<mapsto> v)) L"
  by (auto simp: in_scope_def bind_slot_def less_Suc_eq)

lemma bind_slots_next [simp]: "cs_next_slot (fold bind_slot xs scope) = cs_next_slot scope + length xs"
  by (induction xs arbitrary: scope) (auto simp: bind_slot_def)

lemma in_scope_binds:
  "in_scope scope \<rho> L \<Longrightarrow> length vs = length xs \<Longrightarrow> cs_next_slot scope + length xs \<le> length L \<Longrightarrow>
    (\<forall>i < length xs. L ! (cs_next_slot scope + i) = vs ! i) \<Longrightarrow>
    in_scope (fold bind_slot xs scope) (\<rho>(xs [\<mapsto>] vs)) L"
proof (induction xs arbitrary: scope \<rho> vs)
  case (Cons x xs)
  then obtain v vs' where vs: "vs = v # vs'" by (cases vs) auto
  have "in_scope (bind_slot x scope) (\<rho>(x \<mapsto> v)) L"
    using Cons.prems vs by (intro in_scope_bind) (auto dest: spec [of _ 0])
  moreover have "cs_next_slot (bind_slot x scope) = Suc (cs_next_slot scope)" by (simp add: bind_slot_def)
  moreover have "\<forall>i < length xs. L ! (Suc (cs_next_slot scope) + i) = vs' ! i"
    using Cons.prems(4) vs by (auto dest: spec [of _ "Suc _"])
  ultimately show ?case
    using Cons.IH [of "bind_slot x scope" "\<rho>(x \<mapsto> v)" vs'] Cons.prems vs by (simp del: fun_upd_apply)
qed simp

subsection \<open>Behaviour of code\<close>

text \<open>
  Code delivers values on top of a stack \<open>s\<close> and reaches the instruction behind it, or ends the frame:
  with an error, or, in tail position, with the answer of a tail call. It leaves alone the first \<open>n\<close>
  locals, and all of them if \<open>keep\<close>.
\<close>

definition delivers ::
  "'w machine_host \<Rightarrow> compiled_instruction list \<Rightarrow> nat \<Rightarrow> bool \<Rightarrow> machine \<Rightarrow> 'w \<Rightarrow> nat \<Rightarrow> lisp_value list \<Rightarrow> 'w \<Rightarrow> bool" where
  "delivers host P n keep m w j s w' =
     (\<exists>L. runs_to host P m w (vm j s L) w' \<and> same_below n keep (vm_locals m) L)"

definition answers :: "'w machine_host \<Rightarrow> compiled_instruction list \<Rightarrow> machine \<Rightarrow> 'w \<Rightarrow> (lisp_value, 'w) lisp_result \<Rightarrow> bool" where
  "answers host P m w res = (\<exists>fe w'. frame_ends host P m w fe w' \<and> frame_result host fe w' = res)"

definition behaves ::
  "'w machine_host \<Rightarrow> compiled_instruction list \<Rightarrow> bool \<Rightarrow> nat \<Rightarrow> bool \<Rightarrow> machine \<Rightarrow> 'w \<Rightarrow> nat \<Rightarrow> lisp_value list \<Rightarrow>
    (lisp_value, 'w) lisp_result \<Rightarrow> bool" where
  "behaves host P tail n keep m w j s res =
     (case fst res of
        Inl e \<Rightarrow> answers host P m w res
      | Inr v \<Rightarrow> delivers host P n keep m w j (v # s) (snd res) \<or> tail \<and> answers host P m w res)"

lemma runs_answers: "runs_to host P m w m1 w1 \<Longrightarrow> answers host P m1 w1 res \<Longrightarrow> answers host P m w res"
  unfolding answers_def by (blast intro: runs_ends)

lemma throws_answers: "frame_ends host P m w (Frame_throw e) w' \<Longrightarrow> answers host P m w (Inl e, w')"
  unfolding answers_def frame_result_def by (metis frame_end.simps(12))

lemma runs_delivers:
  assumes "runs_to host P m w m1 w1" "same_below n ka (vm_locals m) (vm_locals m1)"
    and "delivers host P n kb m1 w1 j s w'" "keep \<longrightarrow> ka \<and> kb"
  shows "delivers host P n keep m w j s w'"
proof -
  from assms(3) obtain L where L: "runs_to host P m1 w1 (vm j s L) w'" "same_below n kb (vm_locals m1) L"
    by (auto simp: delivers_def)
  have "same_below n keep (vm_locals m) L"
    using same_below_mono [OF same_below_trans [OF assms(2) L(2)]] assms(4) by blast
  then show ?thesis using runs_trans [OF assms(1) L(1)] unfolding delivers_def by blast
qed

lemma runs_behaves:
  assumes "runs_to host P m w m1 w1" "same_below n ka (vm_locals m) (vm_locals m1)"
    and "behaves host P tail n kb m1 w1 j s res" "keep \<longrightarrow> ka \<and> kb"
  shows "behaves host P tail n keep m w j s res"
  using assms(3) runs_delivers [OF assms(1,2) _ assms(4)] runs_answers [OF assms(1), of res]
  by (cases "fst res") (auto simp: behaves_def)

lemma runs_behaves_same:
  assumes "runs_to host P m w m1 w1" "vm_locals m1 = vm_locals m" "behaves host P tail n k m1 w1 j s res" "keep \<longrightarrow> k"
  shows "behaves host P tail n keep m w j s res"
  using runs_behaves [OF assms(1) _ assms(3), of True keep] assms(2,4) by simp

lemma behaves_bind:
  assumes "behaves host P False n ka m w i s res" "keep \<longrightarrow> ka \<and> kb"
    and "\<And>v w1 L. res = (Inr v, w1) \<Longrightarrow> same_below n ka (vm_locals m) L \<Longrightarrow>
      behaves host P tail n kb (vm i (v # s) L) w1 j s (f v w1)"
  shows "behaves host P tail n keep m w j s (ebind res f)"
proof (cases res)
  case (Pair r w1)
  show ?thesis
  proof (cases r)
    case (Inl e)
    then show ?thesis using assms(1) Pair by (simp add: behaves_def ebind_def)
  next
    case (Inr v)
    then obtain L where L: "runs_to host P m w (vm i (v # s) L) w1" "same_below n ka (vm_locals m) L"
      using assms(1) Pair by (auto simp: behaves_def delivers_def)
    have "behaves host P tail n kb (vm i (v # s) L) w1 j s (f v w1)" using assms(3) Pair Inr L(2) by blast
    then show ?thesis using runs_behaves [OF L(1) _ _ assms(2)] L(2) Pair Inr by (simp add: ebind_def)
  qed
qed

lemma behaves_now: "runs_to host P m w (vm j (v # s) (vm_locals m)) w' \<Longrightarrow> behaves host P tail n keep m w j s (Inr v, w')"
  unfolding behaves_def delivers_def by (auto intro: same_below_refl)

lemma behaves_weaken:
  "behaves host P tail n keep m w j s res \<Longrightarrow> n' \<le> n \<Longrightarrow> keep' \<longrightarrow> keep \<Longrightarrow> behaves host P tail n' keep' m w j s res"
  using same_below_mono [of n keep _ _ n' keep'] by (cases "fst res") (auto simp: behaves_def delivers_def)

lemma behaves_then:
  assumes "behaves host P tail n keep m w i s res" "i < length P" "i < j"
    and "\<And>v L. vm_step host (P ! i) (vm i (v # s) L) (snd res) = (Inr (vm j (v # s) L), snd res)"
  shows "behaves host P tail n keep m w j s res"
proof (cases "fst res")
  case (Inr v)
  have "delivers host P n keep m w j (v # s) (snd res)" if d: "delivers host P n keep m w i (v # s) (snd res)"
  proof -
    from d obtain L where L: "runs_to host P m w (vm i (v # s) L) (snd res)" "same_below n keep (vm_locals m) L"
      by (auto simp: delivers_def)
    have "runs_to host P (vm i (v # s) L) (snd res) (vm j (v # s) L) (snd res)"
      using assms(2-4) by (intro runs_one) simp_all
    then show ?thesis using runs_trans [OF L(1)] L(2) unfolding delivers_def by blast
  qed
  then show ?thesis using assms(1) Inr by (auto simp: behaves_def)
qed (use assms(1) in \<open>simp add: behaves_def\<close>)

subsection \<open>Implementing a reference\<close>

lemma emit_simps [simp]:
  "cc_code (emit i out) = cc_code out @ [i]" "cc_local_count (emit i out) = cc_local_count out"
  "here (emit i out) = Suc (here out)"
  by (simp_all add: emit_def here_def)

text \<open>
  \<open>slots_fit\<close>: the code between \<open>out\<close> and \<open>out'\<close>, wherever it stands and whatever the locals, does what \<open>post\<close> says;
  \<open>implements\<close>: it computes an expression; \<open>continues\<close>: it goes on from a value on the stack.
\<close>

definition slots_fit ::
  "compile_scope \<Rightarrow> compiled_closure \<Rightarrow> compiled_closure \<Rightarrow>
    (compiled_instruction list \<Rightarrow> lisp_value list \<Rightarrow> locals \<Rightarrow> bool) \<Rightarrow> bool" where
  "slots_fit scope out out' post =
     (\<exists>c. cc_code out' = cc_code out @ c \<and> cc_local_count out \<le> cc_local_count out' \<and>
        (\<forall>P L \<rho>. segment P (here out) c \<longrightarrow> cc_local_count out' \<le> length L \<longrightarrow> in_scope scope \<rho> L \<longrightarrow> post P L \<rho>))"

definition implements ::
  "'w machine_host \<Rightarrow> compile_scope \<Rightarrow> bool \<Rightarrow> bool \<Rightarrow> compiled_closure \<Rightarrow> compiled_closure \<Rightarrow>
    (locals \<Rightarrow> 'w \<Rightarrow> (lisp_value, 'w) lisp_result) \<Rightarrow> bool" where
  "implements host scope tail keep out out' sem =
     slots_fit scope out out' (\<lambda>P L \<rho>. \<forall>s w.
       behaves host P tail (cs_next_slot scope) keep (vm (here out) s L) w (here out') s (sem \<rho> w))"

definition continues ::
  "'w machine_host \<Rightarrow> compile_scope \<Rightarrow> bool \<Rightarrow> bool \<Rightarrow> compiled_closure \<Rightarrow> compiled_closure \<Rightarrow>
    (lisp_value \<Rightarrow> locals \<Rightarrow> 'w \<Rightarrow> (lisp_value, 'w) lisp_result) \<Rightarrow> bool" where
  "continues host scope tail keep out out' sem =
     slots_fit scope out out' (\<lambda>P L \<rho>. \<forall>s v w.
       behaves host P tail (cs_next_slot scope) keep (vm (here out) (v # s) L) w (here out') s (sem v \<rho> w))"

lemma here_append: "cc_code out' = cc_code out @ c \<Longrightarrow> here out' = here out + length c"
  by (simp add: here_def)

lemma fits_trans:
  assumes "slots_fit scope out out1 post1" "slots_fit scope1 out1 out' post2"
    and "\<And>P L \<rho>. cc_local_count out' \<le> length L \<Longrightarrow> in_scope scope \<rho> L \<Longrightarrow> post1 P L \<rho> \<Longrightarrow>
      (\<And>L' \<rho>'. length L' = length L \<Longrightarrow> in_scope scope1 \<rho>' L' \<Longrightarrow> post2 P L' \<rho>') \<Longrightarrow> post P L \<rho>"
  shows "slots_fit scope out out' post"
proof -
  from assms(1) obtain c1 where c1: "cc_code out1 = cc_code out @ c1" "cc_local_count out \<le> cc_local_count out1"
    "\<And>P L \<rho>. segment P (here out) c1 \<Longrightarrow> cc_local_count out1 \<le> length L \<Longrightarrow> in_scope scope \<rho> L \<Longrightarrow> post1 P L \<rho>"
    unfolding slots_fit_def by blast
  from assms(2) obtain c2 where c2: "cc_code out' = cc_code out1 @ c2" "cc_local_count out1 \<le> cc_local_count out'"
    "\<And>P L \<rho>. segment P (here out1) c2 \<Longrightarrow> cc_local_count out' \<le> length L \<Longrightarrow> in_scope scope1 \<rho> L \<Longrightarrow> post2 P L \<rho>"
    unfolding slots_fit_def by blast
  show ?thesis unfolding slots_fit_def
  proof (intro exI [of _ "c1 @ c2"] conjI allI impI)
    fix P L \<rho>
    assume P: "segment P (here out) (c1 @ c2)" and L: "cc_local_count out' \<le> length L" "in_scope scope \<rho> L"
    show "post P L \<rho>"
    proof (rule assms(3) [OF L])
      show "post1 P L \<rho>" using c1(3) P L c2(2) by simp
      fix L' \<rho>' assume "length L' = length L" "in_scope scope1 \<rho>' L'"
      then show "post2 P L' \<rho>'" using c2(3) P L(1) here_append [OF c1(1)] by simp
    qed
  qed (use c1 c2 in auto)
qed

text \<open>An expression whose value is the start of the rest.\<close>

lemma implements_bind:
  assumes "implements host scope False k1 out out1 sem1" "continues host scope tail k2 out1 out' sem2" "keep \<longrightarrow> k1 \<and> k2"
  shows "implements host scope tail keep out out' (\<lambda>\<rho> w. ebind (sem1 \<rho> w) (\<lambda>v. sem2 v \<rho>))"
  unfolding implements_def
proof (rule fits_trans [OF assms(1) [unfolded implements_def] assms(2) [unfolded continues_def]], intro allI)
  fix P L \<rho> s w
  assume L: "in_scope scope \<rho> L"
    and 1: "\<forall>s w. behaves host P False (cs_next_slot scope) k1 (vm (here out) s L) w (here out1) s (sem1 \<rho> w)"
    and 2: "\<And>L' \<rho>'. length L' = length L \<Longrightarrow> in_scope scope \<rho>' L' \<Longrightarrow>
      \<forall>s v w. behaves host P tail (cs_next_slot scope) k2 (vm (here out1) (v # s) L') w (here out') s (sem2 v \<rho>' w)"
  show "behaves host P tail (cs_next_slot scope) keep (vm (here out) s L) w (here out') s
      (ebind (sem1 \<rho> w) (\<lambda>v. sem2 v \<rho>))"
  proof (rule behaves_bind [OF 1 [rule_format] assms(3)])
    fix v w1 L1 assume "same_below (cs_next_slot scope) k1 (vm_locals (vm (here out) s L)) L1"
    then have "length L1 = length L" "in_scope scope \<rho> L1" using in_scope_same [OF L] by (auto simp: same_below_def)
    then show "behaves host P tail (cs_next_slot scope) k2 (vm (here out1) (v # s) L1) w1 (here out') s (sem2 v \<rho> w1)"
      using 2 by blast
  qed
qed

lemma continues_pop:
  assumes "implements host scope tail k (emit Pop out) out' sem"
  shows "continues host scope tail k out out' (\<lambda>_. sem)"
proof -
  have pop: "slots_fit scope out (emit Pop out) (\<lambda>P L \<rho>. here out < length P \<and> P ! here out = Pop)"
    unfolding slots_fit_def by (intro exI [of _ "[Pop]"]) auto
  show ?thesis unfolding continues_def
  proof (rule fits_trans [OF pop assms [unfolded implements_def]], intro allI)
    fix P L \<rho> s v w
    assume L: "in_scope scope \<rho> L" and P: "here out < length P \<and> P ! here out = Pop"
      and 2: "\<And>L' \<rho>'. length L' = length L \<Longrightarrow> in_scope scope \<rho>' L' \<Longrightarrow>
        \<forall>s w. behaves host P tail (cs_next_slot scope) k (vm (here (emit Pop out)) s L') w (here out') s (sem \<rho>' w)"
    have "runs_to host P (vm (here out) (v # s) L) w (vm (Suc (here out)) s L) w"
      using P by (intro runs_one) auto
    then show "behaves host P tail (cs_next_slot scope) k (vm (here out) (v # s) L) w (here out') s (sem \<rho> w)"
      using 2 [OF refl L] runs_behaves_same by fastforce
  qed
qed

text \<open>A single instruction that pushes a value.\<close>

lemma implements_emit:
  assumes "\<And>L s \<rho> w. cc_local_count out \<le> length L \<Longrightarrow> in_scope scope \<rho> L \<Longrightarrow>
      vm_step host instr (vm (here out) s L) w =
        (case sem \<rho> w of (Inr v, w') \<Rightarrow> (Inr (vm (Suc (here out)) (v # s) L), w') | (Inl e, w') \<Rightarrow> (Inl (Frame_throw e), w'))"
  shows "implements host scope tail keep out (emit instr out) sem"
  unfolding implements_def slots_fit_def
proof (intro exI [of _ "[instr]"] conjI allI impI)
  fix P :: "compiled_instruction list" and L \<rho> s w
  assume "segment P (here out) [instr]" and L: "cc_local_count (emit instr out) \<le> length L" "in_scope scope \<rho> L"
  then have P: "here out < length P" "P ! here out = instr" by auto
  note step = assms [of L \<rho> s w]
  show "behaves host P tail (cs_next_slot scope) keep (vm (here out) s L) w (here (emit instr out)) s (sem \<rho> w)"
  proof (cases "sem \<rho> w")
    case (Pair r w')
    show ?thesis
    proof (cases r)
      case (Inl e)
      then have "frame_ends host P (vm (here out) s L) w (Frame_throw e) w'"
        using P L step Pair by (intro ends_one) simp_all
      then show ?thesis using throws_answers Inl Pair by (simp add: behaves_def)
    next
      case (Inr v)
      then have "runs_to host P (vm (here out) s L) w (vm (Suc (here out)) (v # s) L) w'"
        using P L step Pair by (intro runs_one) simp_all
      then show ?thesis
        using behaves_now [of host P "vm (here out) s L" w "Suc (here out)" v s w'] Inr Pair by simp
    qed
  qed
qed simp_all

lemma implements_const: "implements host scope tail keep out (emit (Push_const v) out) (\<lambda>\<rho> w. (Inr v, w))"
  by (rule implements_emit) (simp add: push_def)

subsection \<open>Forms\<close>

text \<open>
  The interface between \<open>compile_expr\<close> and the compilers of the forms: what the forms may assume about the
  compiler of their subexpressions.
\<close>

lemma implements_weaken: "implements host scope tail k out out' sem \<Longrightarrow> keep \<longrightarrow> k \<Longrightarrow> implements host scope tail keep out out' sem"
  unfolding implements_def slots_fit_def using behaves_weaken [OF _ order_refl, of host _ tail _ k _ _ _ _ _ keep] by blast

lemma patch_simps [simp]: "here (patch i out) = here out" "cc_local_count (patch i out) = cc_local_count out"
  by (simp_all add: patch_def here_def)

lemma patch_code:
  "cc_code out = pre @ instr # post \<Longrightarrow> cc_code (patch (length pre) out) = pre @ with_index (here out) instr # post"
  by (simp add: patch_def here_def)

text \<open>The code of \<open>if\<close> behind the test.\<close>

lemma continues_if:
  assumes "implements host scope tail k1 (emit (Jump_if_false 0) out) out2 sem1"
    and "implements host scope tail k2 (patch (here out) (emit (Jump 0) out2)) out4 sem2" "keep \<longrightarrow> k1 \<and> k2"
  shows "continues host scope tail keep out (patch (here out2) out4) (\<lambda>v \<rho> w. if is_truthy v then sem1 \<rho> w else sem2 \<rho> w)"
proof -
  let ?n = "cs_next_slot scope"
  from assms(1) obtain c1 where c1: "cc_code out2 = cc_code out @ Jump_if_false 0 # c1" "cc_local_count out \<le> cc_local_count out2"
    "\<And>P L \<rho> s w. segment P (Suc (here out)) c1 \<Longrightarrow> cc_local_count out2 \<le> length L \<Longrightarrow> in_scope scope \<rho> L \<Longrightarrow>
      behaves host P tail ?n k1 (vm (Suc (here out)) s L) w (here out2) s (sem1 \<rho> w)"
    unfolding implements_def slots_fit_def by auto
  have l2: "here out2 = Suc (here out) + length c1" using c1(1) by (simp add: here_def)
  let ?out3 = "patch (here out) (emit (Jump 0) out2)"
  have "cc_code ?out3 = cc_code out @ Jump_if_false (Suc (here out2)) # c1 @ [Jump 0]"
    using patch_code [of "emit (Jump 0) out2" "cc_code out" "Jump_if_false 0" "c1 @ [Jump 0]"] c1(1) by (simp add: here_def)
  with assms(2) obtain c2 where c2:
    "cc_code out4 = cc_code out @ Jump_if_false (Suc (here out2)) # c1 @ Jump 0 # c2" "cc_local_count out2 \<le> cc_local_count out4"
    "\<And>P L \<rho> s w. segment P (Suc (here out2)) c2 \<Longrightarrow> cc_local_count out4 \<le> length L \<Longrightarrow> in_scope scope \<rho> L \<Longrightarrow>
      behaves host P tail ?n k2 (vm (Suc (here out2)) s L) w (here out4) s (sem2 \<rho> w)"
    unfolding implements_def slots_fit_def by auto
  have l4: "here out2 < here out4" using c2(1) l2 by (simp add: here_def)
  let ?out5 = "patch (here out2) out4"
  have code: "cc_code ?out5 = cc_code out @ Jump_if_false (Suc (here out2)) # c1 @ Jump (here out4) # c2"
    using patch_code [of out4 "cc_code out @ Jump_if_false (Suc (here out2)) # c1" "Jump 0" c2] c2(1) l2 by (simp add: here_def)
  show ?thesis unfolding continues_def slots_fit_def
  proof (intro exI [of _ "Jump_if_false (Suc (here out2)) # c1 @ Jump (here out4) # c2"] conjI allI impI)
    fix P L \<rho> s v w
    assume "segment P (here out) (Jump_if_false (Suc (here out2)) # c1 @ Jump (here out4) # c2)"
      and L: "cc_local_count ?out5 \<le> length L" "in_scope scope \<rho> L"
    then have P: "here out < length P" "P ! here out = Jump_if_false (Suc (here out2))" "segment P (Suc (here out)) c1"
      "here out2 < length P" "P ! here out2 = Jump (here out4)" "segment P (Suc (here out2)) c2"
      using l2 by auto
    have run: "runs_to host P (vm (here out) (v # s) L) w (vm (if is_truthy v then Suc (here out) else Suc (here out2)) s L) w"
      using P(1,2) l2 by (intro runs_one) auto
    have then_branch: "behaves host P tail ?n k1 (vm (Suc (here out)) s L) w (here out4) s (sem1 \<rho> w)"
      by (rule behaves_then [OF c1(3) [OF P(3) _ L(2)] P(4)]) (use L(1) c2(2) P(5) l4 in auto)
    have else_branch: "behaves host P tail ?n k2 (vm (Suc (here out2)) s L) w (here out4) s (sem2 \<rho> w)"
      using c2(3) [OF P(6) _ L(2)] L(1) by simp
    show "behaves host P tail ?n keep (vm (here out) (v # s) L) w (here ?out5) s (if is_truthy v then sem1 \<rho> w else sem2 \<rho> w)"
      using runs_behaves_same [OF run _ _, of tail ?n _ "here out4" s _ keep] then_branch else_branch assms(3) by simp
  qed (use code c1(2) c2(2) in auto)
qed

locale subcompiler =
  fixes host :: "'w machine_host"
    and cmp :: compile_fn
    and ev :: "'w ref_fn"
    and lets :: "lisp_value \<Rightarrow> bool"
    and safe :: "lisp_value \<Rightarrow> bool"
  assumes sub: "cmp e scope tail out = Some out' \<Longrightarrow> safe e \<Longrightarrow> implements host scope tail (\<not> lets e) out out' (ev e)"
begin

lemma body_implements:
  "compile_body cmp es scope tail out = Some out' \<Longrightarrow> es \<noteq> [] \<Longrightarrow> list_all safe es \<Longrightarrow>
    implements host scope tail (\<not> list_ex lets es) out out' (ref_sequence ev es)"
proof (induction es arbitrary: out rule: induct_list012)
  case (2 e)
  then show ?case using sub [of e scope tail out out'] by (simp add: implements_def)
next
  case (3 e e' es)
  then obtain out1 where out1: "cmp e scope False out = Some out1"
    "compile_body cmp (e' # es) scope tail (emit Pop out1) = Some out'" by (auto split: bind_splits)
  have "continues host scope tail (\<not> list_ex lets (e' # es)) out1 out' (\<lambda>_. ref_sequence ev (e' # es))"
    by (rule continues_pop) (use 3 out1(2) in simp)
  from implements_bind [OF sub [OF out1(1)] this, of "\<not> list_ex lets (e # e' # es)"]
  have "implements host scope tail (\<not> list_ex lets (e # e' # es)) out out'
      (\<lambda>\<rho> w. ebind (ev e \<rho> w) (\<lambda>_. ref_sequence ev (e' # es) \<rho>))"
    using 3(5) by simp
  moreover have "ref_sequence ev (e # e' # es) = (\<lambda>\<rho> w. ebind (ev e \<rho> w) (\<lambda>_. ref_sequence ev (e' # es) \<rho>))"
    by (simp add: fun_eq_iff)
  ultimately show ?case by simp
qed simp

lemma sequence_implements:
  "compile_sequence cmp es scope tail out = Some out' \<Longrightarrow> list_all safe es \<Longrightarrow>
    implements host scope tail (\<not> list_ex lets es) out out' (ref_sequence ev es)"
proof (cases "es = []")
  case True
  moreover assume "compile_sequence cmp es scope tail out = Some out'"
  moreover have "ref_sequence ev [] = (\<lambda>\<rho> w. (Inr VNil, w))" by (simp add: fun_eq_iff)
  ultimately show ?thesis using implements_const [of host scope tail _ out VNil] by (simp add: compile_sequence_def)
qed (simp add: compile_sequence_def body_implements)

lemma if_implements:
  assumes "compile_if_form cmp args scope tail out = Some out'" "list_all safe args"
  shows "implements host scope tail (\<not> list_ex lets args) out out' (ref_if ev args)"
proof -
  have len: "length args = 2 \<or> length args = 3" using assms(1) by (auto simp: compile_if_form_def split: if_splits)
  from assms(1) len obtain out1 out2 out4 where
    out1: "cmp (args ! 0) scope False out = Some out1" and
    out2: "cmp (args ! 1) scope tail (emit (Jump_if_false 0) out1) = Some out2" and
    out4: "(if length args = 3 then cmp (args ! 2) scope tail (patch (here out1) (emit (Jump 0) out2))
      else Some (emit (Push_const VNil) (patch (here out1) (emit (Jump 0) out2)))) = Some out4" and
    out': "out' = patch (here out2) out4"
    by (auto simp: compile_if_form_def Let_def split: bind_splits if_splits)
  let ?else = "\<lambda>\<rho> w. if length args = 3 then ev (args ! 2) \<rho> w else (Inr VNil, w)"
  have safe: "safe (args ! i)" if "i < length args" for i using assms(2) that by (simp add: list_all_length)
  have lets: "\<not> lets (args ! i)" if "\<not> list_ex lets args" "i < length args" for i using that by (simp add: list_ex_length)
  have "implements host scope tail (length args = 3 \<longrightarrow> \<not> lets (args ! 2)) (patch (here out1) (emit (Jump 0) out2)) out4 ?else"
    using out4 sub [of "args ! 2"] safe [of 2] implements_const len by (cases "length args = 3") auto
  from continues_if [OF sub [OF out2] this, of "\<not> list_ex lets args"]
  have "continues host scope tail (\<not> list_ex lets args) out1 out'
      (\<lambda>v \<rho> w. if is_truthy v then ev (args ! 1) \<rho> w else ?else \<rho> w)"
    using safe lets len out' by fastforce
  from implements_bind [OF sub [OF out1] this, of "\<not> list_ex lets args"]
  have "implements host scope tail (\<not> list_ex lets args) out out'
      (\<lambda>\<rho> w. ebind (ev (args ! 0) \<rho> w) (\<lambda>v w. if is_truthy v then ev (args ! 1) \<rho> w else ?else \<rho> w))"
    using safe [of 0] lets [of 0] len by fastforce
  then show ?thesis by (simp add: ref_if_def [abs_def])
qed

lemma chain_code:
  assumes "\<And>i j. with_index i (exit j) = exit i"
    and step: "\<And>i t v s L w. vm_step host (exit t) (vm i (v # s) L) w = (Inr (vm (if stop v then t else Suc i) (v # s) L), w)"
  shows "compile_chain cmp exit es scope tail jumps0 out = Some (jumps, out') \<Longrightarrow> es \<noteq> [] \<Longrightarrow> list_all safe es \<Longrightarrow>
    \<exists>js C. jumps = jumps0 @ js \<and> cc_local_count out \<le> cc_local_count out' \<and> cc_code out' = cc_code out @ C 0 \<and>
      (\<forall>i. length (C i) = length (C 0)) \<and>
      (\<forall>o1 pre. cc_code o1 = pre @ C 0 \<longrightarrow> length pre = here out \<longrightarrow>
         cc_code (fold patch js o1) = pre @ C (here o1)) \<and>
      (\<forall>P L \<rho> s w. segment P (here out) (C (here out')) \<longrightarrow> cc_local_count out' \<le> length L \<longrightarrow> in_scope scope \<rho> L \<longrightarrow>
         behaves host P tail (cs_next_slot scope) (\<not> list_ex lets es) (vm (here out) s L) w (here out') s (ref_chain stop ev es \<rho> w))"
proof (induction es arbitrary: out jumps0 rule: induct_list012)
  case (2 e)
  then have "cmp e scope tail out = Some out'" "jumps = jumps0" by auto
  with sub [of e scope tail out out'] 2(3) show ?case
    unfolding implements_def slots_fit_def by (auto intro!: exI [of _ "[]"])
next
  case (3 e e' es)
  then obtain out1 where out1: "cmp e scope False out = Some out1"
    "compile_chain cmp exit (e' # es) scope tail (jumps0 @ [here out1]) (emit Pop (emit (exit 0) out1)) = Some (jumps, out')"
    by (auto split: bind_splits)
  from sub [OF out1(1)] 3(5) obtain c where c: "cc_code out1 = cc_code out @ c" "cc_local_count out \<le> cc_local_count out1"
    "\<And>P L \<rho> s w. segment P (here out) c \<Longrightarrow> cc_local_count out1 \<le> length L \<Longrightarrow> in_scope scope \<rho> L \<Longrightarrow>
      behaves host P False (cs_next_slot scope) (\<not> lets e) (vm (here out) s L) w (here out1) s (ev e \<rho> w)"
    unfolding implements_def slots_fit_def by auto
  have l1: "here out1 = here out + length c" by (rule here_append [OF c(1)])
  from 3(2) [OF out1(2)] 3(5) obtain js C where C: "jumps = jumps0 @ here out1 # js" "cc_local_count out1 \<le> cc_local_count out'"
    "cc_code out' = cc_code out1 @ [exit 0, Pop] @ C 0" "\<forall>i. length (C i) = length (C 0)"
    "\<And>o1 pre. cc_code o1 = pre @ C 0 \<Longrightarrow> length pre = Suc (Suc (here out1)) \<Longrightarrow> cc_code (fold patch js o1) = pre @ C (here o1)"
    "\<And>P L \<rho> s w. segment P (Suc (Suc (here out1))) (C (here out')) \<Longrightarrow> cc_local_count out' \<le> length L \<Longrightarrow> in_scope scope \<rho> L \<Longrightarrow>
      behaves host P tail (cs_next_slot scope) (\<not> list_ex lets (e' # es)) (vm (Suc (Suc (here out1))) s L) w (here out') s
        (ref_chain stop ev (e' # es) \<rho> w)"
    by auto
  have l': "here out1 < here out'" using C(3) by (simp add: here_def)
  let ?C = "\<lambda>i. c @ [exit i, Pop] @ C i"
  have "cc_code (fold patch (here out1 # js) o1) = pre @ ?C (here o1)"
    if "cc_code o1 = pre @ ?C 0" "length pre = here out" for o1 pre
  proof -
    have "cc_code (patch (here out1) o1) = (pre @ c @ [exit (here o1), Pop]) @ C 0"
      using patch_code [of o1 "pre @ c" "exit 0" "Pop # C 0"] that l1 assms(1) by simp
    from C(5) [OF this] show ?thesis using that(2) l1 by simp
  qed
  moreover have "behaves host P tail (cs_next_slot scope) (\<not> list_ex lets (e # e' # es)) (vm (here out) s L) w (here out') s
      (ref_chain stop ev (e # e' # es) \<rho> w)"
    if P: "segment P (here out) (?C (here out'))" and L: "cc_local_count out' \<le> length L" "in_scope scope \<rho> L" for P L \<rho> s w
  proof -
    have P': "segment P (here out) c" "here out1 < length P" "P ! here out1 = exit (here out')"
      "Suc (here out1) < length P" "P ! Suc (here out1) = Pop" "segment P (Suc (Suc (here out1))) (C (here out'))"
      using P l1 by auto
    have "behaves host P False (cs_next_slot scope) (\<not> lets e) (vm (here out) s L) w (here out1) s (ev e \<rho> w)"
      using c(3) [OF P'(1) _ L(2)] L(1) C(2) by simp
    then have "behaves host P tail (cs_next_slot scope) (\<not> list_ex lets (e # e' # es)) (vm (here out) s L) w (here out') s
        (ebind (ev e \<rho> w) (\<lambda>v w. if stop v then (Inr v, w) else ref_chain stop ev (e' # es) \<rho> w))"
    proof (rule behaves_bind [where kb = "\<not> list_ex lets (e' # es)"])
      fix v w1 L1 assume "same_below (cs_next_slot scope) (\<not> lets e) (vm_locals (vm (here out) s L)) L1"
      then have L1: "cc_local_count out' \<le> length L1" "in_scope scope \<rho> L1"
        using in_scope_same [OF L(2)] L(1) by (auto simp: same_below_def)
      have run: "runs_to host P (vm (here out1) (v # s) L1) w1 (vm (if stop v then here out' else Suc (here out1)) (v # s) L1) w1"
        using P'(2,3) step l' by (intro runs_one) simp_all
      have "runs_to host P (vm (Suc (here out1)) (v # s) L1) w1 (vm (Suc (Suc (here out1))) s L1) w1"
        using P'(4,5) by (intro runs_one) simp_all
      then have rest: "behaves host P tail (cs_next_slot scope) (\<not> list_ex lets (e' # es)) (vm (Suc (here out1)) (v # s) L1) w1
          (here out') s (ref_chain stop ev (e' # es) \<rho> w1)"
        by (rule runs_behaves_same [OF _ _ C(6) [OF P'(6) L1]]) simp_all
      show "behaves host P tail (cs_next_slot scope) (\<not> list_ex lets (e' # es)) (vm (here out1) (v # s) L1) w1 (here out') s
          (if stop v then (Inr v, w1) else ref_chain stop ev (e' # es) \<rho> w1)"
      proof (cases "stop v")
        case True
        then show ?thesis using behaves_now [of host P "vm (here out1) (v # s) L1" w1 "here out'" v s w1] run by simp
      next
        case False
        then show ?thesis using runs_behaves_same [OF run _ _ imp_refl] rest by simp
      qed
    qed simp
    then show ?thesis by simp
  qed
  ultimately show ?case using c(1,2) C(1-4)
    by (intro exI [of _ "here out1 # js"] exI [of _ ?C]) (auto intro: order_trans)
qed simp



lemma chain_implements:
  assumes "\<And>i j. with_index i (exit j) = exit i"
    and "\<And>i t v s L w. vm_step host (exit t) (vm i (v # s) L) w = (Inr (vm (if stop v then t else Suc i) (v # s) L), w)"
    and "map_option (\<lambda>(jumps, out). fold patch jumps out) (compile_chain cmp exit args scope tail [] out) = Some out'"
    and "args \<noteq> []" "list_all safe args"
  shows "implements host scope tail (\<not> list_ex lets args) out out' (ref_chain stop ev args)"
proof -
  from assms(3) obtain jumps out1 where out1: "compile_chain cmp exit args scope tail [] out = Some (jumps, out1)"
    "out' = fold patch jumps out1" by auto
  from chain_code [OF assms(1,2) out1(1) assms(4,5)] obtain C where C: "cc_local_count out \<le> cc_local_count out1"
    "cc_code out1 = cc_code out @ C 0" "\<And>i. length (C i) = length (C 0)"
    "cc_code out' = cc_code out @ C (here out1)"
    "\<And>P L \<rho> s w. segment P (here out) (C (here out1)) \<Longrightarrow> cc_local_count out1 \<le> length L \<Longrightarrow> in_scope scope \<rho> L \<Longrightarrow>
      behaves host P tail (cs_next_slot scope) (\<not> list_ex lets args) (vm (here out) s L) w (here out1) s (ref_chain stop ev args \<rho> w)"
    using out1(2) by (fastforce simp: here_def)
  have patched: "cc_local_count (fold patch js o1) = cc_local_count o1" "here (fold patch js o1) = here o1" for js o1
    by (induction js arbitrary: o1) simp_all
  show ?thesis unfolding implements_def slots_fit_def
    using C patched [of jumps out1] out1(2) by (intro exI [of _ "C (here out1)"]) auto
qed

text \<open>Arguments: all values are on the stack, the last on top.\<close>

lemma items_push:
  "compile_operands cmp es scope out = Some out' \<Longrightarrow> list_all safe es \<Longrightarrow>
    slots_fit scope out out' (\<lambda>P L \<rho>. \<forall>s w.
      case ref_args ev es \<rho> w of
        (Inl e, w') \<Rightarrow> answers host P (vm (here out) s L) w (Inl e, w')
      | (Inr vs, w') \<Rightarrow>
          delivers host P (cs_next_slot scope) (\<not> list_ex lets es) (vm (here out) s L) w (here out') (rev vs @ s) w')"
proof (induction es arbitrary: out)
  case Nil
  then show ?case unfolding slots_fit_def
    by (intro exI [of _ "[]"]) (auto simp: delivers_def intro: runs_refl same_below_refl)
next
  case (Cons e es)
  then obtain out1 where out1: "cmp e scope False out = Some out1" "compile_operands cmp es scope out1 = Some out'"
    by (auto split: bind_splits)
  have safe: "safe e" "list_all safe es" using Cons.prems(2) by simp_all
  show ?case
  proof (rule fits_trans [OF sub [OF out1(1) safe(1), unfolded implements_def] Cons.IH [OF out1(2) safe(2)]], intro allI)
    fix P L \<rho> s w
    assume L: "in_scope scope \<rho> L"
      and 1: "\<forall>s w. behaves host P False (cs_next_slot scope) (\<not> lets e) (vm (here out) s L) w (here out1) s (ev e \<rho> w)"
      and 2: "\<And>L' \<rho>'. length L' = length L \<Longrightarrow> in_scope scope \<rho>' L' \<Longrightarrow> \<forall>s w.
        case ref_args ev es \<rho>' w of
          (Inl e, w') \<Rightarrow> answers host P (vm (here out1) s L') w (Inl e, w')
        | (Inr vs, w') \<Rightarrow>
            delivers host P (cs_next_slot scope) (\<not> list_ex lets es) (vm (here out1) s L') w (here out') (rev vs @ s) w'"
    show "case ref_args ev (e # es) \<rho> w of
        (Inl e, w') \<Rightarrow> answers host P (vm (here out) s L) w (Inl e, w')
      | (Inr vs, w') \<Rightarrow>
          delivers host P (cs_next_slot scope) (\<not> list_ex lets (e # es)) (vm (here out) s L) w (here out') (rev vs @ s) w'"
    proof (cases "ev e \<rho> w")
      case (Pair r w1)
      show ?thesis
      proof (cases r)
        case (Inl x)
        then show ?thesis using 1 [rule_format, of s w] Pair by (simp add: behaves_def ebind_def)
      next
        case (Inr v)
        then obtain L1 where L1: "runs_to host P (vm (here out) s L) w (vm (here out1) (v # s) L1) w1"
          "same_below (cs_next_slot scope) (\<not> lets e) L L1"
          using 1 [rule_format, of s w] Pair by (auto simp: behaves_def delivers_def)
        then have "length L1 = length L" "in_scope scope \<rho> L1" using in_scope_same [OF L] by (auto simp: same_below_def)
        note rest = 2 [OF this, rule_format, of "v # s" w1]
        show ?thesis
        proof (cases "ref_args ev es \<rho> w1")
          case (Pair r2 w2)
          show ?thesis
          proof (cases r2)
            case (Inl x)
            then show ?thesis using rest runs_answers [OF L1(1)] Inr Pair \<open>ev e \<rho> w = (r, w1)\<close> by (simp add: ebind_def)
          next
            case (Inr vs)
            have "delivers host P (cs_next_slot scope) (\<not> list_ex lets (e # es)) (vm (here out) s L) w (here out') (rev vs @ v # s) w2"
              by (rule runs_delivers [OF L1(1), where ka = "\<not> lets e" and kb = "\<not> list_ex lets es"])
                (use rest L1(2) Pair Inr in auto)
            then show ?thesis using \<open>r = Inr v\<close> Inr Pair \<open>ev e \<rho> w = (r, w1)\<close>
              by (simp add: ebind_def)
          qed
        qed
      qed
    qed
  qed
qed

lemma ref_args_length: "ref_args ev es \<rho> w = (Inr vs, w') \<Longrightarrow> length vs = length es"
proof (induction es arbitrary: w vs)
  case (Cons e es)
  then show ?case by (auto simp: ebind_def split: prod.splits sum.splits)
qed simp

lemma call_step:
  assumes P: "i < length P" "P ! i = (if tail then Tail_call (length args) else Call (length args))"
  shows "behaves host P tail n keep (vm i (rev (f # args) @ s) L) w (Suc i) s (mh_invoke host f args w)"
proof -
  have pop: "pop_call (length args) (rev (f # args) @ s) = Some (f, args, s)"
    by (simp add: pop_call_def nth_append)
  let ?m = "vm i (rev (f # args) @ s) L"
  show ?thesis
  proof (cases "tail \<and> mh_compiled host f w")
    case True
    then have "frame_ends host P ?m w (Frame_tail f args) w" using P pop by (intro ends_one) simp_all
    then have "answers host P ?m w (mh_invoke host f args w)"
      unfolding answers_def frame_result_def by (metis frame_end.simps(11))
    then show ?thesis using True by (simp add: behaves_def split: sum.splits)
  next
    case False
    show ?thesis
    proof (cases "mh_invoke host f args w")
      case (Pair r w')
      show ?thesis
      proof (cases r)
        case (Inl e)
        then have "frame_ends host P ?m w (Frame_throw e) w'" using P pop Pair False by (intro ends_one) auto
        then show ?thesis using throws_answers Inl Pair by (simp add: behaves_def)
      next
        case (Inr v)
        show ?thesis
        proof (cases tail)
          case True
          then have "frame_ends host P ?m w (Frame_return v) w'" using P pop Pair False Inr by (intro ends_one) auto
          then have "answers host P ?m w (Inr v, w')" unfolding answers_def frame_result_def by (metis frame_end.simps(10))
          then show ?thesis using True Inr Pair by (simp add: behaves_def)
        next
          case notail: False
          have "runs_to host P ?m w (vm (Suc i) (v # s) L) w'"
            using P pop Pair notail Inr by (intro runs_one) (simp_all add: push_def)
          then show ?thesis using behaves_now [of host P ?m w "Suc i" v s w'] Inr Pair by simp
        qed
      qed
    qed
  qed
qed

lemma call_implements:
  assumes "compile_call_form cmp items scope tail out = Some out'" "list_all safe items"
  shows "implements host scope tail (\<not> list_ex lets items) out out' (ref_call host ev items)"
proof -
  let ?i = "if tail then Tail_call (length items - 1) else Call (length items - 1)"
  from assms(1) obtain out1 where out1: "items \<noteq> []" "compile_operands cmp items scope out = Some out1" "out' = emit ?i out1"
    by (auto simp: compile_call_form_def split: if_splits)
  have one: "slots_fit scope out1 out' (\<lambda>P L \<rho>. here out1 < length P \<and> P ! here out1 = ?i)"
    unfolding slots_fit_def by (intro exI [of _ "[?i]"]) (auto simp: out1(3))
  show ?thesis unfolding implements_def
  proof (rule fits_trans [OF items_push [OF out1(2) assms(2)] one], intro allI)
    fix P L \<rho> s w
    assume L: "in_scope scope \<rho> L"
      and 1: "\<forall>s w. case ref_args ev items \<rho> w of
        (Inl e, w') \<Rightarrow> answers host P (vm (here out) s L) w (Inl e, w')
      | (Inr vs, w') \<Rightarrow>
          delivers host P (cs_next_slot scope) (\<not> list_ex lets items) (vm (here out) s L) w (here out1) (rev vs @ s) w'"
      and 2: "\<And>L' \<rho>'. length L' = length L \<Longrightarrow> in_scope scope \<rho>' L' \<Longrightarrow> here out1 < length P \<and> P ! here out1 = ?i"
    have P: "here out1 < length P" "P ! here out1 = ?i" using 2 [OF refl L] by simp_all
    show "behaves host P tail (cs_next_slot scope) (\<not> list_ex lets items) (vm (here out) s L) w (here out') s
        (ref_call host ev items \<rho> w)"
    proof (cases "ref_args ev items \<rho> w")
      case (Pair r w1)
      show ?thesis
      proof (cases r)
        case (Inl e)
        then show ?thesis using 1 [rule_format, of s w] Pair by (simp add: ref_call_def ebind_def behaves_def)
      next
        case (Inr vs)
        then have "length vs = length items" using ref_args_length Pair by blast
        then obtain f args where vs: "vs = f # args" "length items = Suc (length args)" using out1(1) by (cases vs) auto
        obtain L1 where L1: "runs_to host P (vm (here out) s L) w (vm (here out1) (rev vs @ s) L1) w1"
          "same_below (cs_next_slot scope) (\<not> list_ex lets items) L L1"
          using 1 [rule_format, of s w] Inr Pair by (auto simp: delivers_def)
        have "behaves host P tail (cs_next_slot scope) True (vm (here out1) (rev (f # args) @ s) L1) w1 (Suc (here out1)) s
            (mh_invoke host f args w1)"
          by (rule call_step) (use P vs(2) in auto)
        then show ?thesis
          using runs_behaves [OF L1(1), of "cs_next_slot scope" "\<not> list_ex lets items" tail True] L1(2) vs(1) Inr Pair out1(3)
          by (simp add: ref_call_def ebind_def)
      qed
    qed
  qed
qed

text \<open>Initialisers without a \<open>let\<close> store their values in consecutive slots and change nothing else.\<close>

definition store_all :: "nat \<Rightarrow> lisp_value list \<Rightarrow> lisp_value list \<Rightarrow> lisp_value list" where
  "store_all i vs L = take i L @ vs @ drop (i + length vs) L"

lemma store_all_simps:
  "i \<le> length L \<Longrightarrow> store_all i [] L = L"
  "i < length L \<Longrightarrow> store_all (Suc i) vs (L[i := v]) = store_all i (v # vs) L"
  by (simp_all add: store_all_def take_Suc_conv_app_nth drop_update_cancel)

lemma store_all_facts:
  assumes "i + length vs \<le> length L"
  shows "length (store_all i vs L) = length L" "j < i \<Longrightarrow> store_all i vs L ! j = L ! j"
    "j < length vs \<Longrightarrow> store_all i vs L ! (i + j) = vs ! j"
  using assms by (simp_all add: store_all_def nth_append)

definition stores :: "compiled_instruction list \<Rightarrow> machine \<Rightarrow> 'w \<Rightarrow> nat \<Rightarrow> nat \<Rightarrow> (lisp_value list, 'w) lisp_result \<Rightarrow> bool" where
  "stores P m w j slot res =
     (case res of
        (Inl e, w') \<Rightarrow> answers host P m w (Inl e, w')
      | (Inr vs, w') \<Rightarrow> runs_to host P m w (vm j (vm_stack m) (store_all slot vs (vm_locals m))) w')"

lemma store_step:
  "i < length P \<Longrightarrow> P ! i = Store_local slot \<Longrightarrow> slot < length L \<Longrightarrow>
    runs_to host P (vm i (v # s) L) w (vm (Suc i) s (L[slot := v])) w"
  by (intro runs_one) auto

lemma inits_store:
  "compile_inits cmp es slot scope out = Some out' \<Longrightarrow> list_all safe es \<Longrightarrow> \<not> list_ex lets es \<Longrightarrow> cs_next_slot scope \<le> slot \<Longrightarrow>
    slots_fit scope out out' (\<lambda>P L \<rho>. slot + length es \<le> length L \<longrightarrow>
      (\<forall>s w. stores P (vm (here out) s L) w (here out') slot (ref_args ev es \<rho> w)))"
proof (induction es arbitrary: out slot)
  case Nil
  then show ?case unfolding slots_fit_def
    by (intro exI [of _ "[]"]) (auto simp: stores_def store_all_simps intro: runs_refl)
next
  case (Cons e es)
  then obtain out1 where out1: "cmp e scope False out = Some out1"
    "compile_inits cmp es (Suc slot) scope (emit (Store_local slot) out1) = Some out'"
    by (auto split: bind_splits)
  have safe: "safe e" "list_all safe es" "\<not> lets e" "\<not> list_ex lets es" "cs_next_slot scope \<le> Suc slot" using Cons.prems by simp_all
  let ?out2 = "emit (Store_local slot) out1"
  have one: "slots_fit scope out ?out2 (\<lambda>P L \<rho>. here out1 < length P \<and> P ! here out1 = Store_local slot \<and>
      (\<forall>s w. behaves host P False (cs_next_slot scope) True (vm (here out) s L) w (here out1) s (ev e \<rho> w)))"
  proof -
    from sub [OF out1(1) safe(1)] safe(3) obtain c where c: "cc_code out1 = cc_code out @ c" "cc_local_count out \<le> cc_local_count out1"
      "\<And>P L \<rho> s w. segment P (here out) c \<Longrightarrow> cc_local_count out1 \<le> length L \<Longrightarrow> in_scope scope \<rho> L \<Longrightarrow>
        behaves host P False (cs_next_slot scope) True (vm (here out) s L) w (here out1) s (ev e \<rho> w)"
      unfolding implements_def slots_fit_def by auto
    then show ?thesis unfolding slots_fit_def using here_append [OF c(1)]
      by (intro exI [of _ "c @ [Store_local slot]"]) auto
  qed
  show ?case
  proof (rule fits_trans [OF one Cons.IH [OF out1(2) safe(2,4,5)]], intro impI allI)
    fix P L \<rho> s w
    assume L: "in_scope scope \<rho> L" and len: "slot + length (e # es) \<le> length L"
      and 1: "here out1 < length P \<and> P ! here out1 = Store_local slot \<and>
        (\<forall>s w. behaves host P False (cs_next_slot scope) True (vm (here out) s L) w (here out1) s (ev e \<rho> w))"
      and 2: "\<And>L' \<rho>'. length L' = length L \<Longrightarrow> in_scope scope \<rho>' L' \<Longrightarrow> Suc slot + length es \<le> length L' \<longrightarrow>
        (\<forall>s w. stores P (vm (here ?out2) s L') w (here out') (Suc slot) (ref_args ev es \<rho>' w))"
    show "stores P (vm (here out) s L) w (here out') slot (ref_args ev (e # es) \<rho> w)"
    proof (cases "ev e \<rho> w")
      case (Pair r w1)
      show ?thesis
      proof (cases r)
        case (Inl x)
        then show ?thesis
          using 1 [THEN conjunct2, THEN conjunct2, rule_format, of s w] Pair by (simp add: behaves_def ebind_def stores_def)
      next
        case (Inr v)
        then have "runs_to host P (vm (here out) s L) w (vm (here out1) (v # s) L) w1"
          using 1 [THEN conjunct2, THEN conjunct2, rule_format, of s w] Pair by (auto simp: behaves_def delivers_def same_below_def)
        then have run: "runs_to host P (vm (here out) s L) w (vm (Suc (here out1)) s (L[slot := v])) w1"
          using runs_trans store_step 1 len by fastforce
        have "in_scope scope \<rho> (L[slot := v])"
          by (rule in_scope_same [OF L, of False]) (use Cons.prems(4) in \<open>auto simp: same_below_def\<close>)
        then have rest: "stores P (vm (Suc (here out1)) s (L[slot := v])) w1 (here out') (Suc slot) (ref_args ev es \<rho> w1)"
          using 2 [of "L[slot := v]" \<rho>] len by simp
        have "slot < length L" using len by simp
        then show ?thesis
          using rest runs_answers [OF run] runs_trans [OF run] store_all_simps(2) Pair Inr
          by (auto simp: stores_def ebind_def split: prod.splits sum.splits)
      qed
    qed
  qed
qed

definition binds :: "compiled_instruction list \<Rightarrow> nat \<Rightarrow> machine \<Rightarrow> 'w \<Rightarrow> nat \<Rightarrow> (lisp_value list, 'w) lisp_result \<Rightarrow> bool" where
  "binds P n m w j res =
     (case res of
        (Inl e, w') \<Rightarrow> answers host P m w (Inl e, w')
      | (Inr vs, w') \<Rightarrow>
          \<exists>L. runs_to host P m w (vm j (vm_stack m) L) w' \<and> same_below n False (vm_locals m) L \<and>
            (\<forall>i < length vs. L ! (n + i) = vs ! i))"

lemma stores_binds:
  assumes "stores P m w j n res" "\<And>vs w'. res = (Inr vs, w') \<Longrightarrow> n + length vs \<le> length (vm_locals m)"
  shows "binds P n m w j res"
proof (cases res)
  case (Pair r w')
  show ?thesis
  proof (cases r)
    case (Inl e)
    then show ?thesis using assms(1) Pair by (simp add: stores_def binds_def)
  next
    case (Inr vs)
    then have len: "n + length vs \<le> length (vm_locals m)" using assms(2) Pair by blast
    show ?thesis using assms(1) Pair Inr store_all_facts [OF len]
      by (auto simp: stores_def binds_def same_below_def intro!: exI [of _ "store_all n vs (vm_locals m)"])
  qed
qed

lemma binds_Cons:
  assumes run: "runs_to host P m w m1 w1" and m1: "vm_stack m1 = vm_stack m" "same_below n False (vm_locals m) (vm_locals m1)"
    "vm_locals m1 ! n = v" and rest: "binds P (Suc n) m1 w1 j res"
  shows "binds P n m w j (ebind res (\<lambda>vs w. (Inr (v # vs), w)))"
proof (cases res)
  case (Pair r w')
  show ?thesis
  proof (cases r)
    case (Inl e)
    then show ?thesis using rest runs_answers [OF run] Pair by (simp add: binds_def ebind_def)
  next
    case (Inr vs)
    then obtain L where L: "runs_to host P m1 w1 (vm j (vm_stack m) L) w'" "same_below (Suc n) False (vm_locals m1) L"
      "\<forall>i < length vs. L ! (Suc n + i) = vs ! i"
      using rest Pair m1(1) by (auto simp: binds_def)
    have "same_below n False (vm_locals m) L" using m1(2) L(2) by (auto simp: same_below_def)
    moreover have "\<forall>i < length (v # vs). L ! (n + i) = (v # vs) ! i"
      using L(2,3) m1(3) by (auto simp: same_below_def nth_Cons split: nat.splits)
    ultimately show ?thesis using runs_trans [OF run L(1)] Pair Inr by (auto simp: binds_def ebind_def)
  qed
qed

lemma inits_bind:
  assumes "compile_inits cmp es (cs_next_slot scope) scope out = Some out'" "list_all safe es" "\<not> list_ex lets (drop 1 es)"
  shows "slots_fit scope out out' (\<lambda>P L \<rho>. cs_next_slot scope + length es \<le> length L \<longrightarrow>
    (\<forall>s w. binds P (cs_next_slot scope) (vm (here out) s L) w (here out') (ref_args ev es \<rho> w)))"
proof (cases es)
  case Nil
  then show ?thesis using assms(1) unfolding slots_fit_def
    by (intro exI [of _ "[]"]) (auto simp: binds_def intro!: exI [of _ "_ :: lisp_value list"] runs_refl)
next
  case (Cons e es')
  let ?n = "cs_next_slot scope"
  from assms(1) Cons obtain out1 where out1: "cmp e scope False out = Some out1"
    "compile_inits cmp es' (Suc ?n) scope (emit (Store_local ?n) out1) = Some out'"
    by (auto split: bind_splits)
  have safe: "safe e" "list_all safe es'" "\<not> list_ex lets es'" using assms(2,3) Cons by simp_all
  let ?out2 = "emit (Store_local ?n) out1"
  have one: "slots_fit scope out ?out2 (\<lambda>P L \<rho>. here out1 < length P \<and> P ! here out1 = Store_local ?n \<and>
      (\<forall>s w. behaves host P False ?n (\<not> lets e) (vm (here out) s L) w (here out1) s (ev e \<rho> w)))"
  proof -
    from sub [OF out1(1) safe(1)] obtain c where c: "cc_code out1 = cc_code out @ c" "cc_local_count out \<le> cc_local_count out1"
      "\<And>P L \<rho> s w. segment P (here out) c \<Longrightarrow> cc_local_count out1 \<le> length L \<Longrightarrow> in_scope scope \<rho> L \<Longrightarrow>
        behaves host P False ?n (\<not> lets e) (vm (here out) s L) w (here out1) s (ev e \<rho> w)"
      unfolding implements_def slots_fit_def by auto
    then show ?thesis unfolding slots_fit_def using here_append [OF c(1)]
      by (intro exI [of _ "c @ [Store_local ?n]"]) auto
  qed
  show ?thesis
  proof (rule fits_trans [OF one inits_store [OF out1(2) safe(2,3)]], simp, intro impI allI)
    fix P L \<rho> s w
    assume L: "in_scope scope \<rho> L" and len: "?n + length es \<le> length L"
      and 1: "here out1 < length P \<and> P ! here out1 = Store_local ?n \<and>
        (\<forall>s w. behaves host P False ?n (\<not> lets e) (vm (here out) s L) w (here out1) s (ev e \<rho> w))"
      and 2: "\<And>L' \<rho>'. length L' = length L \<Longrightarrow> in_scope scope \<rho>' L' \<Longrightarrow> Suc ?n + length es' \<le> length L' \<longrightarrow>
        (\<forall>s w. stores P (vm (here ?out2) s L') w (here out') (Suc ?n) (ref_args ev es' \<rho>' w))"
    show "binds P ?n (vm (here out) s L) w (here out') (ref_args ev es \<rho> w)"
    proof (cases "ev e \<rho> w")
      case (Pair r w1)
      show ?thesis
      proof (cases r)
        case (Inl x)
        then show ?thesis
          using 1 [THEN conjunct2, THEN conjunct2, rule_format, of s w] Pair Cons by (simp add: behaves_def ebind_def binds_def)
      next
        case (Inr v)
        then obtain L1 where L1: "runs_to host P (vm (here out) s L) w (vm (here out1) (v # s) L1) w1" "same_below ?n False L L1"
          using 1 [THEN conjunct2, THEN conjunct2, rule_format, of s w] Pair same_below_mono
          by (fastforce simp: behaves_def delivers_def)
        have len1: "length L1 = length L" "?n < length L1" using L1(2) len Cons by (auto simp: same_below_def)
        have run: "runs_to host P (vm (here out) s L) w (vm (Suc (here out1)) s (L1[?n := v])) w1"
          by (rule runs_trans [OF L1(1) store_step]) (use 1 len1 in auto)
        have same: "same_below ?n False L (L1[?n := v])" using L1(2) by (auto simp: same_below_def)
        have "stores P (vm (Suc (here out1)) s (L1[?n := v])) w1 (here out') (Suc ?n) (ref_args ev es' \<rho> w1)"
          using 2 [of "L1[?n := v]" \<rho>] in_scope_same [OF L same] len len1 Cons by simp
        then have "binds P (Suc ?n) (vm (Suc (here out1)) s (L1[?n := v])) w1 (here out') (ref_args ev es' \<rho> w1)"
          by (rule stores_binds) (use len len1 Cons ref_args_length in fastforce)
        from binds_Cons [OF run _ _ _ this, of v] show ?thesis
          using Pair Inr Cons same len1 by (simp add: ebind_def [of "(Inr v, w1)"])
      qed
    qed
  qed
qed

lemma fits_widen:
  "slots_fit scope out1 out' post \<Longrightarrow> cc_code out1 = cc_code out \<Longrightarrow> cc_local_count out \<le> cc_local_count out1 \<Longrightarrow>
    slots_fit scope out out' post"
  unfolding slots_fit_def here_def by (metis order_trans)

lemma fits_count: "slots_fit scope out out' post \<Longrightarrow> cc_local_count out \<le> cc_local_count out'"
  by (auto simp: slots_fit_def)

lemma let_implements:
  assumes "compile_let_form cmp args scope tail out = Some out'"
    and safe: "list_all safe (let_inits args)" "\<not> list_ex lets (drop 1 (let_inits args))" "list_all safe (drop 1 args)"
  shows "implements host scope tail False out out' (ref_let ev args)"
proof -
  let ?n = "cs_next_slot scope"
  from assms(1) obtain vs bs where bs: "vector_from_list (args ! 0) = Inr vs" "let_bindings vs = Some bs"
    by (auto simp: compile_let_form_def split: if_splits sum.splits bind_splits)
  let ?body = "fold bind_slot (map fst bs) scope"
  let ?out0 = "out\<lparr>cc_local_count := max (cs_next_slot ?body) (cc_local_count out)\<rparr>"
  from assms(1) bs obtain out1 where out1: "compile_inits cmp (map snd bs) ?n scope ?out0 = Some out1"
    "compile_sequence cmp (drop 1 args) ?body tail out1 = Some out'"
    by (auto simp: compile_let_form_def Let_def split: if_splits sum.splits bind_splits)
  have inits: "let_inits args = map snd bs" using bs by (simp add: let_inits_def)
  have ref: "ref_let ev args = (\<lambda>\<rho> w. ebind (ref_args ev (map snd bs) \<rho> w)
      (\<lambda>vs. ref_sequence ev (drop 1 args) (\<rho>(map fst bs [\<mapsto>] vs))))"
    using bs by (simp add: ref_let_def fun_eq_iff)
  have first: "slots_fit scope ?out0 out1 (\<lambda>P L \<rho>. ?n + length (map snd bs) \<le> length L \<longrightarrow>
    (\<forall>s w. binds P ?n (vm (here ?out0) s L) w (here out1) (ref_args ev (map snd bs) \<rho> w)))"
    by (rule inits_bind [OF out1(1)]) (use safe inits in auto)
  have "implements host ?body tail (\<not> list_ex lets (drop 1 args)) out1 out' (ref_sequence ev (drop 1 args))"
    by (rule sequence_implements [OF out1(2) safe(3)])
  then have body: "slots_fit ?body out1 out' (\<lambda>P L \<rho>. \<forall>s w. behaves host P tail (cs_next_slot ?body) (\<not> list_ex lets (drop 1 args))
      (vm (here out1) s L) w (here out') s (ref_sequence ev (drop 1 args) \<rho> w))"
    by (simp add: implements_def)
  have slots: "?n + length bs \<le> cc_local_count out'"
    using fits_count [OF first] fits_count [OF body] by simp
  have here0: "here ?out0 = here out" by (simp add: here_def)
  have "slots_fit scope ?out0 out' (\<lambda>P L \<rho>. \<forall>s w.
      behaves host P tail ?n False (vm (here out) s L) w (here out') s (ref_let ev args \<rho> w))"
  proof (rule fits_trans [OF first body], intro allI)
    fix P L \<rho> s w
    assume len: "cc_local_count out' \<le> length L" and L: "in_scope scope \<rho> L"
      and 1: "?n + length (map snd bs) \<le> length L \<longrightarrow>
        (\<forall>s w. binds P ?n (vm (here ?out0) s L) w (here out1) (ref_args ev (map snd bs) \<rho> w))"
      and 2: "\<And>L' \<rho>'. length L' = length L \<Longrightarrow> in_scope ?body \<rho>' L' \<Longrightarrow>
        \<forall>s w. behaves host P tail (cs_next_slot ?body) (\<not> list_ex lets (drop 1 args)) (vm (here out1) s L') w (here out') s
          (ref_sequence ev (drop 1 args) \<rho>' w)"
    have b: "binds P ?n (vm (here out) s L) w (here out1) (ref_args ev (map snd bs) \<rho> w)"
      using 1 slots len here0 by simp
    show "behaves host P tail ?n False (vm (here out) s L) w (here out') s (ref_let ev args \<rho> w)"
    proof (cases "ref_args ev (map snd bs) \<rho> w")
      case (Pair r w1)
      show ?thesis
      proof (cases r)
        case (Inl e)
        then show ?thesis using b Pair by (simp add: binds_def behaves_def ref ebind_def)
      next
        case (Inr us)
        then have lu: "length us = length bs" using ref_args_length Pair by fastforce
        obtain L1 where L1: "runs_to host P (vm (here out) s L) w (vm (here out1) s L1) w1" "same_below ?n False L L1"
          "\<forall>i < length us. L1 ! (?n + i) = us ! i"
          using b Pair Inr by (auto simp: binds_def)
        have "length L1 = length L" using L1(2) by (simp add: same_below_def)
        moreover have "in_scope ?body (\<rho>(map fst bs [\<mapsto>] us)) L1"
          by (rule in_scope_binds [OF in_scope_same [OF L L1(2)]]) (use lu L1(3) calculation slots len in auto)
        ultimately have "behaves host P tail (cs_next_slot ?body) (\<not> list_ex lets (drop 1 args)) (vm (here out1) s L1) w1 (here out') s
            (ref_sequence ev (drop 1 args) (\<rho>(map fst bs [\<mapsto>] us)) w1)"
          using 2 by blast
        then have "behaves host P tail ?n False (vm (here out1) s L1) w1 (here out') s
            (ref_sequence ev (drop 1 args) (\<rho>(map fst bs [\<mapsto>] us)) w1)"
          by (rule behaves_weaken) simp_all
        from runs_behaves [OF L1(1) _ this, of False False] show ?thesis
          using L1(2) Pair Inr by (simp add: ref ebind_def)
      qed
    qed
  qed
  then have "slots_fit scope out out' (\<lambda>P L \<rho>. \<forall>s w.
      behaves host P tail ?n False (vm (here out) s L) w (here out') s (ref_let ev args \<rho> w))"
    by (rule fits_widen) simp_all
  then show ?thesis by (simp add: implements_def)
qed

lemma list_implements:
  assumes "compile_list_form cmp expr scope tail out = Some out'" "vector_from_list expr = Inr (head # args)"
    and safe: "head = VSym ''quote'' \<or>
      (if head = VSym ''let''
       then list_all safe (let_inits args) \<and> list_all (\<lambda>e. \<not> lets e) (drop 1 (let_inits args)) \<and> list_all safe (drop 1 args)
       else list_all safe (head # args))"
    and keep: "keep \<longrightarrow> head = VSym ''quote'' \<or> head \<noteq> VSym ''let'' \<and> \<not> list_ex lets (head # args)"
  shows "implements host scope tail keep out out' (ref_list host ev expr)"
proof -
  note comp = assms(1) [unfolded compile_list_form_def assms(2) is_symbol_named_def, simplified]
  have ref: "ref_list host ev expr = (\<lambda>\<rho> w. ref_list host ev expr \<rho> w)" by simp
  have weak: "implements host scope tail keep out out' sem"
    if "implements host scope tail (\<not> list_ex lets args) out out' sem" "head \<noteq> VSym ''quote''" for sem
    using implements_weaken [OF that(1)] keep that(2) by simp
  consider (quote) "head = VSym ''quote''" | (if_form) "head = VSym ''if''" | (begin_form) "head = VSym ''begin''"
    | (let_form) "head = VSym ''let''" | (and_form) "head = VSym ''and''" | (or_form) "head = VSym ''or''"
    | (call) "head \<notin> VSym ` set [''quote'', ''if'', ''begin'', ''let'', ''and'', ''or'']" by auto
  then show ?thesis
  proof cases
    case quote
    then have "ref_list host ev expr = (\<lambda>\<rho> w. (Inr (args ! 0), w))"
      using assms(2) by (simp add: ref_list_def fun_eq_iff)
    then show ?thesis using comp quote implements_const by (auto split: if_splits)
  next
    case if_form
    then have "ref_list host ev expr = ref_if ev args" using assms(2) by (simp add: ref_list_def fun_eq_iff)
    then show ?thesis using weak if_implements [of args scope tail out out'] comp if_form safe by simp
  next
    case begin_form
    then have "ref_list host ev expr = ref_sequence ev args" using assms(2) by (simp add: ref_list_def fun_eq_iff)
    then show ?thesis using weak sequence_implements [of args scope tail out out'] comp begin_form safe by simp
  next
    case let_form
    then have "ref_list host ev expr = ref_let ev args" using assms(2) by (simp add: ref_list_def fun_eq_iff)
    then show ?thesis
      using let_implements [of args scope tail out out'] comp let_form safe keep by (simp add: list_all_iff list_ex_iff)
  next
    case and_form
    show ?thesis
    proof (cases "args = []")
      case True
      then have "ref_list host ev expr = (\<lambda>\<rho> w. (Inr (VBool True), w))" using assms(2) and_form by (simp add: ref_list_def fun_eq_iff)
      then show ?thesis using comp and_form True implements_const by (auto simp: compile_and_form_def)
    next
      case False
      then have "ref_list host ev expr = ref_chain (\<lambda>v. \<not> is_truthy v) ev args"
        using assms(2) and_form by (simp add: ref_list_def fun_eq_iff)
      moreover have "implements host scope tail (\<not> list_ex lets args) out out' (ref_chain (\<lambda>v. \<not> is_truthy v) ev args)"
        by (rule chain_implements [where exit = Jump_if_false_keep]) (use comp and_form False safe in \<open>auto simp: compile_and_form_def\<close>)
      ultimately show ?thesis using weak and_form by simp
    qed
  next
    case or_form
    show ?thesis
    proof (cases "args = []")
      case True
      then have "ref_list host ev expr = (\<lambda>\<rho> w. (Inr VNil, w))" using assms(2) or_form by (simp add: ref_list_def fun_eq_iff)
      then show ?thesis using comp or_form True implements_const by (auto simp: compile_or_form_def)
    next
      case False
      then have "ref_list host ev expr = ref_chain is_truthy ev args"
        using assms(2) or_form by (simp add: ref_list_def fun_eq_iff)
      moreover have "implements host scope tail (\<not> list_ex lets args) out out' (ref_chain is_truthy ev args)"
        by (rule chain_implements [where exit = Jump_if_truthy_keep]) (use comp or_form False safe in \<open>auto simp: compile_or_form_def\<close>)
      ultimately show ?thesis using weak or_form by simp
    qed
  next
    case call
    then have "ref_list host ev expr = ref_call host ev (head # args)" using assms(2) by (auto simp: ref_list_def fun_eq_iff)
    moreover have "implements host scope tail (\<not> list_ex lets (head # args)) out out' (ref_call host ev (head # args))"
      by (rule call_implements) (use comp call safe in \<open>auto split: if_splits\<close>)
    ultimately show ?thesis using implements_weaken keep call by fastforce
  qed
qed

end

subsection \<open>The compiler is correct\<close>

lemma compile_expr_sub: "subcompiler host (compile_expr k) (ref_eval host k) (has_let k) (let_safe k)"
proof (induction k)
  case 0
  show ?case by unfold_locales simp
next
  case (Suc k)
  show ?case
  proof
    fix e scope tail out out'
    assume c: "compile_expr (Suc k) e scope tail out = Some out'" and safe: "let_safe (Suc k) e"
    show "implements host scope tail (\<not> has_let (Suc k) e) out out' (ref_eval host (Suc k) e)"
    proof (cases e)
      case (VSym name)
      show ?thesis
      proof (cases "cs_locals scope name")
        case None
        then have "out' = emit (Load_name name) out" using c VSym by simp
        then show ?thesis using VSym None
          by (auto intro!: implements_emit simp: in_scope_def push_def split: sum.splits)
      next
        case (Some i)
        then have "out' = emit (Load_local i) out" using c VSym by simp
        then show ?thesis using VSym Some
          by (auto intro!: implements_emit simp: push_def dest!: in_scope_local)
      qed
    next
      case (VCons a d)
      then obtain xs where xs: "vector_from_list e = Inr (a # xs)"
        using c by (cases "vector_from_list d") (auto simp: compile_list_form_def)
      then have items: "form_items e = a # xs" using VCons by (simp add: form_items_def)
      have "implements host scope tail (\<not> has_let (Suc k) e) out out' (ref_list host (ref_eval host k) e)"
        by (rule subcompiler.list_implements [OF Suc _ xs]) (use c safe items VCons in auto)
      moreover have "ref_eval host (Suc k) e = ref_list host (ref_eval host k) e" using VCons by (simp add: fun_eq_iff)
      ultimately show ?thesis by simp
    qed (use c implements_const [of host scope tail "\<not> has_let (Suc k) e" out e] in \<open>auto simp: implements_def\<close>)
  qed
qed

interpretation bytecode: subcompiler host "compile_expr k" "ref_eval host k" "has_let k" "let_safe k" for host k
  by (rule compile_expr_sub)

lemma runs_frame:
  "runs_to host P m w m1 w1 \<Longrightarrow> length P \<le> n + vm_ip m \<Longrightarrow>
    \<exists>n1. length P \<le> n1 + vm_ip m1 \<and> run_frame n host P m w = run_frame n1 host P m1 w1"
proof (induction arbitrary: n rule: runs_to.induct)
  case (runs_step m w m1 w1 m2 w2)
  then obtain n1 where n: "n = Suc n1" by (cases n) auto
  then have "run_frame n host P m w = run_frame n1 host P m1 w1" using runs_step(1,2) by simp
  moreover have "length P \<le> n1 + vm_ip m1" using runs_step(3,6) n by simp
  ultimately show ?case using runs_step(5) [of n1] by metis
qed auto

lemma ends_frame: "frame_ends host P m w fe w' \<Longrightarrow> length P \<le> n + vm_ip m \<Longrightarrow> run_frame n host P m w = (fe, w')"
proof -
  assume e: "frame_ends host P m w fe w'" and n: "length P \<le> n + vm_ip m"
  from e obtain m1 w1 where m1: "runs_to host P m w m1 w1" "vm_ip m1 < length P" "vm_step host (P ! vm_ip m1) m1 w1 = (Inl fe, w')"
    by (auto simp: frame_ends_def)
  from runs_frame [OF m1(1) n] obtain n1 where n1: "length P \<le> n1 + vm_ip m1" "run_frame n host P m w = run_frame n1 host P m1 w1"
    by blast
  then show ?thesis using m1(2,3) by (cases n1) auto
qed

text \<open>Code that behaves as an evaluation, followed by \<open>return_value\<close>, makes the frame answer it.\<close>

lemma behaves_return:
  assumes b: "behaves host P True k keep (vm 0 [] L) w (here out) [] (r, w1)"
    and ret: "here out < length P" "P ! here out = Return_value"
  shows "answers host P (vm 0 [] L) w (r, w1)"
proof (cases "\<exists>v. r = Inr v \<and> delivers host P k keep (vm 0 [] L) w (here out) [v] w1")
  case True
  then obtain v L1 where v: "r = Inr v" "runs_to host P (vm 0 [] L) w (vm (here out) [v] L1) w1"
    by (auto simp: delivers_def)
  have "frame_ends host P (vm (here out) [v] L1) w1 (Frame_return v) w1" using ret by (intro ends_one) simp_all
  from runs_ends [OF v(2) this] show ?thesis using v(1) unfolding answers_def frame_result_def by (metis frame_end.simps(10))
next
  case False
  then show ?thesis using b by (cases r) (auto simp: behaves_def)
qed

text \<open>
  Compiled closures are correct: running the bytecode of a function body on its arguments gives what
  evaluating the body with the parameters bound to the arguments gives, with the same effects in the same order, whatever
  the called functions do, errors and tail calls included, within as many steps as there are
  instructions; provided no initialiser of a \<open>let\<close> but the first contains a \<open>let\<close>.
\<close>

theorem compiled_closure_correct:
  assumes "try_compile_closure params body = Some cc" "length args = length params"
    and "list_all (let_safe (compile_depth body)) body"
  shows "(case execute_frame host cc args w of (fe, w') \<Rightarrow> frame_result host fe w') =
    ref_sequence (ref_eval host (compile_depth body)) body (Map.empty(params [\<mapsto>] args)) w"
proof -
  let ?k = "compile_depth body" and ?out = "\<lparr>cc_code = [], cc_local_count = length params\<rparr>"
  let ?sem = "ref_sequence (ref_eval host ?k) body" and ?\<rho> = "Map.empty(params [\<mapsto>] args)"
  from assms(1) obtain out where out: "compile_sequence (compile_expr ?k) body (param_scope params) True ?out = Some out"
    "cc = emit Return_value out" by (auto simp: try_compile_closure_def)
  have "implements host (param_scope params) True (\<not> list_ex (has_let ?k) body) ?out out ?sem"
    by (rule bytecode.sequence_implements [OF out(1) assms(3)])
  then obtain c where c: "cc_code out = c" "length params \<le> cc_local_count out"
    "\<And>P L \<rho> s w. segment P 0 c \<Longrightarrow> cc_local_count out \<le> length L \<Longrightarrow> in_scope (param_scope params) \<rho> L \<Longrightarrow>
      behaves host P True (cs_next_slot (param_scope params)) (\<not> list_ex (has_let ?k) body) (vm 0 s L) w (here out) s (?sem \<rho> w)"
    unfolding implements_def slots_fit_def by (auto simp: here_def)
  define L where "L = args @ replicate (cc_local_count cc - length args) VNil"
  have L: "length L = cc_local_count out" using c(2) assms(2) out(2) by (simp add: L_def)
  have "in_scope (param_scope params) ?\<rho> L" unfolding param_scope_def
    by (rule in_scope_binds) (use assms(2) L c(2) in \<open>auto simp: in_scope_def L_def nth_append\<close>)
  moreover have "segment (cc_code cc) 0 c" using segment_whole [of "[]" c "[Return_value]"] out(2) c(1) by simp
  ultimately have b: "behaves host (cc_code cc) True (cs_next_slot (param_scope params)) (\<not> list_ex (has_let ?k) body)
      (vm 0 [] L) w (here out) [] (?sem ?\<rho> w)"
    using c(3) [of "cc_code cc" L ?\<rho> "[]" w] L by simp
  have answered: "(case execute_frame host cc args w of (fe, w') \<Rightarrow> frame_result host fe w') = res"
    if "answers host (cc_code cc) (vm 0 [] L) w res" for res
    using that ends_frame [of host "cc_code cc" "vm 0 [] L" w]
    by (auto simp: answers_def execute_frame_def enter_frame_def L_def)
  obtain r w1 where "?sem ?\<rho> w = (r, w1)" by (cases "?sem ?\<rho> w")
  with behaves_return [OF b [unfolded this]] answered show ?thesis using out(2) by (simp add: here_def)
qed

subsection \<open>Frames end, and the depth is enough\<close>

fun jump_target :: "compiled_instruction \<Rightarrow> nat option" where
  "jump_target (Jump i) = Some i"
| "jump_target (Jump_if_false i) = Some i"
| "jump_target (Jump_if_false_keep i) = Some i"
| "jump_target (Jump_if_truthy_keep i) = Some i"
| "jump_target _ = None"

text \<open>All jumps go forward, except those at the positions of \<open>S\<close>, which are still to be patched.\<close>

definition forward :: "nat set \<Rightarrow> compiled_closure \<Rightarrow> bool" where
  "forward S out =
     (\<forall>i < here out. i \<notin> S \<longrightarrow> (case jump_target (cc_code out ! i) of None \<Rightarrow> True | Some t \<Rightarrow> i < t))"

lemma forward_emit: "forward S out \<Longrightarrow> jump_target instr = None \<or> here out \<in> S \<Longrightarrow> forward S (emit instr out)"
  by (auto simp: forward_def here_def nth_append less_Suc_eq split: option.splits)

lemma forward_mono: "forward S out \<Longrightarrow> S \<subseteq> T \<Longrightarrow> forward T out"
  unfolding forward_def by blast

lemma jump_target_with_index: "jump_target (with_index t i) = (if jump_target i = None then None else Some t)"
  by (cases i) auto

lemma forward_patch: "forward (insert i S) out \<Longrightarrow> i < here out \<Longrightarrow> forward S (patch i out)"
  unfolding forward_def by (auto simp: patch_def here_def nth_list_update jump_target_with_index split: option.splits)

definition keeps_forward :: "compile_fn \<Rightarrow> bool" where
  "keeps_forward cmp =
     (\<forall>e scope tail out out' S. cmp e scope tail out = Some out' \<longrightarrow> forward S out \<longrightarrow> forward S out' \<and> here out \<le> here out')"

lemma keeps_forwardD:
  "keeps_forward cmp \<Longrightarrow> cmp e scope tail out = Some out' \<Longrightarrow> forward S out \<Longrightarrow> forward S out' \<and> here out \<le> here out'"
  unfolding keeps_forward_def by blast

lemma forward_body:
  "keeps_forward cmp \<Longrightarrow> compile_body cmp es scope tail out = Some out' \<Longrightarrow> forward S out \<Longrightarrow> forward S out' \<and> here out \<le> here out'"
proof (induction es arbitrary: out rule: induct_list012)
  case (3 e e' es)
  then obtain out1 where out1: "cmp e scope False out = Some out1" "compile_body cmp (e' # es) scope tail (emit Pop out1) = Some out'"
    by (auto split: bind_splits)
  then have 1: "forward S out1 \<and> here out \<le> here out1" using keeps_forwardD 3 by blast
  then have "forward S (emit Pop out1)" by (simp add: forward_emit)
  from 3(2) [OF 3(3) out1(2) this] show ?case using 1 by simp
qed (auto dest: keeps_forwardD)

lemma forward_sequence:
  "keeps_forward cmp \<Longrightarrow> compile_sequence cmp es scope tail out = Some out' \<Longrightarrow> forward S out \<Longrightarrow> forward S out' \<and> here out \<le> here out'"
  using forward_body by (auto simp: compile_sequence_def forward_emit split: if_splits)

lemma forward_if:
  assumes "keeps_forward cmp" "compile_if_form cmp args scope tail out = Some out'" "forward S out"
  shows "forward S out' \<and> here out \<le> here out'"
proof -
  from assms(2) obtain out1 out2 out4 where
    out1: "cmp (args ! 0) scope False out = Some out1" and
    out2: "cmp (args ! 1) scope tail (emit (Jump_if_false 0) out1) = Some out2" and
    out4: "(if length args = 3 then cmp (args ! 2) scope tail (patch (here out1) (emit (Jump 0) out2))
      else Some (emit (Push_const VNil) (patch (here out1) (emit (Jump 0) out2)))) = Some out4" and
    out': "out' = patch (here out2) out4"
    by (auto simp: compile_if_form_def Let_def split: bind_splits if_splits)
  have 1: "forward S out1" "here out \<le> here out1" using keeps_forwardD [OF assms(1) out1 assms(3)] by auto
  have "forward (insert (here out1) S) (emit (Jump_if_false 0) out1)"
    using forward_mono [OF 1(1), of "insert (here out1) S"] by (intro forward_emit) auto
  from keeps_forwardD [OF assms(1) out2 this]
  have 2: "forward (insert (here out1) S) out2" "here out1 < here out2" by auto
  have "forward (insert (here out1) (insert (here out2) S)) (emit (Jump 0) out2)"
    using forward_mono [OF 2(1), of "insert (here out1) (insert (here out2) S)"] by (intro forward_emit) auto
  then have 3: "forward (insert (here out2) S) (patch (here out1) (emit (Jump 0) out2))"
    by (rule forward_patch) (use 2(2) in simp)
  have "forward (insert (here out2) S) out4 \<and> here out2 < here out4"
    using out4 keeps_forwardD [OF assms(1) _ 3] forward_emit [OF 3]
    by (cases "length args = 3") fastforce+
  then show ?thesis using forward_patch [of "here out2" S out4] out' 1(2) 2(2) by simp
qed

lemma forward_chain:
  "keeps_forward cmp \<Longrightarrow> compile_chain cmp exit es scope tail jumps0 out = Some (jumps, out') \<Longrightarrow>
    forward (set jumps0 \<union> S) out \<Longrightarrow> (\<forall>j \<in> set jumps0. j < here out) \<Longrightarrow>
    forward (set jumps \<union> S) out' \<and> here out \<le> here out' \<and> (\<forall>j \<in> set jumps. j < here out')"
proof (induction es arbitrary: out jumps0 rule: induct_list012)
  case (2 e)
  then show ?case using keeps_forwardD [of cmp e scope tail out out' "set jumps0 \<union> S"] by fastforce
next
  case (3 e e' es)
  then obtain out1 where out1: "cmp e scope False out = Some out1"
    "compile_chain cmp exit (e' # es) scope tail (jumps0 @ [here out1]) (emit Pop (emit (exit 0) out1)) = Some (jumps, out')"
    by (auto split: bind_splits)
  then have 1: "forward (set jumps0 \<union> S) out1" "here out \<le> here out1" using keeps_forwardD 3 by blast+
  have "forward (set (jumps0 @ [here out1]) \<union> S) (emit (exit 0) out1)"
    by (rule forward_emit [OF forward_mono [OF 1(1)]]) auto
  then have "forward (set (jumps0 @ [here out1]) \<union> S) (emit Pop (emit (exit 0) out1))" by (simp add: forward_emit)
  from 3(2) [OF 3(3) out1(2) this] show ?case using 1(2) 3(6) by fastforce
qed simp

lemma forward_patches:
  "forward (set jumps \<union> S) out \<Longrightarrow> (\<forall>j \<in> set jumps. j < here out) \<Longrightarrow> forward S (fold patch jumps out) \<and> here (fold patch jumps out) = here out"
proof (induction jumps arbitrary: out)
  case (Cons j js)
  have "forward (set js \<union> S) (patch j out)" using Cons.prems by (intro forward_patch) auto
  then show ?case using Cons.IH [of "patch j out"] Cons.prems(2) by simp
qed simp

lemma forward_chains:
  assumes "keeps_forward cmp" "forward S out"
    and "map_option (\<lambda>(jumps, out). fold patch jumps out) (compile_chain cmp exit args scope tail [] out) = Some out'"
  shows "forward S out' \<and> here out \<le> here out'"
proof -
  from assms(3) obtain jumps out1 where "compile_chain cmp exit args scope tail [] out = Some (jumps, out1)" "out' = fold patch jumps out1"
    by auto
  then show ?thesis
    using forward_chain [OF assms(1), of exit args scope tail "[]" out jumps out1 S] forward_patches [of jumps S out1] assms(2)
    by simp
qed

lemma forward_inits:
  "keeps_forward cmp \<Longrightarrow> compile_inits cmp es slot scope out = Some out' \<Longrightarrow> forward S out \<Longrightarrow> forward S out' \<and> here out \<le> here out'"
proof (induction es arbitrary: out slot)
  case (Cons e es)
  then obtain out1 where out1: "cmp e scope False out = Some out1" "compile_inits cmp es (Suc slot) scope (emit (Store_local slot) out1) = Some out'"
    by (auto split: bind_splits)
  then have 1: "forward S out1 \<and> here out \<le> here out1" using keeps_forwardD Cons by blast
  then have "forward S (emit (Store_local slot) out1)" by (simp add: forward_emit)
  from Cons.IH [OF Cons.prems(1) out1(2) this] show ?case using 1 by simp
qed simp

lemma forward_items:
  "keeps_forward cmp \<Longrightarrow> compile_operands cmp es scope out = Some out' \<Longrightarrow> forward S out \<Longrightarrow> forward S out' \<and> here out \<le> here out'"
proof (induction es arbitrary: out)
  case (Cons e es)
  then obtain out1 where out1: "cmp e scope False out = Some out1" "compile_operands cmp es scope out1 = Some out'"
    by (auto split: bind_splits)
  then have "forward S out1 \<and> here out \<le> here out1" using keeps_forwardD Cons by blast
  then show ?case using Cons.IH [OF Cons.prems(1) out1(2)] by fastforce
qed simp

lemma forward_let:
  assumes "keeps_forward cmp" "compile_let_form cmp args scope tail out = Some out'" "forward S out"
  shows "forward S out' \<and> here out \<le> here out'"
proof -
  from assms(2) obtain bs out1 n where out1: "compile_inits cmp (map snd bs) (cs_next_slot scope) scope (out\<lparr>cc_local_count := n\<rparr>) = Some out1"
    "compile_sequence cmp (drop 1 args) (fold bind_slot (map fst bs) scope) tail out1 = Some out'"
    by (auto simp: compile_let_form_def Let_def split: if_splits sum.splits bind_splits)
  have "forward S (out\<lparr>cc_local_count := n\<rparr>)" "here (out\<lparr>cc_local_count := n\<rparr>) = here out"
    using assms(3) by (simp_all add: forward_def here_def)
  then show ?thesis using forward_inits [OF assms(1) out1(1)] forward_sequence [OF assms(1) out1(2)] by fastforce
qed

lemma compile_list_cases:
  assumes "compile_list_form cmp e scope tail out = Some out'"
  obtains (const) v where "out' = emit (Push_const v) out"
    | (if_form) args where "compile_if_form cmp args scope tail out = Some out'"
    | (seq) es where "compile_sequence cmp es scope tail out = Some out'"
    | (let_form) args where "compile_let_form cmp args scope tail out = Some out'"
    | (chain) exit args where
        "map_option (\<lambda>(jumps, out). fold patch jumps out) (compile_chain cmp exit args scope tail [] out) = Some out'"
    | (call) items out1 argc where "compile_operands cmp items scope out = Some out1"
        "out' = emit (if tail then Tail_call argc else Call argc) out1"
proof -
  from assms obtain head args where v: "vector_from_list e = Inr (head # args)"
    by (auto simp: compile_list_form_def split: sum.splits list.splits)
  note comp = assms [unfolded compile_list_form_def v is_symbol_named_def, simplified]
  show thesis
  proof (cases "head \<in> VSym ` set [''and'', ''or'']")
    case True
    then show ?thesis using comp const chain by (auto simp: compile_and_form_def compile_or_form_def split: if_splits)
  next
    case False
    then show ?thesis using comp const if_form seq let_form call
      by (auto simp: compile_call_form_def simp del: compile_operands.simps split: if_splits)
  qed
qed

lemma keeps_forward_expr: "keeps_forward (compile_expr k)"
proof (induction k)
  case 0
  show ?case by (simp add: keeps_forward_def)
next
  case (Suc k)
  have list: "forward S out' \<and> here out \<le> here out'"
    if c: "compile_list_form (compile_expr k) e scope tail out = Some out'" and f: "forward S out" for e scope tail out out' S
    using c
  proof (cases rule: compile_list_cases)
    case (call items out1 argc)
    then show ?thesis using forward_items [OF Suc call(1) f] by (simp add: forward_emit)
  qed (use f forward_emit [OF f] forward_if [OF Suc _ f] forward_sequence [OF Suc _ f] forward_let [OF Suc _ f]
      forward_chains [OF Suc f] in auto)
  show ?case unfolding keeps_forward_def
    using list by (auto simp: forward_emit split: lisp_value.splits option.splits)
qed

text \<open>Steps of forward code go forward, so a frame needs no more steps than it has instructions.\<close>

lemma forward_step:
  assumes "forward {} out" "vm_ip m < here out" "vm_step host (cc_code out ! vm_ip m) m w = (Inr m1, w1)"
  shows "vm_ip m < vm_ip m1"
proof -
  have "case jump_target (cc_code out ! vm_ip m) of None \<Rightarrow> True | Some t \<Rightarrow> vm_ip m < t"
    using assms(1,2) by (simp add: forward_def)
  then show ?thesis using assms(3)
    by (cases "cc_code out ! vm_ip m")
      (auto simp: push_def split: if_splits list.splits sum.splits option.splits prod.splits)
qed

definition host_stops :: "'w machine_host \<Rightarrow> bool" where
  "host_stops host = ((\<forall>f args w. fst (mh_invoke host f args w) \<noteq> Inl No_fuel) \<and> (\<forall>name w. mh_lookup host name w \<noteq> Inl No_fuel))"

lemma step_throw: "host_stops host \<Longrightarrow> vm_step host instr m w = (Inl fe, w1) \<Longrightarrow> fe \<noteq> Frame_throw No_fuel"
  by (cases instr)
    (auto simp: host_stops_def bad_slot_def underflow_def split: if_splits list.splits sum.splits option.splits prod.splits,
      (metis fst_conv)+)

lemma forward_frame:
  "forward {} out \<Longrightarrow> host_stops host \<Longrightarrow> here out \<le> n + vm_ip m \<Longrightarrow> fst (run_frame n host (cc_code out) m w) \<noteq> Frame_throw No_fuel"
proof (induction n arbitrary: m w)
  case 0
  then show ?case by (simp add: here_def)
next
  case (Suc n)
  show ?case
  proof (cases "vm_ip m < here out")
    case True
    show ?thesis
    proof (cases "vm_step host (cc_code out ! vm_ip m) m w")
      case (Pair r w1)
      show ?thesis
      proof (cases r)
        case (Inl fe)
        then show ?thesis using True Pair step_throw [OF Suc(3)] by (auto simp: here_def)
      next
        case (Inr m1)
        then have "vm_ip m < vm_ip m1" using forward_step [OF Suc(2) True, of host w m1 w1] Pair by simp
        then show ?thesis using True Pair Inr Suc(4) Suc(1) [OF Suc(2,3), of m1 w1] by (simp add: here_def)
      qed
    qed
  qed (simp add: here_def)
qed

text \<open>
  A frame of compiled code always ends within as many steps as it has instructions, for every closure that
  is compiled, if the functions it calls end.
\<close>

theorem compiled_frame_ends:
  assumes "try_compile_closure params body = Some cc" "host_stops host"
  shows "fst (execute_frame host cc args w) \<noteq> Frame_throw No_fuel"
proof -
  from assms(1) obtain out where out:
    "compile_sequence (compile_expr (compile_depth body)) body (param_scope params) True \<lparr>cc_code = [], cc_local_count = length params\<rparr> = Some out"
    "cc = emit Return_value out" by (auto simp: try_compile_closure_def)
  have "forward {} out"
    using forward_sequence [OF keeps_forward_expr out(1), of "{}"] by (simp add: forward_def here_def)
  then have "forward {} cc" using out(2) by (simp add: forward_emit)
  then show ?thesis using forward_frame [OF _ assms(2)] by (simp add: execute_frame_def here_def)
qed

text \<open>The depth that \<open>try_compile_closure\<close> gives is enough: more does not change the code.\<close>

lemma vector_item_size: "vector_from_list v = Inr xs \<Longrightarrow> x \<in> set xs \<Longrightarrow> size x < size v"
proof (induction v arbitrary: xs)
  case (VCons a d)
  then show ?case by (fastforce simp: less_Suc_eq)
qed auto

lemma let_bindings_size: "let_bindings bs = Some ps \<Longrightarrow> (name, e) \<in> set ps \<Longrightarrow> \<exists>b \<in> set bs. size e < size b"
proof (induction bs arbitrary: ps)
  case (Cons b bs)
  then obtain p ps' where p: "let_binding b = Some p" "let_bindings bs = Some ps'" "ps = p # ps'" by (auto split: bind_splits)
  have "size (snd p) < size b"
    using p(1) vector_item_size [of b] by (auto split: sum.splits list.splits lisp_value.splits)
  then show ?case using Cons p by auto
qed simp

lemma compile_body_cong: "\<forall>e \<in> set es. cmp e = cmp' e \<Longrightarrow> compile_body cmp es = compile_body cmp' es"
  by (induction es rule: induct_list012) (auto simp: fun_eq_iff)

lemma compile_chain_cong: "\<forall>e \<in> set es. cmp e = cmp' e \<Longrightarrow> compile_chain cmp exit es = compile_chain cmp' exit es"
  by (induction es rule: induct_list012) (auto simp: fun_eq_iff)

lemma compile_inits_cong: "\<forall>e \<in> set es. cmp e = cmp' e \<Longrightarrow> compile_inits cmp es = compile_inits cmp' es"
  by (induction es) (auto simp: fun_eq_iff)

lemma compile_operands_cong: "\<forall>e \<in> set es. cmp e = cmp' e \<Longrightarrow> compile_operands cmp es = compile_operands cmp' es"
proof (induction es)
  case (Cons e es)
  then have "compile_operands cmp es = compile_operands cmp' es" by simp
  then show ?case using Cons by (intro ext) simp
qed (simp add: fun_eq_iff)

lemma compile_let_cong:
  assumes "\<And>x. size x < size e \<Longrightarrow> cmp x = cmp' x" "\<forall>x \<in> set args. size x < size e"
  shows "compile_let_form cmp args scope tail out = compile_let_form cmp' args scope tail out"
proof (cases "2 \<le> length args")
  case True
  have inits: "compile_inits cmp (map snd ps) = compile_inits cmp' (map snd ps)"
    if bs: "vector_from_list (args ! 0) = Inr bs" and ps: "let_bindings bs = Some ps" for bs ps
  proof (rule compile_inits_cong, rule ballI)
    fix i assume "i \<in> set (map snd ps)"
    then obtain name where "(name, i) \<in> set ps" by auto
    from let_bindings_size [OF ps this] obtain b where "b \<in> set bs" "size i < size b" by blast
    moreover have "args ! 0 \<in> set args" using True by (cases args) auto
    then have "size (args ! 0) < size e" using assms(2) by blast
    ultimately have "size i < size e" using vector_item_size [OF bs] by fastforce
    then show "cmp i = cmp' i" by (rule assms(1))
  qed
  have "compile_sequence cmp (drop 1 args) = compile_sequence cmp' (drop 1 args)"
    using compile_body_cong [of "drop 1 args" cmp cmp'] assms by (auto simp: compile_sequence_def fun_eq_iff dest!: in_set_dropD)
  then show ?thesis using inits
    by (auto simp: compile_let_form_def Let_def split: sum.splits intro!: Option.bind_cong)
qed (simp add: compile_let_form_def)

lemma compile_list_cong:
  assumes "\<And>x. size x < size e \<Longrightarrow> cmp x = cmp' x"
  shows "compile_list_form cmp e = compile_list_form cmp' e"
proof (cases "vector_from_list e")
  case (Inr items)
  have eq: "\<forall>x \<in> set items. cmp x = cmp' x" using assms vector_item_size [OF Inr] by blast
  show ?thesis
  proof (cases items)
    case (Cons head args)
    have args: "\<forall>x \<in> set args. cmp x = cmp' x" "\<forall>x \<in> set args. size x < size e"
      using eq Cons vector_item_size [OF Inr] by auto
    have i: "cmp (args ! i) = cmp' (args ! i)" if "i < length args" for i using args(1) that by simp
    have if_eq: "compile_if_form cmp args = compile_if_form cmp' args"
      by (auto simp: compile_if_form_def fun_eq_iff i)
    show ?thesis
      using Inr Cons compile_body_cong [OF args(1)] compile_chain_cong [OF args(1)] compile_operands_cong [OF eq] if_eq
        compile_let_cong [OF assms args(2)]
      by (auto simp: compile_list_form_def compile_sequence_def compile_and_form_def compile_or_form_def
          compile_call_form_def fun_eq_iff)
  qed (simp add: compile_list_form_def Inr fun_eq_iff)
qed (simp add: compile_list_form_def fun_eq_iff)

lemma compile_expr_depth: "size e < k \<Longrightarrow> compile_expr (Suc k) e = compile_expr k e"
proof (induction k arbitrary: e)
  case (Suc k)
  have "compile_list_form (compile_expr (Suc k)) e = compile_list_form (compile_expr k) e"
  proof (rule compile_list_cong)
    fix x :: lisp_value assume "size x < size e"
    then show "compile_expr (Suc k) x = compile_expr k x" using Suc(2) by (intro Suc(1)) simp
  qed
  then show ?case by (auto simp: fun_eq_iff split: lisp_value.splits)
qed simp

lemma compile_depth_enough: "list_all (\<lambda>e. compile_expr (compile_depth body + m) e = compile_expr (compile_depth body) e) body"
proof (induction m)
  case (Suc m)
  have "size e < compile_depth body + m" if "e \<in> set body" for e
    using size_list_estimation' [OF that order_refl, of size] by (simp add: compile_depth_def)
  then have "compile_expr (Suc (compile_depth body + m)) e = compile_expr (compile_depth body + m) e" if "e \<in> set body" for e
    using that by (intro compile_expr_depth) blast
  then show ?case using Suc by (simp add: list_all_iff del: compile_expr.simps)
qed (simp add: list_all_iff)

definition call_list :: "lisp_value list \<Rightarrow> lisp_value" where
  "call_list items = list_from_vector items"

definition sample_body :: "lisp_value list" where
  "sample_body = [call_list [VSym ''let'', call_list [call_list [VSym ''y'', VSym ''x'']],
     call_list [VSym ''if'', VSym ''y'', call_list [VSym ''f'', VSym ''y'', VInt 2], VNil]]]"

definition sample_code :: compiled_closure where
  "sample_code = \<lparr>cc_code = [Load_local 0, Store_local 1, Load_local 1, Jump_if_false 9, Load_name ''f'', Load_local 1,
     Push_const (VInt 2), Tail_call 2, Jump 10, Push_const VNil, Return_value], cc_local_count = 2\<rparr>"

definition sample_machine_host :: "unit machine_host" where
  "sample_machine_host = \<lparr>mh_invoke = (\<lambda>f args w. (Inr (list_from_vector (f # args)), w)),
     mh_lookup = (\<lambda>name w. Inr (VStr name)), mh_compiled = (\<lambda>f w. True)\<rparr>"

theorem compiled_closure_correct_witness:
  "(case execute_frame sample_machine_host sample_code [VInt 7] () of (fe, w') \<Rightarrow> frame_result sample_machine_host fe w') =
    ref_sequence (ref_eval sample_machine_host (compile_depth sample_body)) sample_body (Map.empty([''x''] [\<mapsto>] [VInt 7])) ()"
proof (rule compiled_closure_correct)
  show "try_compile_closure [''x''] sample_body = Some sample_code" by code_simp
  show "list_all (let_safe (compile_depth sample_body)) sample_body" by code_simp
qed simp

definition nested_let :: lisp_value where
  "nested_let = call_list [VSym ''let'', call_list [call_list [VSym ''a'', VInt 1],
     call_list [VSym ''b'', call_list [VSym ''let'', call_list [call_list [VSym ''c'', VInt 2]], VSym ''c'']]], VSym ''a'']"

definition nested_let_code :: compiled_closure where
  "nested_let_code = \<lparr>cc_code = [Push_const (VInt 1), Store_local 0, Push_const (VInt 2), Store_local 0, Load_local 0,
     Store_local 1, Load_local 0, Return_value], cc_local_count = 2\<rparr>"

text \<open>
  Without the condition on nested \<open>let\<close> the bytecode is wrong: in \<open>(let ((a 1) (b (let ((c 2)) c))) a)\<close> the inner \<open>let\<close>
  stores into the slot of \<open>a\<close>, so that the compiled function returns 2, where evaluating the body gives 1.
\<close>

theorem nested_let_clobbers:
  "try_compile_closure [] [nested_let] = Some nested_let_code \<and>
   execute_frame host nested_let_code [] w = (Frame_return (VInt 2), w) \<and>
   ref_sequence (ref_eval host (compile_depth [nested_let])) [nested_let] Map.empty w = (Inr (VInt 1), w)"
proof (intro conjI)
  show "try_compile_closure [] [nested_let] = Some nested_let_code" by code_simp
  show "execute_frame host nested_let_code [] w = (Frame_return (VInt 2), w)"
    by (simp add: execute_frame_def enter_frame_def nested_let_code_def push_def numeral_2_eq_2)
  have "4 \<le> compile_depth [nested_let]" by code_simp
  then obtain m where "compile_depth [nested_let] = 4 + m" using le_Suc_ex by blast
  then have "compile_depth [nested_let] = Suc (Suc (Suc (Suc m)))" by simp
  then show "ref_sequence (ref_eval host (compile_depth [nested_let])) [nested_let] Map.empty w = (Inr (VInt 1), w)"
    by (simp add: nested_let_def call_list_def list_from_vector_def ref_list_def ref_let_def ebind_def)
qed

theorem compiled_frame_ends_witness:
  "fst (execute_frame sample_machine_host nested_let_code [] ()) \<noteq> Frame_throw No_fuel"
proof (rule compiled_frame_ends)
  show "try_compile_closure [] [nested_let] = Some nested_let_code" by code_simp
  show "host_stops sample_machine_host" by (simp add: host_stops_def sample_machine_host_def)
qed

end
