(* ===== verification/Syntax.thy ===== *)
theory Syntax
  imports Reader "HOL-Library.Sublist"
begin

text \<open>
  What the reader and the printer guarantee: reading always ends, what is written reads back (for values
  that have a readable text), sources can be joined, and a cut-off program is reported as incomplete and
  never as wrong, which is what the interactive prompt relies on.
\<close>

subsection \<open>Prefixes and continuations of the input\<close>

lemma skip_ws_idem [simp]: "skip_ws_and_comments (skip_ws_and_comments s) = skip_ws_and_comments s"
  by (induction s rule: skip_ws_and_comments.induct) auto

lemma skip_ws_length: "length (skip_ws_and_comments s) \<le> length s"
proof (induction s rule: skip_ws_and_comments.induct)
  case (2 c s)
  then show ?case using length_dropWhile_le [of "\<lambda>d. d \<noteq> newline" s] by auto
qed simp

lemma skip_ws_Cons: "skip_ws_and_comments s = c # r \<Longrightarrow> Suc (length r) \<le> length s"
  using skip_ws_length [of s] by simp

lemma skip_ws_head: "skip_ws_and_comments s = c # r \<Longrightarrow> \<not> is_space c \<and> c \<noteq> CHR '';''"
  by (induction s rule: skip_ws_and_comments.induct) (auto split: if_splits)

lemma skip_ws_stop [simp]: "\<not> is_space c \<Longrightarrow> c \<noteq> CHR '';'' \<Longrightarrow> skip_ws_and_comments (c # s) = c # s"
  by simp

lemma is_space_newline [simp]: "is_space newline"
  by (simp add: is_space_def)

text \<open>Input behind a position that is not white space does not matter.\<close>

lemma skip_ws_append: "skip_ws_and_comments s \<noteq> [] \<Longrightarrow> skip_ws_and_comments (s @ t) = skip_ws_and_comments s @ t"
proof (induction s rule: skip_ws_and_comments.induct)
  case (2 c s)
  show ?case
  proof (cases "is_space c \<or> c \<noteq> CHR '';''")
    case False
    then have c: "\<not> is_space c" "c = CHR '';''" by auto
    let ?d = "dropWhile (\<lambda>d. d \<noteq> newline) s"
    have ne: "skip_ws_and_comments ?d \<noteq> []" using 2(3) c by simp
    then have "?d \<noteq> []" by (metis skip_ws_and_comments.simps(1))
    then have "newline \<in> set s" by (auto simp: dropWhile_eq_Nil_conv)
    then have "dropWhile (\<lambda>d. d \<noteq> newline) (s @ t) = ?d @ t"
      by (auto simp: dropWhile_append1)
    then show ?thesis using 2(2) [OF c ne] c by simp
  qed (use 2 in auto)
qed simp

lemma skip_ws_append_newline:
  "skip_ws_and_comments s = [] \<Longrightarrow> skip_ws_and_comments (s @ newline # t) = skip_ws_and_comments t"
proof (induction s rule: skip_ws_and_comments.induct)
  case (2 c s)
  show ?case
  proof (cases "is_space c \<or> c \<noteq> CHR '';''")
    case False
    then have c: "\<not> is_space c" "c = CHR '';''" by auto
    let ?d = "\<lambda>s. dropWhile (\<lambda>d. d \<noteq> newline) s"
    have "?d (s @ newline # t) = ?d s @ newline # t"
      by (induction s) auto
    then show ?thesis using 2(2) [OF c] 2(3) c by simp
  qed (use 2 in auto)
qed simp

lemma skip_ws_prefix:
  "skip_ws_and_comments p = [] \<or> skip_ws_and_comments (p @ q) = skip_ws_and_comments p @ q"
  using skip_ws_append by blast

subsection \<open>The grammar\<close>

text \<open>The readable texts, without errors, positions and the number of calls.\<close>

definition ordinary :: "char \<Rightarrow> bool" where
  "ordinary c = (\<not> is_space c \<and> c \<notin> set ''();,'' \<and> c \<noteq> dquote \<and> c \<noteq> apostrophe \<and> c \<noteq> backquote)"

inductive reads :: "string \<Rightarrow> lisp_value \<Rightarrow> string \<Rightarrow> bool"
and reads_items :: "string \<Rightarrow> lisp_value list \<Rightarrow> string \<Rightarrow> bool" where
  reads_atom: "skip_ws_and_comments s = c # r \<Longrightarrow> ordinary c \<Longrightarrow> reads s (fst (read_atom c r)) (snd (read_atom c r))"
| reads_string: "skip_ws_and_comments s = dquote # r \<Longrightarrow> read_string_literal [] [] r = Inr (v, t) \<Longrightarrow> reads s v t"
| reads_macro: "skip_ws_and_comments s = c # r \<Longrightarrow> reader_macro c r = Some (tag, r') \<Longrightarrow> reads r' v t \<Longrightarrow>
    reads s (list_from_vector [VSym tag, v]) t"
| reads_list: "skip_ws_and_comments s = CHR ''('' # r \<Longrightarrow> reads_items r vs t \<Longrightarrow> reads s (list_from_vector vs) t"
| reads_Nil: "skip_ws_and_comments s = CHR '')'' # t \<Longrightarrow> reads_items s [] t"
| reads_Cons: "skip_ws_and_comments s = c # r \<Longrightarrow> c \<noteq> CHR '')'' \<Longrightarrow> reads (c # r) v s' \<Longrightarrow> reads_items s' vs t \<Longrightarrow>
    reads_items s (v # vs) t"

lemma reader_macro_cases:
  "reader_macro c r = Some (tag, r') \<longleftrightarrow>
     c = apostrophe \<and> tag = ''quote'' \<and> r' = r \<or>
     c = backquote \<and> tag = ''quasiquote'' \<and> r' = r \<or>
     c = CHR '','' \<and> take 1 r = ''@'' \<and> tag = ''unquote-splicing'' \<and> r' = drop 1 r \<or>
     c = CHR '','' \<and> take 1 r \<noteq> ''@'' \<and> tag = ''unquote'' \<and> r' = r"
  by (auto simp: reader_macro_def)

lemma reader_macro_None: "\<not> is_space c \<Longrightarrow> c \<noteq> CHR '';'' \<Longrightarrow> c \<noteq> CHR ''('' \<Longrightarrow> c \<noteq> CHR '')'' \<Longrightarrow> c \<noteq> dquote \<Longrightarrow>
    reader_macro c r = None \<longleftrightarrow> ordinary c"
  by (auto simp: reader_macro_def ordinary_def)

lemma ordinary_macro [simp]: "ordinary c \<Longrightarrow> reader_macro c r = None"
  by (auto simp: reader_macro_def ordinary_def)

lemma reader_macro_Some:
  "reader_macro c r = Some x \<Longrightarrow> c \<noteq> CHR ''('' \<and> c \<noteq> CHR '')'' \<and> c \<noteq> dquote \<and> \<not> is_space c \<and> c \<noteq> CHR '';''"
  by (cases x) (auto simp: reader_macro_cases is_space_def)

lemma reader_macro_length: "reader_macro c r = Some (tag, r') \<Longrightarrow> length r' \<le> length r"
  by (auto simp: reader_macro_cases)

text \<open>The steps of \<open>read_expr\<close>, one equation per case.\<close>

lemma read_expr_steps:
  assumes "skip_ws_and_comments s = c # r"
  shows "ordinary c \<Longrightarrow> read_expr (Suc k) source s = Inr (read_atom c r)"
    and "c = dquote \<Longrightarrow> read_expr (Suc k) source s = read_string_literal source [] r"
    and "c = CHR ''('' \<Longrightarrow> read_expr (Suc k) source s = read_list k source [] r"
    and "reader_macro c r = Some (tag, r') \<Longrightarrow> c = CHR '','' \<longrightarrow> r \<noteq> [] \<Longrightarrow>
      read_expr (Suc k) source s = tagged tag (read_expr k source r')"
proof -
  show "ordinary c \<Longrightarrow> read_expr (Suc k) source s = Inr (read_atom c r)"
    using assms by (simp add: ordinary_def reader_macro_def)
  show "reader_macro c r = Some (tag, r') \<Longrightarrow> c = CHR '','' \<longrightarrow> r \<noteq> [] \<Longrightarrow>
      read_expr (Suc k) source s = tagged tag (read_expr k source r')"
    using assms by (auto simp: dest!: reader_macro_Some)
qed (use assms in simp_all)

lemma read_expr_cases [consumes 1, case_names atom str list close comma macro]:
  assumes "skip_ws_and_comments s = c # r"
  obtains (atom) "ordinary c"
    | (str) "c = dquote"
    | (list) "c = CHR ''(''"
    | (close) "c = CHR '')''" "read_expr (Suc k) source s = Inl (parse_error_here source r (''unexpected '' @ [apostrophe, CHR '')'', apostrophe]) False)"
    | (comma) "c = CHR '',''" "r = []" "\<exists>m. read_expr (Suc k) source s = Inl (parse_error_here source [] m True)"
    | (macro) tag r' where "reader_macro c r = Some (tag, r')" "c = CHR '','' \<longrightarrow> r \<noteq> []"
proof (cases "c = CHR ''('' \<or> c = CHR '')'' \<or> c = dquote \<or> c = CHR '','' \<and> r = []")
  case True
  then show thesis using assms list str close comma by auto
next
  case False
  then show thesis
    using reader_macro_None [of c r] skip_ws_head [OF assms] atom macro by (cases "reader_macro c r") auto
qed

lemmas read_expr_Suc = read_expr.simps(2)
declare read_expr.simps(2) [simp del]

subsection \<open>Reading ends\<close>

lemma read_string_rest: "read_string_literal source out s = Inr (v, r) \<Longrightarrow> length r < length s"
proof (induction source out s rule: read_string_literal.induct)
  case (2 source out c s)
  show ?case
  proof (cases "c = backslash")
    case True
    then obtain e s' d where "s = e # s'" "unescaped e = Some d" "read_string_literal source (out @ [d]) s' = Inr (v, r)"
      using 2(3) by (auto split: list.splits option.splits)
    then show ?thesis using 2(1) True by fastforce
  next
    case False
    then show ?thesis using 2 by (auto split: if_splits)
  qed
qed simp

lemma read_string_no_fuel: "read_string_literal source out s \<noteq> Inl Out_of_fuel"
  by (induction source out s rule: read_string_literal.induct)
    (auto simp: parse_error_here_def parse_error_at_def split: list.splits option.splits prod.splits)

lemma read_atom_rest: "length (snd (read_atom c s)) \<le> length s"
  by (simp add: read_atom_def length_dropWhile_le)

lemma here_not_fuel [simp]: "parse_error_here source rest m b \<noteq> Out_of_fuel"
  "Out_of_fuel \<noteq> parse_error_here source rest m b"
  by (simp_all add: parse_error_here_def parse_error_at_def split: prod.splits)

lemma tagged_Inr [simp]:
  "tagged tag r = Inr x \<longleftrightarrow> (\<exists>v s. r = Inr (v, s) \<and> x = (list_from_vector [VSym tag, v], s))"
  by (auto simp: tagged_def)

lemma tagged_Inl [simp]: "tagged tag r = Inl e \<longleftrightarrow> r = Inl e"
  by (cases r) (auto simp: tagged_def)

lemma rbind_Inl_iff: "rbind r f = Inl e \<longleftrightarrow> r = Inl e \<or> (\<exists>x. r = Inr x \<and> f x = Inl e)"
  by (cases r) auto

lemma read_string_source: "read_string_literal source out s = Inr x \<Longrightarrow> read_string_literal source' out s = Inr x"
  by (induction source out s rule: read_string_literal.induct) (auto split: if_splits list.splits option.splits)

lemma read_grammar:
  "read_expr k source s = Inr (v, r) \<Longrightarrow> reads s v r"
  "read_list k source items s = Inr (v, r) \<Longrightarrow> \<exists>vs. v = list_from_vector (items @ vs) \<and> reads_items s vs r"
proof (induction k source s and k source items s arbitrary: v r and v r rule: read_expr_read_list.induct)
  case (2 k source s)
  show ?case
  proof (cases "skip_ws_and_comments s")
    case Nil
    then show ?thesis using 2(3) by (simp add: read_expr_Suc)
  next
    case (Cons c t)
    then show ?thesis
    proof (cases rule: read_expr_cases [where k = k and source = source])
      case atom
      then show ?thesis using 2(3) read_expr_steps(1) [OF Cons] reads_atom [OF Cons atom] by simp
    next
      case str
      then have "read_string_literal source [] t = Inr (v, r)" using 2(3) read_expr_steps(2) [OF Cons] by simp
      then have "read_string_literal [] [] t = Inr (v, r)" by (rule read_string_source)
      then show ?thesis using Cons str by (intro reads_string) simp_all
    next
      case list
      then have "read_list k source [] t = Inr (v, r)" using 2(3) read_expr_steps(3) [OF Cons] by simp
      from 2(1) [OF Cons list this] show ?thesis using Cons list by (auto intro: reads_list)
    next
      case (macro tag r')
      then obtain w where w: "read_expr k source r' = Inr (w, r)" "v = list_from_vector [VSym tag, w]"
        using 2(3) read_expr_steps(4) [OF Cons macro] by auto
      have "reads r' w r" using 2(2) [OF Cons _ _ _ _ macro(1) refl w(1)] reader_macro_Some [OF macro(1)] macro(2) by blast
      then show ?thesis using w(2) reads_macro [OF Cons macro(1)] by simp
    qed (use 2(3) in auto)
  qed
next
  case (4 k source items s)
  show ?case
  proof (cases "skip_ws_and_comments s")
    case Nil
    then show ?thesis using 4(3) by simp
  next
    case (Cons c t)
    show ?thesis
    proof (cases "c = CHR '')''")
      case True
      then show ?thesis using 4(3) Cons reads_Nil [of s r] by (intro exI [of _ "[]"]) auto
    next
      case False
      then obtain w s' where w: "read_expr k source (c # t) = Inr (w, s')" "read_list k source (items @ [w]) s' = Inr (v, r)"
        using 4(3) Cons by auto
      from 4(2) [OF Cons False w(1) refl w(2)] obtain vs where
        "v = list_from_vector (items @ w # vs)" "reads_items s' vs r" by auto
      then show ?thesis using reads_Cons [OF Cons False 4(1) [OF Cons False w(1)]] by auto
    qed
  qed
qed simp_all

lemma reads_rest:
  "reads s v r \<Longrightarrow> length r < length s"
  "reads_items s vs r \<Longrightarrow> length r < length s"
proof (induction rule: reads_reads_items.inducts)
  case (reads_atom s c r)
  then show ?case using skip_ws_Cons [OF reads_atom(1)] read_atom_rest [of c r] by linarith
next
  case (reads_string s r v t)
  then show ?case using skip_ws_Cons [OF reads_string(1)] read_string_rest [OF reads_string(2)] by linarith
next
  case (reads_macro s c r tag r' v t)
  then show ?case using skip_ws_Cons [OF reads_macro(1)] reader_macro_length [OF reads_macro(2)] by linarith
next
  case (reads_list s r vs t)
  then show ?case using skip_ws_Cons [OF reads_list(1)] by linarith
next
  case (reads_Nil s t)
  then show ?case using skip_ws_Cons by fastforce
next
  case (reads_Cons s c r v s' vs t)
  then show ?case using skip_ws_Cons [OF reads_Cons(1)] by simp
qed

lemma reads_read:
  "reads s v r \<Longrightarrow> 2 * length s < k \<Longrightarrow> read_expr k source s = Inr (v, r)"
  "reads_items s vs r \<Longrightarrow> 2 * length s + 1 < k \<Longrightarrow> read_list k source items s = Inr (list_from_vector (items @ vs), r)"
proof (induction arbitrary: k and k items rule: reads_reads_items.inducts)
  case (reads_atom s c r)
  then show ?case using read_expr_steps(1) [OF reads_atom(1,2)] by (cases k) auto
next
  case (reads_string s r v t)
  then show ?case
    using read_expr_steps(2) [OF reads_string(1) refl] read_string_source [OF reads_string(2)] by (cases k) auto
next
  case (reads_macro s c r tag r' v t)
  then obtain k' where k: "k = Suc k'" by (cases k) auto
  have "length r' < length s"
    using skip_ws_Cons [OF reads_macro(1)] reader_macro_length [OF reads_macro(2)] by linarith
  moreover have "r \<noteq> []" using reads_macro(2) reads_rest(1) [OF reads_macro(3)] by (auto simp: reader_macro_cases)
  ultimately show ?case
    using reads_macro k read_expr_steps(4) [OF reads_macro(1,2), of k' source] by simp
next
  case (reads_list s r vs t)
  then obtain k' where k: "k = Suc k'" by (cases k) auto
  then show ?case
    using reads_list skip_ws_Cons [OF reads_list(1)] read_expr_steps(3) [OF reads_list(1) refl, of k' source] by simp
next
  case (reads_Nil s t)
  then show ?case by (cases k) auto
next
  case (reads_Cons s c r v s' vs t)
  then obtain k' where k: "k = Suc k'" by (cases k) auto
  have "length s' < length (c # r)" by (rule reads_rest(1) [OF reads_Cons(3)])
  then show ?case using reads_Cons k skip_ws_Cons [OF reads_Cons(1)] by simp
qed

text \<open>Text behind an expression does not change it, if it starts with a delimiter.\<close>

definition delimited :: "string \<Rightarrow> bool" where
  "delimited t = (t = [] \<or> delimiter (hd t))"

lemma read_atom_append: "delimited t \<Longrightarrow> read_atom c (s @ t) = (fst (read_atom c s), snd (read_atom c s) @ t)"
proof -
  assume t: "delimited t"
  have "takeWhile (\<lambda>c. \<not> delimiter c) (s @ t) = takeWhile (\<lambda>c. \<not> delimiter c) s \<and>
      dropWhile (\<lambda>c. \<not> delimiter c) (s @ t) = dropWhile (\<lambda>c. \<not> delimiter c) s @ t"
    using t by (induction s) (auto simp: delimited_def takeWhile_eq_Nil_iff dropWhile_eq_self_iff)
  then show ?thesis by (simp add: read_atom_def)
qed

lemma read_string_literal_append: "read_string_literal source out s = Inr (v, r) \<Longrightarrow> read_string_literal source' out (s @ t) = Inr (v, r @ t)"
proof (induction source out s rule: read_string_literal.induct)
  case (2 source out c s)
  then show ?case by (auto split: if_splits list.splits option.splits)
qed simp

lemma reader_macro_append:
  "reader_macro c r = Some (tag, r') \<Longrightarrow> r \<noteq> [] \<Longrightarrow> reader_macro c (r @ t) = Some (tag, r' @ t)"
  by (cases r) (auto simp: reader_macro_def split: if_splits)

lemma reads_append:
  "reads s v r \<Longrightarrow> delimited t \<Longrightarrow> reads (s @ t) v (r @ t)"
  "reads_items s vs r \<Longrightarrow> delimited t \<Longrightarrow> reads_items (s @ t) vs (r @ t)"
proof (induction rule: reads_reads_items.inducts)
  case (reads_atom s c r)
  then show ?case
    using reads_reads_items.reads_atom [of "s @ t" c "r @ t"] skip_ws_append [of s t] read_atom_append [of t c r]
    by simp
next
  case (reads_string s r v u)
  then show ?case
    using reads_reads_items.reads_string [of "s @ t" "r @ t" v "u @ t"] skip_ws_append [of s t] read_string_literal_append
    by fastforce
next
  case (reads_macro s c r tag r' v u)
  have "r \<noteq> []" using reads_macro(2) reads_rest(1) [OF reads_macro(3)] by (auto simp: reader_macro_cases)
  then show ?case
    using reads_reads_items.reads_macro [of "s @ t" c "r @ t" tag "r' @ t" v "u @ t"] skip_ws_append [of s t]
      reader_macro_append reads_macro by simp
next
  case (reads_list s r vs u)
  then show ?case
    using reads_reads_items.reads_list [of "s @ t" "r @ t" vs "u @ t"] skip_ws_append [of s t] by simp
next
  case (reads_Nil s u)
  then show ?case using reads_reads_items.reads_Nil [of "s @ t" "u @ t"] skip_ws_append [of s t] by simp
next
  case (reads_Cons s c r v s' vs u)
  then show ?case
    using reads_reads_items.reads_Cons [of "s @ t" c "r @ t" v "s' @ t" vs "u @ t"] skip_ws_append [of s t] by simp
qed

subsection \<open>Whole sources\<close>

lemma read_fuel:
  "2 * length s < k \<Longrightarrow> read_expr k source s \<noteq> Inl Out_of_fuel"
  "2 * length s + 1 < k \<Longrightarrow> read_list k source items s \<noteq> Inl Out_of_fuel"
proof (induction k source s and k source items s rule: read_expr_read_list.induct)
  case (2 k source s)
  show ?case
  proof (cases "skip_ws_and_comments s")
    case Nil
    then show ?thesis by (simp add: read_expr_Suc)
  next
    case (Cons c t)
    then show ?thesis
    proof (cases rule: read_expr_cases [where k = k and source = source])
      case list
      then show ?thesis
        using 2(1) [OF Cons list] 2(3) skip_ws_Cons [OF Cons] read_expr_steps(3) [OF Cons list] by simp
    next
      case (macro tag r')
      have "2 * length r' < k" using 2(3) skip_ws_Cons [OF Cons] reader_macro_length [OF macro(1)] by simp
      then have "read_expr k source r' \<noteq> Inl Out_of_fuel"
        using 2(2) [OF Cons _ _ _ _ macro(1) refl] reader_macro_Some [OF macro(1)] macro(2) by blast
      then show ?thesis using read_expr_steps(4) [OF Cons macro] by simp
    next
      case str
      then show ?thesis using read_expr_steps(2) [OF Cons str] read_string_no_fuel by simp
    qed (use read_expr_steps(1) [OF Cons] in auto)
  qed
next
  case (4 k source items s)
  show ?case
  proof (cases "skip_ws_and_comments s")
    case (Cons c t)
    show ?thesis
    proof (cases "c = CHR '')''")
      case False
      have "read_expr k source (c # t) \<noteq> Inl Out_of_fuel"
        using 4(1) [OF Cons False] 4(3) skip_ws_Cons [OF Cons] by simp
      moreover have "read_list k source (items @ [v]) s' \<noteq> Inl Out_of_fuel"
        if "read_expr k source (c # t) = Inr (v, s')" for v s'
        using 4(2) [OF Cons False that refl] 4(3) skip_ws_Cons [OF Cons] reads_rest(1) [OF read_grammar(1) [OF that]] by simp
      ultimately show ?thesis using Cons False by (auto simp: rbind_Inl_iff)
    qed (use Cons in simp)
  qed simp
qed simp_all

inductive reads_all :: "string \<Rightarrow> lisp_value list \<Rightarrow> bool" where
  reads_all_Nil: "skip_ws_and_comments s = [] \<Longrightarrow> reads_all s []"
| reads_all_Cons: "skip_ws_and_comments s = c # r \<Longrightarrow> reads (c # r) v s' \<Longrightarrow> reads_all s' vs \<Longrightarrow> reads_all s (v # vs)"

lemma reads_all_skip: "reads_all s vs \<Longrightarrow> skip_ws_and_comments s' = skip_ws_and_comments s \<Longrightarrow> reads_all s' vs"
  by (erule reads_all.cases) (metis reads_all.intros)+

lemma read_all_grammar:
  "read_all_expressions k source exprs s = Inr vs \<Longrightarrow> \<exists>ws. vs = exprs @ ws \<and> reads_all s ws"
proof (induction k arbitrary: exprs s)
  case (Suc k)
  then show ?case
    by (cases "skip_ws_and_comments s") (fastforce intro: reads_all.intros dest: read_grammar(1))+
qed simp

lemma reads_all_read:
  "reads_all s vs \<Longrightarrow> 2 * length s + 1 < k \<Longrightarrow> read_all_expressions k source exprs s = Inr (exprs @ vs)"
proof (induction arbitrary: k exprs rule: reads_all.induct)
  case (reads_all_Nil s)
  then show ?case by (cases k) auto
next
  case (reads_all_Cons s c r v s' vs)
  then obtain k' where k: "k = Suc k'" by (cases k) auto
  have len: "length s' < length (c # r)" by (rule reads_rest(1) [OF reads_all_Cons(2)])
  have "read_expr k' source (c # r) = Inr (v, s')"
    using reads_read(1) [OF reads_all_Cons(2), of k' source] k reads_all_Cons(5) skip_ws_Cons [OF reads_all_Cons(1)] by simp
  then show ?case
    using k reads_all_Cons(1,5) reads_all_Cons(4) [of k' "exprs @ [v]"] len skip_ws_Cons [OF reads_all_Cons(1)] by simp
qed

lemma read_all_iff: "read_all s = Inr vs \<longleftrightarrow> reads_all s vs"
proof
  assume "read_all s = Inr vs"
  then show "reads_all s vs" using read_all_grammar [of "enough_calls s" s "[]" s vs] by (simp add: read_all_def)
next
  assume "reads_all s vs"
  then show "read_all s = Inr vs" using reads_all_read [of s vs "enough_calls s" s "[]"]
    by (simp del: read_all_expressions.simps add: read_all_def enough_calls_def)
qed

lemma read_all_no_fuel: "2 * length s + 1 < k \<Longrightarrow> read_all_expressions k source exprs s \<noteq> Inl Out_of_fuel"
proof (induction k arbitrary: exprs s)
  case (Suc k)
  show ?case
  proof (cases "skip_ws_and_comments s")
    case (Cons c t)
    have "read_expr k source (c # t) \<noteq> Inl Out_of_fuel"
      using read_fuel(1) [of "c # t" k source] Suc(2) skip_ws_Cons [OF Cons] by simp
    moreover have "read_all_expressions k source (exprs @ [v]) s' \<noteq> Inl Out_of_fuel"
      if "read_expr k source (c # t) = Inr (v, s')" for v s'
      using Suc skip_ws_Cons [OF Cons] reads_rest(1) [OF read_grammar(1) [OF that]] by simp
    ultimately show ?thesis using Cons by (auto simp: rbind_Inl_iff)
  qed simp
qed simp

text \<open>
  C12. Reading always ends: for every source, \<open>read_all\<close> returns the expressions of the source or an error with a
  position, never running out of the calls it is given, and \<open>read_one\<close> as well.
\<close>

theorem read_all_total:
  "read_all source \<noteq> Inl Out_of_fuel \<and> read_one source \<noteq> Inl Out_of_fuel"
  using read_all_no_fuel [of source "enough_calls source" source "[]"]
  by (auto simp del: read_all_expressions.simps simp add: read_all_def read_one_def enough_calls_def rbind_Inl_iff
      split: list.splits)

text \<open>
  Sources can be joined: the expressions of two texts with a newline between them are those of the first followed by
  those of the second, also when the first ends in a comment.
\<close>

theorem read_all_join:
  assumes "read_all s = Inr vs" "read_all t = Inr ws"
  shows "read_all (s @ newline # t) = Inr (vs @ ws)"
proof -
  have d: "delimited (newline # t)" by (simp add: delimited_def delimiter_def)
  have "reads_all s vs \<Longrightarrow> reads_all (s @ newline # t) (vs @ ws)"
  proof (induction rule: reads_all.induct)
    case (reads_all_Nil s)
    show ?case
      using assms(2) reads_all_skip [of t ws] skip_ws_append_newline [OF reads_all_Nil, of t] by (simp add: read_all_iff)
  next
    case (reads_all_Cons s c r v s' vs)
    have "reads (c # r @ newline # t) v (s' @ newline # t)"
      using reads_append(1) [OF reads_all_Cons(2) d] by simp
    then show ?case
      using reads_all.reads_all_Cons [of "s @ newline # t" c "r @ newline # t"] skip_ws_append [of s "newline # t"]
        reads_all_Cons by simp
  qed
  then show ?thesis using assms(1) by (simp add: read_all_iff)
qed

theorem read_all_join_witness:
  "read_all (''a ; b'' @ newline # ''(c)'') = Inr ([VSym ''a''] @ [VCons (VSym ''c'') VNil])"
proof (rule read_all_join)
  show "read_all ''a ; b'' = Inr [VSym ''a'']" by code_simp
  show "read_all ''(c)'' = Inr [VCons (VSym ''c'') VNil]" by code_simp
qed

subsection \<open>Cut-off programs\<close>

definition cut_off :: "'a parsed \<Rightarrow> bool" where
  "cut_off r = (case r of Inl (Parse_error m incomplete) \<Rightarrow> incomplete | _ \<Rightarrow> False)"

lemma cut_off_here [simp]: "cut_off (Inl (parse_error_here source s m True))"
  by (simp add: cut_off_def parse_error_here_def parse_error_at_def split: prod.splits)

lemma cut_off_rbind [simp]: "cut_off r \<Longrightarrow> cut_off (rbind r f)"
  by (cases r) (auto simp: cut_off_def)

lemma cut_off_tagged [simp]: "cut_off r \<Longrightarrow> cut_off (tagged tag r)"
  by (simp add: tagged_def)

lemma read_string_prefix:
  "read_string_literal source out s = Inr (v, r) \<Longrightarrow> s = p @ q \<Longrightarrow>
    (\<exists>r'. r = r' @ q \<and> read_string_literal source' out p = Inr (v, r')) \<or> cut_off (read_string_literal source' out p)"
proof (induction source out s arbitrary: p rule: read_string_literal.induct)
  case (2 source out c s)
  show ?case
  proof (cases p)
    case (Cons a p')
    then have p: "a = c" "s = p' @ q" using 2(4) by auto
    show ?thesis
    proof (cases "c = backslash")
      case True
      then obtain e s' d where e: "s = e # s'" "unescaped e = Some d" "read_string_literal source (out @ [d]) s' = Inr (v, r)"
        using 2(3) by (auto split: list.splits option.splits)
      show ?thesis
      proof (cases p')
        case (Cons b p'')
        then have "b = e" "s' = p'' @ q" using e(1) p(2) by auto
        then show ?thesis using 2(1) [OF _ True e(1,2,3), of p''] True \<open>p = a # p'\<close> p Cons e(2) by simp
      qed (use \<open>p = a # p'\<close> p True in simp)
    next
      case False
      then show ?thesis using 2(2) [OF _ False, of p'] 2(3) p Cons by (auto split: if_splits)
    qed
  qed simp
qed simp

lemma read_atom_prefix:
  "(\<exists>r'. snd (read_atom c (p @ q)) = r' @ q \<and> read_atom c p = (fst (read_atom c (p @ q)), r')) \<or> snd (read_atom c p) = []"
proof (cases "dropWhile (\<lambda>c. \<not> delimiter c) p = []")
  case False
  then have "\<exists>x \<in> set p. delimiter x" by (auto simp: dropWhile_eq_Nil_conv)
  then show ?thesis by (auto simp: read_atom_def takeWhile_append1 dropWhile_append1)
qed (simp add: read_atom_def)

lemma reader_macro_prefix:
  assumes "reader_macro c (p @ q) = Some (tag, r')" "p \<noteq> []"
  obtains p' where "reader_macro c p = Some (tag, p')" "r' = p' @ q"
  using assms by (cases p) (auto simp: reader_macro_def split: if_splits)

lemma macro_cut_off:
  assumes "skip_ws_and_comments p = [c]" "reader_macro c r = Some x"
  shows "cut_off (read_expr (Suc (Suc k)) source p)"
proof (cases "c = CHR '',''")
  case True
  then show ?thesis using assms(1) by (simp add: read_expr_Suc)
next
  case False
  then obtain tag where m: "reader_macro c [] = Some (tag, [])" using assms(2) by (auto simp: reader_macro_def split: if_splits)
  have "cut_off (read_expr (Suc k) source [])" by (simp add: read_expr_Suc)
  then show ?thesis using read_expr_steps(4) [OF assms(1) m, of "Suc k" source] False by simp
qed

lemma reads_prefix:
  "reads s v r \<Longrightarrow> s = p @ q \<Longrightarrow> 2 * length p < k \<Longrightarrow>
    (\<exists>r'. r = r' @ q \<and> read_expr k source p = Inr (v, r')) \<or> (\<exists>v'. read_expr k source p = Inr (v', [])) \<or>
    cut_off (read_expr k source p)"
  "reads_items s vs r \<Longrightarrow> s = p @ q \<Longrightarrow> 2 * length p + 1 < k \<Longrightarrow>
    (\<exists>r'. r = r' @ q \<and> read_list k source items p = Inr (list_from_vector (items @ vs), r')) \<or>
    cut_off (read_list k source items p)"
proof (induction arbitrary: p k and p k items rule: reads_reads_items.inducts)
  case (reads_atom s c r)
  show ?case
  proof (cases "skip_ws_and_comments p")
    case (Cons d p')
    then have "d = c" "r = p' @ q" using skip_ws_append [of p q] reads_atom by auto
    then show ?thesis using read_expr_steps(1) [OF Cons] reads_atom(2,4) read_atom_prefix [of c p' q]
      by (cases k) (auto, metis prod.collapse)
  qed (use reads_atom(4) in \<open>cases k; simp add: read_expr_Suc\<close>)
next
  case (reads_string s r v t)
  show ?case
  proof (cases "skip_ws_and_comments p")
    case (Cons d p')
    then have "d = dquote" "r = p' @ q" using skip_ws_append [of p q] reads_string by auto
    then show ?thesis
      using read_expr_steps(2) [OF Cons] reads_string(4) read_string_prefix [OF reads_string(2), of p' q source] by (cases k) auto
  qed (use reads_string(4) in \<open>cases k; simp add: read_expr_Suc\<close>)
next
  case (reads_macro s c r tag r' v t)
  show ?case
  proof (cases "skip_ws_and_comments p")
    case (Cons d p')
    then have d: "d = c" "r = p' @ q" using skip_ws_append [of p q] reads_macro by auto
    from reads_macro(6) obtain k' where k: "k = Suc k'" by (cases k) auto
    show ?thesis
    proof (cases "p' = []")
      case True
      then have p: "skip_ws_and_comments p = [c]" using Cons d by simp
      have "0 < k'" using reads_macro(6) k skip_ws_Cons [OF p] by simp
      then show ?thesis using macro_cut_off [OF p] reads_macro(2) k by (metis not_gr_zero old.nat.exhaust)
    next
      case False
      then obtain p'' where p'': "reader_macro c p' = Some (tag, p'')" "r' = p'' @ q"
        using reads_macro(2) d reader_macro_prefix by blast
      have "2 * length p'' < k'"
        using reads_macro(6) k skip_ws_Cons [OF Cons] reader_macro_length [OF p''(1)] by simp
      from reads_macro(4) [OF p''(2) this] show ?thesis
        using read_expr_steps(4) [OF Cons, of tag p'' k' source] p''(1) d False k by auto
    qed
  qed (use reads_macro(6) in \<open>cases k; simp add: read_expr_Suc\<close>)
next
  case (reads_list s r vs t)
  show ?case
  proof (cases "skip_ws_and_comments p")
    case (Cons d p')
    then have d: "d = CHR ''(''" "r = p' @ q" using skip_ws_append [of p q] reads_list by auto
    from reads_list(5) obtain k' where k: "k = Suc k'" by (cases k) auto
    have "2 * length p' + 1 < k'" using reads_list(5) k skip_ws_Cons [OF Cons] by simp
    from reads_list(3) [OF d(2) this, of "[]"] show ?thesis
      using read_expr_steps(3) [OF Cons d(1), of k' source] k by auto
  qed (use reads_list(5) in \<open>cases k; simp add: read_expr_Suc\<close>)
next
  case (reads_Nil s t)
  show ?case
  proof (cases "skip_ws_and_comments p")
    case (Cons d p')
    then show ?thesis using skip_ws_append [of p q] reads_Nil by (cases k) auto
  qed (use reads_Nil(3) in \<open>cases k; simp\<close>)
next
  case (reads_Cons s c r v s' vs t)
  show ?case
  proof (cases "skip_ws_and_comments p")
    case (Cons d p')
    then have d: "d = c" "c # r = (c # p') @ q" using skip_ws_append [of p q] reads_Cons by auto
    from reads_Cons(8) obtain k' where k: "k = Suc k'" by (cases k) auto
    have len: "2 * length (c # p') < k'" using reads_Cons(8) k skip_ws_Cons [OF Cons] by simp
    consider (same) r' where "s' = r' @ q" "read_expr k' source (c # p') = Inr (v, r')"
      | (short) v' where "read_expr k' source (c # p') = Inr (v', [])"
      | (cut) "cut_off (read_expr k' source (c # p'))"
      using reads_Cons(5) [OF d(2) len] by blast
    then show ?thesis
    proof cases
      case same
      have "length r' < length (c # p')" by (rule reads_rest(1) [OF read_grammar(1) [OF same(2)]])
      then have "2 * length r' + 1 < k'" using len by simp
      from reads_Cons(6) [OF same(1) this, of "items @ [v]"] show ?thesis
        using Cons d k same(2) reads_Cons(2) by auto
    next
      case short
      then show ?thesis using Cons d k reads_Cons(2) len by (cases k') auto
    next
      case cut
      then show ?thesis using Cons d k reads_Cons(2) by simp
    qed
  qed (use reads_Cons(8) in \<open>cases k; simp\<close>)
qed

lemma reads_all_prefix:
  "reads_all s vs \<Longrightarrow> s = p @ q \<Longrightarrow> 2 * length p + 1 < k \<Longrightarrow>
    (\<exists>ws. read_all_expressions k source exprs p = Inr ws) \<or> cut_off (read_all_expressions k source exprs p)"
proof (induction arbitrary: p k exprs rule: reads_all.induct)
  case (reads_all_Nil s)
  then have "skip_ws_and_comments p = []" using skip_ws_prefix [of p q] by auto
  then show ?case using reads_all_Nil(3) by (cases k) auto
next
  case (reads_all_Cons s c r v s' vs)
  show ?case
  proof (cases "skip_ws_and_comments p")
    case (Cons d p')
    then have d: "d = c" "c # r = (c # p') @ q" using skip_ws_append [of p q] reads_all_Cons by auto
    from reads_all_Cons(6) obtain k' where k: "k = Suc k'" by (cases k) auto
    have len: "2 * length (c # p') < k'" using reads_all_Cons(6) k skip_ws_Cons [OF Cons] by simp
    consider (same) r' where "s' = r' @ q" "read_expr k' source (c # p') = Inr (v, r')"
      | (short) v' where "read_expr k' source (c # p') = Inr (v', [])"
      | (cut) "cut_off (read_expr k' source (c # p'))"
      using reads_prefix(1) [OF reads_all_Cons(2) d(2) len] by blast
    then show ?thesis
    proof cases
      case same
      have "length r' < length (c # p')" by (rule reads_rest(1) [OF read_grammar(1) [OF same(2)]])
      then have "2 * length r' + 1 < k'" using len by simp
      from reads_all_Cons(4) [OF same(1) this, of "exprs @ [v]"] show ?thesis using Cons d k same(2) by auto
    next
      case short
      then show ?thesis using Cons d k len by (cases k') auto
    next
      case cut
      then show ?thesis using Cons d k by simp
    qed
  qed (use reads_all_Cons(6) in \<open>cases k; simp\<close>)
qed

text \<open>
  C26. A program that is still being typed is never rejected: every beginning of a readable source is
  itself readable or fails with an error that says the input is incomplete.
\<close>

theorem prefix_not_rejected:
  assumes "read_all (p @ q) = Inr vs"
  shows "(\<exists>ws. read_all p = Inr ws) \<or> (\<exists>m. read_all p = Inl (Parse_error m True))"
proof -
  have "reads_all (p @ q) vs" using assms by (simp add: read_all_iff)
  from reads_all_prefix [OF this refl, of "enough_calls p" p "[]"]
  have "(\<exists>ws. read_all p = Inr ws) \<or> cut_off (read_all p)"
    by (simp del: read_all_expressions.simps add: read_all_def enough_calls_def)
  then show ?thesis by (auto simp: cut_off_def split: sum.splits parse_failure.splits)
qed

theorem prefix_not_rejected_witness:
  "(\<exists>ws. read_all ''(a (b'' = Inr ws) \<or> (\<exists>m. read_all ''(a (b'' = Inl (Parse_error m True))"
proof (rule prefix_not_rejected)
  show "read_all (''(a (b'' @ '' c))'') =
      Inr [list_from_vector [VSym ''a'', list_from_vector [VSym ''b'', VSym ''c'']]]"
    by code_simp
qed

subsection \<open>Writing and reading back\<close>

text \<open>
  The values whose text reads back as the same value: no objects, no improper lists, symbols that do not look like
  something else, and floats that survive the fifteen digits they are printed with.
\<close>

definition plain_symbol :: "string \<Rightarrow> bool" where
  "plain_symbol s = (s \<noteq> [] \<and> ordinary (hd s) \<and> list_all (\<lambda>c. \<not> delimiter c) (tl s) \<and> atom_value s = VSym s)"

fun reads_back :: "lisp_value \<Rightarrow> bool" where
  "reads_back (VSym s) = plain_symbol s"
| "reads_back (VFloat d) = (fp_is_finite d \<and> strtod (format_float d) = Some d)"
| "reads_back (VCons a d) = (reads_back a \<and> reads_back d \<and> is_proper_list d)"
| "reads_back (VOther t a) = False"
| "reads_back _ = True"

lemma atom_reads:
  assumes "s \<noteq> []" "ordinary (hd s)" "list_all (\<lambda>c. \<not> delimiter c) (tl s)" "delimited t"
  shows "reads (s @ t) (atom_value s) t"
proof -
  from assms(1) obtain c s' where s: "s = c # s'" by (cases s) auto
  have "read_atom c s' = (atom_value s, [])"
    using assms(3) s by (simp add: read_atom_def list_all_iff takeWhile_eq_all_conv [THEN iffD2] dropWhile_eq_Nil_conv)
  then have "read_atom c (s' @ t) = (atom_value s, t)" using read_atom_append [OF assms(4), of c s'] by simp
  moreover have "skip_ws_and_comments (s @ t) = c # s' @ t" using assms(2) s by (simp add: ordinary_def)
  ultimately show ?thesis using reads_atom [of "s @ t" c "s' @ t"] assms(2) s by simp
qed

text \<open>Integers.\<close>

lemma digit_char_digit:
  assumes "d < 10"
  shows "is_digit (digit_char d) \<and> digit_value (digit_char d) = int d"
proof -
  have "d \<in> {0, 1, 2, 3, 4, 5, 6, 7, 8, 9}" using assms by auto
  then show ?thesis by (elim insertE emptyE) (simp; code_simp)+
qed

lemma digits_value_snoc: "digits_value b (s @ [c]) = digits_value b s * b + digit_value c"
  by (simp add: digits_value_def)

lemma pos_str_digits: "0 \<le> i \<Longrightarrow> list_all is_digit (pos_str i) \<and> digits_value 10 (pos_str i) = i \<and> pos_str i \<noteq> []"
proof (induction i rule: pos_str.induct)
  case (1 i)
  show ?case
  proof (cases "i < 10")
    case True
    then show ?thesis using 1(2) digit_char_digit [of "nat i"]
      by (simp add: pos_str.simps [of i] digits_value_def)
  next
    case False
    then show ?thesis using 1 digit_char_digit [of "nat (i mod 10)"]
      by (simp add: pos_str.simps [of i] digits_value_snoc)
  qed
qed

lemma digit_plain: "is_digit c \<Longrightarrow> ordinary c \<and> \<not> delimiter c \<and> c \<notin> set ''.eE#n-''"
proof -
  have "list_all (\<lambda>c. ordinary c \<and> \<not> delimiter c \<and> c \<notin> set ''.eE#n-'') ''0123456789''" by code_simp
  then show "is_digit c \<Longrightarrow> ordinary c \<and> \<not> delimiter c \<and> c \<notin> set ''.eE#n-''"
    by (simp only: list_all_iff is_digit_def) blast
qed

lemma from_chars_str: "from_chars (i64_str i) = Some i"
proof (cases "sint i < 0")
  case True
  have "- (2 ^ 63) \<le> sint i" using sint_ge [of i] by simp
  then show ?thesis using True pos_str_digits [of "- sint i"] sint_lt [of i]
    by (simp add: from_chars_def i64_str_def int_str_def Let_def)
next
  case False
  have "sint i < 2 ^ 63" using sint_lt [of i] by simp
  moreover have "take 1 (pos_str (sint i)) \<noteq> ''-''"
    using pos_str_digits [of "sint i"] False digit_plain by (cases "pos_str (sint i)") auto
  ultimately show ?thesis using False pos_str_digits [of "sint i"]
    by (simp add: from_chars_def i64_str_def int_str_def Let_def)
qed

lemma int_text_chars:
  "i64_str i \<noteq> [] \<and> (hd (i64_str i) = CHR ''-'' \<or> is_digit (hd (i64_str i))) \<and> list_all is_digit (tl (i64_str i))"
proof (cases "sint i < 0")
  case True
  then show ?thesis using pos_str_digits [of "- sint i"] by (simp add: i64_str_def int_str_def)
next
  case False
  then show ?thesis using pos_str_digits [of "sint i"]
    by (cases "pos_str (sint i)") (auto simp: i64_str_def int_str_def)
qed

lemma int_reads: "delimited t \<Longrightarrow> reads (i64_str i @ t) (VInt i) t"
proof -
  assume t: "delimited t"
  obtain c s where cs: "i64_str i = c # s" "c = CHR ''-'' \<or> is_digit c" "list_all is_digit s"
    using int_text_chars [of i] by (cases "i64_str i") auto
  have c: "ordinary c" "c \<notin> set ''.eE#n''" using cs(2) digit_plain [of c] by (elim disjE; simp add: ordinary_def is_space_def)+
  have "\<not> maybe_float (c # s)" using c(2) cs(3) digit_plain by (auto simp: maybe_float_def list_ex_iff list_all_iff)
  then have "atom_value (i64_str i) = VInt i" using c(2) cs(1) from_chars_str [of i] by (auto simp: atom_value_def)
  moreover have "list_all (\<lambda>c. \<not> delimiter c) s" using cs(3) digit_plain by (auto simp: list_all_iff)
  ultimately show ?thesis using atom_reads [of "i64_str i" t] t cs(1) c(1) by simp
qed

text \<open>Floats.\<close>

definition float_chars :: string where
  "float_chars = ''0123456789abcdefABCDEFxXpP.+-''"

lemma set_takeWhile_dropWhile: "set s = set (takeWhile P s) \<union> set (dropWhile P s)"
  by (metis set_append takeWhile_dropWhile_id)

lemma float_char_marks [simp]:
  "set ''.+-'' \<subseteq> set float_chars" "set ''0x'' \<subseteq> set float_chars" "set ''0X'' \<subseteq> set float_chars"
  "set ''pP'' \<subseteq> set float_chars" "set ''eE'' \<subseteq> set float_chars"
  by code_simp+

lemma digit_float_char: "is_digit c \<Longrightarrow> c \<in> set float_chars"
proof -
  have "list_all (\<lambda>c. c \<in> set float_chars) ''0123456789''" by code_simp
  then show "is_digit c \<Longrightarrow> c \<in> set float_chars" by (simp only: list_all_iff is_digit_def)
qed

lemma xdigit_float_char: "is_xdigit c \<Longrightarrow> c \<in> set float_chars"
proof -
  have "list_all (\<lambda>c. c \<in> set float_chars) ''0123456789abcdefABCDEF''" by code_simp
  then show "is_xdigit c \<Longrightarrow> c \<in> set float_chars" by (simp only: list_all_iff is_xdigit_def)
qed

lemma signed_text_chars:
  assumes "signed_text s = (neg, u)" "set u \<subseteq> set float_chars"
  shows "set s \<subseteq> set float_chars"
proof (cases s)
  case (Cons c r)
  then have "u = s \<or> (c \<in> set ''.+-'' \<and> u = r)" using assms(1) by (auto simp: signed_text_def split: if_splits)
  then show ?thesis using assms(2) Cons float_char_marks(1) by auto
qed simp

lemma exponent_text_chars: "exponent_text s = Some e \<Longrightarrow> set s \<subseteq> set float_chars"
proof -
  assume e: "exponent_text s = Some e"
  obtain neg u where u: "signed_text s = (neg, u)" by (cases "signed_text s")
  have "list_all is_digit u" using e u by (auto simp: exponent_text_def split: if_splits)
  then have "set u \<subseteq> set float_chars" using digit_float_char by (auto simp: list_all_iff)
  then show ?thesis by (rule signed_text_chars [OF u])
qed

lemma float_text_chars:
  assumes d: "float_text isd base markers ebase per neg s = Some d" and isd: "\<And>c. isd c \<Longrightarrow> c \<in> set float_chars"
    and markers: "set markers \<subseteq> set float_chars"
  shows "set s \<subseteq> set float_chars"
proof -
  let ?r = "dropWhile isd s"
  define rest where "rest = (if take 1 ?r = ''.'' then dropWhile isd (drop 1 ?r) else ?r)"
  have "float_text isd base markers ebase per neg s = None" if "rest \<noteq> []" "\<not> (hd rest \<in> set markers \<and> (\<exists>e. exponent_text (tl rest) = Some e))"
    using that unfolding float_text_def Let_def rest_def [symmetric] by (cases "exponent_text (tl rest)") simp_all
  then have "rest = [] \<or> (hd rest \<in> set markers \<and> (\<exists>e. exponent_text (tl rest) = Some e))"
    using d by (metis option.distinct(1))
  then have rest: "set rest \<subseteq> set float_chars"
    using exponent_text_chars markers by (cases rest) auto
  have tw: "set (takeWhile isd u) \<subseteq> set float_chars" for u using isd by (auto dest: set_takeWhileD)
  have "set ?r \<subseteq> set float_chars"
  proof (cases "take 1 ?r = ''.''")
    case True
    then obtain u where "?r = CHR ''.'' # u" by (cases ?r) auto
    then show ?thesis using rest tw [of u] set_takeWhile_dropWhile [of u isd] True
      using float_char_marks(1) by (auto simp: rest_def)
  qed (use rest in \<open>simp add: rest_def\<close>)
  then show ?thesis using tw [of s] set_takeWhile_dropWhile [of s isd] by auto
qed

lemma strtod_chars: "strtod s = Some d \<Longrightarrow> set s \<subseteq> set float_chars"
proof -
  assume d: "strtod s = Some d"
  obtain neg u where u: "signed_text s = (neg, u)" by (cases "signed_text s")
  have "set u \<subseteq> set float_chars"
  proof (cases "take 2 u \<in> {''0x'', ''0X''} \<and> list_ex is_xdigit (take 2 (drop 2 u))")
    case True
    then have "float_text is_xdigit 16 ''pP'' 2 4 neg (drop 2 u) = Some d" using d u by (simp add: strtod_def)
    then have "set (drop 2 u) \<subseteq> set float_chars"
      by (rule float_text_chars) (simp_all add: xdigit_float_char float_char_marks del: set_simps)
    moreover have "set (take 2 u) \<subseteq> set float_chars" using True float_char_marks(2,3) by auto
    ultimately show ?thesis by (metis append_take_drop_id set_append Un_subset_iff)
  next
    case False
    then have "float_text is_digit 10 ''eE'' 10 1 neg u = Some d" using d u by (auto simp: strtod_def split: if_splits)
    then show ?thesis by (rule float_text_chars) (simp_all add: digit_float_char float_char_marks del: set_simps)
  qed
  then show ?thesis by (rule signed_text_chars [OF u])
qed

lemma float_reads:
  assumes "fp_is_finite d" "strtod (format_float d) = Some d" "delimited t"
  shows "reads (format_float d @ t) (VFloat d) t"
proof -
  let ?s = "format_float d"
  have mf: "maybe_float ?s"
    using assms(1) by (auto simp: format_float_def fp_is_finite_def fp_is_nan_def fp_is_inf_def Let_def maybe_float_def)
  then have ne: "?s \<noteq> []" by (auto simp: maybe_float_def)
  have "list_all (\<lambda>c. ordinary c \<and> \<not> delimiter c \<and> c \<noteq> CHR ''#'' \<and> c \<noteq> CHR ''n'') float_chars" by code_simp
  then have plain: "ordinary c \<and> \<not> delimiter c \<and> c \<noteq> CHR ''#'' \<and> c \<noteq> CHR ''n''" if "c \<in> set float_chars" for c
    using that by (simp only: list_all_iff) blast
  have chars: "\<And>c. c \<in> set ?s \<Longrightarrow> c \<in> set float_chars" using strtod_chars [OF assms(2)] by auto
  have "atom_value ?s = VFloat d"
    using mf assms(2) plain chars ne by (cases ?s) (auto simp: atom_value_def)
  moreover have "ordinary (hd ?s)" "list_all (\<lambda>c. \<not> delimiter c) (tl ?s)"
    using plain chars ne by (cases ?s; auto simp: list_all_iff)+
  ultimately show ?thesis using atom_reads [OF ne _ _ assms(3)] by simp
qed

lemma list_from_vector_simps [simp]:
  "list_from_vector [] = VNil" "list_from_vector (v # vs) = VCons v (list_from_vector vs)"
  by (simp_all add: list_from_vector_def)

text \<open>Strings.\<close>

lemma read_string_escaped: "read_string_literal source out (escape_text s @ dquote # t) = Inr (VStr (out @ s), t)"
proof (induction s arbitrary: out)
  case (Cons c s)
  then show ?case by (auto simp: escape_text_def escape_char_def unescaped_def)
qed (simp add: escape_text_def)

lemma string_reads: "reads (quoted (escape_text s) @ t) (VStr s) t"
  using reads_string [of "quoted (escape_text s) @ t" "escape_text s @ dquote # t" "VStr s" t]
    read_string_escaped [of "[]" "[]" s t] by (simp add: quoted_def is_space_def)

lemma word_reads:
  assumes "delimited t"
  shows "reads (''nil'' @ t) VNil t" "reads (''#t'' @ t) (VBool True) t" "reads (''#f'' @ t) (VBool False) t"
  using atom_reads [of "''nil''" t] atom_reads [of "''#t''" t] atom_reads [of "''#f''" t] assms
  by (simp_all add: atom_value_def ordinary_def delimiter_def is_space_def)

lemma atom_written:
  assumes "reads_back v" "\<And>a d. v \<noteq> VCons a d"
  shows "\<exists>x. print_atom info True v = Inr x \<and> (\<forall>t. delimited t \<longrightarrow> reads (x @ t) v t)"
proof (cases v)
  case (VSym s)
  have "reads (s @ t) v t" if "delimited t" for t
    using atom_reads [of s t] assms(1) VSym that by (simp add: plain_symbol_def)
  then show ?thesis using VSym by simp
next
  case (VBool b)
  then show ?thesis using word_reads by (cases b) auto
qed (use assms word_reads int_reads float_reads string_reads in auto)

lemma written_atom:
  assumes "reads_back v" "\<And>a d. v \<noteq> VCons a d"
  shows "\<exists>x. print_impl info True v = Inr x \<and> (\<forall>t. delimited t \<longrightarrow> reads (x @ t) v t)"
proof -
  have "print_impl info True v = print_atom info True v"
  proof (cases v)
    case (VCons a d)
    then show ?thesis using assms(2) by blast
  qed simp_all
  then show ?thesis using atom_written [OF assms] by simp
qed

lemma delimited_close: "print_tail info True d = Inr y \<Longrightarrow> delimited (y @ CHR '')'' # t)"
  by (cases d) (auto simp: delimited_def delimiter_def is_space_def)

lemma skip_ws_space [simp]: "skip_ws_and_comments (CHR '' '' # s) = skip_ws_and_comments s"
  by (simp add: is_space_def)

text \<open>An item that starts an expression can stand in a list.\<close>

lemma reads_skip: "reads s v r \<Longrightarrow> reads (skip_ws_and_comments s) v r"
  by (erule reads.cases) (metis skip_ws_idem reads_reads_items.intros(1-4))+

lemma reads_item:
  assumes "reads s v s'" "reads_items s' vs t"
  shows "reads_items s (v # vs) t"
proof (cases "skip_ws_and_comments s")
  case Nil
  then show ?thesis using reads_rest(1) [OF reads_skip [OF assms(1)]] by simp
next
  case (Cons c r)
  have "c \<noteq> CHR '')''"
    by (cases rule: reads.cases [OF assms(1)]) (use Cons in \<open>auto simp: ordinary_def reader_macro_cases\<close>)
  then show ?thesis using reads_Cons [OF Cons] reads_skip [OF assms(1)] Cons assms(2) by simp
qed

lemma reads_items_skip: "reads_items s vs t \<Longrightarrow> skip_ws_and_comments s' = skip_ws_and_comments s \<Longrightarrow> reads_items s' vs t"
  by (erule reads_items.cases) (metis reads_Nil reads_Cons)+

lemma written_reads:
  "reads_back v \<Longrightarrow> \<exists>x. print_impl info True v = Inr x \<and> (\<forall>t. delimited t \<longrightarrow> reads (x @ t) v t)"
  "reads_back v \<Longrightarrow> is_proper_list v \<Longrightarrow>
    \<exists>y vs. print_tail info True v = Inr y \<and> v = list_from_vector vs \<and> (\<forall>t. reads_items (y @ CHR '')'' # t) vs t)"
proof (induction v)
  case (VCons a d)
  {
    case 1
    then obtain x where x: "print_impl info True a = Inr x" "\<And>t. delimited t \<Longrightarrow> reads (x @ t) a t"
      using VCons(1) by auto
    from 1 obtain y vs where y: "print_tail info True d = Inr y" "d = list_from_vector vs" "\<And>t. reads_items (y @ CHR '')'' # t) vs t"
      using VCons(4) by auto
    have "reads_items (x @ y @ CHR '')'' # t) (a # vs) t" for t
      by (rule reads_item [OF x(2) y(3)]) (rule delimited_close [OF y(1)])
    then have "reads (CHR ''('' # x @ y @ CHR '')'' # t) (list_from_vector (a # vs)) t" for t
      by (intro reads_list [of _ "x @ y @ CHR '')'' # t"]) (simp_all add: is_space_def)
    then show ?case using x(1) y(1,2) by simp
  next
    case 2
    then obtain x where x: "print_impl info True a = Inr x" "\<And>t. delimited t \<Longrightarrow> reads (x @ t) a t"
      using VCons(1) by auto
    from 2 obtain y vs where y: "print_tail info True d = Inr y" "d = list_from_vector vs" "\<And>t. reads_items (y @ CHR '')'' # t) vs t"
      using VCons(4) by auto
    have "reads_items (CHR '' '' # x @ y @ CHR '')'' # t) (a # vs) t" for t
      by (rule reads_items_skip [OF reads_item [OF x(2) y(3)]]) (simp_all add: delimited_close [OF y(1)] is_space_def)
    then show ?case using x(1) y(1,2) by (intro exI [of _ "'' '' @ x @ y"] exI [of _ "a # vs"]) simp
  }
next
  case VNil
  {
    case 1 show ?case using atom_written [of VNil info] by simp
  next
    case 2 show ?case by (intro exI [of _ "[]"] exI [of _ "[]"]) (simp add: reads_Nil is_space_def)
  }
qed ((rule written_atom; simp), simp)+

lemma written_read_back:
  assumes "reads_back v"
  shows "\<exists>text. write_value info v = Inr text \<and> read_one text = Inr v"
proof -
  obtain x where x: "print_impl info True v = Inr x" "reads x v []"
    using written_reads(1) [OF assms, of info] by (force simp: delimited_def)
  have r: "reads (skip_ws_and_comments x) v []" by (rule reads_skip [OF x(2)])
  have "reads_all x [v]"
  proof (cases "skip_ws_and_comments x")
    case Nil
    then show ?thesis using reads_rest(1) [OF r] by simp
  next
    case (Cons c s)
    then show ?thesis using reads_all_Cons [OF Cons _ reads_all_Nil] r by simp
  qed
  then have "read_one x = Inr v" by (simp add: read_one_def read_all_iff [THEN iffD2])
  then show ?thesis using x(1) by (simp add: write_value_def)
qed


definition no_objects :: object_info where
  "no_objects = \<lparr>oi_name = (\<lambda>_. []), oi_size = (\<lambda>_. 0)\<rparr>"

definition sample_data :: lisp_value where
  "sample_data = list_from_vector [VSym ''seq'', VInt (- 42), VFloat 0x3FD0000000000000, VStr [dquote, newline], VNil]"


text \<open>
  Not everything that \<open>write\<close> accepts reads back. A dotted pair is written with a dot, which the reader takes
  for a symbol, so the pair comes back as a list of three items; and fifteen digits do not determine a double, so one third
  comes back as a different number.
\<close>

theorem write_loses:
  "write_value info (VCons (VInt 1) (VInt 2)) = Inr ''(1 . 2)'' \<and>
   read_one ''(1 . 2)'' = Inr (list_from_vector [VInt 1, VSym ''.'', VInt 2]) \<and>
   write_value info (VFloat 0x3FD5555555555555) = Inr ''0.333333333333333'' \<and>
   read_one ''0.333333333333333'' \<noteq> Inr (VFloat 0x3FD5555555555555)"
proof (intro conjI)
  have "i64_str 1 = ''1''" "i64_str 2 = ''2''" "format_float 0x3FD5555555555555 = ''0.333333333333333''"
    "fp_is_finite 0x3FD5555555555555" by code_simp+
  then show "write_value info (VCons (VInt 1) (VInt 2)) = Inr ''(1 . 2)''"
    "write_value info (VFloat 0x3FD5555555555555) = Inr ''0.333333333333333''"
    by (simp_all add: write_value_def)
  show "read_one ''(1 . 2)'' = Inr (list_from_vector [VInt 1, VSym ''.'', VInt 2])" by code_simp
  show "read_one ''0.333333333333333'' \<noteq> Inr (VFloat 0x3FD5555555555555)" by code_simp
qed

end
