(* ===== verification/Lisp_Guarantees.thy ===== *)
theory Lisp_Guarantees
  imports Lisp_Fuel Lisp_Scope Bytecode_Correct Syntax
begin

text \<open>
  What the evaluator guarantees: its answers are determined, evaluation respects lexical scope, tail calls do not
  change answers (except those of \<open>or\<close>), and compiled closures compute what their bodies say.
\<close>

subsection \<open>Answers\<close>

text \<open>
  The answer of an evaluation is determined: if it ends with some number of nested calls, then more do not change value,
  error or effects.
\<close>

theorem eval_determined:
  assumes "primitives_monotone H" "fst (eval_in_position H k e s p w) \<noteq> Inl No_fuel" "k \<le> n"
  shows "eval_in_position H n e s p w = eval_in_position H k e s p w"
  using ev_le_fuel [OF assms(1,3)] assms(2) by (auto simp: eval_in_position_def ev_le_def intro: res_leD)

subsection \<open>Scope\<close>

text \<open>
  C8. Evaluation respects lexical scope: evaluating an expression in a scope changes no binding of any other existing
  environment, no closure, and not the stack of load directories; a function call changes no existing environment at all.
  All this also holds when the evaluation fails.
\<close>

theorem eval_lexical:
  assumes "primitives_sound H" "world_ok w" "s < lw_next_env w"
  shows "world_ok (snd (eval_in_position H k e s p w)) \<and> extends {s} w (snd (eval_in_position H k e s p w)) \<and>
    extends {} w (snd (ev_invoke (evaluator_of H k) f args w))"
proof -
  have "sound {s} w (eval_in_position H k e s p w)" "sound {} w (ev_invoke (evaluator_of H k) f args w)"
    using sound_evaluator_of [OF assms(1), of k] by (simp_all add: sound_evaluator_def eval_in_position_def)
  then show ?thesis using assms(2,3) by (simp add: sound_def live_def)
qed

subsection \<open>Tail position\<close>

definition final_expr :: "lisp_value list \<Rightarrow> lisp_value list" where
  "final_expr es = (if es = [] then [] else [last es])"

definition clause_tail :: "lisp_value \<Rightarrow> lisp_value list" where
  "clause_tail c = (case vector_from_list c of Inr (t # body) \<Rightarrow> final_expr body | _ \<Rightarrow> [])"

text \<open>The expressions in tail position of a form.\<close>

definition tail_exprs :: "lisp_value \<Rightarrow> lisp_value list" where
  "tail_exprs e =
     (case e of
        VCons head rest \<Rightarrow>
          (case vector_from_list rest of
             Inl _ \<Rightarrow> []
           | Inr args \<Rightarrow>
               (case classify_special_form head of
                  SF_if \<Rightarrow> drop 1 args
                | SF_let \<Rightarrow> final_expr (drop 1 args)
                | SF_begin \<Rightarrow> final_expr args
                | SF_and \<Rightarrow> final_expr args
                | SF_cond \<Rightarrow> concat (map clause_tail args)
                | _ \<Rightarrow> []))
      | _ \<Rightarrow> [])"

definition is_or :: "lisp_value \<Rightarrow> bool" where
  "is_or e = (case e of VCons head rest \<Rightarrow> classify_special_form head = SF_or \<and> rest \<noteq> VNil | _ \<Rightarrow> False)"

fun or_free :: "nat \<Rightarrow> lisp_value \<Rightarrow> bool" where
  "or_free 0 e = False"
| "or_free (Suc n) e = (\<not> is_or e \<and> list_all (or_free n) (tail_exprs e))"

text \<open>
  A step in tail position against the same step elsewhere: they agree, or the first bounces to an expression of \<open>L\<close> that the
  second evaluates, or the first bounces into a function body that the second evaluates to its end.
\<close>

definition bounce_of ::
  "'h evaluator \<Rightarrow> lisp_value list \<Rightarrow> (eval_outcome, 'h lisp_world) lisp_result \<Rightarrow> (eval_outcome, 'h lisp_world) lisp_result \<Rightarrow> bool" where
  "bounce_of ev L t n \<longleftrightarrow>
     n = t \<or> n = result_of (resume ev t) \<or>
     (\<exists>e s w. t = (Inr (Tail_to e s), w) \<and> e \<in> set L \<and> n = result_of (ev_eval ev e s Non_tail w))"

lemma bounce_refl [simp]: "bounce_of ev L t t"
  by (simp add: bounce_of_def)

lemma bounce_ebind: "(\<And>x w. bounce_of ev L (f x w) (g x w)) \<Longrightarrow> bounce_of ev L (ebind m f) (ebind m g)"
  by (cases m; cases "fst m") (auto simp: ebind_def)

lemma bounce_mono: "bounce_of ev L t n \<Longrightarrow> set L \<subseteq> set L' \<Longrightarrow> bounce_of ev L' t n"
  unfolding bounce_of_def by blast

lemma bounce_here: "e \<in> set L \<Longrightarrow> bounce_of ev L (Inr (Tail_to e s), w) (result_of (eval_non_tail ev e s w))"
  by (auto simp: bounce_of_def eval_non_tail_def)

lemma bounce_sequence_from:
  "bounce_of ev (final_expr es) (sequence_from ev acc es s Tail w) (sequence_from ev acc es s Non_tail w)"
proof (induction es arbitrary: acc w)
  case (Cons e es)
  show ?case
  proof (cases "es = []")
    case True
    have "(\<lambda>v. sequence_from ev v [] s Non_tail) = (\<lambda>v. ok_value (Eval_result v))" by (simp add: ok_value_def fun_eq_iff)
    then show ?thesis using True bounce_here [of e "[e]" ev s w] by (simp add: final_expr_def result_of_def)
  next
    case False
    then have "final_expr (e # es) = final_expr es" by (simp add: final_expr_def)
    then show ?thesis using False Cons by (auto intro!: bounce_ebind)
  qed
qed simp

lemma bounce_sequence: "bounce_of ev (final_expr es) (eval_sequence_step ev es s Tail w) (eval_sequence_step ev es s Non_tail w)"
  unfolding eval_sequence_step_def by (rule bounce_sequence_from)

lemma bounce_chain:
  "bounce_of ev (final_expr es) (eval_chain ev st (\<lambda>v. v) es acc s Tail w) (eval_chain ev st (\<lambda>v. v) es acc s Non_tail w)"
proof (induction es arbitrary: acc w)
  case (Cons e es)
  show ?case
  proof (cases "es = []")
    case True
    have "(\<lambda>v w. if st v then (Inr (Eval_result v), w) else eval_chain ev st (\<lambda>v. v) [] v s Non_tail w) =
        (\<lambda>v. ok_value (Eval_result v))" by (simp add: ok_value_def fun_eq_iff)
    then show ?thesis using True bounce_here [of e "[e]" ev s w] by (simp add: final_expr_def result_of_def)
  next
    case False
    then have "final_expr (e # es) = final_expr es" by (simp add: final_expr_def)
    then show ?thesis using False Cons by (auto intro!: bounce_ebind)
  qed
qed simp

lemma bounce_cond:
  "bounce_of ev (concat (map clause_tail cs)) (eval_cond_form ev cs s Tail w) (eval_cond_form ev cs s Non_tail w)"
proof (induction cs arbitrary: w)
  case (Cons c cs)
  have rest: "bounce_of ev (clause_tail c @ concat (map clause_tail cs)) (eval_cond_form ev cs s Tail w) (eval_cond_form ev cs s Non_tail w)"
    for w by (rule bounce_mono [OF Cons]) auto
  have body: "bounce_of ev (clause_tail c @ concat (map clause_tail cs)) (eval_sequence_step ev body s Tail w)
      (eval_sequence_step ev body s Non_tail w)" if "vector_from_list c = Inr (t # body)" for t body w
    by (rule bounce_mono [OF bounce_sequence]) (simp add: clause_tail_def that)
  show ?case
    using rest body by (auto split: sum.split list.split intro!: bounce_ebind)
qed simp

lemma bounce_apply:
  "bounce_of ev L (apply_callable_in_position H ev fn args Tail w) (apply_callable_in_position H ev fn args Non_tail w)"
proof (cases "\<exists>i. fn = VOther T_closure i")
  case True
  then show ?thesis
    by (auto simp: apply_callable_in_position_def Let_def eval_sequence_in_position_def bounce_of_def make_env_def ebind_def)
next
  case False
  then show ?thesis by (auto simp: apply_callable_in_position_def split: lisp_value.split value_type.split)
qed

lemma bounce_if: "bounce_of ev (drop 1 args) (eval_if_form ev args s Tail w) (eval_if_form ev args s Non_tail w)"
proof (cases "length args = 2 \<or> length args = 3")
  case True
  then have "args ! 1 \<in> set (drop 1 args)" "length args = 3 \<Longrightarrow> args ! 2 \<in> set (drop 1 args)"
    by (force simp: in_set_conv_nth) (auto simp: in_set_conv_nth numeral_2_eq_2 intro: exI [of _ 1])
  then show ?thesis
    by (auto simp: eval_if_form_def eval_or_bounce_def intro!: bounce_ebind bounce_here)
qed (simp add: eval_if_form_def)

lemma bounce_let:
  "bounce_of ev (final_expr (drop 1 args)) (eval_let_form ev args s Tail w) (eval_let_form ev args s Non_tail w)"
  unfolding eval_let_form_def by (auto split: sum.split intro!: bounce_ebind bounce_sequence)

lemma bounce_step:
  fixes H :: "'a lisp_host"
  assumes "\<not> is_or e"
  shows "bounce_of ev (tail_exprs e) (eval_step_in_position H ev e s Tail w) (eval_step_in_position H ev e s Non_tail w)"
proof (cases e)
  case (VCons head rest)
  show ?thesis
  proof (cases "vector_from_list rest")
    case (Inr args)
    have no_or: "classify_special_form head = SF_or \<Longrightarrow> args = []"
      using assms VCons Inr by (simp add: is_or_def)
    have "bounce_of ev (tail_exprs e) (dispatch_special_form H ev (classify_special_form head) args s Tail w)
        (dispatch_special_form H ev (classify_special_form head) args s Non_tail w)"
      using bounce_if bounce_let bounce_cond bounce_chain bounce_sequence no_or
      by (cases "classify_special_form head")
        (simp_all add: tail_exprs_def VCons Inr eval_and_form_def eval_or_form_def eval_begin_form_def)
    moreover have "ebind (lift (list_items rest) w) f = f args w" for f :: "_ \<Rightarrow> 'a lisp_world \<Rightarrow> (eval_outcome, _) lisp_result"
      by (simp add: Inr list_items_def lift_def ebind_def)
    ultimately show ?thesis
      by (auto simp: eval_step_in_position_def eval_list_form_in_position_def VCons intro!: bounce_ebind bounce_apply)
  qed (simp add: eval_step_in_position_def eval_list_form_in_position_def VCons list_items_def lift_def ebind_def)
qed (simp_all add: eval_step_in_position_def)

lemma resume_result_of [simp]: "resume ev (result_of r) = r"
  by (cases r; cases "fst r"; simp add: resume_def result_of_def ebind_def ok_value_def)

text \<open>
  C9. Tail calls do not change answers: an expression evaluated in tail position, where calls replace the current evaluation
  instead of nesting, gives the same value, error and effects as elsewhere, provided no \<open>or\<close> is in tail position in it.
\<close>

theorem tail_position_irrelevant:
  assumes "or_free n e"
  shows "eval_in_position H k e s Tail w = eval_in_position H k e s Non_tail w"
  using assms
proof (induction k arbitrary: n e s w)
  case 0
  show ?case by (simp add: eval_in_position_def no_evaluator_def)
next
  case (Suc k)
  let ?ev = "evaluator_of H k"
  from Suc.prems obtain m where e: "\<not> is_or e" "list_all (or_free m) (tail_exprs e)" by (cases n) auto
  have "ev_eval ?ev e' s' Tail w' = ev_eval ?ev e' s' Non_tail w'" if "e' \<in> set (tail_exprs e)" for e' s' w'
    using Suc.IH [of m e'] e(2) that by (simp add: list_all_iff eval_in_position_def)
  then have "resume ?ev (eval_step_in_position H ?ev e s Tail w) = resume ?ev (eval_step_in_position H ?ev e s Non_tail w)"
    using bounce_step [OF e(1), of ?ev H s w] by (auto simp: bounce_of_def) (simp add: resume_def ebind_def)
  then show ?case by (simp add: eval_in_position_def next_evaluator_def)
qed

subsection \<open>Calls of compiled closures\<close>

lemma run_frame_tail: "run_frame n h code m w = (Frame_tail f a, w1) \<Longrightarrow> mh_compiled h f w1"
proof (induction n arbitrary: m w)
  case (Suc n)
  have "mh_compiled h f w1" if "vm_step h i m w = (Inl (Frame_tail f a), w1)" for i
    using that by (cases i) (auto split: if_splits option.splits prod.splits sum.splits list.splits)
  then show ?case using Suc by (auto split: if_splits prod.splits sum.splits)
qed (auto split: if_splits)

lemma compiled_of_host: "mh_compiled (closure_host ev s) f w \<longleftrightarrow> (\<exists>i. f = VOther T_closure i \<and> cl_compiled (lw_closures w i) \<noteq> None)"
  by (auto simp: closure_host_def closure_of_def split: option.splits lisp_value.splits value_type.splits)

lemma invoke_compiled:
  assumes "f = VOther T_closure i" "cl_compiled (lw_closures w i) \<noteq> None"
  shows "ev_invoke (evaluator_of H (Suc k)) f args w =
    (if length (cl_params (lw_closures w i)) \<noteq> length args
     then (Inl (arity_error (length (cl_params (lw_closures w i))) (length args)), w)
     else ev_execute (evaluator_of H k) f args w)"
  using assms by (auto simp: next_evaluator_def invoke_callable_def apply_callable_in_position_def)
    (simp add: resume_def ebind_def)

text \<open>What a tail call does through the loop of \<open>execute_compiled_closure\<close> is what calling the function does.\<close>

lemma tail_call_invokes:
  assumes "primitives_monotone H" "mh_compiled (closure_host (evaluator_of H k) s) f w"
    and "ev_invoke (evaluator_of H k) f args w = (r, w')" "r \<noteq> Inl No_fuel"
  shows "ev_execute (evaluator_of H k) f args w = (r, w')"
proof (cases k)
  case 0
  then show ?thesis using assms(3,4) by (simp add: no_evaluator_def fail_def)
next
  case (Suc j)
  from assms(2) obtain i cc where f: "f = VOther T_closure i" "cl_compiled (lw_closures w i) = Some cc"
    unfolding compiled_of_host by auto
  show ?thesis
  proof (cases "length (cl_params (lw_closures w i)) = length args")
    case True
    then have "ev_execute (evaluator_of H j) f args w = (r, w')"
      using assms(3) Suc invoke_compiled [of f i w H j args] f by simp
    moreover have "res_le (ev_execute (evaluator_of H j) f args w) (ev_execute (evaluator_of H k) f args w)"
      using ev_le_fuel [OF assms(1), of j k] Suc by (simp add: ev_le_def)
    ultimately show ?thesis using assms(4) by (auto simp: res_le_def)
  next
    case False
    then show ?thesis using assms(3) Suc invoke_compiled [of f i w H j args] f
      by (simp add: next_evaluator_def execute_compiled_closure_def closure_of_def)
  qed
qed


subsection \<open>Where function bodies differ\<close>

lemma evaluator_numeral: "evaluator_of H (numeral k) = next_evaluator H (evaluator_of H (pred_numeral k))"
  by (simp add: numeral_eq_Suc)

lemma next_evaluator_sel [simp]:
  "ev_eval (next_evaluator H ev) e s p w = resume ev (eval_step_in_position H ev e s p w)"
  "ev_invoke (next_evaluator H ev) = invoke_callable H ev"
  "ev_execute (next_evaluator H ev) = execute_compiled_closure ev"
  by (simp_all add: next_evaluator_def)

lemma ebind_simps [simp]: "ebind (Inr x, w) f = f x w" "ebind (Inl e, w) f = (Inl e, w)"
  by (simp_all add: ebind_def)

lemmas eval_unfold = eval_step_in_position_def eval_list_form_in_position_def list_items_def lift_def classify_special_form_def
  eval_non_tail_def resume_def result_of_def ok_value_def eval_or_form_def eval_lambda_form_def expect_min_def parse_params_def
  make_closure_def apply_callable_in_position_def closure_of_def execute_compiled_closure_def eval_let_form_def make_env_def
  parse_binding_def eval_sequence_step_def define_name_def bind_name_def lookup.simps

definition or_false :: lisp_value where
  "or_false = list_from_vector [VSym ''or'', VBool False]"

definition call_of :: "lisp_value \<Rightarrow> lisp_value" where
  "call_of body = list_from_vector [list_from_vector [VSym ''lambda'', VNil, body]]"

text \<open>
  C40. The same expression can mean two things. At top level \<open>(or #f)\<close> is nil, as documented, but as the body of a function it
  is \<open>#f\<close>; and \<open>(let ((a 1) (b (let ((c 2)) c))) a)\<close> is 1 at top level and 2 as the body of a function.
\<close>

theorem function_body_differs:
  "fst (eval_source H 9 ''(or #f)'' s w) = Inr VNil \<and>
   fst (eval_source H 9 ''((lambda () (or #f)))'' s w) = Inr (VBool False) \<and>
   fst (eval_source H 9 ''(let ((a 1) (b (let ((c 2)) c))) a)'' s w) = Inr (VInt 1) \<and>
   fst (eval_source H 9 ''((lambda () (let ((a 1) (b (let ((c 2)) c))) a)))'' s w) = Inr (VInt 2)"
proof (intro conjI)
  have or: "read_all ''(or #f)'' = Inr [or_false]" by code_simp
  then show "fst (eval_source H 9 ''(or #f)'' s w) = Inr VNil"
    by (simp add: eval_source_def parse_source_def or_false_def evaluator_numeral eval_unfold list_from_vector_def is_truthy_def)
  have "read_all ''((lambda () (or #f)))'' = Inr [call_of or_false]"
    "try_compile_closure [] [or_false] = Some \<lparr>cc_code = [Push_const (VBool False), Return_value], cc_local_count = 0\<rparr>" by code_simp+
  then show "fst (eval_source H 9 ''((lambda () (or #f)))'' s w) = Inr (VBool False)"
    by (simp add: eval_source_def parse_source_def call_of_def evaluator_numeral eval_unfold list_from_vector_def
        execute_frame_def enter_frame_def push_def numeral_2_eq_2)
  have "read_all ''(let ((a 1) (b (let ((c 2)) c))) a)'' = Inr [nested_let]" by code_simp
  then show "fst (eval_source H 9 ''(let ((a 1) (b (let ((c 2)) c))) a)'' s w) = Inr (VInt 1)"
    by (simp add: eval_source_def parse_source_def nested_let_def call_list_def evaluator_numeral eval_unfold list_from_vector_def)
  have "read_all ''((lambda () (let ((a 1) (b (let ((c 2)) c))) a)))'' = Inr [call_of nested_let]"
    "try_compile_closure [] [nested_let] = Some nested_let_code" by code_simp+
  then show "fst (eval_source H 9 ''((lambda () (let ((a 1) (b (let ((c 2)) c))) a)))'' s w) = Inr (VInt 2)"
    by (simp add: eval_source_def parse_source_def call_of_def evaluator_numeral eval_unfold list_from_vector_def
        execute_frame_def enter_frame_def push_def numeral_2_eq_2 nested_let_code_def)
qed

subsection \<open>Witnesses\<close>

definition sample_lisp :: "unit lisp_host" where
  "sample_lisp = \<lparr>lh_primitive = (\<lambda>i inv args. ok_value (list_from_vector args)), lh_read_file = (\<lambda>_ _. None),
     lh_store_definition = (\<lambda>d h. (1, h))\<rparr>"

definition sample_call :: lisp_value where
  "sample_call = list_from_vector [VSym ''list'', VSym ''x'']"

definition sample_world :: "unit lisp_world" where
  "sample_world = \<lparr>lw_envs = (\<lambda>_. \<lparr>ef_parent = None, ef_bindings = [''list'' \<mapsto> VOther T_primitive_fn 0]\<rparr>), lw_next_env = 1,
     lw_closures = (\<lambda>_. \<lparr>cl_params = [''x''], cl_body = [sample_call], cl_env = 0,
       cl_compiled = try_compile_closure [''x''] [sample_call]\<rparr>),
     lw_next_closure = 1, lw_load_base_dirs = [], lw_host = ()\<rparr>"

lemma sample_lisp_sound: "primitives_monotone sample_lisp" "primitives_sound sample_lisp"
  by (simp_all add: primitives_monotone_def primitives_sound_def sample_lisp_def)

lemma sample_world_ok: "world_ok sample_world"
  by (simp add: world_ok_def envs_ok_def sample_world_def)

theorem eval_determined_witness:
  "eval_in_position sample_lisp 9 or_false 0 Non_tail sample_world = eval_in_position sample_lisp 2 or_false 0 Non_tail sample_world"
proof (rule eval_determined [OF sample_lisp_sound(1)])
  show "fst (eval_in_position sample_lisp 2 or_false 0 Non_tail sample_world) \<noteq> Inl No_fuel"
    by (simp add: eval_in_position_def or_false_def evaluator_numeral eval_unfold list_from_vector_def is_truthy_def)
qed simp

theorem eval_lexical_witness:
  "world_ok (snd (eval_in_position sample_lisp 3 (VSym ''x'') 0 Tail sample_world)) \<and>
   extends {0} sample_world (snd (eval_in_position sample_lisp 3 (VSym ''x'') 0 Tail sample_world)) \<and>
   extends {} sample_world (snd (ev_invoke (evaluator_of sample_lisp 3) (VOther T_closure 0) [VInt 1] sample_world))"
  by (rule eval_lexical [OF sample_lisp_sound(2) sample_world_ok]) (simp add: sample_world_def)

theorem tail_position_irrelevant_witness:
  "eval_in_position sample_lisp 9 (VCons (VSym ''begin'') (VCons sample_call VNil)) 0 Tail sample_world =
   eval_in_position sample_lisp 9 (VCons (VSym ''begin'') (VCons sample_call VNil)) 0 Non_tail sample_world"
proof (rule tail_position_irrelevant)
  show "or_free 5 (VCons (VSym ''begin'') (VCons sample_call VNil))" by code_simp
qed


end
