(* ===== verification/Demo_Callbacks.thy ===== *)
theory Demo_Callbacks
  imports Frame
begin

text \<open>
  The callbacks every host starts with (\<open>install_demo_callbacks\<close> of \<open>src/bt/runtime_host.cpp\<close>) and the demo robot they
  use. The \<open>node_memory&\<close> argument of an action is the memory of its node in the context. Robot and scheduler may be absent;
  the scheduler runs the sleeping job of \<open>async-sleep-ms\<close> in the outside world.
\<close>

subsection \<open>Arguments and values\<close>

definition require_key_arg :: "lisp_value list \<Rightarrow> nat \<Rightarrow> string \<Rightarrow> exn + string" where
  "require_key_arg args i callback =
     (if i \<ge> length args then Inl (Std_exception (callback @ '': missing key argument''))
      else case args ! i of
        VSym s \<Rightarrow> Inr s
      | VStr s \<Rightarrow> Inr s
      | _ \<Rightarrow> Inl (Std_exception (callback @ '': key must be symbol or string'')))"

definition require_int_arg :: "lisp_value list \<Rightarrow> nat \<Rightarrow> string \<Rightarrow> exn + i64" where
  "require_int_arg args i callback =
     (let e = Inl (Std_exception (callback @ '': expected integer argument at index '' @ nat_str i))
      in if i \<ge> length args then e else case args ! i of VInt v \<Rightarrow> Inr v | _ \<Rightarrow> e)"

definition require_floaty_arg :: "lisp_value list \<Rightarrow> nat \<Rightarrow> string \<Rightarrow> exn + double" where
  "require_floaty_arg args i callback =
     (if i \<ge> length args then Inl (Std_exception (callback @ '': missing numeric argument''))
      else case args ! i of
        VInt v \<Rightarrow> Inr (fp_of_int (sint v))
      | VFloat f \<Rightarrow> Inr f
      | _ \<Rightarrow> Inl (Std_exception (callback @ '': expected numeric argument'')))"

definition require_key_arg_or_default :: "lisp_value list \<Rightarrow> nat \<Rightarrow> string \<Rightarrow> string \<Rightarrow> exn + string" where
  "require_key_arg_or_default args i callback default_key =
     (if i \<ge> length args then Inr default_key else require_key_arg args i callback)"

definition floaty_arg_or :: "lisp_value list \<Rightarrow> nat \<Rightarrow> string \<Rightarrow> double \<Rightarrow> exn + double" where
  "floaty_arg_or args i callback default_value =
     (if length args > i then require_floaty_arg args i callback else Inr default_value)"

definition bb_value_as_vector :: "bb_value \<Rightarrow> string \<Rightarrow> exn + double list" where
  "bb_value_as_vector v callback =
     (case v of
        BB_int i \<Rightarrow> Inr [fp_of_int (sint i)]
      | BB_float f \<Rightarrow> Inr [f]
      | BB_vec xs \<Rightarrow> Inr xs
      | _ \<Rightarrow> Inl (Std_exception (callback @ '': expected numeric or numeric-vector blackboard value'')))"

definition bb_value_truthy :: "bb_value \<Rightarrow> bool" where
  "bb_value_truthy v =
     (case v of
        BB_nil \<Rightarrow> False
      | BB_bool b \<Rightarrow> b
      | BB_int i \<Rightarrow> i \<noteq> 0
      | BB_float f \<Rightarrow> fp_is_finite f \<and> fp_less 0x3E112E0BE826D695 (fp_abs f)
      | BB_string s \<Rightarrow> s \<noteq> [] \<and> s \<noteq> ''0'' \<and> s \<noteq> ''false''
      | BB_vec xs \<Rightarrow> xs \<noteq> []
      | _ \<Rightarrow> True)"

text \<open>\<open>job_status\<close> as an integer of the node memory.\<close>

fun status_to_memory :: "job_status \<Rightarrow> i64" where
  "status_to_memory J_queued = 0"
| "status_to_memory J_running = 1"
| "status_to_memory J_done = 2"
| "status_to_memory J_failed = 3"
| "status_to_memory J_cancelled = 4"
| "status_to_memory J_unknown = 5"

definition status_from_memory :: "i64 \<Rightarrow> job_status" where
  "status_from_memory raw =
     (if raw = 0 then J_queued else if raw = 1 then J_running else if raw = 2 then J_done
      else if raw = 3 then J_failed else if raw = 4 then J_cancelled else J_unknown)"

subsection \<open>Robot and scheduler\<close>

record ('w, 'p) robot_interface =
  ro_battery_ok :: "('w, 'p) tick_context \<Rightarrow> (exn + bool) \<times> ('w, 'p) tick_context"
  ro_target_visible :: "('w, 'p) tick_context \<Rightarrow> (exn + bool) \<times> ('w, 'p) tick_context"
  ro_approach_target :: "('w, 'p) tick_context \<Rightarrow> node_id \<Rightarrow> (exn + status) \<times> ('w, 'p) tick_context"
  ro_grasp :: "('w, 'p) tick_context \<Rightarrow> node_id \<Rightarrow> (exn + status) \<times> ('w, 'p) tick_context"
  ro_search_target :: "('w, 'p) tick_context \<Rightarrow> node_id \<Rightarrow> (exn + status) \<times> ('w, 'p) tick_context"

record 'w job_ops =
  jo_submit :: "string \<Rightarrow> i64 \<Rightarrow> 'w \<Rightarrow> job_id \<times> 'w"
  jo_get_info :: "job_id \<Rightarrow> 'w \<Rightarrow> job_info"
  jo_try_get_result :: "job_id \<Rightarrow> 'w \<Rightarrow> 'w"

definition put_i0 :: "node_id \<Rightarrow> i64 \<Rightarrow> ('w, 'p) tick_context \<Rightarrow> ('w, 'p) tick_context" where
  "put_i0 i v c = set_memory i ((memory_of i c)\<lparr>nm_i0 := v\<rparr>) c"

definition demo_target_visible :: "('w, 'p) tick_context \<Rightarrow> (exn + bool) \<times> ('w, 'p) tick_context" where
  "demo_target_visible c =
     (let (entry, c) = cx_bb_get ''target-visible'' c
      in (Inr (case entry of
            None \<Rightarrow> False
          | Some e \<Rightarrow> (case be_value e of BB_bool b \<Rightarrow> b | BB_int i \<Rightarrow> i \<noteq> 0 | _ \<Rightarrow> False)), c))"

definition demo_approach_target :: "('w, 'p) tick_context \<Rightarrow> node_id \<Rightarrow> (exn + status) \<times> ('w, 'p) tick_context" where
  "demo_approach_target c i =
     (if nm_i0 (memory_of i c) = 0 then (Inr Running, put_i0 i 1 c) else (Inr Success, put_i0 i 0 c))"

definition demo_robot :: "('w, 'p) robot_interface" where
  "demo_robot =
     \<lparr>ro_battery_ok = (\<lambda>c. (Inr True, c)),
      ro_target_visible = demo_target_visible,
      ro_approach_target = demo_approach_target,
      ro_grasp = (\<lambda>c i. (Inr Success, c)),
      ro_search_target = (\<lambda>c i. (Inr Success, cx_bb_put ''target-visible'' (BB_bool True) ''robot.search-target'' c))\<rparr>"

subsection \<open>Conditions\<close>

text \<open>An argument that is missing or of the wrong type throws before the callback does anything.\<close>

definition with_arg :: "exn + 'a \<Rightarrow> ('a \<Rightarrow> ('w, 'p) tick_context \<Rightarrow> (exn + 'b) \<times> ('w, 'p) tick_context) \<Rightarrow>
    ('w, 'p) tick_context \<Rightarrow> (exn + 'b) \<times> ('w, 'p) tick_context" where
  "with_arg r f c = (case r of Inl e \<Rightarrow> (Inl e, c) | Inr x \<Rightarrow> f x c)"

definition cond_bb_has :: "('w, 'p) condition_fn" where
  "cond_bb_has c args =
     with_arg (require_key_arg args 0 ''bb-has'')
       (\<lambda>key c. let (entry, c) = cx_bb_get key c in (Inr (entry \<noteq> None), c)) c"

definition cond_bb_truthy :: "('w, 'p) condition_fn" where
  "cond_bb_truthy c args =
     with_arg (require_key_arg args 0 ''bb-truthy'')
       (\<lambda>key c. let (entry, c) = cx_bb_get key c
          in (Inr (case entry of None \<Rightarrow> False | Some e \<Rightarrow> bb_value_truthy (be_value e)), c)) c"

definition cond_robot ::
  "('w, 'p) robot_interface option \<Rightarrow> (('w, 'p) robot_interface \<Rightarrow> ('w, 'p) tick_context \<Rightarrow> (exn + bool) \<times> ('w, 'p) tick_context) \<Rightarrow>
    ('w, 'p) condition_fn" where
  "cond_robot robot f c args = (case robot of None \<Rightarrow> (Inr False, c) | Some r \<Rightarrow> f r c)"

definition cond_goal_reached_1d :: "('w, 'p) condition_fn" where
  "cond_goal_reached_1d c args =
     with_arg (require_key_arg_or_default args 0 ''goal-reached-1d'' ''state'')
       (\<lambda>state_key. with_arg (floaty_arg_or args 1 ''goal-reached-1d'' 0x3FF0000000000000)
         (\<lambda>goal. with_arg (floaty_arg_or args 2 ''goal-reached-1d'' 0x3FA999999999999A)
           (\<lambda>tol c.
             let (entry, c) = cx_bb_get state_key c
             in case entry of
                  None \<Rightarrow> (Inr False, c)
                | Some e \<Rightarrow> with_arg (bb_value_as_vector (be_value e) ''goal-reached-1d'')
                    (\<lambda>state c. (Inr (state \<noteq> [] \<and> fp_le (fp_abs (fp_sub goal (state ! 0))) tol), c)) c))) c"

definition cond_ptz_target_centred :: "('w, 'p) condition_fn" where
  "cond_ptz_target_centred c args =
     with_arg (require_key_arg_or_default args 0 ''ptz-target-centred'' ''ptz-state'')
       (\<lambda>state_key. with_arg (floaty_arg_or args 1 ''ptz-target-centred'' 0x3FA999999999999A)
         (\<lambda>tol c.
           let (entry, c) = cx_bb_get state_key c
           in case entry of
                None \<Rightarrow> (Inr False, c)
              | Some e \<Rightarrow> with_arg (bb_value_as_vector (be_value e) ''ptz-target-centred state'')
                  (\<lambda>state c. (Inr (length state \<ge> 4 \<and>
                     fp_le (fp_sqrt (fp_add (fp_mul (state ! 2) (state ! 2)) (fp_mul (state ! 3) (state ! 3)))) tol), c)) c)) c"

subsection \<open>Actions\<close>

definition act_running_then_success :: "('w, 'p) action_fn" where
  "act_running_then_success c i args =
     with_arg (if args = [] then Inr 1 else require_int_arg args 0 ''running-then-success'')
       (\<lambda>target c.
         if nm_i0 (memory_of i c) <s target then (Inr Running, put_i0 i (nm_i0 (memory_of i c) + 1) c)
         else (Inr Success, put_i0 i 0 c)) c"

definition act_bb_put_int :: "('w, 'p) action_fn" where
  "act_bb_put_int c i args =
     with_arg (require_key_arg args 0 ''bb-put-int'')
       (\<lambda>key. with_arg (require_int_arg args 1 ''bb-put-int'')
         (\<lambda>v c. (Inr Success, cx_bb_put key (BB_int v) ''bb-put-int'' c))) c"

definition act_bb_put_float :: "('w, 'p) action_fn" where
  "act_bb_put_float c i args =
     with_arg (require_key_arg args 0 ''bb-put-float'')
       (\<lambda>key. with_arg (require_floaty_arg args 1 ''bb-put-float'')
         (\<lambda>v c. (Inr Success, cx_bb_put key (BB_float v) ''bb-put-float'' c))) c"

definition act_select_action :: "('w, 'p) action_fn" where
  "act_select_action c i args =
     with_arg (require_key_arg args 0 ''select-action'')
       (\<lambda>source_key. with_arg (require_int_arg args 1 ''select-action'')
         (\<lambda>branch_id. with_arg (if length args > 2 then require_key_arg args 2 ''select-action'' else Inr ''action_vec'')
           (\<lambda>out_key c.
             let (entry, c) = cx_bb_get source_key c
             in case entry of
                  None \<Rightarrow> (Inr Failure, c)
                | Some e \<Rightarrow>
                    (case bb_value_as_vector (be_value e) ''select-action'' of
                       Inl _ \<Rightarrow> (Inr Failure, c)
                     | Inr action \<Rightarrow>
                         if length action < 2 then (Inr Failure, c)
                         else let c = cx_bb_put out_key (BB_vec action) ''select-action'' c;
                                  c = cx_bb_put ''active_branch'' (BB_int branch_id) ''select-action'' c
                              in (Inr Success, c))))) c"

text \<open>The two entries the planned actions read: the state and the action.\<close>

definition read_state_and_action ::
  "string \<Rightarrow> string \<Rightarrow> string \<Rightarrow> (double list \<Rightarrow> double list \<Rightarrow> ('w, 'p) tick_context \<Rightarrow> (exn + status) \<times> ('w, 'p) tick_context) \<Rightarrow>
    ('w, 'p) tick_context \<Rightarrow> (exn + status) \<times> ('w, 'p) tick_context" where
  "read_state_and_action callback state_key action_key f c =
     (let (s, c) = cx_bb_get state_key c; (a, c) = cx_bb_get action_key c
      in case (s, a) of
           (Some s, Some a) \<Rightarrow>
             with_arg (bb_value_as_vector (be_value s) (callback @ '' state''))
               (\<lambda>state. with_arg (bb_value_as_vector (be_value a) (callback @ '' action'')) (\<lambda>action. f state action)) c
         | _ \<Rightarrow> (Inr Failure, c))"

definition act_apply_planned_1d :: "('w, 'p) action_fn" where
  "act_apply_planned_1d c i args =
     with_arg (require_key_arg_or_default args 0 ''apply-planned-1d'' ''state'')
       (\<lambda>state_key. with_arg (require_key_arg_or_default args 1 ''apply-planned-1d'' ''action'')
         (\<lambda>action_key. with_arg (require_key_arg_or_default args 2 ''apply-planned-1d'' state_key)
           (\<lambda>out_key. read_state_and_action ''apply-planned-1d'' state_key action_key
             (\<lambda>state action c.
               if state = [] \<or> action = [] then (Inr Failure, c)
               else let a = fp_clamp (action ! 0) 0xBFF0000000000000 0x3FF0000000000000;
                        x2 = fp_add (state ! 0) (fp_mul 0x3FD0000000000000 a)
                    in (Inr Success, cx_bb_put out_key (BB_float x2) ''apply-planned-1d'' c))))) c"

definition nth_or_zero :: "double list \<Rightarrow> nat \<Rightarrow> double" where
  "nth_or_zero xs i = (if length xs > i then xs ! i else 0)"

definition ptz_step :: "double list \<Rightarrow> double list \<Rightarrow> double list" where
  "ptz_step state action =
     (let vx = nth_or_zero state 4; vy = nth_or_zero state 5;
          dpan = fp_clamp (action ! 0) 0xBFD0000000000000 0x3FD0000000000000;
          dtilt = fp_clamp (action ! 1) 0xBFD0000000000000 0x3FD0000000000000
      in [fp_clamp (fp_add (state ! 0) dpan) 0xBFF8000000000000 0x3FF8000000000000,
          fp_clamp (fp_add (state ! 1) dtilt) 0xBFF0000000000000 0x3FF0000000000000,
          fp_clamp (fp_sub (fp_add (state ! 2) vx) (fp_mul dpan 0x3FF2666666666666)) 0xC000000000000000 0x4000000000000000,
          fp_clamp (fp_sub (fp_add (state ! 3) vy) (fp_mul dtilt 0x3FF2666666666666)) 0xC000000000000000 0x4000000000000000,
          vx, vy])"

definition act_apply_planned_ptz :: "('w, 'p) action_fn" where
  "act_apply_planned_ptz c i args =
     with_arg (require_key_arg_or_default args 0 ''apply-planned-ptz'' ''ptz-state'')
       (\<lambda>state_key. with_arg (require_key_arg_or_default args 1 ''apply-planned-ptz'' ''ptz-action'')
         (\<lambda>action_key. with_arg (require_key_arg_or_default args 2 ''apply-planned-ptz'' state_key)
           (\<lambda>out_key. read_state_and_action ''apply-planned-ptz'' state_key action_key
             (\<lambda>state action c.
               if length state < 4 \<or> length action < 2 then (Inr Failure, c)
               else (Inr Success, cx_bb_put out_key (BB_vec (ptz_step state action)) ''apply-planned-ptz'' c))))) c"

definition act_robot ::
  "('w, 'p) robot_interface option \<Rightarrow> (('w, 'p) robot_interface \<Rightarrow> ('w, 'p) tick_context \<Rightarrow> node_id \<Rightarrow> (exn + status) \<times> ('w, 'p) tick_context) \<Rightarrow>
    ('w, 'p) action_fn" where
  "act_robot robot f c i args = (case robot of None \<Rightarrow> (Inr Failure, c) | Some r \<Rightarrow> f r c i)"

definition async_submit :: "'w job_ops \<Rightarrow> i64 \<Rightarrow> node_id \<Rightarrow> ('w, 'p) tick_context \<Rightarrow> (exn + status) \<times> ('w, 'p) tick_context" where
  "async_submit ops delay_ms i c =
     (let (job, w) = jo_submit ops ''async-sleep-ms'' delay_ms (cx_world c);
          c = c\<lparr>cx_world := w\<rparr>;
          c = set_memory i ((memory_of i c)\<lparr>nm_i0 := word_of_nat job, nm_b0 := True, nm_i1 := status_to_memory J_queued\<rparr>) c
      in (Inr Running, scheduler_event TE_scheduler_submit job J_queued ''scheduler submitted task async-sleep-ms'' c))"

definition async_report :: "job_id \<Rightarrow> job_info \<Rightarrow> ('w, 'p) tick_context \<Rightarrow> ('w, 'p) tick_context" where
  "async_report job info c =
     (if ji_status info = J_running then
        scheduler_event TE_scheduler_start job J_running ''scheduler started task async-sleep-ms'' c
      else if ji_status info = J_cancelled then
        scheduler_event TE_scheduler_cancel job J_cancelled ''scheduler cancelled task async-sleep-ms'' c
      else if ji_status info = J_done \<or> ji_status info = J_failed then
        scheduler_event TE_scheduler_finish job (ji_status info)
          (''scheduler finished task async-sleep-ms'' @ (if ji_error_text info \<noteq> [] then '': '' @ ji_error_text info else [])) c
      else c)"

definition async_poll :: "'w job_ops \<Rightarrow> node_id \<Rightarrow> ('w, 'p) tick_context \<Rightarrow> (exn + status) \<times> ('w, 'p) tick_context" where
  "async_poll ops i c =
     (let job = unat (nm_i0 (memory_of i c)); info = jo_get_info ops job (cx_world c);
          c = (if ji_status info \<noteq> status_from_memory (nm_i1 (memory_of i c)) then
                 let c = async_report job info c
                 in set_memory i ((memory_of i c)\<lparr>nm_i1 := status_to_memory (ji_status info)\<rparr>) c
               else c)
      in if ji_status info = J_queued \<or> ji_status info = J_running then (Inr Running, c)
         else let c = set_memory i ((memory_of i c)\<lparr>nm_b0 := False, nm_i0 := 0, nm_i1 := status_to_memory J_unknown\<rparr>) c
              in if ji_status info = J_done
                 then (Inr Success, c\<lparr>cx_world := jo_try_get_result ops job (cx_world c)\<rparr>)
                 else (Inr Failure, c))"

definition act_async_sleep_ms :: "'w job_ops option \<Rightarrow> ('w, 'p) action_fn" where
  "act_async_sleep_ms sched c i args =
     (case sched of
        None \<Rightarrow> (Inr Failure, c)
      | Some ops \<Rightarrow>
          with_arg (if args = [] then Inr 1 else require_int_arg args 0 ''async-sleep-ms'')
            (\<lambda>delay_ms c. if \<not> nm_b0 (memory_of i c) then async_submit ops delay_ms i c else async_poll ops i c) c)"

subsection \<open>Registration\<close>

definition install_demo_callbacks ::
  "('w, 'p) robot_interface option \<Rightarrow> 'w job_ops option \<Rightarrow> ('w, 'p) registry \<Rightarrow> ('w, 'p) registry" where
  "install_demo_callbacks robot sched reg =
     (let r = register_condition ''always-true'' (\<lambda>c args. (Inr True, c)) reg;
          r = register_condition ''always-false'' (\<lambda>c args. (Inr False, c)) r;
          r = register_condition ''bb-has'' cond_bb_has r;
          r = register_condition ''bb-truthy'' cond_bb_truthy r;
          r = register_condition ''battery-ok'' (cond_robot robot ro_battery_ok) r;
          r = register_condition ''target-visible'' (cond_robot robot ro_target_visible) r;
          r = register_action ''always-success'' (\<lambda>c i args. (Inr Success, c)) None r;
          r = register_action ''always-fail'' (\<lambda>c i args. (Inr Failure, c)) None r;
          r = register_action ''running-then-success'' act_running_then_success None r;
          r = register_action ''bb-put-int'' act_bb_put_int None r;
          r = register_action ''bb-put-float'' act_bb_put_float None r;
          r = register_action ''select-action'' act_select_action None r;
          r = register_condition ''goal-reached-1d'' cond_goal_reached_1d r;
          r = register_action ''apply-planned-1d'' act_apply_planned_1d None r;
          r = register_condition ''ptz-target-centred'' cond_ptz_target_centred r;
          r = register_action ''apply-planned-ptz'' act_apply_planned_ptz None r;
          r = register_action ''approach-target'' (act_robot robot ro_approach_target) None r;
          r = register_action ''grasp'' (act_robot robot ro_grasp) None r;
          r = register_action ''search-target'' (act_robot robot ro_search_target) None r
      in register_action ''async-sleep-ms'' (act_async_sleep_ms sched) None r)"

end
