(* ===== verification/Runtime_Host.thy ===== *)
theory Runtime_Host
  imports Demo_Callbacks Tick Vla_Checks
begin

text \<open>
  The runtime host (\<open>src/bt/runtime_host.cpp\<close>): it owns definitions, instances, callbacks, log and event log, hands out handles and
  ticks instances by handle. Scheduler, planner, VLA service and the Lisp heap are the outside world of a tick. A host gives
  the trace buffer of the instance itself to a tick, which is what a tick without trace buffer writes to. Handles are 64-bit
  integers in the code and count from 1; they are natural numbers here. The model service client is not modelled.
\<close>

record ('w, 'p) runtime_host =
  rh_next_definition_handle :: nat
  rh_next_instance_handle :: nat
  rh_definitions :: "nat \<Rightarrow> bt_definition option"
  rh_instances :: "nat \<Rightarrow> ('p instance_state \<times> trace_buffer) option"
  rh_registry :: "('w, 'p) registry"
  rh_services :: "'w services"
  rh_set_base_seed :: "u64 \<Rightarrow> 'w \<Rightarrow> 'w"
  rh_clear_records :: "'w \<Rightarrow> 'w"
  rh_logs :: memory_log_sink
  rh_events :: event_log
  rh_clock :: "nat \<Rightarrow> time_ns"
  rh_clock_reads :: nat
  rh_deterministic_test_mode :: bool
  rh_world :: 'w

subsection \<open>Listeners\<close>

definition positive_tick :: "nat \<Rightarrow> nat option" where
  "positive_tick t = (if t > 0 then Some t else None)"

definition on_planner_record :: "nat \<Rightarrow> string \<Rightarrow> event_log \<Rightarrow> event_log" where
  "on_planner_record tick_index json ev =
     el_emit ''planner_v1'' (positive_tick tick_index) (''{'' @ jkey ''record'' @ json @ ''}'') ev"

definition on_vla_record :: "vla_record \<Rightarrow> string \<Rightarrow> event_log \<Rightarrow> event_log" where
  "on_vla_record rec json ev =
     (let t = positive_tick (rc_tick_index rec); job = jkey ''job_id'' @ quoted (nat_str (unat (rc_request_hash rec)));
          ev = el_emit ''vla_result'' t
            (''{'' @ job @ '','' @ jkey ''node_id'' @ ''0,'' @ jkey ''status'' @ quoted (rc_status rec) @ '','' @
             jkey ''digest'' @ quoted (hash64_hex json) @ '','' @ jkey ''record'' @ json @ ''}'') ev
      in if rc_completion_dropped rec then
           el_emit ''async_completion_dropped'' t
             (''{'' @ job @ '','' @ jkey ''node_id'' @ ''0,'' @ jkey ''reason'' @ quoted ''completion_after_cancel'' @ ''}'') ev
         else ev)"

definition gc_lifecycle_payload_json :: "gc_lifecycle_event \<Rightarrow> string" where
  "gc_lifecycle_payload_json e =
     ''{'' @ jkey ''schema_version'' @ quoted ''gc.lifecycle.v1'' @ '','' @
     jkey ''collection_id'' @ nat_str (ge_collection_id e) @ '','' @
     jkey ''phase'' @ quoted (if ge_begin e then ''begin'' else ''end'') @ '','' @
     jkey ''reason'' @ quoted (collection_reason_name (ge_reason e)) @ '','' @
     jkey ''policy'' @ quoted (policy_name (ge_policy e)) @ '','' @
     jkey ''forced'' @ bool_json (ge_forced e) @ '','' @
     jkey ''in_tick'' @ bool_json (ge_in_tick e) @ '','' @
     jkey ''heap_live_bytes_before'' @ nat_str (ge_heap_live_bytes_before e) @ '','' @
     jkey ''live_objects_before'' @ nat_str (ge_live_objects_before e) @
     (if ge_begin e then []
      else '','' @ jkey ''heap_live_bytes_after'' @ nat_str (ge_heap_live_bytes_after e) @
        '','' @ jkey ''live_objects_after'' @ nat_str (ge_live_objects_after e) @
        '','' @ jkey ''freed_objects'' @ nat_str (ge_freed_objects e) @
        '','' @ jkey ''mark_time_ns'' @ nat_str (ge_mark_time_ns e) @
        '','' @ jkey ''sweep_time_ns'' @ nat_str (ge_sweep_time_ns e) @
        '','' @ jkey ''pause_time_ns'' @ nat_str (ge_pause_time_ns e)) @ ''}''"

definition on_gc_event :: "gc_lifecycle_event \<Rightarrow> event_log \<Rightarrow> event_log" where
  "on_gc_event e ev = el_emit (if ge_begin e then ''gc_begin'' else ''gc_end'') None (gc_lifecycle_payload_json e) ev"

subsection \<open>Construction\<close>

definition runtime_host_new ::
  "'w services \<Rightarrow> 'w job_ops \<Rightarrow> (u64 \<Rightarrow> 'w \<Rightarrow> 'w) \<Rightarrow> ('w \<Rightarrow> 'w) \<Rightarrow> event_log \<Rightarrow> int \<Rightarrow> (nat \<Rightarrow> time_ns) \<Rightarrow> 'w \<Rightarrow> ('w, 'p) runtime_host" where
  "runtime_host_new svc jobs set_base_seed clear_records events unix_ms clock w =
     \<lparr>rh_next_definition_handle = 1, rh_next_instance_handle = 1, rh_definitions = Map.empty, rh_instances = Map.empty,
      rh_registry = install_demo_callbacks (Some demo_robot) (Some jobs) registry_empty,
      rh_services = svc, rh_set_base_seed = set_base_seed, rh_clear_records = clear_records,
      rh_logs = log_sink_new 4096, rh_events = (let ev = el_set_host_info ''muesli-bt'' ''dev'' ''native'' events
        in case el_set_run_id (''run-'' @ int_str unix_ms) ev of Inr ev \<Rightarrow> ev | Inl _ \<Rightarrow> ev),
      rh_clock = clock, rh_clock_reads = 0, rh_deterministic_test_mode = False, rh_world = w\<rparr>"

subsection \<open>Definitions and instances\<close>

definition store_definition :: "bt_definition \<Rightarrow> ('w, 'p) runtime_host \<Rightarrow> nat \<times> ('w, 'p) runtime_host" where
  "store_definition d h =
     (let handle = rh_next_definition_handle h
      in (handle, h\<lparr>rh_next_definition_handle := Suc handle, rh_definitions := (rh_definitions h)(handle \<mapsto> d)\<rparr>))"

definition find_definition :: "nat \<Rightarrow> ('w, 'p) runtime_host \<Rightarrow> bt_definition option" where
  "find_definition handle h = rh_definitions h handle"

definition find_instance :: "nat \<Rightarrow> ('w, 'p) runtime_host \<Rightarrow> ('p instance_state \<times> trace_buffer) option" where
  "find_instance handle h = rh_instances h handle"

text \<open>The budget of 20 ms is within the range of \<open>set_tick_budget_ms\<close>, so creating an instance fails only on an unknown handle.\<close>

definition create_instance :: "nat \<Rightarrow> ('w, 'p) runtime_host \<Rightarrow> nat outcome \<times> ('w, 'p) runtime_host" where
  "create_instance definition_handle h =
     (case find_definition definition_handle h of
        None \<Rightarrow> (Throw (Std_exception ''create_instance: unknown definition handle''), h)
      | Some d \<Rightarrow>
          let handle = rh_next_instance_handle h;
              h = h\<lparr>rh_next_instance_handle := Suc handle\<rparr>
          in case set_tick_budget_ms 20 ((instance_new (Some d))\<lparr>in_handle := word_of_nat handle\<rparr>) of
               Ret inst \<Rightarrow>
                 (Ret handle,
                  h\<lparr>rh_events := emit_bt_def d (rh_events h),
                    rh_instances := (rh_instances h)(handle \<mapsto> (inst, trace_buffer_new 4096))\<rparr>)
             | Throw e \<Rightarrow> (Throw e, h)
             | Undef \<Rightarrow> (Undef, h)
             | Diverge \<Rightarrow> (Diverge, h))"

definition tick_host :: "('w, 'p) runtime_host \<Rightarrow> ('w, 'p) host" where
  "tick_host h = \<lparr>ho_reg = rh_registry h, ho_svc = rh_services h\<rparr>"

definition tick_obs :: "trace_buffer \<Rightarrow> ('w, 'p) runtime_host \<Rightarrow> obs" where
  "tick_obs tr h = \<lparr>ob_trace = tr, ob_ext_trace = None, ob_logger = Some (rh_logs h), ob_events = Some (rh_events h),
     ob_clock = rh_clock h, ob_clock_reads = rh_clock_reads h\<rparr>"

definition after_tick ::
  "nat \<Rightarrow> 'p instance_state \<Rightarrow> obs \<Rightarrow> 'w \<Rightarrow> ('w, 'p) runtime_host \<Rightarrow> ('w, 'p) runtime_host" where
  "after_tick handle inst ob w h =
     h\<lparr>rh_instances := (rh_instances h)(handle \<mapsto> (inst, ob_trace ob)),
       rh_logs := (case ob_logger ob of Some l \<Rightarrow> l | None \<Rightarrow> rh_logs h),
       rh_events := (case ob_events ob of Some e \<Rightarrow> e | None \<Rightarrow> rh_events h),
       rh_clock_reads := ob_clock_reads ob, rh_world := w\<rparr>"

definition tick_instance :: "nat \<Rightarrow> nat \<Rightarrow> nat \<Rightarrow> ('w, 'p) runtime_host \<Rightarrow> status outcome \<times> ('w, 'p) runtime_host" where
  "tick_instance hf k handle h =
     (case find_instance handle h of
        None \<Rightarrow> (Throw (Std_exception ''tick_instance: unknown instance handle''), h)
      | Some (inst, tr) \<Rightarrow>
          (case tick (tick_host h) hf k inst (tick_obs tr h) (rh_world h) of
             (r, inst, ob, w) \<Rightarrow> (r, after_tick handle inst ob w h)))"

definition host_reset_instance :: "nat \<Rightarrow> ('w, 'p) runtime_host \<Rightarrow> unit outcome \<times> ('w, 'p) runtime_host" where
  "host_reset_instance handle h =
     (case find_instance handle h of
        None \<Rightarrow> (Throw (Std_exception ''reset_instance: unknown instance handle''), h)
      | Some (inst, tr) \<Rightarrow> (Ret (), h\<lparr>rh_instances := (rh_instances h)(handle \<mapsto> (reset_instance inst, tr))\<rparr>))"

subsection \<open>Modes and logs\<close>

definition enable_deterministic_test_mode ::
  "u64 \<Rightarrow> string \<Rightarrow> i64 \<Rightarrow> i64 \<Rightarrow> ('w, 'p) runtime_host \<Rightarrow> unit outcome \<times> ('w, 'p) runtime_host" where
  "enable_deterministic_test_mode planner_seed run_id unix_ms_start unix_ms_step h =
     (let run_id = (if run_id = [] then ''deterministic-run'' else run_id);
          h = h\<lparr>rh_deterministic_test_mode := True, rh_world := rh_set_base_seed h planner_seed (rh_world h)\<rparr>
      in case el_set_run_id run_id (rh_events h) of
           Inl m \<Rightarrow> (Throw (Std_exception m), h)
         | Inr ev \<Rightarrow> (Ret (), h\<lparr>rh_events := el_set_deterministic_time unix_ms_start unix_ms_step ev\<rparr>))"

definition disable_deterministic_test_mode :: "('w, 'p) runtime_host \<Rightarrow> ('w, 'p) runtime_host" where
  "disable_deterministic_test_mode h =
     h\<lparr>rh_deterministic_test_mode := False, rh_events := el_clear_deterministic_time (rh_events h)\<rparr>"

definition clear_logs :: "('w, 'p) runtime_host \<Rightarrow> ('w, 'p) runtime_host" where
  "clear_logs h = h\<lparr>rh_logs := log_clear (rh_logs h), rh_events := el_clear_ring (rh_events h)\<rparr>"

definition clear_all :: "('w, 'p) runtime_host \<Rightarrow> ('w, 'p) runtime_host" where
  "clear_all h =
     h\<lparr>rh_definitions := Map.empty, rh_instances := Map.empty, rh_registry := registry_clear (rh_registry h),
       rh_logs := log_clear (rh_logs h), rh_events := el_clear_ring (rh_events h), rh_world := rh_clear_records h (rh_world h)\<rparr>"

definition with_instance :: "string \<Rightarrow> ('p instance_state \<Rightarrow> trace_buffer \<Rightarrow> string) \<Rightarrow> nat \<Rightarrow> ('w, 'p) runtime_host \<Rightarrow> string outcome" where
  "with_instance name f handle h =
     (case find_instance handle h of
        None \<Rightarrow> Throw (Std_exception (name @ '': unknown instance handle''))
      | Some (inst, tr) \<Rightarrow> Ret (f inst tr))"

definition dump_instance_stats :: "nat \<Rightarrow> ('w, 'p) runtime_host \<Rightarrow> string outcome" where
  "dump_instance_stats = with_instance ''dump_instance_stats'' (\<lambda>inst tr. dump_stats inst)"

definition dump_instance_trace :: "nat \<Rightarrow> ('w, 'p) runtime_host \<Rightarrow> string outcome" where
  "dump_instance_trace = with_instance ''dump_instance_trace'' (\<lambda>inst tr. concat (map trace_line (trace_snapshot tr)))"

definition dump_instance_blackboard :: "nat \<Rightarrow> ('w, 'p) runtime_host \<Rightarrow> string outcome" where
  "dump_instance_blackboard = with_instance ''dump_instance_blackboard'' (\<lambda>inst tr. dump_blackboard inst)"

definition dump_scheduler_stats :: "scheduler_profile_stats \<Rightarrow> string" where
  "dump_scheduler_stats st =
     ''submitted='' @ nat_str (sp_submitted st) @ [newline] @
     ''started='' @ nat_str (sp_started st) @ [newline] @
     ''completed='' @ nat_str (sp_completed st) @ [newline] @
     ''failed='' @ nat_str (sp_failed st) @ [newline] @
     ''cancelled='' @ nat_str (sp_cancelled st) @ [newline] @
     ''queue_delay_last_ns='' @ int_str (ds_last (sp_queue_delay st)) @ [newline] @
     ''run_time_last_ns='' @ int_str (ds_last (sp_run_time st)) @ [newline]"

definition dump_logs :: "('w, 'p) runtime_host \<Rightarrow> string" where
  "dump_logs h = concat (map (\<lambda>l. l @ [newline]) (el_snapshot 0 (rh_events h)))"

end
