(* ===== verification/Host_Guarantees.thy ===== *)
theory Host_Guarantees
  imports Runtime_Host Ticks
begin

text \<open>
  What the runtime host guarantees: handles stay valid, the built-in callbacks satisfy what the theorems on ticks ask of
  callbacks, ticks of trees over them return, and instances do not disturb each other.
\<close>

subsection \<open>The built-in callbacks\<close>

definition robot_respects :: "(('w, 'p) tick_context \<Rightarrow> ('w, 'p) tick_context \<Rightarrow> bool) \<Rightarrow> ('w, 'p) robot_interface option \<Rightarrow> bool" where
  "robot_respects R robot \<longleftrightarrow>
     (\<forall>r c i. robot = Some r \<longrightarrow> R c (snd (ro_battery_ok r c)) \<and> R c (snd (ro_target_visible r c)) \<and>
        R c (snd (ro_approach_target r c i)) \<and> R c (snd (ro_grasp r c i)) \<and> R c (snd (ro_search_target r c i)))"

context context_relation
begin

lemma with_arg_to: "(\<And>x. R a (snd (f x c))) \<Longrightarrow> R a c \<Longrightarrow> R a (snd (with_arg r f c))"
  by (simp add: with_arg_def split: sum.split)

lemma demo_conditions_to:
  "R c (snd (cond_bb_has c args))" "R c (snd (cond_bb_truthy c args))" "R c (snd (cond_goal_reached_1d c args))"
  "R c (snd (cond_ptz_target_centred c args))"
  unfolding cond_bb_has_def cond_bb_truthy_def cond_goal_reached_1d_def cond_ptz_target_centred_def
  by (auto simp: split_beta Let_def split: option.split intro!: with_arg_to steps_to)

lemma put_i0_to: "R a c \<Longrightarrow> R a (put_i0 i v c)"
  by (simp add: put_i0_def memory_to)

lemma demo_actions_to:
  "R c (snd (act_running_then_success c i args))" "R c (snd (act_bb_put_int c i args))"
  "R c (snd (act_bb_put_float c i args))" "R c (snd (act_select_action c i args))"
  unfolding act_running_then_success_def act_bb_put_int_def act_bb_put_float_def act_select_action_def
  by (auto simp: split_beta Let_def split: option.split sum.split intro!: with_arg_to steps_to put_i0_to)

lemma read_state_to:
  assumes "\<And>s a c. R b c \<Longrightarrow> R b (snd (f s a c))" "R b c"
  shows "R b (snd (read_state_and_action callback sk ak f c))"
  unfolding read_state_and_action_def
  by (auto simp: split_beta Let_def split: option.split intro!: with_arg_to assms(1) steps_to assms(2))

lemma demo_planned_to: "R c (snd (act_apply_planned_1d c i args))" "R c (snd (act_apply_planned_ptz c i args))"
  unfolding act_apply_planned_1d_def act_apply_planned_ptz_def
  by (auto simp: Let_def intro!: with_arg_to read_state_to steps_to)

lemma async_to: "R c (snd (act_async_sleep_ms sched c i args))"
proof -
  have "R a (async_report job info c)" if "R a c" for a job info c
    using that by (simp add: async_report_def sched_event_to)
  then have "R c (snd (async_poll ops i c))" for ops c
    by (auto simp: async_poll_def Let_def intro!: steps_to)
  moreover have "R c (snd (async_submit ops delay i c))" for ops delay c
    by (auto simp: async_submit_def Let_def split_beta intro!: steps_to)
  ultimately show ?thesis
    unfolding act_async_sleep_ms_def by (auto split: option.split intro!: with_arg_to)
qed

lemma demo_robot_respects: "robot_respects R (Some demo_robot)"
  by (auto simp: robot_respects_def demo_robot_def demo_target_visible_def demo_approach_target_def split_beta Let_def
      intro!: steps_to put_i0_to)

lemma demo_respects:
  assumes "robot_respects R robot" "ho_reg H = install_demo_callbacks robot sched registry_empty"
  shows "callbacks_respect R H"
proof -
  have empty: "find_condition name registry_empty = None" "find_action name registry_empty = None"
    "find_action_halt name registry_empty = None" for name
    by (simp_all add: find_condition_def find_action_def find_action_halt_def registry_empty_def)
  have robot: "R c (snd (cond_robot robot ro_battery_ok c args))" "R c (snd (cond_robot robot ro_target_visible c args))"
    "R c (snd (act_robot robot ro_approach_target c i args))" "R c (snd (act_robot robot ro_grasp c i args))"
    "R c (snd (act_robot robot ro_search_target c i args))" for c i args
    using assms(1) by (auto simp: cond_robot_def act_robot_def robot_respects_def split: option.split)
  show ?thesis
    unfolding callbacks_respect_def respects_condition_def respects_action_def respects_halt_def assms(2) install_demo_callbacks_def Let_def
    by (auto simp: empty demo_conditions_to demo_actions_to demo_planned_to async_to robot split: if_splits)
qed

end

definition throws_std :: "(exn + 'a) \<times> 'c \<Rightarrow> bool" where
  "throws_std r \<longleftrightarrow> fst r \<noteq> Inl Other_exception"

lemma throws_std_Inr [simp]: "throws_std (Inr x, c)"
  by (simp add: throws_std_def)

lemma with_arg_std: "(\<And>x c. throws_std (f x c)) \<Longrightarrow> r \<noteq> Inl Other_exception \<Longrightarrow> throws_std (with_arg r f c)"
  by (auto simp: with_arg_def throws_std_def split: sum.split)

lemma arg_std [simp]:
  "require_key_arg args i n \<noteq> Inl Other_exception" "require_int_arg args i n \<noteq> Inl Other_exception"
  "require_floaty_arg args i n \<noteq> Inl Other_exception" "require_key_arg_or_default args i n d \<noteq> Inl Other_exception"
  "floaty_arg_or args i n x \<noteq> Inl Other_exception" "bb_value_as_vector v n \<noteq> Inl Other_exception"
proof -
  show k: "require_key_arg args i n \<noteq> Inl Other_exception" and "require_int_arg args i n \<noteq> Inl Other_exception"
    and f: "require_floaty_arg args i n \<noteq> Inl Other_exception" and "bb_value_as_vector v n \<noteq> Inl Other_exception"
    by (simp_all add: require_key_arg_def require_int_arg_def require_floaty_arg_def bb_value_as_vector_def Let_def
        split: lisp_value.split bb_value.split)
  show "require_key_arg_or_default args i n d \<noteq> Inl Other_exception" "floaty_arg_or args i n x \<noteq> Inl Other_exception"
    using k f by (simp_all add: require_key_arg_or_default_def floaty_arg_or_def)
qed

lemma read_state_std:
  "(\<And>s a c. throws_std (f s a c)) \<Longrightarrow> throws_std (read_state_and_action callback sk ak f c)"
  unfolding read_state_and_action_def by (auto simp: split_beta Let_def split: option.split intro!: with_arg_std)

lemma demo_conditions_std:
  "throws_std (cond_bb_has c args)" "throws_std (cond_bb_truthy c args)" "throws_std (cond_goal_reached_1d c args)"
  "throws_std (cond_ptz_target_centred c args)" "throws_std (cond_robot (Some demo_robot) ro_battery_ok c args)"
  "throws_std (cond_robot (Some demo_robot) ro_target_visible c args)"
  unfolding cond_bb_has_def cond_bb_truthy_def cond_goal_reached_1d_def cond_ptz_target_centred_def
  by (auto simp: split_beta Let_def cond_robot_def demo_robot_def demo_target_visible_def split: option.split intro!: with_arg_std)

lemma demo_actions_std:
  "throws_std (act_running_then_success c i args)" "throws_std (act_bb_put_int c i args)"
  "throws_std (act_bb_put_float c i args)" "throws_std (act_select_action c i args)"
  "throws_std (act_apply_planned_1d c i args)" "throws_std (act_apply_planned_ptz c i args)"
  unfolding act_running_then_success_def act_bb_put_int_def act_bb_put_float_def act_select_action_def
    act_apply_planned_1d_def act_apply_planned_ptz_def
  by (auto simp: split_beta Let_def split: option.split sum.split intro!: with_arg_std read_state_std)

lemma demo_robot_std:
  "throws_std (act_robot (Some demo_robot) ro_approach_target c i args)" "throws_std (act_robot (Some demo_robot) ro_grasp c i args)"
  "throws_std (act_robot (Some demo_robot) ro_search_target c i args)" "throws_std (act_async_sleep_ms sched c i args)"
  by (auto simp: act_robot_def demo_robot_def demo_approach_target_def act_async_sleep_ms_def async_submit_def async_poll_def Let_def
      split_beta split: option.split intro!: with_arg_std)

text \<open>The built-in callbacks throw nothing but standard exceptions.\<close>

lemma demo_std:
  assumes "ho_reg H = install_demo_callbacks (Some demo_robot) sched registry_empty"
  shows "std_callbacks H"
proof -
  have empty: "find_condition name registry_empty = None" "find_action name registry_empty = None" for name
    by (simp_all add: find_condition_def find_action_def registry_empty_def)
  show ?thesis unfolding std_callbacks_def throws_std_def [symmetric] assms install_demo_callbacks_def Let_def
    by (auto simp: empty demo_conditions_std demo_actions_std demo_robot_std split: if_splits)
qed

subsection \<open>Handles\<close>

text \<open>What a client of the host can do; \<open>good\<close> says which definitions are stored.\<close>

inductive host_step :: "(bt_definition \<Rightarrow> bool) \<Rightarrow> ('w, 'p) runtime_host \<Rightarrow> ('w, 'p) runtime_host \<Rightarrow> bool" for good where
  step_store: "good d \<Longrightarrow> host_step good h (snd (store_definition d h))"
| step_create: "host_step good h (snd (create_instance n h))"
| step_tick: "host_step good h (snd (tick_instance hf k i h))"
| step_reset: "host_step good h (snd (host_reset_instance i h))"
| step_enable: "host_step good h (snd (enable_deterministic_test_mode seed run_id t0 dt h))"
| step_disable: "host_step good h (disable_deterministic_test_mode h)"
| step_clear_logs: "host_step good h (clear_logs h)"
| step_clear_all: "host_step good h (clear_all h)"

definition handles_ok :: "(bt_definition \<Rightarrow> bool) \<Rightarrow> ('w, 'p) runtime_host \<Rightarrow> bool" where
  "handles_ok good h \<longleftrightarrow>
     (\<forall>n d. rh_definitions h n = Some d \<longrightarrow> n < rh_next_definition_handle h \<and> good d) \<and>
     (\<forall>i inst tr. rh_instances h i = Some (inst, tr) \<longrightarrow> i < rh_next_instance_handle h \<and>
        (\<exists>n d. in_def inst = Some d \<and> rh_definitions h n = Some d))"

definition callbacks_ok :: "('w, 'p) runtime_host \<Rightarrow> bool" where
  "callbacks_ok h \<longleftrightarrow> callbacks_respect same_frame (tick_host h) \<and> std_callbacks (tick_host h) \<and> heaps_ok (rh_services h)"

lemma tick_keeps_def:
  assumes "callbacks_respect same_frame H"
  shows "in_def (fst (snd (tick H hf k inst ob w))) = in_def inst"
proof (cases "in_def inst")
  case (Some d)
  obtain started gc_start c where c: "cx_inst c = inst\<lparr>in_tick_index := Suc (in_tick_index inst)\<rparr>"
    "tick H hf k inst ob w =
       (let (r, c) = tick_finish (ho_svc H) started gc_start (tick_node H hf k (df_root d) c) in (r, cx_inst c, cx_obs c, cx_world c))"
    by (rule tick_result [OF Some])
  obtain r c1 where root: "tick_node H hf k (df_root d) c = (r, c1)" by fastforce
  have "in_def (cx_inst c1) = Some d"
    using frame.tick_node_to [OF assms frame.refl, of c hf k "df_root d"] root c(1) Some by (simp add: same_frame_def)
  then have "in_def (cx_inst (snd (tick_finish (ho_svc H) started gc_start (r, c1)))) = Some d"
    by (cases r) (simp_all add: tick_finish_def tick_scope_exit_inst account_tick_def Let_def)
  then show ?thesis using c(2) root Some by (simp add: Let_def split_beta)
qed (simp add: tick_def)

lemma tick_host_simps [simp]:
  "tick_host (snd (store_definition d h)) = tick_host h" "tick_host (snd (create_instance n h)) = tick_host h"
  "tick_host (snd (tick_instance hf k i h)) = tick_host h" "tick_host (snd (host_reset_instance i h)) = tick_host h"
  "tick_host (snd (enable_deterministic_test_mode s r t0 dt h)) = tick_host h"
  "tick_host (disable_deterministic_test_mode h) = tick_host h" "tick_host (clear_logs h) = tick_host h"
  by (auto simp: tick_host_def store_definition_def create_instance_def tick_instance_def after_tick_def host_reset_instance_def
      enable_deterministic_test_mode_def disable_deterministic_test_mode_def clear_logs_def Let_def
      split: option.split outcome.split prod.split sum.split)

lemma services_of_tick_host: "rh_services h = ho_svc (tick_host h)"
  by (simp add: tick_host_def)

lemma find_cleared [simp]:
  "find_condition name (registry_clear r) = None" "find_action name (registry_clear r) = None"
  "find_action_halt name (registry_clear r) = None"
  by (simp_all add: find_condition_def find_action_def find_action_halt_def registry_clear_def registry_empty_def)

lemma callbacks_step: "host_step good h h' \<Longrightarrow> callbacks_ok h \<Longrightarrow> callbacks_ok h'"
proof (induction rule: host_step.induct)
  case (step_clear_all h)
  then show ?case
    by (auto simp: callbacks_ok_def callbacks_respect_def respects_condition_def respects_action_def respects_halt_def std_callbacks_def
        tick_host_def clear_all_def)
qed (simp_all add: callbacks_ok_def services_of_tick_host)

lemma create_instance_cases:
  fixes h :: "('w, 'p) runtime_host"
  obtains "find_definition n h = None" "snd (create_instance n h) = h"
  | d inst where "find_definition n h = Some d" "in_def inst = Some d" "in_tick_index inst = 0" "in_memory inst = Map.empty"
      "create_instance n h = (Ret (rh_next_instance_handle h),
        h\<lparr>rh_next_instance_handle := Suc (rh_next_instance_handle h), rh_events := emit_bt_def d (rh_events h),
          rh_instances := (rh_instances h)(rh_next_instance_handle h \<mapsto> (inst, trace_buffer_new 4096))\<rparr>)"
proof (cases "find_definition n h")
  case (Some d)
  let ?i = "(instance_new (Some d) :: 'p instance_state)\<lparr>in_handle := word_of_nat (rh_next_instance_handle h)\<rparr>"
  have "set_tick_budget_ms 20 ?i = Ret (?i\<lparr>in_tree_stats := (in_tree_stats ?i)\<lparr>tp_configured_tick_budget := 20000000\<rparr>\<rparr>)"
    by (simp add: set_tick_budget_ms_def)
  then show thesis
    using that(2) [of d "?i\<lparr>in_tree_stats := (in_tree_stats ?i)\<lparr>tp_configured_tick_budget := 20000000\<rparr>\<rparr>"] Some
    by (simp add: create_instance_def Let_def instance_new_def)
qed (use that(1) in \<open>simp add: create_instance_def\<close>)

lemma handles_step:
  assumes "host_step good h h'" "handles_ok good h" "callbacks_ok h"
  shows "handles_ok good h'"
  using assms
proof (induction rule: host_step.induct)
  case (step_store d h)
  have kept: "rh_definitions (snd (store_definition d h)) n = Some d'" if "rh_definitions h n = Some d'" for n d'
    using step_store(2) that by (force simp: handles_ok_def store_definition_def Let_def)
  have "n < rh_next_definition_handle (snd (store_definition d h)) \<and> good d'"
    if "rh_definitions (snd (store_definition d h)) n = Some d'" for n d'
    using step_store(1,2) that by (auto simp: handles_ok_def store_definition_def Let_def less_SucI split: if_splits)
  moreover have "rh_instances (snd (store_definition d h)) = rh_instances h"
    "rh_next_instance_handle (snd (store_definition d h)) = rh_next_instance_handle h" by (simp_all add: store_definition_def Let_def)
  ultimately show ?case using step_store(2) kept unfolding handles_ok_def by metis
next
  case (step_create h n)
  show ?case
  proof (cases n h rule: create_instance_cases)
    case (2 d inst)
    then have new: "\<exists>m d'. in_def inst = Some d' \<and> rh_definitions h m = Some d'" by (auto simp: find_definition_def)
    show ?thesis unfolding 2(5) handles_ok_def using step_create(1) [unfolded handles_ok_def] new
      by (simp add: less_SucI)
  qed (use step_create in simp)
next
  case (step_tick h hf k i)
  show ?case
  proof (cases "find_instance i h")
    case (Some p)
    obtain inst tr where p: "p = (inst, tr)" by fastforce
    obtain r inst' ob w where t: "tick (tick_host h) hf k inst (tick_obs tr h) (rh_world h) = (r, inst', ob, w)"
      by (metis prod_cases4)
    have "in_def inst' = in_def inst"
      using tick_keeps_def [of "tick_host h" hf k inst "tick_obs tr h" "rh_world h"] step_tick(2) t by (simp add: callbacks_ok_def)
    moreover have "\<exists>n d. in_def inst = Some d \<and> rh_definitions h n = Some d"
      using step_tick(1) Some unfolding handles_ok_def find_instance_def p by blast
    ultimately show ?thesis using step_tick(1) Some p t
      by (auto simp: handles_ok_def tick_instance_def after_tick_def find_instance_def)
  qed (use step_tick in \<open>simp add: tick_instance_def\<close>)
next
  case (step_reset h i)
  then show ?case
    by (auto simp: handles_ok_def host_reset_instance_def find_instance_def reset_instance_def split: option.split)
next
  case (step_enable h seed run_id t0 dt)
  then show ?case by (simp add: handles_ok_def enable_deterministic_test_mode_def Let_def split: sum.split)
qed (simp_all add: handles_ok_def disable_deterministic_test_mode_def clear_logs_def clear_all_def)

lemma reachable_ok:
  "(host_step good)\<^sup>*\<^sup>* h h' \<Longrightarrow> handles_ok good h \<and> callbacks_ok h \<Longrightarrow> handles_ok good h' \<and> callbacks_ok h'"
  by (induction rule: rtranclp_induct) (auto intro: handles_step callbacks_step)

lemma new_host_ok:
  assumes "heaps_ok svc"
  shows "handles_ok good (runtime_host_new svc jobs seed clear ev t0 clock w) \<and> callbacks_ok (runtime_host_new svc jobs seed clear ev t0 clock w)"
proof -
  let ?h = "runtime_host_new svc jobs seed clear ev t0 clock w"
  have reg: "ho_reg (tick_host ?h) = install_demo_callbacks (Some demo_robot) (Some jobs) registry_empty"
    by (simp add: tick_host_def runtime_host_new_def)
  have "rh_services ?h = svc" by (simp add: runtime_host_new_def)
  then show ?thesis
    using assms frame.demo_respects [OF frame.demo_robot_respects reg] demo_std [OF reg]
    by (simp add: callbacks_ok_def) (simp add: handles_ok_def runtime_host_new_def)
qed


subsection \<open>Several instances\<close>

fun host_ticks :: "nat \<Rightarrow> nat \<Rightarrow> nat list \<Rightarrow> ('w, 'p) runtime_host \<Rightarrow> (nat \<times> status outcome) list" where
  "host_ticks hf k [] h = []"
| "host_ticks hf k (i # is) h = (let (r, h) = tick_instance hf k i h in (i, r) # host_ticks hf k is h)"

definition answers_of :: "nat \<Rightarrow> (nat \<times> status outcome) list \<Rightarrow> status outcome list" where
  "answers_of i rs = map snd (filter (\<lambda>(j, _). j = i) rs)"

lemma tick_other: "j \<noteq> i \<Longrightarrow> rh_instances (snd (tick_instance hf k j h)) i = rh_instances h i"
  by (auto simp: tick_instance_def after_tick_def split: option.split prod.split)

lemma interleaved:
  assumes "sound_host d (tick_host h) hf k orc" "rh_instances h i = Some (inst, tr)" "inst_sim d s inst"
  shows "answers_of i (host_ticks hf k hs h) =
    map Ret (doc_run orc (tree_of d (df_root d)) (Suc (in_tick_index inst)) (count_list hs i) s)"
  using assms
proof (induction hs arbitrary: h inst tr s)
  case (Cons j hs)
  obtain r h' where t: "tick_instance hf k j h = (r, h')" by force
  have same: "tick_host h' = tick_host h" using tick_host_simps(3) [of hf k j h] t by simp
  show ?case
  proof (cases "j = i")
    case True
    obtain inst' ob w where tick: "tick (tick_host h) hf k inst (tick_obs tr h) (rh_world h) =
        (Ret (fst (doc_tick (orc (Suc (in_tick_index inst))) (tree_of d (df_root d)) s)), inst', ob, w)"
      "inst_sim d (snd (doc_tick (orc (Suc (in_tick_index inst))) (tree_of d (df_root d)) s)) inst'"
      "in_tick_index inst' = Suc (in_tick_index inst)"
      using tick_refines [OF Cons.prems(1,3)] by blast
    then have "r = Ret (fst (doc_tick (orc (Suc (in_tick_index inst))) (tree_of d (df_root d)) s))"
      "rh_instances h' i = Some (inst', ob_trace ob)"
      using t True Cons.prems(2) by (auto simp: tick_instance_def find_instance_def after_tick_def)
    with Cons.IH [of h' inst' "ob_trace ob"] tick(2,3) same Cons.prems(1) True t show ?thesis
      by (simp add: answers_of_def Let_def split_beta)
  next
    case False
    have "rh_instances h' i = Some (inst, tr)" using tick_other [OF False, of hf k h] t Cons.prems(2) by simp
    with Cons.IH [of h' inst tr s] same Cons.prems False t show ?thesis by (simp add: answers_of_def)
  qed
qed (simp add: answers_of_def)

lemma new_instance_answers:
  assumes "sound_host d (tick_host h) hf k orc" "find_definition n h = Some d"
  shows "\<exists>i h'. create_instance n h = (Ret i, h') \<and>
    (\<forall>hs. answers_of i (host_ticks hf k hs h') =
       map Ret (doc_run orc (tree_of d (df_root d)) 1 (count_list hs i) no_cells))"
proof (cases n h rule: create_instance_cases)
  case (2 d' inst)
  let ?i = "rh_next_instance_handle h" and ?h = "snd (create_instance n h)"
  have "d' = d" using 2(1) assms(2) by simp
  have sim: "inst_sim d no_cells inst" using 2(2,4) \<open>d' = d\<close> by (simp add: inst_sim_def inst_cell_def no_cells_def)
  have "rh_instances ?h ?i = Some (inst, trace_buffer_new 4096)" using 2(5) by simp
  moreover have "sound_host d (tick_host ?h) hf k orc" using assms(1) by simp
  ultimately have "answers_of ?i (host_ticks hf k hs ?h) =
      map Ret (doc_run orc (tree_of d (df_root d)) 1 (count_list hs ?i) no_cells)" for hs
    using interleaved [OF _ _ sim] 2(3) by (simp del: tick_host_simps)
  then show ?thesis using 2(5) by (metis snd_conv)
qed (use assms(2) in simp)

text \<open>
  Instances do not disturb each other: however the ticks of several instances of a host are interleaved, and whatever the others
  do, a new instance answers its ticks as the documented semantics of its tree says.
\<close>

theorem instances_independent:
  assumes "sound_host d (tick_host h) hf k orc" "find_definition n h = Some d"
  shows "\<exists>i h'. create_instance n h = (Ret i, h') \<and>
    (\<forall>hs. answers_of i (host_ticks hf k hs h') =
       map Ret (doc_run orc (tree_of d (df_root d)) 1 (count_list hs i) no_cells))"
  using assms by (rule new_instance_answers)

subsection \<open>A host that ships\<close>

definition no_jobs :: "'w job_ops" where
  "no_jobs = \<lparr>jo_submit = (\<lambda>_ _ w. (0, w)), jo_get_info = (\<lambda>_ _. job_info_default), jo_try_get_result = (\<lambda>_ w. w)\<rparr>"

definition shipped_host :: "(gc_heap, unit) runtime_host" where
  "shipped_host = runtime_host_new sample_services no_jobs (\<lambda>_ w. w) (\<lambda>w. w) (event_log_new (\<lambda>_. 0) (\<lambda>_. True) 8192) 0 int (gc_new 16 (\<lambda>_. 0))"

definition demo_form :: lisp_value where
  "demo_form = list_from_vector [VSym ''seq'', list_from_vector [VSym ''act'', VSym ''always-success''],
     list_from_vector [VSym ''cond'', VSym ''always-true'']]"

definition demo_compiled :: bt_definition where
  "demo_compiled = finish 2
     [node_default\<lparr>nd_kind := K_act, nd_id := 0, nd_leaf_name := ''always-success''\<rparr>,
      node_default\<lparr>nd_kind := K_cond, nd_id := 1, nd_leaf_name := ''always-true''\<rparr>,
      node_default\<lparr>nd_kind := K_seq, nd_id := 2, nd_children := [0, 1]\<rparr>]"

lemma demo_form_compiles: "compile_definition demo_form = Inr demo_compiled"
  by (simp add: demo_form_def demo_compiled_def compile_definition_def list_from_vector_def is_cons_def
      composite_kind_def compile_leaf_def leaf_name_of_def emit_node_def guard_err_def node_default_def)
    (simp add: numeral_2_eq_2)

lemma demo_nodes:
  "df_nodes demo_compiled =
     [node_default\<lparr>nd_kind := K_act, nd_id := 0, nd_leaf_name := ''always-success''\<rparr>,
      node_default\<lparr>nd_kind := K_cond, nd_id := 1, nd_leaf_name := ''always-true''\<rparr>,
      node_default\<lparr>nd_kind := K_seq, nd_id := 2, nd_children := [0, 1]\<rparr>]"
  "df_root demo_compiled = 2"
  by (simp_all add: demo_compiled_def finish_def definition_default_def)

lemma demo_wf: "wf_definition demo_compiled"
  by (rule compile_definition_wf [OF demo_form_compiles]) (simp add: demo_nodes)

text \<open>The nodes and the root decide; the identity metadata of a definition plays no part.\<close>

definition same_tree :: "bt_definition \<Rightarrow> bt_definition \<Rightarrow> bool" where
  "same_tree d d' \<longleftrightarrow> df_nodes d' = df_nodes d \<and> df_root d' = df_root d"

lemma shipped_heaps: "heaps_ok sample_services"
  using heap_new_ok by (simp add: heaps_ok_def sample_services_def)

lemma shipped_callbacks:
  "find_action ''always-success'' (ho_reg (tick_host shipped_host)) = Some (\<lambda>c i args. (Inr Success, c))"
  "find_condition ''always-true'' (ho_reg (tick_host shipped_host)) = Some (\<lambda>c args. (Inr True, c))"
  "find_action_halt name (ho_reg (tick_host shipped_host)) = None"
  by (simp_all add: tick_host_def shipped_host_def runtime_host_new_def install_demo_callbacks_def Let_def)
    (simp add: find_action_halt_def registry_empty_def)

lemma demo_leaves: "same_tree demo_compiled d \<Longrightarrow> leaves_answer d (tick_host shipped_host) (\<lambda>_ _. Success)"
  unfolding leaves_answer_def same_tree_def demo_nodes
  by (auto simp: eval_nat_numeral less_Suc_eq callback_leaf_def named_leaf_def service_leaf_def tick_body_def tick_cond_def tick_act_def
      shipped_callbacks materialize_args_def touches_def node_memory_for_def in_memory_set_memory Let_def node_default_def)

lemma demo_sound:
  assumes "same_tree demo_compiled d"
  shows "sound_host d (tick_host shipped_host) 9 3 (\<lambda>_ _. Success)"
proof -
  have nodes: "df_nodes d = df_nodes demo_compiled" "df_root d = df_root demo_compiled" using assms by (simp_all add: same_tree_def)
  have "enough_halt_steps d 9"
    by (simp add: enough_halt_steps_def halt_steps_def nodes demo_nodes node_default_def eval_nat_numeral all_less_Suc)
  moreover have "wf_definition d" using demo_wf by (simp add: wf_definition_def nodes)
  moreover have "callbacks_ok shipped_host" using new_host_ok [OF shipped_heaps] unfolding shipped_host_def by blast
  ultimately show ?thesis using demo_leaves [OF assms]
    by (simp add: sound_host_def halting_sound_def local_halts_def shipped_callbacks callbacks_ok_def services_of_tick_host nodes demo_nodes)
qed

definition demo_host :: "(gc_heap, unit) runtime_host" where
  "demo_host = snd (store_definition demo_compiled shipped_host)"

lemma demo_stored: "find_definition 1 demo_host = Some demo_compiled" "tick_host demo_host = tick_host shipped_host"
  by (simp add: demo_host_def find_definition_def store_definition_def shipped_host_def runtime_host_new_def Let_def)
    (simp add: demo_host_def)


theorem instances_independent_witness:
  "\<exists>i h'. create_instance 1 demo_host = (Ret i, h') \<and>
    (\<forall>hs. answers_of i (host_ticks 9 3 hs h') =
       map Ret (doc_run (\<lambda>_ _. Success) (tree_of demo_compiled (df_root demo_compiled)) 1 (count_list hs i) no_cells))"
  by (rule instances_independent [OF _ demo_stored(1)]) (simp add: demo_stored(2) demo_sound same_tree_def)

end
