(* ===== verification/Builtins_Num.thy ===== *)
theory Builtins_Num
  imports Lisp_Eval
begin

text \<open>
  The builtin functions on lists and numbers (\<open>src/builtins.cpp\<close>): integers are 64 bits wide and an overflow is an error;
  one float among the arguments makes the whole sum or product one of floats. These functions keep no state: a builtin
  maps its arguments to a value or an error.

  The functions of the mathematical library whose results IEEE does not fix (\<open>log\<close>, \<open>exp\<close>, \<open>atan2\<close>, \<open>sin\<close>, \<open>cos\<close>) are
  fields of the record \<open>libm\<close>.
\<close>

record libm =
  lm_log :: "double \<Rightarrow> double"
  lm_exp :: "double \<Rightarrow> double"
  lm_atan2 :: "double \<Rightarrow> double \<Rightarrow> double"
  lm_sin :: "double \<Rightarrow> double"
  lm_cos :: "double \<Rightarrow> double"

type_synonym 'a checked = "lisp_exn + 'a"

subsection \<open>Arguments\<close>

definition require_arity :: "string \<Rightarrow> lisp_value list \<Rightarrow> nat \<Rightarrow> unit checked" where
  "require_arity name args expected =
     (if length args \<noteq> expected
      then Inl (Lisp_error (name @ '': expected '' @ nat_str expected @ '' arguments, got '' @ nat_str (length args)))
      else Inr ())"

definition require_min_arity :: "string \<Rightarrow> lisp_value list \<Rightarrow> nat \<Rightarrow> unit checked" where
  "require_min_arity name args min_expected =
     (if length args < min_expected
      then Inl (Lisp_error (name @ '': expected at least '' @ nat_str min_expected @ '' arguments, got '' @ nat_str (length args)))
      else Inr ())"

definition with_arity :: "string \<Rightarrow> lisp_value list \<Rightarrow> nat \<Rightarrow> 'a checked \<Rightarrow> 'a checked" where
  "with_arity name args expected r = rbind (require_arity name args expected) (\<lambda>_. r)"

definition require_integer :: "lisp_value \<Rightarrow> string \<Rightarrow> i64 checked" where
  "require_integer v place = (case v of VInt i \<Rightarrow> Inr i | _ \<Rightarrow> Inl (Lisp_error (place @ '': expected integer'')))"

subsection \<open>Lists\<close>

definition builtin_cons :: "lisp_value list \<Rightarrow> lisp_value checked" where
  "builtin_cons args = with_arity ''cons'' args 2 (Inr (VCons (args ! 0) (args ! 1)))"

definition builtin_car :: "lisp_value list \<Rightarrow> lisp_value checked" where
  "builtin_car args =
     with_arity ''car'' args 1 (case args ! 0 of VCons a d \<Rightarrow> Inr a | _ \<Rightarrow> Inl (Lisp_error ''car: expected cons''))"

definition builtin_cdr :: "lisp_value list \<Rightarrow> lisp_value checked" where
  "builtin_cdr args =
     with_arity ''cdr'' args 1 (case args ! 0 of VCons a d \<Rightarrow> Inr d | _ \<Rightarrow> Inl (Lisp_error ''cdr: expected cons''))"

definition builtin_null :: "lisp_value list \<Rightarrow> lisp_value checked" where
  "builtin_null args = with_arity ''null?'' args 1 (Inr (VBool (args ! 0 = VNil)))"

definition builtin_list :: "lisp_value list \<Rightarrow> lisp_value checked" where
  "builtin_list args = Inr (list_from_vector args)"

subsection \<open>Numbers\<close>

record numeric =
  nu_is_int :: bool
  nu_int_value :: i64
  nu_float_value :: double

definition as_numeric :: "lisp_value \<Rightarrow> string \<Rightarrow> numeric checked" where
  "as_numeric v place =
     (case v of
        VInt i \<Rightarrow> Inr \<lparr>nu_is_int = True, nu_int_value = i, nu_float_value = fp_of_int (sint i)\<rparr>
      | VFloat d \<Rightarrow> Inr \<lparr>nu_is_int = False, nu_int_value = 0, nu_float_value = d\<rparr>
      | _ \<Rightarrow> Inl (Lisp_error (place @ '': expected number'')))"

definition number_as_double :: "numeric \<Rightarrow> double" where
  "number_as_double n = (if nu_is_int n then fp_of_int (sint (nu_int_value n)) else nu_float_value n)"

definition is_float :: "lisp_value \<Rightarrow> bool" where
  "is_float v = (case v of VFloat _ \<Rightarrow> True | _ \<Rightarrow> False)"

definition is_integer :: "lisp_value \<Rightarrow> bool" where
  "is_integer v = (case v of VInt _ \<Rightarrow> True | _ \<Rightarrow> False)"

fun contains_float :: "lisp_value list \<Rightarrow> bool" where
  "contains_float [] = False"
| "contains_float (v # vs) = (if is_float v then True else contains_float vs)"

text \<open>\<open>__builtin_add_overflow\<close> and its companions: the exact result, when 64 bits hold it.\<close>

definition in_int64 :: "int \<Rightarrow> bool" where
  "in_int64 i \<longleftrightarrow> - (2 ^ 63) \<le> i \<and> i < 2 ^ 63"

definition narrow_int64 :: "int \<Rightarrow> i64 option" where
  "narrow_int64 i = (if in_int64 i then Some (word_of_int i) else None)"

definition checked_add :: "i64 \<Rightarrow> i64 \<Rightarrow> i64 option" where
  "checked_add lhs rhs = narrow_int64 (sint lhs + sint rhs)"

definition checked_sub :: "i64 \<Rightarrow> i64 \<Rightarrow> i64 option" where
  "checked_sub lhs rhs = narrow_int64 (sint lhs - sint rhs)"

definition checked_mul :: "i64 \<Rightarrow> i64 \<Rightarrow> i64 option" where
  "checked_mul lhs rhs = narrow_int64 (sint lhs * sint rhs)"

definition overflow_error :: "string \<Rightarrow> lisp_exn" where
  "overflow_error name = Lisp_error (name @ '': integer overflow'')"

definition int64_min :: i64 where
  "int64_min = word_of_int (- (2 ^ 63))"

text \<open>The two loops of \<open>+\<close>, \<open>-\<close> and \<open>*\<close> over the arguments.\<close>

fun float_loop :: "(double \<Rightarrow> double \<Rightarrow> double) \<Rightarrow> string \<Rightarrow> double \<Rightarrow> lisp_value list \<Rightarrow> double checked" where
  "float_loop f name acc [] = Inr acc"
| "float_loop f name acc (v # vs) =
     rbind (as_numeric v name) (\<lambda>n. float_loop f name (f acc (number_as_double n)) vs)"

fun int_loop :: "(i64 \<Rightarrow> i64 \<Rightarrow> i64 option) \<Rightarrow> string \<Rightarrow> i64 \<Rightarrow> lisp_value list \<Rightarrow> i64 checked" where
  "int_loop f name acc [] = Inr acc"
| "int_loop f name acc (v # vs) =
     rbind (as_numeric v name)
       (\<lambda>n. case f acc (nu_int_value n) of
              None \<Rightarrow> Inl (overflow_error name)
            | Some acc' \<Rightarrow> int_loop f name acc' vs)"

definition make_float :: "double \<Rightarrow> lisp_value checked" where
  "make_float d = Inr (VFloat d)"

definition make_integer :: "i64 \<Rightarrow> lisp_value checked" where
  "make_integer i = Inr (VInt i)"

definition builtin_add :: "lisp_value list \<Rightarrow> lisp_value checked" where
  "builtin_add args =
     (if args = [] then make_integer 0
      else if contains_float args then rbind (float_loop fp_add ''+'' 0 args) make_float
      else rbind (int_loop checked_add ''+'' 0 args) make_integer)"

definition builtin_sub :: "lisp_value list \<Rightarrow> lisp_value checked" where
  "builtin_sub args =
     rbind (require_min_arity ''-'' args 1)
       (\<lambda>_. rbind (as_numeric (hd args) ''-'')
         (\<lambda>n. if contains_float args then
                (if length args = 1 then make_float (fp_uminus (number_as_double n))
                 else rbind (float_loop fp_sub ''-'' (number_as_double n) (tl args)) make_float)
              else if length args = 1 then
                (if nu_int_value n = int64_min then Inl (overflow_error ''-'') else make_integer (- nu_int_value n))
              else rbind (int_loop checked_sub ''-'' (nu_int_value n) (tl args)) make_integer))"

definition builtin_mul :: "lisp_value list \<Rightarrow> lisp_value checked" where
  "builtin_mul args =
     (if args = [] then make_integer 1
      else if contains_float args then rbind (float_loop fp_mul ''*'' fp_one args) make_float
      else rbind (int_loop checked_mul ''*'' 1 args) make_integer)"

definition builtin_div :: "lisp_value list \<Rightarrow> lisp_value checked" where
  "builtin_div args =
     rbind (require_min_arity ''/'' args 1)
       (\<lambda>_. rbind (as_numeric (hd args) ''/'')
         (\<lambda>n. if length args = 1 then make_float (fp_div fp_one (number_as_double n))
              else rbind (float_loop fp_div ''/'' (number_as_double n) (tl args)) make_float))"

subsection \<open>Comparisons and predicates\<close>

text \<open>The loop of \<open>=\<close>, \<open><\<close>, \<open>>\<close>, \<open><=\<close> and \<open>>=\<close> over neighbours: two integers compare as integers, otherwise as doubles.\<close>

fun compare_loop ::
  "(i64 \<Rightarrow> i64 \<Rightarrow> bool) \<Rightarrow> (double \<Rightarrow> double \<Rightarrow> bool) \<Rightarrow> string \<Rightarrow> lisp_value list \<Rightarrow> bool checked" where
  "compare_loop ri rd name (a # b # vs) =
     rbind (as_numeric a name)
       (\<lambda>lhs. rbind (as_numeric b name)
         (\<lambda>rhs. if (if nu_is_int lhs \<and> nu_is_int rhs then ri (nu_int_value lhs) (nu_int_value rhs)
                    else rd (number_as_double lhs) (number_as_double rhs))
                then compare_loop ri rd name (b # vs) else Inr False))"
| "compare_loop ri rd name vs = Inr True"

definition comparison ::
  "(i64 \<Rightarrow> i64 \<Rightarrow> bool) \<Rightarrow> (double \<Rightarrow> double \<Rightarrow> bool) \<Rightarrow> string \<Rightarrow> lisp_value list \<Rightarrow> lisp_value checked" where
  "comparison ri rd name args =
     rbind (require_min_arity name args 2) (\<lambda>_. rbind (compare_loop ri rd name args) (\<lambda>b. Inr (VBool b)))"

definition builtin_num_eq :: "lisp_value list \<Rightarrow> lisp_value checked" where
  "builtin_num_eq = comparison (=) fp_eq ''=''"

definition builtin_less :: "lisp_value list \<Rightarrow> lisp_value checked" where
  "builtin_less = comparison (<s) fp_less ''<''"

definition builtin_greater :: "lisp_value list \<Rightarrow> lisp_value checked" where
  "builtin_greater = comparison (\<lambda>a b. b <s a) (\<lambda>a b. fp_less b a) ''>''"

definition builtin_less_equal :: "lisp_value list \<Rightarrow> lisp_value checked" where
  "builtin_less_equal = comparison (\<le>s) fp_le ''<=''"

definition builtin_greater_equal :: "lisp_value list \<Rightarrow> lisp_value checked" where
  "builtin_greater_equal = comparison (\<lambda>a b. b \<le>s a) (\<lambda>a b. fp_le b a) ''>=''"

definition builtin_number_pred :: "lisp_value list \<Rightarrow> lisp_value checked" where
  "builtin_number_pred args = with_arity ''number?'' args 1 (Inr (VBool (is_integer (args ! 0) \<or> is_float (args ! 0))))"

definition builtin_integer_pred :: "lisp_value list \<Rightarrow> lisp_value checked" where
  "builtin_integer_pred args = with_arity ''integer?'' args 1 (Inr (VBool (is_integer (args ! 0))))"

definition builtin_float_pred :: "lisp_value list \<Rightarrow> lisp_value checked" where
  "builtin_float_pred args = with_arity ''float?'' args 1 (Inr (VBool (is_float (args ! 0))))"

definition builtin_zero_pred :: "lisp_value list \<Rightarrow> lisp_value checked" where
  "builtin_zero_pred args =
     with_arity ''zero?'' args 1
       (Inr (VBool (case args ! 0 of VInt i \<Rightarrow> i = 0 | VFloat d \<Rightarrow> fp_eq d 0 | _ \<Rightarrow> False)))"

subsection \<open>Real functions\<close>

definition double_arg :: "lisp_value \<Rightarrow> string \<Rightarrow> double checked" where
  "double_arg v name = rbind (as_numeric v name) (\<lambda>n. Inr (number_as_double n))"

definition builtin_sqrt :: "lisp_value list \<Rightarrow> lisp_value checked" where
  "builtin_sqrt args =
     with_arity ''sqrt'' args 1
       (rbind (double_arg (args ! 0) ''sqrt'')
         (\<lambda>x. if fp_less x 0 then Inl (Lisp_error ''sqrt: expected x >= 0'') else make_float (fp_sqrt x)))"

definition builtin_log :: "libm \<Rightarrow> lisp_value list \<Rightarrow> lisp_value checked" where
  "builtin_log M args =
     with_arity ''log'' args 1
       (rbind (double_arg (args ! 0) ''log'')
         (\<lambda>x. if fp_le x 0 then Inl (Lisp_error ''log: expected x > 0'') else make_float (lm_log M x)))"

definition builtin_exp :: "libm \<Rightarrow> lisp_value list \<Rightarrow> lisp_value checked" where
  "builtin_exp M args =
     with_arity ''exp'' args 1 (rbind (double_arg (args ! 0) ''exp'') (\<lambda>x. make_float (lm_exp M x)))"

definition builtin_atan2 :: "libm \<Rightarrow> lisp_value list \<Rightarrow> lisp_value checked" where
  "builtin_atan2 M args =
     with_arity ''atan2'' args 2
       (rbind (double_arg (args ! 0) ''atan2'')
         (\<lambda>y. rbind (double_arg (args ! 1) ''atan2'') (\<lambda>x. make_float (lm_atan2 M y x))))"

definition builtin_abs :: "lisp_value list \<Rightarrow> lisp_value checked" where
  "builtin_abs args =
     with_arity ''abs'' args 1
       (case args ! 0 of
          VInt x \<Rightarrow> if x = int64_min then Inl (overflow_error ''abs'') else make_integer (if x <s 0 then - x else x)
        | VFloat d \<Rightarrow> make_float (fp_abs d)
        | _ \<Rightarrow> Inl (Lisp_error ''abs: expected number''))"

text \<open>\<open>std::clamp(v, lo, hi)\<close> is \<open>v < lo ? lo : hi < v ? hi : v\<close>.\<close>

definition int_clamp :: "i64 \<Rightarrow> i64 \<Rightarrow> i64 \<Rightarrow> i64" where
  "int_clamp v lo hi = (if v <s lo then lo else if hi <s v then hi else v)"

definition builtin_clamp :: "lisp_value list \<Rightarrow> lisp_value checked" where
  "builtin_clamp args =
     with_arity ''clamp'' args 3
       (rbind (as_numeric (args ! 0) ''clamp'') (\<lambda>x.
        rbind (as_numeric (args ! 1) ''clamp'') (\<lambda>lo.
        rbind (as_numeric (args ! 2) ''clamp'') (\<lambda>hi.
          if nu_is_int x \<and> nu_is_int lo \<and> nu_is_int hi then
            (if nu_int_value hi <s nu_int_value lo then Inl (Lisp_error ''clamp: expected lo <= hi'')
             else make_integer (int_clamp (nu_int_value x) (nu_int_value lo) (nu_int_value hi)))
          else if fp_less (number_as_double hi) (number_as_double lo) then Inl (Lisp_error ''clamp: expected lo <= hi'')
          else make_float (fp_clamp (number_as_double x) (number_as_double lo) (number_as_double hi))))))"

subsection \<open>Exactness of integer arithmetic\<close>

lemma sint_in_int64 [simp]: "in_int64 (sint (w :: i64))"
  using sint_lt [of w] sint_ge [of w] by (simp add: in_int64_def)

lemma sint_word_of_int64 [simp]: "in_int64 i \<Longrightarrow> sint (word_of_int i :: i64) = i"
  by (auto simp: in_int64_def signed_take_bit_int_eq_self sint_sbintrunc')

lemma word_of_int64_eq: "in_int64 i \<Longrightarrow> word_of_int i = (w :: i64) \<longleftrightarrow> sint w = i"
  by (auto simp: of_int_sint)

text \<open>
  What the loop of an exact operation computes: every partial result has to fit, and the value is the exact one.
\<close>

fun exact_prefixes :: "(int \<Rightarrow> int \<Rightarrow> int) \<Rightarrow> int \<Rightarrow> int list \<Rightarrow> bool" where
  "exact_prefixes f acc [] = True"
| "exact_prefixes f acc (i # is) \<longleftrightarrow> in_int64 (f acc i) \<and> exact_prefixes f (f acc i) is"

lemma exact_prefixes_in_int64:
  "in_int64 acc \<Longrightarrow> exact_prefixes f acc is \<Longrightarrow> in_int64 (fold (\<lambda>i a. f a i) is acc)"
  by (induction "is" arbitrary: acc) auto

locale exact_operation =
  fixes g :: "i64 \<Rightarrow> i64 \<Rightarrow> i64 option"
    and f :: "int \<Rightarrow> int \<Rightarrow> int"
  assumes exact: "g a b = narrow_int64 (f (sint a) (sint b))"
begin

lemma loop:
  "int_loop g name acc (map VInt is) =
    (if exact_prefixes f (sint acc) (map sint is) then Inr (word_of_int (fold (\<lambda>i a. f a i) (map sint is) (sint acc)))
     else Inl (overflow_error name))"
  by (induction "is" arbitrary: acc) (auto simp: as_numeric_def exact narrow_int64_def)

lemma loop_value:
  "int_loop g name acc (map VInt is) = Inr r \<longleftrightarrow>
    exact_prefixes f (sint acc) (map sint is) \<and> sint r = fold (\<lambda>i a. f a i) (map sint is) (sint acc)"
  using exact_prefixes_in_int64 [of "sint acc" f "map sint is"] by (auto simp: loop word_of_int64_eq)

lemma loop_error:
  "int_loop g name acc (map VInt is) = Inl e \<longleftrightarrow>
    \<not> exact_prefixes f (sint acc) (map sint is) \<and> e = overflow_error name"
  by (auto simp: loop)

end

interpretation add_op: exact_operation checked_add "(+)"
  by unfold_locales (rule checked_add_def)

interpretation sub_op: exact_operation checked_sub "(-)"
  by unfold_locales (rule checked_sub_def)

interpretation mul_op: exact_operation checked_mul "(*)"
  by unfold_locales (rule checked_mul_def)

lemma not_contains_float [simp]: "\<not> contains_float (map VInt is)"
  by (induction "is") (simp_all add: is_float_def)

lemma integer_result:
  "rbind l make_integer = Inr (VInt r) \<longleftrightarrow> l = Inr r"
  "rbind l make_integer = Inl e \<longleftrightarrow> l = Inl e"
  by (cases l; simp add: make_integer_def)+

lemma uminus_word: "- i = (word_of_int (- sint i) :: i64)"
  by (simp add: of_int_sint)

lemma in_int64_uminus: "in_int64 (- sint i) \<longleftrightarrow> i \<noteq> int64_min"
proof -
  have "sint i = - (2 ^ 63) \<longleftrightarrow> i = int64_min"
    using word_of_int64_eq [of "- (2 ^ 63)" i] by (auto simp: int64_min_def in_int64_def)
  then show ?thesis using sint_in_int64 [of i] by (auto simp: in_int64_def)
qed

lemma negation_exact: "builtin_sub [VInt i] = Inr (VInt r) \<longleftrightarrow> in_int64 (- sint i) \<and> sint r = - sint i"
proof (cases "in_int64 (- sint i)")
  case True
  then show ?thesis
    using word_of_int64_eq [OF True, of r]
    by (simp add: builtin_sub_def require_min_arity_def as_numeric_def is_float_def make_integer_def in_int64_uminus)
next
  case False
  then show ?thesis
    by (simp add: builtin_sub_def require_min_arity_def as_numeric_def is_float_def in_int64_uminus)
qed

lemma fold_plus: "fold (\<lambda>i a. a + i) is acc = acc + sum_list (is :: int list)"
  by (induction "is" arbitrary: acc) auto

lemma fold_minus: "fold (\<lambda>i a. a - i) is acc = acc - sum_list (is :: int list)"
  by (induction "is" arbitrary: acc) auto

lemma fold_times: "fold (\<lambda>i a. a * i) is acc = acc * prod_list (is :: int list)"
  by (induction "is" arbitrary: acc) auto

text \<open>
  C23. Integer \<open>+\<close>, \<open>*\<close> and \<open>-\<close> never wrap around: the result is the exact sum, product or difference of the arguments, or,
  when some partial result does not fit in 64 bits, the overflow error of the operation and nothing else.
\<close>

theorem integer_arithmetic_exact:
  "(builtin_add (map VInt is) = Inr (VInt r) \<longleftrightarrow>
     exact_prefixes (+) 0 (map sint is) \<and> sint r = sum_list (map sint is)) \<and>
   (builtin_add (map VInt is) = Inl e \<longleftrightarrow> \<not> exact_prefixes (+) 0 (map sint is) \<and> e = overflow_error ''+'') \<and>
   (builtin_mul (map VInt is) = Inr (VInt r) \<longleftrightarrow>
     exact_prefixes (*) 1 (map sint is) \<and> sint r = prod_list (map sint is)) \<and>
   (builtin_mul (map VInt is) = Inl e \<longleftrightarrow> \<not> exact_prefixes (*) 1 (map sint is) \<and> e = overflow_error ''*'') \<and>
   (builtin_sub (map VInt (i # j # is)) = Inr (VInt r) \<longleftrightarrow>
     exact_prefixes (-) (sint i) (map sint (j # is)) \<and> sint r = sint i - sum_list (map sint (j # is))) \<and>
   (builtin_sub (map VInt (i # j # is)) = Inl e \<longleftrightarrow>
     \<not> exact_prefixes (-) (sint i) (map sint (j # is)) \<and> e = overflow_error ''-'') \<and>
   (builtin_sub [VInt i] = Inr (VInt r) \<longleftrightarrow> in_int64 (- sint i) \<and> sint r = - sint i)"
proof (intro conjI)
  note loops = add_op.loop_value sub_op.loop_value mul_op.loop_value add_op.loop_error sub_op.loop_error mul_op.loop_error
  have add: "builtin_add (map VInt is) = rbind (int_loop checked_add ''+'' 0 (map VInt is)) make_integer"
    and mul: "builtin_mul (map VInt is) = rbind (int_loop checked_mul ''*'' 1 (map VInt is)) make_integer"
    by (simp_all add: builtin_add_def builtin_mul_def)
  show "builtin_add (map VInt is) = Inr (VInt r) \<longleftrightarrow>
      exact_prefixes (+) 0 (map sint is) \<and> sint r = sum_list (map sint is)"
    "builtin_add (map VInt is) = Inl e \<longleftrightarrow> \<not> exact_prefixes (+) 0 (map sint is) \<and> e = overflow_error ''+''"
    unfolding add integer_result loops fold_plus by simp_all
  show "builtin_mul (map VInt is) = Inr (VInt r) \<longleftrightarrow>
      exact_prefixes (*) 1 (map sint is) \<and> sint r = prod_list (map sint is)"
    "builtin_mul (map VInt is) = Inl e \<longleftrightarrow> \<not> exact_prefixes (*) 1 (map sint is) \<and> e = overflow_error ''*''"
    unfolding mul integer_result loops fold_times by simp_all
  have sub: "builtin_sub (map VInt (i # j # is)) = rbind (int_loop checked_sub ''-'' i (map VInt (j # is))) make_integer"
    by (simp add: builtin_sub_def require_min_arity_def as_numeric_def is_float_def)
  show "builtin_sub (map VInt (i # j # is)) = Inr (VInt r) \<longleftrightarrow>
      exact_prefixes (-) (sint i) (map sint (j # is)) \<and> sint r = sint i - sum_list (map sint (j # is))"
    "builtin_sub (map VInt (i # j # is)) = Inl e \<longleftrightarrow>
      \<not> exact_prefixes (-) (sint i) (map sint (j # is)) \<and> e = overflow_error ''-''"
    unfolding sub integer_result loops fold_minus by simp_all
  show "builtin_sub [VInt i] = Inr (VInt r) \<longleftrightarrow> in_int64 (- sint i) \<and> sint r = - sint i"
    by (rule negation_exact)
qed

end
