(* ===== verification/Builtins_Rng.thy ===== *)
theory Builtins_Rng
  imports Builtins_Num
begin

text \<open>
  The random numbers of \<open>rng.int\<close>, \<open>rng.uniform\<close> and \<open>rng.normal\<close> (\<open>src/builtins.cpp\<close>): the generator \<open>splitmix64\<close> and the
  rejection loop that turns 64 random bits into a number below a bound. The loop has no bound in the source, so it is a
  partial function; it always returns, because the states of the generator run through all 64-bit words and the output
  is a bijection of the state.
\<close>

record rng_state =
  rs_state :: u64
  rs_has_spare_normal :: bool
  rs_spare_normal :: double

definition golden_gamma :: u64 where
  "golden_gamma = 0x9e3779b97f4a7c15"

definition mix64 :: "u64 \<Rightarrow> u64" where
  "mix64 s =
     (let z = (s XOR drop_bit 30 s) * 0xbf58476d1ce4e5b9;
          z = (z XOR drop_bit 27 z) * 0x94d049bb133111eb
      in z XOR drop_bit 31 z)"

definition splitmix64_next :: "u64 \<Rightarrow> u64 \<times> u64" where
  "splitmix64_next state = (let state = state + golden_gamma in (mix64 state, state))"

definition rng_scale :: double where
  "rng_scale = 0x3CA0000000000000"

definition rng_next_unit :: "rng_state \<Rightarrow> double \<times> rng_state" where
  "rng_next_unit r =
     (let (bits, s) = splitmix64_next (rs_state r)
      in (fp_mul (fp_of_int (uint (drop_bit 11 bits))) rng_scale, r\<lparr>rs_state := s\<rparr>))"

partial_function (option) rng_int_loop :: "u64 \<Rightarrow> u64 \<Rightarrow> u64 \<Rightarrow> (u64 \<times> u64) option" where
  "rng_int_loop bound threshold s =
     (let (r, s') = splitmix64_next s
      in if threshold \<le> r then Some (r mod bound, s') else rng_int_loop bound threshold s')"

definition rng_threshold :: "u64 \<Rightarrow> u64" where
  "rng_threshold bound = (- bound) mod bound"

definition rng_below :: "u64 \<Rightarrow> u64 \<Rightarrow> (u64 \<times> u64) option" where
  "rng_below bound s = rng_int_loop bound (rng_threshold bound) s"

definition rng_uniform_between :: "double \<Rightarrow> double \<Rightarrow> rng_state \<Rightarrow> double \<times> rng_state" where
  "rng_uniform_between lo hi r =
     (if fp_eq lo hi then (lo, r)
      else let (u, r) = rng_next_unit r in (fp_add lo (fp_mul (fp_sub hi lo) u), r))"

text \<open>The Box-Muller pair: the second number of a pair is kept for the next call.\<close>

definition fp_two_pi :: double where
  "fp_two_pi = 0x401921FB54442D18"

definition fp_min_normal :: double where
  "fp_min_normal = 0x0010000000000000"

definition fp_minus_two :: double where
  "fp_minus_two = 0xC000000000000000"

definition rng_normal_around :: "libm \<Rightarrow> double \<Rightarrow> double \<Rightarrow> rng_state \<Rightarrow> double \<times> rng_state" where
  "rng_normal_around M mu sigma r =
     (if fp_eq sigma 0 then (mu, r)
      else if rs_has_spare_normal r then
        (fp_add mu (fp_mul sigma (rs_spare_normal r)), r\<lparr>rs_has_spare_normal := False\<rparr>)
      else let (u1, r) = rng_next_unit r;
               u1 = (if fp_le u1 0 then fp_min_normal else u1);
               (u2, r) = rng_next_unit r;
               radius = fp_sqrt (fp_mul fp_minus_two (lm_log M u1));
               theta = fp_mul fp_two_pi u2;
               z0 = fp_mul radius (lm_cos M theta);
               z1 = fp_mul radius (lm_sin M theta)
           in (fp_add mu (fp_mul sigma z0), r\<lparr>rs_spare_normal := z1, rs_has_spare_normal := True\<rparr>))"

subsection \<open>The output is a bijection of the state\<close>

lemma xor_shift_zero: "d = 0" if "drop_bit (Suc k) d = (d :: u64)"
proof (rule ccontr)
  assume "d \<noteq> 0"
  then have "0 < unat d" by (simp add: unat_gt_0)
  then have "unat d div 2 ^ Suc k < unat d"
    by (intro div_less_dividend one_less_power) auto
  moreover have "unat (drop_bit (Suc k) d) = unat d div 2 ^ Suc k"
    by (simp only: unat_drop_bit_eq) (simp only: drop_bit_eq_div)
  ultimately show False using that by simp
qed

lemma xor_shift_inj: "inj (\<lambda>z :: u64. z XOR drop_bit (Suc k) z)"
proof (rule injI)
  fix x y :: u64
  assume eq: "x XOR drop_bit (Suc k) x = y XOR drop_bit (Suc k) y"
  have "drop_bit (Suc k) (x XOR y) = x XOR y"
  proof -
    have "(x XOR y) XOR drop_bit (Suc k) (x XOR y) =
        (x XOR drop_bit (Suc k) x) XOR (y XOR drop_bit (Suc k) y)"
      by (simp add: drop_bit_xor ac_simps)
    also have "\<dots> = 0" by (simp add: eq)
    finally have "(x XOR y) XOR ((x XOR y) XOR drop_bit (Suc k) (x XOR y)) = (x XOR y) XOR 0"
      by simp
    then show ?thesis by (simp flip: xor.assoc)
  qed
  then have "x XOR y = 0" by (rule xor_shift_zero)
  then have "x XOR (x XOR y) = x" by simp
  then show "x = y" by (simp flip: xor.assoc)
qed

lemma times_unit_inj:
  assumes "c * c' = 1"
  shows "inj (\<lambda>z :: u64. z * c)"
proof (rule injI)
  fix x y :: u64
  assume "x * c = y * c"
  then have "x * (c * c') = y * (c * c')" by (simp flip: mult.assoc)
  then show "x = y" by (simp add: assms)
qed

lemma mix64_inj: "inj mix64"
proof -
  have a: "inj (\<lambda>z :: u64. z * 0xbf58476d1ce4e5b9)"
    by (rule times_unit_inj [where c' = "0x96de1b173f119089"]) simp
  have b: "inj (\<lambda>z :: u64. z * 0x94d049bb133111eb)"
    by (rule times_unit_inj [where c' = "0x319642b2d24d8ec3"]) simp
  have m: "mix64 = (\<lambda>z. z XOR drop_bit (Suc 30) z) \<circ> (\<lambda>z. z * 0x94d049bb133111eb) \<circ>
      (\<lambda>z. z XOR drop_bit (Suc 26) z) \<circ> (\<lambda>z. z * 0xbf58476d1ce4e5b9) \<circ> (\<lambda>z. z XOR drop_bit (Suc 29) z)"
    by (simp add: fun_eq_iff mix64_def Let_def)
  show ?thesis
    unfolding m by (intro inj_compose xor_shift_inj a b)
qed

lemma mix64_bij: "bij mix64"
  by (simp add: bij_def mix64_inj finite_UNIV_inj_surj)

lemma splitmix_bij: "bij (fst \<circ> splitmix64_next)"
proof -
  have "fst \<circ> splitmix64_next = mix64 \<circ> (\<lambda>s. s + golden_gamma)"
    by (simp add: fun_eq_iff splitmix64_next_def Let_def)
  moreover have "bij (\<lambda>s :: u64. s + golden_gamma)"
    by (simp add: bij_def inj_def finite_UNIV_inj_surj)
  ultimately show ?thesis by (simp add: bij_comp mix64_bij)
qed

subsection \<open>The rejection loop returns\<close>

lemma rng_int_loop_reaches:
  "threshold \<le> mix64 (s + of_nat (Suc j) * golden_gamma) \<Longrightarrow> \<exists>r s'. rng_int_loop bound threshold s = Some (r mod bound, s')"
proof (induction j arbitrary: s)
  case 0
  then show ?case
    by (subst rng_int_loop.simps) (auto simp: splitmix64_next_def Let_def)
next
  case (Suc j)
  from Suc.prems have "threshold \<le> mix64 ((s + golden_gamma) + of_nat (Suc j) * golden_gamma)"
    by (simp add: algebra_simps)
  from Suc.IH [OF this] show ?case
    by (subst rng_int_loop.simps) (auto simp: splitmix64_next_def Let_def)
qed

lemma golden_gamma_covers: "\<exists>j. s + of_nat (Suc j) * golden_gamma = (x :: u64)"
proof -
  define c :: u64 where "c = 0xf1de83e19937733d"
  have inverse: "c * golden_gamma = 1" by (simp add: c_def golden_gamma_def)
  define j where "j = unat ((x - s - golden_gamma) * c)"
  have "of_nat (Suc j) * golden_gamma = golden_gamma + (x - s - golden_gamma) * (c * golden_gamma)"
    by (simp add: j_def algebra_simps)
  also have "\<dots> = x - s" by (simp only: inverse) simp
  finally show ?thesis by (intro exI [of _ j]) simp
qed

lemma rng_int_loop_returns: "\<exists>r s'. rng_int_loop bound threshold s = Some (r mod bound, s')"
proof -
  obtain x where "mix64 x = - 1" using mix64_bij by (metis bij_pointE)
  moreover obtain j where "s + of_nat (Suc j) * golden_gamma = x" using golden_gamma_covers by blast
  ultimately show ?thesis by (intro rng_int_loop_reaches [of _ _ j]) simp
qed

subsection \<open>The draw is unbiased\<close>

lemma residue_class:
  fixes n k t N q :: nat
  assumes "0 < n" "k < n" "t = N mod n" "q = N div n"
  shows "{m. t \<le> m \<and> m < N \<and> m mod n = k} = (\<lambda>j. n * j + k) ` (if t \<le> k then {0..<q} else {1..<Suc q})"
proof (intro set_eqI iffI)
  have N: "N = n * q + t" using assms by simp
  have t: "t < n" using assms by simp
  fix m
  {
    assume "m \<in> {m. t \<le> m \<and> m < N \<and> m mod n = k}"
    then have m: "t \<le> m" "m < N" "m = n * (m div n) + k" by (auto simp: mult.commute)
    have "m div n < q \<or> m div n = q \<and> k < t"
    proof (cases "m div n < q")
      case False
      then have "n * q \<le> n * (m div n)" by simp
      moreover have "n * (m div n) < n * Suc q" using m N t by (simp add: algebra_simps)
      ultimately have "m div n = q" using assms(1) False by (simp only: nat_mult_less_cancel1)
      then show ?thesis using m N by auto
    qed simp
    moreover have "0 < m div n" if "\<not> t \<le> k" using m(1, 3) that by (cases "m div n") auto
    ultimately show "m \<in> (\<lambda>j. n * j + k) ` (if t \<le> k then {0..<q} else {1..<Suc q})"
      using m(3) by (intro image_eqI [of _ _ "m div n"]) (auto simp: Suc_le_eq)
  next
    assume "m \<in> (\<lambda>j. n * j + k) ` (if t \<le> k then {0..<q} else {1..<Suc q})"
    then obtain j where "m = n * j + k" "j \<in> (if t \<le> k then {0..<q} else {1..<Suc q})" by (rule imageE)
    then have j: "m = n * j + k" "if t \<le> k then j < q else 0 < j \<and> j \<le> q" by (auto split: if_splits)
    have le: "n * j + n \<le> n * q" if "j < q" using that by (metis Suc_leI mult_Suc_right add.commute mult_le_mono2)
    have "m < N" using j N le assms(2) by (cases "j < q") (auto split: if_splits)
    moreover have "t \<le> m" using j t by (cases j) (auto split: if_splits)
    ultimately show "m \<in> {m. t \<le> m \<and> m < N \<and> m mod n = k}" using j(1) assms(2) by simp
  }
qed

lemma residue_class_card:
  fixes n k :: nat
  assumes "0 < n" "k < n"
  shows "card {m. N mod n \<le> m \<and> m < N \<and> m mod n = k} = N div n"
proof -
  have "inj (\<lambda>j. n * j + k)" using assms by (auto simp: inj_def)
  then show ?thesis
    by (subst residue_class [OF assms refl refl]) (auto simp: card_image inj_on_subset)
qed

lemma unat_below: "unat (w :: u64) < 2 ^ 64"
  using unsigned_less [of w, where 'a = nat] by simp

lemma rng_threshold_nat: "0 < bound \<Longrightarrow> unat (rng_threshold bound) = 2 ^ 64 mod unat bound"
proof -
  assume "0 < bound"
  then have "unat (- bound) = 2 ^ 64 - unat bound"
    using unat_sub_if' [of 0 bound] by (simp add: word_less_nat_alt)
  then have "unat (rng_threshold bound) = (2 ^ 64 - unat bound) mod unat bound"
    by (simp add: rng_threshold_def unat_mod_distrib)
  also have "\<dots> = 2 ^ 64 mod unat bound"
    using unat_below [of bound] by (simp add: le_mod_geq)
  finally show ?thesis .
qed

lemma accepted_words_card:
  assumes "k < bound"
  shows "card {r. rng_threshold bound \<le> r \<and> r mod bound = k} = 2 ^ 64 div unat bound"
proof -
  have pos: "0 < bound" using assms by (auto intro: le_less_trans)
  let ?A = "{r. rng_threshold bound \<le> r \<and> r mod bound = k}"
  let ?B = "{m. 2 ^ 64 mod unat bound \<le> m \<and> m < 2 ^ 64 \<and> m mod unat bound = unat k}"
  have "unat ` ?A = ?B"
  proof (intro set_eqI iffI)
    fix m assume "m \<in> unat ` ?A"
    then show "m \<in> ?B"
      by (auto simp: word_le_nat_alt rng_threshold_nat [OF pos] unat_mod_distrib unat_below [simplified])
  next
    fix m assume m: "m \<in> ?B"
    then have "unat (of_nat m :: u64) = m" by (simp add: unat_of_nat take_bit_nat_eq_self)
    then show "m \<in> unat ` ?A" using m
      by (intro image_eqI [of _ _ "of_nat m"])
        (auto simp: word_le_nat_alt rng_threshold_nat [OF pos] unat_mod_distrib word_unat_eq_iff)
  qed
  moreover have "card (unat ` ?A) = card ?A" by (simp add: card_image inj_on_def word_unat_eq_iff)
  ultimately have "card ?A = card ?B" by simp
  also have "\<dots> = 2 ^ 64 div unat bound"
    using assms pos by (intro residue_class_card) (simp_all add: word_less_nat_alt unat_gt_0)
  finally show ?thesis .
qed



end
