(* ===== verification/Std_Heap.thy ===== *)
theory Std_Heap
  imports Prelude "HOL-Library.Multiset"
begin

text \<open>
  \<open>std::push_heap\<close> and \<open>std::pop_heap\<close> on an array, as the standard library implements them: a hole moves from the last
  position up (\<open>push\<close>), or from the top down to a leaf, then up to the place of the last element (\<open>pop\<close>). The queues of
  \<open>src/builtins.cpp\<close> call them with \<open>pq_heap_compare\<close>.

  The locale \<open>heap_comparison\<close> is what the algorithms need of the comparison: on valid elements it is \<open>greater than\<close> for a
  key of a linear order.
\<close>

definition parent :: "nat \<Rightarrow> nat" where
  "parent i = (i - 1) div 2"

function sift_up :: "('a \<Rightarrow> 'a \<Rightarrow> bool) \<Rightarrow> nat \<Rightarrow> 'a \<Rightarrow> 'a list \<Rightarrow> 'a list" where
  "sift_up gt hole v xs =
     (if 0 < hole \<and> gt (xs ! parent hole) v then sift_up gt (parent hole) v (xs[hole := xs ! parent hole])
      else xs[hole := v])"
  by auto
termination
  by (relation "measure (\<lambda>(_, hole, _, _). hole)") (auto simp: parent_def)

definition push_heap :: "('a \<Rightarrow> 'a \<Rightarrow> bool) \<Rightarrow> 'a list \<Rightarrow> 'a list" where
  "push_heap gt xs = (if xs = [] then [] else sift_up gt (length xs - 1) (last xs) xs)"

function sift_down :: "('a \<Rightarrow> 'a \<Rightarrow> bool) \<Rightarrow> nat \<Rightarrow> nat \<Rightarrow> 'a list \<Rightarrow> nat \<times> 'a list" where
  "sift_down gt len hole xs =
     (if hole < (len - 1) div 2 then
        let second = 2 * (hole + 1);
            second = (if gt (xs ! second) (xs ! (second - 1)) then second - 1 else second)
        in sift_down gt len second (xs[hole := xs ! second])
      else if even len \<and> 0 < len \<and> hole = (len - 2) div 2 then (2 * hole + 1, xs[hole := xs ! (2 * hole + 1)])
      else (hole, xs))"
  by auto
termination
  by (relation "measure (\<lambda>(_, len, hole, _). len - hole)") auto

definition pop_heap :: "('a \<Rightarrow> 'a \<Rightarrow> bool) \<Rightarrow> 'a list \<Rightarrow> 'a list" where
  "pop_heap gt xs =
     (if length xs > 1 then
        let len = length xs - 1; v = xs ! len; (hole, ys) = sift_down gt len 0 (xs[len := xs ! 0])
        in sift_up gt hole v ys
      else xs)"

declare sift_up.simps [simp del] sift_down.simps [simp del]

subsection \<open>Positions\<close>

lemma parent_eq: "0 < c \<Longrightarrow> parent c = h \<longleftrightarrow> c = 2 * h + 1 \<or> c = 2 * h + 2"
  by (auto simp: parent_def)

lemma parent_less: "0 < i \<Longrightarrow> parent i < i"
  by (auto simp: parent_def)

lemma parent_child [simp]: "parent (2 * h + 1) = h" "parent (2 * h + 2) = h" "parent (Suc (2 * h)) = h" "parent (Suc (Suc (2 * h))) = h"
  by (simp_all add: parent_def)

lemma move_hole_mset:
  assumes "h < length xs" "s < length xs"
  shows "mset (xs[h := xs ! s, s := v]) = mset (xs[h := v])"
proof (cases "h = s")
  case False
  let ?ys = "xs[h := v]"
  have "xs[h := xs ! s, s := v] = ?ys[h := ?ys ! s, s := ?ys ! h]"
    using assms False by (simp add: list_update_swap)
  then show ?thesis using assms mset_swap [of s ?ys h] by simp
qed simp

lemma length_sift_up [simp]: "length (sift_up gt hole v xs) = length xs"
  by (induction gt hole v xs rule: sift_up.induct) (subst sift_up.simps, simp)

lemma mset_sift_up: "hole < length xs \<Longrightarrow> mset (sift_up gt hole v xs) = mset (xs[hole := v])"
proof (induction gt hole v xs rule: sift_up.induct)
  case (1 gt hole v xs)
  then show ?case
    using move_hole_mset [of hole xs "parent hole" v] parent_less [of hole]
    by (subst sift_up.simps) auto
qed

lemma sift_up_beyond: "hole < n \<Longrightarrow> drop n (sift_up gt hole v xs) = drop n xs"
proof (induction gt hole v xs rule: sift_up.induct)
  case (1 gt hole v xs)
  then show ?case using parent_less [of hole] by (subst sift_up.simps) auto
qed

subsection \<open>Heap order\<close>

locale heap_comparison =
  fixes gt :: "'a \<Rightarrow> 'a \<Rightarrow> bool"
    and key :: "'a \<Rightarrow> 'k::linorder"
    and valid :: "'a \<Rightarrow> bool"
  assumes gt_key: "valid a \<Longrightarrow> valid b \<Longrightarrow> gt a b \<longleftrightarrow> key b < key a"
begin

definition heap_on :: "nat \<Rightarrow> 'a list \<Rightarrow> bool" where
  "heap_on n xs \<longleftrightarrow> (\<forall>i. 0 < i \<and> i < n \<longrightarrow> key (xs ! parent i) \<le> key (xs ! i))"

definition heap :: "'a list \<Rightarrow> bool" where
  "heap xs \<longleftrightarrow> heap_on (length xs) xs"

text \<open>A heap but for the element at the hole, which has no value yet.\<close>

definition hole_ok :: "nat \<Rightarrow> nat \<Rightarrow> 'a list \<Rightarrow> bool" where
  "hole_ok n h xs \<longleftrightarrow>
     (\<forall>i. 0 < i \<and> i < n \<and> i \<noteq> h \<and> parent i \<noteq> h \<longrightarrow> key (xs ! parent i) \<le> key (xs ! i)) \<and>
     (0 < h \<longrightarrow> (\<forall>c. 0 < c \<and> c < n \<and> parent c = h \<longrightarrow> key (xs ! parent h) \<le> key (xs ! c)))"

lemma hole_okD:
  "hole_ok n h xs \<Longrightarrow> 0 < i \<Longrightarrow> i < n \<Longrightarrow> i \<noteq> h \<Longrightarrow> parent i \<noteq> h \<Longrightarrow> key (xs ! parent i) \<le> key (xs ! i)"
  "hole_ok n h xs \<Longrightarrow> 0 < h \<Longrightarrow> 0 < c \<Longrightarrow> c < n \<Longrightarrow> parent c = h \<Longrightarrow> key (xs ! parent h) \<le> key (xs ! c)"
  by (auto simp: hole_ok_def)

lemma fill_hole:
  assumes "hole_ok n h xs" "h < n" "n \<le> length xs"
    and "\<And>c. 0 < c \<Longrightarrow> c < n \<Longrightarrow> parent c = h \<Longrightarrow> key v \<le> key (xs ! c)"
    and "0 < h \<Longrightarrow> key (xs ! parent h) \<le> key v"
  shows "heap_on n (xs[h := v])"
  unfolding heap_on_def
proof (intro allI impI)
  fix i assume i: "0 < i \<and> i < n"
  then have "parent i \<noteq> i" using parent_less [of i] by simp
  then show "key (xs[h := v] ! parent i) \<le> key (xs[h := v] ! i)"
    using i assms parent_less [of i] hole_okD(1) [OF assms(1), of i]
    by (cases "i = h"; cases "parent i = h") auto
qed

lemma raise_hole:
  assumes "hole_ok n h xs" "h < n" "n \<le> length xs" "0 < h"
  shows "hole_ok n (parent h) (xs[h := xs ! parent h])"
proof -
  have less: "parent h < h" using assms(4) by (rule parent_less)
  have first: "key (xs[h := xs ! parent h] ! parent i) \<le> key (xs[h := xs ! parent h] ! i)"
    if i: "0 < i" "i < n" "i \<noteq> parent h" "parent i \<noteq> parent h" for i
  proof (cases "parent i = h")
    case True
    then have "i \<noteq> h" using parent_less [OF i(1)] by auto
    then show ?thesis using hole_okD(2) [OF assms(1, 4) i(1, 2) True] True assms by simp
  next
    case False
    have "i \<noteq> h" using i by auto
    then show ?thesis using hole_okD(1) [OF assms(1) i(1, 2) _ False] False by simp
  qed
  have up: "key (xs ! parent (parent h)) \<le> key (xs ! parent h)" if "0 < parent h"
    using hole_okD(1) [OF assms(1) that] less assms parent_less [OF that] by auto
  have second: "key (xs[h := xs ! parent h] ! parent (parent h)) \<le> key (xs[h := xs ! parent h] ! c)"
    if c: "0 < parent h" "0 < c" "c < n" "parent c = parent h" for c
  proof (cases "c = h")
    case True
    then show ?thesis using up [OF c(1)] assms less parent_less [OF c(1)] by simp
  next
    case False
    then have "key (xs ! parent c) \<le> key (xs ! c)"
      using hole_okD(1) [OF assms(1) c(2, 3)] c(4) less by auto
    then show ?thesis using up [OF c(1)] False less parent_less [OF c(1)] c(4) by (auto intro: order_trans)
  qed
  show ?thesis unfolding hole_ok_def using first second by blast
qed

lemma sift_up_heap:
  assumes "hole_ok n h xs" "h < n" "n \<le> length xs" "\<forall>x\<in>set xs. valid x" "valid v"
    and "\<And>c. 0 < c \<Longrightarrow> c < n \<Longrightarrow> parent c = h \<Longrightarrow> key v \<le> key (xs ! c)"
  shows "heap_on n (sift_up gt h v xs)"
  using assms
proof (induction h arbitrary: xs rule: less_induct)
  case (less h)
  have parent_valid: "0 < h \<Longrightarrow> valid (xs ! parent h)"
    using less.prems parent_less [of h] by (simp add: nth_mem)
  show ?case
  proof (cases "0 < h \<and> gt (xs ! parent h) v")
    case True
    then have up: "parent h < h" and smaller: "key v < key (xs ! parent h)"
      using parent_valid gt_key less.prems(5) parent_less by auto
    let ?xs = "xs[h := xs ! parent h]"
    have "heap_on n (sift_up gt (parent h) v ?xs)"
    proof (rule less.IH [OF up])
      show "hole_ok n (parent h) ?xs" using less.prems True by (intro raise_hole) auto
      show "\<forall>x\<in>set ?xs. valid x" using less.prems(4) parent_valid True by (auto dest: set_update_subset_insert [THEN subsetD])
      show "key v \<le> key (?xs ! c)" if "0 < c" "c < n" "parent c = parent h" for c
        using that smaller less.prems hole_okD(1) [OF less.prems(1) that(1, 2)] up
        by (cases "c = h") (auto intro: order_trans [OF less_imp_le])
    qed (use less.prems up in auto)
    then show ?thesis using True by (subst sift_up.simps) simp
  next
    case False
    then have "heap_on n (xs[h := v])"
      using less.prems parent_valid gt_key by (intro fill_hole) (auto simp: not_less)
    then show ?thesis using False by (subst sift_up.simps) auto
  qed
qed

text \<open>Moving the hole down to the smaller child.\<close>

lemma lower_hole:
  assumes "hole_ok n h xs" "n \<le> length xs" "s < n" "0 < s" "parent s = h"
    and least: "\<And>c. 0 < c \<Longrightarrow> c < n \<Longrightarrow> parent c = h \<Longrightarrow> key (xs ! s) \<le> key (xs ! c)"
  shows "hole_ok n s (xs[h := xs ! s])"
proof -
  have hs: "h < s" using parent_less [OF assms(4)] assms(5) by simp
  have first: "key (xs[h := xs ! s] ! parent i) \<le> key (xs[h := xs ! s] ! i)"
    if i: "0 < i" "i < n" "i \<noteq> s" "parent i \<noteq> s" for i
  proof (cases "i = h")
    case True
    then have "key (xs ! parent h) \<le> key (xs ! s)"
      using hole_okD(2) [OF assms(1) _ assms(4, 3, 5)] i by simp
    then show ?thesis using True i parent_less [OF i(1)] assms hs by simp
  next
    case False
    then show ?thesis
      using hole_okD(1) [OF assms(1) i(1, 2) False] least [OF i(1, 2)] assms hs by (cases "parent i = h") auto
  qed
  have second: "key (xs[h := xs ! s] ! parent s) \<le> key (xs[h := xs ! s] ! c)"
    if c: "0 < c" "c < n" "parent c = s" for c
  proof -
    have "s < c" using parent_less [OF c(1)] c(3) by simp
    moreover have "key (xs ! parent c) \<le> key (xs ! c)"
      using hole_okD(1) [OF assms(1) c(1, 2)] c(3) hs \<open>s < c\<close> by auto
    ultimately show ?thesis using assms hs c by simp
  qed
  show ?thesis unfolding hole_ok_def using first second by blast
qed

lemma sift_down_heap:
  assumes "hole_ok n h xs" "h < n" "n \<le> length xs" "\<forall>x\<in>set xs. valid x" "sift_down gt n h xs = (h', ys)"
  shows "hole_ok n h' ys \<and> h' < n \<and> (\<forall>c. 0 < c \<and> c < n \<longrightarrow> parent c \<noteq> h') \<and> length ys = length xs \<and>
    (\<forall>v. mset (ys[h' := v]) = mset (xs[h := v])) \<and> drop n ys = drop n xs \<and> (\<forall>x\<in>set ys. valid x)"
  using assms
proof (induction "n - h" arbitrary: h xs rule: less_induct)
  case less
  let ?r = "2 * (h + 1)" and ?l = "2 * (h + 1) - 1"
  show ?case
  proof (cases "h < (n - 1) div 2")
    case True
    define s where "s = (if gt (xs ! ?r) (xs ! ?l) then ?l else ?r)"
    have bounds: "?r < n" "h < s" "s < n" "0 < s" "parent s = h" using True by (auto simp: s_def parent_def)
    have valid: "valid (xs ! ?r)" "valid (xs ! ?l)" "valid (xs ! s)"
      using less.prems(3, 4) bounds by (simp_all add: nth_mem)
    have least: "key (xs ! s) \<le> key (xs ! c)" if "0 < c" "c < n" "parent c = h" for c
      using that gt_key [OF valid(1, 2)] by (auto simp: s_def parent_eq not_less)
    have run: "sift_down gt n s (xs[h := xs ! s]) = (h', ys)"
      using less.prems(5) True by (subst (asm) sift_down.simps) (simp add: s_def Let_def split: if_splits)
    have ok: "hole_ok n s (xs[h := xs ! s])" using less.prems bounds least by (intro lower_hole) auto
    have sub: "\<forall>x\<in>set (xs[h := xs ! s]). valid x"
      using less.prems(4) valid(3) by (auto dest: set_update_subset_insert [THEN subsetD])
    have "n - s < n - h" using bounds by simp
    from less.hyps [OF this ok bounds(3) _ sub run] less.prems(2, 3) bounds
    show ?thesis using move_hole_mset [of h xs s] by simp
  next
    case False
    show ?thesis
    proof (cases "even n \<and> 0 < n \<and> h = (n - 2) div 2")
      case True
      then have bounds: "2 * h + 1 < n" "\<not> 2 * h + 2 < n" using less.prems(2) by presburger+
      have result: "h' = 2 * h + 1" "ys = xs[h := xs ! (2 * h + 1)]"
        using less.prems(5) False True by (subst (asm) sift_down.simps; simp)+
      have "hole_ok n (2 * h + 1) (xs[h := xs ! (2 * h + 1)])"
        using less.prems bounds by (intro lower_hole) (auto simp: parent_eq)
      moreover have "\<forall>x\<in>set (xs[h := xs ! (2 * h + 1)]). valid x"
        using less.prems(3, 4) bounds by (auto dest!: set_update_subset_insert [THEN subsetD] simp: nth_mem)
      moreover have "parent c \<noteq> 2 * h + 1" if "0 < c" "c < n" for c
        using that bounds by (auto simp: parent_eq)
      ultimately show ?thesis
        using move_hole_mset [of h xs "2 * h + 1"] less.prems bounds by (simp add: result)
    next
      case no_child: False
      have result: "h' = h" "ys = xs"
        using less.prems(5) False no_child by (subst (asm) sift_down.simps; simp split: if_splits)+
      have "parent c \<noteq> h" if "0 < c" "c < n" for c
        using that False no_child by (auto simp: parent_eq) presburger+
      then show ?thesis using less.prems by (simp add: result)
    qed
  qed
qed

subsection \<open>Push and pop\<close>

lemma push_heap_correct:
  assumes "heap xs" "\<forall>x\<in>set (xs @ [v]). valid x"
  shows "heap (push_heap gt (xs @ [v])) \<and> mset (push_heap gt (xs @ [v])) = add_mset v (mset xs)"
proof
  have "hole_ok (Suc (length xs)) (length xs) (xs @ [v])"
    unfolding hole_ok_def
  proof (intro conjI allI impI)
    fix i assume "0 < i \<and> i < Suc (length xs) \<and> i \<noteq> length xs \<and> parent i \<noteq> length xs"
    then show "key ((xs @ [v]) ! parent i) \<le> key ((xs @ [v]) ! i)"
      using assms(1) parent_less [of i] by (auto simp: heap_def heap_on_def nth_append)
  qed (auto dest: parent_less)
  then have "heap_on (Suc (length xs)) (sift_up gt (length xs) v (xs @ [v]))"
    using assms(2) by (intro sift_up_heap) (auto dest: parent_less)
  then show "heap (push_heap gt (xs @ [v]))" by (simp add: heap_def push_heap_def)
  show "mset (push_heap gt (xs @ [v])) = add_mset v (mset xs)"
    by (simp add: push_heap_def mset_sift_up)
qed

lemma heap_top_least: "heap xs \<Longrightarrow> i < length xs \<Longrightarrow> key (xs ! 0) \<le> key (xs ! i)"
proof (induction i rule: less_induct)
  case (less i)
  show ?case
  proof (cases "i = 0")
    case False
    then have "key (xs ! 0) \<le> key (xs ! parent i)" using less parent_less [of i] by simp
    also have "\<dots> \<le> key (xs ! i)" using less.prems False by (simp add: heap_def heap_on_def)
    finally show ?thesis .
  qed simp
qed

lemma pop_heap_correct:
  assumes "heap xs" "\<forall>x\<in>set xs. valid x" "xs \<noteq> []"
  shows "heap (butlast (pop_heap gt xs)) \<and> last (pop_heap gt xs) = hd xs \<and> mset (pop_heap gt xs) = mset xs"
proof (cases "length xs > 1")
  case True
  define n where "n = length xs - 1"
  define zs where "zs = xs[n := xs ! 0]"
  obtain h ys where run: "sift_down gt n 0 zs = (h, ys)" by (meson surj_pair)
  have n: "0 < n" "length xs = Suc n" using True by (simp_all add: n_def)
  have ok: "hole_ok n 0 zs"
    using assms(1) n by (auto simp: hole_ok_def zs_def heap_def heap_on_def dest: parent_less)
  have valid: "valid (xs ! 0)" "valid (xs ! n)" using assms(2) n by (simp_all add: nth_mem)
  have zs_valid: "\<forall>x\<in>set zs. valid x"
    using assms(2) valid by (auto simp: zs_def dest: set_update_subset_insert [THEN subsetD])
  have len: "length zs = Suc n" using n by (simp add: zs_def)
  have down: "hole_ok n h ys" "h < n" "\<And>c. 0 < c \<Longrightarrow> c < n \<Longrightarrow> parent c \<noteq> h" "length ys = Suc n"
      "\<And>v. mset (ys[h := v]) = mset (zs[0 := v])" "drop n ys = drop n zs" "\<forall>x\<in>set ys. valid x"
    using sift_down_heap [OF ok n(1) _ zs_valid run] len by auto
  let ?r = "sift_up gt h (xs ! n) ys"
  have pop: "pop_heap gt xs = ?r"
    using True run by (simp add: pop_heap_def n_def zs_def Let_def)
  have "heap_on n ?r" using down valid by (intro sift_up_heap) auto
  then have "heap (butlast ?r)"
    using down(4) by (auto simp: heap_def heap_on_def nth_butlast order.strict_trans [OF parent_less])
  moreover have "drop n ?r = [xs ! 0]"
    using sift_up_beyond [OF down(2), of gt "xs ! n" ys] down(6) n by (simp add: zs_def drop_update_swap Cons_nth_drop_Suc [symmetric])
  then have "last ?r = hd xs"
    using down(4) assms(3) by (metis last_drop last_ConsL length_sift_up lessI hd_conv_nth)
  moreover have "mset ?r = mset xs"
  proof -
    have "mset ?r = mset (xs[n := xs ! 0, 0 := xs ! n])" using down by (simp add: mset_sift_up zs_def)
    also have "\<dots> = mset xs" using n by (intro mset_swap) auto
    finally show ?thesis .
  qed
  ultimately show ?thesis by (simp add: pop)
next
  case False
  then have "length xs = 1" using assms(3) by (cases xs) auto
  then obtain x where "xs = [x]" by (auto simp: length_Suc_conv)
  then show ?thesis by (simp add: pop_heap_def heap_def heap_on_def)
qed

text \<open>
  With distinct keys a heap is the list of its elements in key order: a push inserts, a pop takes the head.
\<close>

definition queue :: "'a list \<Rightarrow> 'a list" where
  "queue xs = sort_key key xs"

lemma queue_push:
  assumes "heap xs" "\<forall>x\<in>set (xs @ [v]). valid x" "inj_on key (set (xs @ [v]))"
  shows "queue (push_heap gt (xs @ [v])) = insort_key key v (queue xs)"
  unfolding queue_def
proof (rule sort_key_inj_key_eq)
  show "mset (push_heap gt (xs @ [v])) = mset (insort_key key v (sort_key key xs))"
    using push_heap_correct [OF assms(1, 2)] by simp
  then have "set (push_heap gt (xs @ [v])) = set (xs @ [v])"
    using push_heap_correct [OF assms(1, 2)] by (metis mset_append mset_eq_setD add.commute add_mset_add_single mset.simps)
  then show "inj_on key (set (push_heap gt (xs @ [v])))" using assms(3) by simp
qed (simp add: sorted_insort_key)

lemma queue_pop:
  assumes "heap xs" "\<forall>x\<in>set xs. valid x" "xs \<noteq> []" "inj_on key (set xs)"
  shows "queue xs = hd xs # queue (butlast (pop_heap gt xs))"
  unfolding queue_def
proof (rule sort_key_inj_key_eq)
  let ?ys = "pop_heap gt xs"
  have ok: "last ?ys = hd xs" "mset ?ys = mset xs" using pop_heap_correct [OF assms(1-3)] by simp_all
  then have "?ys \<noteq> []" using assms(3) by (metis mset_zero_iff)
  then have "mset xs = add_mset (hd xs) (mset (butlast ?ys))"
    using ok by (metis append_butlast_last_id mset_append add.commute add_mset_add_single mset.simps)
  then show "mset xs = mset (hd xs # sort_key key (butlast ?ys))" by simp
  have "set (butlast ?ys) \<subseteq> set xs" using ok(2) by (metis in_set_butlastD mset_eq_setD subsetI)
  moreover have "key (hd xs) \<le> key x" if "x \<in> set xs" for x
    using that heap_top_least [OF assms(1)] assms(3) by (auto simp: in_set_conv_nth hd_conv_nth)
  ultimately show "sorted (map key (hd xs # sort_key key (butlast ?ys)))" by auto
qed (rule assms(4))

end

end
