(* ===== verification/Builtins_Data.thy ===== *)
theory Builtins_Data
  imports Builtins_Rng Std_Heap "HOL-Library.Product_Lexorder"
begin

text \<open>
  The builtin functions on mutable objects (\<open>src/builtins.cpp\<close>): vectors, maps, priority queues and random generators. A
  Lisp value names its object by the object's number; \<open>lisp_objects\<close> holds the contents, so two values with one number are
  the same object. Every operation is a function of the arguments and the objects, to a value or an error and the objects
  afterwards.

  \<open>std::unordered_map\<close> leaves its iteration order open: the entries of a map are in the current order, and \<open>arrange\<close> gives the
  order after an insertion; it may permute the entries in any way.
\<close>

subsection \<open>Objects\<close>

datatype map_key = MK_symbol string | MK_string string | MK_integer i64 | MK_floating double

definition map_key_eq :: "map_key \<Rightarrow> map_key \<Rightarrow> bool" where
  "map_key_eq a b =
     (case (a, b) of
        (MK_symbol s, MK_symbol t) \<Rightarrow> s = t
      | (MK_string s, MK_string t) \<Rightarrow> s = t
      | (MK_integer i, MK_integer j) \<Rightarrow> i = j
      | (MK_floating d, MK_floating e) \<Rightarrow> fp_eq d e
      | _ \<Rightarrow> False)"

type_synonym map_storage = "(map_key \<times> lisp_value) list"

record pq_entry =
  pe_priority :: double
  pe_sequence :: u64
  pe_payload :: lisp_value

record pq_object =
  pq_data :: "pq_entry list"
  pq_next_sequence :: u64

record lisp_objects =
  lo_vecs :: "nat \<Rightarrow> lisp_value list"
  lo_maps :: "nat \<Rightarrow> map_storage"
  lo_pqs :: "nat \<Rightarrow> pq_object"
  lo_rngs :: "nat \<Rightarrow> rng_state"
  lo_next :: nat

type_synonym 'a object_step = "lisp_objects \<Rightarrow> (lisp_exn + 'a) \<times> lisp_objects"

type_synonym object_builtin = "lisp_value list \<Rightarrow> lisp_value object_step"

definition object_bind :: "'a checked \<Rightarrow> ('a \<Rightarrow> 'b object_step) \<Rightarrow> 'b object_step" where
  "object_bind r f ob = (case r of Inl e \<Rightarrow> (Inl e, ob) | Inr x \<Rightarrow> f x ob)"

definition oreturn :: "'a \<Rightarrow> 'a object_step" where
  "oreturn x ob = (Inr x, ob)"

definition ofail :: "string \<Rightarrow> 'a object_step" where
  "ofail m ob = (Inl (Lisp_error m), ob)"

text \<open>\<open>std::vector::reserve\<close> throws beyond \<open>max_size()\<close>, the largest array of the element size.\<close>

definition max_elements :: "int \<Rightarrow> int" where
  "max_elements element_size = (2 ^ 63 - 1) div element_size"

definition reserve_elements :: "int \<Rightarrow> int \<Rightarrow> unit checked" where
  "reserve_elements element_size capacity =
     (if capacity > max_elements element_size then Inl (Foreign (Std_exception ''vector::reserve'')) else Inr ())"

definition make_vec :: "int \<Rightarrow> lisp_value object_step" where
  "make_vec capacity =
     object_bind (reserve_elements 8 capacity)
       (\<lambda>_ ob. (Inr (VOther T_vec (lo_next ob)), ob\<lparr>lo_vecs := (lo_vecs ob)(lo_next ob := []), lo_next := Suc (lo_next ob)\<rparr>))"

definition make_map :: "lisp_value object_step" where
  "make_map ob =
     (Inr (VOther T_map (lo_next ob)), ob\<lparr>lo_maps := (lo_maps ob)(lo_next ob := []), lo_next := Suc (lo_next ob)\<rparr>)"

definition make_pq :: "int \<Rightarrow> lisp_value object_step" where
  "make_pq capacity =
     object_bind (reserve_elements 24 capacity)
       (\<lambda>_ ob. (Inr (VOther T_pq (lo_next ob)),
          ob\<lparr>lo_pqs := (lo_pqs ob)(lo_next ob := \<lparr>pq_data = [], pq_next_sequence = 0\<rparr>), lo_next := Suc (lo_next ob)\<rparr>))"

definition make_rng :: "u64 \<Rightarrow> lisp_value object_step" where
  "make_rng seed ob =
     (Inr (VOther T_rng (lo_next ob)),
      ob\<lparr>lo_rngs := (lo_rngs ob)(lo_next ob := \<lparr>rs_state = seed, rs_has_spare_normal = False, rs_spare_normal = 0\<rparr>),
         lo_next := Suc (lo_next ob)\<rparr>)"

subsection \<open>Arguments\<close>

definition require_object :: "value_type \<Rightarrow> string \<Rightarrow> lisp_value \<Rightarrow> string \<Rightarrow> nat checked" where
  "require_object t expected v place =
     (case v of
        VOther t' i \<Rightarrow> if t' = t then Inr i else Inl (Lisp_error (place @ '': expected '' @ expected))
      | _ \<Rightarrow> Inl (Lisp_error (place @ '': expected '' @ expected)))"

definition require_vec_arg :: "lisp_value \<Rightarrow> string \<Rightarrow> nat checked" where
  "require_vec_arg = require_object T_vec ''vec''"

definition require_map_arg :: "lisp_value \<Rightarrow> string \<Rightarrow> nat checked" where
  "require_map_arg = require_object T_map ''map''"

definition require_pq_arg :: "lisp_value \<Rightarrow> string \<Rightarrow> nat checked" where
  "require_pq_arg = require_object T_pq ''pq''"

definition require_rng_arg :: "lisp_value \<Rightarrow> string \<Rightarrow> nat checked" where
  "require_rng_arg = require_object T_rng ''rng''"

definition to_int64_size :: "nat \<Rightarrow> string \<Rightarrow> i64 checked" where
  "to_int64_size n place =
     (if int n > 2 ^ 63 - 1 then Inl (Lisp_error (place @ '': size exceeds int64 range'')) else Inr (word_of_int (int n)))"

definition require_non_negative_index :: "lisp_value \<Rightarrow> nat \<Rightarrow> string \<Rightarrow> nat checked" where
  "require_non_negative_index v upper_bound place =
     (case v of
        VInt i \<Rightarrow>
          if sint i < 0 \<or> sint i \<ge> int upper_bound then Inl (Lisp_error (place @ '': index out of range''))
          else Inr (nat (sint i))
      | _ \<Rightarrow> Inl (Lisp_error (place @ '': expected integer index'')))"

definition require_non_negative_capacity :: "lisp_value \<Rightarrow> string \<Rightarrow> int checked" where
  "require_non_negative_capacity v place =
     (case v of
        VInt i \<Rightarrow> if sint i < 0 then Inl (Lisp_error (place @ '': expected non-negative capacity'')) else Inr (sint i)
      | _ \<Rightarrow> Inl (Lisp_error (place @ '': expected integer capacity'')))"

definition capacity_arg :: "lisp_value list \<Rightarrow> string \<Rightarrow> int checked" where
  "capacity_arg args place =
     (if length args > 1 then Inl (Lisp_error (place @ '': expected 0 or 1 arguments''))
      else if length args = 1 then require_non_negative_capacity (args ! 0) place
      else Inr 4)"

definition map_key_from_value :: "lisp_value \<Rightarrow> string \<Rightarrow> map_key checked" where
  "map_key_from_value key place =
     (case key of
        VSym s \<Rightarrow> Inr (MK_symbol s)
      | VStr s \<Rightarrow> Inr (MK_string s)
      | VInt i \<Rightarrow> Inr (MK_integer i)
      | VFloat d \<Rightarrow>
          if fp_is_nan d then Inl (Lisp_error (place @ '': float keys must not be NaN''))
          else Inr (MK_floating (if fp_eq d 0 then 0 else d))
      | _ \<Rightarrow> Inl (Lisp_error (place @ '': expected key as symbol, string, integer, or float'')))"

fun map_key_to_value :: "map_key \<Rightarrow> lisp_value" where
  "map_key_to_value (MK_symbol s) = VSym s"
| "map_key_to_value (MK_string s) = VStr s"
| "map_key_to_value (MK_integer i) = VInt i"
| "map_key_to_value (MK_floating d) = VFloat d"

subsection \<open>Vectors\<close>

definition builtin_vec_make :: object_builtin where
  "builtin_vec_make args = object_bind (capacity_arg args ''vec.make'') make_vec"

definition with_vec :: "string \<Rightarrow> nat \<Rightarrow> lisp_value list \<Rightarrow> (nat \<Rightarrow> 'a object_step) \<Rightarrow> 'a object_step" where
  "with_vec name n args f =
     object_bind (require_arity name args n) (\<lambda>_. object_bind (require_vec_arg (args ! 0) name) f)"

definition set_vec :: "nat \<Rightarrow> lisp_value list \<Rightarrow> lisp_objects \<Rightarrow> lisp_objects" where
  "set_vec i xs ob = ob\<lparr>lo_vecs := (lo_vecs ob)(i := xs)\<rparr>"

definition builtin_vec_len :: object_builtin where
  "builtin_vec_len args =
     with_vec ''vec.len'' 1 args
       (\<lambda>i ob. object_bind (to_int64_size (length (lo_vecs ob i)) ''vec.len'') (\<lambda>n. oreturn (VInt n)) ob)"

definition builtin_vec_get :: object_builtin where
  "builtin_vec_get args =
     with_vec ''vec.get'' 2 args
       (\<lambda>i ob. object_bind (require_non_negative_index (args ! 1) (length (lo_vecs ob i)) ''vec.get'')
         (\<lambda>k. oreturn (lo_vecs ob i ! k)) ob)"

definition builtin_vec_set :: object_builtin where
  "builtin_vec_set args =
     with_vec ''vec.set!'' 3 args
       (\<lambda>i ob. object_bind (require_non_negative_index (args ! 1) (length (lo_vecs ob i)) ''vec.set!'')
         (\<lambda>k ob. (Inr (args ! 2), set_vec i ((lo_vecs ob i)[k := args ! 2]) ob)) ob)"

definition builtin_vec_push :: object_builtin where
  "builtin_vec_push args =
     with_vec ''vec.push!'' 2 args
       (\<lambda>i ob. let ob = set_vec i (lo_vecs ob i @ [args ! 1]) ob
          in object_bind (to_int64_size (length (lo_vecs ob i) - 1) ''vec.push!'') (\<lambda>n. oreturn (VInt n)) ob)"

definition builtin_vec_pop :: object_builtin where
  "builtin_vec_pop args =
     with_vec ''vec.pop!'' 1 args
       (\<lambda>i ob. if lo_vecs ob i = [] then ofail ''vec.pop!: vector is empty'' ob
          else (Inr (List.last (lo_vecs ob i)), set_vec i (butlast (lo_vecs ob i)) ob))"

definition builtin_vec_clear :: object_builtin where
  "builtin_vec_clear args = with_vec ''vec.clear!'' 1 args (\<lambda>i ob. (Inr VNil, set_vec i [] ob))"

definition builtin_vec_reserve :: object_builtin where
  "builtin_vec_reserve args =
     with_vec ''vec.reserve!'' 2 args
       (\<lambda>i. object_bind (require_non_negative_capacity (args ! 1) ''vec.reserve!'')
         (\<lambda>capacity. object_bind (reserve_elements 8 capacity) (\<lambda>_. oreturn VNil)))"

subsection \<open>Maps\<close>

definition map_find :: "map_key \<Rightarrow> map_storage \<Rightarrow> lisp_value option" where
  "map_find key m = map_option snd (find (\<lambda>(k, _). map_key_eq k key) m)"

fun map_overwrite :: "map_key \<Rightarrow> lisp_value \<Rightarrow> map_storage \<Rightarrow> map_storage" where
  "map_overwrite key v [] = []"
| "map_overwrite key v ((k, u) # m) =
     (if map_key_eq k key then (k, v) # m else (k, u) # map_overwrite key v m)"

definition map_put :: "(map_storage \<Rightarrow> map_storage) \<Rightarrow> map_key \<Rightarrow> lisp_value \<Rightarrow> map_storage \<Rightarrow> map_storage" where
  "map_put arrange key v m =
     (if map_find key m \<noteq> None then map_overwrite key v m else arrange ((key, v) # m))"

definition map_erase :: "map_key \<Rightarrow> map_storage \<Rightarrow> map_storage" where
  "map_erase key m = List.filter (\<lambda>(k, _). \<not> map_key_eq k key) m"

definition with_map :: "string \<Rightarrow> nat \<Rightarrow> lisp_value list \<Rightarrow> (nat \<Rightarrow> 'a object_step) \<Rightarrow> 'a object_step" where
  "with_map name n args f =
     object_bind (require_arity name args n) (\<lambda>_. object_bind (require_map_arg (args ! 0) name) f)"

definition set_map :: "nat \<Rightarrow> map_storage \<Rightarrow> lisp_objects \<Rightarrow> lisp_objects" where
  "set_map i m ob = ob\<lparr>lo_maps := (lo_maps ob)(i := m)\<rparr>"

definition builtin_map_make :: object_builtin where
  "builtin_map_make args = object_bind (require_arity ''map.make'' args 0) (\<lambda>_. make_map)"

definition builtin_map_get :: object_builtin where
  "builtin_map_get args =
     with_map ''map.get'' 3 args
       (\<lambda>i. object_bind (map_key_from_value (args ! 1) ''map.get'')
         (\<lambda>key ob. case map_find key (lo_maps ob i) of None \<Rightarrow> (Inr (args ! 2), ob) | Some v \<Rightarrow> (Inr v, ob)))"

definition builtin_map_has :: object_builtin where
  "builtin_map_has args =
     with_map ''map.has?'' 2 args
       (\<lambda>i. object_bind (map_key_from_value (args ! 1) ''map.has?'')
         (\<lambda>key ob. (Inr (VBool (map_find key (lo_maps ob i) \<noteq> None)), ob)))"

definition builtin_map_set :: "(map_storage \<Rightarrow> map_storage) \<Rightarrow> object_builtin" where
  "builtin_map_set arrange args =
     with_map ''map.set!'' 3 args
       (\<lambda>i. object_bind (map_key_from_value (args ! 1) ''map.set!'')
         (\<lambda>key ob. (Inr (args ! 2), set_map i (map_put arrange key (args ! 2) (lo_maps ob i)) ob)))"

definition builtin_map_del :: object_builtin where
  "builtin_map_del args =
     with_map ''map.del!'' 2 args
       (\<lambda>i. object_bind (map_key_from_value (args ! 1) ''map.del!'')
         (\<lambda>key ob. (Inr (VBool (map_find key (lo_maps ob i) \<noteq> None)), set_map i (map_erase key (lo_maps ob i)) ob)))"

definition builtin_map_keys :: object_builtin where
  "builtin_map_keys args =
     with_map ''map.keys'' 1 args
       (\<lambda>i ob. (Inr (list_from_vector (map (\<lambda>(k, _). map_key_to_value k) (lo_maps ob i))), ob))"

subsection \<open>Priority queues\<close>

definition require_pq_priority :: "lisp_value \<Rightarrow> string \<Rightarrow> double checked" where
  "require_pq_priority v place =
     (case v of
        VInt i \<Rightarrow> Inr (fp_of_int (sint i))
      | VFloat d \<Rightarrow> if \<not> fp_is_finite d then Inl (Lisp_error (place @ '': priority must be finite'')) else Inr d
      | _ \<Rightarrow> Inl (Lisp_error (place @ '': expected numeric priority'')))"

definition pq_heap_compare :: "pq_entry \<Rightarrow> pq_entry \<Rightarrow> bool" where
  "pq_heap_compare lhs rhs =
     (if \<not> fp_eq (pe_priority lhs) (pe_priority rhs) then fp_less (pe_priority rhs) (pe_priority lhs)
      else pe_sequence rhs < pe_sequence lhs)"

definition pq_entry_to_pair :: "pq_entry \<Rightarrow> lisp_value" where
  "pq_entry_to_pair entry = list_from_vector [VFloat (pe_priority entry), pe_payload entry]"

definition with_pq :: "string \<Rightarrow> nat \<Rightarrow> lisp_value list \<Rightarrow> (nat \<Rightarrow> 'a object_step) \<Rightarrow> 'a object_step" where
  "with_pq name n args f =
     object_bind (require_arity name args n) (\<lambda>_. object_bind (require_pq_arg (args ! 0) name) f)"

definition set_pq :: "nat \<Rightarrow> pq_object \<Rightarrow> lisp_objects \<Rightarrow> lisp_objects" where
  "set_pq i q ob = ob\<lparr>lo_pqs := (lo_pqs ob)(i := q)\<rparr>"

definition builtin_pq_make :: object_builtin where
  "builtin_pq_make args = object_bind (capacity_arg args ''pq.make'') make_pq"

definition builtin_pq_len :: object_builtin where
  "builtin_pq_len args =
     with_pq ''pq.len'' 1 args
       (\<lambda>i ob. object_bind (to_int64_size (length (pq_data (lo_pqs ob i))) ''pq.len'') (\<lambda>n. oreturn (VInt n)) ob)"

definition builtin_pq_empty :: object_builtin where
  "builtin_pq_empty args =
     with_pq ''pq.empty?'' 1 args (\<lambda>i ob. (Inr (VBool (pq_data (lo_pqs ob i) = [])), ob))"

definition pq_enqueue :: "double \<Rightarrow> lisp_value \<Rightarrow> pq_object \<Rightarrow> pq_object" where
  "pq_enqueue priority payload q =
     q\<lparr>pq_data := push_heap pq_heap_compare (pq_data q @
         [\<lparr>pe_priority = priority, pe_sequence = pq_next_sequence q, pe_payload = payload\<rparr>]),
       pq_next_sequence := pq_next_sequence q + 1\<rparr>"

definition builtin_pq_push :: object_builtin where
  "builtin_pq_push args =
     with_pq ''pq.push!'' 3 args
       (\<lambda>i. object_bind (require_pq_priority (args ! 1) ''pq.push!'')
         (\<lambda>priority ob.
            if pq_next_sequence (lo_pqs ob i) = - 1 then ofail ''pq.push!: insertion sequence overflow'' ob
            else let ob = set_pq i (pq_enqueue priority (args ! 2) (lo_pqs ob i)) ob
                 in object_bind (to_int64_size (length (pq_data (lo_pqs ob i))) ''pq.push!'') (\<lambda>n. oreturn (VInt n)) ob))"

definition builtin_pq_peek :: object_builtin where
  "builtin_pq_peek args =
     with_pq ''pq.peek'' 1 args
       (\<lambda>i ob. if pq_data (lo_pqs ob i) = [] then ofail ''pq.peek: priority queue is empty'' ob
          else (Inr (pq_entry_to_pair (hd (pq_data (lo_pqs ob i)))), ob))"

definition builtin_pq_pop :: object_builtin where
  "builtin_pq_pop args =
     with_pq ''pq.pop!'' 1 args
       (\<lambda>i ob. if pq_data (lo_pqs ob i) = [] then ofail ''pq.pop!: priority queue is empty'' ob
          else let xs = pop_heap pq_heap_compare (pq_data (lo_pqs ob i))
               in (Inr (pq_entry_to_pair (List.last xs)), set_pq i ((lo_pqs ob i)\<lparr>pq_data := butlast xs\<rparr>) ob))"

subsection \<open>Random generators\<close>

definition with_rng :: "string \<Rightarrow> nat \<Rightarrow> lisp_value list \<Rightarrow> (nat \<Rightarrow> 'a object_step) \<Rightarrow> 'a object_step" where
  "with_rng name n args f =
     object_bind (require_arity name args n) (\<lambda>_. object_bind (require_rng_arg (args ! 0) name) f)"

definition set_rng :: "nat \<Rightarrow> rng_state \<Rightarrow> lisp_objects \<Rightarrow> lisp_objects" where
  "set_rng i r ob = ob\<lparr>lo_rngs := (lo_rngs ob)(i := r)\<rparr>"

definition drawn :: "nat \<Rightarrow> double \<times> rng_state \<Rightarrow> lisp_value object_step" where
  "drawn i d ob = (Inr (VFloat (fst d)), set_rng i (snd d) ob)"

definition builtin_rng_make :: object_builtin where
  "builtin_rng_make args =
     object_bind (require_arity ''rng.make'' args 1) (\<lambda>_. object_bind (require_integer (args ! 0) ''rng.make'') make_rng)"

definition builtin_rng_uniform :: object_builtin where
  "builtin_rng_uniform args =
     with_rng ''rng.uniform'' 3 args
       (\<lambda>i. object_bind (double_arg (args ! 1) ''rng.uniform'')
         (\<lambda>lo. object_bind (double_arg (args ! 2) ''rng.uniform'')
           (\<lambda>hi ob. if fp_less hi lo then ofail ''rng.uniform: expected lo <= hi'' ob
              else drawn i (rng_uniform_between lo hi (lo_rngs ob i)) ob)))"

definition builtin_rng_int :: object_builtin where
  "builtin_rng_int args =
     with_rng ''rng.int'' 2 args
       (\<lambda>i. object_bind (require_integer (args ! 1) ''rng.int'')
         (\<lambda>n ob. if n \<le>s 0 then ofail ''rng.int: expected n > 0'' ob
            else case rng_below n (rs_state (lo_rngs ob i)) of
                   None \<Rightarrow> (Inl No_fuel, ob)
                 | Some (r, s) \<Rightarrow> (Inr (VInt r), set_rng i ((lo_rngs ob i)\<lparr>rs_state := s\<rparr>) ob)))"

definition builtin_rng_normal :: "libm \<Rightarrow> object_builtin" where
  "builtin_rng_normal M args =
     with_rng ''rng.normal'' 3 args
       (\<lambda>i. object_bind (double_arg (args ! 1) ''rng.normal'')
         (\<lambda>mu. object_bind (double_arg (args ! 2) ''rng.normal'')
           (\<lambda>sigma ob. if fp_less sigma 0 then ofail ''rng.normal: expected sigma >= 0'' ob
              else drawn i (rng_normal_around M mu sigma (lo_rngs ob i)) ob)))"

end
