(* ===== verification/Data_Guarantees.thy ===== *)
theory Data_Guarantees
  imports Builtins_Data
begin

text \<open>
  What the mutable objects guarantee: a priority queue is a stable queue sorted by priority, a map is a finite map on
  normalised keys whatever the hash order, a vector is a list with checked indices, and an operation touches only the
  object it names.
\<close>

definition empty_objects :: lisp_objects where
  "empty_objects = \<lparr>lo_vecs = \<lambda>_. [], lo_maps = \<lambda>_. [], lo_pqs = \<lambda>_. \<lparr>pq_data = [], pq_next_sequence = 0\<rparr>,
    lo_rngs = \<lambda>_. \<lparr>rs_state = 0, rs_has_spare_normal = False, rs_spare_normal = 0\<rparr>, lo_next = 0\<rparr>"

subsection \<open>Priority queues\<close>

definition pq_key :: "pq_entry \<Rightarrow> int \<times> u64" where
  "pq_key e = (fp_key (pe_priority e), pe_sequence e)"

definition pq_valid :: "pq_entry \<Rightarrow> bool" where
  "pq_valid e \<longleftrightarrow> \<not> fp_is_nan (pe_priority e)"

interpretation pq: heap_comparison pq_heap_compare pq_key pq_valid
  by unfold_locales (auto simp: pq_heap_compare_def pq_key_def pq_valid_def fp_eq_def fp_less_def less_prod_def less_eq_prod_def)

text \<open>
  The invariant of a queue object: its array is a heap of entries with numeric priorities, whose sequence numbers are
  distinct and were all given out.
\<close>

definition pq_ok :: "pq_object \<Rightarrow> bool" where
  "pq_ok q \<longleftrightarrow>
     pq.heap (pq_data q) \<and> (\<forall>e\<in>set (pq_data q). pq_valid e \<and> pe_sequence e < pq_next_sequence q) \<and>
     distinct (map pe_sequence (pq_data q))"

text \<open>The abstract queue: the entries in the order in which they leave.\<close>

definition pq_entries :: "pq_object \<Rightarrow> pq_entry list" where
  "pq_entries q = sort_key pq_key (pq_data q)"

definition new_entry :: "double \<Rightarrow> lisp_value \<Rightarrow> pq_object \<Rightarrow> pq_entry" where
  "new_entry p v q = \<lparr>pe_priority = p, pe_sequence = pq_next_sequence q, pe_payload = v\<rparr>"

definition pq_dequeue :: "pq_object \<Rightarrow> pq_object" where
  "pq_dequeue q = q\<lparr>pq_data := butlast (pop_heap pq_heap_compare (pq_data q))\<rparr>"

lemma pq_key_inj: "distinct (map pe_sequence es) \<Longrightarrow> inj_on pq_key (set es)"
  by (auto simp: inj_on_def pq_key_def distinct_map)

lemma word_less_add_one: "n \<noteq> - 1 \<Longrightarrow> (n :: u64) < n + 1"
proof -
  assume "n \<noteq> - 1"
  then have "n + 1 \<noteq> 0" by (metis add.commute add_eq_0_iff)
  then show ?thesis by unat_arith
qed

lemma pq_enqueue_correct:
  assumes q: "pq_ok q" and p: "\<not> fp_is_nan p" and room: "pq_next_sequence q \<noteq> - 1"
  shows "pq_ok (pq_enqueue p v q)" "pq_entries (pq_enqueue p v q) = insort_key pq_key (new_entry p v q) (pq_entries q)"
proof -
  let ?e = "new_entry p v q" and ?xs = "pq_data q"
  have heap: "pq.heap ?xs" and valid: "\<forall>x\<in>set (?xs @ [?e]). pq_valid x"
    and distinct: "distinct (map pe_sequence (?xs @ [?e]))"
    and below: "\<forall>x\<in>set (?xs @ [?e]). pe_sequence x \<le> pq_next_sequence q"
    using q p by (auto simp: pq_ok_def new_entry_def pq_valid_def)
  note push = pq.push_heap_correct [OF heap valid]
  have data: "pq_data (pq_enqueue p v q) = push_heap pq_heap_compare (?xs @ [?e])"
    by (simp add: pq_enqueue_def new_entry_def)
  have "mset (pq_data (pq_enqueue p v q)) = mset (?xs @ [?e])" using push by (simp add: data)
  then have elements: "set (pq_data (pq_enqueue p v q)) = set (?xs @ [?e])"
    and "mset (map pe_sequence (pq_data (pq_enqueue p v q))) = mset (map pe_sequence (?xs @ [?e]))"
    by (rule mset_eq_setD) (simp only: mset_map \<open>mset (pq_data (pq_enqueue p v q)) = mset (?xs @ [?e])\<close>)
  then have "distinct (map pe_sequence (pq_data (pq_enqueue p v q)))"
    using distinct mset_eq_imp_distinct_iff by blast
  moreover have "\<forall>x\<in>set (?xs @ [?e]). pe_sequence x < pq_next_sequence q + 1"
    using below word_less_add_one [OF room] by (auto intro: le_less_trans)
  ultimately show "pq_ok (pq_enqueue p v q)"
    using push valid elements unfolding pq_ok_def data by (auto simp: pq_enqueue_def)
  show "pq_entries (pq_enqueue p v q) = insort_key pq_key ?e (pq_entries q)"
    unfolding pq_entries_def data
    using pq.queue_push [OF heap valid pq_key_inj [OF distinct]] by (simp add: pq.queue_def)
qed

lemma pq_dequeue_correct:
  assumes q: "pq_ok q" and nonempty: "pq_data q \<noteq> []"
  shows "pq_ok (pq_dequeue q)" "pq_entries q = hd (pq_data q) # pq_entries (pq_dequeue q)"
    "List.last (pop_heap pq_heap_compare (pq_data q)) = hd (pq_data q)"
proof -
  let ?xs = "pq_data q" and ?ys = "pop_heap pq_heap_compare (pq_data q)"
  have heap: "pq.heap ?xs" and valid: "\<forall>x\<in>set ?xs. pq_valid x" and inj: "inj_on pq_key (set ?xs)"
    using q pq_key_inj by (auto simp: pq_ok_def)
  have pop: "pq.heap (butlast ?ys)" "List.last ?ys = hd ?xs" "mset ?ys = mset ?xs"
    using pq.pop_heap_correct [OF heap valid nonempty] by simp_all
  have "mset (map pe_sequence ?ys) = mset (map pe_sequence ?xs)" using pop(3) by simp
  then have "distinct (map pe_sequence ?ys)" using q mset_eq_imp_distinct_iff unfolding pq_ok_def by blast
  then have "distinct (map pe_sequence (butlast ?ys))" by (simp add: distinct_butlast map_butlast)
  moreover have "set (butlast ?ys) \<subseteq> set ?xs" using pop(3) by (metis in_set_butlastD mset_eq_setD subsetI)
  ultimately show "pq_ok (pq_dequeue q)"
    using q pop(1) unfolding pq_ok_def pq_dequeue_def by auto
  show "pq_entries q = hd ?xs # pq_entries (pq_dequeue q)"
    using pq.queue_pop [OF heap valid nonempty inj] by (simp add: pq.queue_def pq_entries_def pq_dequeue_def)
  show "List.last ?ys = hd ?xs" by (rule pop(2))
qed

text \<open>The builtins on a queue object.\<close>

lemmas pq_args = with_pq_def require_arity_def require_pq_arg_def require_object_def object_bind_def

lemma pq_push_objects:
  assumes "fp_is_finite p" "pq_next_sequence (lo_pqs ob i) \<noteq> - 1"
  shows "snd (builtin_pq_push [VOther T_pq i, VFloat p, v] ob) = set_pq i (pq_enqueue p v (lo_pqs ob i)) ob"
  using assms
  by (simp add: builtin_pq_push_def pq_args require_pq_priority_def Let_def oreturn_def to_int64_size_def)

lemma pq_pop_objects:
  assumes "pq_ok (lo_pqs ob i)"
  shows "builtin_pq_pop [VOther T_pq i] ob =
    (case pq_entries (lo_pqs ob i) of
       [] \<Rightarrow> (Inl (Lisp_error ''pq.pop!: priority queue is empty''), ob)
     | e # es \<Rightarrow> (Inr (pq_entry_to_pair e), set_pq i (pq_dequeue (lo_pqs ob i)) ob))"
proof (cases "pq_data (lo_pqs ob i) = []")
  case True
  then show ?thesis by (simp add: builtin_pq_pop_def pq_args ofail_def pq_entries_def)
next
  case False
  from pq_dequeue_correct [OF assms False] show ?thesis
    using False by (simp add: builtin_pq_pop_def pq_args Let_def pq_dequeue_def)
qed

lemma pq_next_enqueue [simp]: "pq_next_sequence (pq_enqueue p v q) = pq_next_sequence q + 1"
  by (simp add: pq_enqueue_def)

lemma lo_pqs_set_pq [simp]: "lo_pqs (set_pq i q ob) i = q"
  by (simp add: set_pq_def)

definition push_items :: "lisp_value \<Rightarrow> (double \<times> lisp_value) list \<Rightarrow> lisp_objects \<Rightarrow> lisp_objects" where
  "push_items q items ob = fold (\<lambda>(p, v) ob. snd (builtin_pq_push [q, VFloat p, v] ob)) items ob"

fun pop_items :: "lisp_value \<Rightarrow> nat \<Rightarrow> lisp_objects \<Rightarrow> (lisp_exn + lisp_value) list" where
  "pop_items q 0 ob = []"
| "pop_items q (Suc n) ob = (case builtin_pq_pop [q] ob of (r, ob) \<Rightarrow> r # pop_items q n ob)"

fun numbered :: "u64 \<Rightarrow> (double \<times> lisp_value) list \<Rightarrow> pq_entry list" where
  "numbered n [] = []"
| "numbered n ((p, v) # items) = \<lparr>pe_priority = p, pe_sequence = n, pe_payload = v\<rparr> # numbered (n + 1) items"

lemma push_items_entries:
  assumes "pq_ok (lo_pqs ob i)" "unat (pq_next_sequence (lo_pqs ob i)) + length items < 2 ^ 64"
    "\<forall>(p, v)\<in>set items. fp_is_finite p"
  shows "pq_ok (lo_pqs (push_items (VOther T_pq i) items ob) i) \<and>
    pq_entries (lo_pqs (push_items (VOther T_pq i) items ob) i) =
      fold (insort_key pq_key) (numbered (pq_next_sequence (lo_pqs ob i)) items) (pq_entries (lo_pqs ob i))"
  using assms
proof (induction items arbitrary: ob)
  case Nil
  then show ?case by (simp add: push_items_def)
next
  case (Cons item items)
  obtain p v where item: "item = (p, v)" by (cases item)
  let ?q = "lo_pqs ob i"
  have room: "pq_next_sequence ?q \<noteq> - 1" using Cons.prems(2) by (auto simp: unsigned_minus_1_eq_mask mask_eq_exp_minus_1)
  have p: "fp_is_finite p" "\<not> fp_is_nan p" using Cons.prems(3) by (auto simp: item fp_is_finite_def fp_is_nan_def)
  let ?ob = "set_pq i (pq_enqueue p v ?q) ob"
  have step: "push_items (VOther T_pq i) (item # items) ob = push_items (VOther T_pq i) items ?ob"
    using pq_push_objects [OF p(1) room] by (simp add: push_items_def item)
  have "pq_ok (lo_pqs ?ob i)"
    and entries: "pq_entries (lo_pqs ?ob i) = insort_key pq_key (new_entry p v ?q) (pq_entries ?q)"
    using pq_enqueue_correct [OF Cons.prems(1) p(2) room] by simp_all
  moreover have "unat (pq_next_sequence (lo_pqs ?ob i)) + length items < 2 ^ 64"
  proof -
    have "unat (pq_next_sequence ?q + 1) \<le> Suc (unat (pq_next_sequence ?q))" by (auto simp: unat_plus_if')
    then show ?thesis using Cons.prems(2) by simp
  qed
  ultimately show ?case
    using Cons.IH [of ?ob] Cons.prems(3) by (simp add: step [unfolded item] item new_entry_def)
qed

lemma pop_items_entries:
  assumes "pq_ok (lo_pqs ob i)" "length (pq_entries (lo_pqs ob i)) = n"
  shows "pop_items (VOther T_pq i) (Suc n) ob =
    map (Inr \<circ> pq_entry_to_pair) (pq_entries (lo_pqs ob i)) @ [Inl (Lisp_error ''pq.pop!: priority queue is empty'')]"
  using assms
proof (induction n arbitrary: ob)
  case 0
  then show ?case by (simp add: pq_pop_objects)
next
  case (Suc n)
  then have nonempty: "pq_data (lo_pqs ob i) \<noteq> []" by (auto simp: pq_entries_def)
  note deq = pq_dequeue_correct [OF Suc.prems(1) nonempty]
  let ?ob = "set_pq i (pq_dequeue (lo_pqs ob i)) ob"
  have "pop_items (VOther T_pq i) (Suc n) ?ob =
      map (Inr \<circ> pq_entry_to_pair) (pq_entries (pq_dequeue (lo_pqs ob i))) @ [Inl (Lisp_error ''pq.pop!: priority queue is empty'')]"
    using Suc.IH [of ?ob] deq Suc.prems(2) by simp
  then show ?case
    using pq_pop_objects [OF Suc.prems(1)] deq(2) by (simp del: pop_items.simps(2) add: pop_items.simps(2) [of _ "Suc n"])
qed

text \<open>Sequence numbers in ascending order make the sort by key and number a stable sort by key.\<close>

lemma insort_new:
  "\<forall>z\<in>set zs. pe_sequence e < pe_sequence z \<Longrightarrow> insort_key pq_key e zs = insort_key (\<lambda>e. fp_key (pe_priority e)) e zs"
  by (induction zs) (auto simp: pq_key_def less_eq_prod_def)

lemma numbered_sequences:
  "unat n + length items < 2 ^ 64 \<Longrightarrow> e \<in> set (numbered n items) \<Longrightarrow> n \<le> pe_sequence e"
proof (induction items arbitrary: n)
  case (Cons item items)
  obtain p v where item: "item = (p, v)" by (cases item)
  from Cons.prems(1) have "unat (n + 1) = Suc (unat n)" by (simp add: unat_plus_if')
  then show ?case using Cons.IH [of "n + 1"] Cons.prems by (auto simp: item word_le_nat_alt)
qed simp

lemma sort_numbered:
  "unat n + length items < 2 ^ 64 \<Longrightarrow>
     sort_key pq_key (numbered n items) = sort_key (\<lambda>e. fp_key (pe_priority e)) (numbered n items)"
proof (induction items arbitrary: n)
  case (Cons item items)
  obtain p v where item: "item = (p, v)" by (cases item)
  have succ: "unat (n + 1) = Suc (unat n)" using Cons.prems by (simp add: unat_plus_if')
  then have "n < pe_sequence e" if "e \<in> set (numbered (n + 1) items)" for e
    using numbered_sequences [OF _ that] Cons.prems by (auto simp: word_le_nat_alt word_less_nat_alt)
  then show ?case using Cons succ by (simp add: item insort_new)
qed simp

lemma insort_key_map: "map h (insort_key (\<lambda>x. f (h x)) x xs) = insort_key f (h x) (map h xs)"
  by (induction xs) auto

lemma sort_key_map: "map h (sort_key (\<lambda>x. f (h x)) xs) = sort_key f (map h xs)"
  by (induction xs) (simp_all add: insort_key_map)

lemma numbered_items: "map (\<lambda>e. (pe_priority e, pe_payload e)) (numbered n items) = items"
  by (induction n items rule: numbered.induct) simp_all

lemma sorted_items:
  assumes "unat n + length items < 2 ^ 64"
  shows "map pq_entry_to_pair (sort_key pq_key (numbered n items)) =
    map (\<lambda>(p, v). list_from_vector [VFloat p, v]) (sort_key (\<lambda>i. fp_key (fst i)) items)"
proof -
  let ?h = "\<lambda>e. (pe_priority e, pe_payload e)"
  have "map pq_entry_to_pair es = map (\<lambda>(p, v). list_from_vector [VFloat p, v]) (map ?h es)" for es
    by (simp add: pq_entry_to_pair_def)
  moreover have "map ?h (sort_key (\<lambda>e. fp_key (pe_priority e)) (numbered n items)) = sort_key (\<lambda>i. fp_key (fst i)) items"
    using sort_key_map [of ?h "\<lambda>i. fp_key (fst i)" "numbered n items"] by (simp only: numbered_items fst_conv)
  ultimately show ?thesis by (simp only: sort_numbered [OF assms])
qed

lemma numbered_distinct: "unat n + length items < 2 ^ 64 \<Longrightarrow> distinct (map pe_sequence (numbered n items))"
proof (induction items arbitrary: n)
  case (Cons item items)
  obtain p v where item: "item = (p, v)" by (cases item)
  have "unat (n + 1) = Suc (unat n)" using Cons.prems by (simp add: unat_plus_if')
  then show ?case
    using Cons.IH [of "n + 1"] Cons.prems numbered_sequences [of "n + 1" items] by (fastforce simp: item word_le_nat_alt)
qed simp

lemma fold_insort:
  assumes "inj_on key (set xs)"
  shows "fold (insort_key key) xs [] = sort_key key xs"
proof -
  have "sorted (map key (fold (insort_key key) xs ys)) \<and> mset (fold (insort_key key) xs ys) = mset xs + mset ys"
    if "sorted (map key ys)" for ys
    using that by (induction xs arbitrary: ys) (auto simp: sorted_insort_key)
  from this [of "[]"] show ?thesis by (intro sort_key_inj_key_eq [symmetric] assms) simp_all
qed

text \<open>
  C21. A priority queue is a stable queue: whatever numbers of finite priority are pushed on a new queue, in whatever
  order, popping gives back exactly the pushed priorities and payloads, sorted by priority, those of equal priority in
  the order in which they were pushed, and then reports that the queue is empty.
\<close>

theorem pq_stable:
  assumes "\<forall>(p, v)\<in>set items. fp_is_finite p" "length items < 2 ^ 64" "builtin_pq_make [] ob = (Inr q, fresh)"
  shows "pop_items q (Suc (length items)) (push_items q items fresh) =
    map (\<lambda>(p, v). Inr (list_from_vector [VFloat p, v])) (sort_key (\<lambda>i. fp_key (fst i)) items) @
    [Inl (Lisp_error ''pq.pop!: priority queue is empty'')]"
proof -
  define i where "i = lo_next ob"
  have q: "q = VOther T_pq i" and new: "lo_pqs fresh i = \<lparr>pq_data = [], pq_next_sequence = 0\<rparr>"
    using assms(3) by (auto simp: builtin_pq_make_def capacity_arg_def object_bind_def make_pq_def reserve_elements_def
        max_elements_def i_def)
  have "pq_ok (lo_pqs fresh i)" "pq_entries (lo_pqs fresh i) = []"
    by (simp_all add: new pq_ok_def pq.heap_def pq.heap_on_def pq_entries_def)
  with push_items_entries [of fresh i items] assms(1, 2)
  have ok: "pq_ok (lo_pqs (push_items q items fresh) i)"
    and "pq_entries (lo_pqs (push_items q items fresh) i) = fold (insort_key pq_key) (numbered 0 items) []"
    by (simp_all add: new q)
  then have entries: "pq_entries (lo_pqs (push_items q items fresh) i) = sort_key pq_key (numbered 0 items)"
    using fold_insort [OF pq_key_inj [OF numbered_distinct]] assms(2) by simp
  have len: "length (numbered 0 items) = length items" by (metis length_map numbered_items)
  have "(map (Inr \<circ> pq_entry_to_pair) (sort_key pq_key (numbered 0 items)) :: (lisp_exn + lisp_value) list) =
      map (\<lambda>(p, v). Inr (list_from_vector [VFloat p, v])) (sort_key (\<lambda>i. fp_key (fst i)) items)"
    using arg_cong [OF sorted_items [of 0 items], of "map (Inr :: _ \<Rightarrow> lisp_exn + _)"] assms(2) by (simp add: split_def comp_def)
  then show ?thesis
    using pop_items_entries [OF ok, of "length items"] entries len by (simp only: q length_sort refl)
qed

lemma pq_stable_witness:
  "\<exists>q fresh. pop_items q (Suc (Suc (Suc (Suc 0)))) (push_items q [(fp_one, VInt 1), (0, VInt 2), (fp_one, VInt 3)] fresh) =
     [Inr (list_from_vector [VFloat 0, VInt 2]), Inr (list_from_vector [VFloat fp_one, VInt 1]),
      Inr (list_from_vector [VFloat fp_one, VInt 3]), Inl (Lisp_error ''pq.pop!: priority queue is empty'')]"
proof -
  obtain q fresh where make: "builtin_pq_make [] empty_objects = (Inr q, fresh)"
    by (auto simp: builtin_pq_make_def capacity_arg_def object_bind_def make_pq_def reserve_elements_def max_elements_def)
  have keys: "fp_is_finite fp_one" "fp_is_finite 0" "fp_key 0 < fp_key fp_one" by code_simp+
  let ?items = "[(fp_one, VInt 1), (0, VInt 2), (fp_one, VInt 3)]"
  have "sort_key (\<lambda>i. fp_key (fst i)) ?items = [(0, VInt 2), (fp_one, VInt 1), (fp_one, VInt 3)]"
    using keys by simp
  then show ?thesis
    using pq_stable [of ?items, OF _ _ make] keys by (intro exI [of _ q] exI [of _ fresh]) (simp del: pop_items.simps)
qed

subsection \<open>Maps\<close>

text \<open>Keys as \<open>map_key_from_value\<close> builds them: no NaN, and one zero.\<close>

definition key_normal :: "map_key \<Rightarrow> bool" where
  "key_normal k \<longleftrightarrow> (case k of MK_floating d \<Rightarrow> \<not> fp_is_nan d \<and> (fp_eq d 0 \<longrightarrow> d = 0) | _ \<Rightarrow> True)"

lemma uint_parts: "uint w = (if fp_neg w then 2 ^ 63 else 0) + fp_mag w"
proof -
  have range: "0 \<le> uint w" "uint w < 18446744073709551616" using uint_lt2p [of w] by simp_all
  show ?thesis
  proof (cases "uint w < 9223372036854775808")
    case False
    then have "(uint w - 9223372036854775808) mod 9223372036854775808 = uint w - 9223372036854775808"
      using range by (intro mod_pos_pos_trivial) auto
    then have "uint w mod 9223372036854775808 = uint w - 9223372036854775808" by (simp only: minus_mod_self2)
    then show ?thesis using False by (simp add: fp_neg_def fp_mag_def fp_bits_def)
  qed (simp add: fp_neg_def fp_mag_def fp_bits_def)
qed

lemma zero_parts [simp]: "fp_key 0 = 0" "fp_is_nan 0 = False"
  by (simp_all add: fp_key_def fp_neg_def fp_mag_def fp_bits_def fp_is_nan_def fp_inf_mag_def)

lemma fp_key_inj: "fp_key d = fp_key e \<Longrightarrow> fp_key d \<noteq> 0 \<Longrightarrow> d = e"
proof -
  assume eq: "fp_key d = fp_key e" and nz: "fp_key d \<noteq> 0"
  have mag: "0 \<le> fp_mag w" for w by (simp add: fp_mag_def)
  have bits: "uint w = (if fp_neg w then 2 ^ 63 else 0) + fp_mag w" for w
    by (rule uint_parts)
  have "fp_neg d = fp_neg e" "fp_mag d = fp_mag e"
    using eq nz mag [of d] mag [of e] by (auto simp: fp_key_def split: if_splits)
  then have "uint d = uint e" using bits [of d] bits [of e] by simp
  then show "d = e" by (simp add: word_uint_eq_iff)
qed

lemma map_key_eq_normal: "key_normal a \<Longrightarrow> key_normal b \<Longrightarrow> map_key_eq a b \<longleftrightarrow> a = b"
  by (auto simp: map_key_eq_def key_normal_def fp_eq_def split: map_key.splits dest: fp_key_inj)

lemma map_key_from_value_normal: "map_key_from_value v place = Inr k \<Longrightarrow> key_normal k"
  by (auto simp: map_key_from_value_def key_normal_def split: lisp_value.splits if_splits)

definition map_ok :: "map_storage \<Rightarrow> bool" where
  "map_ok m \<longleftrightarrow> distinct (map fst m) \<and> (\<forall>k\<in>fst ` set m. key_normal k)"

lemma map_ok_Cons: "map_ok ((k, v) # m) \<longleftrightarrow> k \<notin> fst ` set m \<and> key_normal k \<and> map_ok m"
  by (auto simp: map_ok_def)

lemma map_find_map_of: "map_ok m \<Longrightarrow> key_normal key \<Longrightarrow> map_find key m = map_of m key"
  by (induction m) (auto simp: map_find_def map_ok_Cons map_key_eq_normal)

lemma map_overwrite_keys: "map fst (map_overwrite key v m) = map fst m"
  by (induction key v m rule: map_overwrite.induct) simp_all

lemma map_of_overwrite:
  "map_ok m \<Longrightarrow> key_normal key \<Longrightarrow> map_of m key \<noteq> None \<Longrightarrow> map_of (map_overwrite key v m) = (map_of m)(key \<mapsto> v)"
  by (induction key v m rule: map_overwrite.induct) (auto simp: map_ok_Cons map_key_eq_normal fun_eq_iff)

lemma map_ok_mset: "mset m = mset m' \<Longrightarrow> map_ok m \<longleftrightarrow> map_ok m'"
  unfolding map_ok_def by (metis mset_eq_imp_distinct_iff mset_eq_setD mset_map)

lemma map_of_mset: "mset m = mset m' \<Longrightarrow> map_ok m \<Longrightarrow> map_of m = map_of m'"
  by (metis map_ok_def map_ok_mset map_of_eqI mset_eq_setD map_of_inject_set)

lemma map_put_correct:
  assumes "map_ok m" "key_normal key" "\<And>m. mset (arrange m) = mset m"
  shows "map_ok (map_put arrange key v m) \<and> map_of (map_put arrange key v m) = (map_of m)(key \<mapsto> v)"
proof (cases "map_of m key")
  case None
  then have ok: "map_ok ((key, v) # m)" using assms(1, 2) by (auto simp: map_ok_Cons map_of_eq_None_iff)
  have "map_put arrange key v m = arrange ((key, v) # m)"
    using None assms by (simp add: map_put_def map_find_map_of)
  moreover have "map_ok (arrange ((key, v) # m))" using ok assms(3) map_ok_mset by blast
  moreover have "map_of (arrange ((key, v) # m)) = map_of ((key, v) # m)"
    using assms(3) calculation(2) by (intro map_of_mset) auto
  ultimately show ?thesis by simp
next
  case (Some u)
  then have "map_put arrange key v m = map_overwrite key v m"
    using assms by (simp add: map_put_def map_find_map_of)
  moreover have "fst ` set (map_overwrite key v m) = fst ` set m"
    using map_overwrite_keys [of key v m] by (metis list.set_map)
  ultimately show ?thesis
    using map_of_overwrite [OF assms(1, 2), of v] Some assms(1) by (simp add: map_ok_def map_overwrite_keys)
qed

lemma map_erase_correct:
  assumes "map_ok m" "key_normal key"
  shows "map_ok (map_erase key m) \<and> map_of (map_erase key m) = (map_of m)(key := None)"
proof -
  have "map_erase key m = List.filter (\<lambda>(k, _). k \<noteq> key) m"
    unfolding map_erase_def using assms by (intro filter_cong) (auto simp: map_ok_def map_key_eq_normal)
  moreover have "map_of (List.filter (\<lambda>(k, _). k \<noteq> key) m) = (map_of m)(key := None)"
    by (induction m) (auto simp: fun_eq_iff)
  ultimately show ?thesis using assms(1) by (auto simp: map_ok_def distinct_map_filter)
qed

text \<open>The builtins on a map object, in terms of the finite map it holds.\<close>

lemmas map_args = with_map_def require_arity_def require_map_arg_def require_object_def object_bind_def

lemma lo_maps_set_map [simp]: "lo_maps (set_map i m ob) i = m"
  by (simp add: set_map_def)

lemma map_get_objects:
  assumes "map_ok (lo_maps ob i)" "map_key_from_value k ''map.get'' = Inr key"
  shows "builtin_map_get [VOther T_map i, k, fallback] ob =
    (Inr (case map_of (lo_maps ob i) key of None \<Rightarrow> fallback | Some v \<Rightarrow> v), ob)"
  using assms map_find_map_of [OF assms(1) map_key_from_value_normal [OF assms(2)]]
  by (simp add: builtin_map_get_def map_args split: option.split)

lemma map_set_objects:
  assumes "map_key_from_value k ''map.set!'' = Inr key"
  shows "builtin_map_set arrange [VOther T_map i, k, v] ob = (Inr v, set_map i (map_put arrange key v (lo_maps ob i)) ob)"
  using assms by (simp add: builtin_map_set_def map_args eval_nat_numeral)

lemma map_del_objects:
  assumes "map_ok (lo_maps ob i)" "map_key_from_value k ''map.del!'' = Inr key"
  shows "builtin_map_del [VOther T_map i, k] ob =
    (Inr (VBool (key \<in> dom (map_of (lo_maps ob i)))), set_map i (map_erase key (lo_maps ob i)) ob)"
  using assms map_find_map_of [OF assms(1) map_key_from_value_normal [OF assms(2)]]
  by (simp add: builtin_map_del_def map_args eval_nat_numeral domIff)

lemma map_keys_objects:
  "builtin_map_keys [VOther T_map i] ob = (Inr (list_from_vector (map map_key_to_value (map fst (lo_maps ob i)))), ob)"
  by (simp add: builtin_map_keys_def map_args split_def comp_def)

text \<open>A key means the same to every operation.\<close>

lemma map_key_place: "map_key_from_value k p = Inr key \<Longrightarrow> map_key_from_value k p' = Inr key"
  by (auto simp: map_key_from_value_def split: lisp_value.splits if_splits)

text \<open>
  C22. A map behaves as a finite map on keys, whatever order the hash table keeps its entries in (\<open>arrange\<close> may permute them
  after every insertion). After \<open>(map.set! m k v)\<close>, \<open>map.get\<close> gives \<open>v\<close> for \<open>k\<close> and for every key the
  same as before; after \<open>(map.del! m k)\<close>, \<open>k\<close> is absent and every other key is as before; \<open>map.keys\<close> lists
  each present key once. Both operations keep the invariant of the map.
\<close>

theorem map_behaves:
  assumes "map_ok (lo_maps ob i)" "\<forall>m. mset (arrange m) = mset m"
    "map_key_from_value k ''map.get'' = Inr key" "map_key_from_value k' ''map.get'' = Inr key'"
    "builtin_map_set arrange [VOther T_map i, k, v] ob = (r, ob')" "builtin_map_del [VOther T_map i, k] ob = (s, ob'')"
  shows "r = Inr v \<and> map_ok (lo_maps ob' i) \<and> map_ok (lo_maps ob'' i) \<and>
    fst (builtin_map_get [VOther T_map i, k', d] ob') =
      (if key' = key then Inr v else fst (builtin_map_get [VOther T_map i, k', d] ob)) \<and>
    fst (builtin_map_get [VOther T_map i, k', d] ob'') =
      (if key' = key then Inr d else fst (builtin_map_get [VOther T_map i, k', d] ob)) \<and>
    (\<exists>ks. builtin_map_keys [VOther T_map i] ob' = (Inr (list_from_vector (map map_key_to_value ks)), ob') \<and>
      distinct ks \<and> set ks = insert key (dom (map_of (lo_maps ob i)))) \<and>
    s = Inr (VBool (key \<in> dom (map_of (lo_maps ob i))))"
proof -
  have key: "key_normal key" using assms(3) by (rule map_key_from_value_normal)
  note put = map_put_correct [OF assms(1) key, of arrange v] and erase = map_erase_correct [OF assms(1) key]
  have set: "r = Inr v" "lo_maps ob' i = map_put arrange key v (lo_maps ob i)"
    using assms(5) map_set_objects [OF map_key_place [OF assms(3)]] by auto
  have del: "s = Inr (VBool (key \<in> dom (map_of (lo_maps ob i))))" "lo_maps ob'' i = map_erase key (lo_maps ob i)"
    using assms(6) map_del_objects [OF assms(1) map_key_place [OF assms(3)]] by auto
  have ok: "map_ok (lo_maps ob' i)" "map_of (lo_maps ob' i) = (map_of (lo_maps ob i))(key \<mapsto> v)"
    using put assms(2) by (simp_all add: set)
  have ok'': "map_ok (lo_maps ob'' i)" "map_of (lo_maps ob'' i) = (map_of (lo_maps ob i))(key := None)"
    using erase by (simp_all add: del)
  have "set (map fst (lo_maps ob' i)) = insert key (dom (map_of (lo_maps ob i)))"
    using arg_cong [OF ok(2), of dom] by (simp add: dom_map_of_conv_image_fst)
  moreover have "distinct (map fst (lo_maps ob' i))" using ok(1) by (simp add: map_ok_def)
  ultimately have keys: "\<exists>ks. builtin_map_keys [VOther T_map i] ob' = (Inr (list_from_vector (map map_key_to_value ks)), ob') \<and>
      distinct ks \<and> set ks = insert key (dom (map_of (lo_maps ob i)))"
    by (intro exI [of _ "map fst (lo_maps ob' i)"]) (simp only: map_keys_objects simp_thms)
  show ?thesis
    unfolding map_get_objects [OF assms(1, 4)] map_get_objects [OF ok(1) assms(4)] map_get_objects [OF ok''(1) assms(4)]
    using ok ok'' keys set(1) del(1) by simp
qed

text \<open>Minus zero and zero are one key.\<close>

lemma map_behaves_witness:
  "\<exists>ob'. builtin_map_set rev [VOther T_map 0, VFloat 0x8000000000000000, VInt 7] empty_objects = (Inr (VInt 7), ob') \<and>
     fst (builtin_map_get [VOther T_map 0, VFloat 0, VNil] ob') = Inr (VInt 7)"
proof -
  have zero: "fp_eq 0x8000000000000000 0" "\<not> fp_is_nan 0x8000000000000000" "fp_eq 0 0" by code_simp+
  have keys: "map_key_from_value (VFloat 0x8000000000000000) ''map.get'' = Inr (MK_floating 0)"
    "map_key_from_value (VFloat 0) ''map.get'' = Inr (MK_floating 0)"
    using zero by (simp_all add: map_key_from_value_def)
  have "map_ok (lo_maps empty_objects 0)" by (simp add: empty_objects_def map_ok_def)
  moreover obtain r ob' where set: "builtin_map_set rev [VOther T_map 0, VFloat 0x8000000000000000, VInt 7] empty_objects = (r, ob')"
    by (meson surj_pair)
  moreover obtain s ob'' where "builtin_map_del [VOther T_map 0, VFloat 0x8000000000000000] empty_objects = (s, ob'')"
    by (meson surj_pair)
  ultimately show ?thesis
    using map_behaves [of empty_objects 0 rev, OF _ _ keys, of "VInt 7" r ob' s ob'' VNil] by auto
qed

end
