(* ===== verification/Dsl_Export.thy ===== *)
theory Dsl_Export
  imports Compiler Event_Log Lisp_Eval
begin

text \<open>
  From a compiled tree back to the form it was written as (\<open>bt_node_to_dsl\<close>, \<open>bt_definition_to_dsl\<close> and
  \<open>attach_dsl_identity_metadata\<close> of \<open>src/builtins.cpp\<close>). The recursion follows child ids, which an arbitrary definition may
  arrange in a circle, so it takes a bound on its depth; for a well-formed definition the number of nodes is enough.
\<close>

fun rmap :: "('a \<Rightarrow> 'e + 'b) \<Rightarrow> 'a list \<Rightarrow> 'e + 'b list" where
  "rmap f [] = Inr []"
| "rmap f (x # xs) = rbind (f x) (\<lambda>y. rbind (rmap f xs) (\<lambda>ys. Inr (y # ys)))"

definition bt_arg_to_lisp_value :: "arg_value \<Rightarrow> lisp_value" where
  "bt_arg_to_lisp_value a =
     (case ar_kind a of
        A_nil \<Rightarrow> VNil
      | A_boolean \<Rightarrow> VBool (ar_bool a)
      | A_integer \<Rightarrow> VInt (ar_int a)
      | A_floating \<Rightarrow> VFloat (ar_float a)
      | A_symbol \<Rightarrow> VSym (ar_text a)
      | A_string \<Rightarrow> VStr (ar_text a))"

definition one_child :: "string \<Rightarrow> node \<Rightarrow> (node_id \<Rightarrow> lisp_exn + lisp_value) \<Rightarrow> lisp_exn + lisp_value list" where
  "one_child name n f =
     (if length (nd_children n) \<noteq> 1 then Inl (Lisp_error (''bt.to-dsl: '' @ name @ '' node requires one child''))
      else rbind (f (nd_children n ! 0)) (\<lambda>c. Inr [c]))"

text \<open>The items of the form of a node, given the forms of its children.\<close>

definition dsl_items :: "(node_id \<Rightarrow> lisp_exn + lisp_value) \<Rightarrow> node \<Rightarrow> lisp_exn + lisp_value list" where
  "dsl_items f n =
     (let composite_form = (\<lambda>name. rbind (rmap f (nd_children n)) (\<lambda>cs. Inr (VSym name # cs)));
          args = map bt_arg_to_lisp_value (nd_args n)
      in case nd_kind n of
           K_seq \<Rightarrow> composite_form ''seq''
         | K_sel \<Rightarrow> composite_form ''sel''
         | K_mem_seq \<Rightarrow> composite_form ''mem-seq''
         | K_mem_sel \<Rightarrow> composite_form ''mem-sel''
         | K_async_seq \<Rightarrow> composite_form ''async-seq''
         | K_reactive_seq \<Rightarrow> composite_form ''reactive-seq''
         | K_reactive_sel \<Rightarrow> composite_form ''reactive-sel''
         | K_invert \<Rightarrow> rbind (one_child ''invert'' n f) (\<lambda>cs. Inr (VSym ''invert'' # cs))
         | K_repeat \<Rightarrow> rbind (one_child ''repeat'' n f) (\<lambda>cs. Inr (VSym ''repeat'' # VInt (nd_int_param n) # cs))
         | K_retry \<Rightarrow> rbind (one_child ''retry'' n f) (\<lambda>cs. Inr (VSym ''retry'' # VInt (nd_int_param n) # cs))
         | K_cond \<Rightarrow> Inr (VSym ''cond'' # VSym (nd_leaf_name n) # args)
         | K_act \<Rightarrow> Inr (VSym ''act'' # VSym (nd_leaf_name n) # args)
         | K_succeed \<Rightarrow> Inr [VSym ''succeed'']
         | K_fail \<Rightarrow> Inr [VSym ''fail'']
         | K_running \<Rightarrow> Inr [VSym ''running'']
         | K_plan_action \<Rightarrow> Inr (VSym ''plan-action'' # args)
         | K_vla_request \<Rightarrow> Inr (VSym ''vla-request'' # args)
         | K_vla_wait \<Rightarrow> Inr (VSym ''vla-wait'' # args)
         | K_vla_cancel \<Rightarrow> Inr (VSym ''vla-cancel'' # args))"

primrec bt_node_to_dsl :: "nat \<Rightarrow> node list \<Rightarrow> node_id \<Rightarrow> lisp_exn + lisp_value" where
  "bt_node_to_dsl 0 nodes i = Inl No_fuel"
| "bt_node_to_dsl (Suc k) nodes i =
     (if i \<ge> length nodes then Inl (Lisp_error ''bt.to-dsl: invalid node id'')
      else rbind (dsl_items (bt_node_to_dsl k nodes) (nodes ! i)) (\<lambda>items. Inr (list_from_vector items)))"

definition bt_definition_to_dsl :: "bt_definition \<Rightarrow> lisp_exn + lisp_value" where
  "bt_definition_to_dsl d =
     (if df_nodes d = [] then Inl (Lisp_error ''bt.to-dsl: definition has no nodes'')
      else if df_root d \<ge> length (df_nodes d) then Inl (Lisp_error ''bt.to-dsl: root node out of range'')
      else bt_node_to_dsl (length (df_nodes d)) (df_nodes d) (df_root d))"

definition written :: "object_info \<Rightarrow> lisp_value \<Rightarrow> lisp_exn + string" where
  "written info v = (case write_value info v of Inl m \<Rightarrow> Inl (Lisp_error m) | Inr s \<Rightarrow> Inr s)"

definition attach_dsl_identity_metadata :: "object_info \<Rightarrow> string \<Rightarrow> bt_definition \<Rightarrow> lisp_exn + bt_definition" where
  "attach_dsl_identity_metadata info source_text d =
     rbind (bt_definition_to_dsl d)
       (\<lambda>canonical. rbind (written info canonical)
         (\<lambda>text. Inr (d\<lparr>df_source_hash := hash64_hex source_text, df_canonical_dsl := text,
            df_canonical_dsl_hash := hash64_hex text\<rparr>)))"

subsection \<open>The form compiles back\<close>

declare compile_node.simps [simp del] compile_items.simps [simp del]

lemma compile_args_back:
  "compile_args xs = Inr as \<Longrightarrow> map bt_arg_to_lisp_value as = xs"
proof (induction xs arbitrary: as)
  case (Cons x xs)
  then obtain a bs where "compile_arg x = Inr a" "compile_args xs = Inr bs" "as = a # bs" by auto
  moreover have "bt_arg_to_lisp_value a = x" using \<open>compile_arg x = Inr a\<close>
    by (auto simp: compile_arg_def bt_arg_to_lisp_value_def split: lisp_value.splits)
  ultimately show ?case using Cons.IH by simp
qed simp

lemma list_from_vector_Cons: "list_from_vector (x # xs) = VCons x (list_from_vector xs)"
  by (simp add: list_from_vector_def)

lemma rmap_cong: "(\<And>x. x \<in> set xs \<Longrightarrow> f x = g x) \<Longrightarrow> rmap f xs = rmap g xs"
  by (induction xs) auto

lemma dsl_items_cong: "(\<And>c. c \<in> set (nd_children n) \<Longrightarrow> f c = g c) \<Longrightarrow> dsl_items f n = dsl_items g n"
  using rmap_cong [of "nd_children n" f g]
  by (cases "nd_kind n") (auto simp: dsl_items_def one_child_def Let_def)

text \<open>
  The form of a node depends only on the nodes before it, and a depth above its id is enough.
\<close>

definition shows_as :: "node list \<Rightarrow> node_id \<Rightarrow> lisp_value \<Rightarrow> bool" where
  "shows_as nodes i e \<longleftrightarrow> (\<forall>k later. i < k \<longrightarrow> bt_node_to_dsl k (nodes @ later) i = Inr e)"

lemma shows_as_append: "shows_as nodes i e \<Longrightarrow> shows_as (nodes @ later) i e"
  by (simp add: shows_as_def)

lemma shows_as_emit:
  assumes "dsl_items f n = Inr items" "emit_node n nodes = (i, nodes')" "length nodes < 2 ^ 32"
    "\<And>c. c \<in> set (nd_children n) \<Longrightarrow> c < length nodes \<and> (\<exists>e. shows_as nodes c e \<and> f c = Inr e)"
  shows "shows_as nodes' i (list_from_vector items)"
  unfolding shows_as_def
proof (intro allI impI)
  fix k later assume "i < k"
  then obtain k' where k: "k = Suc k'" "i \<le> k'" by (cases k) auto
  have i: "i = length nodes" "nodes' = nodes @ [n\<lparr>nd_id := i\<rparr>]" using assms(2, 3) by (auto simp: emit_node_def Let_def)
  have "bt_node_to_dsl k' (nodes' @ later) c = f c" if c: "c \<in> set (nd_children n)" for c
    using assms(4) [OF c] i k by (auto simp: shows_as_def)
  then have "dsl_items (bt_node_to_dsl k' (nodes' @ later)) n = dsl_items f n" by (rule dsl_items_cong)
  moreover have "dsl_items g (n\<lparr>nd_id := i\<rparr>) = dsl_items g n" for g
    by (cases "nd_kind n") (simp_all add: dsl_items_def one_child_def)
  ultimately show "bt_node_to_dsl k (nodes' @ later) i = Inr (list_from_vector items)"
    using i assms(1) by (simp add: k nth_append)
qed

text \<open>What the compiler emits for a form shows as a form that compiles to the same nodes.\<close>

definition compiles_back :: "node list \<Rightarrow> node_id \<Rightarrow> node list \<Rightarrow> bool" where
  "compiles_back nodes i nodes' \<longleftrightarrow>
     (length nodes' \<le> 2 ^ 32 \<longrightarrow>
       i < length nodes' \<and> (\<exists>e. shows_as nodes' i e \<and> compile_node e nodes = Inr (i, nodes')))"

lemma emit_node_length: "emit_node n nodes = (i, nodes') \<Longrightarrow> length nodes' = Suc (length nodes)"
  by (auto simp: emit_node_def Let_def)

lemma emit_node_id: "emit_node n nodes = (i, nodes') \<Longrightarrow> length nodes < 2 ^ 32 \<Longrightarrow> i = length nodes"
  by (auto simp: emit_node_def Let_def)

lemma emitted_back:
  assumes items: "dsl_items f n = Inr items" "items \<noteq> []" "compile_items items nodes = Inr (i, nodes')"
    and emit: "emit_node n mid = (i, nodes')"
    and children: "\<And>c. length mid < 2 ^ 32 \<Longrightarrow> c \<in> set (nd_children n) \<Longrightarrow>
      c < length mid \<and> (\<exists>e. shows_as mid c e \<and> f c = Inr e)"
  shows "compiles_back nodes i nodes'"
  unfolding compiles_back_def
proof (intro impI conjI)
  assume "length nodes' \<le> 2 ^ 32"
  then have mid: "length mid < 2 ^ 32" using emit_node_length [OF emit] by simp
  show "i < length nodes'" using emit_node_length [OF emit] emit_node_id [OF emit mid] by simp
  have "compile_node (list_from_vector items) nodes = Inr (i, nodes')"
    using items(2, 3) by (cases items) (simp_all add: is_cons_def list_from_vector_Cons compile_node.simps)
  moreover have "shows_as nodes' i (list_from_vector items)"
    using shows_as_emit [OF items(1) emit mid] children [OF mid] by blast
  ultimately show "\<exists>e. shows_as nodes' i e \<and> compile_node e nodes = Inr (i, nodes')" by blast
qed

lemma leaf_compiles_back:
  assumes "compile_leaf name items nodes = Inr (i, nodes')" "hd items = VSym name" "items \<noteq> []"
    and leaf: "composite_kind name = None" "name \<noteq> ''invert''" "name \<noteq> ''repeat''" "name \<noteq> ''retry''"
  shows "compiles_back nodes i nodes'"
proof -
  have head: "VSym name # drop 1 items = items" using assms(2, 3) by (cases items) auto
  have compiled: "compile_items (VSym name # xs) nodes = compile_leaf name (VSym name # xs) nodes" for xs
    using leaf by (simp add: compile_items.simps)
  consider (named) "name = ''cond'' \<or> name = ''act''"
    | (bare) "name = ''succeed'' \<or> name = ''fail'' \<or> name = ''running''"
    | (service) "name = ''plan-action'' \<or> vla_kind name \<noteq> None"
    using assms(1) by (auto simp: compile_leaf_def split: if_splits option.splits)
  then show ?thesis
  proof cases
    case named
    then obtain leaf_name as where
      parts: "leaf_name_of (items ! 1) = Some leaf_name" "compile_args (drop 2 items) = Inr as"
        "emit_node (node_default\<lparr>nd_kind := (if name = ''cond'' then K_cond else K_act), nd_leaf_name := leaf_name, nd_args := as\<rparr>) nodes = (i, nodes')"
      using assms(1) by (auto simp: compile_leaf_def split: if_splits option.splits)
    let ?items = "VSym name # VSym leaf_name # drop 2 items"
    show ?thesis
    proof (rule emitted_back [OF _ _ _ parts(3)])
      show "dsl_items (\<lambda>_. Inl No_fuel) (node_default\<lparr>nd_kind := (if name = ''cond'' then K_cond else K_act), nd_leaf_name := leaf_name, nd_args := as\<rparr>) =
          Inr ?items"
        using named compile_args_back [OF parts(2)] by (auto simp: dsl_items_def)
      show "compile_items ?items nodes = Inr (i, nodes')"
        unfolding compiled using named parts by (auto simp: compile_leaf_def leaf_name_of_def)
    qed simp_all
  next
    case bare
    then have single: "items = [VSym name]"
      using assms(1) head by (auto simp: compile_leaf_def guard_err_def split: if_splits)
    obtain k where k: "emit_node (node_default\<lparr>nd_kind := k\<rparr>) nodes = (i, nodes')"
        "dsl_items (\<lambda>_. Inl No_fuel) (node_default\<lparr>nd_kind := k\<rparr>) = Inr items"
      using assms(1) bare by (auto simp: compile_leaf_def dsl_items_def single)
    show ?thesis
      by (rule emitted_back [OF k(2) assms(3) _ k(1)]) (use assms(1) in \<open>simp_all add: single compiled\<close>)
  next
    case service
    then obtain k as where k: "emit_node (node_default\<lparr>nd_kind := k, nd_args := as\<rparr>) nodes = (i, nodes')"
        "compile_args (drop 1 items) = Inr as" "dsl_items (\<lambda>_. Inl No_fuel) (node_default\<lparr>nd_kind := k, nd_args := as\<rparr>) = Inr items"
      using assms(1) compile_args_back [of "drop 1 items"] head
      by (auto simp: compile_leaf_def vla_kind_def dsl_items_def split: if_splits)
    show ?thesis
      by (rule emitted_back [OF k(3) assms(3) _ k(1)]) (use assms(1) compiled [of "drop 1 items"] head in \<open>simp_all\<close>)
  qed
qed

lemma shows_as_here: "shows_as nodes c e \<Longrightarrow> c < length nodes \<Longrightarrow> bt_node_to_dsl (length nodes) nodes c = Inr e"
  by (metis append_Nil2 shows_as_def)

lemma rmap_shows_as:
  assumes "list_all2 (shows_as nodes) cs es" "\<forall>c\<in>set cs. c < length nodes"
  shows "rmap (bt_node_to_dsl (length nodes) nodes) cs = Inr es"
  using assms by (induction rule: list_all2_induct) (auto simp: shows_as_here)

lemma compile_extends:
  "compile_children xs nodes = Inr (is, nodes') \<Longrightarrow> \<exists>new. nodes' = nodes @ new"
proof -
  assume "compile_children xs nodes = Inr (is, nodes')"
  from compile_children_emits [OF _ this] compile_node_emits show ?thesis by (auto simp: emits_def)
qed

lemma children_compile_back:
  assumes "\<And>x nodes i nodes'. x \<in> set xs \<Longrightarrow> compile_node x nodes = Inr (i, nodes') \<Longrightarrow> compiles_back nodes i nodes'"
    and "compile_children xs nodes = Inr (is, nodes')" "length nodes' \<le> 2 ^ 32"
  shows "(\<forall>c\<in>set is. c < length nodes') \<and>
    (\<exists>es. list_all2 (shows_as nodes') is es \<and> compile_children es nodes = Inr (is, nodes') \<and> length es = length xs)"
  using assms
proof (induction xs arbitrary: nodes "is")
  case Nil
  then show ?case by simp
next
  case (Cons x xs)
  from Cons.prems(2) obtain i mid js where
    parts: "compile_node x nodes = Inr (i, mid)" "compile_children xs mid = Inr (js, nodes')" "is = i # js"
    by auto
  obtain later where later: "nodes' = mid @ later" using compile_extends [OF parts(2)] by blast
  have "compiles_back nodes i mid" using Cons.prems(1) [OF _ parts(1)] by simp
  then obtain e where e: "shows_as mid i e" "compile_node e nodes = Inr (i, mid)" "i < length mid"
    using Cons.prems(3) later by (auto simp: compiles_back_def)
  obtain es where "\<forall>c\<in>set js. c < length nodes'" "list_all2 (shows_as nodes') js es"
      "compile_children es mid = Inr (js, nodes')" "length es = length xs"
    using Cons.IH [OF _ parts(2) Cons.prems(3)] Cons.prems(1) by (metis list.set_intros(2))
  with e later show ?case
    by (intro conjI exI [of _ "e # es"]) (auto simp: parts(3) intro: shows_as_append)
qed

lemma single_child_back:
  assumes "compiles_back nodes c mid" "length mid < 2 ^ 32"
  obtains e where "compile_node e nodes = Inr (c, mid)" "shows_as mid c e" "c < length mid"
    "bt_node_to_dsl (length mid) mid c = Inr e"
  using assms shows_as_here by (fastforce simp: compiles_back_def)

lemma compiles_back_beyond: "\<not> length nodes' \<le> 2 ^ 32 \<Longrightarrow> compiles_back nodes i nodes'"
  by (simp add: compiles_back_def)

lemma composite_compiles_back:
  assumes sub: "\<And>x nodes i nodes'. x \<in> set rest \<Longrightarrow> compile_node x nodes = Inr (i, nodes') \<Longrightarrow> compiles_back nodes i nodes'"
    and "composite_kind name = Some k" "compile_items (VSym name # rest) nodes = Inr (i, nodes')"
  shows "compiles_back nodes i nodes'"
proof -
  let ?n = "\<lambda>cs. node_default\<lparr>nd_kind := k, nd_children := cs\<rparr>"
  obtain cs mid where cs: "compile_children rest nodes = Inr (cs, mid)" "rest \<noteq> []" "emit_node (?n cs) mid = (i, nodes')"
    using assms(2, 3) by (auto simp: compile_items.simps split: list.splits)
  show ?thesis
  proof (cases "length mid < 2 ^ 32")
    case True
    obtain es where es: "\<forall>c\<in>set cs. c < length mid" "list_all2 (shows_as mid) cs es"
        "compile_children es nodes = Inr (cs, mid)" "length es = length rest"
      using children_compile_back [OF _ cs(1)] sub True by (metis less_imp_le)
    show ?thesis
    proof (rule emitted_back [OF _ _ _ cs(3)])
      show "dsl_items (bt_node_to_dsl (length mid) mid) (?n cs) = Inr (VSym name # es)"
        using assms(2) rmap_shows_as [OF es(2, 1)] by (auto simp: dsl_items_def composite_kind_def split: if_splits)
      show "compile_items (VSym name # es) nodes = Inr (i, nodes')"
        using es(3, 4) cs(2, 3) assms(2) by (cases es) (auto simp: compile_items.simps)
      show "c < length mid \<and> (\<exists>e. shows_as mid c e \<and> bt_node_to_dsl (length mid) mid c = Inr e)"
        if "c \<in> set (nd_children (?n cs))" for c
        using that es(1, 2) shows_as_here by (fastforce simp: list_all2_conv_all_nth in_set_conv_nth)
    qed simp
  next
    case False
    then show ?thesis using emit_node_length [OF cs(3)] by (intro compiles_back_beyond) simp
  qed
qed

lemma decorator_compiles_back:
  assumes sub: "\<And>nodes i nodes'. compile_node c nodes = Inr (i, nodes') \<Longrightarrow> compiles_back nodes i nodes'"
    and child: "compile_node c nodes = Inr (j, mid)" and emit: "emit_node n mid = (i, nodes')"
    and n: "nd_children n = [j]"
    and forms: "\<And>f e. f j = Inr e \<Longrightarrow> dsl_items f n = Inr (front @ [e])"
    and compiles: "\<And>e. compile_node e nodes = Inr (j, mid) \<Longrightarrow> compile_items (front @ [e]) nodes = Inr (i, nodes')"
  shows "compiles_back nodes i nodes'"
proof (cases "length mid < 2 ^ 32")
  case True
  then obtain e where e: "compile_node e nodes = Inr (j, mid)" "shows_as mid j e" "j < length mid"
      "bt_node_to_dsl (length mid) mid j = Inr e"
    using single_child_back [OF sub [OF child]] by blast
  show ?thesis
    using e n by (intro emitted_back [OF forms [of "bt_node_to_dsl (length mid) mid", OF e(4)] _ compiles [OF e(1)] emit]) auto
next
  case False
  then show ?thesis using emit_node_length [OF emit] by (intro compiles_back_beyond) simp
qed

lemma items_compile_back:
  assumes sub: "\<And>x nodes i nodes'. x \<in> set (tl items) \<Longrightarrow> compile_node x nodes = Inr (i, nodes') \<Longrightarrow> compiles_back nodes i nodes'"
    and compiled: "compile_items items nodes = Inr (i, nodes')"
  shows "compiles_back nodes i nodes'"
proof -
  from compiled obtain name rest where items: "items = VSym name # rest"
    by (auto simp: compile_items.simps split: list.splits lisp_value.splits)
  consider (comp) k where "composite_kind name = Some k"
    | (invert) "composite_kind name = None" "name = ''invert''"
    | (counted) "composite_kind name = None" "name = ''repeat'' \<or> name = ''retry''"
    | (leaf) "composite_kind name = None" "name \<noteq> ''invert''" "name \<noteq> ''repeat''" "name \<noteq> ''retry''"
    by (cases "composite_kind name") blast+
  then show ?thesis
  proof cases
    case comp
    then show ?thesis using composite_compiles_back [of rest name k nodes i nodes'] sub compiled items by auto
  next
    case invert
    then obtain c j mid where parts: "rest = [c]" "compile_node c nodes = Inr (j, mid)"
        "emit_node (node_default\<lparr>nd_kind := K_invert, nd_children := [j]\<rparr>) mid = (i, nodes')"
      using compiled items by (auto simp: compile_items.simps split: list.splits)
    show ?thesis
      by (rule decorator_compiles_back [OF _ parts(2, 3), where front = "[VSym ''invert'']"])
        (use sub items parts in \<open>auto simp: dsl_items_def one_child_def compile_items.simps composite_kind_def\<close>)
  next
    case counted
    then obtain cnt c j mid where parts: "rest = [VInt cnt, c]" "\<not> sint cnt < 0" "compile_node c nodes = Inr (j, mid)"
        "emit_node (node_default\<lparr>nd_kind := (if name = ''repeat'' then K_repeat else K_retry), nd_int_param := cnt, nd_children := [j]\<rparr>) mid =
          (i, nodes')"
      using compiled items by (auto simp: compile_items.simps split: list.splits lisp_value.splits)
    show ?thesis
      by (rule decorator_compiles_back [OF _ parts(3, 4), where front = "[VSym name, VInt cnt]"])
        (use sub items parts counted in \<open>auto simp: dsl_items_def one_child_def compile_items.simps composite_kind_def guard_err_def\<close>)
  next
    case leaf
    then have "compile_leaf name items nodes = Inr (i, nodes')" using compiled items by (simp add: compile_items.simps)
    then show ?thesis using leaf items by (intro leaf_compiles_back) auto
  qed
qed

lemma compile_node_back: "compile_node e nodes = Inr (i, nodes') \<Longrightarrow> compiles_back nodes i nodes'"
proof (induction e arbitrary: nodes i nodes' rule: measure_induct_rule [of size])
  case (less e)
  then obtain items where items: "vector_from_list e = Inr items" "compile_items items nodes = Inr (i, nodes')"
    by (auto simp: compile_node.simps split: if_splits)
  have "size x < size e" if "x \<in> set (tl items)" for x
    using that vector_from_list_size [OF items(1)] member_size_list [of x items]
    by (auto dest: in_set_tlD)
  then show ?case using less.IH items_compile_back items(2) by blast
qed

lemma to_dsl_back:
  assumes "compile_definition form = Inr d" "length (df_nodes d) \<le> 2 ^ 32"
  shows "\<exists>canonical. bt_definition_to_dsl d = Inr canonical \<and> compile_definition canonical = Inr d"
proof -
  obtain root nodes where d: "compile_node form [] = Inr (root, nodes)" "d = finish root nodes"
    using assms(1) by (auto simp: compile_definition_def)
  then obtain e where e: "root < length nodes" "shows_as nodes root e" "compile_node e [] = Inr (root, nodes)"
    using compile_node_back [OF d(1)] assms(2) by (auto simp: compiles_back_def finish_def)
  then have "bt_definition_to_dsl d = Inr e"
    using shows_as_here [OF e(2, 1)] d(2) by (auto simp: bt_definition_to_dsl_def finish_def)
  moreover have "compile_definition e = Inr d" using e(3) d(2) by (simp add: compile_definition_def)
  ultimately show ?thesis by blast
qed

text \<open>
  C17. The form that \<open>bt.to-dsl\<close> gives for a compiled tree exists and is an exact description of it: compiling it gives the
  same definition back, node for node (for trees of at most \<open>2 ^ 32\<close> nodes, the range of \<open>node_id\<close>).
\<close>

theorem to_dsl_compiles_back:
  assumes "compile_definition form = Inr d" "length (df_nodes d) \<le> 2 ^ 32"
  shows "\<exists>canonical. bt_definition_to_dsl d = Inr canonical \<and> compile_definition canonical = Inr d"
  using assms by (rule to_dsl_back)

theorem to_dsl_compiles_back_witness:
  "\<exists>canonical. bt_definition_to_dsl sample_compiled = Inr canonical \<and> compile_definition canonical = Inr sample_compiled"
  by (rule to_dsl_compiles_back [OF sample_form_compiles]) (simp add: sample_compiled_def finish_def)

end
