(* ===== verification/Builtins_Bt.thy ===== *)
theory Builtins_Bt
  imports Dsl_Export Runtime_Host Builtins_Num Syntax
begin

text \<open>
  The builtin functions on behaviour trees and on the event log (\<open>src/builtins.cpp\<close>): they turn Lisp arguments into calls of
  the runtime host and its answers and exceptions into Lisp values and errors. The world they work on is the host and the
  file system, a map from paths to bytes with the paths that can be opened for writing. The order in which C++ evaluates the
  arguments of one call is left open by the language; here it is from left to right.
\<close>

record ('w, 'p) bt_world =
  bw_host :: "('w, 'p) runtime_host"
  bw_files :: "string \<Rightarrow> bytes option"
  bw_writable :: "string \<Rightarrow> bool"
  bw_torn :: "bt_definition \<Rightarrow> bytes"
  bw_objects :: object_info

type_synonym ('a, 'w, 'p) bt_step = "('w, 'p) bt_world \<Rightarrow> (lisp_exn + 'a) \<times> ('w, 'p) bt_world"

type_synonym ('w, 'p) bt_builtin = "lisp_value list \<Rightarrow> (lisp_value, 'w, 'p) bt_step"

definition bbind :: "'a checked \<Rightarrow> ('a \<Rightarrow> ('b, 'w, 'p) bt_step) \<Rightarrow> ('b, 'w, 'p) bt_step" where
  "bbind r f w = (case r of Inl e \<Rightarrow> (Inl e, w) | Inr x \<Rightarrow> f x w)"

definition with_host :: "(('w, 'p) runtime_host \<Rightarrow> ('w, 'p) runtime_host) \<Rightarrow> ('w, 'p) bt_world \<Rightarrow> ('w, 'p) bt_world" where
  "with_host f w = w\<lparr>bw_host := f (bw_host w)\<rparr>"

text \<open>\<open>catch (const std::exception& e)\<close> around a call, which prefixes the message.\<close>

definition rewrap :: "string \<Rightarrow> lisp_exn \<Rightarrow> lisp_exn" where
  "rewrap place e =
     (case e of
        Foreign (Std_exception m) \<Rightarrow> Lisp_error (place @ '': '' @ m)
      | _ \<Rightarrow> (case lisp_what e of Some m \<Rightarrow> Lisp_error (place @ '': '' @ m) | None \<Rightarrow> e))"

definition of_message :: "string + 'a \<Rightarrow> 'a checked" where
  "of_message r = (case r of Inl m \<Rightarrow> Inl (Foreign (Std_exception m)) | Inr x \<Rightarrow> Inr x)"

definition rewrapped :: "string \<Rightarrow> 'a checked \<Rightarrow> 'a checked" where
  "rewrapped place r = (case r of Inl e \<Rightarrow> Inl (rewrap place e) | Inr x \<Rightarrow> Inr x)"

subsection \<open>Arguments and files\<close>

definition require_handle :: "value_type \<Rightarrow> string \<Rightarrow> lisp_value \<Rightarrow> string \<Rightarrow> nat checked" where
  "require_handle t expected v place =
     (case v of
        VOther t' i \<Rightarrow> if t' = t then Inr i else Inl (Lisp_error (place @ '': expected '' @ expected))
      | _ \<Rightarrow> Inl (Lisp_error (place @ '': expected '' @ expected)))"

definition require_bt_def_handle :: "lisp_value \<Rightarrow> string \<Rightarrow> nat checked" where
  "require_bt_def_handle = require_handle T_bt_def ''bt_def''"

definition require_bt_instance_handle :: "lisp_value \<Rightarrow> string \<Rightarrow> nat checked" where
  "require_bt_instance_handle = require_handle T_bt_instance ''bt_instance''"

definition require_path_arg :: "lisp_value \<Rightarrow> string \<Rightarrow> string checked" where
  "require_path_arg v place =
     (case v of VStr s \<Rightarrow> Inr s | _ \<Rightarrow> Inl (Lisp_error (place @ '': expected file path string'')))"

definition require_non_negative_int :: "lisp_value \<Rightarrow> string \<Rightarrow> i64 checked" where
  "require_non_negative_int v place =
     rbind (require_integer v place)
       (\<lambda>i. if sint i < 0 then Inl (Lisp_error (place @ '': expected non-negative integer'')) else Inr i)"

definition require_boolean :: "string \<Rightarrow> lisp_value \<Rightarrow> bool checked" where
  "require_boolean message v = (case v of VBool b \<Rightarrow> Inr b | _ \<Rightarrow> Inl (Lisp_error message))"

definition read_text_file :: "string \<Rightarrow> string \<Rightarrow> ('w, 'p) bt_world \<Rightarrow> string checked" where
  "read_text_file path place w =
     (case bw_files w path of
        None \<Rightarrow> Inl (Lisp_error (place @ '': failed to open file: '' @ path))
      | Some bytes \<Rightarrow> Inr (map char_of_byte bytes))"

text \<open>A stream on a path that opens does not fail while it is written.\<close>

definition write_bytes :: "string \<Rightarrow> bytes \<Rightarrow> ('w, 'p) bt_world \<Rightarrow> ('w, 'p) bt_world" where
  "write_bytes path bytes w = w\<lparr>bw_files := (bw_files w)(path \<mapsto> bytes)\<rparr>"

definition write_text_file :: "string \<Rightarrow> string \<Rightarrow> string \<Rightarrow> (unit, 'w, 'p) bt_step" where
  "write_text_file path text place w =
     (if \<not> bw_writable w path then (Inl (Lisp_error (place @ '': failed to open file for write: '' @ path)), w)
      else (Inr (), write_bytes path (map byte_of_char text) w))"

definition builtin_save :: "('w, 'p) bt_builtin" where
  "builtin_save args w =
     bbind (require_arity ''save'' args 2)
       (\<lambda>_. bbind (require_path_arg (args ! 0) ''save'')
         (\<lambda>path w. bbind (written (bw_objects w) (args ! 1))
           (\<lambda>text w.
              let v = args ! 1;
                  text = (if type_of v \<notin> {T_nil, T_boolean, T_integer, T_floating, T_string}
                          then ''(quote '' @ text @ '')'' else text)
              in ebind (write_text_file path text ''save'' w) (\<lambda>_ w. (Inr (VBool True), w))) w)) w"

subsection \<open>Definitions\<close>

definition store :: "bt_definition \<Rightarrow> (lisp_value, 'w, 'p) bt_step" where
  "store d w = (case store_definition d (bw_host w) of (handle, h) \<Rightarrow> (Inr (VOther T_bt_def handle), w\<lparr>bw_host := h\<rparr>))"

definition builtin_bt_compile :: "('w, 'p) bt_builtin" where
  "builtin_bt_compile args w =
     bbind (require_arity ''bt.compile'' args 1)
       (\<lambda>_ w. case compile_definition (args ! 0) of
          Inl m \<Rightarrow> (Inl (compile_failure ''bt.compile: '' m), w)
        | Inr d \<Rightarrow>
            bbind (rbind (written (bw_objects w) (args ! 0)) (\<lambda>source. attach_dsl_identity_metadata (bw_objects w) source d))
              store w) w"

definition with_definition ::
  "string \<Rightarrow> lisp_value \<Rightarrow> (bt_definition \<Rightarrow> ('a, 'w, 'p) bt_step) \<Rightarrow> ('a, 'w, 'p) bt_step" where
  "with_definition place v f =
     bbind (require_bt_def_handle v place)
       (\<lambda>handle w. case find_definition handle (bw_host w) of
          None \<Rightarrow> (Inl (Lisp_error (place @ '': unknown definition'')), w)
        | Some d \<Rightarrow> f d w)"

definition builtin_bt_to_dsl :: "('w, 'p) bt_builtin" where
  "builtin_bt_to_dsl args =
     bbind (require_arity ''bt.to-dsl'' args 1)
       (\<lambda>_. with_definition ''bt.to-dsl'' (args ! 0) (\<lambda>d w. (bt_definition_to_dsl d, w)))"

text \<open>The path is checked before the handle is looked up.\<close>

definition with_definition_and_path ::
  "string \<Rightarrow> lisp_value list \<Rightarrow> (bt_definition \<Rightarrow> string \<Rightarrow> ('a, 'w, 'p) bt_step) \<Rightarrow> ('a, 'w, 'p) bt_step" where
  "with_definition_and_path place args f =
     bbind (require_arity place args 2)
       (\<lambda>_. bbind (require_bt_def_handle (args ! 0) place)
         (\<lambda>_. bbind (require_path_arg (args ! 1) place)
           (\<lambda>path. with_definition place (args ! 0) (\<lambda>d. f d path))))"

definition builtin_bt_save_dsl :: "('w, 'p) bt_builtin" where
  "builtin_bt_save_dsl args =
     with_definition_and_path ''bt.save-dsl'' args
       (\<lambda>d path w. bbind (rbind (bt_definition_to_dsl d) (written (bw_objects w)))
         (\<lambda>text w. ebind (write_text_file path text ''bt.save-dsl'' w) (\<lambda>_ w. (Inr (VBool True), w))) w)"

definition builtin_bt_export_dot :: "('w, 'p) bt_builtin" where
  "builtin_bt_export_dot args =
     with_definition_and_path ''bt.export-dot'' args
       (\<lambda>d path w. bbind (rewrapped ''bt.export-dot'' (of_message (export_definition_dot (bw_writable w path) path d)))
         (\<lambda>text w. (Inr (VBool True), write_bytes path (map byte_of_char text) w)) w)"

definition parsed_one :: "string \<Rightarrow> lisp_value checked" where
  "parsed_one source =
     (case read_one source of
        Inl (Parse_error m incomplete) \<Rightarrow> Inl (Syntax_error m incomplete)
      | Inl Out_of_fuel \<Rightarrow> Inl No_fuel
      | Inr v \<Rightarrow> Inr v)"

definition builtin_bt_load_dsl :: "('w, 'p) bt_builtin" where
  "builtin_bt_load_dsl args =
     bbind (require_arity ''bt.load-dsl'' args 1)
       (\<lambda>_. bbind (require_path_arg (args ! 0) ''bt.load-dsl'')
         (\<lambda>path w. bbind (rewrapped (''bt.load-dsl: '' @ path)
              (rbind (read_text_file path ''bt.load-dsl'' w)
                (\<lambda>source. rbind (parsed_one source)
                  (\<lambda>form. rbind (of_message (compile_definition form))
                    (attach_dsl_identity_metadata (bw_objects w) source)))))
            store w))"

text \<open>
  A file that \<open>bt.save\<close> opens is truncated at once; when a limit makes the serialisation fail, the bytes written so far
  (\<open>bw_torn\<close>) stay in it.
\<close>

definition builtin_bt_save_binary :: "('w, 'p) bt_builtin" where
  "builtin_bt_save_binary args =
     with_definition_and_path ''bt.save'' args
       (\<lambda>d path w. case save_definition_binary (bw_writable w path) path d of
          Inl m \<Rightarrow> (Inl (Lisp_error (''bt.save: '' @ m)), if bw_writable w path then write_bytes path (bw_torn w d) w else w)
        | Inr bytes \<Rightarrow> (Inr (VBool True), write_bytes path bytes w))"

definition builtin_bt_load_binary :: "('w, 'p) bt_builtin" where
  "builtin_bt_load_binary args =
     bbind (require_arity ''bt.load'' args 1)
       (\<lambda>_. bbind (require_path_arg (args ! 0) ''bt.load'')
         (\<lambda>path w. bbind (rewrapped ''bt.load'' (of_message
              (load_definition_binary (bw_files w path \<noteq> None) path (case bw_files w path of Some b \<Rightarrow> b | None \<Rightarrow> []))))
            store w))"

subsection \<open>Blackboard values\<close>

definition require_bb_key :: "lisp_value \<Rightarrow> string \<Rightarrow> string checked" where
  "require_bb_key v place =
     (case v of
        VSym s \<Rightarrow> Inr s
      | VStr s \<Rightarrow> Inr s
      | _ \<Rightarrow> Inl (Lisp_error (place @ '': expected key as symbol or string'')))"

definition bb_number :: "string \<Rightarrow> lisp_value \<Rightarrow> double checked" where
  "bb_number place item =
     (case item of
        VInt i \<Rightarrow> Inr (fp_of_int (sint i))
      | VFloat d \<Rightarrow> Inr d
      | _ \<Rightarrow> Inl (Lisp_error (place @ '': list values for blackboard must be numeric'')))"

definition to_bb_value :: "lisp_value \<Rightarrow> string \<Rightarrow> bb_value checked" where
  "to_bb_value v place =
     (case v of
        VNil \<Rightarrow> Inr BB_nil
      | VBool b \<Rightarrow> Inr (BB_bool b)
      | VInt i \<Rightarrow> Inr (BB_int i)
      | VFloat d \<Rightarrow> Inr (BB_float d)
      | VSym s \<Rightarrow> Inr (BB_string s)
      | VStr s \<Rightarrow> Inr (BB_string s)
      | VOther T_image_handle i \<Rightarrow> Inr (BB_image (word_of_nat i))
      | VOther T_blob_handle i \<Rightarrow> Inr (BB_blob (word_of_nat i))
      | _ \<Rightarrow>
          (case vector_from_list v of
             Inr items \<Rightarrow> rbind (rmap (bb_number place) items) (\<lambda>out. Inr (BB_vec out))
           | Inl _ \<Rightarrow> Inl (Lisp_error (place @ '': unsupported blackboard value type''))))"

definition numeric_vector_to_lisp_list :: "double list \<Rightarrow> lisp_value" where
  "numeric_vector_to_lisp_list values = list_from_vector (map VFloat values)"

fun bb_value_to_lisp_value :: "bb_value \<Rightarrow> lisp_value" where
  "bb_value_to_lisp_value (BB_bool b) = VBool b"
| "bb_value_to_lisp_value (BB_int i) = VInt i"
| "bb_value_to_lisp_value (BB_float d) = VFloat d"
| "bb_value_to_lisp_value (BB_string s) = VStr s"
| "bb_value_to_lisp_value (BB_vec xs) = numeric_vector_to_lisp_list xs"
| "bb_value_to_lisp_value (BB_image i) = VOther T_image_handle (unat i)"
| "bb_value_to_lisp_value (BB_blob i) = VOther T_blob_handle (unat i)"
| "bb_value_to_lisp_value BB_nil = VNil"

subsection \<open>Instances\<close>

definition builtin_bt_new_instance :: "lisp_value list \<Rightarrow> ('w, 'p) bt_world \<Rightarrow> (lisp_exn + lisp_value) outcome \<times> ('w, 'p) bt_world" where
  "builtin_bt_new_instance args w =
     (case rbind (require_arity ''bt.new-instance'' args 1) (\<lambda>_. require_bt_def_handle (args ! 0) ''bt.new-instance'') of
        Inl e \<Rightarrow> (Ret (Inl e), w)
      | Inr handle \<Rightarrow>
          (case create_instance handle (bw_host w) of
             (Ret i, h) \<Rightarrow> (Ret (Inr (VOther T_bt_instance i)), w\<lparr>bw_host := h\<rparr>)
           | (Throw e, h) \<Rightarrow> (Ret (Inl (rewrap ''bt.new-instance'' (Foreign e))), w\<lparr>bw_host := h\<rparr>)
           | (Undef, h) \<Rightarrow> (Undef, w\<lparr>bw_host := h\<rparr>)
           | (Diverge, h) \<Rightarrow> (Diverge, w\<lparr>bw_host := h\<rparr>)))"

text \<open>The inputs are stored one by one, for the tick that follows; an error leaves the ones before it stored.\<close>

definition tick_input :: "lisp_value \<Rightarrow> (string \<times> bb_value) checked" where
  "tick_input item =
     (case vector_from_list item of
        Inl _ \<Rightarrow> Inl (Lisp_error ''bt.tick: each entry must be a 2-item list'')
      | Inr pair \<Rightarrow>
          if length pair \<noteq> 2 then Inl (Lisp_error ''bt.tick: each entry must contain exactly key and value'')
          else rbind (require_bb_key (pair ! 0) ''bt.tick'')
            (\<lambda>key. rbind (to_bb_value (pair ! 1) ''bt.tick'') (\<lambda>v. Inr (key, v))))"

definition put_input :: "nat \<Rightarrow> string \<times> bb_value \<Rightarrow> ('w, 'p) runtime_host \<Rightarrow> ('w, 'p) runtime_host" where
  "put_input handle entry h =
     (case find_instance handle h of
        None \<Rightarrow> h
      | Some (inst, tr) \<Rightarrow>
          h\<lparr>rh_instances := (rh_instances h)(handle \<mapsto>
              (inst\<lparr>in_bb := bb_store (fst entry) (snd entry) (Suc (in_tick_index inst)) (rh_clock h (rh_clock_reads h)) 0
                 ''bt.tick'' (in_bb inst)\<rparr>, tr)),
            rh_clock_reads := Suc (rh_clock_reads h)\<rparr>)"

fun apply_inputs :: "nat \<Rightarrow> lisp_value list \<Rightarrow> ('w, 'p) runtime_host \<Rightarrow> (lisp_exn + unit) \<times> ('w, 'p) runtime_host" where
  "apply_inputs handle [] h = (Inr (), h)"
| "apply_inputs handle (item # items) h =
     (case tick_input item of
        Inl e \<Rightarrow> (Inl e, h)
      | Inr entry \<Rightarrow> apply_inputs handle items (put_input handle entry h))"

definition apply_tick_blackboard_inputs ::
  "nat \<Rightarrow> lisp_value \<Rightarrow> ('w, 'p) runtime_host \<Rightarrow> (lisp_exn + unit) \<times> ('w, 'p) runtime_host" where
  "apply_tick_blackboard_inputs handle entries h =
     (case vector_from_list entries of
        Inl _ \<Rightarrow> (Inl (Lisp_error ''bt.tick: expected list of key/value pairs''), h)
      | Inr items \<Rightarrow> apply_inputs handle items h)"

definition tick_inputs :: "nat \<Rightarrow> lisp_value list \<Rightarrow> ('w, 'p) runtime_host \<Rightarrow> (lisp_exn + unit) \<times> ('w, 'p) runtime_host" where
  "tick_inputs handle args h =
     (if length args \<noteq> 2 then (Inr (), h)
      else if find_instance handle h = None then (Inl (Lisp_error ''bt.tick: unknown instance''), h)
      else apply_tick_blackboard_inputs handle (args ! 1) h)"

definition status_to_symbol :: "status \<Rightarrow> lisp_value" where
  "status_to_symbol st = VSym (status_name st)"

definition builtin_bt_tick ::
  "nat \<Rightarrow> nat \<Rightarrow> lisp_value list \<Rightarrow> ('w, 'p) bt_world \<Rightarrow> (lisp_exn + lisp_value) outcome \<times> ('w, 'p) bt_world" where
  "builtin_bt_tick hf k args w =
     (if length args \<noteq> 1 \<and> length args \<noteq> 2 then (Ret (Inl (Lisp_error ''bt.tick: expected 1 or 2 arguments'')), w)
      else case require_bt_instance_handle (args ! 0) ''bt.tick'' of
        Inl e \<Rightarrow> (Ret (Inl e), w)
      | Inr handle \<Rightarrow>
          (case tick_inputs handle args (bw_host w) of
             (Inl e, h) \<Rightarrow> (Ret (Inl (rewrap ''bt.tick'' e)), w\<lparr>bw_host := h\<rparr>)
           | (Inr _, h) \<Rightarrow>
               (case tick_instance hf k handle h of
                  (Ret st, h) \<Rightarrow> (Ret (Inr (status_to_symbol st)), w\<lparr>bw_host := h\<rparr>)
                | (Throw e, h) \<Rightarrow> (Ret (Inl (rewrap ''bt.tick'' (Foreign e))), w\<lparr>bw_host := h\<rparr>)
                | (Undef, h) \<Rightarrow> (Undef, w\<lparr>bw_host := h\<rparr>)
                | (Diverge, h) \<Rightarrow> (Diverge, w\<lparr>bw_host := h\<rparr>))))"

definition builtin_bt_reset :: "('w, 'p) bt_builtin" where
  "builtin_bt_reset args =
     bbind (require_arity ''bt.reset'' args 1)
       (\<lambda>_. bbind (require_bt_instance_handle (args ! 0) ''bt.reset'')
         (\<lambda>handle w. case host_reset_instance handle (bw_host w) of
            (Throw e, h) \<Rightarrow> (Inl (rewrap ''bt.reset'' (Foreign e)), w\<lparr>bw_host := h\<rparr>)
          | (_, h) \<Rightarrow> (Inr VNil, w\<lparr>bw_host := h\<rparr>)))"

definition builtin_bt_status_to_symbol :: "lisp_value list \<Rightarrow> lisp_value checked" where
  "builtin_bt_status_to_symbol args =
     with_arity ''bt.status->symbol'' args 1
       (case args ! 0 of
          VSym name \<Rightarrow>
            if name \<noteq> ''success'' \<and> name \<noteq> ''failure'' \<and> name \<noteq> ''running''
            then Inl (Lisp_error ''bt.status->symbol: expected success/failure/running'') else Inr (VSym name)
        | _ \<Rightarrow> Inl (Lisp_error ''bt.status->symbol: expected symbol''))"

text \<open>Dumps throw on an unknown handle; the exception passes through as it is.\<close>

definition dumped :: "string outcome \<Rightarrow> lisp_value checked" where
  "dumped r = (case r of Ret s \<Rightarrow> Inr (VStr s) | Throw e \<Rightarrow> Inl (Foreign e) | _ \<Rightarrow> Inl No_fuel)"

definition builtin_bt_stats :: "('w, 'p) bt_builtin" where
  "builtin_bt_stats args =
     bbind (require_arity ''bt.stats'' args 1)
       (\<lambda>_. bbind (require_bt_instance_handle (args ! 0) ''bt.stats'')
         (\<lambda>handle w. (dumped (dump_instance_stats handle (bw_host w)), w)))"

definition builtin_bt_blackboard_dump :: "('w, 'p) bt_builtin" where
  "builtin_bt_blackboard_dump args =
     bbind (require_arity ''bt.blackboard.dump'' args 1)
       (\<lambda>_. bbind (require_bt_instance_handle (args ! 0) ''bt.blackboard.dump'')
         (\<lambda>handle w. (dumped (dump_instance_blackboard handle (bw_host w)), w)))"

definition builtin_bt_blackboard_get :: "('w, 'p) bt_builtin" where
  "builtin_bt_blackboard_get args =
     bbind (if length args \<noteq> 2 \<and> length args \<noteq> 3 then Inl (Lisp_error ''bt.blackboard.get: expected 2 or 3 arguments'') else Inr ())
       (\<lambda>_. bbind (require_bt_instance_handle (args ! 0) ''bt.blackboard.get'')
         (\<lambda>handle. bbind (require_bb_key (args ! 1) ''bt.blackboard.get'')
           (\<lambda>key w. case find_instance handle (bw_host w) of
              None \<Rightarrow> (Inl (Lisp_error ''bt.blackboard.get: unknown instance''), w)
            | Some (inst, _) \<Rightarrow>
                (case bb_lookup key (in_bb inst) of
                   None \<Rightarrow> (Inr (if length args = 3 then args ! 2 else VNil), w)
                 | Some e \<Rightarrow> (Inr (bb_value_to_lisp_value (be_value e)), w)))))"

definition builtin_bt_set_tick_budget_ms :: "lisp_value list \<Rightarrow> ('w, 'p) bt_world \<Rightarrow> (lisp_exn + lisp_value) outcome \<times> ('w, 'p) bt_world" where
  "builtin_bt_set_tick_budget_ms args w =
     (case rbind (require_arity ''bt.set-tick-budget-ms'' args 2)
         (\<lambda>_. require_bt_instance_handle (args ! 0) ''bt.set-tick-budget-ms'') of
        Inl e \<Rightarrow> (Ret (Inl e), w)
      | Inr handle \<Rightarrow>
          (case args ! 1 of
             VInt ms \<Rightarrow>
               (case find_instance handle (bw_host w) of
                  None \<Rightarrow> (Ret (Inl (Lisp_error ''bt.set-tick-budget-ms: unknown instance'')), w)
                | Some (inst, tr) \<Rightarrow>
                    (case set_tick_budget_ms ms inst of
                       Ret inst \<Rightarrow> (Ret (Inr VNil), with_host (\<lambda>h. h\<lparr>rh_instances := (rh_instances h)(handle \<mapsto> (inst, tr))\<rparr>) w)
                     | Throw e \<Rightarrow> (Ret (Inl (Foreign e)), w)
                     | Undef \<Rightarrow> (Undef, w)
                     | Diverge \<Rightarrow> (Diverge, w)))
           | _ \<Rightarrow> (Ret (Inl (Lisp_error ''bt.set-tick-budget-ms: expected integer milliseconds'')), w)))"

subsection \<open>Event log\<close>

definition with_events :: "(event_log \<Rightarrow> event_log) \<Rightarrow> (lisp_value, 'w, 'p) bt_step" where
  "with_events f w = (Inr VNil, with_host (\<lambda>h. h\<lparr>rh_events := f (rh_events h)\<rparr>) w)"

definition builtin_events_enable :: "('w, 'p) bt_builtin" where
  "builtin_events_enable args =
     bbind (require_arity ''events.enable'' args 1)
       (\<lambda>_. bbind (require_boolean ''events.enable: expected boolean'' (args ! 0)) (\<lambda>b. with_events (el_set_enabled b)))"

definition builtin_events_set_path :: "('w, 'p) bt_builtin" where
  "builtin_events_set_path args =
     bbind (require_arity ''events.set-path'' args 1)
       (\<lambda>_. case args ! 0 of
          VStr path \<Rightarrow>
            (\<lambda>w. bbind (of_message (el_set_path path (rh_events (bw_host w))))
              (\<lambda>ev. with_events (\<lambda>_. el_set_file_enabled True ev)) w)
        | _ \<Rightarrow> (\<lambda>w. (Inl (Lisp_error ''events.set-path: expected string path''), w)))"

definition builtin_events_set_ring_size :: "('w, 'p) bt_builtin" where
  "builtin_events_set_ring_size args =
     bbind (require_arity ''events.set-ring-size'' args 1)
       (\<lambda>_. bbind (require_non_negative_int (args ! 0) ''events.set-ring-size'')
         (\<lambda>raw. with_events (el_set_ring_capacity (nat (sint raw)))))"

definition builtin_events_set_flush_each_message :: "('w, 'p) bt_builtin" where
  "builtin_events_set_flush_each_message args =
     bbind (require_arity ''events.set-flush-each-message'' args 1)
       (\<lambda>_. bbind (require_boolean ''events.set-flush-each-message: expected boolean'' (args ! 0))
         (\<lambda>b. with_events (\<lambda>ev. ev\<lparr>el_flush_each_message := b\<rparr>)))"

definition builtin_events_enable_tick_audit :: "('w, 'p) bt_builtin" where
  "builtin_events_enable_tick_audit args =
     bbind (require_arity ''events.enable-tick-audit'' args 1)
       (\<lambda>_. bbind (require_boolean ''events.enable-tick-audit: expected boolean'' (args ! 0))
         (\<lambda>b. with_events (\<lambda>ev. ev\<lparr>el_tick_audit_enabled := b\<rparr>)))"

definition events_dump_list :: "nat \<Rightarrow> ('w, 'p) bt_world \<Rightarrow> lisp_value" where
  "events_dump_list max_count w = list_from_vector (map VStr (el_snapshot max_count (rh_events (bw_host w))))"

definition builtin_events_dump :: "('w, 'p) bt_builtin" where
  "builtin_events_dump args =
     bbind (if length args > 1 then Inl (Lisp_error ''events.dump: expected 0 or 1 arguments'')
            else if args \<noteq> [] then rbind (require_non_negative_int (args ! 0) ''events.dump'') (\<lambda>raw. Inr (nat (sint raw)))
            else Inr 0)
       (\<lambda>max_count w. (Inr (events_dump_list max_count w), w))"

definition builtin_events_snapshot_bb :: "('w, 'p) bt_builtin" where
  "builtin_events_snapshot_bb args =
     bbind (if length args > 1 then Inl (Lisp_error ''events.snapshot-bb: expected 0 or 1 arguments'')
            else if args \<noteq> []
              then require_boolean ''events.snapshot-bb: expected boolean when argument is provided'' (args ! 0)
            else Inr False)
       (\<lambda>full. with_events (request_snapshot_bb full))"

definition builtin_hash64 :: "lisp_value list \<Rightarrow> lisp_value checked" where
  "builtin_hash64 args =
     with_arity ''hash64'' args 1
       (case args ! 0 of
          VStr s \<Rightarrow> make_integer (fnv1a_64 s AND 0x7fffffffffffffff)
        | VSym s \<Rightarrow> make_integer (fnv1a_64 s AND 0x7fffffffffffffff)
        | _ \<Rightarrow> Inl (Lisp_error ''hash64: expected string or symbol''))"

end
