(* ===== verification/Bt_Guarantees.thy ===== *)
theory Bt_Guarantees
  imports Builtins_Bt Host_Guarantees
begin

text \<open>
  What a Lisp program gets from the behaviour-tree builtins: a tree it compiles, instantiates and ticks answers with the
  symbols of the documented semantics, and a tree saved as text is loaded as the same tree, as long as its names survive
  being written as symbols.
\<close>

subsection \<open>Compiling stores the tree\<close>

lemma to_dsl_nodes: "df_nodes d' = df_nodes d \<Longrightarrow> df_root d' = df_root d \<Longrightarrow> bt_definition_to_dsl d' = bt_definition_to_dsl d"
  by (simp add: bt_definition_to_dsl_def)

lemma tree_upto_nodes: "df_nodes d' = df_nodes d \<Longrightarrow> tree_upto d' k i = tree_upto d k i"
  by (induction k arbitrary: i) (simp_all add: Let_def)

lemma tree_of_nodes: "df_nodes d' = df_nodes d \<Longrightarrow> tree_of d' i = tree_of d i"
  unfolding tree_of_def by (rule tree_upto_nodes)

lemma attach_keeps_tree:
  assumes "attach_dsl_identity_metadata info source d = Inr d'"
  shows "df_nodes d' = df_nodes d" "df_root d' = df_root d"
    "\<exists>canonical. bt_definition_to_dsl d = Inr canonical \<and> written info canonical = Inr (df_canonical_dsl d')"
    "df_canonical_dsl_hash d' = hash64_hex (df_canonical_dsl d')"
  using assms by (auto simp: attach_dsl_identity_metadata_def)

lemma compile_stores:
  assumes "builtin_bt_compile [form] w = (Inr v, w0)" "compile_definition form = Inr d"
  obtains source d' where "attach_dsl_identity_metadata (bw_objects w) source d = Inr d'"
    "v = VOther T_bt_def (rh_next_definition_handle (bw_host w))" "w0 = w\<lparr>bw_host := snd (store_definition d' (bw_host w))\<rparr>"
  using assms by (auto simp: builtin_bt_compile_def require_arity_def bbind_def store_def store_definition_def Let_def
      split: sum.splits)

lemma find_stored [simp]:
  "find_definition (rh_next_definition_handle h) (snd (store_definition d h)) = Some d"
  "m \<noteq> rh_next_definition_handle h \<Longrightarrow> find_definition m (snd (store_definition d h)) = find_definition m h"
  "rh_next_definition_handle (snd (store_definition d h)) = Suc (rh_next_definition_handle h)"
  by (simp_all add: find_definition_def store_definition_def Let_def)

subsection \<open>A session\<close>

fun lisp_ticks :: "nat \<Rightarrow> nat \<Rightarrow> lisp_value \<Rightarrow> nat \<Rightarrow> ('w, 'p) bt_world \<Rightarrow> (lisp_exn + lisp_value) outcome list" where
  "lisp_ticks hf k inst 0 w = []"
| "lisp_ticks hf k inst (Suc n) w = (case builtin_bt_tick hf k [inst] w of (r, w) \<Rightarrow> r # lisp_ticks hf k inst n w)"

fun lisp_answer :: "status outcome \<Rightarrow> (lisp_exn + lisp_value) outcome" where
  "lisp_answer (Ret st) = Ret (Inr (status_to_symbol st))"
| "lisp_answer (Throw e) = Ret (Inl (rewrap ''bt.tick'' (Foreign e)))"
| "lisp_answer Undef = Undef"
| "lisp_answer Diverge = Diverge"

lemma bt_tick_host:
  "builtin_bt_tick hf k [VOther T_bt_instance i] w =
     (case tick_instance hf k i (bw_host w) of (r, h) \<Rightarrow> (lisp_answer r, w\<lparr>bw_host := h\<rparr>))"
  by (auto simp: builtin_bt_tick_def require_bt_instance_handle_def require_handle_def tick_inputs_def
      split: prod.split outcome.split)

lemma lisp_ticks_host:
  "lisp_ticks hf k (VOther T_bt_instance i) n w =
     map lisp_answer (answers_of i (host_ticks hf k (replicate n i) (bw_host w)))"
  by (induction n arbitrary: w) (simp_all add: answers_of_def bt_tick_host Let_def split: prod.split)

lemma count_list_replicate: "count_list (replicate n i) i = n"
  by (induction n) simp_all

text \<open>
  A session from Lisp follows the documented semantics: when \<open>(bt.compile form)\<close> gives a definition, \<open>(bt.new-instance def)\<close> gives an
  instance, and any number of calls \<open>(bt.tick inst)\<close> return the symbols of the statuses that the documented machine
  gives for the compiled form, whatever the leaves answer.
\<close>

theorem lisp_session_documented:
  assumes "builtin_bt_compile [form] w = (Inr def, w0)" "compile_definition form = Inr d"
    and sound: "\<forall>d'. same_tree d d' \<longrightarrow> sound_host d' (tick_host (bw_host w)) hf k orc"
  shows "\<exists>inst w1. builtin_bt_new_instance [def] w0 = (Ret (Inr inst), w1) \<and>
    (\<forall>n. lisp_ticks hf k inst n w1 =
       map (\<lambda>st. Ret (Inr (VSym (status_name st)))) (doc_run orc (tree_of d (df_root d)) 1 n no_cells))"
proof -
  let ?n = "rh_next_definition_handle (bw_host w)"
  obtain source d' where d': "attach_dsl_identity_metadata (bw_objects w) source d = Inr d'" "def = VOther T_bt_def ?n"
      "w0 = w\<lparr>bw_host := snd (store_definition d' (bw_host w))\<rparr>"
    by (rule compile_stores [OF assms(1, 2)])
  note same = attach_keeps_tree(1, 2) [OF d'(1)]
  have "tick_host (bw_host w0) = tick_host (bw_host w)" by (simp add: d'(3))
  moreover have "find_definition ?n (bw_host w0) = Some d'" by (simp add: d'(3))
  ultimately obtain i h' where i: "create_instance ?n (bw_host w0) = (Ret i, h')"
      "\<And>hs. answers_of i (host_ticks hf k hs h') =
         map Ret (doc_run orc (tree_of d' (df_root d')) 1 (count_list hs i) no_cells)"
    using new_instance_answers [of d' "bw_host w0" hf k orc ?n] sound same by (auto simp: same_tree_def)
  have "builtin_bt_new_instance [def] w0 = (Ret (Inr (VOther T_bt_instance i)), w0\<lparr>bw_host := h'\<rparr>)"
    using i(1) by (simp add: builtin_bt_new_instance_def require_arity_def require_bt_def_handle_def require_handle_def d'(2))
  moreover have "lisp_ticks hf k (VOther T_bt_instance i) n (w0\<lparr>bw_host := h'\<rparr>) =
      map (\<lambda>st. Ret (Inr (VSym (status_name st)))) (doc_run orc (tree_of d (df_root d)) 1 n no_cells)" for n
    using i(2) [of "replicate n i"] same(2)
    by (simp add: lisp_ticks_host count_list_replicate tree_of_nodes [OF same(1)] status_to_symbol_def)
  ultimately show ?thesis by blast
qed

definition demo_bt_world :: "(gc_heap, unit) bt_world" where
  "demo_bt_world = \<lparr>bw_host = shipped_host, bw_files = Map.empty, bw_writable = (\<lambda>_. True), bw_torn = (\<lambda>_. []), bw_objects = no_objects\<rparr>"

lemma demo_dsl: "bt_definition_to_dsl demo_compiled = Inr demo_form"
  by (simp add: bt_definition_to_dsl_def demo_nodes dsl_items_def node_default_def demo_form_def eval_nat_numeral)

lemma demo_written: "reads_back demo_form"
  by code_simp

lemma demo_lisp_compile: "\<exists>w0. builtin_bt_compile [demo_form] demo_bt_world = (Inr (VOther T_bt_def 1), w0)"
proof -
  obtain shown where "written no_objects demo_form = Inr shown"
    using written_read_back [OF demo_written, of no_objects] by (auto simp: written_def)
  then show ?thesis
    by (simp add: builtin_bt_compile_def require_arity_def bbind_def demo_form_compiles attach_dsl_identity_metadata_def demo_dsl
        demo_bt_world_def store_def store_definition_def Let_def shipped_host_def runtime_host_new_def)
qed

theorem lisp_session_documented_witness:
  "\<exists>w0 inst w1. builtin_bt_compile [demo_form] demo_bt_world = (Inr (VOther T_bt_def 1), w0) \<and>
    builtin_bt_new_instance [VOther T_bt_def 1] w0 = (Ret (Inr inst), w1) \<and>
    (\<forall>n. lisp_ticks 9 3 inst n w1 =
       map (\<lambda>st. Ret (Inr (VSym (status_name st))))
         (doc_run (\<lambda>_ _. Success) (tree_of demo_compiled (df_root demo_compiled)) 1 n no_cells))"
proof -
  obtain w0 where w0: "builtin_bt_compile [demo_form] demo_bt_world = (Inr (VOther T_bt_def 1), w0)"
    using demo_lisp_compile by blast
  have "\<forall>d'. same_tree demo_compiled d' \<longrightarrow> sound_host d' (tick_host (bw_host demo_bt_world)) 9 3 (\<lambda>_ _. Success)"
    using demo_sound by (simp add: demo_bt_world_def)
  from lisp_session_documented [OF w0 demo_form_compiles this] w0 show ?thesis by blast
qed

subsection \<open>Trees in text files\<close>

lemma text_file_read_back: "map char_of_byte (map byte_of_char s) = s"
  by (simp add: comp_def)

text \<open>
  C16. \<open>bt.save-dsl\<close> and \<open>bt.load-dsl\<close> keep a tree: when the form of a compiled tree can be read back from its text (its names look like
  symbols and its numbers have a readable text), saving the tree and loading the file give a second definition with the same
  nodes, root, canonical text and hash, and the first one is still there.
\<close>

theorem dsl_file_roundtrip:
  assumes "builtin_bt_compile [form] w = (Inr def, w0)" "compile_definition form = Inr d" "length (df_nodes d) \<le> 2 ^ 32"
    "bt_definition_to_dsl d = Inr canonical" "reads_back canonical" "bw_writable w path"
  shows "\<exists>w1 w2 n n' d1 d2. builtin_bt_save_dsl [def, VStr path] w0 = (Inr (VBool True), w1) \<and>
    builtin_bt_load_dsl [VStr path] w1 = (Inr (VOther T_bt_def n'), w2) \<and> def = VOther T_bt_def n \<and> n \<noteq> n' \<and>
    find_definition n (bw_host w2) = Some d1 \<and> find_definition n' (bw_host w2) = Some d2 \<and>
    df_nodes d1 = df_nodes d \<and> df_nodes d2 = df_nodes d \<and> df_root d1 = df_root d \<and> df_root d2 = df_root d \<and>
    df_canonical_dsl d2 = df_canonical_dsl d1 \<and> df_canonical_dsl_hash d2 = df_canonical_dsl_hash d1"
proof -
  let ?n = "rh_next_definition_handle (bw_host w)" and ?info = "bw_objects w"
  obtain source d1 where d1: "attach_dsl_identity_metadata ?info source d = Inr d1" "def = VOther T_bt_def ?n"
      "w0 = w\<lparr>bw_host := snd (store_definition d1 (bw_host w))\<rparr>"
    by (rule compile_stores [OF assms(1, 2)])
  obtain shown where shown: "written ?info canonical = Inr shown" "read_one shown = Inr canonical"
    using written_read_back [OF assms(5), of ?info] by (auto simp: written_def)
  have again: "compile_definition canonical = Inr d" using to_dsl_back [OF assms(2, 3)] assms(4) by simp
  define w1 where "w1 = write_bytes path (map byte_of_char shown) w0"
  have same: "bt_definition_to_dsl d1 = Inr canonical"
    using to_dsl_nodes [OF attach_keeps_tree(1, 2) [OF d1(1)]] assms(4) by simp
  have save: "builtin_bt_save_dsl [def, VStr path] w0 = (Inr (VBool True), w1)"
    using assms(6) shown(1) same
    by (simp add: builtin_bt_save_dsl_def with_definition_and_path_def with_definition_def require_arity_def bbind_def
        require_bt_def_handle_def require_handle_def require_path_arg_def write_text_file_def ebind_def d1(2, 3) w1_def)
  define d2 where "d2 = d\<lparr>df_source_hash := hash64_hex shown, df_canonical_dsl := shown, df_canonical_dsl_hash := hash64_hex shown\<rparr>"
  have attach: "attach_dsl_identity_metadata ?info shown d = Inr d2"
    using assms(4) shown(1) by (simp add: attach_dsl_identity_metadata_def d2_def)
  have "builtin_bt_load_dsl [VStr path] w1 = store d2 w1"
    using shown(2) again attach
    by (simp add: builtin_bt_load_dsl_def require_arity_def require_path_arg_def bbind_def read_text_file_def w1_def write_bytes_def
        text_file_read_back parsed_one_def of_message_def rewrapped_def d1(3) del: map_map)
  moreover have "store d2 w1 = (Inr (VOther T_bt_def (Suc ?n)), w1\<lparr>bw_host := snd (store_definition d2 (bw_host w1))\<rparr>)"
    by (simp add: store_def store_definition_def Let_def w1_def write_bytes_def d1(3))
  moreover have "bw_host w1 = snd (store_definition d1 (bw_host w))" by (simp add: w1_def write_bytes_def d1(3))
  moreover have "df_canonical_dsl d1 = shown" "df_canonical_dsl_hash d1 = hash64_hex shown"
    using attach_keeps_tree(3, 4) [OF d1(1)] assms(4) shown(1) by auto
  moreover have "find_definition (Suc ?n) (snd (store_definition d2 (snd (store_definition d1 (bw_host w))))) = Some d2"
    using find_stored(1) [of "snd (store_definition d1 (bw_host w))" d2] by simp
  ultimately show ?thesis
    using save attach_keeps_tree(1, 2) [OF d1(1)]
    by (intro exI [of _ w1] exI [of _ "w1\<lparr>bw_host := snd (store_definition d2 (bw_host w1))\<rparr>"] exI [of _ ?n] exI [of _ "Suc ?n"]
        exI [of _ d1] exI [of _ d2]) (simp add: d1(2) d2_def)
qed

theorem dsl_file_roundtrip_witness:
  "\<exists>w0 w1 w2 n'. builtin_bt_compile [demo_form] demo_bt_world = (Inr (VOther T_bt_def 1), w0) \<and>
    builtin_bt_save_dsl [VOther T_bt_def 1, VStr ''tree.lisp''] w0 = (Inr (VBool True), w1) \<and>
    builtin_bt_load_dsl [VStr ''tree.lisp''] w1 = (Inr (VOther T_bt_def n'), w2) \<and> n' \<noteq> 1"
proof -
  obtain w0 where w0: "builtin_bt_compile [demo_form] demo_bt_world = (Inr (VOther T_bt_def 1), w0)"
    using demo_lisp_compile by blast
  have "bw_writable demo_bt_world ''tree.lisp''" "length (df_nodes demo_compiled) \<le> 2 ^ 32"
    by (simp_all add: demo_bt_world_def demo_nodes)
  from dsl_file_roundtrip [OF w0 demo_form_compiles this(2) demo_dsl demo_written this(1)] w0 show ?thesis by fastforce
qed

definition quoted_leaf :: lisp_value where
  "quoted_leaf = list_from_vector [VSym ''act'', VStr ''go home'']"

text \<open>
  Names that are not symbols do not survive: a leaf may be named by a string, but \<open>bt.to-dsl\<close> writes the name as a symbol without
  quoting it. The tree \<open>(act "go home")\<close> is saved as \<open>(act go home)\<close>, which loads as the action \<open>go\<close> with the argument \<open>home\<close>.
\<close>

theorem dsl_loses_names:
  "\<exists>d text form d'. compile_definition quoted_leaf = Inr d \<and> rbind (bt_definition_to_dsl d) (written no_objects) = Inr text \<and>
    read_one text = Inr form \<and> compile_definition form = Inr d' \<and>
    nd_leaf_name (df_nodes d ! 0) = ''go home'' \<and> nd_leaf_name (df_nodes d' ! 0) = ''go'' \<and>
    map bt_arg_to_lisp_value (nd_args (df_nodes d' ! 0)) = [VSym ''home'']"
proof -
  let ?n = "node_default\<lparr>nd_kind := K_act, nd_id := 0, nd_leaf_name := ''go home''\<rparr>"
  let ?m = "node_default\<lparr>nd_kind := K_act, nd_id := 0, nd_leaf_name := ''go'', nd_args := [arg_default\<lparr>ar_kind := A_symbol, ar_text := ''home''\<rparr>]\<rparr>"
  have "compile_definition quoted_leaf = Inr (finish 0 [?n])"
    by (simp add: quoted_leaf_def compile_definition_def compile_node.simps compile_items.simps list_from_vector_def is_cons_def
        composite_kind_def compile_leaf_def leaf_name_of_def emit_node_def node_default_def)
  moreover have "bt_definition_to_dsl (finish 0 [?n]) = Inr (list_from_vector [VSym ''act'', VSym ''go home''])"
    by (simp add: bt_definition_to_dsl_def finish_def definition_default_def dsl_items_def node_default_def)
  moreover have "written no_objects (list_from_vector [VSym ''act'', VSym ''go home'']) = Inr ''(act go home)''"
    by code_simp
  moreover have "read_one ''(act go home)'' = Inr (list_from_vector [VSym ''act'', VSym ''go'', VSym ''home''])"
    by code_simp
  moreover have "compile_definition (list_from_vector [VSym ''act'', VSym ''go'', VSym ''home'']) = Inr (finish 0 [?m])"
    by (simp add: compile_definition_def compile_node.simps compile_items.simps list_from_vector_def is_cons_def
        composite_kind_def compile_leaf_def leaf_name_of_def compile_arg_def emit_node_def node_default_def)
  ultimately show ?thesis
    by (intro exI [of _ "finish 0 [?n]"] exI [of _ "''(act go home)''"]
        exI [of _ "list_from_vector [VSym ''act'', VSym ''go'', VSym ''home'']"] exI [of _ "finish 0 [?m]"])
      (simp add: finish_def definition_default_def node_default_def bt_arg_to_lisp_value_def)
qed

end
