(* ===== verification/Builtins_Json.thy ===== *)
theory Builtins_Json
  imports Builtins_Data
begin

text \<open>
  \<open>json.encode\<close> and \<open>json.decode\<close> (\<open>src/builtins.cpp\<close>). Encoding follows the references of a value to vectors and maps, and a vector may hold
  itself, so it may never end: \<open>value_to_json\<close> takes the depth to which it may descend and is \<open>Diverge\<close> beyond. The parser is a function of the
  rest of the text; it takes a number of calls that \<open>json_calls\<close> shows to be enough. A decoded object is a new map.
\<close>

subsection \<open>Encoding\<close>

definition json_text :: "string \<Rightarrow> string" where
  "json_text s = quoted (escape_text s)"

fun map_key_to_json_object_key :: "map_key \<Rightarrow> string" where
  "map_key_to_json_object_key (MK_symbol s) = s"
| "map_key_to_json_object_key (MK_string s) = s"
| "map_key_to_json_object_key (MK_integer i) = i64_str i"
| "map_key_to_json_object_key (MK_floating d) = fp_str d"

definition orbind :: "('e + 'a) outcome \<Rightarrow> ('a \<Rightarrow> ('e + 'b) outcome) \<Rightarrow> ('e + 'b) outcome" where
  "orbind r f =
     (case r of Ret (Inl e) \<Rightarrow> Ret (Inl e) | Ret (Inr x) \<Rightarrow> f x | Throw x \<Rightarrow> Throw x | Undef \<Rightarrow> Undef | Diverge \<Rightarrow> Diverge)"

primrec each_in_order :: "('a \<Rightarrow> ('e + 'b) outcome) \<Rightarrow> 'a list \<Rightarrow> ('e + 'b list) outcome" where
  "each_in_order f [] = Ret (Inr [])"
| "each_in_order f (x # xs) = orbind (f x) (\<lambda>y. orbind (each_in_order f xs) (\<lambda>ys. Ret (Inr (y # ys))))"

definition json_array :: "string list \<Rightarrow> string" where
  "json_array items = ''['' @ comma_join items @ '']''"

definition json_object :: "(string \<times> string) list \<Rightarrow> string" where
  "json_object members = ''{'' @ comma_join (map (\<lambda>(k, v). json_text k @ '':'' @ v) members) @ ''}''"

definition handle_json :: "string \<Rightarrow> nat \<Rightarrow> string" where
  "handle_json kind i = json_object [(''type'', json_text kind), (''id'', nat_str i)]"

fun value_to_json :: "nat \<Rightarrow> lisp_objects \<Rightarrow> lisp_value \<Rightarrow> (lisp_exn + string) outcome" where
  "value_to_json 0 ob v = Diverge"
| "value_to_json (Suc depth) ob v =
     (case v of
        VNil \<Rightarrow> Ret (Inr ''null'')
      | VBool b \<Rightarrow> Ret (Inr (bool_json b))
      | VInt i \<Rightarrow> Ret (Inr (i64_str i))
      | VFloat d \<Rightarrow>
          if \<not> fp_is_finite d then Ret (Inl (Lisp_error ''json.encode: non-finite floats are not supported''))
          else Ret (Inr (fp_str d))
      | VStr s \<Rightarrow> Ret (Inr (json_text s))
      | VSym s \<Rightarrow> Ret (Inr (json_text s))
      | VCons _ _ \<Rightarrow>
          (case vector_from_list v of
             Inl _ \<Rightarrow> Ret (Inl (Lisp_error ''json.encode: expected proper list''))
           | Inr items \<Rightarrow> orbind (each_in_order (value_to_json depth ob) items) (\<lambda>texts. Ret (Inr (json_array texts))))
      | VOther T_vec i \<Rightarrow>
          orbind (each_in_order (value_to_json depth ob) (lo_vecs ob i)) (\<lambda>texts. Ret (Inr (json_array texts)))
      | VOther T_map i \<Rightarrow>
          orbind (each_in_order (\<lambda>(k, mapped). orbind (value_to_json depth ob mapped)
              (\<lambda>text. Ret (Inr (map_key_to_json_object_key k, text)))) (lo_maps ob i))
            (\<lambda>members. Ret (Inr (json_object members)))
      | VOther T_image_handle i \<Rightarrow> Ret (Inr (handle_json ''image_handle'' i))
      | VOther T_blob_handle i \<Rightarrow> Ret (Inr (handle_json ''blob_handle'' i))
      | VOther t i \<Rightarrow> Ret (Inl (Lisp_error (''json.encode: unsupported value type: '' @ type_name t))))"

definition builtin_json_encode :: "nat \<Rightarrow> lisp_objects \<Rightarrow> lisp_value list \<Rightarrow> (lisp_exn + lisp_value) outcome" where
  "builtin_json_encode depth ob args =
     (case require_arity ''json.encode'' args 1 of
        Inl e \<Rightarrow> Ret (Inl e)
      | Inr _ \<Rightarrow> orbind (value_to_json depth ob (args ! 0)) (\<lambda>text. Ret (Inr (VStr text))))"

subsection \<open>Decoding\<close>

datatype json_stop = Json_error string | Json_calls

definition json_fail :: "string \<Rightarrow> json_stop + 'a" where
  "json_fail m = Inl (Json_error (''json.decode: '' @ m))"

type_synonym 'a json_step = "lisp_objects \<Rightarrow> (json_stop + 'a) \<times> lisp_objects"

definition skip_ws :: "string \<Rightarrow> string" where
  "skip_ws s = dropWhile is_space s"

definition expect :: "char \<Rightarrow> string \<Rightarrow> json_stop + string" where
  "expect c s = (if take 1 s = [c] then Inr (drop 1 s) else json_fail (''expected '' @ [c]))"

definition consume_if :: "char \<Rightarrow> string \<Rightarrow> string option" where
  "consume_if c s = (if take 1 (skip_ws s) = [c] then Some (drop 1 (skip_ws s)) else None)"

definition consume_literal :: "string \<Rightarrow> lisp_value \<Rightarrow> string \<Rightarrow> json_stop + lisp_value \<times> string" where
  "consume_literal literal v s =
     (if take (length literal) s = literal then Inr (v, drop (length literal) s) else json_fail ''invalid literal'')"

definition json_unescaped :: "char \<Rightarrow> char option" where
  "json_unescaped c =
     (if c = dquote \<or> c = backslash \<or> c = CHR ''/'' then Some c
      else if c = CHR ''b'' then Some (CHR 0x08)
      else if c = CHR ''f'' then Some (CHR 0x0C)
      else if c = CHR ''n'' then Some newline
      else if c = CHR ''r'' then Some carriage
      else if c = CHR ''t'' then Some tabulator
      else None)"

fun string_chars :: "string \<Rightarrow> string \<Rightarrow> json_stop + string \<times> string" where
  "string_chars out [] = json_fail ''unterminated string''"
| "string_chars out (c # s) =
     (if c = dquote then Inr (out, s)
      else if c = backslash then
        (case s of
           [] \<Rightarrow> json_fail ''invalid escape''
         | esc # s' \<Rightarrow>
             (case json_unescaped esc of
                Some d \<Rightarrow> string_chars (out @ [d]) s'
              | None \<Rightarrow> json_fail ''unsupported escape sequence''))
      else string_chars (out @ [c]) s)"

definition parse_string :: "string \<Rightarrow> json_stop + string \<times> string" where
  "parse_string s = rbind (expect dquote s) (string_chars [])"

text \<open>The token of a number, whether it has a point or an exponent, and what follows it.\<close>

definition exponent_token :: "string \<Rightarrow> json_stop + string \<times> string" where
  "exponent_token s =
     (if take 1 s \<in> {''e'', ''E''} then
        let sign = (if take 1 (drop 1 s) \<in> {''+'', ''-''} then take 1 (drop 1 s) else []); r = drop (Suc (length sign)) s
        in if takeWhile is_digit r = [] then json_fail ''invalid exponent''
           else Inr (take 1 s @ sign @ takeWhile is_digit r, dropWhile is_digit r)
      else Inr ([], s))"

definition number_token :: "string \<Rightarrow> json_stop + string \<times> bool \<times> string" where
  "number_token s =
     (let sign = (if take 1 s = ''-'' then ''-'' else []); r = drop (length sign) s;
          whole = takeWhile is_digit r; r = dropWhile is_digit r;
          point = (take 1 r = ''.'');
          frac = (if point then ''.'' @ takeWhile is_digit (drop 1 r) else []);
          r = (if point then dropWhile is_digit (drop 1 r) else r)
      in if whole = [] then json_fail ''invalid number''
         else rbind (exponent_token r) (\<lambda>(expo, r). Inr (sign @ whole @ frac @ expo, point \<or> expo \<noteq> [], r)))"

text \<open>\<open>std::strtod\<close> accepts every token as a whole (\<open>token_strtod\<close>); \<open>std::stoll\<close> throws when the integer is out of range.\<close>

definition parse_number :: "string \<Rightarrow> json_stop + lisp_value \<times> string" where
  "parse_number s =
     rbind (number_token s) (\<lambda>(token, is_float_num, r).
       case (if is_float_num then None else from_chars token) of
         Some i \<Rightarrow> Inr (VInt i, r)
       | None \<Rightarrow>
           let parsed = (case strtod token of Some d \<Rightarrow> d | None \<Rightarrow> 0) in
           if fp_is_finite parsed then Inr (VFloat parsed, r) else json_fail ''non-finite number'')"

definition parse_scalar :: "string \<Rightarrow> json_stop + lisp_value \<times> string" where
  "parse_scalar s =
     (if take 1 s = ''n'' then consume_literal ''null'' VNil s
      else if take 1 s = ''t'' then consume_literal ''true'' (VBool True) s
      else if take 1 s = ''f'' then consume_literal ''false'' (VBool False) s
      else if take 1 s = [dquote] then rbind (parse_string s) (\<lambda>(text, r). Inr (VStr text, r))
      else if take 1 s = ''-'' \<or> is_digit (hd s) then parse_number s
      else json_fail ''unexpected token'')"

definition store_member :: "(map_storage \<Rightarrow> map_storage) \<Rightarrow> nat \<Rightarrow> string \<Rightarrow> lisp_value \<Rightarrow> lisp_objects \<Rightarrow> lisp_objects" where
  "store_member arrange i key v ob = set_map i (map_put arrange (MK_string key) v (lo_maps ob i)) ob"

text \<open>\<open>array_items\<close> and \<open>object_members\<close> are the loops of \<open>parse_array\<close> and \<open>parse_object\<close>.\<close>

fun parse_value :: "(map_storage \<Rightarrow> map_storage) \<Rightarrow> nat \<Rightarrow> string \<Rightarrow> (lisp_value \<times> string) json_step"
  and array_items :: "(map_storage \<Rightarrow> map_storage) \<Rightarrow> nat \<Rightarrow> lisp_value list \<Rightarrow> string \<Rightarrow> (lisp_value \<times> string) json_step"
  and object_members :: "(map_storage \<Rightarrow> map_storage) \<Rightarrow> nat \<Rightarrow> nat \<Rightarrow> string \<Rightarrow> (lisp_value \<times> string) json_step" where
  "parse_value arrange 0 s ob = (Inl Json_calls, ob)"
| "parse_value arrange (Suc calls) s ob =
     (case skip_ws s of
        [] \<Rightarrow> (json_fail ''unexpected end of input'', ob)
      | c # r \<Rightarrow>
          if c = CHR ''['' then
            (case consume_if (CHR '']'') (skip_ws r) of
               Some r \<Rightarrow> (Inr (VNil, r), ob)
             | None \<Rightarrow> array_items arrange calls [] (skip_ws r) ob)
          else if c = CHR ''{'' then
            (let i = lo_next ob; ob = snd (make_map ob) in
             case consume_if (CHR ''}'') (skip_ws r) of
               Some r \<Rightarrow> (Inr (VOther T_map i, r), ob)
             | None \<Rightarrow> object_members arrange calls i (skip_ws r) ob)
          else (parse_scalar (c # r), ob))"
| "array_items arrange 0 items s ob = (Inl Json_calls, ob)"
| "array_items arrange (Suc calls) items s ob =
     ebind (parse_value arrange calls s ob) (\<lambda>(item, r) ob.
       case consume_if (CHR '']'') r of
         Some r \<Rightarrow> (Inr (list_from_vector (items @ [item]), r), ob)
       | None \<Rightarrow> ebind (expect (CHR '','') (skip_ws r), ob) (array_items arrange calls (items @ [item])))"
| "object_members arrange 0 i s ob = (Inl Json_calls, ob)"
| "object_members arrange (Suc calls) i s ob =
     (if take 1 (skip_ws s) \<noteq> [dquote] then (json_fail ''expected string key'', ob)
      else ebind (parse_string (skip_ws s), ob) (\<lambda>(key, r) ob.
        ebind (expect (CHR '':'') (skip_ws r), ob) (\<lambda>r ob.
        ebind (parse_value arrange calls r ob) (\<lambda>(mapped, r) ob.
          case consume_if (CHR ''}'') r of
            Some r \<Rightarrow> (Inr (VOther T_map i, r), store_member arrange i key mapped ob)
          | None \<Rightarrow>
              ebind (expect (CHR '','') (skip_ws r), store_member arrange i key mapped ob) (object_members arrange calls i)))))"

definition json_calls :: "string \<Rightarrow> nat" where
  "json_calls s = 2 * length s + 1"

definition parse_document :: "(map_storage \<Rightarrow> map_storage) \<Rightarrow> string \<Rightarrow> lisp_value json_step" where
  "parse_document arrange s ob =
     ebind (parse_value arrange (json_calls s) s ob)
       (\<lambda>(v, r) ob. (if skip_ws r \<noteq> [] then json_fail ''trailing characters'' else Inr v, ob))"

definition builtin_json_decode ::
  "(map_storage \<Rightarrow> map_storage) \<Rightarrow> lisp_value list \<Rightarrow> lisp_objects \<Rightarrow> (lisp_exn + lisp_value) outcome \<times> lisp_objects" where
  "builtin_json_decode arrange args ob =
     (case require_arity ''json.decode'' args 1 of
        Inl e \<Rightarrow> (Ret (Inl e), ob)
      | Inr _ \<Rightarrow>
          (case args ! 0 of
             VStr text \<Rightarrow>
               (case parse_document arrange text ob of
                  (Inr v, ob') \<Rightarrow> (Ret (Inr v), ob')
                | (Inl (Json_error m), ob') \<Rightarrow> (Ret (Inl (Lisp_error m)), ob')
                | (Inl Json_calls, ob') \<Rightarrow> (Diverge, ob'))
           | _ \<Rightarrow> (Ret (Inl (Lisp_error ''json.decode: expected string'')), ob)))"

end
