(* ===== verification/Json_Parser.thy ===== *)
theory Json_Parser
  imports Builtins_Json Syntax
begin

text \<open>
  The parser of \<open>json.decode\<close>: it consumes text at every call, so that \<open>json_calls\<close> calls are enough (\<open>parse_calls\<close>) and more do not change
  the result (\<open>json_calls_enough\<close>); it creates new maps and changes no existing object (\<open>objects_grow\<close>).
\<close>

subsection \<open>The parser consumes text\<close>

lemma skip_ws_shorter: "length (skip_ws s) \<le> length s"
  by (simp add: skip_ws_def length_dropWhile_le)

lemma skip_ws_cons: "skip_ws s = c # r \<Longrightarrow> Suc (length r) \<le> length s"
  using skip_ws_shorter [of s] by simp

lemma take_one: "take 1 s = [c] \<longleftrightarrow> (\<exists>r. s = c # r)"
  by (cases s) auto

lemma expect_Inr [simp]: "expect c s = Inr r \<longleftrightarrow> s = c # r"
  by (cases s) (auto simp: expect_def json_fail_def)

lemma expect_no_calls [simp]: "expect c s \<noteq> Inl Json_calls"
  by (simp add: expect_def json_fail_def)

lemma consume_if_Some: "consume_if c s = Some r \<longleftrightarrow> skip_ws s = c # r"
  by (cases "skip_ws s") (auto simp: consume_if_def)

lemma json_fail_simps [simp]: "json_fail m \<noteq> Inr x" "json_fail m \<noteq> Inl Json_calls"
  by (simp_all add: json_fail_def)

lemma string_chars_rest: "string_chars out s = Inr (text, r) \<Longrightarrow> length r < length s"
proof (induction out s rule: string_chars.induct)
  case (2 out c s)
  show ?case
  proof (cases "c = backslash")
    case True
    then obtain e s' d where "s = e # s'" "json_unescaped e = Some d" "string_chars (out @ [d]) s' = Inr (text, r)"
      using 2(3) by (auto split: list.splits option.splits)
    then show ?thesis using 2(1) True by fastforce
  next
    case False
    then show ?thesis using 2 by (auto split: if_splits)
  qed
qed simp

lemma exponent_token_rest: "exponent_token s = Inr (e, r) \<Longrightarrow> length r \<le> length s"
  by (auto simp: exponent_token_def Let_def split: if_splits intro: order_trans [OF length_dropWhile_le])

lemma number_token_rest:
  assumes "number_token s = Inr (token, b, r)"
  shows "length r < length s"
proof -
  define s' where "s' = (if take 1 s = ''-'' then drop 1 s else s)"
  define r' where "r' = dropWhile is_digit s'"
  define r'' where "r'' = (if take 1 r' = ''.'' then dropWhile is_digit (drop 1 r') else r')"
  have "takeWhile is_digit s' \<noteq> []" "\<exists>e. exponent_token r'' = Inr (e, r)"
    using assms by (auto simp: number_token_def Let_def s'_def r'_def r''_def split: if_splits)
  then have "0 < length (takeWhile is_digit s')" "length r \<le> length r''"
    using exponent_token_rest by auto
  moreover have "length (takeWhile is_digit s') + length r' = length s'"
    unfolding r'_def by (metis length_append takeWhile_dropWhile_id)
  moreover have "length s' \<le> length s" by (simp add: s'_def)
  moreover have "length r'' \<le> length r'"
    by (auto simp: r''_def intro: order_trans [OF length_dropWhile_le])
  ultimately show ?thesis by linarith
qed

lemma consume_literal_rest: "consume_literal literal v s = Inr (v', r) \<Longrightarrow> literal \<noteq> [] \<Longrightarrow> length r < length s"
  by (cases s) (auto simp: consume_literal_def split: if_splits)

lemma parse_scalar_rest: "parse_scalar s = Inr (v, r) \<Longrightarrow> length r < length s"
  by (auto simp: parse_scalar_def parse_string_def parse_number_def Let_def take_one
      dest!: string_chars_rest number_token_rest consume_literal_rest split: if_splits option.splits)

lemma string_chars_no_calls: "string_chars out s \<noteq> Inl Json_calls"
  by (induction out s rule: string_chars.induct) (simp_all split: list.splits option.splits)

lemma parse_string_no_calls: "parse_string s \<noteq> Inl Json_calls"
  by (simp add: parse_string_def rbind_Inl_iff string_chars_no_calls expect_def)

lemma consume_literal_no_calls: "consume_literal literal v s \<noteq> Inl Json_calls"
  by (simp add: consume_literal_def)

lemma exponent_token_no_calls: "exponent_token s \<noteq> Inl Json_calls"
  by (simp add: exponent_token_def Let_def)

lemma number_token_no_calls: "number_token s \<noteq> Inl Json_calls"
  unfolding number_token_def Let_def by (auto simp: rbind_Inl_iff exponent_token_no_calls)

lemma parse_number_no_calls: "parse_number s \<noteq> Inl Json_calls"
  unfolding parse_number_def rbind_Inl_iff by (auto simp: number_token_no_calls Let_def split: option.splits)

lemma parse_scalar_no_calls: "parse_scalar s \<noteq> Inl Json_calls"
  by (auto simp: parse_scalar_def consume_literal_no_calls parse_number_no_calls parse_string_no_calls rbind_Inl_iff)

subsection \<open>The calls are enough\<close>

lemma ebind_ends [simp]: "ebind (Inl e, ob) f = (Inl e, ob)" "ebind (Inr x, ob) f = f x ob"
  by (simp_all add: ebind_def)

lemma ebind_Inr: "ebind p f = (Inr y, ob') \<longleftrightarrow> (\<exists>x ob. p = (Inr x, ob) \<and> f x ob = (Inr y, ob'))"
  by (cases p; cases "fst p") (auto simp: ebind_def)

lemma ebind_Inl: "fst (ebind p f) = Inl e \<longleftrightarrow> fst p = Inl e \<or> (\<exists>x ob. p = (Inr x, ob) \<and> fst (f x ob) = Inl e)"
  by (cases p; cases "fst p") (auto simp: ebind_def)

lemma consume_rest: "consume_if c s = Some r \<Longrightarrow> length r < length s"
  using skip_ws_shorter [of s] by (simp add: consume_if_Some)

lemma parse_string_rest: "parse_string s = Inr (text, r) \<Longrightarrow> length r < length s"
  by (auto simp: parse_string_def dest!: string_chars_rest)

lemma skip_ws_expect: "skip_ws s = c # r \<Longrightarrow> length r < length s"
  using skip_ws_shorter [of s] by simp

lemma close_or_next:
  "c \<noteq> d \<Longrightarrow> (case consume_if c r of Some t \<Rightarrow> (f t, ob) | None \<Rightarrow> ebind (expect d (skip_ws r), ob) g) = (Inr y, ob') \<longleftrightarrow>
     (\<exists>t. skip_ws r = c # t \<and> f t = Inr y \<and> ob' = ob) \<or> (\<exists>t. skip_ws r = d # t \<and> g t ob = (Inr y, ob'))"
  by (cases "skip_ws r") (auto simp: consume_if_def expect_def json_fail_def)

lemma array_items_Inr:
  "array_items arrange (Suc k) items s ob = (Inr (v, r), ob') \<longleftrightarrow>
     (\<exists>item t ob1. parse_value arrange k s ob = (Inr (item, t), ob1) \<and>
       (skip_ws t = CHR '']'' # r \<and> list_from_vector (items @ [item]) = v \<and> ob' = ob1 \<or>
        (\<exists>t'. skip_ws t = CHR '','' # t' \<and> array_items arrange k (items @ [item]) t' ob1 = (Inr (v, r), ob'))))"
  by (simp add: ebind_Inr split_def close_or_next)

lemma object_members_Inr:
  "object_members arrange (Suc k) i s ob = (Inr (v, r), ob') \<longleftrightarrow>
     (\<exists>key t t' mapped u ob1. parse_string (skip_ws s) = Inr (key, t) \<and> skip_ws t = CHR '':'' # t' \<and>
       parse_value arrange k t' ob = (Inr (mapped, u), ob1) \<and>
       (skip_ws u = CHR ''}'' # r \<and> VOther T_map i = v \<and> ob' = store_member arrange i key mapped ob1 \<or>
        (\<exists>u'. skip_ws u = CHR '','' # u' \<and>
           object_members arrange k i u' (store_member arrange i key mapped ob1) = (Inr (v, r), ob'))))"
proof -
  have quote: "parse_string (skip_ws s) = Inr x \<Longrightarrow> take 1 (skip_ws s) = [dquote]" for x
    by (auto simp: parse_string_def)
  show ?thesis
  proof (cases "take 1 (skip_ws s) = [dquote]")
    case True
    then show ?thesis by (simp add: ebind_Inr split_def close_or_next)
  next
    case False
    then show ?thesis using quote by (auto simp: json_fail_def)
  qed
qed

lemma parse_rest:
  "parse_value arrange k s ob = (Inr (v, r), ob') \<Longrightarrow> length r < length s"
  "array_items arrange k items s ob = (Inr (v, r), ob') \<Longrightarrow> length r < length s"
  "object_members arrange k i s ob = (Inr (v, r), ob') \<Longrightarrow> length r < length s"
proof (induction k arbitrary: s ob v r ob' items i)
  case (Suc k)
  {
    case 1
    obtain c t where ct: "skip_ws s = c # t" using 1 by (cases "skip_ws s") simp_all
    then have "length t < length s" by (rule skip_ws_expect)
    moreover have "length r < length (skip_ws t) \<or> length r < length (c # t)"
      using 1 ct Suc.IH(2,3) parse_scalar_rest [of "c # t" v r]
      by (auto simp: Let_def split: if_splits option.splits dest: consume_rest)
    ultimately show ?case using skip_ws_shorter [of t] by auto
  next
    case 2
    then show ?case using Suc.IH(1,2) skip_ws_expect unfolding array_items_Inr by (meson less_trans)
  next
    case 3
    then show ?case using Suc.IH(1,3) skip_ws_expect parse_string_rest skip_ws_shorter [of s] unfolding object_members_Inr
      by (meson less_trans order.strict_trans2)
  }
qed simp_all

lemma close_or_next_calls:
  "fst (case consume_if c r of Some t \<Rightarrow> (Inr (f t), ob) | None \<Rightarrow> ebind (expect d (skip_ws r), ob) g) = Inl Json_calls \<Longrightarrow>
     \<exists>t. skip_ws r = d # t \<and> fst (g t ob) = Inl Json_calls"
  by (cases "skip_ws r") (auto simp: consume_if_def expect_def json_fail_def split: if_splits)

lemma parse_calls:
  "2 * length s < k \<Longrightarrow> fst (parse_value arrange k s ob) \<noteq> Inl Json_calls"
  "2 * length s + 1 < k \<Longrightarrow> fst (array_items arrange k items s ob) \<noteq> Inl Json_calls"
  "2 * length s + 1 < k \<Longrightarrow> fst (object_members arrange k i s ob) \<noteq> Inl Json_calls"
proof (induction k arbitrary: s ob items i)
  case (Suc k)
  {
    case 1
    show ?case
    proof (cases "skip_ws s")
      case (Cons c t)
      have "2 * length (skip_ws t) + 1 < k" using 1 skip_ws_expect [OF Cons] skip_ws_shorter [of t] by simp
      then show ?thesis using Cons Suc.IH(2,3) by (simp add: Let_def parse_scalar_no_calls split: option.splits)
    qed simp
  next
    case 2
    show ?case
    proof
      assume *: "fst (array_items arrange (Suc k) items s ob) = Inl Json_calls"
      have "fst (parse_value arrange k s ob) \<noteq> Inl Json_calls" using 2 Suc.IH(1) by simp
      with * obtain item r ob1 where p: "parse_value arrange k s ob = (Inr (item, r), ob1)" and
        "fst (case consume_if (CHR '']'') r of Some r \<Rightarrow> (Inr (list_from_vector (items @ [item]), r), ob1)
           | None \<Rightarrow> ebind (expect (CHR '','') (skip_ws r), ob1) (array_items arrange k (items @ [item]))) = Inl Json_calls"
        by (auto simp: ebind_Inl)
      from close_or_next_calls [OF this(2)] obtain t where t: "skip_ws r = CHR '','' # t"
        "fst (array_items arrange k (items @ [item]) t ob1) = Inl Json_calls" by blast
      then show False using 2 Suc.IH(2) parse_rest(1) [OF p] skip_ws_expect [OF t(1)] by fastforce
    qed
  next
    case 3
    show ?case
    proof
      assume *: "fst (object_members arrange (Suc k) i s ob) = Inl Json_calls"
      then obtain key r t where key: "parse_string (skip_ws s) = Inr (key, r)" "skip_ws r = CHR '':'' # t"
          and *: "fst (ebind (parse_value arrange k t ob) (\<lambda>(mapped, r) ob.
          case consume_if (CHR ''}'') r of
            Some r \<Rightarrow> (Inr (VOther T_map i, r), store_member arrange i key mapped ob)
          | None \<Rightarrow>
              ebind (expect (CHR '','') (skip_ws r), store_member arrange i key mapped ob) (object_members arrange k i))) = Inl Json_calls"
        by (auto simp: ebind_Inl parse_string_no_calls split: if_splits)
      have len: "length t < length s"
        using parse_string_rest [OF key(1)] skip_ws_expect [OF key(2)] skip_ws_shorter [of s] by linarith
      then have "fst (parse_value arrange k t ob) \<noteq> Inl Json_calls" using 3 by (intro Suc.IH(1)) simp
      with * obtain mapped u ob1 where p: "parse_value arrange k t ob = (Inr (mapped, u), ob1)" and
        "fst (case consume_if (CHR ''}'') u of
               Some r \<Rightarrow> (Inr (VOther T_map i, r), store_member arrange i key mapped ob1)
             | None \<Rightarrow> ebind (expect (CHR '','') (skip_ws u), store_member arrange i key mapped ob1) (object_members arrange k i)) = Inl Json_calls"
        by (auto simp: ebind_Inl)
      from close_or_next_calls [OF this(2)] obtain u' where u: "skip_ws u = CHR '','' # u'"
        "fst (object_members arrange k i u' (store_member arrange i key mapped ob1)) = Inl Json_calls" by blast
      then show False using 3 Suc.IH(3) parse_rest(1) [OF p] skip_ws_expect [OF u(1)] len by fastforce
    qed
  }
qed simp_all

lemma ebind_more:
  assumes "fst (ebind p f) \<noteq> Inl e" "fst p \<noteq> Inl e \<Longrightarrow> p' = p"
    "\<And>x ob. p = (Inr x, ob) \<Longrightarrow> fst (f x ob) \<noteq> Inl e \<Longrightarrow> f' x ob = f x ob"
  shows "ebind p' f' = ebind p f"
  using assms by (cases p; cases "fst p") (auto simp: ebind_def)

lemma close_or_next_more:
  assumes "fst (case consume_if c r of Some t \<Rightarrow> (Inr (f t), ob) | None \<Rightarrow> ebind (expect d (skip_ws r), ob) g) \<noteq> Inl Json_calls"
    "\<And>t. fst (g t ob) \<noteq> Inl Json_calls \<Longrightarrow> g' t ob = g t ob"
  shows "(case consume_if c r of Some t \<Rightarrow> (Inr (f t), ob) | None \<Rightarrow> ebind (expect d (skip_ws r), ob) g') =
    (case consume_if c r of Some t \<Rightarrow> (Inr (f t), ob) | None \<Rightarrow> ebind (expect d (skip_ws r), ob) g)"
  using assms by (cases "skip_ws r") (auto simp: consume_if_def expect_def json_fail_def)

lemma parse_more_calls:
  "fst (parse_value arrange k s ob) \<noteq> Inl Json_calls \<Longrightarrow> parse_value arrange (Suc k) s ob = parse_value arrange k s ob"
  "fst (array_items arrange k items s ob) \<noteq> Inl Json_calls \<Longrightarrow> array_items arrange (Suc k) items s ob = array_items arrange k items s ob"
  "fst (object_members arrange k i s ob) \<noteq> Inl Json_calls \<Longrightarrow> object_members arrange (Suc k) i s ob = object_members arrange k i s ob"
proof (induction k arbitrary: s ob items i)
  case (Suc k)
  {
    case 1
    then show ?case using Suc.IH(2,3)
      by (cases "skip_ws s") (auto simp: Let_def simp del: array_items.simps object_members.simps split: option.splits if_splits)
  next
    case 2
    then show ?case unfolding array_items.simps(2) [of arrange "Suc k" items s ob] array_items.simps(2) [of arrange k items s ob]
      by (rule ebind_more) (auto simp: split_def simp del: parse_value.simps array_items.simps intro!: Suc.IH(1) Suc.IH(2) close_or_next_more)
  next
    case 3
    show ?case
    proof (cases "take 1 (skip_ws s) = [dquote]")
      case True
      then show ?thesis using 3 unfolding object_members.simps(2) [of arrange "Suc k" i s ob] object_members.simps(2) [of arrange k i s ob]
        by (auto simp: split_def simp del: parse_value.simps object_members.simps intro!: Suc.IH(1) Suc.IH(3) close_or_next_more elim!: ebind_more)
    qed simp
  }
qed simp_all

definition objects_grow :: "nat \<Rightarrow> lisp_objects \<Rightarrow> lisp_objects \<Rightarrow> bool" where
  "objects_grow n ob ob' \<longleftrightarrow> lo_next ob \<le> lo_next ob' \<and> (\<forall>i<n. lo_maps ob' i = lo_maps ob i) \<and> lo_vecs ob' = lo_vecs ob \<and>
     lo_pqs ob' = lo_pqs ob \<and> lo_rngs ob' = lo_rngs ob"

lemma objects_grow_trans: "objects_grow n ob ob' \<Longrightarrow> objects_grow n' ob' ob'' \<Longrightarrow> n \<le> n' \<Longrightarrow> objects_grow n ob ob''"
  by (auto simp: objects_grow_def)

lemma objects_grow_refl [simp]: "objects_grow n ob ob"
  by (simp add: objects_grow_def)

lemma objects_grow_mono: "objects_grow n' ob ob' \<Longrightarrow> n \<le> n' \<Longrightarrow> objects_grow n ob ob'"
  by (simp add: objects_grow_def)

lemma make_map_grows: "n \<le> lo_next ob \<Longrightarrow> objects_grow n ob (snd (make_map ob)) \<and> lo_next (snd (make_map ob)) = Suc (lo_next ob)"
  by (simp add: objects_grow_def make_map_def)

lemma store_member_grows: "n \<le> i \<Longrightarrow> objects_grow n ob (store_member arrange i key v ob)"
  by (simp add: objects_grow_def store_member_def set_map_def)

lemma ebind_grows:
  "objects_grow n ob (snd p) \<Longrightarrow> (\<And>y ob1. p = (Inr y, ob1) \<Longrightarrow> objects_grow n ob (snd (f y ob1))) \<Longrightarrow> objects_grow n ob (snd (ebind p f))"
  by (cases p; cases "fst p") (auto simp: ebind_def)

lemma close_grows:
  "objects_grow n ob ob1 \<Longrightarrow> (\<And>t. objects_grow n ob (snd (g t ob1))) \<Longrightarrow>
    objects_grow n ob (snd (case consume_if c r of Some t \<Rightarrow> (f t, ob1) | None \<Rightarrow> ebind (expect d (skip_ws r), ob1) g))"
  by (cases "consume_if c r") (auto intro!: ebind_grows)

lemma objects_grow_next: "objects_grow n ob ob' \<Longrightarrow> n \<le> lo_next ob \<Longrightarrow> n \<le> lo_next ob'"
  by (simp add: objects_grow_def)

lemma parse_grows:
  "n \<le> lo_next ob \<Longrightarrow> objects_grow n ob (snd (parse_value arrange k s ob))"
  "n \<le> lo_next ob \<Longrightarrow> objects_grow n ob (snd (array_items arrange k items s ob))"
  "n \<le> lo_next ob \<Longrightarrow> n \<le> i \<Longrightarrow> objects_grow n ob (snd (object_members arrange k i s ob))"
proof (induction k arbitrary: s ob items i)
  case (Suc k)
  have step: "objects_grow n ob (snd (array_items arrange k items s ob1))" if "objects_grow n ob ob1" "n \<le> lo_next ob" for ob ob1 items s
    using that Suc.IH(2) [OF objects_grow_next [OF that]] objects_grow_trans by blast
  have member: "objects_grow n ob (snd (object_members arrange k i s ob1))" if "objects_grow n ob ob1" "n \<le> lo_next ob" "n \<le> i" for ob ob1 i s
    using that Suc.IH(3) [OF objects_grow_next [OF that(1,2)]] objects_grow_trans by blast
  {
    case 1
    then show ?case using Suc.IH(2) member make_map_grows
      by (auto simp: Let_def split: list.splits option.splits)
  next
    case 2
    show ?case unfolding array_items.simps(2) split_def
      by (intro ebind_grows close_grows step Suc.IH(1) 2) (use Suc.IH(1) [OF 2, of s] in auto)
  next
    case 3
    have stored: "objects_grow n ob (store_member arrange i key v ob2)" if "parse_value arrange k u ob = (Inr y, ob2)" for y ob2 key v u
      using Suc.IH(1) [OF 3(1), of u] store_member_grows [OF 3(2), of ob2 arrange key v] that objects_grow_trans by fastforce
    show ?case
    proof (cases "take 1 (skip_ws s) = [dquote]")
      case True
      then show ?thesis unfolding object_members.simps(2) split_def if_not_P
        by (simp del: object_members.simps parse_value.simps) (intro ebind_grows close_grows member Suc.IH(1) 3; use stored Suc.IH(1) [OF 3(1)] in auto)
    qed simp
  }
qed simp_all

lemma parse_value_settled:
  "k \<le> k' \<Longrightarrow> fst (parse_value arrange k s ob) \<noteq> Inl Json_calls \<Longrightarrow> parse_value arrange k' s ob = parse_value arrange k s ob"
  by (induction k' rule: dec_induct) (simp_all del: parse_value.simps add: parse_more_calls(1))

lemma json_calls_enough:
  assumes "parse_value arrange k s ob = (Inr (v, r), ob')"
  shows "parse_value arrange (json_calls s) s ob = (Inr (v, r), ob')"
proof -
  have "fst (parse_value arrange (json_calls s) s ob) \<noteq> Inl Json_calls"
    by (rule parse_calls) (simp add: json_calls_def)
  then show ?thesis
    using parse_value_settled [of k "max k (json_calls s)" arrange s ob] assms
      parse_value_settled [of "json_calls s" "max k (json_calls s)" arrange s ob] by simp
qed

end
