(* ===== verification/Json_Guarantees.thy ===== *)
theory Json_Guarantees
  imports Json_Parser Data_Guarantees
begin

text \<open>
  What \<open>json.encode\<close> and \<open>json.decode\<close> guarantee. A Lisp value denotes a JSON value (\<open>denotes\<close>: the type \<open>json\<close> with objects as finite maps, nil being both null and the empty array);
  encoding gives a text of the JSON value and decoding the text a value that denotes it again. The predicates \<open>encodes\<close> and
  \<open>decodes\<close> state the two halves, one lemma for each kind of value.
\<close>

subsection \<open>JSON values\<close>

text \<open>A number text that is neither an integer to the parser nor rounded by the encoder.\<close>

definition json_float :: "double \<Rightarrow> bool" where
  "json_float d \<longleftrightarrow> fp_is_finite d \<and> maybe_float (fp_str d) \<and> strtod (fp_str d) = Some d"

datatype json =
    J_bool bool
  | J_int i64
  | J_float double
  | J_string string
  | J_array "json list"
  | J_object "string \<Rightarrow> json option"

inductive denotes :: "nat \<Rightarrow> lisp_objects \<Rightarrow> lisp_value \<Rightarrow> json \<Rightarrow> bool" for n ob where
  denotes_bool: "denotes n ob (VBool b) (J_bool b)"
| denotes_int: "denotes n ob (VInt i) (J_int i)"
| denotes_float: "json_float d \<Longrightarrow> denotes n ob (VFloat d) (J_float d)"
| denotes_str: "denotes n ob (VStr s) (J_string s)"
| denotes_sym: "denotes n ob (VSym s) (J_string s)"
| denotes_list: "list_all2 (denotes n ob) vs js \<Longrightarrow> denotes n ob (list_from_vector vs) (J_array js)"
| denotes_vec: "n \<le> i \<Longrightarrow> i < lo_next ob \<Longrightarrow> list_all2 (denotes n ob) (lo_vecs ob i) js \<Longrightarrow> denotes n ob (VOther T_vec i) (J_array js)"
| denotes_map: "n \<le> i \<Longrightarrow> i < lo_next ob \<Longrightarrow> distinct (map (map_key_to_json_object_key \<circ> fst) (lo_maps ob i)) \<Longrightarrow>
    dom m = (map_key_to_json_object_key \<circ> fst) ` set (lo_maps ob i) \<Longrightarrow>
    \<forall>(k, v)\<in>set (lo_maps ob i). \<exists>j. m (map_key_to_json_object_key k) = Some j \<and> denotes n ob v j \<Longrightarrow>
    denotes n ob (VOther T_map i) (J_object m)"

lemma denotes_keeps:
  assumes "denotes n ob v j" "n' \<le> n" "lo_next ob \<le> lo_next ob'" "lo_vecs ob' = lo_vecs ob"
    "\<And>i. n \<le> i \<Longrightarrow> i < lo_next ob \<Longrightarrow> lo_maps ob' i = lo_maps ob i"
  shows "denotes n' ob' v j"
  using assms(1)
proof induction
  case (denotes_list vs js)
  then show ?case by (intro denotes.denotes_list) (auto elim!: list.rel_mono_strong)
next
  case (denotes_vec i js)
  then show ?case using assms(2-4) by (intro denotes.denotes_vec) (auto elim!: list.rel_mono_strong)
next
  case (denotes_map i m)
  then have "lo_maps ob' i = lo_maps ob i" "i < lo_next ob'" using assms(3,5) by auto
  then show ?case using denotes_map assms(2) by (intro denotes.denotes_map) auto
qed (simp_all add: denotes.intros)

lemma denotes_grows: "denotes n ob v j \<Longrightarrow> objects_grow (lo_next ob) ob ob' \<Longrightarrow> n' \<le> n \<Longrightarrow> denotes n' ob' v j"
  by (erule denotes_keeps) (auto simp: objects_grow_def)

subsection \<open>Encoding\<close>

definition encodes :: "lisp_objects \<Rightarrow> lisp_value \<Rightarrow> string \<Rightarrow> bool" where
  "encodes ob v s \<longleftrightarrow> (\<exists>depth. \<forall>k\<ge>depth. value_to_json k ob v = Ret (Inr s))"

lemma orbind_Ret [simp]: "orbind (Ret (Inr x)) f = f x"
  by (simp add: orbind_def)

lemma each_in_order_all2: "list_all2 (\<lambda>x y. f x = Ret (Inr y)) xs ys \<Longrightarrow> each_in_order f xs = Ret (Inr ys)"
  by (induction rule: list_all2_induct) simp_all

lemma encodes_each:
  assumes "list_all2 (encodes ob) vs ss"
  shows "\<exists>depth. \<forall>k\<ge>depth. list_all2 (\<lambda>v s. value_to_json k ob v = Ret (Inr s)) vs ss \<and>
    each_in_order (value_to_json k ob) vs = Ret (Inr ss)"
  using assms
proof (induction rule: list_all2_induct)
  case (Cons v vs s ss)
  then obtain k k' where "\<forall>l\<ge>k. value_to_json l ob v = Ret (Inr s)"
    "\<forall>l\<ge>k'. list_all2 (\<lambda>v s. value_to_json l ob v = Ret (Inr s)) vs ss \<and> each_in_order (value_to_json l ob) vs = Ret (Inr ss)"
    by (auto simp: encodes_def)
  then show ?case by (intro exI [of _ "max k k'"]) simp
qed simp

lemma encodes_Suc: "(\<And>k. k \<ge> depth \<Longrightarrow> value_to_json (Suc k) ob v = Ret (Inr s)) \<Longrightarrow> encodes ob v s"
  unfolding encodes_def by (rule exI [of _ "Suc depth"]) (metis Suc_le_D Suc_le_mono)

lemma encodes_vec:
  assumes "list_all2 (encodes ob) (lo_vecs ob i) ss"
  shows "encodes ob (VOther T_vec i) (json_array ss)"
proof -
  obtain depth where "\<forall>k\<ge>depth. each_in_order (value_to_json k ob) (lo_vecs ob i) = Ret (Inr ss)"
    using encodes_each [OF assms] by blast
  then show ?thesis by (intro encodes_Suc [of depth]) simp
qed

lemma encodes_list:
  assumes "list_all2 (encodes ob) (v # vs) ss"
  shows "encodes ob (list_from_vector (v # vs)) (json_array ss)"
proof -
  have "vector_from_list (list_from_vector us) = Inr us" for us by (induction us) (simp_all add: list_from_vector_def)
  moreover obtain depth where "\<forall>k\<ge>depth. each_in_order (value_to_json k ob) (v # vs) = Ret (Inr ss)"
    using encodes_each [OF assms] by blast
  ultimately show ?thesis
    by (intro encodes_Suc [of depth]) (simp del: each_in_order.simps)
qed

lemma encodes_map:
  assumes "list_all2 (encodes ob) (map snd (lo_maps ob i)) ss"
  shows "encodes ob (VOther T_map i) (json_object (zip (map (map_key_to_json_object_key \<circ> fst) (lo_maps ob i)) ss))"
proof -
  obtain depth where d: "\<forall>k\<ge>depth. list_all2 (\<lambda>v s. value_to_json k ob v = Ret (Inr s)) (map snd (lo_maps ob i)) ss"
    using encodes_each [OF assms] by blast
  have "each_in_order (\<lambda>(k, mapped). orbind (value_to_json l ob mapped) (\<lambda>s. Ret (Inr (map_key_to_json_object_key k, s)))) (lo_maps ob i) =
      Ret (Inr (zip (map (map_key_to_json_object_key \<circ> fst) (lo_maps ob i)) ss))" if "l \<ge> depth" for l
    using d that by (intro each_in_order_all2) (auto simp: list_all2_conv_all_nth split_def)
  then show ?thesis by (intro encodes_Suc [of depth]) simp
qed

subsection \<open>Number texts\<close>

definition follows :: "string \<Rightarrow> bool" where
  "follows t \<longleftrightarrow> t = [] \<or> hd t \<in> set '',]}''"

lemma digits_split:
  assumes "list_all is_digit w" "r = [] \<or> \<not> is_digit (hd r)"
  shows "takeWhile is_digit (w @ r) = w" "dropWhile is_digit (w @ r) = r"
  using assms by (induction w; cases r; simp)+

lemma follows_stops: "follows t \<Longrightarrow> (t = [] \<or> \<not> is_digit (hd t)) \<and> take 1 t \<notin> {''.'', ''e'', ''E''}"
  by (cases t) (auto simp: follows_def is_digit_def)

definition fraction_text :: "string \<Rightarrow> bool" where
  "fraction_text s \<longleftrightarrow> s = [] \<or> hd s = CHR ''.'' \<and> list_all is_digit (tl s)"

definition power_text :: "string \<Rightarrow> bool" where
  "power_text s \<longleftrightarrow> s = [] \<or> take 2 s \<in> {''e+'', ''e-''} \<and> list_all is_digit (drop 2 s) \<and> drop 2 s \<noteq> []"

lemma exponent_token_text:
  assumes "power_text s" "follows t"
  shows "exponent_token (s @ t) = Inr (s, t)"
proof (cases "s = []")
  case True
  then show ?thesis using follows_stops [OF assms(2)] by (simp add: exponent_token_def)
next
  case False
  then obtain c ds where s: "s = CHR ''e'' # c # ds" "[c] \<in> {''+'', ''-''}" "list_all is_digit ds" "ds \<noteq> []"
    using assms(1) by (cases s; cases "tl s") (auto simp: power_text_def)
  then show ?thesis using digits_split [OF s(3), of t] follows_stops [OF assms(2)] by (auto simp: exponent_token_def)
qed

lemma number_token_text:
  assumes "sign \<in> {[], ''-''}" "whole \<noteq> []" "list_all is_digit whole" "fraction_text frac" "power_text expo" "follows t"
  shows "number_token (sign @ whole @ frac @ expo @ t) = Inr (sign @ whole @ frac @ expo, frac \<noteq> [] \<or> expo \<noteq> [], t)"
proof -
  have expo: "exponent_token (expo @ t) = Inr (expo, t)" by (rule exponent_token_text) fact+
  have no_digit: "expo @ t = [] \<or> \<not> is_digit (hd (expo @ t))" "take 1 (expo @ t) \<noteq> ''.''"
    using assms(5) follows_stops [OF assms(6)] by (cases expo; auto simp: power_text_def is_digit_def take_Cons' split: if_splits)+
  then have "frac @ expo @ t = [] \<or> \<not> is_digit (hd (frac @ expo @ t))"
    using assms(4) by (cases frac) (auto simp: fraction_text_def is_digit_def)
  note whole = digits_split [OF assms(3) this]
  have sign: "take 1 (whole @ r) \<noteq> ''-''" for r
    using assms(2,3) by (cases whole) (auto simp: is_digit_def)
  show ?thesis
  proof (cases "frac = []")
    case True
    then show ?thesis using whole sign assms(1,2) expo no_digit(2) by (auto simp: number_token_def simp del: take_append drop_append)
  next
    case False
    then obtain ds where ds: "frac = CHR ''.'' # ds" "list_all is_digit ds" using assms(4) by (cases frac) (auto simp: fraction_text_def)
    then show ?thesis using whole sign assms(1,2) expo digits_split [OF ds(2) no_digit(1)] by (auto simp: number_token_def simp del: take_append drop_append)
  qed
qed

lemma int_str_digits: "0 \<le> i \<Longrightarrow> list_all is_digit (int_str i) \<and> int_str i \<noteq> []"
  using pos_str_digits [of i] by (simp add: int_str_def)

lemma pad_left_digits: "list_all is_digit s \<Longrightarrow> s \<noteq> [] \<Longrightarrow> list_all is_digit (pad_left n s) \<and> pad_left n s \<noteq> []"
  by (induction n s rule: pad_left.induct) (subst pad_left.simps, subst (2) pad_left.simps, simp add: is_digit_def)

lemma with_point_text:
  assumes "list_all is_digit frac"
  shows "\<exists>f. with_point whole frac = whole @ f \<and> fraction_text f"
proof -
  have "list_all is_digit (strip_zeros frac)"
    using assms set_dropWhileD [of _ "\<lambda>c. c = CHR ''0''" "rev frac"] by (auto simp: strip_zeros_def list_all_iff)
  then show ?thesis by (auto simp: with_point_def Let_def fraction_text_def)
qed

lemma exponent_str_text: "power_text (exponent_str x)"
  using pad_left_digits [of "int_str \<bar>x\<bar>" 2] int_str_digits [of "\<bar>x\<bar>"] by (simp add: exponent_str_def power_text_def)

lemma round_even_nonneg: "0 \<le> n \<Longrightarrow> 0 < d \<Longrightarrow> 0 \<le> round_half_even n d"
  by (simp add: round_half_even_def Let_def pos_imp_zdiv_nonneg_iff add_nonneg_nonneg)

lemma fp_fraction: "0 \<le> fp_mag w \<Longrightarrow> 0 \<le> fp_num w \<and> 0 < fp_den w"
  by (simp add: fp_num_def fp_den_def Let_def)

lemma sig_digits_nonneg: "0 \<le> n \<Longrightarrow> 0 < d \<Longrightarrow> 0 \<le> sig_digits p n d x"
  by (simp add: sig_digits_def round_even_nonneg)

text \<open>What the standard library prints for a finite double.\<close>

definition number_text :: "string \<Rightarrow> string \<Rightarrow> string \<Rightarrow> string \<Rightarrow> bool" where
  "number_text sign whole frac expo \<longleftrightarrow>
     sign \<in> {[], ''-''} \<and> whole \<noteq> [] \<and> list_all is_digit whole \<and> fraction_text frac \<and> power_text expo"

lemma point_number:
  assumes "sign \<in> {[], ''-''}" "list_all is_digit whole" "whole \<noteq> []" "list_all is_digit frac" "power_text expo"
    "s = sign @ with_point whole frac @ expo"
  shows "\<exists>sign whole frac expo. s = sign @ whole @ frac @ expo \<and> number_text sign whole frac expo"
proof -
  obtain f where f: "with_point whole frac = whole @ f" "fraction_text f" using with_point_text [OF assms(4)] by blast
  then have "s = sign @ whole @ f @ expo" "number_text sign whole f expo" using assms by (simp_all add: number_text_def)
  then show ?thesis by blast
qed

lemma fp_str_text:
  assumes "fp_is_finite w"
  shows "\<exists>sign whole frac expo. fp_str w = sign @ whole @ frac @ expo \<and> number_text sign whole frac expo"
proof (cases "fp_mag w = 0")
  case True
  then have "fp_str w = fp_sign_str w @ ''0'' @ [] @ []" using assms by (simp add: fp_str_def fp_str_prec_def)
  moreover have "number_text (fp_sign_str w) ''0'' [] []"
    by (simp add: number_text_def fp_sign_str_def fraction_text_def power_text_def is_digit_def)
  ultimately show ?thesis by blast
next
  case False
  have "0 \<le> fp_mag w" by (simp add: fp_mag_def)
  define v0 where "v0 = sig_digits 6 (fp_num w) (fp_den w) (dec_exponent (fp_num w) (fp_den w))"
  define s where "s = int_str (if v0 = 10 ^ 6 then 10 ^ 5 else v0)"
  define x where "x = (if v0 = 10 ^ 6 then dec_exponent (fp_num w) (fp_den w) + 1 else dec_exponent (fp_num w) (fp_den w))"
  have "0 \<le> v0" unfolding v0_def by (intro sig_digits_nonneg conjunct1 [OF fp_fraction] conjunct2 [OF fp_fraction]) fact+
  then have s: "list_all is_digit s" "s \<noteq> []" using int_str_digits by (auto simp: s_def)
  have ds: "list_all is_digit (take k s)" "list_all is_digit (drop k s)" "list_all is_digit (replicate k (CHR ''0'') @ s)"
      "take (Suc k) s \<noteq> []" for k
    using s in_set_takeD in_set_dropD by (fastforce simp: list_all_iff is_digit_def)+
  have sign: "fp_sign_str w \<in> {[], ''-''}" by (simp add: fp_sign_str_def)
  have str: "fp_str w = fp_sign_str w @
        (if x < - 4 \<or> x \<ge> 6 then with_point (take 1 s) (drop 1 s) @ exponent_str x
         else if x \<ge> 0 then with_point (take (nat x + 1) s) (drop (nat x + 1) s)
         else with_point ''0'' (replicate (nat (- x) - 1) (CHR ''0'') @ s))"
      using assms False by (simp add: fp_str_def fp_str_prec_def Let_def s_def x_def v0_def)
  have none: "power_text []" "list_all is_digit ''0''" by (simp_all add: power_text_def is_digit_def)
  consider "x < - 4 \<or> x \<ge> 6" | "\<not> (x < - 4 \<or> x \<ge> 6)" "x \<ge> 0" | "\<not> (x < - 4 \<or> x \<ge> 6)" "\<not> x \<ge> 0" by blast
  then show ?thesis
  proof cases
    case 1
    then show ?thesis using ds(1,2,4) sign str exponent_str_text by (intro point_number [of "fp_sign_str w" "take 1 s" "drop 1 s"]) auto
  next
    case 2
    then show ?thesis using ds(1,2,4) sign str none(1)
      by (intro point_number [of "fp_sign_str w" "take (nat x + 1) s" "drop (nat x + 1) s" "[]"]) auto
  next
    case 3
    then show ?thesis using ds(3) sign str none
      by (intro point_number [of "fp_sign_str w" "''0''" "replicate (nat (- x) - 1) (CHR ''0'') @ s" "[]"]) auto
  qed
qed

definition exponent_ok :: "string \<Rightarrow> bool" where
  "exponent_ok s \<longleftrightarrow> s = [] \<or> hd s \<in> set ''eE'' \<and> exponent_text (tl s) \<noteq> None"

lemma exponent_token_ok:
  assumes "exponent_token s = Inr (e, r)"
  shows "exponent_ok e"
proof (cases "e = []")
  case False
  define sign where "sign = (if take 1 (drop 1 s) \<in> {''+'', ''-''} then take 1 (drop 1 s) else [])"
  define ds where "ds = takeWhile is_digit (drop (Suc (length sign)) s)"
  have "take 1 s \<in> {''e'', ''E''}" "e = take 1 s @ sign @ ds" "ds \<noteq> []"
    using assms False by (auto simp: exponent_token_def Let_def sign_def ds_def split: if_splits)
  then obtain c where e: "c \<in> set ''eE''" "e = c # sign @ ds" "ds \<noteq> []" by (cases s) auto
  have sign: "sign \<in> {[], ''+'', ''-''}" by (auto simp: sign_def)
  have digits: "list_all is_digit ds" by (auto simp: ds_def list_all_iff dest: set_takeWhileD)
  then have "take 1 ds \<notin> {''+'', ''-''}" using e(3) by (cases ds) (auto simp: is_digit_def)
  then show ?thesis using e sign digits by (auto simp: exponent_ok_def exponent_text_def signed_text_def Let_def)
qed (simp add: exponent_ok_def)

lemma token_float:
  assumes "whole \<noteq> []" "list_all is_digit whole" "fraction_text frac" "exponent_ok expo"
  shows "\<exists>d. float_text is_digit 10 ''eE'' 10 1 neg (whole @ frac @ expo) = Some d"
proof -
  have expo: "expo = [] \<or> \<not> is_digit (hd expo) \<and> hd expo \<noteq> CHR ''.''" using assms(4) by (auto simp: exponent_ok_def is_digit_def)
  then have "frac @ expo = [] \<or> \<not> is_digit (hd (frac @ expo))" using assms(3) by (cases frac) (auto simp: fraction_text_def is_digit_def)
  note whole = digits_split [OF assms(2) this]
  show ?thesis
  proof (cases "frac = []")
    case True
    then have "take 1 expo \<noteq> ''.''" using expo by (cases expo) auto
    then show ?thesis using whole True assms(1,4) by (auto simp: float_text_def Let_def exponent_ok_def)
  next
    case False
    then obtain ds where "frac = CHR ''.'' # ds" "list_all is_digit ds" using assms(3) by (cases frac) (auto simp: fraction_text_def)
    then show ?thesis using whole digits_split [of ds expo] expo assms(1,4) by (auto simp: float_text_def Let_def exponent_ok_def)
  qed
qed

text \<open>\<open>std::strtod\<close> takes every number token as a whole.\<close>

lemma token_strtod:
  assumes "number_token s = Inr (token, b, r)"
  shows "\<exists>d. strtod token = Some d"
proof -
  obtain sign whole frac expo where t: "token = sign @ whole @ frac @ expo" "sign \<in> {[], ''-''}" "whole \<noteq> []" "list_all is_digit whole"
      "fraction_text frac" "exponent_ok expo"
  proof -
    define sign where "sign = (if take 1 s = ''-'' then ''-'' else [])"
    define whole where "whole = takeWhile is_digit (drop (length sign) s)"
    define r' where "r' = dropWhile is_digit (drop (length sign) s)"
    define frac where "frac = (if take 1 r' = ''.'' then ''.'' @ takeWhile is_digit (drop 1 r') else [])"
    define r'' where "r'' = (if take 1 r' = ''.'' then dropWhile is_digit (drop 1 r') else r')"
    have "whole \<noteq> []" "\<exists>expo. exponent_token r'' = Inr (expo, r) \<and> token = sign @ whole @ frac @ expo"
      using assms unfolding number_token_def Let_def
      by (simp_all add: sign_def whole_def r'_def frac_def r''_def split: if_splits) 
    moreover have "list_all is_digit (takeWhile is_digit u)" for u by (auto simp: list_all_iff dest: set_takeWhileD)
    ultimately show thesis
      using that [of sign whole frac] exponent_token_ok by (auto simp: sign_def whole_def frac_def fraction_text_def)
  qed
  obtain c w where cw: "whole = c # w" "is_digit c" "c \<notin> set ''+-''" using t(3,4) by (cases whole) (auto simp: is_digit_def)
  have "signed_text token = (sign = ''-'', whole @ frac @ expo)" using t(1,2) cw by (auto simp: signed_text_def)
  moreover have "take 2 (whole @ frac @ expo) \<notin> {''0x'', ''0X''}"
  proof -
    have "u = [] \<or> hd u \<notin> set ''xX''" if "u = w @ frac @ expo" for u
      using that t(4-6) cw by (cases w; cases frac; cases expo) (auto simp: is_digit_def fraction_text_def exponent_ok_def)
    from this [OF refl] show ?thesis using cw by (cases "w @ frac @ expo") auto
  qed
  ultimately show ?thesis using token_float [OF t(3-6)] by (auto simp: strtod_def)
qed

lemma number_text_start:
  assumes "number_text sign whole frac expo"
  shows "\<exists>c r. sign @ whole @ frac @ expo = c # r \<and> (c = CHR ''-'' \<or> is_digit c)"
  using assms by (cases whole) (auto simp: number_text_def)

lemma float_parsed:
  assumes "json_float d" "follows t"
  shows "parse_number (fp_str d @ t) = Inr (VFloat d, t)"
proof -
  obtain sign whole frac expo where s: "fp_str d = sign @ whole @ frac @ expo" "number_text sign whole frac expo"
    using fp_str_text [of d] assms(1) unfolding json_float_def by blast
  have "\<not> maybe_float (sign @ whole)"
    using s(2) digit_plain by (fastforce simp: number_text_def maybe_float_def list_ex_iff list_all_iff)
  then have "frac \<noteq> [] \<or> expo \<noteq> []" using assms(1) s(1) by (auto simp: json_float_def)
  then have "number_token (fp_str d @ t) = Inr (fp_str d, True, t)"
    using s number_token_text [of sign whole frac expo t] assms(2) by (simp add: number_text_def)
  then show ?thesis using assms(1) by (simp add: parse_number_def json_float_def)
qed

lemma int_parsed:
  assumes "follows t"
  shows "parse_number (i64_str i @ t) = Inr (VInt i, t)"
proof -
  define sign where "sign = (if sint i < 0 then ''-'' else [])"
  define whole where "whole = pos_str \<bar>sint i\<bar>"
  have s: "i64_str i = sign @ whole" "number_text sign whole [] []"
    using pos_str_digits [of "\<bar>sint i\<bar>"]
    by (simp_all add: i64_str_def int_str_def number_text_def fraction_text_def power_text_def sign_def whole_def)
  then have "number_token (i64_str i @ t) = Inr (i64_str i, False, t)"
    using number_token_text [of sign whole "[]" "[]" t] assms by (simp add: number_text_def)
  then show ?thesis by (simp add: parse_number_def from_chars_str)
qed

lemma string_parsed: "string_chars out (escape_text s @ dquote # t) = Inr (out @ s, t)"
  by (induction s arbitrary: out) (auto simp: escape_char_def json_unescaped_def)

subsection \<open>Decoding\<close>

definition begins :: "string \<Rightarrow> bool" where
  "begins s \<longleftrightarrow> s \<noteq> [] \<and> \<not> is_space (hd s) \<and> hd s \<noteq> CHR '']''"

definition decodes :: "(map_storage \<Rightarrow> map_storage) \<Rightarrow> string \<Rightarrow> json \<Rightarrow> bool" where
  "decodes arrange s j \<longleftrightarrow> begins s \<and>
     (\<forall>t ob. follows t \<longrightarrow> (\<exists>k v ob'. parse_value arrange k (s @ t) ob = (Inr (v, t), ob') \<and> denotes (lo_next ob) ob' v j))"

lemma begins_skip: "begins s \<Longrightarrow> skip_ws (s @ t) = s @ t"
  by (cases s) (auto simp: begins_def skip_ws_def)

lemma decodes_scalar:
  assumes "begins s" "hd s \<noteq> CHR ''[''" "hd s \<noteq> CHR ''{''" "\<And>t. follows t \<Longrightarrow> parse_scalar (s @ t) = Inr (v, t)"
    "\<And>n ob. denotes n ob v j"
  shows "decodes arrange s j"
proof -
  have "parse_value arrange 1 (s @ t) ob = (Inr (v, t), ob)" if "follows t" for t ob
    using assms(1-4) that begins_skip [of s t] by (cases s) (auto simp: begins_def)
  then show ?thesis using assms(1,5) unfolding decodes_def by blast
qed

lemma decodes_number:
  assumes "\<And>t. follows t \<Longrightarrow> parse_number (s @ t) = Inr (v, t)" "s = c # r" "c = CHR ''-'' \<or> is_digit c" "\<And>n ob. denotes n ob v j"
  shows "decodes arrange s j"
proof (rule decodes_scalar)
  have "c \<notin> set [CHR '' '', tabulator, newline, CHR 0x0B, CHR 0x0C, carriage, CHR '']'', CHR ''['', CHR ''{'', CHR ''n'', CHR ''t'', CHR ''f'', dquote]"
    using assms(3) by (auto simp: is_digit_def)
  then have c: "\<not> is_space c" "c \<noteq> CHR '']''" "c \<noteq> CHR ''[''" "c \<noteq> CHR ''{''" "c \<noteq> CHR ''n''" "c \<noteq> CHR ''t''" "c \<noteq> CHR ''f''" "c \<noteq> dquote"
    by (simp_all add: is_space_def)
  then show "begins s" "hd s \<noteq> CHR ''[''" "hd s \<noteq> CHR ''{''" by (simp_all add: assms(2) begins_def)
  show "parse_scalar (s @ t) = Inr (v, t)" if "follows t" for t
    using assms(1) [OF that] assms(2,3) c by (auto simp: parse_scalar_def)
qed (rule assms(4))

lemma decodes_string: "decodes arrange (json_text s) (J_string s)"
proof (rule decodes_scalar [where v = "VStr s"])
  show "parse_scalar (json_text s @ t) = Inr (VStr s, t)" for t
    using string_parsed [of "[]" s t] by (simp add: parse_scalar_def json_text_def quoted_def parse_string_def expect_def)
qed (simp_all add: begins_def json_text_def quoted_def is_space_def denotes.intros)

lemma decodes_literals:
  "decodes arrange ''null'' (J_array [])" "decodes arrange (bool_json b) (J_bool b)"
proof -
  have nil: "denotes n ob VNil (J_array [])" for n ob using denotes_list [of n ob "[]" "[]"] by (simp add: list_from_vector_def)
  show "decodes arrange ''null'' (J_array [])"
    by (rule decodes_scalar [where v = VNil]) (simp_all add: begins_def is_space_def parse_scalar_def consume_literal_def nil)
  show "decodes arrange (bool_json b) (J_bool b)"
    by (rule decodes_scalar [where v = "VBool b"])
      (auto simp: begins_def bool_json_def is_space_def parse_scalar_def consume_literal_def denotes.intros)
qed

lemma decodes_float:
  assumes "json_float d"
  shows "decodes arrange (fp_str d) (J_float d)"
proof -
  obtain sign whole frac expo where s: "fp_str d = sign @ whole @ frac @ expo" "number_text sign whole frac expo"
    using fp_str_text [of d] assms unfolding json_float_def by blast
  obtain c r where "fp_str d = c # r" "c = CHR ''-'' \<or> is_digit c" using number_text_start [OF s(2)] unfolding s(1) by blast
  then show ?thesis using decodes_number [OF float_parsed [OF assms]] denotes_float [OF assms] by blast
qed

lemma decodes_int: "decodes arrange (i64_str i) (J_int i)"
proof -
  obtain c r where "i64_str i = c # r" "c = CHR ''-'' \<or> is_digit c" using int_text_chars [of i] by (cases "i64_str i") auto
  then show ?thesis using decodes_number [OF int_parsed [of _ i]] denotes_int by blast
qed

subsection \<open>Arrays\<close>

lemma skip_ws_stops [simp]: "\<not> is_space c \<Longrightarrow> skip_ws (c # s) = c # s"
  by (simp add: skip_ws_def)

lemma marks_not_space [simp]:
  "\<not> is_space (CHR '','')" "\<not> is_space (CHR '']'')" "\<not> is_space (CHR ''['')" "\<not> is_space (CHR ''{'')" "\<not> is_space (CHR ''}'')"
  "\<not> is_space (CHR '':'')" "\<not> is_space dquote"
  by (simp_all add: is_space_def)

lemma calls_settled:
  assumes "k \<le> k'"
  shows "array_items arrange k items s ob = (Inr x, ob') \<Longrightarrow> array_items arrange k' items s ob = (Inr x, ob')"
    and "object_members arrange k i s ob = (Inr x, ob') \<Longrightarrow> object_members arrange k' i s ob = (Inr x, ob')"
    and "parse_value arrange k s ob = (Inr x, ob') \<Longrightarrow> parse_value arrange k' s ob = (Inr x, ob')"
  using assms
  by (induction k' rule: dec_induct)
    (simp_all del: parse_value.simps array_items.simps object_members.simps add: parse_more_calls)

lemma items_decoded:
  assumes "list_all2 (decodes arrange) ss js" "ss \<noteq> []" "list_all2 (denotes n ob) vs js'" "n \<le> lo_next ob"
  shows "\<exists>k v ob'. array_items arrange k vs (comma_join ss @ CHR '']'' # t) ob = (Inr (v, t), ob') \<and> denotes n ob' v (J_array (js' @ js))"
  using assms
proof (induction ss arbitrary: js vs js' ob)
  case (Cons s ss)
  obtain j js1 where j: "js = j # js1" "decodes arrange s j" "list_all2 (decodes arrange) ss js1"
    using Cons.prems(1) by (cases js) auto
  define rest where "rest = (if ss = [] then CHR '']'' # t else CHR '','' # comma_join ss @ CHR '']'' # t)"
  have joined: "comma_join (s # ss) @ CHR '']'' # t = s @ rest" by (cases ss) (simp_all add: rest_def)
  have "follows rest" by (simp add: follows_def rest_def)
  then obtain k v ob1 where p: "parse_value arrange k (s @ rest) ob = (Inr (v, rest), ob1)" "denotes (lo_next ob) ob1 v j"
    using j(2) unfolding decodes_def by blast
  have objects_grow: "objects_grow (lo_next ob) ob ob1" using parse_grows(1) [of "lo_next ob" ob arrange k "s @ rest"] p(1) by simp
  have "list_all2 (denotes n ob1) vs js'"
    using Cons.prems(3) denotes_grows [OF _ objects_grow order_refl] by (rule list.rel_mono_strong)
  moreover have "denotes n ob1 v j" using denotes_grows [OF p(2) objects_grow_refl Cons.prems(4)] .
  ultimately have all: "list_all2 (denotes n ob1) (vs @ [v]) (js' @ [j])" "n \<le> lo_next ob1"
    using Cons.prems(4) objects_grow by (auto simp: objects_grow_def intro: list_all2_appendI)
  show ?case
  proof (cases "ss = []")
    case True
    then have "array_items arrange (Suc k) vs (s @ rest) ob = (Inr (list_from_vector (vs @ [v]), t), ob1)"
      using p(1) by (auto simp: array_items_Inr rest_def simp del: array_items.simps)
    moreover have "denotes n ob1 (list_from_vector (vs @ [v])) (J_array (js' @ js))"
      using all(1) j(1,3) True by (intro denotes_list) simp
    ultimately show ?thesis unfolding joined by blast
  next
    case False
    obtain k' v' ob' where rec: "array_items arrange k' (vs @ [v]) (comma_join ss @ CHR '']'' # t) ob1 = (Inr (v', t), ob')"
        "denotes n ob' v' (J_array ((js' @ [j]) @ js1))"
      using Cons.IH [OF j(3) False all] by blast
    have "array_items arrange (Suc (max k k')) vs (s @ rest) ob = (Inr (v', t), ob')"
      using calls_settled(1) [OF max.cobounded2 rec(1), of k] calls_settled(3) [OF max.cobounded1 p(1), of k'] False
      by (auto simp: array_items_Inr rest_def simp del: array_items.simps)
    moreover have "denotes n ob' v' (J_array (js' @ js))" using rec(2) j(1) by simp
    ultimately show ?thesis unfolding joined by blast
  qed
qed simp

lemma decodes_array:
  assumes "list_all2 (decodes arrange) ss js"
  shows "decodes arrange (json_array ss) (J_array js)"
proof -
  have "\<exists>k v ob'. parse_value arrange k (json_array ss @ t) ob = (Inr (v, t), ob') \<and> denotes (lo_next ob) ob' v (J_array js)" for t ob
  proof (cases "ss = []")
    case True
    then have "parse_value arrange 1 (json_array ss @ t) ob = (Inr (VNil, t), ob)"
      by (simp add: json_array_def consume_if_def)
    moreover have "denotes (lo_next ob) ob VNil (J_array js)"
      using assms True denotes_list [of _ _ "[]" "[]"] by (simp add: list_from_vector_def)
    ultimately show ?thesis by blast
  next
    case False
    obtain k v ob' where items: "array_items arrange k [] (comma_join ss @ CHR '']'' # t) ob = (Inr (v, t), ob')"
        "denotes (lo_next ob) ob' v (J_array ([] @ js))"
      using items_decoded [OF assms False, of _ ob "[]" "[]"] by blast
    obtain c r where cr: "comma_join ss @ CHR '']'' # t = c # r" "\<not> is_space c" "c \<noteq> CHR '']''"
      using assms False by (cases ss; cases "tl ss"; cases "hd ss") (auto simp: list_all2_Cons1 decodes_def begins_def)
    then have "parse_value arrange (Suc k) (json_array ss @ t) ob = (Inr (v, t), ob')"
      using items(1) by (simp add: json_array_def consume_if_def del: array_items.simps)
    then show ?thesis using items(2) by (metis append_Nil)
  qed
  then show ?thesis by (simp add: decodes_def begins_def json_array_def)
qed

subsection \<open>Objects\<close>

definition filled :: "nat \<Rightarrow> lisp_objects \<Rightarrow> (string \<Rightarrow> json option) \<Rightarrow> bool" where
  "filled i ob m \<longleftrightarrow> i < lo_next ob \<and> map_ok (lo_maps ob i) \<and>
     (\<forall>key v. map_of (lo_maps ob i) key = Some v \<longrightarrow> (\<exists>s j. key = MK_string s \<and> m s = Some j \<and> denotes (Suc i) ob v j)) \<and>
     (\<forall>s\<in>dom m. map_of (lo_maps ob i) (MK_string s) \<noteq> None)"

lemma filled_entry: "filled i ob m \<Longrightarrow> map_of (lo_maps ob i) key = Some v \<Longrightarrow> \<exists>s j. key = MK_string s \<and> m s = Some j \<and> denotes (Suc i) ob v j"
  by (simp add: filled_def)

lemma filled_dom: "filled i ob m \<Longrightarrow> m s = Some j \<Longrightarrow> \<exists>v. map_of (lo_maps ob i) (MK_string s) = Some v"
  unfolding filled_def by blast

lemma filled_new: "filled (lo_next ob) (snd (make_map ob)) Map.empty"
  by (simp add: filled_def make_map_def map_ok_def)

lemma filled_grows:
  assumes "filled i ob m" "objects_grow (lo_next ob) ob ob'"
  shows "filled i ob' m"
proof -
  have "lo_maps ob' i = lo_maps ob i" "i < lo_next ob'" using assms by (auto simp: filled_def objects_grow_def)
  then show ?thesis using assms denotes_grows [OF _ assms(2) order_refl] unfolding filled_def by metis
qed

lemma filled_store:
  assumes "filled i ob m" "denotes (Suc i) ob v j" "\<And>m. mset (arrange m) = mset m"
  shows "filled i (store_member arrange i key v ob) (m(key \<mapsto> j))"
proof -
  let ?ob = "store_member arrange i key v ob"
  have ob: "lo_maps ?ob i = map_put arrange (MK_string key) v (lo_maps ob i)" "lo_next ?ob = lo_next ob"
    by (simp_all add: store_member_def set_map_def)
  have put: "map_ok (lo_maps ?ob i)" "map_of (lo_maps ?ob i) = (map_of (lo_maps ob i))(MK_string key \<mapsto> v)"
    using map_put_correct [of "lo_maps ob i" "MK_string key" arrange v] assms(1,3) unfolding ob by (auto simp: filled_def key_normal_def)
  have keep: "denotes (Suc i) ?ob u j'" if "denotes (Suc i) ob u j'" for u j'
    by (rule denotes_keeps [OF that]) (auto simp: store_member_def set_map_def)
  have "\<exists>s j'. k = MK_string s \<and> (m(key \<mapsto> j)) s = Some j' \<and> denotes (Suc i) ?ob u j'"
    if entry: "((map_of (lo_maps ob i))(MK_string key \<mapsto> v)) k = Some u" for k u
  proof (cases "k = MK_string key")
    case False
    then obtain s j' where "k = MK_string s" "m s = Some j'" "denotes (Suc i) ob u j'"
      using entry filled_entry [OF assms(1), of k u] by auto
    then show ?thesis using False keep by auto
  qed (use entry keep [OF assms(2)] in auto)
  then show ?thesis using assms(1) unfolding filled_def put(2) by (auto simp: ob(2) put(1))
qed

lemma filled_denotes: "filled i ob m \<Longrightarrow> denotes i ob (VOther T_map i) (J_object m)"
proof -
  assume f: "filled i ob m"
  let ?m = "lo_maps ob i"
  have d: "distinct (map fst ?m)" using f by (simp add: filled_def map_ok_def)
  then have entry: "\<exists>s j. k = MK_string s \<and> m s = Some j \<and> denotes (Suc i) ob v j" if "(k, v) \<in> set ?m" for k v
    using f that by (simp add: filled_def)
  have inj: "inj_on map_key_to_json_object_key (fst ` set ?m)" 
  proof (rule inj_onI)
    fix x y assume "x \<in> fst ` set ?m" "y \<in> fst ` set ?m" "map_key_to_json_object_key x = map_key_to_json_object_key y"
    moreover from this obtain s r where "x = MK_string s" "y = MK_string r" using entry by fastforce
    ultimately show "x = y" by simp
  qed
  show ?thesis
  proof (rule denotes_map)
    show "distinct (map (map_key_to_json_object_key \<circ> fst) ?m)" using d inj by (simp add: distinct_map comp_inj_on)
    show "dom m = (map_key_to_json_object_key \<circ> fst) ` set ?m"
    proof
      show "dom m \<subseteq> (map_key_to_json_object_key \<circ> fst) ` set ?m"
      proof
        fix s assume "s \<in> dom m"
        then obtain v where "map_of ?m (MK_string s) = Some v" using filled_dom [OF f] by blast
        then show "s \<in> (map_key_to_json_object_key \<circ> fst) ` set ?m" by (force dest: map_of_SomeD)
      qed
    qed (use entry in fastforce)
    show "\<forall>(k, v)\<in>set ?m. \<exists>j. m (map_key_to_json_object_key k) = Some j \<and> denotes i ob v j"
      using entry denotes_grows [OF _ objects_grow_refl, of "Suc i" ob _ _ i] by fastforce
  qed (use f in \<open>simp_all add: filled_def\<close>)
qed

definition put_all :: "(string \<times> json) list \<Rightarrow> (string \<Rightarrow> json option) \<Rightarrow> string \<Rightarrow> json option" where
  "put_all ps m = fold (\<lambda>(k, j) m. m(k \<mapsto> j)) ps m"

lemma put_all_map_of: "distinct (map fst ps) \<Longrightarrow> put_all ps m = m ++ map_of ps"
  unfolding put_all_def by (induction ps arbitrary: m) (auto simp: map_add_upd_left split_def dom_map_of_conv_image_fst)

definition member_text :: "string \<times> string \<Rightarrow> string" where
  "member_text ks = json_text (fst ks) @ '':'' @ snd ks"

lemma members_decoded:
  assumes "list_all2 (decodes arrange) (map snd ms) js" "ms \<noteq> []" "filled i ob m" "\<And>m. mset (arrange m) = mset m"
  shows "\<exists>k ob'. object_members arrange k i (comma_join (map member_text ms) @ CHR ''}'' # t) ob = (Inr (VOther T_map i, t), ob') \<and>
    filled i ob' (put_all (zip (map fst ms) js) m)"
  using assms(1-3)
proof (induction ms arbitrary: js ob m)
  case (Cons ks ms)
  obtain key s where ks: "ks = (key, s)" by force
  obtain j js1 where j: "js = j # js1" "decodes arrange s j" "list_all2 (decodes arrange) (map snd ms) js1"
    using Cons.prems(1) ks by (cases js) auto
  define rest where "rest = (if ms = [] then CHR ''}'' # t else CHR '','' # comma_join (map member_text ms) @ CHR ''}'' # t)"
  have joined: "comma_join (map member_text (ks # ms)) @ CHR ''}'' # t = json_text key @ CHR '':'' # s @ rest"
    by (cases ms) (simp_all add: rest_def member_text_def ks)
  have "follows rest" by (simp add: follows_def rest_def)
  then obtain k v ob1 where p: "parse_value arrange k (s @ rest) ob = (Inr (v, rest), ob1)" "denotes (lo_next ob) ob1 v j"
    using j(2) unfolding decodes_def by blast
  have objects_grow: "objects_grow (lo_next ob) ob ob1" using parse_grows(1) [of "lo_next ob" ob arrange k "s @ rest"] p(1) by simp
  have "denotes (Suc i) ob1 v j" using denotes_grows [OF p(2) objects_grow_refl] Cons.prems(3) by (simp add: filled_def Suc_leI)
  then have f: "filled i (store_member arrange i key v ob1) (m(key \<mapsto> j))"
    by (intro filled_store filled_grows [OF Cons.prems(3) objects_grow] assms(4))
  have key: "parse_string (skip_ws (json_text key @ CHR '':'' # s @ rest)) = Inr (key, CHR '':'' # s @ rest)"
    using string_parsed [of "[]" key] by (simp add: json_text_def quoted_def parse_string_def expect_def)
  show ?case
  proof (cases "ms = []")
    case True
    then have "object_members arrange (Suc k) i (json_text key @ CHR '':'' # s @ rest) ob =
        (Inr (VOther T_map i, t), store_member arrange i key v ob1)"
      using p(1) key by (auto simp: object_members_Inr rest_def simp del: object_members.simps)
    moreover have "filled i (store_member arrange i key v ob1) (put_all (zip (map fst (ks # ms)) js) m)"
      using f True j(1) ks by (simp add: put_all_def)
    ultimately show ?thesis unfolding joined by blast
  next
    case False
    obtain k' ob' where rec: "object_members arrange k' i (comma_join (map member_text ms) @ CHR ''}'' # t) (store_member arrange i key v ob1) =
        (Inr (VOther T_map i, t), ob')" "filled i ob' (put_all (zip (map fst ms) js1) (m(key \<mapsto> j)))"
      using Cons.IH [OF j(3) False f] by blast
    have "object_members arrange (Suc (max k k')) i (json_text key @ CHR '':'' # s @ rest) ob = (Inr (VOther T_map i, t), ob')"
      using calls_settled(2) [OF max.cobounded2 rec(1), of k] calls_settled(3) [OF max.cobounded1 p(1), of k'] False key
      by (auto simp: object_members_Inr rest_def simp del: object_members.simps)
    moreover have "filled i ob' (put_all (zip (map fst (ks # ms)) js) m)" using rec(2) j(1) ks by (simp add: put_all_def)
    ultimately show ?thesis unfolding joined by blast
  qed
qed simp

lemma comma_join_start: "xs \<noteq> [] \<Longrightarrow> \<exists>r. comma_join xs = hd xs @ r"
  by (cases xs rule: comma_join.cases) auto

lemma decodes_object:
  assumes "list_all2 (decodes arrange) (map snd ms) js" "distinct (map fst ms)" "\<And>m. mset (arrange m) = mset m"
  shows "decodes arrange (json_object ms) (J_object (map_of (zip (map fst ms) js)))"
proof -
  have len: "length ms = length js" using assms(1) list_all2_lengthD by fastforce
  have fin: "put_all (zip (map fst ms) js) Map.empty = map_of (zip (map fst ms) js)"
    using put_all_map_of [of "zip (map fst ms) js" Map.empty] assms(2) len by simp
  have "\<exists>k v ob'. parse_value arrange k (json_object ms @ t) ob = (Inr (v, t), ob') \<and>
      denotes (lo_next ob) ob' v (J_object (map_of (zip (map fst ms) js)))" for t ob
  proof (cases "ms = []")
    case True
    then have "parse_value arrange 1 (json_object ms @ t) ob = (Inr (VOther T_map (lo_next ob), t), snd (make_map ob))"
      by (simp add: json_object_def consume_if_def)
    moreover have "denotes (lo_next ob) (snd (make_map ob)) (VOther T_map (lo_next ob)) (J_object (map_of (zip (map fst ms) js)))"
      using filled_denotes [OF filled_new] True by simp
    ultimately show ?thesis by blast
  next
    case False
    obtain k ob' where ms: "object_members arrange k (lo_next ob) (comma_join (map member_text ms) @ CHR ''}'' # t) (snd (make_map ob)) =
        (Inr (VOther T_map (lo_next ob), t), ob')" "filled (lo_next ob) ob' (map_of (zip (map fst ms) js))"
      using members_decoded [OF assms(1) False filled_new assms(3)] unfolding fin by blast
    have "json_object ms = CHR ''{'' # comma_join (map member_text ms) @ ''}''"
      by (simp add: json_object_def member_text_def [abs_def] split_def)
    moreover obtain r where "comma_join (map member_text ms) @ CHR ''}'' # t = dquote # r"
      using comma_join_start [of "map member_text ms"] False by (auto simp: hd_map member_text_def json_text_def quoted_def)
    ultimately have "parse_value arrange (Suc k) (json_object ms @ t) ob = (Inr (VOther T_map (lo_next ob), t), ob')"
      using ms(1) by (simp add: consume_if_def del: object_members.simps)
    then show ?thesis using filled_denotes [OF ms(2)] by blast
  qed
  then show ?thesis by (simp add: decodes_def begins_def json_object_def)
qed

subsection \<open>The round trip\<close>

lemma encodes_decodes_each:
  assumes "list_all2 (\<lambda>v j. \<exists>s. encodes ob v s \<and> decodes arrange s j) vs js"
  obtains ss where "list_all2 (encodes ob) vs ss" "list_all2 (decodes arrange) ss js"
proof -
  have "list_all2 (encodes ob OO decodes arrange) vs js" using assms by (rule list.rel_mono_strong) blast
  then show thesis using that unfolding list.rel_compp by blast
qed

lemma denotes_encodes:
  assumes "denotes n ob v j" "\<And>m. mset (arrange m) = mset m"
  shows "\<exists>s. encodes ob v s \<and> decodes arrange s j"
  using assms(1)
proof induction
  case (denotes_list vs js)
  then obtain ss where ss: "list_all2 (encodes ob) vs ss" "list_all2 (decodes arrange) ss js"
    by (elim encodes_decodes_each [rotated]) (auto elim!: list.rel_mono_strong)
  show ?case
  proof (cases vs)
    case Nil
    have "encodes ob VNil ''null''" by (rule encodes_Suc) simp
    then show ?thesis using ss Nil decodes_literals(1) [of arrange] by (auto simp: list_from_vector_def)
  next
    case (Cons v us)
    then show ?thesis using ss encodes_list [of ob v us ss] decodes_array by blast
  qed
next
  case (denotes_vec i js)
  then obtain ss where "list_all2 (encodes ob) (lo_vecs ob i) ss" "list_all2 (decodes arrange) ss js"
    by (elim encodes_decodes_each [rotated]) (auto elim!: list.rel_mono_strong)
  then show ?case using encodes_vec decodes_array by blast
next
  case (denotes_map i m)
  let ?keys = "map (map_key_to_json_object_key \<circ> fst) (lo_maps ob i)" and ?m = "lo_maps ob i"
  define js where "js = map (\<lambda>(k, _). the (m (map_key_to_json_object_key k))) ?m"
  have "\<exists>s. encodes ob (snd e) s \<and> decodes arrange s ((\<lambda>(k, _). the (m (map_key_to_json_object_key k))) e)" if "e \<in> set ?m" for e
    using bspec [OF denotes_map(5) that] by (auto simp: split_def)
  then have "list_all2 (\<lambda>v j. \<exists>s. encodes ob v s \<and> decodes arrange s j) (map snd ?m) js"
    unfolding js_def list_all2_map1 list_all2_map2 list_all2_same by blast
  then obtain ss where ss: "list_all2 (encodes ob) (map snd ?m) ss" "list_all2 (decodes arrange) ss js"
    by (rule encodes_decodes_each)
  have len: "length ss = length ?m" "length js = length ?m" using ss [THEN list_all2_lengthD] by simp_all
  have "decodes arrange (json_object (zip ?keys ss)) (J_object (map_of (zip (map fst (zip ?keys ss)) js)))"
    using ss(2) len denotes_map(3) by (intro decodes_object assms(2)) simp_all
  moreover have "map_of (zip ?keys js) = m"
  proof
    fix s
    show "map_of (zip ?keys js) s = m s"
    proof (cases "s \<in> set ?keys")
      case True
      then obtain l where l: "l < length ?m" "s = ?keys ! l" by (metis in_set_conv_nth length_map)
      then have "map_of (zip ?keys js) s = Some (js ! l)"
        using map_of_zip_nth [of ?keys js l] len denotes_map(3) by simp
      moreover have "s \<in> dom m" unfolding denotes_map(4) using True by simp
      then have "m s = Some (js ! l)" using l by (auto simp: js_def split_def)
      ultimately show ?thesis by simp
    next
      case False
      then have "s \<notin> dom m" "s \<notin> dom (map_of (zip ?keys js))"
        using dom_map_of_zip [of ?keys js] len unfolding denotes_map(4) by auto
      then show ?thesis by (simp add: domIff)
    qed
  qed
  ultimately show ?case using encodes_map [OF ss(1)] len by auto
next
  case (denotes_float d)
  have "encodes ob (VFloat d) (fp_str d)" by (rule encodes_Suc) (use denotes_float in \<open>simp add: json_float_def\<close>)
  then show ?case using decodes_float [OF denotes_float] by blast
next
  case (denotes_bool b)
  have "encodes ob (VBool b) (bool_json b)" by (rule encodes_Suc) simp
  then show ?case using decodes_literals(2) by blast
next
  case (denotes_int i)
  have "encodes ob (VInt i) (i64_str i)" by (rule encodes_Suc) simp
  then show ?case using decodes_int by blast
next
  case (denotes_str s)
  have "encodes ob (VStr s) (json_text s)" by (rule encodes_Suc) simp
  then show ?case using decodes_string by blast
next
  case (denotes_sym s)
  have "encodes ob (VSym s) (json_text s)" by (rule encodes_Suc) simp
  then show ?case using decodes_string by blast
qed

lemma json_decode_document:
  assumes "parse_value arrange k s ob = (Inr (v, []), ob')"
  shows "builtin_json_decode arrange [VStr s] ob = (Ret (Inr v), ob')"
  using json_calls_enough [OF assms]
  by (simp add: builtin_json_decode_def require_arity_def parse_document_def skip_ws_def del: parse_value.simps)


text \<open>
  C19. Decoding always ends: for every text and every state of the objects, \<open>json.decode\<close> returns a value or an error, and neither changes an
  existing object.
\<close>

theorem json_decode_total:
  "\<exists>r ob'. builtin_json_decode arrange args ob = (Ret r, ob') \<and> objects_grow (lo_next ob) ob ob'"
proof -
  have "\<exists>r ob'. (case parse_document arrange s ob of
                  (Inr v, ob') \<Rightarrow> (Ret (Inr v), ob')
                | (Inl (Json_error m), ob') \<Rightarrow> (Ret (Inl (Lisp_error m)), ob')
                | (Inl Json_calls, ob') \<Rightarrow> (Diverge, ob')) = (Ret r, ob') \<and> objects_grow (lo_next ob) ob ob'" for s
  proof -
    obtain x ob' where p: "parse_value arrange (json_calls s) s ob = (x, ob')" by (meson surj_pair)
    have "x \<noteq> Inl Json_calls" using parse_calls(1) [of s "json_calls s" arrange ob] p by (simp add: json_calls_def)
    moreover have "objects_grow (lo_next ob) ob ob'" using parse_grows(1) [of "lo_next ob" ob arrange "json_calls s" s] p by simp
    ultimately show ?thesis
      by (cases x) (auto simp: parse_document_def p json_fail_def split: json_stop.splits)
  qed
  then show ?thesis
    by (auto simp: builtin_json_decode_def require_arity_def split: lisp_value.splits)
qed

definition json_sample :: lisp_objects where
  "json_sample = empty_objects\<lparr>lo_vecs := (\<lambda>_. [])(0 := [VInt 1, VSym ''x'', VFloat 0x3FF8000000000000]),
     lo_maps := (\<lambda>_. [])(1 := [(MK_symbol ''a'', VOther T_vec 0), (MK_integer 7, VNil)]), lo_next := 2\<rparr>"

definition json_sample_value :: json where
  "json_sample_value = J_object [''a'' \<mapsto> J_array [J_int 1, J_string ''x'', J_float 0x3FF8000000000000], ''7'' \<mapsto> J_array []]"

lemma json_sample_denotes: "denotes 0 json_sample (VOther T_map 1) json_sample_value"
proof -
  have "json_float 0x3FF8000000000000" by code_simp
  then have vec: "denotes 0 json_sample (VOther T_vec 0) (J_array [J_int 1, J_string ''x'', J_float 0x3FF8000000000000])"
    by (intro denotes_vec) (simp_all add: json_sample_def denotes.intros)
  have nil: "denotes 0 json_sample VNil (J_array [])" using denotes_list [of 0 json_sample "[]" "[]"] by (simp add: list_from_vector_def)
  have seven: "i64_str 7 = ''7''" by code_simp
  show ?thesis
    unfolding json_sample_value_def
    by (rule denotes_map) (use vec nil in \<open>auto simp: json_sample_def seven\<close>)
qed


text \<open>
  C20. Encoding a vector that was pushed into itself never ends: no depth is enough. (The program overflows its stack.)
\<close>

theorem json_encode_cyclic:
  assumes "builtin_vec_make [] ob = (Inr v, ob')" "builtin_vec_push [v, v] ob' = (Inr r, ob'')"
  shows "builtin_json_encode depth ob'' [v] = Diverge"
proof -
  have v: "v = VOther T_vec (lo_next ob)" "lo_vecs ob'' (lo_next ob) = [v]"
    using assms
    by (auto simp: builtin_vec_make_def capacity_arg_def make_vec_def object_bind_def reserve_elements_def max_elements_def
        builtin_vec_push_def with_vec_def require_arity_def require_vec_arg_def require_object_def Let_def set_vec_def oreturn_def
        to_int64_size_def split: if_splits sum.splits)
  have "value_to_json k ob'' v = Diverge" for k
    by (induction k) (simp_all add: v orbind_def)
  then show ?thesis by (simp add: builtin_json_encode_def require_arity_def orbind_def)
qed

lemma json_encode_cyclic_witness:
  "\<exists>v ob' r ob''. builtin_vec_make [] empty_objects = (Inr v, ob') \<and> builtin_vec_push [v, v] ob' = (Inr r, ob'') \<and>
     (\<forall>depth. builtin_json_encode depth ob'' [v] = Diverge)"
proof -
  obtain v ob' where made: "builtin_vec_make [] empty_objects = (Inr v, ob')" "v = VOther T_vec 0" "lo_vecs ob' 0 = []"
    by (simp add: builtin_vec_make_def capacity_arg_def make_vec_def object_bind_def reserve_elements_def max_elements_def empty_objects_def)
  moreover obtain r ob'' where "builtin_vec_push [v, v] ob' = (Inr r, ob'')"
    using made(2,3) by (simp add: builtin_vec_push_def with_vec_def require_arity_def require_vec_arg_def require_object_def object_bind_def Let_def set_vec_def
        oreturn_def to_int64_size_def)
  ultimately show ?thesis using json_encode_cyclic by blast
qed

text \<open>
  The parser's grammar is not that of JSON: leading zeros and a point without digits are accepted, an escaped code point is rejected.
\<close>

lemma json_grammar_differs:
  "fst (builtin_json_decode arrange [VStr ''01''] ob) = Ret (Inr (VInt 1))"
  "fst (builtin_json_decode arrange [VStr ''2.''] ob) = Ret (Inr (VFloat 0x4000000000000000))"
  "fst (builtin_json_decode arrange [VStr [dquote, backslash, CHR ''u'', CHR ''0'', CHR ''0'', CHR ''4'', CHR ''1'', dquote]] ob) =
     Ret (Inl (Lisp_error ''json.decode: unsupported escape sequence''))"
proof -
  have num: "parse_number ''01'' = Inr (VInt 1, [])" "parse_number ''2.'' = Inr (VFloat 0x4000000000000000, [])" by code_simp+
  then have "parse_value arrange 1 ''01'' ob = (Inr (VInt 1, []), ob)"
    "parse_value arrange 1 ''2.'' ob = (Inr (VFloat 0x4000000000000000, []), ob)"
    by (simp_all add: skip_ws_def is_space_def parse_scalar_def is_digit_def)
  from this [THEN json_decode_document] show "fst (builtin_json_decode arrange [VStr ''01''] ob) = Ret (Inr (VInt 1))"
    "fst (builtin_json_decode arrange [VStr ''2.''] ob) = Ret (Inr (VFloat 0x4000000000000000))" by simp_all
  show "fst (builtin_json_decode arrange [VStr [dquote, backslash, CHR ''u'', CHR ''0'', CHR ''0'', CHR ''4'', CHR ''1'', dquote]] ob) =
     Ret (Inl (Lisp_error ''json.decode: unsupported escape sequence''))"
    by (simp add: builtin_json_decode_def require_arity_def parse_document_def json_calls_def skip_ws_def is_space_def parse_scalar_def
        parse_string_def expect_def json_unescaped_def json_fail_def eval_nat_numeral)
qed

end
