(* ===== verification/Global_Env.thy ===== *)
theory Global_Env
  imports Builtins_Bt Builtins_Json
begin

text \<open>
  The builtin functions for output and the collector, and the global environment (\<open>install_core_builtins\<close> of \<open>src/builtins.cpp\<close>,
  \<open>create_global_env\<close> of \<open>src/eval.cpp\<close>). The machine that Lisp programs run on holds the trees with the file system, the mutable objects
  and the text printed so far. A primitive function is named by its place in the table \<open>core_builtins\<close>.

  The builtins that are not modelled (planner, VLA service, model service, capabilities, simulated environments, clock, collector,
  \<open>eq?\<close> on the identity of objects) are the field \<open>ls_rest\<close> of the setup: any function of the world, by name. The functions of the
  collector are modelled on a heap of their own, since the evaluator's values are not nodes of a heap here.
\<close>

subsection \<open>Output\<close>

definition print_gc_snapshot :: "gc_stats_snapshot \<Rightarrow> string" where
  "print_gc_snapshot s =
     ''total allocated objects: '' @ nat_str (gs_total_allocated_objects s) @ [newline] @
     ''live objects after last GC: '' @ nat_str (gs_live_objects_after_last_gc s) @ [newline] @
     ''bytes allocated: '' @ nat_str (gs_bytes_allocated s) @ [newline] @
     ''next GC threshold: '' @ nat_str (gs_next_gc_threshold s) @ [newline] @
     ''collection count: '' @ nat_str (gs_collection_count s) @ [newline] @
     ''total GC pause ns: '' @ nat_str (gs_total_pause_ns s) @ [newline] @
     ''freed objects total: '' @ nat_str (gs_freed_objects_total s) @ [newline] @
     ''forced collection count: '' @ nat_str (gs_forced_collection_count s) @ [newline]"

text \<open>A builtin of the collector gives its result, what it prints, and the heap.\<close>

type_synonym heap_builtin = "lisp_value list \<Rightarrow> gc_heap \<Rightarrow> (lisp_exn + lisp_value) outcome \<times> string \<times> gc_heap"

definition builtin_heap_stats :: heap_builtin where
  "builtin_heap_stats args h =
     (case require_arity ''heap-stats'' args 0 of
        Inl e \<Rightarrow> (Ret (Inl e), [], h)
      | Inr _ \<Rightarrow> (Ret (Inr VNil), print_gc_snapshot (gc_stats h), h))"

definition builtin_gc_stats :: heap_builtin where
  "builtin_gc_stats args h =
     (case require_arity ''gc-stats'' args 0 of
        Inl e \<Rightarrow> (Ret (Inl e), [], h)
      | Inr _ \<Rightarrow>
          (case gc_collect h of
             Ret h' \<Rightarrow> (Ret (Inr VNil), print_gc_snapshot (gc_stats h'), h')
           | Throw e \<Rightarrow> (Ret (Inl (Foreign e)), [], h)
           | Undef \<Rightarrow> (Undef, [], h)
           | Diverge \<Rightarrow> (Diverge, [], h)))"

definition gc_policy_to_lisp :: "gc_policy \<Rightarrow> lisp_value" where
  "gc_policy_to_lisp p = VSym ('':'' @ policy_name p)"

definition builtin_gc_policy :: heap_builtin where
  "builtin_gc_policy args h =
     (Ret (rbind (require_arity ''gc.policy'' args 0) (\<lambda>_. Inr (gc_policy_to_lisp (gh_policy h)))), [], h)"

definition builtin_gc_set_policy :: heap_builtin where
  "builtin_gc_set_policy args h =
     (case rbind (require_arity ''gc.set-policy!'' args 1)
         (\<lambda>_. case args ! 0 of
            VStr s \<Rightarrow> Inr s
          | VSym s \<Rightarrow> Inr s
          | _ \<Rightarrow> Inl (Lisp_error ''gc.set-policy!: expected string or symbol'')) of
        Inl e \<Rightarrow> (Ret (Inl e), [], h)
      | Inr s \<Rightarrow>
          (case parse_policy s of
             None \<Rightarrow> (Ret (Inl (Lisp_error
               ''gc.set-policy!: expected :default, :between-ticks, :manual, or :fail-on-tick-gc'')), [], h)
           | Some p \<Rightarrow> (Ret (Inr (gc_policy_to_lisp p)), [], set_policy p h)))"

text \<open>A printing builtin gives its result and what it prints. Printing never fails: \<open>print_value\<close> has a text for every value.\<close>

type_synonym print_builtin = "object_info \<Rightarrow> lisp_value list \<Rightarrow> lisp_value checked \<times> string"

definition printed :: "object_info \<Rightarrow> lisp_value \<Rightarrow> string" where
  "printed info v = (case print_value info v of Inl _ \<Rightarrow> [] | Inr s \<Rightarrow> s)"

definition builtin_print :: print_builtin where
  "builtin_print info args =
     (Inr VNil, concat (map (\<lambda>i. (if i > 0 then '' '' else []) @ printed info (args ! i)) [0..<length args]) @ [newline])"

definition builtin_write :: print_builtin where
  "builtin_write info args =
     (case rbind (require_arity ''write'' args 1) (\<lambda>_. written info (args ! 0)) of
        Inl e \<Rightarrow> (Inl e, [])
      | Inr s \<Rightarrow> (Inr (args ! 0), s @ [newline]))"

definition builtin_write_to_string :: print_builtin where
  "builtin_write_to_string info args =
     (rbind (require_arity ''write-to-string'' args 1) (\<lambda>_. rbind (written info (args ! 0)) (\<lambda>s. Inr (VStr s))), [])"

subsection \<open>The machine\<close>

record ('w, 'p) lisp_machine =
  ma_bt :: "('w, 'p) bt_world"
  ma_objects :: lisp_objects
  ma_out :: string

type_synonym ('w, 'p) machine_builtin =
  "('w, 'p) lisp_machine invocation \<Rightarrow> lisp_value list \<Rightarrow> (lisp_value, ('w, 'p) lisp_machine) evaluation"

record ('w, 'p) lisp_setup =
  ls_libm :: libm
  ls_arrange :: "map_storage \<Rightarrow> map_storage"
  ls_halt_steps :: nat
  ls_levels :: nat
  ls_json_depth :: nat
  ls_rest :: "string \<Rightarrow> ('w, 'p) machine_builtin"

text \<open>A call that does not end within its bounds, or whose behaviour is not defined, has no answer.\<close>

definition answered :: "(lisp_exn + 'a) outcome \<Rightarrow> lisp_exn + 'a" where
  "answered r = (case r of Ret x \<Rightarrow> x | Throw e \<Rightarrow> Inl (Foreign e) | Undef \<Rightarrow> Inl No_fuel | Diverge \<Rightarrow> Inl No_fuel)"

definition pure :: "(lisp_value list \<Rightarrow> lisp_value checked) \<Rightarrow> ('w, 'p) machine_builtin" where
  "pure f invoke args w = (f args, w)"

definition on_machine ::
  "(lisp_value list \<Rightarrow> ('w, 'p) lisp_machine \<Rightarrow> (lisp_exn + lisp_value) outcome \<times> ('w, 'p) lisp_machine) \<Rightarrow> ('w, 'p) machine_builtin" where
  "on_machine f invoke args w = (case f args (lw_host w) of (r, m) \<Rightarrow> (answered r, w\<lparr>lw_host := m\<rparr>))"

definition on_objects_outcome ::
  "(lisp_value list \<Rightarrow> lisp_objects \<Rightarrow> (lisp_exn + lisp_value) outcome \<times> lisp_objects) \<Rightarrow> ('w, 'p) machine_builtin" where
  "on_objects_outcome f = on_machine (\<lambda>args m. case f args (ma_objects m) of (r, ob) \<Rightarrow> (r, m\<lparr>ma_objects := ob\<rparr>))"

definition on_objects :: "object_builtin \<Rightarrow> ('w, 'p) machine_builtin" where
  "on_objects f = on_objects_outcome (\<lambda>args ob. case f args ob of (r, ob) \<Rightarrow> (Ret r, ob))"

definition builtin_names :: "string list" where
  "builtin_names =
     [
      ''cons'', ''car'', ''cdr'', ''null?'', ''eq?'', ''list'', ''+'', ''-'', ''*'', ''/'', ''='', ''<'', ''>'', ''<='', ''>='',
      ''sqrt'', ''log'', ''exp'', ''atan2'', ''abs'', ''clamp'', ''number?'', ''int?'', ''integer?'', ''float?'', ''zero?'',
      ''time.now-ms'', ''time.sleep-ms'', ''hash64'', ''json.encode'', ''json.decode'', ''image.make'', ''image.info'',
      ''blob.make'', ''blob.info'', ''rng.make'', ''rng.uniform'', ''rng.normal'', ''rng.int'', ''cap.list'', ''cap.describe'',
      ''cap.call'', ''model-service.configure'', ''model-service.check'', ''model-service.clear'', ''model-service.info'',
      ''vla.submit'', ''vla.poll'', ''vla.cancel'', ''planner.plan'', ''planner.set-base-seed'', ''planner.get-base-seed'',
      ''events.enable'', ''events.set-path'', ''events.set-ring-size'', ''events.set-flush-each-message'',
      ''events.enable-tick-audit'', ''events.dump'', ''events.snapshot-bb'', ''env.info'', ''env.attach'', ''env.configure'',
      ''env.reset'', ''env.observe'', ''env.act'', ''env.step'', ''env.run-loop'', ''env.debug-draw'', ''vec.make'', ''vec.len'',
      ''vec.get'', ''vec.set!'', ''vec.push!'', ''vec.pop!'', ''vec.clear!'', ''vec.reserve!'', ''map.make'', ''map.get'',
      ''map.has?'', ''map.set!'', ''map.del!'', ''map.keys'', ''pq.make'', ''pq.len'', ''pq.empty?'', ''pq.push!'', ''pq.peek'',
      ''pq.pop!'', ''heap-stats'', ''gc-stats'', ''gc.policy'', ''gc.set-policy!'', ''print'', ''write'', ''write-to-string'',
      ''save'', ''bt.compile'', ''bt.to-dsl'', ''bt.save-dsl'', ''bt.export-dot'', ''bt.load-dsl'', ''bt.save'', ''bt.load'',
      ''bt.new-instance'', ''bt.tick'', ''bt.reset'', ''bt.status->symbol'', ''bt.stats'', ''bt.blackboard.dump'',
      ''bt.blackboard.get'', ''bt.scheduler.stats'', ''bt.set-tick-budget-ms'']"

text \<open>The number of an object belongs to one vector, map or queue; the others of that number are empty.\<close>

definition objects_info :: "lisp_objects \<Rightarrow> object_info" where
  "objects_info ob =
     \<lparr>oi_name = (\<lambda>i. if i < length builtin_names then builtin_names ! i else []),
      oi_size = (\<lambda>i. length (lo_vecs ob i) + length (lo_maps ob i) + length (pq_data (lo_pqs ob i)))\<rparr>"

definition bt_view :: "('w, 'p) lisp_machine \<Rightarrow> ('w, 'p) bt_world" where
  "bt_view m = (ma_bt m)\<lparr>bw_objects := objects_info (ma_objects m)\<rparr>"

definition on_trees_outcome ::
  "(lisp_value list \<Rightarrow> ('w, 'p) bt_world \<Rightarrow> (lisp_exn + lisp_value) outcome \<times> ('w, 'p) bt_world) \<Rightarrow> ('w, 'p) machine_builtin" where
  "on_trees_outcome f = on_machine (\<lambda>args m. case f args (bt_view m) of (r, bt) \<Rightarrow> (r, m\<lparr>ma_bt := bt\<rparr>))"

definition on_trees :: "('w, 'p) bt_builtin \<Rightarrow> ('w, 'p) machine_builtin" where
  "on_trees f = on_trees_outcome (\<lambda>args bt. case f args bt of (r, bt) \<Rightarrow> (Ret r, bt))"

definition printing :: "print_builtin \<Rightarrow> ('w, 'p) machine_builtin" where
  "printing f =
     on_machine (\<lambda>args m. case f (objects_info (ma_objects m)) args of (r, s) \<Rightarrow> (Ret r, m\<lparr>ma_out := ma_out m @ s\<rparr>))"

subsection \<open>The table\<close>

definition core_builtins :: "('w, 'p) lisp_setup \<Rightarrow> (string \<times> ('w, 'p) machine_builtin) list" where
  "core_builtins S =
     [
      (''cons'', pure builtin_cons), (''car'', pure builtin_car), (''cdr'', pure builtin_cdr), (''null?'', pure builtin_null),
      (''eq?'', ls_rest S ''eq?''), (''list'', pure builtin_list), (''+'', pure builtin_add), (''-'', pure builtin_sub),
      (''*'', pure builtin_mul), (''/'', pure builtin_div), (''='', pure builtin_num_eq), (''<'', pure builtin_less),
      (''>'', pure builtin_greater), (''<='', pure builtin_less_equal), (''>='', pure builtin_greater_equal),
      (''sqrt'', pure builtin_sqrt), (''log'', pure (builtin_log (ls_libm S))), (''exp'', pure (builtin_exp (ls_libm S))),
      (''atan2'', pure (builtin_atan2 (ls_libm S))), (''abs'', pure builtin_abs), (''clamp'', pure builtin_clamp),
      (''number?'', pure builtin_number_pred), (''int?'', pure builtin_integer_pred), (''integer?'', pure builtin_integer_pred),
      (''float?'', pure builtin_float_pred), (''zero?'', pure builtin_zero_pred), (''time.now-ms'', ls_rest S ''time.now-ms''),
      (''time.sleep-ms'', ls_rest S ''time.sleep-ms''), (''hash64'', pure builtin_hash64),
      (''json.encode'', on_machine (\<lambda>args m. (builtin_json_encode (ls_json_depth S) (ma_objects m) args, m))),
      (''json.decode'', on_objects_outcome (builtin_json_decode (ls_arrange S))), (''image.make'', ls_rest S ''image.make''),
      (''image.info'', ls_rest S ''image.info''), (''blob.make'', ls_rest S ''blob.make''),
      (''blob.info'', ls_rest S ''blob.info''), (''rng.make'', on_objects builtin_rng_make),
      (''rng.uniform'', on_objects builtin_rng_uniform), (''rng.normal'', on_objects (builtin_rng_normal (ls_libm S))),
      (''rng.int'', on_objects builtin_rng_int), (''cap.list'', ls_rest S ''cap.list''),
      (''cap.describe'', ls_rest S ''cap.describe''), (''cap.call'', ls_rest S ''cap.call''),
      (''model-service.configure'', ls_rest S ''model-service.configure''),
      (''model-service.check'', ls_rest S ''model-service.check''), (''model-service.clear'', ls_rest S ''model-service.clear''),
      (''model-service.info'', ls_rest S ''model-service.info''), (''vla.submit'', ls_rest S ''vla.submit''),
      (''vla.poll'', ls_rest S ''vla.poll''), (''vla.cancel'', ls_rest S ''vla.cancel''),
      (''planner.plan'', ls_rest S ''planner.plan''), (''planner.set-base-seed'', ls_rest S ''planner.set-base-seed''),
      (''planner.get-base-seed'', ls_rest S ''planner.get-base-seed''), (''events.enable'', on_trees builtin_events_enable),
      (''events.set-path'', on_trees builtin_events_set_path), (''events.set-ring-size'', on_trees builtin_events_set_ring_size),
      (''events.set-flush-each-message'', on_trees builtin_events_set_flush_each_message),
      (''events.enable-tick-audit'', on_trees builtin_events_enable_tick_audit), (''events.dump'', on_trees builtin_events_dump),
      (''events.snapshot-bb'', on_trees builtin_events_snapshot_bb), (''env.info'', ls_rest S ''env.info''),
      (''env.attach'', ls_rest S ''env.attach''), (''env.configure'', ls_rest S ''env.configure''),
      (''env.reset'', ls_rest S ''env.reset''), (''env.observe'', ls_rest S ''env.observe''),
      (''env.act'', ls_rest S ''env.act''), (''env.step'', ls_rest S ''env.step''),
      (''env.run-loop'', ls_rest S ''env.run-loop''), (''env.debug-draw'', ls_rest S ''env.debug-draw''),
      (''vec.make'', on_objects builtin_vec_make), (''vec.len'', on_objects builtin_vec_len),
      (''vec.get'', on_objects builtin_vec_get), (''vec.set!'', on_objects builtin_vec_set),
      (''vec.push!'', on_objects builtin_vec_push), (''vec.pop!'', on_objects builtin_vec_pop),
      (''vec.clear!'', on_objects builtin_vec_clear), (''vec.reserve!'', on_objects builtin_vec_reserve),
      (''map.make'', on_objects builtin_map_make), (''map.get'', on_objects builtin_map_get),
      (''map.has?'', on_objects builtin_map_has), (''map.set!'', on_objects (builtin_map_set (ls_arrange S))),
      (''map.del!'', on_objects builtin_map_del), (''map.keys'', on_objects builtin_map_keys),
      (''pq.make'', on_objects builtin_pq_make), (''pq.len'', on_objects builtin_pq_len),
      (''pq.empty?'', on_objects builtin_pq_empty), (''pq.push!'', on_objects builtin_pq_push),
      (''pq.peek'', on_objects builtin_pq_peek), (''pq.pop!'', on_objects builtin_pq_pop),
      (''heap-stats'', ls_rest S ''heap-stats''), (''gc-stats'', ls_rest S ''gc-stats''),
      (''gc.policy'', ls_rest S ''gc.policy''), (''gc.set-policy!'', ls_rest S ''gc.set-policy!''),
      (''print'', printing builtin_print), (''write'', printing builtin_write),
      (''write-to-string'', printing builtin_write_to_string), (''save'', on_trees builtin_save),
      (''bt.compile'', on_trees builtin_bt_compile), (''bt.to-dsl'', on_trees builtin_bt_to_dsl),
      (''bt.save-dsl'', on_trees builtin_bt_save_dsl), (''bt.export-dot'', on_trees builtin_bt_export_dot),
      (''bt.load-dsl'', on_trees builtin_bt_load_dsl), (''bt.save'', on_trees builtin_bt_save_binary),
      (''bt.load'', on_trees builtin_bt_load_binary), (''bt.new-instance'', on_trees_outcome builtin_bt_new_instance),
      (''bt.tick'', on_trees_outcome (builtin_bt_tick (ls_halt_steps S) (ls_levels S))),
      (''bt.reset'', on_trees builtin_bt_reset), (''bt.status->symbol'', pure builtin_bt_status_to_symbol),
      (''bt.stats'', on_trees builtin_bt_stats), (''bt.blackboard.dump'', on_trees builtin_bt_blackboard_dump),
      (''bt.blackboard.get'', on_trees builtin_bt_blackboard_get), (''bt.scheduler.stats'', ls_rest S ''bt.scheduler.stats''),
      (''bt.set-tick-budget-ms'', on_trees_outcome builtin_bt_set_tick_budget_ms)]"

definition bind_primitive :: "nat \<Rightarrow> nat \<times> string \<Rightarrow> 'h lisp_world \<Rightarrow> 'h lisp_world" where
  "bind_primitive scope fn = define_name scope (snd fn) (VOther T_primitive_fn (fst fn))"

definition install_core_builtins :: "nat \<Rightarrow> 'h lisp_world \<Rightarrow> 'h lisp_world" where
  "install_core_builtins scope w =
     fold (bind_primitive scope) (enumerate 0 builtin_names)
       (define_name scope ''false'' (VBool False) (define_name scope ''true'' (VBool True) (define_name scope ''nil'' VNil w)))"

text \<open>\<open>create_global_env\<close> without extensions, in a fresh process.\<close>

definition empty_world :: "'h \<Rightarrow> 'h lisp_world" where
  "empty_world m =
     \<lparr>lw_envs = (\<lambda>_. \<lparr>ef_parent = None, ef_bindings = Map.empty\<rparr>), lw_next_env = 0,
      lw_closures = (\<lambda>_. \<lparr>cl_params = [], cl_body = [], cl_env = 0, cl_compiled = None\<rparr>), lw_next_closure = 0,
      lw_load_base_dirs = [], lw_host = m\<rparr>"

definition create_global_env :: "'h \<Rightarrow> (nat, 'h) evaluation" where
  "create_global_env m w = ebind (make_env None (w\<lparr>lw_host := m\<rparr>)) (\<lambda>scope w. (Inr scope, install_core_builtins scope w))"

definition core_host :: "('w, 'p) lisp_setup \<Rightarrow> ('w, 'p) lisp_machine lisp_host" where
  "core_host S =
     \<lparr>lh_primitive = (\<lambda>i invoke args.
        if i < length (core_builtins S) then snd (core_builtins S ! i) invoke args else fail No_fuel),
      lh_read_file = (\<lambda>path m. map_option (map char_of_byte) (bw_files (ma_bt m) path)),
      lh_store_definition = (\<lambda>d m.
        case store_definition d (bw_host (ma_bt m)) of (n, h) \<Rightarrow> (n, m\<lparr>ma_bt := (ma_bt m)\<lparr>bw_host := h\<rparr>\<rparr>))\<rparr>"

lemma core_builtins_names: "map fst (core_builtins S) = builtin_names"
  by (simp add: core_builtins_def builtin_names_def)

end
