(* ===== verification/Core_Guarantees.thy ===== *)
theory Core_Guarantees
  imports Global_Env Bt_Guarantees Lisp_Guarantees Data_Guarantees
begin

text \<open>
  Programs in the global environment. The builtins meet what the guarantees of the evaluator ask of primitive functions
  (\<open>core_primitives_sound\<close>, \<open>core_primitives_monotone\<close>), every name of the table is bound to its function, and a program that compiles a tree
  and ticks an instance of it observes the documented semantics.
\<close>

subsection \<open>The primitives\<close>

definition builtin_sound :: "('w, 'p) machine_builtin \<Rightarrow> bool" where
  "builtin_sound b \<longleftrightarrow> (\<forall>invoke args w. (\<forall>f a w. sound {} w (invoke f a w)) \<longrightarrow> sound {} w (b invoke args w))"

definition builtin_monotone :: "('w, 'p) machine_builtin \<Rightarrow> bool" where
  "builtin_monotone b \<longleftrightarrow> (\<forall>invoke invoke' args w. (\<forall>f a w. res_le (invoke f a w) (invoke' f a w)) \<longrightarrow>
     res_le (b invoke args w) (b invoke' args w))"

lemma sound_host_update: "sound {} w (r, w\<lparr>lw_host := m\<rparr>)"
  by (auto simp: sound_def live_def world_ok_def envs_ok_def extends_def)

lemma wrappers_sound [simp]:
  "builtin_sound (pure f)" "builtin_sound (on_machine g)" "builtin_sound (on_objects_outcome h)" "builtin_sound (on_objects h')"
  "builtin_sound (on_trees_outcome t)" "builtin_sound (on_trees t')" "builtin_sound (printing p)"
  by (simp_all add: builtin_sound_def pure_def on_machine_def on_objects_outcome_def on_objects_def on_trees_outcome_def on_trees_def
      printing_def sound_host_update split: prod.splits)

lemma wrappers_monotone [simp]:
  "builtin_monotone (pure f)" "builtin_monotone (on_machine g)" "builtin_monotone (on_objects_outcome h)" "builtin_monotone (on_objects h')"
  "builtin_monotone (on_trees_outcome t)" "builtin_monotone (on_trees t')" "builtin_monotone (printing p)"
  by (simp_all add: builtin_monotone_def pure_def on_machine_def on_objects_outcome_def on_objects_def on_trees_outcome_def on_trees_def
      printing_def)

lemma core_builtins_all:
  assumes "\<And>f. Q (pure f)" "\<And>f. Q (on_machine f)" "\<And>f. Q (on_objects_outcome f)" "\<And>f. Q (on_objects f)"
    "\<And>f. Q (on_trees_outcome f)" "\<And>f. Q (on_trees f)" "\<And>f. Q (printing f)" "\<And>name. Q (ls_rest S name)"
  shows "list_all (\<lambda>e. Q (snd e)) (core_builtins S)"
  by (simp add: core_builtins_def assms)

lemma core_primitives_sound:
  assumes "\<And>name. builtin_sound (ls_rest S name)"
  shows "primitives_sound (core_host S)"
proof -
  have "builtin_sound (snd (core_builtins S ! i))" if "i < length (core_builtins S)" for i
    using core_builtins_all [of builtin_sound S] assms that by (simp add: list_all_length)
  then show ?thesis by (auto simp: primitives_sound_def core_host_def builtin_sound_def)
qed

lemma core_primitives_monotone:
  assumes "\<And>name. builtin_monotone (ls_rest S name)"
  shows "primitives_monotone (core_host S)"
proof -
  have "builtin_monotone (snd (core_builtins S ! i))" if "i < length (core_builtins S)" for i
    using core_builtins_all [of builtin_monotone S] assms that by (simp add: list_all_length)
  then show ?thesis by (auto simp: primitives_monotone_def core_host_def builtin_monotone_def fail_def)
qed

subsection \<open>The global environment\<close>

lemma builtin_names_distinct: "distinct builtin_names"
  by code_simp

lemma bind_primitives_other:
  "name \<notin> snd ` set fns \<Longrightarrow> ef_bindings (lw_envs (fold (bind_primitive g) fns w) g) name = ef_bindings (lw_envs w g) name"
  by (induction fns arbitrary: w) (simp_all add: bind_primitive_def define_name_def bind_name_def)

lemma bind_primitives_bound:
  "distinct (map snd fns) \<Longrightarrow> (i, name) \<in> set fns \<Longrightarrow>
    ef_bindings (lw_envs (fold (bind_primitive g) fns w) g) name = Some (VOther T_primitive_fn i)"
proof (induction fns arbitrary: w)
  case (Cons fn fns)
  show ?case
  proof (cases "fn = (i, name)")
    case True
    then have "name \<notin> snd ` set fns" using Cons.prems(1) by force
    then have bound: "ef_bindings (lw_envs (fold (bind_primitive g) (fn # fns) w) g) name = ef_bindings (lw_envs (bind_primitive g fn w) g) name"
      by (simp add: bind_primitives_other)
    show ?thesis unfolding bound by (simp add: True bind_primitive_def define_name_def bind_name_def)
  qed (use Cons in auto)
qed simp

lemma lookup_bound: "ef_bindings (envs g) name = Some v \<Longrightarrow> lookup envs g name = Inr v"
  by (simp add: lookup.simps)

lemma install_bound:
  assumes "i < length builtin_names"
  shows "ef_bindings (lw_envs (install_core_builtins g w) g) (builtin_names ! i) = Some (VOther T_primitive_fn i)"
proof -
  have "distinct (map snd (enumerate 0 builtin_names))" by (simp add: builtin_names_distinct)
  moreover have "(i, builtin_names ! i) \<in> set (enumerate 0 builtin_names)" using assms by (simp add: in_set_enumerate_eq)
  ultimately show ?thesis unfolding install_core_builtins_def by (rule bind_primitives_bound)
qed

lemma install_host: "lw_host (install_core_builtins g w) = lw_host w"
proof -
  have "lw_host (fold (bind_primitive g) fns w) = lw_host w" for fns :: "(nat \<times> string) list" and w :: "'a lisp_world"
    by (induction fns arbitrary: w) (simp_all add: bind_primitive_def define_name_def)
  then show ?thesis by (simp add: install_core_builtins_def define_name_def)
qed

lemma tree_builtins:
  "core_builtins S ! 96 = (''bt.compile'', on_trees builtin_bt_compile)"
  "core_builtins S ! 103 = (''bt.new-instance'', on_trees_outcome builtin_bt_new_instance)"
  "core_builtins S ! 104 = (''bt.tick'', on_trees_outcome (builtin_bt_tick (ls_halt_steps S) (ls_levels S)))"
  by (simp_all add: core_builtins_def)

lemma tree_names: "builtin_names ! 96 = ''bt.compile''" "builtin_names ! 103 = ''bt.new-instance''" "builtin_names ! 104 = ''bt.tick''"
  "length builtin_names = 112"
  by (simp_all add: builtin_names_def)

subsection \<open>Programs\<close>

definition session_form :: "string \<Rightarrow> lisp_value \<Rightarrow> lisp_value" where
  "session_form name form = list_from_vector [VSym ''define'', VSym name,
     list_from_vector [VSym ''bt.new-instance'', list_from_vector [VSym ''bt.compile'', list_from_vector [VSym ''quote'', form]]]]"

definition tick_form :: "string \<Rightarrow> lisp_value" where
  "tick_form name = list_from_vector [VSym ''bt.tick'', VSym name]"

fun eval_texts :: "'h lisp_host \<Rightarrow> nat \<Rightarrow> nat \<Rightarrow> string list \<Rightarrow> 'h lisp_world \<Rightarrow> (lisp_exn + lisp_value) list" where
  "eval_texts H k scope [] w = []"
| "eval_texts H k scope (t # ts) w = (case eval_source H k t scope w of (r, w) \<Rightarrow> r # eval_texts H k scope ts w)"

lemma core_host_length: "length (core_builtins S) = 112"
  using arg_cong [OF core_builtins_names, of length S] tree_names(4) by simp

lemma core_host_primitives:
  "lh_primitive (core_host S) 96 invoke args = on_trees builtin_bt_compile invoke args"
  "lh_primitive (core_host S) 103 invoke args = on_trees_outcome builtin_bt_new_instance invoke args"
  "lh_primitive (core_host S) 104 invoke args = on_trees_outcome (builtin_bt_tick (ls_halt_steps S) (ls_levels S)) invoke args"
  by (simp_all add: core_host_def core_host_length tree_builtins)

lemma keeps_objects:
  "bw_objects (snd (builtin_bt_tick hf k args w)) = bw_objects w"
  "bw_objects (snd (builtin_bt_new_instance args w)) = bw_objects w"
  "bw_objects (snd (builtin_bt_compile args w)) = bw_objects w"
  by (auto simp: builtin_bt_tick_def builtin_bt_new_instance_def builtin_bt_compile_def bbind_def store_def
      split: sum.splits prod.splits outcome.splits)

lemma bt_view_same: "bw_objects bt = objects_info (ma_objects m) \<Longrightarrow> bt_view (m\<lparr>ma_bt := bt\<rparr>) = bt"
  by (simp add: bt_view_def)

lemma bt_view_objects: "bw_objects (bt_view m) = objects_info (ma_objects m)"
  by (simp add: bt_view_def)

lemma eval_tick:
  assumes "read_all source = Inr [tick_form name]" "ef_bindings (lw_envs w g) ''bt.tick'' = Some (VOther T_primitive_fn 104)"
    "ef_bindings (lw_envs w g) name = Some inst"
  shows "eval_source (core_host S) (Suc (Suc k)) source g w =
    (case builtin_bt_tick (ls_halt_steps S) (ls_levels S) [inst] (bt_view (lw_host w)) of
       (r, bt) \<Rightarrow> (answered r, w\<lparr>lw_host := (lw_host w)\<lparr>ma_bt := bt\<rparr>\<rparr>))"
proof -
  obtain r bt where tick: "builtin_bt_tick (ls_halt_steps S) (ls_levels S) [inst] (bt_view (lw_host w)) = (r, bt)" by force
  show ?thesis
    using assms tick
    by (cases "answered r") (simp_all add: eval_source_def parse_source_def tick_form_def eval_unfold list_from_vector_def
        core_host_primitives on_trees_outcome_def on_machine_def split_def)
qed

lemma eval_ticks:
  assumes "read_all source = Inr [tick_form name]" "ef_bindings (lw_envs w g) ''bt.tick'' = Some (VOther T_primitive_fn 104)"
    "ef_bindings (lw_envs w g) name = Some inst"
  shows "eval_texts (core_host S) (Suc (Suc k)) g (replicate n source) w =
    map answered (lisp_ticks (ls_halt_steps S) (ls_levels S) inst n (bt_view (lw_host w)))"
  using assms(2,3)
proof (induction n arbitrary: w)
  case (Suc n)
  obtain r bt where tick: "builtin_bt_tick (ls_halt_steps S) (ls_levels S) [inst] (bt_view (lw_host w)) = (r, bt)" by force
  define w' where "w' = w\<lparr>lw_host := (lw_host w)\<lparr>ma_bt := bt\<rparr>\<rparr>"
  have "bw_objects bt = objects_info (ma_objects (lw_host w))"
    using keeps_objects(1) [of "ls_halt_steps S" "ls_levels S" "[inst]" "bt_view (lw_host w)"] tick by (simp add: bt_view_objects)
  then have "bt_view (lw_host w') = bt" by (simp add: w'_def bt_view_same)
  moreover have "eval_source (core_host S) (Suc (Suc k)) source g w = (answered r, w')"
    using eval_tick [OF assms(1) Suc.prems, of S k] tick by (simp add: w'_def)
  moreover have "eval_texts (core_host S) (Suc (Suc k)) g (replicate n source) w' =
      map answered (lisp_ticks (ls_halt_steps S) (ls_levels S) inst n (bt_view (lw_host w')))"
    using Suc.prems by (intro Suc.IH) (simp_all add: w'_def)
  ultimately show ?case using tick by simp
qed simp

lemma eval_session:
  assumes "read_all source = Inr [session_form name form]"
    "ef_bindings (lw_envs w g) ''bt.compile'' = Some (VOther T_primitive_fn 96)"
    "ef_bindings (lw_envs w g) ''bt.new-instance'' = Some (VOther T_primitive_fn 103)"
    "builtin_bt_compile [form] (bt_view (lw_host w)) = (Inr def, bt)" "builtin_bt_new_instance [def] bt = (Ret (Inr inst), bt')"
  shows "eval_source (core_host S) (Suc (Suc (Suc (Suc k)))) source g w =
    (Inr inst, define_name g name inst (w\<lparr>lw_host := (lw_host w)\<lparr>ma_bt := bt'\<rparr>\<rparr>))"
proof -
  have "bw_objects bt = objects_info (ma_objects (lw_host w))"
    using keeps_objects(3) [of "[form]" "bt_view (lw_host w)"] assms(4) by (simp add: bt_view_objects)
  then have "bt_view ((lw_host w)\<lparr>ma_bt := bt\<rparr>) = bt" by (rule bt_view_same)
  then show ?thesis
    using assms
    by (simp add: eval_source_def parse_source_def session_form_def eval_unfold list_from_vector_def core_host_primitives
        on_trees_outcome_def on_trees_def on_machine_def split_def answered_def eval_define_form_def expect_exact_def)
qed


definition demo_machine :: "(gc_heap, unit) lisp_machine" where
  "demo_machine = \<lparr>ma_bt = demo_bt_world, ma_objects = empty_objects, ma_out = []\<rparr>"

definition demo_setup :: "(gc_heap, unit) lisp_setup" where
  "demo_setup = \<lparr>ls_libm = \<lparr>lm_log = id, lm_exp = id, lm_atan2 = (\<lambda>a _. a), lm_sin = id, lm_cos = id\<rparr>, ls_arrange = id, ls_halt_steps = 9, ls_levels = 3,
     ls_json_depth = 100, ls_rest = (\<lambda>_ _ _. fail (Lisp_error ''not available''))\<rparr>"

definition demo_program :: string where
  "demo_program = ''(define inst (bt.new-instance (bt.compile (quote (seq (act always-success) (cond always-true))))))''"

lemma demo_machine_compiles: "fst (builtin_bt_compile [demo_form] (bt_view demo_machine)) = Inr (VOther T_bt_def 1)"
proof -
  obtain shown where "written (objects_info empty_objects) demo_form = Inr shown"
    using written_read_back [OF demo_written, of "objects_info empty_objects"] by (auto simp: written_def)
  then show ?thesis
    by (simp add: builtin_bt_compile_def require_arity_def bbind_def demo_form_compiles attach_dsl_identity_metadata_def demo_dsl bt_view_def
        demo_machine_def demo_bt_world_def store_def store_definition_def Let_def shipped_host_def runtime_host_new_def)
qed


end
