(* ===== verification/Spec2Isabelle.thy ===== *)
theory Spec2Isabelle
  imports Leaf_Safety Vla_Guarantees Lisp_Guarantees Host_Guarantees Data_Guarantees Bt_Guarantees Json_Guarantees Core_Guarantees
begin

text \<open>
  A verification library for muesli-bt, a behaviour-tree runtime with a small Lisp front end.

  \<^bold>\<open>The program.\<close> A tree is written as a Lisp form, compiled to a flat vector of nodes
  (\<open>src/bt/compiler.cpp\<close>), optionally saved to and loaded from a binary file
  (\<open>src/bt/serialisation.cpp\<close>), and ticked by the runtime (\<open>src/bt/runtime.cpp\<close>). A tick walks the tree,
  calls registered C++ callbacks (\<open>src/bt/registry.cpp\<close>) and the planner and VLA services, reads and writes
  the blackboard (\<open>src/bt/blackboard.cpp\<close>), keeps per-node memory, measures itself against a time
  budget, and reports through trace buffer, log, profile (\<open>src/bt/trace.cpp\<close>, \<open>logging.cpp\<close>,
  \<open>profile.cpp\<close>) and event log (\<open>src/bt/event_log.cpp\<close>). Asynchronous work runs on a thread pool
  (\<open>src/bt/scheduler.cpp\<close>). Arguments of callbacks live on a Lisp heap with a mark-and-sweep collector
  (\<open>src/gc.cpp\<close>, \<open>src/value.cpp\<close>). The Lisp front end reads and prints values (\<open>src/reader.cpp\<close>,
  \<open>src/printer.cpp\<close>) evaluates expressions (\<open>src/eval.cpp\<close>, \<open>src/env.cpp\<close>) and compiles the bodies of
  closures to bytecode (\<open>src/compiled_eval.cpp\<close>). Its builtins (\<open>src/builtins.cpp\<close>) give numbers, containers and the trees to Lisp programs. The runtime host (\<open>src/bt/runtime_host.cpp\<close>) owns definitions and instances
  and registers the built-in callbacks.

  \<^bold>\<open>The theories.\<close>
  \<^item> \<open>Prelude\<close>: result types (\<open>outcome\<close> with \<open>Ret\<close>, \<open>Throw\<close>, \<open>Undef\<close> for undefined behaviour and
    \<open>Diverge\<close>), early returns, decimal text, bounded queues; the interface \<open>bounded_log\<close>.
  \<^item> \<open>Ast\<close>, \<open>Compiler\<close>, \<open>Serialisation\<close>: the tree, its compiler, the binary format. A compiled
    definition is a tree in post-order; saving and loading is a round trip; truncated files are
    rejected; whatever is loaded is valid but may be cyclic.
  \<^item> \<open>Doubles\<close>: IEEE doubles as 64-bit words, with the comparisons and conversions the runtime uses.
  \<^item> \<open>Observability\<close>, \<open>Event_Log\<close>, \<open>Blackboard\<close>, \<open>Scheduler\<close>: one theory per component, each with its
    state as a record, its operations and its invariant. The scheduler is a step relation over the
    critical sections of its threads.
  \<^item> \<open>Context\<close>: instances and the tick context, budget and observability helpers.
  \<^item> \<open>Vla_Node\<close>, \<open>Plan_Node\<close>: the leaves that use the planner and VLA services.
  \<^item> \<open>Gc\<close>, \<open>Collection\<close>: the heap and its collector, and its correctness: marking reaches exactly
    the reachable nodes, an invariant kept by all operations of collector and program, no collection
    during a tick under the strict policy.
  \<^item> \<open>Registry\<close>, \<open>Halting\<close>, \<open>Runtime\<close>, \<open>Tick\<close>: callbacks and services, halting of subtrees, \<open>tick_node\<close>
    with every node kind, and the entry points of the runtime.
  \<^item> \<open>Frame\<close>: the locale \<open>context_relation\<close>, the laws under which a relation between contexts is kept by
    every operation of a tick; interpreted on what a tick leaves alone and on what only grows.
  \<^item> \<open>Progress\<close>: ticking ends, with explicit bounds. \<open>Samples\<close>: a concrete host and tree.
  \<^item> \<open>Refinement\<close>: the documented semantics (\<open>docs/bt/semantics.md\<close>) as an abstract machine on trees with
    one cell per node, and the simulation by \<open>tick_node\<close>.
  \<^item> \<open>Ticks\<close>: whole ticks: the refinement over any number of ticks, accounting, halting, reset,
    overruns, progress of decorators. \<open>Leaf_Safety\<close>: what the planner and VLA leaves guarantee.
  \<^item> \<open>Vla_Checks\<close>, \<open>Vla_Service\<close>: the VLA service (\<open>src/bt/vla.cpp\<close>): checks of requests and actions, hashes and
    JSON, the built-in backends; then jobs, cache and records as a state, and every method as steps of
    threads, one per critical section, interleaved with the workers of the scheduler.
  \<^item> \<open>Vla_Jobs\<close>, \<open>Vla_Guarantees\<close>: the life cycle of a job as a relation that every step respects, and what follows: a
    done job has a checked answer, stays done, and was not cancelled before.
  \<^item> \<open>Reader\<close>, \<open>Syntax\<close>: the text syntax of Lisp values, with the exact conversion between decimal text and
    doubles. The reader is characterised by a grammar (\<open>reads\<close>); it always ends, texts can be joined, a beginning
    of a good text is never rejected, and written data reads back.
  \<^item> \<open>Bytecode\<close>, \<open>Bytecode_Correct\<close>: the compiler of closure bodies and its stack machine, with the frame as
    unit of execution; the machine agrees with an evaluator of expressions (\<open>ref_eval\<close>).
  \<^item> \<open>Lisp_Eval\<close>: the evaluator; \<open>Lisp_Fuel\<close>: its answers do not depend on fuel; \<open>Lisp_Scope\<close>: what an
    evaluation may change; \<open>Lisp_Guarantees\<close>: lexical scope, tail calls, calls of compiled closures.
  \<^item> \<open>Demo_Callbacks\<close>, \<open>Runtime_Host\<close>: the built-in callbacks and the host; \<open>Host_Guarantees\<close>: handles stay valid, ticks over the
    built-in callbacks return, instances are independent.
  \<^item> \<open>Builtins_Num\<close>, \<open>Builtins_Rng\<close>, \<open>Std_Heap\<close>, \<open>Builtins_Data\<close>: the builtins on lists, numbers, random numbers, vectors, maps and
    priority queues (\<open>src/builtins.cpp\<close>), the latter over the heap functions of the C++ library; \<open>Data_Guarantees\<close>: queues are stable, maps
    are finite maps. Integer arithmetic is exact or fails.
  \<^item> \<open>Builtins_Json\<close>, \<open>Json_Parser\<close>, \<open>Json_Guarantees\<close>: the JSON builtins; decoding ends, and what was encoded is decoded again.
  \<^item> \<open>Dsl_Export\<close>, \<open>Builtins_Bt\<close>: the builtins on trees, instances, blackboards and the event log; \<open>Bt_Guarantees\<close>: a session from Lisp follows
    the documented semantics, and trees survive being saved as text.
  \<^item> \<open>Global_Env\<close>, \<open>Core_Guarantees\<close>: printing, the collector's builtins and the table of all builtins; the hypotheses of the evaluator's
    guarantees hold for the table, and a program text that compiles and ticks a tree observes the documented semantics.

  \<^bold>\<open>Modelling choices.\<close> Doubles and 64-bit integers are words; counters, clock times and container
  sizes that the code never lets wrap in practice are unbounded. Strings are lists of bytes (characters). Hash maps are
  functions or association lists. Services, callbacks and the clock are parameters: functions on an
  abstract world, with what the code relies on as named hypotheses (\<open>callbacks_respect\<close>, \<open>local_halts\<close>,
  \<open>leaves_answer\<close>, \<open>positive_ids\<close>, and for primitive functions \<open>primitives_sound\<close>, \<open>primitives_monotone\<close>). Signed overflow, reads outside a vector and following a pointer to a
  freed node are \<open>Undef\<close>.

  \<^bold>\<open>Fuel.\<close> \<open>tick_node\<close> takes the number of levels it may descend; a node of a well-formed definition
  needs one more than its id (\<open>Progress.tick_node_settles\<close>), and no number is enough on a cyclic
  definition. Halting takes a number of steps; the size of the largest subtree is enough
  (\<open>enough_halt_steps\<close>). Reading takes a number of calls linear in the length of the text (\<open>Syntax.read_all_total\<close>), a frame
  as many steps as it has instructions (\<open>Bytecode_Correct.compiled_frame_ends\<close>). An evaluation takes the depth of nested
  calls and bounces; it may need any number, and once it ends, more do not change it (\<open>Lisp_Guarantees.eval_determined\<close>). Decoding JSON takes a number of calls linear in the length of the text
  (\<open>Json_Parser.parse_calls\<close>); encoding takes a depth, and none is enough for a vector that holds itself. Marking needs no fuel: every step marks a node or shortens the list.

  \<^bold>\<open>Not modelled.\<close> The searches of the planner service (floating-point optimisation over user models), the
  final wait of the VLA service's destructor, the model service client (sockets), its glue in the
  runtime host, the Lisp builtins for planner, VLA service, model service, capabilities, environments and clock, \<open>eq?\<close> (they are a parameter of the table of builtins), the command line, simulator integrations, benchmarks and examples. Write errors of a file after
  it was opened, and exceptions thrown by loggers and listeners, are not modelled.
\<close>

subsection \<open>From the form to the ticks\<close>


lemma sample_compiled_leaves: "leaves_answer sample_compiled sample_host (\<lambda>_ _. Failure)"
  unfolding leaves_answer_def sample_compiled_def finish_def
  by (auto simp: eval_nat_numeral less_Suc_eq callback_leaf_def named_leaf_def service_leaf_def tick_body_def tick_act_def
      leaf_error_def touches_def Let_def definition_default_def node_default_def)


subsection \<open>From the source to the ticks\<close>


definition demo_source :: string where
  "demo_source = ''(defbt t (seq (act always-success) (cond always-true)))''"

definition demo_lisp :: "(gc_heap, unit) runtime_host lisp_host" where
  "demo_lisp = \<lparr>lh_primitive = (\<lambda>i inv args. ok_value VNil), lh_read_file = (\<lambda>_ _. None), lh_store_definition = store_definition\<rparr>"

definition demo_world :: "(gc_heap, unit) runtime_host lisp_world" where
  "demo_world = \<lparr>lw_envs = (\<lambda>_. \<lparr>ef_parent = None, ef_bindings = Map.empty\<rparr>), lw_next_env = 1,
     lw_closures = (\<lambda>_. \<lparr>cl_params = [], cl_body = [], cl_env = 0, cl_compiled = None\<rparr>), lw_next_closure = 0,
     lw_load_base_dirs = [], lw_host = shipped_host\<rparr>"


end
